(* ===== verification/Goto_Prelude.thy ===== *)
theory Goto_Prelude
  imports Main "HOL-Library.AList"
begin

text \<open>
  Shared vocabulary of the development.

  \<^item> Go maps are association lists read by \<open>map_of\<close>; the first binding of a key is the
    live one, \<open>mput\<close> and \<open>mdel\<close> are assignment and \<open>delete\<close>, and \<open>mwf\<close> says that no
    key is bound twice. Iteration order is the order of the list: Go leaves it unspecified, so a
    theorem about a loop holds for every order because it holds for every list.
  \<^item> Strings are byte lists. \<open>ToLower\<close> and \<open>EqualFold\<close> fold the ASCII letters; the URIs,
    header names and labels the server compares with them are ASCII.
  \<^item> \<open>parse_int\<close> is \<open>strconv.ParseInt\<close> in base 10 for a given width, with the value that
    Go returns together with each error.
  \<^item> A handler returns its new state and an \<open>http_out\<close>: the status codes it writes, the
    response headers it adds and the titles of the events it sends. Log lines and the text of
    response bodies are not modelled.
  \<^item> The locales \<open>countdown\<close> and \<open>port_local\<close> are contracts that several components
    share: a behaviour that is served to a fixed number of requests and then stops, and
    configuration that is kept separately for each port.
\<close>

named_theorems go_simps "equations of the model's operations"
named_theorems go_split "case splits of the model's result types"

section \<open>Go maps\<close>

type_synonym ('k, 'v) gomap = "('k \<times> 'v) list"

abbreviation mget :: "('k, 'v) gomap \<Rightarrow> 'k \<Rightarrow> 'v option" where
  "mget m k \<equiv> map_of m k"

abbreviation mput :: "'k \<Rightarrow> 'v \<Rightarrow> ('k, 'v) gomap \<Rightarrow> ('k, 'v) gomap" where
  "mput k v m \<equiv> AList.update k v m"

abbreviation mdel :: "'k \<Rightarrow> ('k, 'v) gomap \<Rightarrow> ('k, 'v) gomap" where
  "mdel k m \<equiv> AList.delete k m"

definition mwf :: "('k, 'v) gomap \<Rightarrow> bool" where
  "mwf m \<longleftrightarrow> distinct (map fst m)"

text \<open>The zero value that Go's \<open>m[k]\<close> yields for a missing key.\<close>

definition mget_or :: "'v \<Rightarrow> ('k, 'v) gomap \<Rightarrow> 'k \<Rightarrow> 'v" where
  "mget_or z m k = (case mget m k of None \<Rightarrow> z | Some v \<Rightarrow> v)"

text \<open>Go's \<open>m[k]++\<close> on a map of integers.\<close>

definition mbump :: "'k \<Rightarrow> ('k, int) gomap \<Rightarrow> ('k, int) gomap" where
  "mbump k m = mput k (mget_or 0 m k + 1) m"

text \<open>\<open>maps.Copy\<close>: every entry of the second map is written into the first.\<close>

definition map_merge :: "('k, 'v) gomap \<Rightarrow> ('k, 'v) gomap \<Rightarrow> ('k, 'v) gomap" where
  "map_merge m m2 = fold (\<lambda>(k, v). mput k v) m2 m"

section \<open>Go strings\<close>

definition lower_char :: "char \<Rightarrow> char" where
  "lower_char c = (if 65 \<le> (of_char c :: int) \<and> (of_char c :: int) \<le> 90
     then char_of ((of_char c :: int) + 32) else c)"

definition ToLower :: "string \<Rightarrow> string" where
  "ToLower s = map lower_char s"

definition EqualFold :: "string \<Rightarrow> string \<Rightarrow> bool" where
  "EqualFold a b \<longleftrightarrow> ToLower a = ToLower b"

definition HasPrefix :: "string \<Rightarrow> string \<Rightarrow> bool" where
  "HasPrefix s p \<longleftrightarrow> take (length p) s = p"

definition HasSuffix :: "string \<Rightarrow> string \<Rightarrow> bool" where
  "HasSuffix s p \<longleftrightarrow> length p \<le> length s \<and> drop (length s - length p) s = p"

fun str_index :: "string \<Rightarrow> string \<Rightarrow> nat option" where
  "str_index [] p = (if p = [] then Some 0 else None)"
| "str_index (c # cs) p =
     (if HasPrefix (c # cs) p then Some 0 else map_option Suc (str_index cs p))"

definition Contains :: "string \<Rightarrow> string \<Rightarrow> bool" where
  "Contains s p \<longleftrightarrow> str_index s p \<noteq> None"

text \<open>\<open>strings.Split\<close> with a one-byte separator; it never returns an empty slice.\<close>

fun split_on :: "char \<Rightarrow> string \<Rightarrow> string list" where
  "split_on d [] = [[]]"
| "split_on d (c # cs) =
     (if c = d then [] # split_on d cs
      else (case split_on d cs of [] \<Rightarrow> [[c]] | p # ps \<Rightarrow> (c # p) # ps))"

text \<open>\<open>strings.Split\<close> with a separator of any positive length.\<close>

lemma str_index_bound: "str_index s p = Some i \<Longrightarrow> i + length p \<le> length s"
proof (induction s p arbitrary: i rule: str_index.induct)
  case (2 c cs p)
  show ?case
  proof (cases "HasPrefix (c # cs) p")
    case True
    then have "length p \<le> length (c # cs)"
      by (metis HasPrefix_def length_take min.cobounded1)
    with True "2.prems" show ?thesis by simp
  next
    case False
    with "2.prems" obtain j where j: "str_index cs p = Some j" "i = Suc j" by auto
    with "2.IH" [OF False, of j] show ?thesis by simp
  qed
qed (auto split: if_splits)

function split_str :: "string \<Rightarrow> string \<Rightarrow> string list" where
  "split_str sep s =
     (case str_index s sep of
        None \<Rightarrow> [s]
      | Some i \<Rightarrow> (if sep = [] then [s] else take i s # split_str sep (drop (i + length sep) s)))"
  by pat_completeness auto
termination
proof (relation "measure (\<lambda>(sep, s). length s)")
  fix sep s :: string and i :: nat
  assume "str_index s sep = Some i" and "sep \<noteq> []"
  then have "i + length sep \<le> length s" and "0 < length sep"
    by (auto dest: str_index_bound)
  then show "((sep, drop (i + length sep) s), (sep, s)) \<in> measure (\<lambda>(sep, s). length s)"
    unfolding in_measure by (simp only: split_conv length_drop)
qed simp

declare split_str.simps [simp del]

fun join_with :: "string \<Rightarrow> string list \<Rightarrow> string" where
  "join_with sep [] = []"
| "join_with sep [p] = p"
| "join_with sep (p # q # ps) = p @ sep @ join_with sep (q # ps)"

definition strip_char :: "char \<Rightarrow> string \<Rightarrow> string" where
  "strip_char d s = filter (\<lambda>c. c \<noteq> d) s"

definition TrimLeft :: "string \<Rightarrow> string \<Rightarrow> string" where
  "TrimLeft s cs = dropWhile (\<lambda>c. c \<in> set cs) s"

definition TrimRight :: "string \<Rightarrow> string \<Rightarrow> string" where
  "TrimRight s cs = rev (dropWhile (\<lambda>c. c \<in> set cs) (rev s))"

definition is_space :: "char \<Rightarrow> bool" where
  "is_space c \<longleftrightarrow> (of_char c :: int) \<in> {9, 10, 11, 12, 13, 32}"

definition TrimSpace :: "string \<Rightarrow> string" where
  "TrimSpace s = rev (dropWhile is_space (rev (dropWhile is_space s)))"

section \<open>Parsing and printing integers\<close>

datatype num_error = ErrSyntax | ErrRange

definition digit_of :: "char \<Rightarrow> int option" where
  "digit_of c = (if 48 \<le> (of_char c :: int) \<and> (of_char c :: int) \<le> 57
     then Some (of_char c - 48) else None)"

text \<open>The digit loop of \<open>strconv.ParseUint\<close>: it stops at the first byte that is not a digit
  (syntax error) or at the first prefix whose value leaves the range (range error).\<close>

fun parse_digits :: "nat \<Rightarrow> int \<Rightarrow> string \<Rightarrow> num_error + int" where
  "parse_digits w n [] = Inr n"
| "parse_digits w n (c # cs) =
     (case digit_of c of
        None \<Rightarrow> Inl ErrSyntax
      | Some d \<Rightarrow> (if 2 ^ w \<le> n * 10 + d then Inl ErrRange else parse_digits w (n * 10 + d) cs))"

definition parse_uint :: "nat \<Rightarrow> string \<Rightarrow> num_error + int" where
  "parse_uint w s = (if s = [] then Inl ErrSyntax else parse_digits w 0 s)"

text \<open>\<open>strconv.ParseInt(s, 10, w)\<close>: the returned value, and whether the error is nil. A syntax
  error comes with 0, a range error with the nearest value of the width.\<close>

definition parse_int :: "nat \<Rightarrow> string \<Rightarrow> int \<times> bool" where
  "parse_int w s =
     (let neg = HasPrefix s ''-'';
          body = (if HasPrefix s ''-'' \<or> HasPrefix s ''+'' then drop 1 s else s)
      in case parse_uint w body of
           Inl ErrSyntax \<Rightarrow> (0, False)
         | Inl ErrRange \<Rightarrow> (if neg then - (2 ^ (w - 1)) else 2 ^ (w - 1) - 1, False)
         | Inr un \<Rightarrow>
             (if \<not> neg \<and> 2 ^ (w - 1) \<le> un then (2 ^ (w - 1) - 1, False)
              else if neg \<and> 2 ^ (w - 1) < un then (- (2 ^ (w - 1)), False)
              else (if neg then - un else un, True)))"

function int_digits :: "int \<Rightarrow> string" where
  "int_digits n = (if n < 10 then [char_of (48 + n)]
     else int_digits (n div 10) @ [char_of (48 + n mod 10)])"
  by pat_completeness auto
termination
  by (relation "measure nat") auto

declare int_digits.simps [simp del]

text \<open>\<open>strconv.Itoa\<close>\<close>

definition Itoa :: "int \<Rightarrow> string" where
  "Itoa i = (if i < 0 then CHR ''-'' # int_digits (- i) else int_digits i)"

section \<open>Signed 64-bit arithmetic\<close>

definition wrap64 :: "int \<Rightarrow> int" where
  "wrap64 x = (x + 2 ^ 63) mod 2 ^ 64 - 2 ^ 63"

definition is_int64 :: "int \<Rightarrow> bool" where
  "is_int64 x \<longleftrightarrow> - (2 ^ 63) \<le> x \<and> x < 2 ^ 63"

text \<open>Go's integer division truncates towards zero.\<close>

definition quot :: "int \<Rightarrow> int \<Rightarrow> int" where
  "quot a b = sgn a * sgn b * (\<bar>a\<bar> div \<bar>b\<bar>)"

section \<open>Handlers: requests and effects\<close>

text \<open>
  What the handlers read of a request: the port resolved by \<open>util.GetRequestOrListenerPort\<close>
  (as text and as a number), the request URI and path, the headers, the path variables of the
  router and the query values, and the two classification bits of the request store.
\<close>

record request =
  reqPort :: string
  reqPortNum :: int
  RequestURI :: string
  URLPath :: string
  reqMethod :: string
  reqHeaders :: "(string, string list) gomap"
  reqVars :: "(string, string) gomap"
  reqQuery :: "(string, string list) gomap"
  IsKnownNonTraffic :: bool
  IsAdminRequest :: bool

record http_out =
  wcodes :: "int list"
  whdrs :: "(string \<times> string) list"
  wevts :: "string list"

definition no_out :: http_out where
  "no_out = \<lparr>wcodes = [], whdrs = [], wevts = []\<rparr>"

definition WriteHeader :: "int \<Rightarrow> http_out \<Rightarrow> http_out" where
  "WriteHeader c w = w\<lparr>wcodes := wcodes w @ [c]\<rparr>"

definition AddHeader :: "string \<Rightarrow> string \<Rightarrow> http_out \<Rightarrow> http_out" where
  "AddHeader h v w = w\<lparr>whdrs := whdrs w @ [(h, v)]\<rparr>"

definition SendEvent :: "string \<Rightarrow> http_out \<Rightarrow> http_out" where
  "SendEvent t w = w\<lparr>wevts := wevts w @ [t]\<rparr>"

text \<open>
  \<open>textproto.CanonicalMIMEHeaderKey\<close>: upper case for the first letter and for every letter after a
  hyphen, lower case for the others; a key with a byte that no header name may hold is left as it
  is. \<open>http.Header.Get\<close> returns the first value under the canonical form of the key.
\<close>

definition upper_char :: "char \<Rightarrow> char" where
  "upper_char c = (if 97 \<le> (of_char c :: int) \<and> (of_char c :: int) \<le> 122
     then char_of ((of_char c :: int) - 32) else c)"

definition header_byte :: "char \<Rightarrow> bool" where
  "header_byte c \<longleftrightarrow>
     (let n = (of_char c :: int) in
      48 \<le> n \<and> n \<le> 57 \<or> 65 \<le> n \<and> n \<le> 90 \<or> 97 \<le> n \<and> n \<le> 122 \<or>
      n \<in> {33, 35, 36, 37, 38, 39, 42, 43, 45, 46, 94, 95, 96, 124, 126})"

fun canon_chars :: "bool \<Rightarrow> string \<Rightarrow> string" where
  "canon_chars upper [] = []"
| "canon_chars upper (c # cs) =
     (if upper then upper_char c else lower_char c) # canon_chars (c = CHR ''-'') cs"

definition CanonicalHeaderKey :: "string \<Rightarrow> string" where
  "CanonicalHeaderKey k = (if list_all header_byte k then canon_chars True k else k)"

definition header_Get :: "(string, string list) gomap \<Rightarrow> string \<Rightarrow> string" where
  "header_Get hs h = (case mget_or [] hs (CanonicalHeaderKey h) of v # vs \<Rightarrow> v | [] \<Rightarrow> [])"

section \<open>Lemmas on maps\<close>

lemma mput_get [simp]: "mget (mput k v m) k' = (if k' = k then Some v else mget m k')"
  by (simp add: update_conv')

lemma mdel_get [simp]: "mget (mdel k m) k' = (if k' = k then None else mget m k')"
  by (simp add: delete_conv')

lemma mget_or_put [simp]: "mget_or z (mput k v m) k' = (if k' = k then v else mget_or z m k')"
  by (simp add: mget_or_def)

lemma mget_or_del [simp]: "mget_or z (mdel k m) k' = (if k' = k then z else mget_or z m k')"
  by (simp add: mget_or_def)

lemma mget_or_Nil [simp]: "mget_or z [] k = z"
  by (simp add: mget_or_def)

lemma mget_or_bump [simp]:
  "mget_or 0 (mbump k m) k' = mget_or 0 m k' + (if k' = k then 1 else 0)"
  by (simp add: mbump_def)

lemma mwf_Nil [simp, intro]: "mwf []"
  by (simp add: mwf_def)

lemma mwf_put [simp, intro]: "mwf m \<Longrightarrow> mwf (mput k v m)"
  by (simp add: mwf_def distinct_update)

lemma mwf_del [simp, intro]: "mwf m \<Longrightarrow> mwf (mdel k m)"
  by (simp add: mwf_def distinct_delete)

lemma mwf_bump [simp, intro]: "mwf m \<Longrightarrow> mwf (mbump k m)"
  by (simp add: mbump_def)

lemma mget_in_set: "mget m k = Some v \<Longrightarrow> (k, v) \<in> set m"
  by (rule map_of_SomeD)

lemma mwf_get_iff: "mwf m \<Longrightarrow> mget m k = Some v \<longleftrightarrow> (k, v) \<in> set m"
  by (simp add: mwf_def)

lemma mdel_Nil_iff: "mdel k m = [] \<longleftrightarrow> fst ` set m \<subseteq> {k}"
  by (auto simp: AList.delete_eq filter_empty_conv)

lemma mput_set_subset: "set (mput k v m) \<subseteq> insert (k, v) (set m)"
  by (induction m) auto

lemma mdel_set_subset: "set (mdel k m) \<subseteq> set m"
  by (auto simp: AList.delete_eq)

lemma map_merge_get: "mwf m2 \<Longrightarrow> mget (map_merge m m2) k = (case mget m2 k of Some v \<Rightarrow> Some v | None \<Rightarrow> mget m k)"
proof (induction m2 arbitrary: m)
  case (Cons e m2)
  obtain k' v where e: "e = (k', v)" by (cases e)
  have "mget m2 k' = None" and wf: "mwf m2"
    using Cons.prems by (auto simp: e mwf_def map_of_eq_None_iff)
  then show ?case
    using Cons.IH [OF wf, of "mput k' v m"] by (auto simp: e map_merge_def split: option.splits)
qed (simp add: map_merge_def)

lemma map_merge_wf: "mwf m \<Longrightarrow> mwf (map_merge m m2)"
  unfolding map_merge_def by (induction m2 arbitrary: m) auto

lemma find_app: "find P (xs @ ys) = (case find P xs of None \<Rightarrow> find P ys | Some x \<Rightarrow> Some x)"
  by (induction xs) auto

section \<open>Lemmas on strings\<close>

lemma of_char_range [simp]: "0 \<le> (of_char c :: int)" "(of_char c :: int) < 256"
proof -
  have "(of_char c :: int) = int (of_char c)"
    by (simp add: of_nat_of_char)
  then show "0 \<le> (of_char c :: int)" and "(of_char c :: int) < 256"
    using nat_of_char_less_256 [of c] by simp_all
qed

lemma of_char_char_of_int: "0 \<le> n \<Longrightarrow> n < 256 \<Longrightarrow> (of_char (char_of n) :: int) = n"
  by (simp add: of_char_of)

lemma lower_char_idem [simp]: "lower_char (lower_char c) = lower_char c"
proof (cases "65 \<le> (of_char c :: int) \<and> (of_char c :: int) \<le> 90")
  case True
  then have "(of_char (lower_char c) :: int) = of_char c + 32"
    by (simp add: lower_char_def of_char_char_of_int)
  with True show ?thesis by (simp add: lower_char_def)
next
  case False
  then show ?thesis by (auto simp: lower_char_def)
qed

lemma ToLower_idem [simp]: "ToLower (ToLower s) = ToLower s"
  by (simp add: ToLower_def)

lemma ToLower_Nil [simp]: "ToLower [] = []"
  by (simp add: ToLower_def)

lemma ToLower_eq_Nil [simp]: "ToLower s = [] \<longleftrightarrow> s = []"
  by (simp add: ToLower_def)

lemma EqualFold_refl [simp]: "EqualFold s s"
  by (simp add: EqualFold_def)

lemma EqualFold_sym: "EqualFold a b \<longleftrightarrow> EqualFold b a"
  by (auto simp: EqualFold_def)

lemma EqualFold_trans: "EqualFold a b \<Longrightarrow> EqualFold b c \<Longrightarrow> EqualFold a c"
  by (simp add: EqualFold_def)

lemma EqualFold_lower [simp]: "EqualFold (ToLower a) b \<longleftrightarrow> EqualFold a b"
  by (simp add: EqualFold_def)

lemma EqualFold_lower2 [simp]: "EqualFold a (ToLower b) \<longleftrightarrow> EqualFold a b"
  by (simp add: EqualFold_def)

lemma EqualFold_Nil [simp]: "EqualFold [] s \<longleftrightarrow> s = []" "EqualFold s [] \<longleftrightarrow> s = []"
  by (auto simp: EqualFold_def ToLower_def)

lemma HasPrefix_iff: "HasPrefix s p \<longleftrightarrow> (\<exists>t. s = p @ t)"
proof
  assume "HasPrefix s p"
  then have "s = p @ drop (length p) s"
    by (metis HasPrefix_def append_take_drop_id)
  then show "\<exists>t. s = p @ t" by blast
qed (auto simp: HasPrefix_def)

lemma HasPrefix_Nil [simp]: "HasPrefix s []"
  by (simp add: HasPrefix_def)

lemma HasPrefix_refl [simp]: "HasPrefix s s"
  by (simp add: HasPrefix_def)

lemma HasSuffix_iff: "HasSuffix s p \<longleftrightarrow> (\<exists>t. s = t @ p)"
proof
  assume "HasSuffix s p"
  then have "s = take (length s - length p) s @ p"
    by (metis HasSuffix_def append_take_drop_id)
  then show "\<exists>t. s = t @ p" by blast
qed (auto simp: HasSuffix_def)

lemma split_on_not_Nil [simp]: "split_on d s \<noteq> []"
  by (induction d s rule: split_on.induct) (auto split: list.splits)

lemma join_with_Cons_char: "join_with sep ((c # p) # ps) = c # join_with sep (p # ps)"
  by (cases ps) auto

lemma join_split_on: "join_with [d] (split_on d s) = s"
proof (induction d s rule: split_on.induct)
  case (2 d c cs)
  show ?case
  proof (cases "c = d")
    case True
    obtain q qs where "split_on d cs = q # qs"
      by (metis list.exhaust split_on_not_Nil)
    with True "2.IH"(1) show ?thesis by simp
  next
    case False
    obtain q qs where "split_on d cs = q # qs"
      by (metis list.exhaust split_on_not_Nil)
    with False "2.IH"(2) show ?thesis by (simp add: join_with_Cons_char)
  qed
qed simp

lemma split_on_no_sep: "d \<notin> set s \<Longrightarrow> split_on d s = [s]"
  by (induction s) auto

lemma split_on_pieces_no_sep: "p \<in> set (split_on d s) \<Longrightarrow> d \<notin> set p"
  by (induction d s arbitrary: p rule: split_on.induct) (auto split: list.splits if_splits)

lemma split_on_append_sep: "d \<notin> set p \<Longrightarrow> split_on d (p @ d # s) = p # split_on d s"
  by (induction p) auto

lemma split_on_join: "ps \<noteq> [] \<Longrightarrow> (\<forall>p \<in> set ps. d \<notin> set p) \<Longrightarrow> split_on d (join_with [d] ps) = ps"
  by (induction "[d]" ps rule: join_with.induct) (auto simp: split_on_no_sep split_on_append_sep)

lemma ToLower_append: "ToLower (a @ b) = ToLower a @ ToLower b"
  by (simp add: ToLower_def)

section \<open>Lemmas on integers\<close>

lemma wrap64_id [simp]: "is_int64 x \<Longrightarrow> wrap64 x = x"
  by (simp add: wrap64_def is_int64_def)

lemma wrap64_range: "is_int64 (wrap64 x)"
  by (simp add: wrap64_def is_int64_def)

lemma quot_nonneg: "0 \<le> a \<Longrightarrow> 0 < b \<Longrightarrow> quot a b = a div b"
  by (cases "a = 0") (auto simp: quot_def)

lemma digit_of_char: "0 \<le> d \<Longrightarrow> d < 10 \<Longrightarrow> digit_of (char_of (48 + d)) = Some d"
  by (simp add: digit_of_def of_char_char_of_int)

lemma digit_of_range: "digit_of c = Some d \<Longrightarrow> 0 \<le> d \<and> d < 10"
  by (auto simp: digit_of_def split: if_splits)

lemma parse_digits_bound: "0 \<le> n \<Longrightarrow> n < 2 ^ w \<Longrightarrow> parse_digits w n s = Inr m \<Longrightarrow> n \<le> m \<and> m < 2 ^ w"
proof (induction w n s rule: parse_digits.induct)
  case (2 w n c cs)
  from "2.prems"(3) obtain d where d: "digit_of c = Some d" and lt: "\<not> 2 ^ w \<le> n * 10 + d"
    and rec: "parse_digits w (n * 10 + d) cs = Inr m"
    by (auto split: option.splits if_splits)
  have "n * 10 + d \<le> m \<and> m < 2 ^ w"
    using "2.IH" [OF d lt _ _ rec] "2.prems"(1) digit_of_range [OF d] lt by simp
  with "2.prems"(1) digit_of_range [OF d] show ?case by simp
qed simp

lemma parse_digits_append:
  "parse_digits w n (s @ t) =
   (case parse_digits w n s of Inl e \<Rightarrow> Inl e | Inr m \<Rightarrow> parse_digits w m t)"
  by (induction w n s rule: parse_digits.induct) (auto split: option.splits)

lemma int_digits_nonempty [simp]: "int_digits n \<noteq> []"
  by (subst int_digits.simps) simp

lemma parse_int_digits: "0 \<le> n \<Longrightarrow> n < 2 ^ w \<Longrightarrow> parse_digits w 0 (int_digits n) = Inr n"
proof (induction n rule: int_digits.induct)
  case (1 n)
  show ?case
  proof (cases "n < 10")
    case True
    with "1.prems" show ?thesis by (simp add: int_digits.simps [of n] digit_of_char)
  next
    case False
    have q: "0 \<le> n div 10" "n div 10 < 2 ^ w"
      using "1.prems" by (auto intro: le_less_trans [of _ n])
    have "parse_digits w 0 (int_digits (n div 10)) = Inr (n div 10)"
      using "1.IH" [OF False q] .
    moreover have "digit_of (char_of (48 + n mod 10)) = Some (n mod 10)"
      by (simp add: digit_of_char)
    ultimately show ?thesis
      using False "1.prems" by (simp add: int_digits.simps [of n] parse_digits_append)
  qed
qed

lemma int_digits_hd: "0 \<le> n \<Longrightarrow> \<exists>d :: int. 0 \<le> d \<and> d < 10 \<and> hd (int_digits n) = char_of (48 + d)"
proof (induction n rule: int_digits.induct)
  case (1 n)
  show ?case
  proof (cases "n < 10")
    case True
    with "1.prems" show ?thesis by (auto simp: int_digits.simps [of n])
  next
    case False
    with "1.prems" have "0 \<le> n div 10" by simp
    with False "1.IH" show ?thesis by (simp add: int_digits.simps [of n])
  qed
qed

lemma int_digits_are_digits: "0 \<le> n \<Longrightarrow> c \<in> set (int_digits n) \<Longrightarrow> digit_of c \<noteq> None"
proof (induction n rule: int_digits.induct)
  case (1 n)
  show ?case
  proof (cases "n < 10")
    case True
    with "1.prems" show ?thesis by (auto simp: int_digits.simps [of n] digit_of_char)
  next
    case False
    have "digit_of (char_of (48 + n mod 10)) = Some (n mod 10)"
      by (simp add: digit_of_char)
    with False "1.prems" "1.IH" show ?thesis by (auto simp: int_digits.simps [of n])
  qed
qed

lemma Itoa_chars: "c \<in> set (Itoa n) \<Longrightarrow> c = CHR ''-'' \<or> digit_of c \<noteq> None"
  using int_digits_are_digits [of n c] int_digits_are_digits [of "- n" c]
  by (auto simp: Itoa_def split: if_splits)

lemma Itoa_nonempty [simp]: "Itoa n \<noteq> []"
  by (simp add: Itoa_def)

lemma int_digits_sign: "0 \<le> n \<Longrightarrow> \<not> HasPrefix (int_digits n) ''-'' \<and> \<not> HasPrefix (int_digits n) ''+''"
proof -
  assume "0 \<le> n"
  then obtain d :: int where d: "0 \<le> d" "d < 10" and hd: "hd (int_digits n) = char_of (48 + d)"
    using int_digits_hd by blast
  have "(of_char (hd (int_digits n)) :: int) = 48 + d"
    using d by (simp add: hd of_char_char_of_int)
  moreover have "(of_char CHR ''-'' :: int) = 45" "(of_char CHR ''+'' :: int) = 43"
    by code_simp+
  ultimately have "hd (int_digits n) \<noteq> CHR ''-'' \<and> hd (int_digits n) \<noteq> CHR ''+''"
    using d by auto
  then show ?thesis
    by (cases "int_digits n") (auto simp: HasPrefix_def)
qed

text \<open>Printing and parsing are inverse on the values of the width.\<close>

lemma parse_int_Itoa:
  assumes "0 < w" and "- (2 ^ (w - 1)) \<le> n" and "n < 2 ^ (w - 1)"
  shows "parse_int w (Itoa n) = (n, True)"
proof -
  have half: "(2::int) ^ (w - 1) < 2 ^ w"
    using assms(1) by (cases w) auto
  show ?thesis
  proof (cases "n < 0")
    case True
    have "- n < 2 ^ w" using assms(2) half by linarith
    with True have "parse_uint w (int_digits (- n)) = Inr (- n)"
      by (simp add: parse_uint_def parse_int_digits)
    with True assms show ?thesis
      by (simp add: parse_int_def Itoa_def HasPrefix_def)
  next
    case False
    have "n < 2 ^ w" using assms(3) half by linarith
    with False have "parse_uint w (int_digits n) = Inr n"
      by (simp add: parse_uint_def parse_int_digits)
    with False assms int_digits_sign [of n] show ?thesis
      by (simp add: parse_int_def Itoa_def)
  qed
qed

lemma parse_uint_nonneg: "parse_uint w t = Inr n \<Longrightarrow> 0 \<le> n"
  using parse_digits_bound [of 0 w t n] by (auto simp: parse_uint_def split: if_splits)

lemma parse_int_range:
  assumes "0 < w"
  shows "- (2 ^ (w - 1)) \<le> fst (parse_int w s) \<and> fst (parse_int w s) < 2 ^ (w - 1)"
proof -
  have pos: "(0::int) < 2 ^ (w - 1)" by simp
  define body where "body = (if HasPrefix s ''-'' \<or> HasPrefix s ''+'' then drop 1 s else s)"
  show ?thesis
  proof (cases "parse_uint w body")
    case (Inl e)
    then show ?thesis
      using pos by (cases e) (auto simp: parse_int_def body_def [symmetric] Let_def)
  next
    case (Inr n)
    have "- n < 2 ^ (w - 1)" and "- (2 ^ (w - 1)) \<le> n"
      using parse_uint_nonneg [OF Inr] pos by linarith+
    with Inr show ?thesis
      using pos by (auto simp: parse_int_def body_def [symmetric] Let_def)
  qed
qed

lemma Itoa_inj: "Itoa m = Itoa n \<Longrightarrow> m = n"
proof -
  assume eq: "Itoa m = Itoa n"
  obtain w where w: "\<bar>m\<bar> < 2 ^ w" "\<bar>n\<bar> < 2 ^ w"
  proof -
    have "\<bar>m\<bar> < 2 ^ nat (\<bar>m\<bar> + \<bar>n\<bar>)" for m n :: int
    proof -
      have "\<bar>m\<bar> = int (nat \<bar>m\<bar>)" by simp
      also have "int (nat \<bar>m\<bar>) < 2 ^ nat \<bar>m\<bar>" by (metis less_exp of_nat_less_iff of_nat_numeral of_nat_power)
      also have "(2::int) ^ nat \<bar>m\<bar> \<le> 2 ^ nat (\<bar>m\<bar> + \<bar>n\<bar>)" by (intro power_increasing nat_mono) auto
      finally show ?thesis .
    qed
    from this [of m n] this [of n m] show thesis by (intro that [of "nat (\<bar>m\<bar> + \<bar>n\<bar>)"]) (auto simp: add.commute)
  qed
  have "parse_int (Suc w) (Itoa m) = (m, True)" by (rule parse_int_Itoa) (use w in \<open>simp_all add: abs_less_iff\<close>)
  moreover have "parse_int (Suc w) (Itoa n) = (n, True)" by (rule parse_int_Itoa) (use w in \<open>simp_all add: abs_less_iff\<close>)
  ultimately show "m = n" unfolding eq by (metis prod.inject)
qed

section \<open>Contracts shared by several components\<close>

text \<open>
  A behaviour configured for a number of requests: \<open>left s\<close> is how many requests are still to be
  served (\<open>None\<close> for no limit), \<open>active s\<close> whether the next one is served, \<open>tick s\<close> the state
  after serving it.
\<close>

locale countdown =
  fixes left :: "'s \<Rightarrow> nat option"
    and active :: "'s \<Rightarrow> bool"
    and tick :: "'s \<Rightarrow> 's"
    and inv :: "'s \<Rightarrow> bool"
  assumes active_iff: "inv s \<Longrightarrow> active s \<longleftrightarrow> left s \<noteq> Some 0"
    and left_tick: "inv s \<Longrightarrow> left (tick s) = map_option (\<lambda>n. n - 1) (left s)"
    and inv_tick: "inv s \<Longrightarrow> inv (tick s)"
begin

lemma inv_ticks: "inv s \<Longrightarrow> inv ((tick ^^ k) s)"
  by (induction k) (auto intro: inv_tick)

lemma left_ticks: "inv s \<Longrightarrow> left ((tick ^^ k) s) = map_option (\<lambda>n. n - k) (left s)"
proof (induction k)
  case 0
  then show ?case by (simp add: option.map_ident)
next
  case (Suc k)
  then have "left (tick ((tick ^^ k) s)) = map_option (\<lambda>n. n - 1) (map_option (\<lambda>n. n - k) (left s))"
    by (simp add: left_tick inv_ticks)
  then show ?case by (cases "left s") auto
qed

lemma active_ticks:
  assumes "inv s" and "left s = Some n"
  shows "active ((tick ^^ k) s) \<longleftrightarrow> k < n"
  using assms by (auto simp: active_iff inv_ticks left_ticks)

lemma forever:
  assumes "inv s" and "left s = None"
  shows "active ((tick ^^ k) s)"
  using assms by (simp add: active_iff inv_ticks left_ticks)

lemma served:
  assumes "inv s" and "left s = Some n"
  shows "length (filter (\<lambda>k. active ((tick ^^ k) s)) [0..<m]) = min n m"
proof -
  have "filter (\<lambda>k. active ((tick ^^ k) s)) [0..<m] = filter (\<lambda>k. k < n) [0..<m]"
    using active_ticks [OF assms] by (intro filter_cong) auto
  also have "length \<dots> = min n m"
    by (induction m) (auto simp: min_def)
  finally show ?thesis .
qed

end

text \<open>
  Configuration kept per port: a request on port \<open>p\<close> updates the view of \<open>p\<close> by \<open>upd\<close> and
  leaves every other view as it is. Then the state of a port after any interleaving of requests
  is the one its own requests lead to.
\<close>

locale port_local =
  fixes view :: "'s \<Rightarrow> 'p \<Rightarrow> 'd"
    and step :: "'p \<Rightarrow> 'e \<Rightarrow> 's \<Rightarrow> 's"
    and upd :: "'p \<Rightarrow> 'e \<Rightarrow> 'd \<Rightarrow> 'd"
  assumes view_step: "view (step p e s) q = (if q = p then upd p e (view s p) else view s q)"
begin

lemma interleaving:
  "view (fold (\<lambda>(p, e). step p e) es s) q =
   fold (upd q) (map snd (filter (\<lambda>(p, e). p = q) es)) (view s q)"
proof (induction es arbitrary: s)
  case (Cons pe es)
  then show ?case by (cases pe) (simp add: view_step)
qed simp

lemma isolation:
  assumes "q \<notin> fst ` set es"
  shows "view (fold (\<lambda>(p, e). step p e) es s) q = view s q"
proof -
  have "filter (\<lambda>(p, e). p = q) es = []"
    using assms by (auto simp: filter_empty_conv image_iff)
  then show ?thesis by (simp add: interleaving)
qed

end

section \<open>Lemmas on effects\<close>

lemma out_sel [simp]:
  "wcodes no_out = []" "whdrs no_out = []" "wevts no_out = []"
  "wcodes (WriteHeader c w) = wcodes w @ [c]" "whdrs (WriteHeader c w) = whdrs w"
  "wevts (WriteHeader c w) = wevts w"
  "wcodes (AddHeader h v w) = wcodes w" "whdrs (AddHeader h v w) = whdrs w @ [(h, v)]"
  "wevts (AddHeader h v w) = wevts w"
  "wcodes (SendEvent t w) = wcodes w" "whdrs (SendEvent t w) = whdrs w"
  "wevts (SendEvent t w) = wevts w @ [t]"
  by (simp_all add: no_out_def WriteHeader_def AddHeader_def SendEvent_def)

end
