(* ===== verification/Util_Params.thy ===== *)
theory Util_Params
  imports Goto_Prelude
begin

text \<open>
  Request parameters and request classification: \<open>pkg/util/muxutil.go\<close>,
  \<open>pkg/util/portUtil.go\<close>, \<open>pkg/util/httpChecks.go\<close>, \<open>pkg/util/requestStore.go\<close> and
  \<open>pkg/types/delay.go\<close>'s \<open>ParseDurationRange\<close>. The router's path variables are \<open>reqVars\<close>, the
  query values \<open>reqQuery\<close>. \<open>time.ParseDuration\<close> is the argument \<open>pd\<close> of the definitions that
  use it: \<open>pd s\<close> is the duration in nanoseconds, or \<open>None\<close> where it returns an error, so the
  lemmas hold for every duration syntax.

  A status parameter is a list of codes with an optional repeat count (\<open>503,500:3\<close>). It is
  reported as present even when no code in it parses, which is what the handlers that index the
  list rely on; the lemmas here say exactly when the list is empty.
\<close>

section \<open>Parameters\<close>

definition IsYes :: "string \<Rightarrow> bool" where
  "IsYes flag \<longleftrightarrow> EqualFold flag ''y'' \<or> EqualFold flag ''yes'' \<or> EqualFold flag ''true'' \<or>
     EqualFold flag ''1''"

definition GetIntParam :: "request \<Rightarrow> string \<Rightarrow> int option \<Rightarrow> int \<times> bool" where
  "GetIntParam r param dflt =
     (let v = mget_or [] (reqVars r) param in
      if v \<noteq> [] then (fst (parse_int 32 v), True)
      else (case dflt of Some d \<Rightarrow> (d, False) | None \<Rightarrow> (0, False)))"

definition GetIntParamValue :: "request \<Rightarrow> string \<Rightarrow> int option \<Rightarrow> int" where
  "GetIntParamValue r param dflt = fst (GetIntParam r param dflt)"

definition GetStringParam :: "request \<Rightarrow> string \<Rightarrow> string option \<Rightarrow> string \<times> bool" where
  "GetStringParam r param dflt =
     (let v = mget_or [] (reqVars r) param in
      if v \<noteq> [] then (v, True)
      else (case dflt of Some d \<Rightarrow> (d, False) | None \<Rightarrow> ([], False)))"

definition GetStringParamValue :: "request \<Rightarrow> string \<Rightarrow> string option \<Rightarrow> string" where
  "GetStringParamValue r param dflt = fst (GetStringParam r param dflt)"

definition GetBoolParamValue :: "request \<Rightarrow> string \<Rightarrow> bool option \<Rightarrow> bool" where
  "GetBoolParamValue r param dflt =
     (let v = fst (GetStringParam r param None) in
      if v \<noteq> [] then IsYes v else (case dflt of Some d \<Rightarrow> d | None \<Rightarrow> False))"

definition GetListParam :: "request \<Rightarrow> string \<Rightarrow> string list \<times> bool" where
  "GetListParam r param =
     (let values = mget_or [] (reqQuery r) param;
          values = (if length values = 1 then split_on CHR '','' (hd values) else values)
      in (values, values \<noteq> [] \<and> hd values \<noteq> []))"

text \<open>The codes that parse, in order; a piece that does not parse is skipped.\<close>

fun parse_codes :: "string list \<Rightarrow> int list" where
  "parse_codes [] = []"
| "parse_codes (s # ss) =
     (let (sc, ok) = parse_int 32 s in if ok then sc # parse_codes ss else parse_codes ss)"

definition status_of_text :: "string \<Rightarrow> int list \<times> int \<times> bool" where
  "status_of_text status =
     (if status = [] then ([], 0, False)
      else
        let pieces = split_on CHR '':'' status;
            codes = (if hd pieces \<noteq> [] then parse_codes (split_on CHR '','' (hd pieces)) else []);
            times = (if hd pieces \<noteq> [] \<and> 1 < length pieces then fst (parse_int 32 (pieces ! 1)) else 0)
        in (codes, if times = 0 then - 1 else times, True))"

definition GetStatusParam :: "request \<Rightarrow> int list \<times> int \<times> bool" where
  "GetStatusParam r = status_of_text (mget_or [] (reqVars r) ''status'')"

text \<open>\<open>ParseSize\<close> ranges over a Go map of size suffixes; \<open>sizes\<close> is the order it comes in.\<close>

definition size_units :: "(string, int) gomap" where
  "size_units = [(''K'', 1000), (''KB'', 1000), (''M'', 1000000), (''MB'', 1000000)]"

definition ParseSize :: "(string, int) gomap \<Rightarrow> string \<Rightarrow> int" where
  "ParseSize sizes value =
     (if value = [] then 0
      else
        let (multiplier, value) =
              (case find (\<lambda>(k, v). Contains value k) sizes of
                 Some (k, v) \<Rightarrow> (v, hd (split_str k value))
               | None \<Rightarrow> (1, value));
            size = (if value \<noteq> [] then fst (parse_int 32 value) else 1)
        in size * multiplier)"

section \<open>Durations\<close>

definition ParseDurationRange ::
  "(string \<Rightarrow> int option) \<Rightarrow> string \<Rightarrow> int \<times> int \<times> int \<times> bool" where
  "ParseDurationRange pd val =
     (let dRangeAndCount = split_on CHR '':'' val;
          dRange = split_on CHR ''-'' (hd dRangeAndCount)
      in case pd (hd dRange) of
           None \<Rightarrow> (0, 0, 0, False)
         | Some low \<Rightarrow>
             let (low, high) =
                   (if 1 < length dRange then
                      (case pd (dRange ! 1) of
                         Some d \<Rightarrow> (if d < low then (d, low) else (low, d))
                       | None \<Rightarrow> (low, 0))
                    else (low, low));
                 count =
                   (if 1 < length dRangeAndCount then
                      (let (c, ok) = parse_int 32 (dRangeAndCount ! 1) in
                       if ok \<and> 0 < c then c else 0)
                    else 0)
             in (low, high, count, True))"

definition GetDurationParam ::
  "(string \<Rightarrow> int option) \<Rightarrow> request \<Rightarrow> string \<Rightarrow> int \<times> int \<times> int \<times> bool" where
  "GetDurationParam pd r name =
     (let val = mget_or [] (reqVars r) name in
      if val \<noteq> [] then ParseDurationRange pd val else (0, 0, 0, False))"

section \<open>Ports\<close>

definition GetPortFromAddress :: "string \<Rightarrow> int" where
  "GetPortFromAddress addr =
     (let pieces = split_on CHR '':'' addr in
      if 1 < length pieces then
        (let (port, ok) = parse_int 64 (last pieces) in if ok then port else 0)
      else 0)"

text \<open>The port a request is for: a \<open>/port=\<close> prefix of the URI, else the \<open>port\<close> path variable,
  else the port of the listener the connection came in on.\<close>

definition checkRequestPort :: "request \<Rightarrow> int \<Rightarrow> string \<times> int" where
  "checkRequestPort r listenerPort =
     (if HasPrefix (RequestURI r) ''/port='' then
        (let port = hd (split_on CHR ''/'' (split_str ''/port='' (RequestURI r) ! 1))
         in (port, fst (parse_int 64 port)))
      else
        (let port = GetStringParamValue r ''port'' None in
         if port \<noteq> [] then (port, fst (parse_int 64 port))
         else (Itoa listenerPort, listenerPort)))"

section \<open>Request classification\<close>

definition IsInIntArray :: "int \<Rightarrow> int list \<Rightarrow> bool" where
  "IsInIntArray value arr \<longleftrightarrow> value \<in> set arr"

definition IsPutOrPost :: "request \<Rightarrow> bool" where
  "IsPutOrPost r \<longleftrightarrow> EqualFold (reqMethod r) ''POST'' \<or> EqualFold (reqMethod r) ''PUT''"

definition admin_roots :: "string list" where
  "admin_roots = [''version'', ''routes'', ''apis'', ''metrics'', ''server'', ''request'',
     ''response'', ''listeners'', ''label'', ''registry'', ''client'', ''proxy'', ''job'',
     ''probes'', ''tcp'', ''grpc'', ''jsonrpc'', ''log'', ''events'', ''tunnels'', ''pipes'',
     ''scripts'', ''k8s'', ''tls'', ''routing'', ''mcpapi'', ''a2a'']"

definition CheckAdminRequest :: "string \<Rightarrow> bool" where
  "CheckAdminRequest requestURI =
     (let uri = (if HasPrefix requestURI ''/port='' then split_str ''/port='' requestURI ! 1
                 else requestURI);
          pieces = split_on CHR ''/'' uri;
          uri = (if 1 < length pieces then pieces ! 1 else uri)
      in uri \<in> set admin_roots)"

text \<open>
  The bits of the request store that the middlewares read. The probe checks, the tunnel check
  and the protocol facts come from other components and the connection, and are arguments.
\<close>

record request_class =
  rcIsGRPC :: bool
  rcIsAdminRequest :: bool
  rcIsVersionRequest :: bool
  rcIsLockerRequest :: bool
  rcIsPeerEventsRequest :: bool
  rcIsMetricsRequest :: bool
  rcIsReminderRequest :: bool
  rcIsProbeRequest :: bool
  rcIsHealthRequest :: bool
  rcIsStatusRequest :: bool
  rcIsDelayRequest :: bool
  rcIsPayloadRequest :: bool
  rcIsTunnelRequest :: bool
  rcIsTunnelConfigRequest :: bool
  rcIsKnownNonTraffic :: bool
  rcIsH2C :: bool
  rcIsMCP :: bool
  rcIsAI :: bool
  rcIsClient :: bool

definition populateRequestStore ::
  "(string \<Rightarrow> bool) \<Rightarrow> (string \<Rightarrow> bool) \<Rightarrow> int \<Rightarrow> request \<Rightarrow> request_class" where
  "populateRequestStore isProbe willTunnel protoMajor r =
     (let uri = RequestURI r;
          admin = CheckAdminRequest uri;
          grpc = (protoMajor = 2 \<and>
                  HasPrefix (header_Get (reqHeaders r) ''Content-Type'') ''application/grpc'');
          version = HasPrefix uri ''/version'';
          locker = (HasPrefix uri ''/registry'' \<and> Contains uri ''/locker'');
          metrics = (HasPrefix uri ''/metrics'' \<or> HasPrefix uri ''/stats'');
          reminder = Contains uri ''/remember'';
          probe = isProbe uri;
          health = (\<not> admin \<and> HasPrefix uri ''/health'');
          tunnelConfig = HasPrefix uri ''/tunnels''
      in \<lparr>rcIsGRPC = grpc,
          rcIsAdminRequest = admin,
          rcIsVersionRequest = version,
          rcIsLockerRequest = locker,
          rcIsPeerEventsRequest = HasPrefix uri ''/registry'' \<and> Contains uri ''/events'',
          rcIsMetricsRequest = metrics,
          rcIsReminderRequest = reminder,
          rcIsProbeRequest = probe,
          rcIsHealthRequest = health,
          rcIsStatusRequest = \<not> admin \<and> HasPrefix uri ''/status'',
          rcIsDelayRequest = \<not> admin \<and> Contains uri ''/delay'',
          rcIsPayloadRequest = \<not> admin \<and> \<not> grpc \<and> (Contains uri ''/stream'' \<or> Contains uri ''/payload''),
          rcIsTunnelRequest = HasPrefix uri ''/tunnel='' \<or> (\<not> admin \<and> willTunnel uri),
          rcIsTunnelConfigRequest = tunnelConfig,
          rcIsKnownNonTraffic = probe \<or> reminder \<or> health \<or> metrics \<or> version \<or> locker \<or> admin \<or>
            tunnelConfig,
          rcIsH2C = (protoMajor = 2 \<and> \<not> grpc),
          rcIsMCP = Contains uri ''/mcp/'' \<or> HasSuffix uri ''/mcp'' \<or> Contains uri ''/sse'',
          rcIsAI = Contains uri ''/agent/'',
          rcIsClient = Contains uri ''/client/''\<rparr>)"

definition IsKnownRequest :: "request_class \<Rightarrow> bool" where
  "IsKnownRequest rs \<longleftrightarrow> rcIsProbeRequest rs \<or> rcIsReminderRequest rs \<or> rcIsHealthRequest rs \<or>
     rcIsMetricsRequest rs \<or> rcIsVersionRequest rs \<or> rcIsLockerRequest rs \<or>
     rcIsAdminRequest rs \<or> rcIsStatusRequest rs \<or> rcIsDelayRequest rs \<or>
     rcIsPayloadRequest rs \<or> rcIsTunnelConfigRequest rs"

section \<open>Lemmas\<close>

lemma GetStringParam_present:
  "snd (GetStringParam r p d) \<longleftrightarrow> mget_or [] (reqVars r) p \<noteq> []"
  by (simp add: GetStringParam_def Let_def split: option.splits)

lemma status_of_text_times: "fst (snd (status_of_text s)) = 0 \<longleftrightarrow> s = []"
  by (simp add: status_of_text_def Let_def)

lemma Itoa_no_sep: "CHR '','' \<notin> set (Itoa n)" "CHR '':'' \<notin> set (Itoa n)"
proof -
  have "digit_of CHR '','' = None" "digit_of CHR '':'' = None" by code_simp+
  then show "CHR '','' \<notin> set (Itoa n)" and "CHR '':'' \<notin> set (Itoa n)"
    using Itoa_chars by fastforce+
qed

lemma parse_codes_Itoa:
  "(\<forall>c \<in> set codes. - (2 ^ 31) \<le> c \<and> c < 2 ^ 31) \<Longrightarrow> parse_codes (map Itoa codes) = codes"
proof (induction codes)
  case (Cons c codes)
  have "parse_int 32 (Itoa c) = (c, True)"
    using Cons.prems by (intro parse_int_Itoa) auto
  with Cons show ?case by simp
qed simp

lemma join_no_char: "d \<notin> set sep \<Longrightarrow> (\<forall>p \<in> set ps. d \<notin> set p) \<Longrightarrow> d \<notin> set (join_with sep ps)"
  by (induction sep ps rule: join_with.induct) auto

lemma parse_codes_empty_iff: "parse_codes ss = [] \<longleftrightarrow> (\<forall>s \<in> set ss. \<not> snd (parse_int 32 s))"
  by (induction ss) (auto simp: split: prod.splits)

lemma checkRequestPort_listener:
  "\<not> HasPrefix (RequestURI r) ''/port='' \<Longrightarrow> mget_or [] (reqVars r) ''port'' = [] \<Longrightarrow>
   checkRequestPort r lp = (Itoa lp, lp)"
  by (simp add: checkRequestPort_def GetStringParamValue_def GetStringParam_def)

end
