(* ===== verification/Util_Text.thy ===== *)
theory Util_Text
  imports Goto_Prelude "HOL-Library.Multiset"
begin

text \<open>
  Text utilities: \<open>pkg/util/textutil.go\<close>, the filler functions of \<open>pkg/util/regexpUtil.go\<close> and
  the URI comparison of \<open>pkg/util/uriUtil.go\<close>. Slice expressions that Go checks at run time return
  an option, so that the lemmas on chunking include that no slice is out of range. The filler
  pattern of \<open>regexpUtil.go\<close> is the only regular expression that is translated: a filler is a
  name in single or double braces, and \<open>GetFillers\<close> is the scanner for it; every other use of the
  regular expression engine is an argument of the definitions.
\<close>

section \<open>Words and chunks\<close>

text \<open>\<open>strings.Fields\<close>: the maximal runs of bytes that are not white space.\<close>

fun fields_acc :: "string \<Rightarrow> string \<Rightarrow> string list" where
  "fields_acc w [] = (if w = [] then [] else [w])"
| "fields_acc w (c # cs) =
     (if is_space c then (if w = [] then fields_acc [] cs else w # fields_acc [] cs)
      else fields_acc (w @ [c]) cs)"

definition Fields :: "string \<Rightarrow> string list" where
  "Fields s = fields_acc [] s"

text \<open>The slice expression \<open>text[a:b]\<close>.\<close>

definition go_slice :: "string \<Rightarrow> nat \<Rightarrow> nat \<Rightarrow> string option" where
  "go_slice s a b = (if a \<le> b \<and> b \<le> length s then Some (take (b - a) (drop a s)) else None)"

function delim_points :: "string \<Rightarrow> nat \<Rightarrow> string \<Rightarrow> nat list" where
  "delim_points d idx s =
     (case str_index s d of
        None \<Rightarrow> []
      | Some found \<Rightarrow>
          (if d = [] then []
           else (idx + found + length d) #
                delim_points d (idx + found + length d) (drop (found + length d) s)))"
  by pat_completeness auto
termination
proof (relation "measure (\<lambda>(d, idx, s). length s)")
  fix d s :: string and idx i :: nat
  assume "str_index s d = Some i" and "d \<noteq> []"
  then have "i + length d \<le> length s" and "0 < length d"
    by (auto dest: str_index_bound)
  then show "((d, idx + i + length d, drop (i + length d) s), (d, idx, s))
    \<in> measure (\<lambda>(d, idx, s). length s)"
    unfolding in_measure by (simp only: split_conv length_drop)
qed simp

declare delim_points.simps [simp del]

definition sentence_delimiters :: "string list" where
  "sentence_delimiters = [''. '', ''! '', ''? '', [CHR 0x0A, CHR 0x0A], ''; '']"

text \<open>Cutting a text at a list of points, the last piece running to the end.\<close>

fun cut_at :: "string \<Rightarrow> nat \<Rightarrow> nat list \<Rightarrow> string list option" where
  "cut_at text startIdx [] = map_option (\<lambda>p. [p]) (go_slice text startIdx (length text))"
| "cut_at text startIdx (point # points) =
     (case go_slice text startIdx point of
        None \<Rightarrow> None
      | Some p \<Rightarrow> map_option ((#) p) (cut_at text point points))"

definition SplitAtSentenceBoundaries :: "string \<Rightarrow> nat \<Rightarrow> string list option" where
  "SplitAtSentenceBoundaries text targetChunks =
     (if length text < 30 then Some [text]
      else if targetChunks = 0 then None
      else
        let splitPoints = sort (concat (map (\<lambda>d. delim_points d 0 text) sentence_delimiters)) in
        if length splitPoints < targetChunks - 1 then
          (let chunkSize = length text div targetChunks in
           cut_at text 0 (map (\<lambda>i. (i + 1) * chunkSize) [0..<targetChunks - 1]))
        else
          (let step = length splitPoints div targetChunks;
               selectedPoints =
                 map (\<lambda>i. splitPoints ! min ((i + 1) * step) (length splitPoints - 1))
                   [0..<targetChunks - 1]
           in cut_at text 0 (sort selectedPoints)))"

fun pack_words :: "int \<Rightarrow> string \<Rightarrow> string list \<Rightarrow> string list" where
  "pack_words chunkSize currentChunk [] = (if currentChunk \<noteq> [] then [currentChunk] else [])"
| "pack_words chunkSize currentChunk (w # ws) =
     (if currentChunk \<noteq> [] \<and> int (length currentChunk) + int (length w) + 1 > chunkSize then
        currentChunk # pack_words chunkSize w ws
      else
        pack_words chunkSize ((if currentChunk \<noteq> [] then currentChunk @ '' '' else currentChunk) @ w) ws)"

definition SplitTextIntoChunks :: "string \<Rightarrow> int \<Rightarrow> string list option" where
  "SplitTextIntoChunks text chunkSize =
     (if int (length text) \<le> chunkSize then Some [text]
      else
        let words = Fields text in
        if words = [] then Some [text]
        else
          let chunks = pack_words chunkSize [] words in
          if length chunks < 3 \<and> 15 < length text then SplitAtSentenceBoundaries text 3
          else Some chunks)"

text \<open>The index loop of \<open>ReverseString\<close>, swapping from both ends.\<close>

function swap_ends :: "string \<Rightarrow> nat \<Rightarrow> nat \<Rightarrow> string" where
  "swap_ends runes i j =
     (if i < j then swap_ends (runes[i := runes ! j, j := runes ! i]) (i + 1) (j - 1) else runes)"
  by pat_completeness auto
termination by (relation "measure (\<lambda>(runes, i, j). j)") auto

declare swap_ends.simps [simp del]

definition ReverseString :: "string \<Rightarrow> string" where
  "ReverseString s = swap_ends s 0 (length s - 1)"

section \<open>Comparing string slices\<close>

fun FindFirstMatch :: "string list \<Rightarrow> string list \<Rightarrow> string \<times> bool" where
  "FindFirstMatch [] arr2 = ([], False)"
| "FindFirstMatch (v1 # arr1) arr2 =
     (if v1 \<in> set arr2 then (v1, True) else FindFirstMatch arr1 arr2)"

fun count_down :: "(string, int) gomap \<Rightarrow> string list \<Rightarrow> (string, int) gomap option" where
  "count_down counts [] = Some counts"
| "count_down counts (s # ss) =
     (if mget_or 0 counts s = 0 then None
      else
        let counts = mput s (mget_or 0 counts s - 1) counts;
            counts = (if mget_or 0 counts s = 0 then mdel s counts else counts)
        in count_down counts ss)"

definition CompareStringSlices :: "string list \<Rightarrow> string list \<Rightarrow> bool" where
  "CompareStringSlices a b =
     (if a = [] \<and> b = [] then True
      else if length a \<noteq> length b then False
      else (case count_down (fold mbump a []) b of None \<Rightarrow> False | Some counts \<Rightarrow> counts = []))"

section \<open>Fillers\<close>

definition not_brace :: "char \<Rightarrow> bool" where
  "not_brace c \<longleftrightarrow> c \<noteq> CHR ''{'' \<and> c \<noteq> CHR ''}''"

definition MarkFiller :: "string \<Rightarrow> string" where
  "MarkFiller key = ''{'' @ key @ ''}''"

definition UnmarkFiller :: "string \<Rightarrow> string" where
  "UnmarkFiller key =
     (let k = (if HasPrefix key ''{'' then drop 1 key else key)
      in if HasSuffix k ''}'' then butlast k else k)"

definition UnmarkAllFillers :: "string \<Rightarrow> string" where
  "UnmarkAllFillers text = strip_char CHR ''}'' (strip_char CHR ''{'' text)"

text \<open>The filler that starts at the head of the text, if any: the double-brace alternative of the
  pattern is tried first.\<close>

definition filler_at :: "string \<Rightarrow> string option" where
  "filler_at s =
     (let n2 = takeWhile not_brace (drop 2 s);
          n1 = takeWhile not_brace (drop 1 s)
      in if HasPrefix s ''{{'' \<and> n2 \<noteq> [] \<and> HasPrefix (drop (2 + length n2) s) ''}}''
         then Some (''{{'' @ n2 @ ''}}'')
         else if HasPrefix s ''{'' \<and> n1 \<noteq> [] \<and> HasPrefix (drop (1 + length n1) s) ''}''
         then Some (''{'' @ n1 @ ''}'')
         else None)"

function GetFillers :: "string \<Rightarrow> string list" where
  "GetFillers [] = []"
| "GetFillers (c # cs) =
     (case filler_at (c # cs) of
        Some f \<Rightarrow> f # GetFillers (drop (length f - 1) cs)
      | None \<Rightarrow> GetFillers cs)"
  by pat_completeness auto
termination by (relation "measure length") auto

definition IsFiller :: "string \<Rightarrow> bool" where
  "IsFiller key \<longleftrightarrow> GetFillers key \<noteq> []"

definition GetFillersUnmarked :: "string \<Rightarrow> string list" where
  "GetFillersUnmarked text = map UnmarkFiller (GetFillers text)"

definition GetFillerUnmarked :: "string \<Rightarrow> string \<times> bool" where
  "GetFillerUnmarked text =
     (case GetFillersUnmarked text of f # fs \<Rightarrow> (f, True) | [] \<Rightarrow> ([], False))"

text \<open>\<open>strings.ReplaceAll\<close> for a pattern that is not empty.\<close>

definition ReplaceAll :: "string \<Rightarrow> string \<Rightarrow> string \<Rightarrow> string" where
  "ReplaceAll text old new = join_with new (split_str old text)"

definition FillValues :: "string \<Rightarrow> (string, string) gomap \<Rightarrow> string" where
  "FillValues text values =
     fold (\<lambda>filler text.
        let value = mget_or [] values (UnmarkFiller filler) in
        if value \<noteq> [] then ReplaceAll text filler value else text) (GetFillers text) text"

definition SubstitutePayloadMarkers :: "string \<Rightarrow> string list \<Rightarrow> (string, string) gomap \<Rightarrow> string" where
  "SubstitutePayloadMarkers payload keys values =
     fold (\<lambda>key payload.
        if mget_or [] values key \<noteq> [] then ReplaceAll payload (MarkFiller key) (mget_or [] values key)
        else payload) keys payload"

definition GetFilledText :: "string \<Rightarrow> (string, string) gomap \<Rightarrow> string" where
  "GetFilledText text captures = fold (\<lambda>(k, v) text. ReplaceAll text (MarkFiller k) v) captures text"

definition Unglob :: "string \<Rightarrow> string \<times> bool" where
  "Unglob s = (if HasSuffix s ''*'' then (strip_char CHR ''*'' s, True) else (s, False))"

text \<open>A value match; compiled regular expressions are the predicates they stand for.\<close>

record value_match =
  mExact :: string
  mIn :: "string list"
  mRe :: "(string \<Rightarrow> bool) option"
  mInRe :: "(string \<Rightarrow> bool) list"

definition match_Match :: "value_match \<Rightarrow> string \<Rightarrow> bool" where
  "match_Match m val =
     (if mExact m \<noteq> [] then mExact m = val
      else if mIn m \<noteq> [] then val \<in> set (mIn m)
      else (case mRe m of
              Some re \<Rightarrow> re val
            | None \<Rightarrow> list_ex (\<lambda>re. re val) (mInRe m)))"

section \<open>Comparing URIs\<close>

definition is_var_piece :: "string \<Rightarrow> bool" where
  "is_var_piece p \<longleftrightarrow> HasPrefix p ''{'' \<and> HasSuffix p ''}''"

definition matchPieces :: "string list \<Rightarrow> string list \<Rightarrow> bool" where
  "matchPieces pieces1 pieces2 \<longleftrightarrow>
     length pieces1 = length pieces2 \<and>
     list_all2 (\<lambda>p1 p2. p1 = p2 \<or> is_var_piece p1 \<or> is_var_piece p2) pieces1 pieces2"

definition getURIPieces :: "string \<Rightarrow> string list" where
  "getURIPieces uri = split_on CHR ''/'' (hd (split_on CHR ''?'' (ToLower uri)))"

definition MatchURI :: "string \<Rightarrow> string \<Rightarrow> bool" where
  "MatchURI uri1 uri2 = matchPieces (getURIPieces uri1) (getURIPieces uri2)"

definition FindURIInMap :: "string \<Rightarrow> (string, 'v) gomap \<Rightarrow> string" where
  "FindURIInMap uri m =
     (case find (\<lambda>(k, v). matchPieces (getURIPieces uri) (getURIPieces k)) m of
        Some (k, v) \<Rightarrow> k | None \<Rightarrow> [])"

definition IsURIInMap :: "string \<Rightarrow> (string, 'v) gomap \<Rightarrow> bool" where
  "IsURIInMap uri m \<longleftrightarrow> FindURIInMap uri m \<noteq> []"

section \<open>Chunking loses no text\<close>

lemma delim_points_bound: "\<forall>p \<in> set (delim_points d idx s). p \<le> idx + length s"
proof (induction d idx s rule: delim_points.induct)
  case (1 d idx s)
  show ?case
  proof (cases "str_index s d")
    case None
    then show ?thesis by (simp add: delim_points.simps [of d idx s])
  next
    case (Some i)
    have "i + length d \<le> length s" using Some by (rule str_index_bound)
    show ?thesis
    proof (cases "d = []")
      case False
      with Some \<open>i + length d \<le> length s\<close> 1 [OF Some False] show ?thesis
        by (auto simp: delim_points.simps [of d idx s])
    next
      case True
      with Some show ?thesis by (simp add: delim_points.simps [of "[]" idx s])
    qed
  qed
qed

lemma cut_at_concat:
  assumes "sorted (start # points)" and "\<forall>p \<in> set (start # points). p \<le> length text"
  shows "\<exists>cs. cut_at text start points = Some cs \<and> concat cs = drop start text \<and>
     length cs = length points + 1"
  using assms
proof (induction points arbitrary: start)
  case Nil
  then show ?case by (simp add: go_slice_def)
next
  case (Cons p points)
  have "\<exists>cs. cut_at text p points = Some cs \<and> concat cs = drop p text \<and>
      length cs = length points + 1"
    using Cons.prems by (intro Cons.IH) auto
  then obtain cs where cs: "cut_at text p points = Some cs" "concat cs = drop p text"
    "length cs = length points + 1"
    by blast
  have "start \<le> p" "p \<le> length text" using Cons.prems by auto
  then have "take (p - start) (drop start text) @ drop p text = drop start text"
    by (metis append_take_drop_id drop_drop le_add_diff_inverse2)
  with cs \<open>start \<le> p\<close> \<open>p \<le> length text\<close> show ?case by (simp add: go_slice_def)
qed

lemma cut_at_sort:
  assumes "\<forall>p \<in> set points. p \<le> length text"
  shows "\<exists>cs. cut_at text 0 (sort points) = Some cs \<and> concat cs = text \<and> length cs = length points + 1"
  using cut_at_concat [of 0 "sort points" "text"] assms by simp

lemma equal_cuts: "\<exists>cs. cut_at text 0 (map (\<lambda>i. (i + 1) * (length text div Suc n)) [0..<n]) = Some cs \<and>
   concat cs = text \<and> length cs = n + 1"
proof -
  let ?ps = "map (\<lambda>i. (i + 1) * (length text div Suc n)) [0..<n]"
  have "sorted ?ps"
    by (simp add: sorted_iff_nth_mono mult_le_mono1 add_le_mono1)
  moreover have "\<forall>p \<in> set ?ps. p \<le> length text"
  proof
    fix p assume "p \<in> set ?ps"
    then obtain i where "i < n" "p = (i + 1) * (length text div Suc n)" by auto
    then have "p \<le> Suc n * (length text div Suc n)" by (metis Suc_eq_plus1 Suc_leI less_SucI mult_le_mono1)
    also have "\<dots> \<le> length text" by (rule times_div_less_eq_dividend)
    finally show "p \<le> length text" .
  qed
  ultimately show ?thesis using cut_at_concat [of 0 ?ps "text"] by simp
qed

section \<open>Reversal\<close>

lemma swap_ends_length [simp]: "length (swap_ends xs i j) = length xs"
  by (induction xs i j rule: swap_ends.induct) (subst swap_ends.simps, simp)

lemma swap_ends_nth:
  "j < length xs \<Longrightarrow> k < length xs \<Longrightarrow>
   swap_ends xs i j ! k = (if i \<le> k \<and> k \<le> j then xs ! (i + j - k) else xs ! k)"
proof (induction xs i j rule: swap_ends.induct)
  case (1 xs i j)
  show ?case
  proof (cases "i < j")
    case True
    let ?ys = "xs[i := xs ! j, j := xs ! i]"
    have "swap_ends xs i j ! k = swap_ends ?ys (i + 1) (j - 1) ! k"
      using True by (simp add: swap_ends.simps [of xs i j])
    also have "\<dots> = (if i + 1 \<le> k \<and> k \<le> j - 1 then ?ys ! (i + 1 + (j - 1) - k) else ?ys ! k)"
      using True "1.prems" by (intro "1.IH") auto
    also have "\<dots> = (if i \<le> k \<and> k \<le> j then xs ! (i + j - k) else xs ! k)"
      using True "1.prems" by (auto simp: nth_list_update)
    finally show ?thesis .
  next
    case False
    then show ?thesis by (auto simp: swap_ends.simps [of xs i j] intro: arg_cong [where f = "nth xs"])
  qed
qed

lemma ReverseString_rev: "ReverseString s = rev s"
proof (rule nth_equalityI)
  fix k assume "k < length (ReverseString s)"
  then have "k < length s" by (simp add: ReverseString_def)
  then show "ReverseString s ! k = rev s ! k"
    by (auto simp: ReverseString_def swap_ends_nth rev_nth)
qed (simp add: ReverseString_def)

section \<open>Counting\<close>

definition counts_of :: "(string, int) gomap \<Rightarrow> string multiset \<Rightarrow> bool" where
  "counts_of m M \<longleftrightarrow> (\<forall>s. mget_or 0 m s = int (count M s)) \<and> (\<forall>s v. mget m s = Some v \<longrightarrow> v \<noteq> 0)"

lemma counts_of_bump: "counts_of m M \<Longrightarrow> counts_of (mbump s m) (add_mset s M)"
  by (auto simp: counts_of_def mbump_def mget_or_def split: option.splits)

lemma counts_of_fold: "counts_of m M \<Longrightarrow> counts_of (fold mbump ss m) (M + mset ss)"
proof (induction ss arbitrary: m M)
  case (Cons s ss)
  from Cons.IH [OF counts_of_bump [OF Cons.prems]] show ?case by simp
qed simp

lemma counts_of_Nil: "counts_of m M \<Longrightarrow> m = [] \<longleftrightarrow> M = {#}"
proof
  assume c: "counts_of m M"
  { assume "m = []" with c show "M = {#}"
      by (intro multiset_eqI) (simp add: counts_of_def) }
  { assume "M = {#}"
    show "m = []"
    proof (rule ccontr)
      assume "m \<noteq> []"
      then obtain k v where "mget m k = Some v"
        by (metis list.set_intros(1) map_of_eq_None_iff not_None_eq prod.collapse list.exhaust image_eqI)
      with c \<open>M = {#}\<close> show False by (auto simp: counts_of_def mget_or_def split: option.splits)
    qed }
qed

lemma counts_of_drop:
  assumes "counts_of m M" and "s \<in># M"
  shows "mget_or 0 m s = 1 \<Longrightarrow> counts_of (mdel s (mput s 0 m)) (M - {#s#})"
    and "mget_or 0 m s \<noteq> 1 \<Longrightarrow> counts_of (mput s (mget_or 0 m s - 1) m) (M - {#s#})"
  using assms by (auto simp: counts_of_def mget_or_def count_greater_zero_iff [symmetric]
      of_nat_diff Suc_leI simp del: count_greater_zero_iff split: option.splits)

lemma count_down_spec:
  assumes "counts_of m M"
  shows "case count_down m ss of
      Some m' \<Rightarrow> mset ss \<subseteq># M \<and> counts_of m' (M - mset ss)
    | None \<Rightarrow> \<not> mset ss \<subseteq># M"
  using assms
proof (induction ss arbitrary: m M)
  case (Cons s ss)
  show ?case
  proof (cases "s \<in># M")
    case True
    then have "mget_or 0 m s \<noteq> 0" using Cons.prems by (simp add: counts_of_def)
    then show ?thesis
      using Cons.IH [OF counts_of_drop(1) [OF Cons.prems True]]
        Cons.IH [OF counts_of_drop(2) [OF Cons.prems True]] True
      by (cases "mget_or 0 m s = 1")
        (simp_all add: insert_subset_eq_iff split: option.splits)
  next
    case False
    then have "mget_or 0 m s = 0" using Cons.prems by (simp add: counts_of_def count_eq_zero_iff)
    with False show ?thesis by (auto dest: mset_subset_eqD)
  qed
qed simp

section \<open>Fillers and URIs\<close>

lemma strip_braces: "UnmarkFiller (MarkFiller key) = key"
  by (simp add: UnmarkFiller_def MarkFiller_def HasPrefix_def HasSuffix_def butlast_append)

lemma matchPieces_sym: "matchPieces a b \<longleftrightarrow> matchPieces b a"
  unfolding matchPieces_def by (auto simp: list_all2_conv_all_nth)

lemma matchPieces_refl: "matchPieces a a"
  by (simp add: matchPieces_def list_all2_refl)

section \<open>Properties\<close>

text \<open>Comparing two string slices is comparing them as multisets: the two-pass count accepts
  exactly the pairs that are permutations of each other.\<close>

theorem CompareStringSlices_iff: "CompareStringSlices a b \<longleftrightarrow> mset a = mset b"
proof (cases "length a = length b")
  case True
  have c: "counts_of (fold mbump a []) (mset a)"
    using counts_of_fold [of "[]" "{#}" a] by (simp add: counts_of_def)
  have eq: "mset b \<subseteq># mset a \<longleftrightarrow> mset a = mset b"
    using True by (metis size_mset subset_mset.order_refl mset_subset_size subset_mset.le_imp_less_or_eq nat_neq_iff)
  show ?thesis
  proof (cases "count_down (fold mbump a []) b")
    case None
    with count_down_spec [OF c, of b] eq True show ?thesis
      by (auto simp: CompareStringSlices_def)
  next
    case (Some m)
    with count_down_spec [OF c, of b] eq have "mset a = mset b" and "counts_of m {#}"
      by auto
    with Some True show ?thesis
      using counts_of_Nil by (auto simp: CompareStringSlices_def)
  qed
next
  case False
  then show ?thesis by (auto simp: CompareStringSlices_def dest: mset_eq_length)
qed

text \<open>Splitting a text at sentence boundaries always returns (no slice is out of range), and the
  chunks concatenate to the text: nothing is lost, duplicated or reordered. There are as many chunks
  as asked for, unless the text is too short to split.\<close>

theorem SplitAtSentenceBoundaries_total:
  "\<exists>cs. SplitAtSentenceBoundaries text (Suc n) = Some cs \<and> concat cs = text \<and>
     length cs = (if length text < 30 then 1 else Suc n)"
proof (cases "length text < 30")
  case True
  then show ?thesis by (simp add: SplitAtSentenceBoundaries_def)
next
  case False
  define ps where "ps = sort (concat (map (\<lambda>d. delim_points d 0 text) sentence_delimiters))"
  have bound: "\<forall>p \<in> set ps. p \<le> length text"
    using delim_points_bound [of _ 0 "text"] by (auto simp: ps_def)
  show ?thesis
  proof (cases "length ps < n")
    case True
    with False equal_cuts [of "text" n] show ?thesis
      by (simp add: SplitAtSentenceBoundaries_def ps_def [symmetric] Let_def)
  next
    case ge: False
    let ?sel = "map (\<lambda>i. ps ! min ((i + 1) * (length ps div Suc n)) (length ps - 1)) [0..<n]"
    have "\<forall>p \<in> set ?sel. p \<le> length text"
      using bound ge by (auto intro!: bspec [OF bound] nth_mem)
    from cut_at_sort [OF this] False ge show ?thesis
      by (simp add: SplitAtSentenceBoundaries_def ps_def [symmetric] Let_def)
  qed
qed

end
