(* ===== verification/Util_Headers.thy ===== *)
theory Util_Headers
  imports Util_Text
begin

text \<open>
  Header utilities: \<open>pkg/util/httpHeadersUtil.go\<close>. Header maps have lists of values; the loops
  range over Go maps, so a definition folds over the entries in the order of the list.
\<close>

type_synonym header_map = "(string, string list) gomap"

definition GetHeaderValues :: "header_map \<Rightarrow> (string, string) gomap" where
  "GetHeaderValues headers =
     fold (\<lambda>(h, values) m. case values of v # vs \<Rightarrow> mput (ToLower h) v m | [] \<Rightarrow> m) headers []"

definition GetQueryParams :: "(string, string list) gomap \<Rightarrow> (string, string) gomap" where
  "GetQueryParams query =
     fold (\<lambda>(k, values) m. case values of v # vs \<Rightarrow> mput (ToLower k) v m | [] \<Rightarrow> m) query []"

definition AddHeaderWithPrefix :: "string \<Rightarrow> string \<Rightarrow> string \<Rightarrow> header_map \<Rightarrow> header_map" where
  "AddHeaderWithPrefix prfx header value headers =
     (let key = prfx @ header in mput key (mget_or [] headers key @ [value]) headers)"

definition AddHeaderWithPrefixL :: "string \<Rightarrow> string \<Rightarrow> string \<Rightarrow> header_map \<Rightarrow> header_map" where
  "AddHeaderWithPrefixL prfx header value headers =
     (let key = ToLower (prfx @ header) in mput key (mget_or [] headers key @ [value]) headers)"

definition AddHeaderWithSuffix :: "string \<Rightarrow> string \<Rightarrow> string \<Rightarrow> header_map \<Rightarrow> header_map" where
  "AddHeaderWithSuffix header suffx value headers =
     (let key = header @ suffx in mput key (mget_or [] headers key @ [value]) headers)"

definition AddHeaderWithSuffixL :: "string \<Rightarrow> string \<Rightarrow> string \<Rightarrow> header_map \<Rightarrow> header_map" where
  "AddHeaderWithSuffixL header suffx value headers =
     (let key = ToLower (header @ suffx) in mput key (mget_or [] headers key @ [value]) headers)"

definition CopyHeadersWithPrefix :: "string \<Rightarrow> header_map \<Rightarrow> header_map \<Rightarrow> header_map" where
  "CopyHeadersWithPrefix prfx inp out =
     fold (\<lambda>(h, values) out. fold (\<lambda>v out. AddHeaderWithPrefix prfx h v out) values out) inp out"

text \<open>\<open>contentRegexp\<close> finds \<open>content\<close> anywhere in the name, \<open>hostRegexp\<close> is the whole name
  \<open>host\<close>, both in any case.\<close>

definition CopyHeadersWithIgnore ::
  "string \<Rightarrow> header_map \<Rightarrow> header_map \<Rightarrow> (string, bool) gomap \<Rightarrow> bool \<Rightarrow> bool \<Rightarrow> header_map" where
  "CopyHeadersWithIgnore prfx inp out ignoreHeaders copyHost copyContentType =
     fold (\<lambda>(h, values) out.
        let lh = ToLower h in
        if header_Get out h \<noteq> [] \<or> header_Get out lh \<noteq> [] then out
        else if mget_or False ignoreHeaders lh then out
        else if \<not> copyContentType \<and> Contains lh ''content'' then out
        else if \<not> copyHost \<and> EqualFold h ''host'' then out
        else fold (\<lambda>v out. AddHeaderWithPrefix prfx h v out) values out) inp out"

text \<open>What \<open>CopyRequestHeadersWithIgnore\<close> reads of the request store and the connection.\<close>

record request_info =
  riHost :: string
  RequestPayloadSize :: int
  IsTLS :: bool
  ServerName :: string
  TLSVersion :: string

definition CopyRequestHeadersWithIgnore ::
  "string \<Rightarrow> request \<Rightarrow> request_info \<Rightarrow> header_map \<Rightarrow> header_map option \<Rightarrow> (string, bool) gomap \<Rightarrow>
   bool \<Rightarrow> bool \<Rightarrow> bool \<Rightarrow> header_map" where
  "CopyRequestHeadersWithIgnore prfx0 r info out headers ignoreHeaders copyHost copyURI copyContentType =
     (let prfx = (if prfx0 \<noteq> [] then prfx0 @ ''-'' else []);
          hostCopied = (prfx0 \<noteq> [] \<and> copyHost);
          add = (\<lambda>b h v out. if b then AddHeaderWithPrefix prfx h v out else out);
          out = (if prfx0 = [] then out
                 else
                   add (IsTLS info \<and> copyHost \<and> TLSVersion info \<noteq> []) ''TLS-Version'' (TLSVersion info)
                    (add (IsTLS info \<and> copyHost \<and> ServerName info \<noteq> []) ''TLS-SNI'' (ServerName info)
                     (add copyURI ''URI'' (RequestURI r)
                      (add copyHost ''Host'' (riHost info)
                       (add True ''Method'' (reqMethod r)
                        (add (0 < RequestPayloadSize info) ''Payload-Size'' (Itoa (RequestPayloadSize info)) out))))));
          headers = (case headers of None \<Rightarrow> reqHeaders r | Some hs \<Rightarrow> hs)
      in CopyHeadersWithIgnore prfx headers out ignoreHeaders (\<not> hostCopied \<and> copyHost) copyContentType)"

definition CopyHeaders ::
  "(string, bool) gomap \<Rightarrow> string \<Rightarrow> request \<Rightarrow> request_info \<Rightarrow> header_map \<Rightarrow> header_map option \<Rightarrow>
   bool \<Rightarrow> bool \<Rightarrow> bool \<Rightarrow> header_map" where
  "CopyHeaders excludedHeaders prfx r info out headers copyHost copyURI copyContentType =
     CopyRequestHeadersWithIgnore prfx r info out headers excludedHeaders copyHost copyURI copyContentType"

text \<open>The response headers of an \<open>http_out\<close> as a header map, and back.\<close>

definition group_hdrs :: "(string \<times> string) list \<Rightarrow> header_map" where
  "group_hdrs hs = fold (\<lambda>(h, v) m. mput h (mget_or [] m h @ [v]) m) hs []"

definition flat_hdrs :: "header_map \<Rightarrow> (string \<times> string) list" where
  "flat_hdrs m = concat (map (\<lambda>(h, vs). map (\<lambda>v. (h, v)) vs) m)"

definition with_hdrs :: "(header_map \<Rightarrow> header_map) \<Rightarrow> http_out \<Rightarrow> http_out" where
  "with_hdrs f w = w\<lparr>whdrs := flat_hdrs (f (group_hdrs (whdrs w)))\<rparr>"

definition ToLowerHeaders :: "header_map \<Rightarrow> header_map" where
  "ToLowerHeaders headers = fold (\<lambda>(h, v) m. mput (ToLower h) v m) headers []"

definition ToLowerHeadersValues :: "header_map \<Rightarrow> (string, string) gomap" where
  "ToLowerHeadersValues headers =
     fold (\<lambda>(h, v) m. case v of x # xs \<Rightarrow> mput (ToLower h) x m | [] \<Rightarrow> m) headers []"

definition ToLowerHeader :: "(string, string) gomap \<Rightarrow> (string, string) gomap" where
  "ToLowerHeader headers = fold (\<lambda>(h, v) m. mput (ToLower h) v m) headers []"

definition ConvertHeadersArrayToMultiArray :: "string list \<Rightarrow> (string \<times> string) list" where
  "ConvertHeadersArrayToMultiArray headers = map (\<lambda>h. (h, [])) headers"

definition MatchAllHeaders :: "header_map \<Rightarrow> (string, string) gomap \<Rightarrow> bool" where
  "MatchAllHeaders headers expected =
     list_ex (\<lambda>(eh, ehv).
        eh \<noteq> [] \<and> header_Get headers eh \<noteq> [] \<and> (ehv = [] \<or> EqualFold ehv (header_Get headers eh)))
       expected"

fun GetIfAnyHeaderMatched ::
  "header_map \<Rightarrow> (string, (string, 'v) gomap) gomap \<Rightarrow> 'v option" where
  "GetIfAnyHeaderMatched headers [] = None"
| "GetIfAnyHeaderMatched headers ((eh, ehMap) # expected) =
     (let hv = header_Get headers eh in
      if eh = [] \<or> hv = [] then GetIfAnyHeaderMatched headers expected
      else (case find (\<lambda>(ehv, data). ehv = [] \<or> EqualFold ehv hv) ehMap of
              Some (ehv, data) \<Rightarrow> Some data
            | None \<Rightarrow> GetIfAnyHeaderMatched headers expected))"

text \<open>A compiled expression of an expected header is the predicate it stands for; nil matches any
  value of a header that is there.\<close>

definition ContainsAllHeaders ::
  "header_map \<Rightarrow> (string, (string \<Rightarrow> bool) option) gomap \<Rightarrow> bool" where
  "ContainsAllHeaders headers expected =
     list_all (\<lambda>(h, re).
        \<not> (h \<noteq> [] \<and>
           (case mget headers h of
              None \<Rightarrow> True
            | Some vs \<Rightarrow> (case re of None \<Rightarrow> False | Some p \<Rightarrow> \<not> list_ex p vs)))) expected"

definition is_host_header :: "string \<Rightarrow> bool" where
  "is_host_header k \<longleftrightarrow> EqualFold k ''Host'' \<or> EqualFold k '':authority''"

definition TransformHeaders ::
  "(string, string) gomap \<Rightarrow> (string, string) gomap \<Rightarrow> (string, string) gomap \<Rightarrow>
   (string, string) gomap \<Rightarrow> string list \<Rightarrow> (string, string) gomap \<times> string" where
  "TransformHeaders vars sourceHeaders addHeaders mapHeaders removeHeaders =
     (let cleanStart = (removeHeaders = [''*'']);
          removeHeaders = (if cleanStart then [] else removeHeaders);
          (headers, host) =
            fold (\<lambda>(k, v) (headers, host).
               if is_host_header k then (headers, v)
               else
                 (let m = (case mget mapHeaders k of
                             Some k2 \<Rightarrow> Some k2 | None \<Rightarrow> mget mapHeaders (ToLower k));
                      k2 = (case m of Some k2 \<Rightarrow> k2 | None \<Rightarrow> []);
                      k' = (case m of Some k2 \<Rightarrow> k2 | None \<Rightarrow> k)
                  in if \<not> cleanStart \<or> k2 \<noteq> [] then (mput k' v headers, host) else (headers, host)))
              sourceHeaders ([], []);
          headers = fold mdel removeHeaders headers
      in fold (\<lambda>(h, hv) (headers, host).
             let hv = FillValues hv vars
             in (mput h hv headers, if is_host_header h then hv else host))
           addHeaders (headers, host))"

section \<open>Lemmas\<close>

text \<open>Lower-casing the names of a header map whose names are pairwise different up to case keeps
  exactly the values, under the folded names.\<close>

definition fold_distinct :: "(string, 'v) gomap \<Rightarrow> bool" where
  "fold_distinct m \<longleftrightarrow> distinct (map (ToLower \<circ> fst) m)"

lemma lower_fold_other:
  "k \<notin> (ToLower \<circ> fst) ` set hs \<Longrightarrow>
   mget (fold (\<lambda>(h, v) m. case v of x # xs \<Rightarrow> mput (ToLower h) x m | [] \<Rightarrow> m) hs m0) k = mget m0 k"
  by (induction hs arbitrary: m0) (auto split: list.splits)

lemma ToLowerHeadersValues_get:
  assumes "fold_distinct hs" and "(h, v # vs) \<in> set hs"
  shows "mget (ToLowerHeadersValues hs) (ToLower h) = Some v"
proof -
  obtain as bs where hs: "hs = as @ (h, v # vs) # bs"
    using split_list [OF assms(2)] by blast
  have "ToLower h \<notin> (ToLower \<circ> fst) ` set bs"
    using assms(1) by (auto simp: hs fold_distinct_def)
  then show ?thesis by (simp add: ToLowerHeadersValues_def hs lower_fold_other)
qed

lemma ToLowerHeadersValues_none:
  "k \<notin> (ToLower \<circ> fst) ` set hs \<Longrightarrow> mget (ToLowerHeadersValues hs) k = None"
  by (simp add: ToLowerHeadersValues_def lower_fold_other)

end
