(* ===== verification/Delay_Types.thy ===== *)
theory Delay_Types
  imports Util_Params
begin

text \<open>
  Delays: \<open>pkg/types/delay.go\<close> and the random durations of \<open>pkg/types/random.go\<close>. A duration is
  an \<open>int64\<close> number of nanoseconds, with wrap-around written out. \<open>rnd n\<close> is the value that
  \<open>rand.Int63n(n)\<close> (or \<open>rand.Intn(n)\<close>) returns; both panic for \<open>n \<le> 0\<close>, and a panic or a nil
  dereference is the result \<open>None\<close>. \<open>time.Sleep\<close> has no effect on the state and is left out, as
  is the channel that \<open>Block\<close> hands out.

  The lemmas say when \<open>RandomDuration\<close> panics, that its result is in the range, and, through the
  locale \<open>countdown\<close>, that a delay configured for \<open>n\<close> requests delays exactly \<open>n\<close> of them.
\<close>

abbreviation Millisecond :: int where
  "Millisecond \<equiv> 1000000"

definition valid_rnd :: "(int \<Rightarrow> int) \<Rightarrow> bool" where
  "valid_rnd rnd \<longleftrightarrow> (\<forall>n > 0. 0 \<le> rnd n \<and> rnd n < n)"

section \<open>Printing durations\<close>

text \<open>\<open>time.Duration.String\<close>: the largest unit below a second, or hours, minutes and seconds; a
  fraction is printed without trailing zeros.\<close>

definition frac_digits :: "nat \<Rightarrow> int \<Rightarrow> string" where
  "frac_digits prec v =
     (let ds = int_digits v;
          ds = TrimRight (replicate (prec - length ds) CHR ''0'' @ ds) ''0''
      in if ds = [] then [] else CHR ''.'' # ds)"

definition with_frac :: "nat \<Rightarrow> int \<Rightarrow> string" where
  "with_frac prec v = int_digits (v div 10 ^ prec) @ frac_digits prec (v mod 10 ^ prec)"

definition DurationString :: "int \<Rightarrow> string" where
  "DurationString d =
     (let u = \<bar>d\<bar>;
          body =
            (if u = 0 then ''0s''
             else if u < 1000 then int_digits u @ ''ns''
             else if u < 1000000 then with_frac 3 u @ [CHR 0xC2, CHR 0xB5] @ ''s''
             else if u < 1000000000 then with_frac 6 u @ ''ms''
             else
               (let secs = u div 1000000000;
                    mins = secs div 60;
                    hours = mins div 60
                in (if 0 < hours then int_digits hours @ ''h'' else []) @
                   (if 0 < mins then int_digits (mins mod 60) @ ''m'' else []) @
                   int_digits (secs mod 60) @ frac_digits 9 (u mod 1000000000) @ ''s''))
      in if d < 0 then ''-'' @ body else body)"

section \<open>Random values\<close>

definition Random64 :: "(int \<Rightarrow> int) \<Rightarrow> int \<Rightarrow> int option" where
  "Random64 rnd n = (if 0 < n then Some (rnd n) else None)"

definition RandomDuration :: "(int \<Rightarrow> int) \<Rightarrow> int \<Rightarrow> int \<Rightarrow> int list \<Rightarrow> int option" where
  "RandomDuration rnd mn mx fallback =
     (if mn = 0 \<and> mx = 0 then
        (case fallback of f # fs \<Rightarrow> Some f | [] \<Rightarrow> Some 0)
      else if mn < mx then
        (let addOn = wrap64 (mx - mn) in
         case Random64 rnd (quot addOn Millisecond) of
           None \<Rightarrow> None
         | Some ms \<Rightarrow> Some (wrap64 (mn + wrap64 (Millisecond * ms))))
      else Some mn)"

definition RandomFrom :: "(int \<Rightarrow> int) \<Rightarrow> int list \<Rightarrow> int option" where
  "RandomFrom rnd vals =
     (if 0 < int (length vals) then Some (vals ! nat (rnd (int (length vals)))) else None)"

section \<open>Delays\<close>

record delay =
  dMin :: "int option"
  dMax :: "int option"
  dCount :: int
  computedDelay :: int
  hasComputed :: bool

definition NewDelay :: "int \<Rightarrow> int \<Rightarrow> int \<Rightarrow> delay option" where
  "NewDelay mn mx count =
     (if 0 < mx \<and> - 1 \<le> count then
        Some \<lparr>dMin = Some mn, dMax = Some mx, dCount = (if count = 0 then - 1 else count),
              computedDelay = 0, hasComputed = False\<rparr>
      else None)"

definition ParseDelay :: "(string \<Rightarrow> int option) \<Rightarrow> string \<Rightarrow> delay option" where
  "ParseDelay pd val =
     (case ParseDurationRange pd val of
        (mn, mx, count, ok) \<Rightarrow> if ok then NewDelay mn mx count else None)"

definition IsNonZero :: "delay \<Rightarrow> bool" where
  "IsNonZero d \<longleftrightarrow>
     (case (dMin d, dMax d) of
        (Some mn, Some mx) \<Rightarrow> 0 < mn \<and> 0 < mx \<and> (0 < dCount d \<or> dCount d = - 1)
      | _ \<Rightarrow> False)"

definition IsLargerThan :: "delay \<Rightarrow> delay \<Rightarrow> bool option" where
  "IsLargerThan d d2 =
     (case (dMax d, dMax d2) of
        (Some mx, Some mx2) \<Rightarrow>
          (if mx > mx2 then Some True
           else if mx = mx2 then
             (case (dMin d, dMin d2) of
                (Some mn, Some mn2) \<Rightarrow> Some (mn > mn2)
              | _ \<Rightarrow> None)
           else Some False)
      | _ \<Rightarrow> None)"

definition Prepare :: "delay \<Rightarrow> delay option" where
  "Prepare d =
     (case (dMin d, dMax d) of
        (Some mn, Some mx) \<Rightarrow>
          Some (d\<lparr>dMin := Some (if mn > mx then mx else mn),
                  dCount := (if dCount d = 0 \<or> dCount d < - 1 then - 1 else dCount d)\<rparr>)
      | _ \<Rightarrow> None)"

text \<open>\<open>UnmarshalJSON\<close> and \<open>UnmarshalYAML\<close> copy the decoded fields and call \<open>Prepare\<close>; the
  decoded payload is the argument.\<close>

definition Unmarshal_delay :: "int option \<Rightarrow> int option \<Rightarrow> int \<Rightarrow> delay \<Rightarrow> delay option" where
  "Unmarshal_delay mn mx count d = Prepare (d\<lparr>dMin := mn, dMax := mx, dCount := count\<rparr>)"

definition Compute :: "(int \<Rightarrow> int) \<Rightarrow> delay \<Rightarrow> (delay \<times> int) option" where
  "Compute rnd d =
     (if \<not> hasComputed d \<and> (0 < dCount d \<or> dCount d = - 1) then
        (case (dMin d, dMax d) of
           (Some mn, Some mx) \<Rightarrow>
             (case RandomDuration rnd mn mx [] of
                None \<Rightarrow> None
              | Some c \<Rightarrow> Some (d\<lparr>computedDelay := c, hasComputed := True\<rparr>, c))
         | _ \<Rightarrow> None)
      else Some (d, computedDelay d))"

definition Apply :: "(int \<Rightarrow> int) \<Rightarrow> delay \<Rightarrow> (delay \<times> int) option" where
  "Apply rnd d =
     (case (if \<not> hasComputed d then map_option fst (Compute rnd d) else Some d) of
        None \<Rightarrow> None
      | Some d1 \<Rightarrow>
          (let d2 = d1\<lparr>hasComputed := False\<rparr> in
           if 0 < dCount d2 \<or> dCount d2 = - 1 then
             (if 0 < computedDelay d2 then
                Some (if 0 < dCount d2 then d2\<lparr>dCount := dCount d2 - 1\<rparr> else d2, computedDelay d2)
              else Some (d2, 0))
           else Some (d2\<lparr>computedDelay := 0\<rparr>, 0)))"

definition ComputeAndApply :: "(int \<Rightarrow> int) \<Rightarrow> delay \<Rightarrow> (delay \<times> int) option" where
  "ComputeAndApply rnd d =
     (case Compute rnd d of None \<Rightarrow> None | Some (d1, c) \<Rightarrow> Apply rnd d1)"

section \<open>Random durations\<close>

lemma is_int64_diff: "is_int64 mn \<Longrightarrow> is_int64 mx \<Longrightarrow> 0 \<le> mn \<Longrightarrow> mn < mx \<Longrightarrow> is_int64 (mx - mn)"
  by (simp add: is_int64_def)

lemma RandomDuration_step:
  assumes "is_int64 mn" "is_int64 mx" "0 \<le> mn" "mn < mx"
  shows "RandomDuration rnd mn mx fb =
         (if mx - mn < Millisecond then None
          else Some (wrap64 (mn + wrap64 (Millisecond * rnd ((mx - mn) div Millisecond)))))"
proof -
  have "wrap64 (mx - mn) = mx - mn"
    using assms is_int64_diff wrap64_id by blast
  moreover have "quot (mx - mn) Millisecond = (mx - mn) div Millisecond"
    using assms(4) by (intro quot_nonneg) auto
  ultimately show ?thesis
    using assms(3,4) by (auto simp: RandomDuration_def Random64_def Let_def)
qed

lemma RandomDuration_in_range:
  assumes "valid_rnd rnd" "is_int64 mn" "is_int64 mx" "0 \<le> mn" "mn < mx"
    and "RandomDuration rnd mn mx fb = Some d"
  shows "mn \<le> d \<and> d < mx"
proof -
  define ms where "ms = rnd ((mx - mn) div Millisecond)"
  have ge: "\<not> mx - mn < Millisecond" and d: "d = wrap64 (mn + wrap64 (Millisecond * ms))"
    using assms RandomDuration_step [of mn mx rnd fb] by (auto simp: ms_def split: if_splits)
  have "0 < (mx - mn) div Millisecond"
    using ge by (simp add: pos_imp_zdiv_pos_iff)
  then have "0 \<le> ms" "ms < (mx - mn) div Millisecond"
    using assms(1) by (auto simp: valid_rnd_def ms_def)
  then have b: "0 \<le> Millisecond * ms" "Millisecond * ms < mx - mn"
    by linarith+
  have "is_int64 (Millisecond * ms)" "is_int64 (mn + Millisecond * ms)"
    using b assms(2-5) by (auto simp: is_int64_def)
  then have "d = mn + Millisecond * ms"
    by (simp add: d)
  with b show ?thesis by simp
qed

section \<open>A delay counts down\<close>

text \<open>The state a delay is in between two requests: both bounds set and positive, wide enough
  for \<open>RandomDuration\<close>, and a count of \<open>- 1\<close> (no limit) or more.\<close>

definition delay_ready :: "(int \<Rightarrow> int) \<Rightarrow> delay \<Rightarrow> bool" where
  "delay_ready rnd d \<longleftrightarrow>
     valid_rnd rnd \<and> \<not> hasComputed d \<and> - 1 \<le> dCount d \<and>
     (\<exists>mn mx. dMin d = Some mn \<and> dMax d = Some mx \<and> 0 < mn \<and> is_int64 mn \<and> is_int64 mx \<and>
        (mn = mx \<or> mn + Millisecond \<le> mx))"

definition delay_left :: "delay \<Rightarrow> nat option" where
  "delay_left d = (if dCount d = - 1 then None else Some (nat (dCount d)))"

definition delay_tick :: "(int \<Rightarrow> int) \<Rightarrow> delay \<Rightarrow> delay" where
  "delay_tick rnd d = (case ComputeAndApply rnd d of Some (d', _) \<Rightarrow> d' | None \<Rightarrow> d)"

definition delay_applied :: "(int \<Rightarrow> int) \<Rightarrow> delay \<Rightarrow> bool" where
  "delay_applied rnd d \<longleftrightarrow> (\<exists>d' c. ComputeAndApply rnd d = Some (d', c) \<and> 0 < c)"

lemma RandomDuration_ready:
  assumes "valid_rnd rnd" "0 < mn" "is_int64 mn" "is_int64 mx" "mn = mx \<or> mn + Millisecond \<le> mx"
  shows "\<exists>c. RandomDuration rnd mn mx [] = Some c \<and> mn \<le> c \<and> c \<le> mx"
proof (cases "mn = mx")
  case True
  with assms(2) show ?thesis by (auto simp: RandomDuration_def)
next
  case False
  with assms(5) have "mn < mx" by linarith
  then obtain c where "RandomDuration rnd mn mx [] = Some c"
    using assms False RandomDuration_step [of mn mx rnd "[]"] by auto
  with RandomDuration_in_range [of rnd mn mx "[]" c] assms \<open>mn < mx\<close> show ?thesis by auto
qed

lemma ComputeAndApply_ready:
  assumes "delay_ready rnd d" "dCount d \<noteq> 0"
  shows "\<exists>c mn mx. dMin d = Some mn \<and> dMax d = Some mx \<and> mn \<le> c \<and> c \<le> mx \<and> 0 < c \<and>
     ComputeAndApply rnd d =
       Some (d\<lparr>computedDelay := c, dCount := (if 0 < dCount d then dCount d - 1 else dCount d)\<rparr>, c)"
proof -
  obtain mn mx where b: "dMin d = Some mn" "dMax d = Some mx" "0 < mn" "is_int64 mn" "is_int64 mx"
    "mn = mx \<or> mn + Millisecond \<le> mx" "valid_rnd rnd" "\<not> hasComputed d" "- 1 \<le> dCount d"
    using assms(1) by (auto simp: delay_ready_def)
  from RandomDuration_ready [OF b(7,3,4,5,6)]
  obtain c where c: "RandomDuration rnd mn mx [] = Some c" "mn \<le> c" "c \<le> mx" by blast
  have cnt: "0 < dCount d \<or> dCount d = - 1" using b(9) assms(2) by linarith
  have "Compute rnd d = Some (d\<lparr>computedDelay := c, hasComputed := True\<rparr>, c)"
    using b cnt c by (simp add: Compute_def)
  moreover have "Apply rnd (d\<lparr>computedDelay := c, hasComputed := True\<rparr>) =
    Some (d\<lparr>computedDelay := c, dCount := (if 0 < dCount d then dCount d - 1 else dCount d)\<rparr>, c)"
    using cnt b c by (auto simp: Apply_def Let_def)
  ultimately show ?thesis
    using b c by (auto simp: ComputeAndApply_def)
qed

lemma ComputeAndApply_done:
  assumes "\<not> hasComputed d" "dCount d = 0"
  shows "ComputeAndApply rnd d = Some (d\<lparr>computedDelay := 0, hasComputed := False\<rparr>, 0)"
  using assms by (simp add: ComputeAndApply_def Compute_def Apply_def Let_def)

interpretation delay_cd: countdown delay_left "delay_applied rnd" "delay_tick rnd" "delay_ready rnd"
  for rnd
proof unfold_locales
  fix d assume r: "delay_ready rnd d"
  show "delay_applied rnd d \<longleftrightarrow> delay_left d \<noteq> Some 0"
  proof (cases "dCount d = 0")
    case True
    with r show ?thesis
      by (auto simp: delay_ready_def delay_applied_def delay_left_def ComputeAndApply_done)
  next
    case False
    with ComputeAndApply_ready [OF r False] r show ?thesis
      by (auto simp: delay_applied_def delay_left_def delay_ready_def)
  qed
  show "delay_left (delay_tick rnd d) = map_option (\<lambda>n. n - 1) (delay_left d)"
  proof (cases "dCount d = 0")
    case True
    with r show ?thesis
      by (auto simp: delay_ready_def delay_tick_def delay_left_def ComputeAndApply_done)
  next
    case False
    with ComputeAndApply_ready [OF r False] r show ?thesis
      by (auto simp: delay_tick_def delay_left_def delay_ready_def nat_diff_distrib)
  qed
  show "delay_ready rnd (delay_tick rnd d)"
  proof (cases "dCount d = 0")
    case True
    with r show ?thesis
      by (auto simp: delay_ready_def delay_tick_def ComputeAndApply_done)
  next
    case False
    with ComputeAndApply_ready [OF r False] r show ?thesis
      by (auto simp: delay_tick_def delay_ready_def)
  qed
qed

section \<open>Properties\<close>

text \<open>For a non-negative lower bound, a random duration cannot be drawn exactly when the range
  is not empty but narrower than a millisecond: the width is rounded down to 0 milliseconds and
  the random source panics.\<close>

theorem RandomDuration_panics_iff:
  assumes "is_int64 mn" and "is_int64 mx" and "0 \<le> mn"
  shows "RandomDuration rnd mn mx fb = None \<longleftrightarrow> mn < mx \<and> mx - mn < 1000000"
proof (cases "mn < mx")
  case True
  with assms show ?thesis by (simp add: RandomDuration_step)
next
  case False
  then show ?thesis by (auto simp: RandomDuration_def split: list.splits)
qed

theorem RandomDuration_panics_iff_witness:
  "RandomDuration (\<lambda>n. 0) 1000000 1500000 [] = None"
  using RandomDuration_panics_iff [of 1000000 1500000 "\<lambda>n. 0" "[]"]
  by (simp add: is_int64_def)

text \<open>A delay configured for \<open>n\<close> requests is applied to exactly the first \<open>n\<close> of any number
  \<open>m\<close> of requests, each time for a positive duration.\<close>

theorem delay_applied_count:
  assumes "delay_ready rnd d" and "dCount d = int n"
  shows "length (filter (\<lambda>k. delay_applied rnd ((delay_tick rnd ^^ k) d)) [0..<m]) = min n m"
  using assms by (intro delay_cd.served) (auto simp: delay_left_def)

theorem delay_applied_count_witness:
  "length (filter (\<lambda>k. delay_applied (\<lambda>n. 0) ((delay_tick (\<lambda>n. 0) ^^ k)
     \<lparr>dMin = Some 1000000, dMax = Some 3000000, dCount = 2, computedDelay = 0,
      hasComputed = False\<rparr>)) [0..<5]) = 2"
proof -
  let ?d = "\<lparr>dMin = Some 1000000, dMax = Some 3000000, dCount = 2, computedDelay = 0,
      hasComputed = False\<rparr>"
  have "delay_ready (\<lambda>n. 0) ?d"
    by (simp add: delay_ready_def valid_rnd_def is_int64_def)
  from delay_applied_count [OF this, of 2 5] show ?thesis by simp
qed

text \<open>Every duration a delay draws lies between its bounds, and the upper bound itself is
  drawn only when the bounds are equal.\<close>

theorem Compute_in_bounds:
  assumes "delay_ready rnd d" and "dCount d \<noteq> 0" and "dMin d = Some mn" and "dMax d = Some mx"
  shows "\<exists>d' c. Compute rnd d = Some (d', c) \<and> computedDelay d' = c \<and> mn \<le> c \<and>
     (c < mx \<or> mn = mx \<and> c = mx)"
proof -
  have b: "0 < mn" "is_int64 mn" "is_int64 mx" "mn = mx \<or> mn + Millisecond \<le> mx" "valid_rnd rnd"
    "\<not> hasComputed d" "0 < dCount d \<or> dCount d = - 1"
    using assms by (auto simp: delay_ready_def)
  from RandomDuration_ready [OF b(5,1,2,3,4)]
  obtain c where c: "RandomDuration rnd mn mx [] = Some c" "mn \<le> c" "c \<le> mx" by blast
  have "c < mx \<or> mn = mx \<and> c = mx"
    using RandomDuration_in_range [OF b(5,2,3) _ _ c(1)] b c by force
  with c b assms(3,4) show ?thesis by (simp add: Compute_def)
qed

theorem Compute_in_bounds_witness:
  "\<exists>d' c. Compute (\<lambda>n. n - 1)
       \<lparr>dMin = Some 1000000, dMax = Some 3000000, dCount = -1, computedDelay = 0,
        hasComputed = False\<rparr> = Some (d', c) \<and>
     computedDelay d' = c \<and> 1000000 \<le> c \<and> (c < 3000000 \<or> (1000000::int) = 3000000 \<and> c = 3000000)"
  by (rule Compute_in_bounds) (simp_all add: delay_ready_def valid_rnd_def is_int64_def)

end
