(* ===== verification/Headers_Types.thy ===== *)
theory Headers_Types
  imports Goto_Prelude
begin

text \<open>
  Header configurations: \<open>pkg/types/headers.go\<close>. A nil map is \<open>None\<close>; writing to it panics,
  which is the result \<open>None\<close> of the merging operations. The Go interface \<open>MutatingHeaders\<close>
  (\<open>Add\<close> and \<open>Del\<close>) is the locale \<open>mutating_headers\<close>; the two implementations of the
  package, \<open>SimpleHTTPHeaders\<close> (one value per name) and the gRPC metadata \<open>MD\<close> (a list of values
  per name), are its interpretations. \<open>UpdateHeaders\<close> and \<open>ForwardHeaders\<close> are clients of the
  interface: their laws are proved once, in the locale.
\<close>

record headers_config =
  hcAdd :: "(string, string) gomap option"
  hcRemove :: "string list"
  hcForward :: "string list"

record headers =
  hRequest :: "headers_config option"
  hResponse :: "headers_config option"

definition NewHeadersConfig :: headers_config where
  "NewHeadersConfig = \<lparr>hcAdd = Some [], hcRemove = [], hcForward = []\<rparr>"

definition NewHeaders :: headers where
  "NewHeaders = \<lparr>hRequest = Some NewHeadersConfig, hResponse = Some NewHeadersConfig\<rparr>"

definition hc_NonNil :: "headers_config \<Rightarrow> headers_config" where
  "hc_NonNil hc = (if hcAdd hc = None then hc\<lparr>hcAdd := Some []\<rparr> else hc)"

definition headers_NonNil :: "headers \<Rightarrow> headers" where
  "headers_NonNil h =
     h\<lparr>hRequest := Some (hc_NonNil (case hRequest h of None \<Rightarrow> NewHeadersConfig | Some c \<Rightarrow> c)),
       hResponse := Some (hc_NonNil (case hResponse h of None \<Rightarrow> NewHeadersConfig | Some c \<Rightarrow> c))\<rparr>"

definition HasForwardHeaders :: "headers \<Rightarrow> bool" where
  "HasForwardHeaders h \<longleftrightarrow> (case hRequest h of None \<Rightarrow> False | Some c \<Rightarrow> hcForward c \<noteq> [])"

definition hc_Merge :: "headers_config \<Rightarrow> headers_config option \<Rightarrow> headers_config option" where
  "hc_Merge hc hc2o =
     (case hc2o of
        None \<Rightarrow> Some hc
      | Some hc2 \<Rightarrow>
          (let entries = (case hcAdd hc2 of None \<Rightarrow> [] | Some m \<Rightarrow> m);
               rest = hc\<lparr>hcRemove := hcRemove hc @ hcRemove hc2, hcForward := hcForward hc @ hcForward hc2\<rparr>
           in case hcAdd hc of
                None \<Rightarrow> (if entries = [] then Some rest else None)
              | Some m \<Rightarrow> Some (rest\<lparr>hcAdd := Some (map_merge m entries)\<rparr>)))"

definition headers_Merge :: "headers \<Rightarrow> headers option \<Rightarrow> headers option" where
  "headers_Merge h h2o =
     (case h2o of
        None \<Rightarrow> Some h
      | Some h2 \<Rightarrow>
          (case (hRequest h, hResponse h) of
             (Some rq, Some rs) \<Rightarrow>
               (case (hc_Merge rq (hRequest h2), hc_Merge rs (hResponse h2)) of
                  (Some rq', Some rs') \<Rightarrow> Some (h\<lparr>hRequest := Some rq', hResponse := Some rs'\<rparr>)
                | _ \<Rightarrow> None)
           | (Some rq, None) \<Rightarrow>
               (case (hc_Merge rq (hRequest h2), hResponse h2) of
                  (Some rq', None) \<Rightarrow> Some (h\<lparr>hRequest := Some rq'\<rparr>)
                | _ \<Rightarrow> None)
           | (None, Some rs) \<Rightarrow>
               (case (hRequest h2, hc_Merge rs (hResponse h2)) of
                  (None, Some rs') \<Rightarrow> Some (h\<lparr>hResponse := Some rs'\<rparr>)
                | _ \<Rightarrow> None)
           | (None, None) \<Rightarrow> (if hRequest h2 = None \<and> hResponse h2 = None then Some h else None)))"

definition headers_Union :: "headers option \<Rightarrow> headers option \<Rightarrow> headers option" where
  "headers_Union h1 h2 =
     (case headers_Merge NewHeaders h1 of None \<Rightarrow> None | Some h \<Rightarrow> headers_Merge h h2)"

definition hc_Union :: "headers_config option \<Rightarrow> headers_config option \<Rightarrow> headers_config option" where
  "hc_Union hc hc2 =
     (case hc_Merge NewHeadersConfig hc of None \<Rightarrow> None | Some h \<Rightarrow> hc_Merge h hc2)"

definition headers_Clone :: "headers \<Rightarrow> headers option" where
  "headers_Clone h =
     (case hRequest h of
        None \<Rightarrow> None
      | Some c \<Rightarrow> Some (NewHeaders\<lparr>hRequest :=
          Some \<lparr>hcAdd = hcAdd c, hcRemove = hcRemove c, hcForward = hcForward c\<rparr>\<rparr>))"

text \<open>The clients of the header interface, over any \<open>Add\<close>, \<open>Del\<close> and \<open>Get\<close>.\<close>

definition UpdateHeaders ::
  "('h \<Rightarrow> string \<Rightarrow> string \<Rightarrow> 'h) \<Rightarrow> ('h \<Rightarrow> string \<Rightarrow> 'h) \<Rightarrow> headers_config \<Rightarrow> 'h \<Rightarrow> 'h" where
  "UpdateHeaders add del hc h =
     (let h1 = fold (\<lambda>k h. del h k) (hcRemove hc) h;
          entries = (case hcAdd hc of None \<Rightarrow> [] | Some m \<Rightarrow> m)
      in fold (\<lambda>(k, v) h. add h k v) entries h1)"

definition ForwardHeaders ::
  "('s \<Rightarrow> string \<Rightarrow> string) \<Rightarrow> ('h \<Rightarrow> string \<Rightarrow> string \<Rightarrow> 'h) \<Rightarrow> 's option \<Rightarrow> 'h \<Rightarrow>
   string list option \<Rightarrow> 'h" where
  "ForwardHeaders get add source target forward =
     (case (forward, source) of
        (Some hs, Some src) \<Rightarrow>
          fold (\<lambda>h t. let v = get src h in if v \<noteq> [] then add t h v else t) hs target
      | _ \<Rightarrow> target)"

section \<open>The two implementations\<close>

type_synonym SimpleHTTPHeaders = "(string, string) gomap"
type_synonym MD = "(string, string list) gomap"

definition simple_Get :: "SimpleHTTPHeaders \<Rightarrow> string \<Rightarrow> string" where
  "simple_Get sh k = mget_or [] sh k"

definition simple_Add :: "SimpleHTTPHeaders \<Rightarrow> string \<Rightarrow> string \<Rightarrow> SimpleHTTPHeaders" where
  "simple_Add sh k v = mput k v sh"

definition simple_Del :: "SimpleHTTPHeaders \<Rightarrow> string \<Rightarrow> SimpleHTTPHeaders" where
  "simple_Del sh k = mdel k sh"

definition md_Add :: "MD \<Rightarrow> string \<Rightarrow> string \<Rightarrow> MD" where
  "md_Add md k v = mput k (mget_or [] md k @ [v]) md"

definition md_Del :: "MD \<Rightarrow> string \<Rightarrow> MD" where
  "md_Del md k = mdel k md"

definition simple_values :: "SimpleHTTPHeaders \<Rightarrow> string \<Rightarrow> string list" where
  "simple_values sh k = (case mget sh k of None \<Rightarrow> [] | Some v \<Rightarrow> [v])"

definition md_values :: "MD \<Rightarrow> string \<Rightarrow> string list" where
  "md_values md k = mget_or [] md k"

section \<open>The interface and its clients\<close>

locale mutating_headers =
  fixes vals :: "'h \<Rightarrow> string \<Rightarrow> string list"
    and add :: "'h \<Rightarrow> string \<Rightarrow> string \<Rightarrow> 'h"
    and del :: "'h \<Rightarrow> string \<Rightarrow> 'h"
  assumes vals_del: "vals (del h k) k' = (if k' = k then [] else vals h k')"
    and vals_add_other: "k' \<noteq> k \<Longrightarrow> vals (add h k v) k' = vals h k'"
    and last_add: "vals (add h k v) k \<noteq> [] \<and> last (vals (add h k v) k) = v"
    and add_bound: "set (vals (add h k v) k) \<subseteq> insert v (set (vals h k))"
begin

lemma dels_vals: "vals (fold (\<lambda>k h. del h k) ks h) k' = (if k' \<in> set ks then [] else vals h k')"
  by (induction ks arbitrary: h) (auto simp: vals_del)

lemma adds_other:
  "k' \<notin> fst ` set es \<Longrightarrow> vals (fold (\<lambda>(k, v) h. add h k v) es h) k' = vals h k'"
  by (induction es arbitrary: h) (auto simp: vals_add_other)

lemma adds_bound:
  "set (vals (fold (\<lambda>(k, v) h. add h k v) es h) k') \<subseteq> set (vals h k') \<union> {v. (k', v) \<in> set es}"
proof (induction es arbitrary: h)
  case (Cons e es)
  obtain k v where e: "e = (k, v)" by (cases e)
  have "set (vals (add h k v) k') \<subseteq> set (vals h k') \<union> {w. (k', w) = (k, v)}"
    using add_bound [of h k v] vals_add_other [of k' k h v] by (cases "k' = k") auto
  with Cons.IH [of "add h k v"] show ?case by (auto simp: e)
qed simp

lemma adds_last:
  assumes "mwf es" "(k', v) \<in> set es"
  shows "vals (fold (\<lambda>(k, v) h. add h k v) es h) k' \<noteq> [] \<and>
         last (vals (fold (\<lambda>(k, v) h. add h k v) es h) k') = v"
  using assms
proof (induction es arbitrary: h)
  case (Cons e es)
  obtain k w where e: "e = (k, w)" by (cases e)
  show ?case
  proof (cases "(k', v) \<in> set es")
    case True
    with Cons show ?thesis by (simp add: e mwf_def)
  next
    case False
    with Cons.prems e have kv: "k = k'" "w = v" and nin: "k' \<notin> fst ` set es"
      by (auto simp: mwf_def)
    then show ?thesis using last_add by (simp add: e adds_other)
  qed
qed simp

text \<open>What \<open>UpdateHeaders\<close> promises: removals come before additions, so an added name ends with
  its configured value whether or not it is also removed; a name that is only removed is gone;
  every other name keeps its values.\<close>

lemma UpdateHeaders_added:
  assumes "hcAdd hc = Some m" "mwf m" "(k, v) \<in> set m"
  shows "vals (UpdateHeaders add del hc h) k \<noteq> [] \<and> last (vals (UpdateHeaders add del hc h) k) = v"
  using assms adds_last by (simp add: UpdateHeaders_def Let_def)

lemma UpdateHeaders_removed:
  assumes "k \<in> set (hcRemove hc)" "\<And>m. hcAdd hc = Some m \<Longrightarrow> k \<notin> fst ` set m"
  shows "vals (UpdateHeaders add del hc h) k = []"
  using assms by (cases "hcAdd hc") (auto simp: UpdateHeaders_def Let_def adds_other dels_vals)

lemma UpdateHeaders_untouched:
  assumes "k \<notin> set (hcRemove hc)" "\<And>m. hcAdd hc = Some m \<Longrightarrow> k \<notin> fst ` set m"
  shows "vals (UpdateHeaders add del hc h) k = vals h k"
  using assms by (cases "hcAdd hc") (auto simp: UpdateHeaders_def Let_def adds_other dels_vals)

lemma forward_untouched:
  assumes "k \<notin> set hs \<or> get src k = []"
  shows "vals (fold (\<lambda>h t. let v = get src h in if v \<noteq> [] then add t h v else t) hs target) k = vals target k"
  using assms
proof (induction hs arbitrary: target)
  case (Cons h hs)
  have "vals (if get src h \<noteq> [] then add target h (get src h) else target) k = vals target k"
    using Cons.prems by (cases "k = h") (auto simp: vals_add_other)
  moreover have "k \<notin> set hs \<or> get src k = []" using Cons.prems by auto
  ultimately show ?case using Cons.IH by (simp add: Let_def)
qed simp

lemma forward_last:
  assumes "k \<in> set hs" "get src k \<noteq> []"
  shows "(let t = fold (\<lambda>h t. let v = get src h in if v \<noteq> [] then add t h v else t) hs target
          in vals t k \<noteq> [] \<and> last (vals t k) = get src k)"
  using assms
proof (induction hs arbitrary: target)
  case (Cons h hs)
  show ?case
  proof (cases "k \<in> set hs")
    case True
    with Cons show ?thesis by simp
  next
    case False
    with Cons.prems have "k = h" by simp
    with Cons.prems False forward_untouched [of k hs get src] last_add show ?thesis
      by (simp add: Let_def)
  qed
qed simp

end

interpretation simple_hdrs: mutating_headers simple_values simple_Add simple_Del
  by unfold_locales (auto simp: simple_values_def simple_Add_def simple_Del_def)

interpretation md_hdrs: mutating_headers md_values md_Add md_Del
  by unfold_locales (auto simp: md_values_def md_Add_def md_Del_def)

section \<open>Merging\<close>

lemma hc_Merge_total: "hcAdd hc \<noteq> None \<Longrightarrow> \<exists>hc'. hc_Merge hc hc2 = Some hc' \<and> hcAdd hc' \<noteq> None"
  by (cases hc2) (auto simp: hc_Merge_def Let_def)

end
