(* ===== verification/Status_Manager.thy ===== *)
theory Status_Manager
  imports Util_Headers Delay_Types
begin

text \<open>
  Forced response statuses: \<open>pkg/server/response/status/statusManager.go\<close>. The manager keeps, for
  each port, an ordered list of status configurations; a request takes the status of the first
  configuration that matches it and uses up one of its counts. Pointers that may be nil
  (\<open>Match\<close>, \<open>URIMatch\<close>, \<open>Present\<close>, the elements of \<open>HeaderMatches\<close>) are options and dereferencing nil
  is the result \<open>None\<close>.
  The regular-expression compiler is the argument \<open>compiles\<close> of \<open>ApplyStatusConfig\<close>.

  The lemmas: the invariant \<open>mgr_ok\<close> that every operation keeps, under which no operation
  dereferences nil; the manager as a \<open>countdown\<close>; and what \<open>SetStatusFor\<close> and \<open>Clear\<close> do to the
  configurations a later request sees.
\<close>

section \<open>Data\<close>

record status_header_match =
  shHeader :: string
  shHeaderValue :: string
  shPresent :: "bool option"

record status_uri_match =
  suPrefix :: string
  suExact :: string
  suRegex :: string
  suNot :: bool

record status_match =
  smURIMatch :: "status_uri_match option"
  smHeaderMatches :: "status_header_match option list"
  smMethodMatch :: "string list"

record status_config =
  scPort :: int
  scStatuses :: "int list"
  scTimes :: int
  scLastStatusIndex :: int
  scLastStatus :: int
  scStatusCount :: int
  scMatch :: "status_match option"

type_synonym status_manager = "(int, status_config list) gomap"

datatype status_error = NoStatus | InvalidStatus | InvalidStatusTimes | BadRegex

definition NewStatusManager :: status_manager where
  "NewStatusManager = []"

section \<open>Operations\<close>

definition newStatusConfig ::
  "string \<Rightarrow> string \<Rightarrow> string \<Rightarrow> string \<Rightarrow> string list \<Rightarrow> int list \<Rightarrow> int \<Rightarrow> bool \<Rightarrow> status_config" where
  "newStatusConfig uriExact uriPrefix header headerValue methods statusCodes ntimes present =
     (let header = TrimSpace header in
      \<lparr>scPort = 0, scStatuses = statusCodes, scTimes = ntimes, scLastStatusIndex = 0,
       scLastStatus = 0, scStatusCount = 0,
       scMatch = Some
         \<lparr>smURIMatch = Some \<lparr>suPrefix = uriPrefix, suExact = uriExact, suRegex = [], suNot = False\<rparr>,
          smHeaderMatches =
            (if header \<noteq> [] then
               [Some \<lparr>shHeader = header, shHeaderValue = headerValue, shPresent = Some present\<rparr>]
             else []),
          smMethodMatch = methods\<rparr>\<rparr>)"

text \<open>A conjunction over a list, left to right, stopping at the first \<open>False\<close>.\<close>

fun all_opt :: "('a \<Rightarrow> bool option) \<Rightarrow> 'a list \<Rightarrow> bool option" where
  "all_opt f [] = Some True"
| "all_opt f (x # xs) =
     (case f x of None \<Rightarrow> None | Some False \<Rightarrow> Some False | Some True \<Rightarrow> all_opt f xs)"

definition shm_match :: "status_header_match option \<Rightarrow> (string, string) gomap \<Rightarrow> bool option" where
  "shm_match m headers =
     (case m of
        None \<Rightarrow> None
      | Some m \<Rightarrow>
          (case shPresent m of
             None \<Rightarrow> None
           | Some want \<Rightarrow>
               Some (case mget headers (shHeader m) of
                       None \<Rightarrow> \<not> want
                     | Some hv \<Rightarrow> want \<and> (shHeaderValue m = [] \<or> EqualFold hv (shHeaderValue m)))))"

definition shm_matchOne :: "status_header_match option \<Rightarrow> string \<Rightarrow> string \<Rightarrow> bool \<Rightarrow> bool option" where
  "shm_matchOne m h hv present =
     (case m of
        None \<Rightarrow> None
      | Some m \<Rightarrow>
          (case shPresent m of
             None \<Rightarrow> None
           | Some want \<Rightarrow>
               Some (want = present \<and> EqualFold h (shHeader m) \<and> EqualFold hv (shHeaderValue m))))"

definition sm_match :: "status_match \<Rightarrow> string \<Rightarrow> (string, string) gomap \<Rightarrow> bool option" where
  "sm_match sm uri headers =
     (case smURIMatch sm of
        None \<Rightarrow> None
      | Some u \<Rightarrow>
          (if suPrefix u \<noteq> [] \<and> HasPrefix uri (suPrefix u) = suNot u then Some False
           else if suExact u \<noteq> [] \<and> EqualFold uri (suExact u) = suNot u then Some False
           else all_opt (\<lambda>m. shm_match m headers) (smHeaderMatches sm)))"

definition sc_SetStatus :: "int list \<Rightarrow> int \<Rightarrow> status_config \<Rightarrow> status_config" where
  "sc_SetStatus statusCodes ntimes s =
     (case statusCodes of
        c # cs \<Rightarrow>
          (if 0 < c then s\<lparr>scStatuses := statusCodes, scTimes := (if 1 \<le> ntimes then ntimes else - 1)\<rparr>
           else s\<lparr>scStatuses := [], scTimes := 0\<rparr>)
      | [] \<Rightarrow> s\<lparr>scStatuses := [], scTimes := 0\<rparr>)"

definition sc_GetStatus :: "(int \<Rightarrow> int) \<Rightarrow> status_config \<Rightarrow> (status_config \<times> int \<times> int) option" where
  "sc_GetStatus rnd s =
     (if 1 \<le> scTimes s \<or> scTimes s = - 1 then
        (let s' = (if 1 \<le> scTimes s then s\<lparr>scTimes := scTimes s - 1\<rparr> else s) in
         case scStatuses s' of
           [] \<Rightarrow> Some (s', 0, 0)
         | [c] \<Rightarrow> Some (s', c, scTimes s')
         | c # d # cs \<Rightarrow>
             (case RandomFrom rnd (scStatuses s') of
                None \<Rightarrow> None
              | Some v \<Rightarrow> Some (s', v, scTimes s')))
      else Some (s, 0, 0))"

text \<open>Whether a configuration is the one for a URI, a URI prefix and a header.\<close>

definition is_config_for ::
  "string \<Rightarrow> string \<Rightarrow> string \<Rightarrow> string \<Rightarrow> bool \<Rightarrow> status_config \<Rightarrow> bool option" where
  "is_config_for uriExact uriPrefix header headerValue present sc =
     (case scMatch sc of
        None \<Rightarrow> None
      | Some sm \<Rightarrow>
          (case smURIMatch sm of
             None \<Rightarrow> None
           | Some u \<Rightarrow>
               (if EqualFold (suExact u) uriExact \<and> EqualFold (suPrefix u) uriPrefix then
                  all_opt (\<lambda>m. shm_matchOne m header headerValue present) (smHeaderMatches sm)
                else Some False)))"

fun first_index :: "('a \<Rightarrow> bool option) \<Rightarrow> 'a list \<Rightarrow> nat option option" where
  "first_index f [] = Some None"
| "first_index f (x # xs) =
     (case f x of
        None \<Rightarrow> None
      | Some True \<Rightarrow> Some (Some 0)
      | Some False \<Rightarrow> map_option (map_option Suc) (first_index f xs))"

definition findOrRemoveStatusConfig ::
  "int \<Rightarrow> string \<Rightarrow> string \<Rightarrow> string \<Rightarrow> string \<Rightarrow> bool \<Rightarrow> bool \<Rightarrow> status_manager \<Rightarrow>
   (status_manager \<times> nat option) option" where
  "findOrRemoveStatusConfig port uriExact uriPrefix header headerValue present remove s =
     (let statuses = mget_or [] s port in
      case first_index (is_config_for uriExact uriPrefix header headerValue present) statuses of
        None \<Rightarrow> None
      | Some None \<Rightarrow> Some (s, None)
      | Some (Some i) \<Rightarrow>
          Some (if remove then mput port (take i statuses @ drop (i + 1) statuses) s else s, Some i))"

definition sm_Clear :: "int \<Rightarrow> string \<Rightarrow> string \<Rightarrow> status_manager \<Rightarrow> status_manager option" where
  "sm_Clear port uriExact uriPrefix s =
     (if uriExact \<noteq> [] then
        map_option fst (findOrRemoveStatusConfig port uriExact uriPrefix [] [] False True s)
      else Some (mput port [] s))"

definition fill_present :: "status_header_match \<Rightarrow> status_header_match" where
  "fill_present m = (if shPresent m = None then m\<lparr>shPresent := Some True\<rparr> else m)"

text \<open>The defaults that \<open>ApplyStatusConfig\<close> fills in: an empty match and URI match, status 200
  for 0, no limit for a count of 0, and the port of the request.\<close>

definition config_match :: "status_config \<Rightarrow> status_match" where
  "config_match sc =
     (case scMatch sc of
        Some m \<Rightarrow> m | None \<Rightarrow> \<lparr>smURIMatch = None, smHeaderMatches = [], smMethodMatch = []\<rparr>)"

definition config_uri :: "status_config \<Rightarrow> status_uri_match" where
  "config_uri sc =
     (case smURIMatch (config_match sc) of
        Some u \<Rightarrow> u | None \<Rightarrow> \<lparr>suPrefix = [], suExact = [], suRegex = [], suNot = False\<rparr>)"

definition prepare_config :: "int \<Rightarrow> status_config \<Rightarrow> status_config" where
  "prepare_config port sc =
     sc\<lparr>scStatuses := map (\<lambda>c. if c = 0 then 200 else c) (scStatuses sc),
        scTimes := (if scTimes sc = 0 then - 1 else scTimes sc),
        scMatch := Some ((config_match sc)\<lparr>smURIMatch := Some (config_uri sc),
          smHeaderMatches := map (map_option fill_present) (smHeaderMatches (config_match sc))\<rparr>),
        scPort := (if scPort sc \<le> 0 then port else scPort sc)\<rparr>"

text \<open>The errors are found in the order of the code; the loop over the header matches comes after
  them and dereferences every element.\<close>

definition config_error :: "(string \<Rightarrow> bool) \<Rightarrow> status_config \<Rightarrow> status_error option" where
  "config_error compiles sc =
     (if scStatuses sc = [] then Some NoStatus
      else if list_ex (\<lambda>c. c < 0) (scStatuses sc) then Some InvalidStatus
      else if scTimes sc < - 1 then Some InvalidStatusTimes
      else if suRegex (config_uri sc) \<noteq> [] \<and> \<not> compiles (suRegex (config_uri sc)) then Some BadRegex
      else None)"

definition ApplyStatusConfig ::
  "(string \<Rightarrow> bool) \<Rightarrow> int \<Rightarrow> status_config \<Rightarrow> status_manager \<Rightarrow>
   (status_error + (status_manager \<times> status_config)) option" where
  "ApplyStatusConfig compiles port sc s =
     (case config_error compiles sc of
        Some e \<Rightarrow> Some (Inl e)
      | None \<Rightarrow>
          (if list_ex (\<lambda>m. m = None) (smHeaderMatches (config_match sc)) then None
           else
             let sc' = prepare_config port sc
             in Some (Inr (mput (scPort sc') (mget_or [] s (scPort sc') @ [sc']) s, sc'))))"

definition SetStatusFor ::
  "int \<Rightarrow> string \<Rightarrow> string \<Rightarrow> string \<Rightarrow> string \<Rightarrow> string list \<Rightarrow> int list \<Rightarrow> int \<Rightarrow> bool \<Rightarrow>
   status_manager \<Rightarrow> status_manager option" where
  "SetStatusFor port uriExact uriPrefix header headerValue methods statusCodes ntimes present s0 =
     (let s = (if mget s0 port = None then mput port [] s0 else s0);
          uriExact = ToLower uriExact;
          uriPrefix = ToLower uriPrefix;
          header = ToLower header
      in case findOrRemoveStatusConfig port uriExact uriPrefix header headerValue present False s of
           None \<Rightarrow> None
         | Some (s, Some i) \<Rightarrow>
             (let statuses = mget_or [] s port in
              Some (mput port (statuses[i := sc_SetStatus statusCodes ntimes (statuses ! i)]) s))
         | Some (s, None) \<Rightarrow>
             Some (mput port (mget_or [] s port @
               [newStatusConfig uriExact uriPrefix header headerValue methods statusCodes ntimes present]) s))"

definition sm_SetStatus :: "int \<Rightarrow> int list \<Rightarrow> int \<Rightarrow> bool \<Rightarrow> status_manager \<Rightarrow> status_manager option" where
  "sm_SetStatus port statusCodes ntimes present s =
     SetStatusFor port [] [] [] [] [] statusCodes ntimes present s"

fun get_first ::
  "(int \<Rightarrow> int) \<Rightarrow> string \<Rightarrow> (string, string) gomap \<Rightarrow> status_config list \<Rightarrow>
   (status_config list \<times> int \<times> int) option" where
  "get_first rnd uri headers [] = Some ([], 0, 0)"
| "get_first rnd uri headers (sc # scs) =
     (case scMatch sc of
        None \<Rightarrow> None
      | Some sm \<Rightarrow>
          (case sm_match sm uri headers of
             None \<Rightarrow> None
           | Some True \<Rightarrow> map_option (\<lambda>(sc', r). (sc' # scs, r)) (sc_GetStatus rnd sc)
           | Some False \<Rightarrow> map_option (\<lambda>(scs', r). (sc # scs', r)) (get_first rnd uri headers scs)))"

definition GetStatusFor ::
  "(int \<Rightarrow> int) \<Rightarrow> int \<Rightarrow> string \<Rightarrow> header_map \<Rightarrow> status_manager \<Rightarrow>
   (status_manager \<times> int \<times> int) option" where
  "GetStatusFor rnd port uri headers s =
     (case mget s port of
        None \<Rightarrow> Some (s, 0, 0)
      | Some statuses \<Rightarrow>
          map_option (\<lambda>(scs, r). (mput port scs s, r))
            (get_first rnd (ToLower uri) (ToLowerHeadersValues headers) statuses))"

definition sm_GetStatus :: "(int \<Rightarrow> int) \<Rightarrow> int \<Rightarrow> status_manager \<Rightarrow> (status_manager \<times> int \<times> int) option" where
  "sm_GetStatus rnd port s = GetStatusFor rnd port [] [] s"

section \<open>No operation dereferences nil\<close>

definition config_ok :: "status_config \<Rightarrow> bool" where
  "config_ok sc =
     (case scMatch sc of
        None \<Rightarrow> False
      | Some m \<Rightarrow> smURIMatch m \<noteq> None \<and> list_all (\<lambda>h. Option.bind h shPresent \<noteq> None) (smHeaderMatches m))"

definition mgr_ok :: "status_manager \<Rightarrow> bool" where
  "mgr_ok s \<longleftrightarrow> (\<forall>p. list_all config_ok (mget_or [] s p))"

lemma mgr_ok_put: "mgr_ok s \<Longrightarrow> list_all config_ok scs \<Longrightarrow> mgr_ok (mput p scs s)"
  by (simp add: mgr_ok_def)

lemma mgr_ok_get: "mgr_ok s \<Longrightarrow> list_all config_ok (mget_or [] s p)"
  by (simp add: mgr_ok_def)

lemma all_opt_total:
  "list_all (\<lambda>x. f x \<noteq> None) xs \<Longrightarrow> all_opt f xs = Some (list_all (\<lambda>x. f x = Some True) xs)"
  by (induction xs) (auto split: option.splits bool.splits)

lemma first_index_total: "list_all (\<lambda>x. f x \<noteq> None) xs \<Longrightarrow> first_index f xs \<noteq> None"
  by (induction xs) (auto split: option.splits bool.splits)

lemma first_index_bound: "first_index f xs = Some (Some i) \<Longrightarrow> i < length xs"
  by (induction xs arbitrary: i) (auto split: option.splits bool.splits)

lemma shm_matchOne_total: "Option.bind m shPresent \<noteq> None \<Longrightarrow> shm_matchOne m h hv pr \<noteq> None"
  by (cases m) (auto simp: shm_matchOne_def split: option.splits)

lemma shm_match_total: "Option.bind m shPresent \<noteq> None \<Longrightarrow> shm_match m headers \<noteq> None"
  by (cases m) (auto simp: shm_match_def split: option.splits)

lemma is_config_for_total: "config_ok sc \<Longrightarrow> is_config_for ue up h hv pr sc \<noteq> None"
  using shm_matchOne_total [of _ h hv pr]
  by (auto simp: config_ok_def is_config_for_def all_opt_total list_all_iff split: option.splits)

text \<open>Whether a configuration matches a request, as a total predicate.\<close>

definition sc_matches :: "string \<Rightarrow> (string, string) gomap \<Rightarrow> status_config \<Rightarrow> bool" where
  "sc_matches uri headers sc \<longleftrightarrow>
     (case scMatch sc of None \<Rightarrow> False | Some sm \<Rightarrow> sm_match sm uri headers = Some True)"

lemma config_ok_match:
  "config_ok sc \<Longrightarrow> \<exists>sm. scMatch sc = Some sm \<and> sm_match sm uri headers = Some (sc_matches uri headers sc)"
  using shm_match_total [of _ headers]
  by (auto simp: config_ok_def sc_matches_def sm_match_def all_opt_total list_all_iff split: option.splits)

text \<open>The configuration after a request took its status, and the status it gave.\<close>

definition sc_next :: "status_config \<Rightarrow> status_config" where
  "sc_next s = (if 1 \<le> scTimes s then s\<lparr>scTimes := scTimes s - 1\<rparr> else s)"

definition sc_value :: "(int \<Rightarrow> int) \<Rightarrow> status_config \<Rightarrow> int" where
  "sc_value rnd s =
     (if 1 \<le> scTimes s \<or> scTimes s = - 1 then
        (case scStatuses s of
           [] \<Rightarrow> 0 | [c] \<Rightarrow> c | c # d # cs \<Rightarrow> scStatuses s ! nat (rnd (int (length (scStatuses s)))))
      else 0)"

definition sc_remaining :: "status_config \<Rightarrow> int" where
  "sc_remaining s =
     (if (1 \<le> scTimes s \<or> scTimes s = - 1) \<and> scStatuses s \<noteq> [] then scTimes (sc_next s) else 0)"

lemma sc_GetStatus_eq: "sc_GetStatus rnd s = Some (sc_next s, sc_value rnd s, sc_remaining s)"
  by (auto simp: sc_GetStatus_def sc_next_def sc_value_def sc_remaining_def RandomFrom_def Let_def
      split: list.splits)

lemma sc_next_match [simp]: "sc_matches uri hs (sc_next sc) = sc_matches uri hs sc"
  by (simp add: sc_next_def sc_matches_def)

lemma sc_next_ok [simp]: "config_ok (sc_next sc) = config_ok sc"
  by (simp add: sc_next_def config_ok_def)

lemma sc_SetStatus_ok [simp]: "config_ok (sc_SetStatus cs n sc) = config_ok sc"
  by (simp add: sc_SetStatus_def config_ok_def split: list.splits)

text \<open>The update of the first configuration that matches.\<close>

fun map_first :: "('a \<Rightarrow> bool) \<Rightarrow> ('a \<Rightarrow> 'a) \<Rightarrow> 'a list \<Rightarrow> 'a list" where
  "map_first P g [] = []"
| "map_first P g (x # xs) = (if P x then g x # xs else x # map_first P g xs)"

lemma find_map_first:
  "(\<And>x. P (g x) = P x) \<Longrightarrow> find P (map_first P g xs) = map_option g (find P xs)"
  by (induction xs) auto

lemma map_first_all: "list_all Q xs \<Longrightarrow> (\<And>x. Q x \<Longrightarrow> Q (g x)) \<Longrightarrow> list_all Q (map_first P g xs)"
  by (induction xs) auto

lemma get_first_eq:
  assumes "list_all config_ok scs"
  shows "get_first rnd uri hs scs =
     Some (map_first (sc_matches uri hs) sc_next scs,
           (case find (sc_matches uri hs) scs of
              None \<Rightarrow> (0, 0) | Some sc \<Rightarrow> (sc_value rnd sc, sc_remaining sc)))"
  using assms
proof (induction scs)
  case (Cons sc scs)
  then obtain sm where "scMatch sc = Some sm" "sm_match sm uri hs = Some (sc_matches uri hs sc)"
    using config_ok_match by fastforce
  with Cons show ?case by (cases "sc_matches uri hs sc") (auto simp: sc_GetStatus_eq)
qed simp

text \<open>The configuration a request takes its status from.\<close>

definition serving :: "int \<Rightarrow> string \<Rightarrow> header_map \<Rightarrow> status_manager \<Rightarrow> status_config option" where
  "serving port uri headers s =
     find (sc_matches (ToLower uri) (ToLowerHeadersValues headers)) (mget_or [] s port)"

lemma GetStatusFor_eq:
  assumes "mgr_ok s"
  shows "\<exists>s'. GetStatusFor rnd port uri hs s =
       Some (s', case serving port uri hs s of
                   None \<Rightarrow> (0, 0) | Some sc \<Rightarrow> (sc_value rnd sc, sc_remaining sc)) \<and>
     mgr_ok s' \<and> serving port uri hs s' = map_option sc_next (serving port uri hs s) \<and>
     (\<forall>q. mget_or [] s' q =
        (if q = port
         then map_first (sc_matches (ToLower uri) (ToLowerHeadersValues hs)) sc_next (mget_or [] s q)
         else mget_or [] s q))"
proof (cases "mget s port")
  case None
  then show ?thesis
    using assms by (auto simp: GetStatusFor_def serving_def mget_or_def)
next
  case (Some scs)
  then have "list_all config_ok scs" using mgr_ok_get [OF assms, of port] by (simp add: mget_or_def)
  with Some assms show ?thesis
    by (auto simp: GetStatusFor_def get_first_eq serving_def mget_or_def find_map_first
        intro!: mgr_ok_put map_first_all)
qed

lemma SetStatusFor_ok:
  assumes "mgr_ok s"
  shows "\<exists>s'. SetStatusFor port ue up h hv ms cs n pr s = Some s' \<and> mgr_ok s'"
proof -
  let ?s = "if mget s port = None then mput port [] s else s"
  have ok: "mgr_ok ?s" using assms mgr_ok_put [OF assms] by simp
  let ?f = "is_config_for (ToLower ue) (ToLower up) (ToLower h) hv pr"
  have "list_all (\<lambda>x. ?f x \<noteq> None) (mget_or [] ?s port)"
    using mgr_ok_get [OF ok, of port] is_config_for_total by (auto simp: list_all_iff)
  then obtain i where i: "first_index ?f (mget_or [] ?s port) = Some i"
    using first_index_total by blast
  have new: "config_ok (newStatusConfig ue' up' h' hv ms cs n pr)" for ue' up' h'
    by (simp add: newStatusConfig_def config_ok_def Let_def)
  show ?thesis
  proof (cases i)
    case None
    then show ?thesis
      using i ok mgr_ok_get [OF ok, of port] new
      by (simp only: SetStatusFor_def findOrRemoveStatusConfig_def Let_def option.case prod.case if_False)
        (intro exI conjI, rule refl, rule mgr_ok_put, auto)
  next
    case (Some j)
    have "list_all config_ok ((mget_or [] ?s port)[j := sc_SetStatus cs n (mget_or [] ?s port ! j)])"
      using mgr_ok_get [OF ok, of port] first_index_bound i Some
      by (fastforce simp: list_all_length nth_list_update)
    then show ?thesis
      using i ok Some
      by (simp only: SetStatusFor_def findOrRemoveStatusConfig_def Let_def option.case prod.case if_False)
        (intro exI conjI, rule refl, rule mgr_ok_put, auto)
  qed
qed

lemma sm_Clear_ok:
  assumes "mgr_ok s"
  shows "\<exists>s'. sm_Clear port ue up s = Some s' \<and> mgr_ok s'"
proof (cases "ue = []")
  case True
  with assms show ?thesis by (auto simp: sm_Clear_def intro: mgr_ok_put)
next
  case False
  have "list_all (\<lambda>x. is_config_for ue up [] [] False x \<noteq> None) (mget_or [] s port)"
    using mgr_ok_get [OF assms, of port] is_config_for_total by (auto simp: list_all_iff)
  then obtain i where "first_index (is_config_for ue up [] [] False) (mget_or [] s port) = Some i"
    using first_index_total by blast
  moreover have "list_all config_ok (take j (mget_or [] s port) @ drop (Suc j) (mget_or [] s port))" for j
    using mgr_ok_get [OF assms, of port] by (auto simp: list_all_iff dest: in_set_takeD in_set_dropD)
  ultimately show ?thesis
    using assms False
    by (cases i) (auto simp: sm_Clear_def findOrRemoveStatusConfig_def Let_def intro!: mgr_ok_put)
qed

lemma fill_present_ok: "h \<noteq> None \<Longrightarrow> Option.bind (map_option fill_present h) shPresent \<noteq> None"
  by (cases h) (auto simp: fill_present_def)

lemma fill_all_ok:
  "\<not> list_ex (\<lambda>m. m = None) ms \<Longrightarrow>
   list_all (\<lambda>h. Option.bind h shPresent \<noteq> None) (map (map_option fill_present) ms)"
proof (induction ms)
  case (Cons m ms)
  then show ?case using fill_present_ok [of m] by simp
qed simp

lemma prepare_config_ok:
  "\<not> list_ex (\<lambda>m. m = None) (smHeaderMatches (config_match sc)) \<Longrightarrow> config_ok (prepare_config port sc)"
  using fill_all_ok [of "smHeaderMatches (config_match sc)"] by (simp add: prepare_config_def config_ok_def)

lemma ApplyStatusConfig_ok:
  assumes "mgr_ok s" and "ApplyStatusConfig cmp port sc s = Some (Inr (s', sc'))"
  shows "mgr_ok s'"
  using assms(2) mgr_ok_get [OF assms(1)] prepare_config_ok
  by (auto simp: ApplyStatusConfig_def Let_def split: if_splits option.splits intro!: mgr_ok_put [OF assms(1)])

section \<open>Reachable managers\<close>

inductive status_reachable :: "status_manager \<Rightarrow> bool" where
  reach_new: "status_reachable NewStatusManager"
| reach_set: "status_reachable s \<Longrightarrow> SetStatusFor port ue up h hv ms cs n pr s = Some s' \<Longrightarrow>
     status_reachable s'"
| reach_apply: "status_reachable s \<Longrightarrow> ApplyStatusConfig cmp port sc s = Some (Inr (s', sc')) \<Longrightarrow>
     status_reachable s'"
| reach_clear: "status_reachable s \<Longrightarrow> sm_Clear port ue up s = Some s' \<Longrightarrow> status_reachable s'"
| reach_get: "status_reachable s \<Longrightarrow> GetStatusFor rnd port uri hs s = Some (s', r) \<Longrightarrow>
     status_reachable s'"

lemma reachable_ok: "status_reachable s \<Longrightarrow> mgr_ok s"
proof (induction rule: status_reachable.induct)
  case reach_new
  then show ?case by (simp add: mgr_ok_def NewStatusManager_def)
next
  case (reach_set s port ue up h hv ms cs n pr s')
  then show ?case using SetStatusFor_ok by (metis option.inject)
next
  case (reach_apply s cmp port sc s' sc')
  then show ?case using ApplyStatusConfig_ok by blast
next
  case (reach_clear s port ue up s')
  then show ?case using sm_Clear_ok by (metis option.inject)
next
  case (reach_get s rnd port uri hs s' r)
  then show ?case using GetStatusFor_eq [of s rnd port uri hs] by auto
qed

section \<open>A forced status counts down\<close>

definition status_ready :: "(int \<Rightarrow> int) \<Rightarrow> int \<Rightarrow> string \<Rightarrow> header_map \<Rightarrow> status_manager \<Rightarrow> bool" where
  "status_ready rnd port uri headers s \<longleftrightarrow>
     valid_rnd rnd \<and> mgr_ok s \<and>
     (case serving port uri headers s of
        None \<Rightarrow> False
      | Some sc \<Rightarrow> scStatuses sc \<noteq> [] \<and> list_all (\<lambda>c. 0 < c) (scStatuses sc) \<and> - 1 \<le> scTimes sc)"

definition status_left :: "int \<Rightarrow> string \<Rightarrow> header_map \<Rightarrow> status_manager \<Rightarrow> nat option" where
  "status_left port uri headers s =
     (case serving port uri headers s of
        None \<Rightarrow> Some 0
      | Some sc \<Rightarrow> (if scTimes sc = - 1 then None else Some (nat (scTimes sc))))"

definition status_tick ::
  "(int \<Rightarrow> int) \<Rightarrow> int \<Rightarrow> string \<Rightarrow> header_map \<Rightarrow> status_manager \<Rightarrow> status_manager" where
  "status_tick rnd port uri headers s =
     (case GetStatusFor rnd port uri headers s of Some (s', r) \<Rightarrow> s' | None \<Rightarrow> s)"

definition status_forced :: "(int \<Rightarrow> int) \<Rightarrow> int \<Rightarrow> string \<Rightarrow> header_map \<Rightarrow> status_manager \<Rightarrow> bool" where
  "status_forced rnd port uri headers s \<longleftrightarrow>
     (case GetStatusFor rnd port uri headers s of Some (s', c, n) \<Rightarrow> 0 < c | None \<Rightarrow> False)"

lemma sc_value_in:
  assumes "valid_rnd rnd" "scStatuses sc \<noteq> []" "1 \<le> scTimes sc \<or> scTimes sc = - 1"
  shows "sc_value rnd sc \<in> set (scStatuses sc)"
proof (cases "scStatuses sc")
  case (Cons c cs)
  have "0 < int (length (scStatuses sc))" using assms(2) by simp
  then have "0 \<le> rnd (int (length (scStatuses sc))) \<and>
      rnd (int (length (scStatuses sc))) < int (length (scStatuses sc))"
    using assms(1) by (simp only: valid_rnd_def)
  then have "scStatuses sc ! nat (rnd (int (length (scStatuses sc)))) \<in> set (scStatuses sc)"
    by (intro nth_mem) (simp add: nat_less_iff)
  with assms(3) Cons show ?thesis
    by (cases cs) (auto simp: sc_value_def)
qed (use assms in simp)

lemma sc_value_pos_iff:
  assumes "valid_rnd rnd" "scStatuses sc \<noteq> []" "list_all (\<lambda>c. 0 < c) (scStatuses sc)" "- 1 \<le> scTimes sc"
  shows "0 < sc_value rnd sc \<longleftrightarrow> scTimes sc \<noteq> 0"
proof (cases "scTimes sc = 0")
  case False
  with assms(4) have "1 \<le> scTimes sc \<or> scTimes sc = - 1" by linarith
  with sc_value_in [OF assms(1,2)] assms(3) False show ?thesis by (auto simp: list_all_iff)
qed (simp add: sc_value_def)

lemma status_tick_serving:
  "mgr_ok s \<Longrightarrow> mgr_ok (status_tick rnd port uri hs s) \<and>
   serving port uri hs (status_tick rnd port uri hs s) = map_option sc_next (serving port uri hs s)"
  using GetStatusFor_eq [of s rnd port uri hs] by (auto simp: status_tick_def)

interpretation status_cd: countdown "status_left port uri hs" "status_forced rnd port uri hs"
  "status_tick rnd port uri hs" "status_ready rnd port uri hs"
  for rnd port uri hs
proof unfold_locales
  fix s assume r: "status_ready rnd port uri hs s"
  then obtain sc where ok: "mgr_ok s" and rnd: "valid_rnd rnd" and sc: "serving port uri hs s = Some sc"
    "scStatuses sc \<noteq> []" "list_all (\<lambda>c. 0 < c) (scStatuses sc)" "- 1 \<le> scTimes sc"
    by (auto simp: status_ready_def split: option.splits)
  show "status_forced rnd port uri hs s \<longleftrightarrow> status_left port uri hs s \<noteq> Some 0"
    using GetStatusFor_eq [OF ok, of rnd port uri hs] sc sc_value_pos_iff [OF rnd sc(2-4)]
    by (auto simp: status_forced_def status_left_def)
  show "status_left port uri hs (status_tick rnd port uri hs s) =
      map_option (\<lambda>n. n - 1) (status_left port uri hs s)"
    using status_tick_serving [OF ok] sc by (auto simp: status_left_def sc_next_def nat_diff_distrib)
  show "status_ready rnd port uri hs (status_tick rnd port uri hs s)"
    using status_tick_serving [OF ok] sc rnd by (auto simp: status_ready_def sc_next_def)
qed

section \<open>Ports are independent\<close>

datatype status_req =
    SetReq string string string string "string list" "int list" int bool
  | ClearReq string string
  | GetReq string header_map
  | ApplyReq "string \<Rightarrow> bool" status_config

text \<open>The port whose configurations a request on \<open>port\<close> is about: a configuration sent in a body may
  name another one.\<close>

definition status_port :: "int \<Rightarrow> status_req \<Rightarrow> int" where
  "status_port port e =
     (case e of ApplyReq compiles sc \<Rightarrow> (if scPort sc \<le> 0 then port else scPort sc) | _ \<Rightarrow> port)"

definition applied :: "status_manager \<Rightarrow> (status_error + (status_manager \<times> status_config)) option \<Rightarrow> status_manager option" where
  "applied s res = map_option (\<lambda>res. case res of Inl e \<Rightarrow> s | Inr (s', sc') \<Rightarrow> s') res"

definition mgr_step :: "(int \<Rightarrow> int) \<Rightarrow> int \<Rightarrow> status_req \<Rightarrow> status_manager \<Rightarrow> status_manager" where
  "mgr_step rnd port e s =
     (case (case e of
              SetReq ue up h hv ms cs n pr \<Rightarrow> SetStatusFor port ue up h hv ms cs n pr s
            | ClearReq ue up \<Rightarrow> sm_Clear port ue up s
            | GetReq uri hs \<Rightarrow> map_option fst (GetStatusFor rnd port uri hs s)
            | ApplyReq compiles sc \<Rightarrow> applied s (ApplyStatusConfig compiles port sc s)) of
        Some s' \<Rightarrow> s' | None \<Rightarrow> s)"

text \<open>The effect of a request on the configurations of its port.\<close>

definition set_view ::
  "string \<Rightarrow> string \<Rightarrow> string \<Rightarrow> string \<Rightarrow> string list \<Rightarrow> int list \<Rightarrow> int \<Rightarrow> bool \<Rightarrow>
   status_config list \<Rightarrow> status_config list option" where
  "set_view ue up h hv ms cs n pr scs =
     map_option (\<lambda>i. case i of
          Some i \<Rightarrow> scs[i := sc_SetStatus cs n (scs ! i)]
        | None \<Rightarrow> scs @ [newStatusConfig (ToLower ue) (ToLower up) (ToLower h) hv ms cs n pr])
       (first_index (is_config_for (ToLower ue) (ToLower up) (ToLower h) hv pr) scs)"

definition clear_view :: "string \<Rightarrow> string \<Rightarrow> status_config list \<Rightarrow> status_config list option" where
  "clear_view ue up scs =
     (if ue \<noteq> [] then
        map_option (\<lambda>i. case i of Some i \<Rightarrow> take i scs @ drop (i + 1) scs | None \<Rightarrow> scs)
          (first_index (is_config_for ue up [] [] False) scs)
      else Some [])"

definition apply_view :: "(string \<Rightarrow> bool) \<Rightarrow> int \<Rightarrow> status_config \<Rightarrow> status_config list \<Rightarrow> status_config list option" where
  "apply_view compiles port sc scs =
     (if config_error compiles sc \<noteq> None then Some scs
      else if list_ex (\<lambda>m. m = None) (smHeaderMatches (config_match sc)) then None
      else Some (scs @ [(prepare_config port sc)\<lparr>scPort := port\<rparr>]))"

definition mgr_upd :: "(int \<Rightarrow> int) \<Rightarrow> int \<Rightarrow> status_req \<Rightarrow> status_config list \<Rightarrow> status_config list" where
  "mgr_upd rnd port e scs =
     (case (case e of
              SetReq ue up h hv ms cs n pr \<Rightarrow> set_view ue up h hv ms cs n pr scs
            | ClearReq ue up \<Rightarrow> clear_view ue up scs
            | GetReq uri hs \<Rightarrow>
                map_option fst (get_first rnd (ToLower uri) (ToLowerHeadersValues hs) scs)
            | ApplyReq compiles sc \<Rightarrow> apply_view compiles port sc scs) of
        Some scs' \<Rightarrow> scs' | None \<Rightarrow> scs)"

lemma SetStatusFor_view:
  "SetStatusFor port ue up h hv ms cs n pr s =
   map_option (\<lambda>scs. mput port scs (if mget s port = None then mput port [] s else s))
     (set_view ue up h hv ms cs n pr (mget_or [] s port))"
  by (cases "mget s port"; cases "first_index (is_config_for (ToLower ue) (ToLower up) (ToLower h) hv pr)
        (mget_or [] s port)")
    (auto simp: SetStatusFor_def findOrRemoveStatusConfig_def set_view_def Let_def mget_or_def
      split: option.splits)

lemma sm_Clear_view:
  "\<exists>f. (\<forall>scs q. mget_or [] (f scs) q = (if q = port then scs else mget_or [] s q)) \<and>
     sm_Clear port ue up s = map_option f (clear_view ue up (mget_or [] s port))"
proof -
  let ?f = "\<lambda>scs. if scs = mget_or [] s port \<and> ue \<noteq> [] \<and>
      first_index (is_config_for ue up [] [] False) (mget_or [] s port) = Some None
    then s else mput port scs s"
  have "sm_Clear port ue up s = map_option ?f (clear_view ue up (mget_or [] s port))"
    by (auto simp: sm_Clear_def findOrRemoveStatusConfig_def clear_view_def Let_def split: option.splits)
  then show ?thesis by (intro exI [of _ ?f]) auto
qed

lemma GetStatusFor_view:
  "mget_or [] (case map_option fst (GetStatusFor rnd port uri hs s) of Some s' \<Rightarrow> s' | None \<Rightarrow> s) q =
   (if q = port
    then (case map_option fst (get_first rnd (ToLower uri) (ToLowerHeadersValues hs) (mget_or [] s port)) of
            Some scs \<Rightarrow> scs | None \<Rightarrow> mget_or [] s port)
    else mget_or [] s q)"
  by (auto simp: GetStatusFor_def mget_or_def split: option.splits)

text \<open>A request at the port it is about: the port in the body of a configuration is the request's.\<close>

definition readdress :: "status_req \<Rightarrow> status_req" where
  "readdress e = (case e of ApplyReq compiles sc \<Rightarrow> ApplyReq compiles (sc\<lparr>scPort := 0\<rparr>) | _ \<Rightarrow> e)"

lemma config_match_port [simp]:
  "config_match (sc\<lparr>scPort := p\<rparr>) = config_match sc" "config_error compiles (sc\<lparr>scPort := p\<rparr>) = config_error compiles sc"
  "config_uri (sc\<lparr>scPort := p\<rparr>) = config_uri sc"
  by (simp_all add: config_match_def config_error_def config_uri_def)

lemma scPort_prepare: "scPort (prepare_config port sc) = (if scPort sc \<le> 0 then port else scPort sc)"
  by (simp add: prepare_config_def)

lemma prepare_readdress:
  "prepare_config port sc = prepare_config (if scPort sc \<le> 0 then port else scPort sc) (sc\<lparr>scPort := 0\<rparr>)"
  "(prepare_config q sc)\<lparr>scPort := q\<rparr> = prepare_config q (sc\<lparr>scPort := 0\<rparr>)"
  by (simp_all add: prepare_config_def)

lemma ApplyStatusConfig_readdress:
  "ApplyStatusConfig compiles port sc s =
   ApplyStatusConfig compiles (if scPort sc \<le> 0 then port else scPort sc) (sc\<lparr>scPort := 0\<rparr>) s"
  by (simp only: ApplyStatusConfig_def prepare_readdress(1) [of port sc] config_match_port)

lemma mgr_step_readdress: "mgr_step rnd port e = mgr_step rnd (status_port port e) (readdress e)"
  using ApplyStatusConfig_readdress [where port = port]
  by (intro ext, cases e) (simp_all add: mgr_step_def status_port_def readdress_def)

lemma mgr_upd_readdress: "mgr_upd rnd q (readdress e) = mgr_upd rnd q e"
  by (intro ext, cases e) (simp_all add: mgr_upd_def readdress_def apply_view_def prepare_readdress(2))

lemma ApplyStatusConfig_view:
  "mget_or [] (case applied s (ApplyStatusConfig compiles p (sc\<lparr>scPort := 0\<rparr>) s) of Some s' \<Rightarrow> s' | None \<Rightarrow> s) q =
   (if q = p then (case apply_view compiles p sc (mget_or [] s p) of Some scs \<Rightarrow> scs | None \<Rightarrow> mget_or [] s p)
    else mget_or [] s q)"
  by (auto simp: ApplyStatusConfig_def applied_def apply_view_def Let_def scPort_prepare
      prepare_readdress(2) [symmetric] split: option.splits)

interpretation status_ports: port_local "mget_or []" "\<lambda>p e. mgr_step rnd p (readdress e)" "mgr_upd rnd"
  for rnd
proof unfold_locales
  fix p e s q
  show "mget_or [] (mgr_step rnd p (readdress e) s) q =
    (if q = p then mgr_upd rnd p e (mget_or [] s p) else mget_or [] s q)"
  proof (cases e)
    case (SetReq ue up h hv ms cs n pr)
    then show ?thesis
      by (auto simp: mgr_step_def mgr_upd_def readdress_def SetStatusFor_view split: option.splits)
  next
    case (ClearReq ue up)
    then show ?thesis
      using sm_Clear_view [of p s ue up]
      by (auto simp: mgr_step_def mgr_upd_def readdress_def split: option.splits)
  next
    case (GetReq uri hs)
    then show ?thesis
      using GetStatusFor_view [where rnd = rnd and port = p and s = s and q = q]
      by (simp add: mgr_step_def mgr_upd_def readdress_def)
  next
    case (ApplyReq compiles sc)
    then show ?thesis
      using ApplyStatusConfig_view [of s compiles p sc q] by (simp add: mgr_step_def mgr_upd_def readdress_def)
  qed
qed

section \<open>Properties\<close>

text \<open>C34: no operation of the status manager dereferences a nil pointer, whatever sequence of
  operations came before, with one exception. Setting, clearing and getting a status always return,
  since every configuration in the manager has a URI match and a presence flag on each header match;
  applying a configuration from a request body panics exactly if it passes the checks of its
  statuses, count and regular expression and its list of header matches has a null element.\<close>

theorem status_manager_panics_iff:
  assumes "status_reachable s"
  shows "SetStatusFor port ue up h hv ms cs n pr s \<noteq> None \<and> sm_Clear port ue up s \<noteq> None \<and>
    GetStatusFor rnd port uri hs s \<noteq> None \<and>
    (ApplyStatusConfig compiles port sc s = None \<longleftrightarrow>
       scStatuses sc \<noteq> [] \<and> (\<forall>c. c \<in> set (scStatuses sc) \<longrightarrow> 0 \<le> c) \<and> - 1 \<le> scTimes sc \<and>
       (suRegex (config_uri sc) = [] \<or> compiles (suRegex (config_uri sc))) \<and>
       (\<exists>sm. scMatch sc = Some sm \<and> None \<in> set (smHeaderMatches sm)))"
proof -
  have "ApplyStatusConfig compiles port sc s = None \<longleftrightarrow> config_error compiles sc = None \<and>
      None \<in> set (smHeaderMatches (config_match sc))"
    by (auto simp: ApplyStatusConfig_def Let_def list_ex_iff split: option.splits)
  moreover have "config_error compiles sc = None \<longleftrightarrow> scStatuses sc \<noteq> [] \<and>
      (\<forall>c. c \<in> set (scStatuses sc) \<longrightarrow> 0 \<le> c) \<and> - 1 \<le> scTimes sc \<and>
      (suRegex (config_uri sc) = [] \<or> compiles (suRegex (config_uri sc)))"
    by (auto simp: config_error_def list_ex_iff not_less)
  moreover have "None \<in> set (smHeaderMatches (config_match sc)) \<longleftrightarrow>
      (\<exists>sm. scMatch sc = Some sm \<and> None \<in> set (smHeaderMatches sm))"
    by (auto simp: config_match_def split: option.splits)
  moreover have "SetStatusFor port ue up h hv ms cs n pr s \<noteq> None" "sm_Clear port ue up s \<noteq> None"
    "GetStatusFor rnd port uri hs s \<noteq> None"
    using SetStatusFor_ok [OF reachable_ok [OF assms], of port ue up h hv ms cs n pr]
      sm_Clear_ok [OF reachable_ok [OF assms], of port ue up]
      GetStatusFor_eq [OF reachable_ok [OF assms], of rnd port uri hs] by auto
  ultimately show ?thesis by blast
qed

definition null_header_config :: status_config where
  "null_header_config =
     \<lparr>scPort = 0, scStatuses = [503], scTimes = 2, scLastStatusIndex = 0, scLastStatus = 0, scStatusCount = 0,
      scMatch = Some \<lparr>smURIMatch = None, smHeaderMatches = [None], smMethodMatch = []\<rparr>\<rparr>"

theorem status_manager_panics_iff_witness:
  "SetStatusFor 80 ''/a'' [] [] [] [] [503] 2 True NewStatusManager \<noteq> None \<and>
   sm_Clear 80 ''/a'' [] NewStatusManager \<noteq> None \<and>
   GetStatusFor (\<lambda>n. 0) 80 ''/a'' [] NewStatusManager \<noteq> None \<and>
   ApplyStatusConfig (\<lambda>x. False) 80 null_header_config NewStatusManager = None"
  using status_manager_panics_iff [OF reach_new, of 80 "''/a''" "[]" "[]" "[]" "[]" "[503]" 2 True
      "\<lambda>n. 0" "''/a''" "[]" "\<lambda>x. False" null_header_config]
  by (simp add: null_header_config_def config_uri_def config_match_def)

text \<open>Of any \<open>m\<close> calls of \<open>GetStatusFor\<close> for one request, the first \<open>n\<close> give a status when the
  configuration that serves it has positive codes and a count of \<open>n\<close>.\<close>

lemma GetStatusFor_count:
  assumes "status_ready rnd port uri hs s" and "serving port uri hs s = Some sc" and "scTimes sc = int n"
  shows "length (filter (\<lambda>k. status_forced rnd port uri hs ((status_tick rnd port uri hs ^^ k) s)) [0..<m])
     = min n m"
  using assms by (intro status_cd.served) (auto simp: status_left_def)

text \<open>C35: the configurations of a port after any interleaving of requests that set, clear, apply or use
  up configurations are those that the requests about this port lead to, in their order. A request is
  about the port it came in on, unless it applies a configuration whose body names another port;
  requests about other ports neither change the configurations nor use up their counts.\<close>

theorem status_ports_independent:
  "mget_or [] (fold (\<lambda>(p, e). mgr_step rnd p e) es s) q =
   fold (mgr_upd rnd q) (map snd (filter (\<lambda>(p, e). status_port p e = q) es)) (mget_or [] s q)"
proof -
  let ?es = "map (\<lambda>(p, e). (status_port p e, e)) es"
  have "fold (\<lambda>(p, e). mgr_step rnd p e) es s = fold (\<lambda>(p, e). mgr_step rnd p (readdress e)) ?es s"
    by (induction es arbitrary: s) (simp_all add: split_def mgr_step_readdress [symmetric])
  moreover have "map snd (filter (\<lambda>(p, e). status_port p e = q) es) = map snd (filter (\<lambda>(p, e). p = q) ?es)"
    by (induction es) auto
  ultimately show ?thesis by (simp only: status_ports.interleaving)
qed

text \<open>A request on port 80 with a configuration for port 81, and a request of each port after it: port 80
  keeps its own, empty list, and on port 81 a count is used up.\<close>

definition body_port_config :: status_config where
  "body_port_config =
     \<lparr>scPort = 81, scStatuses = [503], scTimes = 2, scLastStatusIndex = 0, scLastStatus = 0, scStatusCount = 0,
      scMatch = None\<rparr>"

theorem status_ports_independent_witness:
  "mget_or [] (fold (\<lambda>(p, e). mgr_step (\<lambda>n. 0) p e)
     [(80, ApplyReq (\<lambda>x. True) body_port_config), (80, GetReq ''/a'' []), (81, GetReq ''/a'' [])]
     NewStatusManager) 81 =
   [sc_next (prepare_config 80 body_port_config)] \<and>
   mget_or [] (fold (\<lambda>(p, e). mgr_step (\<lambda>n. 0) p e)
     [(80, ApplyReq (\<lambda>x. True) body_port_config), (80, GetReq ''/a'' []), (81, GetReq ''/a'' [])]
     NewStatusManager) 80 = []"
proof -
  have "fold (mgr_upd (\<lambda>n. 0) 81) [ApplyReq (\<lambda>x. True) body_port_config, GetReq ''/a'' []] [] =
    [sc_next (prepare_config 80 body_port_config)]" by code_simp
  moreover have "fold (mgr_upd (\<lambda>n. 0) 80) [GetReq ''/a'' []] [] = []" by code_simp
  ultimately show ?thesis
    by (simp only: status_ports_independent)
      (simp add: status_port_def body_port_config_def NewStatusManager_def mget_or_def)
qed

text \<open>On a port with no configuration for a URI and none that matches a request for it, setting a
  status for the URI with a count of \<open>n\<close> makes the next such request get the status with
  \<open>n - 1\<close> remaining.\<close>

theorem set_then_get_status:
  assumes "mgr_ok s" and "0 < c" and "1 \<le> n" and "uri \<noteq> []"
    and "serving port uri hs s = None"
    and "first_index (is_config_for (ToLower uri) [] [] [] True) (mget_or [] s port) = Some None"
  shows "\<exists>s1 s2. SetStatusFor port uri [] [] [] ms [c] n True s = Some s1 \<and>
     GetStatusFor rnd port uri hs s1 = Some (s2, c, n - 1)"
proof -
  let ?new = "newStatusConfig (ToLower uri) [] [] [] ms [c] n True"
  obtain s1 where s1: "SetStatusFor port uri [] [] [] ms [c] n True s = Some s1"
    and scs: "mget_or [] s1 port = mget_or [] s port @ [?new]"
    using assms(6) by (simp add: SetStatusFor_view set_view_def)
  have "sc_matches (ToLower uri) h ?new" for h
    by (simp add: sc_matches_def newStatusConfig_def sm_match_def TrimSpace_def Let_def)
  with assms(5) scs have "serving port uri hs s1 = Some ?new"
    by (simp add: serving_def find_app)
  moreover have "mgr_ok s1" using SetStatusFor_ok [OF assms(1)] s1 by (metis option.inject)
  moreover have "sc_value rnd ?new = c" "sc_remaining ?new = n - 1"
    using assms(3) by (simp_all add: sc_value_def sc_remaining_def sc_next_def newStatusConfig_def Let_def)
  ultimately show ?thesis
    using s1 GetStatusFor_eq [of s1 rnd port uri hs] by auto
qed

theorem set_then_get_status_witness:
  "\<exists>s1 s2. SetStatusFor 80 ''/a'' [] [] [] [] [503] 3 True NewStatusManager = Some s1 \<and>
     GetStatusFor (\<lambda>n. 0) 80 ''/a'' [] s1 = Some (s2, 503, 3 - 1)"
  by (rule set_then_get_status) (simp_all add: mgr_ok_def NewStatusManager_def serving_def)

end
