(* ===== verification/Status.thy ===== *)
theory Status
  imports Status_Manager
begin

text \<open>
  Response statuses over HTTP: \<open>pkg/server/response/status/status.go\<close>. The state is the status
  manager together with the per-port counters and the flip-flop table; the handlers are those of
  \<open>setRoutes\<close>. A handler that panics in Go is \<open>None\<close>. The codes a request asks for, a flip-flop
  table entry and the reply are followed on every branch; metrics and log lines are not modelled.
  \<open>uri.HasURIStatus\<close>, of another component, is the argument \<open>hasURIStatus\<close> of the middleware, which
  returns the code it passes to \<open>trigger.RunTriggers\<close>.
\<close>

section \<open>State\<close>

record flipflop_config =
  ffTimes :: int
  ffStatusCount :: int
  ffLastStatusIndex :: nat
  ffLastStatus :: int

record port_status =
  countsByRequestedStatus :: "(int, int) gomap"
  countsByResponseStatus :: "(int, int) gomap"
  FlipflopConfigs :: "(string, flipflop_config) gomap"

record status_state =
  TheStatusManager :: status_manager
  portStatusMap :: "(string, port_status) gomap"

definition new_port_status :: port_status where
  "new_port_status = \<lparr>countsByRequestedStatus = [], countsByResponseStatus = [], FlipflopConfigs = []\<rparr>"

definition getOrCreatePortStatus :: "request \<Rightarrow> status_state \<Rightarrow> status_state \<times> port_status" where
  "getOrCreatePortStatus r st =
     (case mget (portStatusMap st) (reqPort r) of
        Some ps \<Rightarrow> (st, ps)
      | None \<Rightarrow> (st\<lparr>portStatusMap := mput (reqPort r) new_port_status (portStatusMap st)\<rparr>, new_port_status))"

definition put_port_status :: "request \<Rightarrow> port_status \<Rightarrow> status_state \<Rightarrow> status_state" where
  "put_port_status r ps st = st\<lparr>portStatusMap := mput (reqPort r) ps (portStatusMap st)\<rparr>"

section \<open>Configuration handlers\<close>

text \<open>\<open>parsed\<close> is the configuration decoded from the body, \<open>None\<close> when the body does not decode.\<close>

definition configureStatus ::
  "(string \<Rightarrow> bool) \<Rightarrow> request \<Rightarrow> status_config option \<Rightarrow> status_state \<Rightarrow> (status_state \<times> http_out) option" where
  "configureStatus compiles r parsed st =
     (case parsed of
        None \<Rightarrow> Some (st, WriteHeader 400 no_out)
      | Some sc \<Rightarrow>
          (case ApplyStatusConfig compiles (reqPortNum r) sc (TheStatusManager st) of
             None \<Rightarrow> None
           | Some (Inl e) \<Rightarrow> Some (st, WriteHeader 400 no_out)
           | Some (Inr (m, sc')) \<Rightarrow> Some (st\<lparr>TheStatusManager := m\<rparr>, no_out)))"

definition status_setStatus :: "request \<Rightarrow> status_state \<Rightarrow> (status_state \<times> http_out) option" where
  "status_setStatus r st =
     (let uriExact = GetStringParamValue r ''uri'' None;
          uriPrefix = GetStringParamValue r ''uriPrefix'' None;
          (statusCodes, n, ok) = GetStatusParam r
      in if \<not> ok then Some (st, WriteHeader 400 no_out)
         else
           map_option (\<lambda>m. (st\<lparr>TheStatusManager := m\<rparr>, no_out))
             (SetStatusFor (reqPortNum r) uriExact uriPrefix [] [] [] statusCodes n True
               (TheStatusManager st)))"

definition IsForcedStatus :: "(int \<Rightarrow> int) \<Rightarrow> request \<Rightarrow> status_state \<Rightarrow> (status_state \<times> bool) option" where
  "IsForcedStatus rnd r st =
     map_option (\<lambda>(m, status, rem). (st\<lparr>TheStatusManager := m\<rparr>, 0 < status \<and> 0 < rem))
       (GetStatusFor rnd (reqPortNum r) (RequestURI r) (reqHeaders r) (TheStatusManager st))"

definition computeResponseStatus ::
  "(int \<Rightarrow> int) \<Rightarrow> int \<Rightarrow> request \<Rightarrow> status_state \<Rightarrow> (status_state \<times> int \<times> int \<times> bool) option" where
  "computeResponseStatus rnd originalStatus r st =
     map_option (\<lambda>(m, status, remaining).
         (st\<lparr>TheStatusManager := m\<rparr>, if 0 < status then status else originalStatus, remaining, 0 < status))
       (GetStatusFor rnd (reqPortNum r) (RequestURI r) (reqHeaders r) (TheStatusManager st))"

text \<open>What \<open>getStatusCount\<close> reports: the flip-flop table, the two counts of a status, all counts,
  or that there is nothing to report.\<close>

datatype count_report =
    FlipFlops "(string, flipflop_config) gomap"
  | StatusCounts int int int
  | AllCounts "(int, int) gomap" "(int, int) gomap"
  | NoContent

definition getStatusCount :: "request \<Rightarrow> status_state \<Rightarrow> count_report \<times> http_out" where
  "getStatusCount r st =
     (case mget (portStatusMap st) (reqPort r) of
        None \<Rightarrow> (NoContent, WriteHeader 204 no_out)
      | Some ps \<Rightarrow>
          (if Contains (RequestURI r) ''flipflop'' then (FlipFlops (FlipflopConfigs ps), no_out)
           else
             (case GetIntParam r ''status'' None of
                (status, True) \<Rightarrow>
                  (StatusCounts status (mget_or 0 (countsByRequestedStatus ps) status)
                     (mget_or 0 (countsByResponseStatus ps) status), no_out)
              | (status, False) \<Rightarrow>
                  (AllCounts (countsByRequestedStatus ps) (countsByResponseStatus ps), no_out))))"

definition clearStatus :: "request \<Rightarrow> status_state \<Rightarrow> (status_state \<times> http_out) option" where
  "clearStatus r st0 =
     (let (st, ps) = getOrCreatePortStatus r st0;
          uri = GetStringParamValue r ''uri'' None
      in if Contains (RequestURI r) ''counts'' then
           Some (put_port_status r (ps\<lparr>countsByRequestedStatus := [], countsByResponseStatus := []\<rparr>) st,
                 SendEvent ''Response Status Counts Cleared'' no_out)
         else
           (case sm_Clear (reqPortNum r) uri uri (TheStatusManager st) of
              None \<Rightarrow> None
            | Some m \<Rightarrow>
                Some (put_port_status r (ps\<lparr>FlipflopConfigs := []\<rparr>) (st\<lparr>TheStatusManager := m\<rparr>),
                      SendEvent ''Response Status Cleared'' no_out)))"

section \<open>Flip-flop\<close>

text \<open>
  The status for one request of a flip-flop series. With several codes the entry's index walks
  through them and the request after the last one gets 200; with one code the entry counts how many
  requests still get it. Reading the last code of the previous series (\<open>LastStatusIndex-1\<close>) is out
  of range, and panics, when that series had more codes than this one.
\<close>

definition flipflop_many ::
  "string \<Rightarrow> int list \<Rightarrow> flipflop_config \<Rightarrow> port_status \<Rightarrow> http_out \<Rightarrow>
   (port_status \<times> http_out \<times> int) option" where
  "flipflop_many requestId requestedStatuses c ps w =
     (if ffLastStatusIndex c < length requestedStatuses then
        Some (ps\<lparr>FlipflopConfigs := mput requestId (c\<lparr>ffLastStatusIndex := ffLastStatusIndex c + 1\<rparr>)
                   (FlipflopConfigs ps)\<rparr>,
              w, requestedStatuses ! ffLastStatusIndex c)
      else if ffLastStatusIndex c - 1 < length requestedStatuses then
        Some (ps\<lparr>FlipflopConfigs := mdel requestId (FlipflopConfigs ps)\<rparr>,
              AddHeader ''Goto-Status-Flip'' (Itoa (requestedStatuses ! (ffLastStatusIndex c - 1))) w, 200)
      else None)"

definition flipflop_one ::
  "string \<Rightarrow> int \<Rightarrow> int \<Rightarrow> bool \<Rightarrow> flipflop_config \<Rightarrow> port_status \<Rightarrow> http_out \<Rightarrow>
   port_status \<times> http_out \<times> int" where
  "flipflop_one requestId status n restart c0 ps w =
     (let c = (if n \<noteq> ffTimes c0 \<or> status \<noteq> ffLastStatus c0
               then c0\<lparr>ffStatusCount := n, ffTimes := n, ffLastStatus := status\<rparr> else c0);
          (c, w, result) =
            (if ffStatusCount c = - 1 \<and> restart then
               (c\<lparr>ffStatusCount := (if 0 < n then n - 1 else n)\<rparr>, w, status)
             else if ffStatusCount c = 0 \<or> \<not> restart \<and> ffStatusCount c = - 1 then
               (c\<lparr>ffStatusCount := - 1\<rparr>, AddHeader ''Goto-Status-Flip'' (Itoa status) w, 200)
             else if 0 < n then (c\<lparr>ffStatusCount := ffStatusCount c - 1\<rparr>, w, status)
             else (c, w, status));
          cs = (if \<not> 0 \<le> ffStatusCount c \<and> restart then mdel requestId (FlipflopConfigs ps)
                else mput requestId c (FlipflopConfigs ps))
      in (ps\<lparr>FlipflopConfigs := cs\<rparr>, w, result))"

definition flipflop ::
  "string \<Rightarrow> int list \<Rightarrow> int \<Rightarrow> bool \<Rightarrow> port_status \<Rightarrow> http_out \<Rightarrow>
   (port_status \<times> http_out \<times> int) option" where
  "flipflop requestId requestedStatuses n restart ps0 w =
     (let c = (case mget (FlipflopConfigs ps0) requestId of
                 Some c \<Rightarrow> c
               | None \<Rightarrow> \<lparr>ffTimes = n, ffStatusCount = n, ffLastStatusIndex = 0, ffLastStatus = 0\<rparr>);
          ps = ps0\<lparr>FlipflopConfigs := mput requestId c (FlipflopConfigs ps0)\<rparr>
      in case requestedStatuses of
           [] \<Rightarrow> Some (ps, w, 200)
         | [status] \<Rightarrow> Some (flipflop_one requestId status n restart c ps w)
         | _ \<Rightarrow> flipflop_many requestId requestedStatuses c ps w)"

definition status_handler ::
  "(int \<Rightarrow> int) \<Rightarrow> (string \<Rightarrow> int option) \<Rightarrow> request \<Rightarrow> status_state \<Rightarrow> (status_state \<times> http_out) option" where
  "status_handler rnd pd r st0 =
     (let (st, ps) = getOrCreatePortStatus r st0;
          (requestedStatuses, n, ok) = GetStatusParam r;
          (delayMin, delayMax, dcount, dok) = GetDurationParam pd r ''delay'';
          requestId = GetStringParamValue r ''x-request-id'' None;
          restart = Contains (RequestURI r) ''flipflop'';
          flip = (restart \<or> 0 < n);
          n = (if 0 < n then n else int (length requestedStatuses))
      in case (if flip then flipflop requestId requestedStatuses n restart ps no_out
               else case requestedStatuses of
                      [] \<Rightarrow> Some (ps, no_out, 200)
                    | [c] \<Rightarrow> Some (ps, no_out, c)
                    | _ \<Rightarrow> map_option (\<lambda>c. (ps, no_out, c)) (RandomFrom rnd requestedStatuses)) of
           None \<Rightarrow> None
         | Some (ps, w, requestedStatus) \<Rightarrow>
             (let ps = ps\<lparr>countsByRequestedStatus := mbump requestedStatus (countsByRequestedStatus ps)\<rparr>;
                  st = put_port_status r ps st
              in case (if 0 < delayMin
                       then map_option (\<lambda>d. AddHeader ''Goto-Response-Delay'' (DurationString d) w)
                              (RandomDuration rnd delayMin delayMax [])
                       else Some w) of
                   None \<Rightarrow> None
                 | Some w \<Rightarrow>
                     (let w = AddHeader ''Goto-Requested-Status'' (Itoa requestedStatus) w
                      in map_option (\<lambda>(st, forced).
                             (st, if forced then w else WriteHeader requestedStatus w))
                           (IsForcedStatus rnd r st))))"

section \<open>The middleware\<close>

definition IncrementStatusCount :: "int \<Rightarrow> request \<Rightarrow> status_state \<Rightarrow> status_state" where
  "IncrementStatusCount statusCode r st0 =
     (let (st, ps) = getOrCreatePortStatus r st0
      in put_port_status r
           (ps\<lparr>countsByResponseStatus := mbump statusCode (countsByResponseStatus ps)\<rparr>) st)"

text \<open>Runs after the handler, which left \<open>code\<close> as the response status (0 when it wrote none). The
  last component is the code that the response ends with and that triggers run on, \<open>None\<close> when
  this middleware does not handle the request.\<close>

definition status_middleware ::
  "(int \<Rightarrow> int) \<Rightarrow> bool \<Rightarrow> request \<Rightarrow> int \<Rightarrow> status_state \<Rightarrow> http_out \<Rightarrow>
   (status_state \<times> http_out \<times> int option) option" where
  "status_middleware rnd hasURIStatus r code st w =
     (if IsAdminRequest r \<or> hasURIStatus then Some (st, w, None)
      else
        (case computeResponseStatus rnd code r st of
           None \<Rightarrow> None
         | Some (st, c, remaining, overridden) \<Rightarrow>
             (let c = (if c = 0 then 200 else c);
                  st = IncrementStatusCount c r st;
                  w = (if overridden then AddHeader ''Goto-Forced-Status'' (Itoa c) w else w);
                  w = (if overridden \<and> 0 < remaining
                       then AddHeader ''Goto-Forced-Status-Remaining'' (Itoa remaining) w else w)
              in Some (st, w, Some c))))"

section \<open>Series of flip-flop requests\<close>

text \<open>The codes of \<open>m\<close> consecutive requests of one series, and the table after them.\<close>

fun ff_series ::
  "string \<Rightarrow> int list \<Rightarrow> int \<Rightarrow> bool \<Rightarrow> nat \<Rightarrow> port_status \<Rightarrow> (int list \<times> port_status) option" where
  "ff_series requestId codes n restart 0 ps = Some ([], ps)"
| "ff_series requestId codes n restart (Suc m) ps =
     (case flipflop requestId codes n restart ps no_out of
        None \<Rightarrow> None
      | Some (ps', w, c) \<Rightarrow>
          map_option (\<lambda>(cs, ps''). (c # cs, ps'')) (ff_series requestId codes n restart m ps'))"

text \<open>How many requests of a one-code series still get the code.\<close>

definition ff_left :: "string \<Rightarrow> int \<Rightarrow> int \<Rightarrow> port_status \<Rightarrow> int option" where
  "ff_left requestId status n ps =
     (case mget (FlipflopConfigs ps) requestId of
        None \<Rightarrow> Some n
      | Some c \<Rightarrow>
          (if ffTimes c = n \<and> ffLastStatus c = status \<and> - 1 \<le> ffStatusCount c then Some (max 0 (ffStatusCount c)) else None))"

lemma flipflop_one_step:
  assumes "ff_left i status n ps = Some k" and "0 < n" and "0 \<le> k"
  shows "\<exists>ps' w. flipflop i [status] n False ps no_out = Some (ps', w, if 0 < k then status else 200) \<and>
     ff_left i status n ps' = Some (if 0 < k then k - 1 else 0)"
proof (cases "mget (FlipflopConfigs ps) i")
  case None
  with assms show ?thesis by (auto simp: flipflop_def flipflop_one_def ff_left_def Let_def)
next
  case (Some c)
  with assms show ?thesis
    by (auto simp: flipflop_def flipflop_one_def ff_left_def Let_def max_def split: if_splits)
qed

lemma ff_series_once:
  assumes "ff_left i status n ps = Some (int k)" and "0 < n"
  shows "\<exists>ps'. ff_series i [status] n False m ps =
     Some (replicate (min k m) status @ replicate (m - k) 200, ps')"
  using assms(1)
proof (induction m arbitrary: k ps)
  case (Suc m)
  obtain ps' w where step: "flipflop i [status] n False ps no_out =
      Some (ps', w, if 0 < int k then status else 200)"
    and l: "ff_left i status n ps' = Some (if 0 < int k then int k - 1 else 0)"
    using flipflop_one_step [OF Suc.prems assms(2)] by auto
  from l have "ff_left i status n ps' = Some (int (k - 1))" by (auto simp: of_nat_diff)
  from Suc.IH [OF this] step show ?case by (cases k) auto
qed simp

text \<open>The position of a series of several codes: an index into the codes, one past them for the
  request that gets 200.\<close>

definition ff_pos :: "string \<Rightarrow> port_status \<Rightarrow> nat" where
  "ff_pos requestId ps =
     (case mget (FlipflopConfigs ps) requestId of None \<Rightarrow> 0 | Some c \<Rightarrow> ffLastStatusIndex c)"

lemma flipflop_eq_many:
  assumes "1 < length codes"
  shows "\<exists>c. ffLastStatusIndex c = ff_pos i ps \<and>
     flipflop i codes n restart ps w =
       flipflop_many i codes c (ps\<lparr>FlipflopConfigs := mput i c (FlipflopConfigs ps)\<rparr>) w"
proof -
  obtain a b cs where codes: "codes = a # b # cs"
    using assms by (cases codes; cases "tl codes") auto
  let ?c = "case mget (FlipflopConfigs ps) i of
      Some c \<Rightarrow> c
    | None \<Rightarrow> \<lparr>ffTimes = n, ffStatusCount = n, ffLastStatusIndex = 0, ffLastStatus = 0\<rparr>"
  have "ffLastStatusIndex ?c = ff_pos i ps" by (simp add: ff_pos_def split: option.splits)
  moreover have "flipflop i codes n restart ps w =
      flipflop_many i codes ?c (ps\<lparr>FlipflopConfigs := mput i ?c (FlipflopConfigs ps)\<rparr>) w"
    by (simp add: codes flipflop_def Let_def)
  ultimately show ?thesis by blast
qed

lemma flipflop_many_step:
  assumes "ff_pos i ps \<le> length codes" and "1 < length codes"
  shows "\<exists>ps' w. flipflop i codes n restart ps no_out =
       Some (ps', w, if ff_pos i ps < length codes then codes ! ff_pos i ps else 200) \<and>
     ff_pos i ps' = (ff_pos i ps + 1) mod (length codes + 1)"
proof -
  obtain c where "ffLastStatusIndex c = ff_pos i ps" "flipflop i codes n restart ps no_out =
       flipflop_many i codes c (ps\<lparr>FlipflopConfigs := mput i c (FlipflopConfigs ps)\<rparr>) no_out"
    using flipflop_eq_many [OF assms(2)] by blast
  with assms show ?thesis
    by (cases "ff_pos i ps = length codes") (auto simp: flipflop_many_def ff_pos_def)
qed

lemma ff_series_cycle:
  assumes "1 < length codes" and "ff_pos i ps \<le> length codes"
  shows "\<exists>ps'. ff_series i codes n restart m ps =
     Some (map (\<lambda>k. let j = (k + ff_pos i ps) mod (length codes + 1)
                    in if j < length codes then codes ! j else 200) [0..<m], ps')"
  using assms(2)
proof (induction m arbitrary: ps)
  case (Suc m)
  let ?L = "length codes + 1"
  obtain ps' w where step: "flipflop i codes n restart ps no_out =
       Some (ps', w, if ff_pos i ps < length codes then codes ! ff_pos i ps else 200)"
    and pos: "ff_pos i ps' = (ff_pos i ps + 1) mod ?L"
    using flipflop_many_step [OF Suc.prems assms(1)] by blast
  have le: "ff_pos i ps' \<le> length codes"
    unfolding pos using mod_less_divisor [of ?L "ff_pos i ps + 1"] by linarith
  have shift: "(k + ff_pos i ps') mod ?L = (Suc k + ff_pos i ps) mod ?L" for k
    unfolding pos by (simp add: mod_simps)
  have 0: "ff_pos i ps mod ?L = ff_pos i ps" using Suc.prems by simp
  have "map (\<lambda>k. let j = (k + ff_pos i ps) mod ?L in if j < length codes then codes ! j else 200) [0..<Suc m] =
     (if ff_pos i ps < length codes then codes ! ff_pos i ps else 200) #
     map (\<lambda>k. let j = (k + ff_pos i ps') mod ?L in if j < length codes then codes ! j else 200) [0..<m]"
    using 0 shift by (simp add: map_upt_Suc del: upt_Suc)
  with Suc.IH [OF le] step show ?case by auto
qed simp

section \<open>The manager across a request\<close>

lemma getOrCreate_manager [simp]: "TheStatusManager (fst (getOrCreatePortStatus r st)) = TheStatusManager st"
  by (simp add: getOrCreatePortStatus_def split: option.splits)

lemma put_port_manager [simp]: "TheStatusManager (put_port_status r ps st) = TheStatusManager st"
  by (simp add: put_port_status_def)

lemma IncrementStatusCount_manager [simp]:
  "TheStatusManager (IncrementStatusCount c r st) = TheStatusManager st"
  using getOrCreate_manager [of r st]
  by (cases "getOrCreatePortStatus r st") (simp add: IncrementStatusCount_def)

lemma IsForcedStatus_manager:
  "IsForcedStatus rnd r st = Some (st', b) \<Longrightarrow>
   TheStatusManager st' = status_tick rnd (reqPortNum r) (RequestURI r) (reqHeaders r) (TheStatusManager st)"
  by (auto simp: IsForcedStatus_def status_tick_def)

lemma status_handler_manager:
  assumes "status_handler rnd pd r st = Some (st1, w1)"
  shows "TheStatusManager st1 =
     status_tick rnd (reqPortNum r) (RequestURI r) (reqHeaders r) (TheStatusManager st)"
proof -
  obtain st' ps where g: "getOrCreatePortStatus r st = (st', ps)" by fastforce
  then have m: "TheStatusManager st' = TheStatusManager st"
    using getOrCreate_manager [of r st] by simp
  from assms obtain ps' b where "IsForcedStatus rnd r (put_port_status r ps' st') = Some (st1, b)"
    by (auto simp: status_handler_def g Let_def split: prod.splits option.splits)
  then show ?thesis using IsForcedStatus_manager m by fastforce
qed

lemma status_middleware_manager:
  assumes "status_middleware rnd False r code st w = Some (st', w', c)" and "\<not> IsAdminRequest r"
  shows "TheStatusManager st' =
     status_tick rnd (reqPortNum r) (RequestURI r) (reqHeaders r) (TheStatusManager st)"
  using assms by (auto simp: status_middleware_def computeResponseStatus_def status_tick_def Let_def
      split: option.splits)

section \<open>Traffic through the middleware\<close>




lemma map_first_length [simp]: "length (map_first P g xs) = length xs"
  by (induction xs) auto








section \<open>Properties\<close>

text \<open>A request for a status with a repeat count \<open>n\<close> (\<open>/status=503:3\<close>): of the requests with one
  request id, the first \<open>n\<close> get the status and all later ones 200.\<close>

theorem flipflop_counts:
  assumes "mget (FlipflopConfigs ps) requestId = None"
  shows "\<exists>ps'. ff_series requestId [status] (int (Suc n)) False m ps =
     Some (replicate (min (Suc n) m) status @ replicate (m - Suc n) 200, ps')"
  using assms by (intro ff_series_once) (auto simp: ff_left_def)

theorem flipflop_counts_witness:
  "\<exists>ps'. ff_series ''id'' [503] (int (Suc 2)) False 5 new_port_status =
     Some (replicate (min (Suc 2) 5) 503 @ replicate (5 - Suc 2) 200, ps')"
  by (rule flipflop_counts) (simp add: new_port_status_def)

text \<open>C33: a flip-flop request for several codes: the requests with one request id cycle through the
  codes in order, with one 200 after the last, and no request of the series panics.\<close>

theorem flipflop_cycles:
  assumes "1 < length codes" and "mget (FlipflopConfigs ps) requestId = None"
  shows "\<exists>ps'. ff_series requestId codes n restart m ps =
     Some (map (\<lambda>k. let j = k mod (length codes + 1)
                    in if j < length codes then codes ! j else 200) [0..<m], ps')"
  using ff_series_cycle [OF assms(1), of requestId ps n restart m] assms(2) by (simp add: ff_pos_def)

theorem flipflop_cycles_witness:
  "\<exists>ps'. ff_series ''id'' [501, 502] 2 True 7 new_port_status =
     Some (map (\<lambda>k. let j = k mod (length [501, 502 :: int] + 1)
                    in if j < length [501, 502 :: int] then [501, 502] ! j else 200) [0..<7], ps')"
  by (rule flipflop_cycles) (simp_all add: new_port_status_def)

text \<open>A flip-flop request panics exactly when it asks for several codes and an earlier series with
  the same request id got further than this series is long.\<close>

theorem flipflop_panics_iff:
  "flipflop requestId codes n restart ps w = None \<longleftrightarrow>
   1 < length codes \<and> length codes < ff_pos requestId ps"
proof (cases codes)
  case (Cons a as)
  then show ?thesis
    by (cases as) (auto simp: flipflop_def flipflop_many_def ff_pos_def Let_def split: option.splits)
qed (simp add: flipflop_def)

text \<open>C36: the response of a request that the status middleware handles: the forced status if the
  manager has one for the request, else what the handler wrote, else 200; the count of that code on
  the request's port goes up by one and no other count changes.\<close>

theorem status_middleware_result:
  assumes "mgr_ok (TheStatusManager st)" and "\<not> IsAdminRequest r"
    and "GetStatusFor rnd (reqPortNum r) (RequestURI r) (reqHeaders r) (TheStatusManager st) = Some (m, f, rem)"
    and "c = (if 0 < f then f else if code = 0 then 200 else code)"
  shows "\<exists>st' w'. status_middleware rnd False r code st w = Some (st', w', Some c) \<and>
     TheStatusManager st' = m \<and>
     (\<forall>p x. mget_or 0 (countsByResponseStatus (mget_or new_port_status (portStatusMap st') p)) x =
        mget_or 0 (countsByResponseStatus (mget_or new_port_status (portStatusMap st) p)) x +
        (if p = reqPort r \<and> x = c then 1 else 0))"
proof -
  have counts: "mget_or 0 (countsByResponseStatus
      (mget_or new_port_status (portStatusMap (IncrementStatusCount c r s)) p)) x =
        mget_or 0 (countsByResponseStatus (mget_or new_port_status (portStatusMap s) p)) x +
        (if p = reqPort r \<and> x = c then 1 else 0)" for s p x
    by (auto simp: IncrementStatusCount_def getOrCreatePortStatus_def put_port_status_def
        mget_or_def Let_def mbump_def split: option.splits)
  have "TheStatusManager (IncrementStatusCount c r s) = TheStatusManager s" for s
    by (auto simp: IncrementStatusCount_def getOrCreatePortStatus_def put_port_status_def split: option.splits)
  with assms counts show ?thesis
    by (auto simp: status_middleware_def computeResponseStatus_def Let_def)
qed

theorem status_middleware_result_witness:
  "\<exists>st' w'. status_middleware (\<lambda>n. 0) False
       \<lparr>reqPort = ''80'', reqPortNum = 80, RequestURI = ''/a'', URLPath = ''/a'', reqMethod = ''GET'',
        reqHeaders = [], reqVars = [], reqQuery = [], IsKnownNonTraffic = False, IsAdminRequest = False\<rparr>
       0 \<lparr>TheStatusManager = NewStatusManager, portStatusMap = []\<rparr> no_out = Some (st', w', Some 200) \<and>
     TheStatusManager st' = NewStatusManager \<and>
     (\<forall>p x. mget_or 0 (countsByResponseStatus (mget_or new_port_status (portStatusMap st') p)) x =
        mget_or 0 (countsByResponseStatus (mget_or new_port_status
          (portStatusMap \<lparr>TheStatusManager = NewStatusManager, portStatusMap = []\<rparr>) p)) x +
        (if p = ''80'' \<and> x = 200 then 1 else 0))"
  using status_middleware_result [of
      "\<lparr>TheStatusManager = NewStatusManager, portStatusMap = []\<rparr>"
      "\<lparr>reqPort = ''80'', reqPortNum = 80, RequestURI = ''/a'', URLPath = ''/a'', reqMethod = ''GET'',
        reqHeaders = [], reqVars = [], reqQuery = [], IsKnownNonTraffic = False, IsAdminRequest = False\<rparr>"
      "\<lambda>n. 0" NewStatusManager 0 0 200 0 no_out]
  by (simp add: mgr_ok_def NewStatusManager_def GetStatusFor_def)

text \<open>A request to the status endpoint uses up two counts of a forced status on its port: the
  endpoint asks whether a status is forced, which takes one count, and the middleware takes
  another for the response.\<close>

theorem status_endpoint_uses_two_counts:
  assumes "mgr_ok (TheStatusManager st)" and "\<not> IsAdminRequest r"
    and "serving (reqPortNum r) (RequestURI r) (reqHeaders r) (TheStatusManager st) = Some sc"
    and "2 \<le> scTimes sc"
    and "status_handler rnd pd r st = Some (st1, w1)"
    and "status_middleware rnd False r code st1 w1 = Some (st2, w2, c)"
  shows "\<exists>sc2. serving (reqPortNum r) (RequestURI r) (reqHeaders r) (TheStatusManager st2) = Some sc2 \<and>
     scTimes sc2 = scTimes sc - 2"
proof -
  let ?tick = "status_tick rnd (reqPortNum r) (RequestURI r) (reqHeaders r)"
  have "TheStatusManager st1 = ?tick (TheStatusManager st)"
    using assms(5) by (rule status_handler_manager)
  moreover have "TheStatusManager st2 = ?tick (TheStatusManager st1)"
    using assms(6,2) by (rule status_middleware_manager)
  ultimately show ?thesis
    using status_tick_serving [OF assms(1), of rnd "reqPortNum r" "RequestURI r" "reqHeaders r"]
      status_tick_serving [of "TheStatusManager st1" rnd "reqPortNum r" "RequestURI r" "reqHeaders r"]
      assms(3,4)
    by (auto simp: sc_next_def)
qed

theorem status_endpoint_uses_two_counts_witness:
  "\<exists>sc2. serving 80 ''/status'' []
       [(80, [sc_next (sc_next (newStatusConfig [] [] [] [] [] [503] 4 True))])] = Some sc2 \<and>
     scTimes sc2 = 4 - 2"
proof -
  let ?sc = "newStatusConfig [] [] [] [] [] [503] 4 True"
  let ?r = "\<lparr>reqPort = ''80'', reqPortNum = 80, RequestURI = ''/status'', URLPath = ''/status'',
    reqMethod = ''GET'', reqHeaders = [], reqVars = [], reqQuery = [], IsKnownNonTraffic = False,
    IsAdminRequest = False\<rparr>"
  let ?st = "\<lparr>TheStatusManager = [(80, [?sc])], portStatusMap = []\<rparr>"
  have h: "map_option (\<lambda>(st, w). TheStatusManager st) (status_handler (\<lambda>n. 0) (\<lambda>s. None) ?r ?st) =
      Some [(80, [sc_next ?sc])]"
    by code_simp
  then obtain st1 w1 where 1: "status_handler (\<lambda>n. 0) (\<lambda>s. None) ?r ?st = Some (st1, w1)"
    and m1: "TheStatusManager st1 = [(80, [sc_next ?sc])]"
    by auto
  have ok: "mgr_ok (TheStatusManager ?st)" "mgr_ok (TheStatusManager st1)"
    by (simp_all add: m1 sc_next_def mgr_ok_def mget_or_def newStatusConfig_def config_ok_def Let_def TrimSpace_def)
  have g: "GetStatusFor (\<lambda>n. 0) 80 ''/status'' [] [(80, [sc_next ?sc])] =
      Some ([(80, [sc_next (sc_next ?sc)])], 503, 2)"
    by code_simp
  then obtain st2 w2 where 2: "status_middleware (\<lambda>n. 0) False ?r 0 st1 w1 = Some (st2, w2, Some 503)"
    and m2: "TheStatusManager st2 = [(80, [sc_next (sc_next ?sc)])]"
    using m1 by (auto simp: status_middleware_def computeResponseStatus_def Let_def)
  have "serving 80 ''/status'' [] [(80, [?sc])] = Some ?sc" by code_simp
  then show ?thesis
    using status_endpoint_uses_two_counts [OF ok(1) _ _ _ 1 2, of ?sc] m2
    by (simp add: newStatusConfig_def Let_def)
qed






end
