(* ===== verification/Uri.thy ===== *)
theory Uri
  imports Util_Params Delay_Types
begin

text \<open>
  Per-URI statuses, delays and call counts: \<open>pkg/server/request/uri/uri.go\<close>. The tables are maps
  of maps, by port and by lower-case URI; a URI configured with a trailing star is stored without it
  and marked \<open>Glob\<close>. A request takes the configuration of its own path, or the first one (in
  iteration order) whose URI is a prefix of the path. \<open>statusCodes[0]\<close> of an empty list panics,
  which is \<open>None\<close>.
\<close>

section \<open>State\<close>

record uri_delay =
  udURI :: string
  udGlob :: bool
  udDelay :: int
  udTimes :: int

record uri_status =
  usURI :: string
  usGlob :: bool
  usStatuses :: "int list"
  usTimes :: int

record uri_state =
  uriCountsByPort :: "(string, (string, int) gomap) gomap"
  uriStatusByPort :: "(string, (string, uri_status) gomap) gomap"
  uriDelayByPort :: "(string, (string, uri_delay) gomap) gomap"
  trackURICallCounts :: bool

definition uri_initPort :: "request \<Rightarrow> uri_state \<Rightarrow> uri_state" where
  "uri_initPort r st =
     (let port = reqPort r in
      if mget (uriCountsByPort st) port = None then
        st\<lparr>uriCountsByPort := mput port [] (uriCountsByPort st),
           uriStatusByPort := mput port [] (uriStatusByPort st),
           uriDelayByPort := mput port [] (uriDelayByPort st)\<rparr>
      else st)"

text \<open>Assigning to and deleting from the map of a port.\<close>

definition put2 :: "'a \<Rightarrow> 'b \<Rightarrow> 'c \<Rightarrow> ('a, ('b, 'c) gomap) gomap \<Rightarrow> ('a, ('b, 'c) gomap) gomap" where
  "put2 p k v m = mput p (mput k v (mget_or [] m p)) m"

definition del2 :: "'a \<Rightarrow> 'b \<Rightarrow> ('a, ('b, 'c) gomap) gomap \<Rightarrow> ('a, ('b, 'c) gomap) gomap" where
  "del2 p k m = (if mget m p = None then m else mput p (mdel k (mget_or [] m p)) m)"

section \<open>Configuration handlers\<close>

definition match_uri :: "string \<Rightarrow> string \<times> bool" where
  "match_uri uri = (if HasSuffix uri ''*'' then (strip_char CHR ''*'' uri, True) else (uri, False))"

definition uri_setStatus :: "request \<Rightarrow> uri_state \<Rightarrow> (uri_state \<times> http_out) option" where
  "uri_setStatus r st0 =
     (let st = uri_initPort r st0;
          port = reqPort r
      in case GetStringParam r ''uri'' None of
           (uri, False) \<Rightarrow> Some (st, WriteHeader 400 no_out)
         | (uri, True) \<Rightarrow>
             (let (matchURI, glob) = match_uri (ToLower uri) in
              case GetStatusParam r of
                (codes, n, False) \<Rightarrow>
                  Some (st\<lparr>uriStatusByPort := del2 port matchURI (uriStatusByPort st)\<rparr>,
                        WriteHeader 200 (SendEvent ''URI Status Cleared'' no_out))
              | ([], n, True) \<Rightarrow> None
              | (c # cs, n, True) \<Rightarrow>
                  (if 0 < c then
                     Some (st\<lparr>uriStatusByPort := put2 port matchURI
                               \<lparr>usURI = matchURI, usGlob = glob, usStatuses = c # cs, usTimes = n\<rparr>
                               (uriStatusByPort st)\<rparr>,
                           WriteHeader 200 (SendEvent ''URI Status Configured'' no_out))
                   else
                     Some (st\<lparr>uriStatusByPort := del2 port matchURI (uriStatusByPort st)\<rparr>,
                           WriteHeader 200 (SendEvent ''URI Status Cleared'' no_out)))))"

definition uri_delay_param :: "(string \<Rightarrow> int option) \<Rightarrow> string \<Rightarrow> int \<times> int" where
  "uri_delay_param pd text =
     (let delayParam = split_on CHR '':'' text in
      if hd delayParam \<noteq> [] then
        (case pd (hd delayParam) of
           Some d \<Rightarrow> (d, if 1 < length delayParam then fst (parse_int 32 (delayParam ! 1)) else 0)
         | None \<Rightarrow> (0, 0))
      else (0, 0))"

definition uri_setDelay :: "(string \<Rightarrow> int option) \<Rightarrow> request \<Rightarrow> uri_state \<Rightarrow> uri_state \<times> http_out" where
  "uri_setDelay pd r st0 =
     (let st = uri_initPort r st0;
          port = reqPort r
      in case GetStringParam r ''uri'' None of
           (uri, False) \<Rightarrow> (st, WriteHeader 400 no_out)
         | (uri, True) \<Rightarrow>
             (let (delay, n) = uri_delay_param pd (mget_or [] (reqVars r) ''delay'');
                  (matchURI, glob) = match_uri (ToLower uri)
              in if 0 < delay then
                   (st\<lparr>uriDelayByPort := put2 port matchURI
                         \<lparr>udURI = matchURI, udGlob = glob, udDelay = delay, udTimes = n\<rparr> (uriDelayByPort st)\<rparr>,
                    WriteHeader 200 (SendEvent ''URI Delay Configured'' no_out))
                 else
                   (st\<lparr>uriDelayByPort := del2 port matchURI (uriDelayByPort st)\<rparr>,
                    WriteHeader 200 (SendEvent ''URI Delay Cleared'' no_out))))"

definition getURICallCounts :: "request \<Rightarrow> uri_state \<Rightarrow> uri_state \<times> (string, int) gomap" where
  "getURICallCounts r st0 =
     (let st = uri_initPort r st0 in (st, mget_or [] (uriCountsByPort st) (reqPort r)))"

definition clearURICallCounts :: "request \<Rightarrow> uri_state \<Rightarrow> uri_state \<times> http_out" where
  "clearURICallCounts r st0 =
     (let st = uri_initPort r st0 in
      (st\<lparr>uriCountsByPort := mput (reqPort r) [] (uriCountsByPort st)\<rparr>,
       SendEvent ''URI Call Counts Cleared'' no_out))"

definition enableURICallCounts :: "uri_state \<Rightarrow> uri_state \<times> http_out" where
  "enableURICallCounts st =
     (st\<lparr>trackURICallCounts := True\<rparr>, SendEvent ''URI Call Counts Enabled'' no_out)"

definition disableURICallCounts :: "uri_state \<Rightarrow> uri_state \<times> http_out" where
  "disableURICallCounts st =
     (st\<lparr>trackURICallCounts := False\<rparr>, SendEvent ''URI Call Counts Disabled'' no_out)"

section \<open>The middleware\<close>

text \<open>The configuration for a path: whether it was found by prefix, the key it is stored under, and
  the configuration.\<close>

definition hasURIConfig :: "string \<Rightarrow> (string, 'c) gomap \<Rightarrow> (bool \<times> string \<times> 'c) option" where
  "hasURIConfig path portURIMap =
     (let uri = ToLower path in
      case mget portURIMap uri of
        Some c \<Rightarrow> Some (False, uri, c)
      | None \<Rightarrow>
          (case find (\<lambda>(k, v). HasPrefix uri k) portURIMap of
             Some (k, c) \<Rightarrow> Some (True, k, c)
           | None \<Rightarrow> None))"

definition usable_status :: "bool \<Rightarrow> uri_status \<Rightarrow> bool" where
  "usable_status glob c \<longleftrightarrow>
     (case usStatuses c of [] \<Rightarrow> False | s # ss \<Rightarrow> 0 < s) \<and> 0 \<le> usTimes c \<and> (\<not> glob \<or> usGlob c)"

definition GetURIStatus :: "request \<Rightarrow> uri_state \<Rightarrow> (string \<times> uri_status) option" where
  "GetURIStatus r st =
     (case hasURIConfig (URLPath r) (mget_or [] (uriStatusByPort st) (reqPort r)) of
        Some (glob, k, c) \<Rightarrow> (if usable_status glob c then Some (k, c) else None)
      | None \<Rightarrow> None)"

definition HasURIStatus :: "request \<Rightarrow> uri_state \<Rightarrow> bool" where
  "HasURIStatus r st \<longleftrightarrow>
     (case hasURIConfig (URLPath r) (mget_or [] (uriStatusByPort st) (reqPort r)) of
        Some (glob, k, c) \<Rightarrow> usable_status glob c | None \<Rightarrow> False)"

definition GetURIDelay :: "request \<Rightarrow> uri_state \<Rightarrow> (string \<times> uri_delay) option" where
  "GetURIDelay r st =
     (case hasURIConfig (URLPath r) (mget_or [] (uriDelayByPort st) (reqPort r)) of
        Some (glob, k, c) \<Rightarrow>
          (if 0 < udDelay c \<and> 0 \<le> udTimes c \<and> (\<not> glob \<or> udGlob c) then Some (k, c) else None)
      | None \<Rightarrow> None)"

definition HasAnyURIStatusOrDelay :: "uri_state \<Rightarrow> bool" where
  "HasAnyURIStatusOrDelay st \<longleftrightarrow> uriStatusByPort st \<noteq> [] \<or> uriDelayByPort st \<noteq> []"

definition checkAndSkip ::
  "request \<Rightarrow> uri_state \<Rightarrow> uri_state \<times> (string \<times> uri_status) option \<times> (string \<times> uri_delay) option \<times> bool" where
  "checkAndSkip r st0 =
     (if IsKnownNonTraffic r \<or> \<not> HasAnyURIStatusOrDelay st0 then (st0, None, None, True)
      else
        let st = uri_initPort r st0;
            uriStatus = GetURIStatus r st;
            uriDelay = GetURIDelay r st
        in (st, uriStatus, uriDelay, uriStatus = None \<and> uriDelay = None))"

definition computeURIStatus ::
  "(int \<Rightarrow> int) \<Rightarrow> string \<Rightarrow> (string \<times> uri_status) option \<Rightarrow> uri_state \<Rightarrow> http_out \<Rightarrow>
   (uri_state \<times> http_out \<times> int) option" where
  "computeURIStatus rnd port uriStatus st w =
     (case uriStatus of
        None \<Rightarrow> Some (st, w, 0)
      | Some (k, c) \<Rightarrow>
          (case (case usStatuses c of [s] \<Rightarrow> Some s | _ \<Rightarrow> RandomFrom rnd (usStatuses c)) of
             None \<Rightarrow> None
           | Some s \<Rightarrow>
               (let (st, w) =
                  (if 0 < s \<and> 1 \<le> usTimes c then
                     (if usTimes c - 1 = 0 then
                        (st\<lparr>uriStatusByPort := del2 port (usURI c) (uriStatusByPort st)\<rparr>, w)
                      else
                        (st\<lparr>uriStatusByPort :=
                             put2 port k (c\<lparr>usTimes := usTimes c - 1\<rparr>) (uriStatusByPort st)\<rparr>,
                         AddHeader ''Goto-URI-Status-Remaining'' (Itoa (usTimes c - 1)) w))
                   else (st, w))
                in Some (st, SendEvent ''URI Status Applied'' w, s))))"

definition applyURIDelay ::
  "string \<Rightarrow> (string \<times> uri_delay) option \<Rightarrow> uri_state \<Rightarrow> http_out \<Rightarrow> uri_state \<times> http_out" where
  "applyURIDelay port uriDelay st w =
     (case uriDelay of
        None \<Rightarrow> (st, w)
      | Some (k, c) \<Rightarrow>
          (if 0 < udDelay c then
             ((if 1 \<le> udTimes c then
                 (if udTimes c - 1 = 0 then
                    st\<lparr>uriDelayByPort := del2 port (udURI c) (uriDelayByPort st)\<rparr>
                  else
                    st\<lparr>uriDelayByPort :=
                         put2 port k (c\<lparr>udTimes := udTimes c - 1\<rparr>) (uriDelayByPort st)\<rparr>)
               else st),
              AddHeader ''Goto-Response-Delay'' (DurationString (udDelay c)) (SendEvent ''URI Delay Applied'' w))
           else (st, w)))"

text \<open>The whole middleware around a handler that leaves the response status \<open>code\<close>. The last
  component is the status the response ends with and that triggers run on; \<open>None\<close> when the request
  is passed on without being handled here.\<close>

definition uri_middleware ::
  "(int \<Rightarrow> int) \<Rightarrow> request \<Rightarrow> int \<Rightarrow> uri_state \<Rightarrow> http_out \<Rightarrow>
   (uri_state \<times> http_out \<times> int option) option" where
  "uri_middleware rnd r code st0 w =
     (case checkAndSkip r st0 of
        (st, uriStatus, uriDelay, True) \<Rightarrow> Some (st, w, None)
      | (st, uriStatus, uriDelay, False) \<Rightarrow>
          (let uri = ToLower (URLPath r);
               port = reqPort r;
               st = uri_initPort r st;
               st = (if trackURICallCounts st then
                       st\<lparr>uriCountsByPort := mput port (mbump uri (mget_or [] (uriCountsByPort st) port))
                            (uriCountsByPort st)\<rparr>
                     else st)
           in case computeURIStatus rnd port uriStatus st w of
                None \<Rightarrow> None
              | Some (st, w, s) \<Rightarrow>
                  (let (st, w) = applyURIDelay port uriDelay st w;
                       (code, w) = (if 0 < s then (s, AddHeader ''Goto-URI-Status'' (Itoa s) w) else (code, w));
                       code = (if code = 0 then 200 else code)
                   in Some (st, w, Some code))))"

section \<open>A URI status counts down\<close>

lemma RandomFrom_in: "valid_rnd rnd \<Longrightarrow> vs \<noteq> [] \<Longrightarrow> \<exists>v \<in> set vs. RandomFrom rnd vs = Some v"
proof -
  assume "valid_rnd rnd" "vs \<noteq> []"
  then have "0 \<le> rnd (int (length vs)) \<and> rnd (int (length vs)) < int (length vs)"
    by (simp add: valid_rnd_def)
  then have "nat (rnd (int (length vs))) < length vs" by (simp add: nat_less_iff)
  with \<open>vs \<noteq> []\<close> show ?thesis by (auto simp: RandomFrom_def)
qed

text \<open>The status table of a port as one request sees it: the only entries that bear on its path are
  for the path itself, and the entry has positive codes and a count left.\<close>

definition uri_table :: "request \<Rightarrow> uri_state \<Rightarrow> (string, uri_status) gomap" where
  "uri_table r st = mget_or [] (uriStatusByPort st) (reqPort r)"

definition uri_ready :: "(int \<Rightarrow> int) \<Rightarrow> request \<Rightarrow> uri_state \<Rightarrow> bool" where
  "uri_ready rnd r st \<longleftrightarrow>
     valid_rnd rnd \<and> \<not> IsKnownNonTraffic r \<and>
     mget (uriCountsByPort st) (reqPort r) \<noteq> None \<and> mget (uriStatusByPort st) (reqPort r) \<noteq> None \<and>
     list_all (\<lambda>(k, c). HasPrefix (ToLower (URLPath r)) k \<longrightarrow> k = ToLower (URLPath r)) (uri_table r st) \<and>
     (case mget (uri_table r st) (ToLower (URLPath r)) of
        None \<Rightarrow> True
      | Some c \<Rightarrow> usURI c = ToLower (URLPath r) \<and> usStatuses c \<noteq> [] \<and>
          list_all (\<lambda>s. 0 < s) (usStatuses c) \<and> 1 \<le> usTimes c)"

definition uri_left :: "request \<Rightarrow> uri_state \<Rightarrow> nat option" where
  "uri_left r st =
     (case mget (uri_table r st) (ToLower (URLPath r)) of
        None \<Rightarrow> Some 0 | Some c \<Rightarrow> Some (nat (usTimes c)))"

definition uri_tick :: "(int \<Rightarrow> int) \<Rightarrow> request \<Rightarrow> uri_state \<Rightarrow> uri_state" where
  "uri_tick rnd r st = (case uri_middleware rnd r 0 st no_out of Some (st', w, c) \<Rightarrow> st' | None \<Rightarrow> st)"

definition uri_status_applied :: "(int \<Rightarrow> int) \<Rightarrow> request \<Rightarrow> uri_state \<Rightarrow> bool" where
  "uri_status_applied rnd r st \<longleftrightarrow>
     (case uri_middleware rnd r 0 st no_out of
        Some (st', w, c) \<Rightarrow> list_ex (\<lambda>(h, v). h = ''Goto-URI-Status'') (whdrs w) | None \<Rightarrow> False)"

lemma applyURIDelay_frame:
  "uriStatusByPort (fst (applyURIDelay p d st w)) = uriStatusByPort st"
  "uriCountsByPort (fst (applyURIDelay p d st w)) = uriCountsByPort st"
  "list_ex (\<lambda>(h, v). h = ''Goto-URI-Status'') (whdrs (snd (applyURIDelay p d st w))) =
   list_ex (\<lambda>(h, v). h = ''Goto-URI-Status'') (whdrs w)"
  by (auto simp: applyURIDelay_def split: option.splits)

lemma initPort_id: "mget (uriCountsByPort st) (reqPort r) \<noteq> None \<Longrightarrow> uri_initPort r st = st"
  by (auto simp: uri_initPort_def Let_def)

lemma no_config:
  assumes "list_all (\<lambda>(k, c). HasPrefix (ToLower u) k \<longrightarrow> k = ToLower u) m" and "mget m (ToLower u) = None"
  shows "hasURIConfig u m = None"
proof -
  have "find (\<lambda>(k, v). HasPrefix (ToLower u) k) m = None"
    using assms by (fastforce simp: find_None_iff list_all_iff map_of_eq_None_iff image_iff)
  with assms(2) show ?thesis by (simp add: hasURIConfig_def Let_def)
qed

text \<open>One request, when no status is left and when one is.\<close>

lemma uri_tick_none:
  assumes "uri_ready rnd r st" and "mget (uri_table r st) (ToLower (URLPath r)) = None"
  shows "uri_table r (uri_tick rnd r st) = uri_table r st \<and>
     mget (uriCountsByPort (uri_tick rnd r st)) (reqPort r) \<noteq> None \<and>
     mget (uriStatusByPort (uri_tick rnd r st)) (reqPort r) \<noteq> None \<and> \<not> uri_status_applied rnd r st"
proof -
  have "hasURIConfig (URLPath r) (uri_table r st) = None"
    using assms by (intro no_config) (auto simp: uri_ready_def)
  then have "GetURIStatus r st = None" by (simp add: GetURIStatus_def uri_table_def)
  then show ?thesis
    using assms(1)
    by (cases "GetURIDelay r st")
      (auto simp: uri_ready_def uri_table_def uri_tick_def uri_status_applied_def uri_middleware_def
        checkAndSkip_def initPort_id HasAnyURIStatusOrDelay_def computeURIStatus_def Let_def
        applyURIDelay_def split: if_splits prod.splits)
qed

lemma uri_tick_some:
  assumes r: "uri_ready rnd r st" and c: "mget (uri_table r st) (ToLower (URLPath r)) = Some c"
  shows "uri_table r (uri_tick rnd r st) =
       (if usTimes c = 1 then mdel (ToLower (URLPath r)) (uri_table r st)
        else mput (ToLower (URLPath r)) (c\<lparr>usTimes := usTimes c - 1\<rparr>) (uri_table r st)) \<and>
     mget (uriCountsByPort (uri_tick rnd r st)) (reqPort r) \<noteq> None \<and>
     mget (uriStatusByPort (uri_tick rnd r st)) (reqPort r) \<noteq> None \<and> uri_status_applied rnd r st"
proof -
  let ?u = "ToLower (URLPath r)"
  have ok: "usURI c = ?u" "usStatuses c \<noteq> []" "list_all (\<lambda>s. 0 < s) (usStatuses c)" "1 \<le> usTimes c"
    and st: "valid_rnd rnd" "\<not> IsKnownNonTraffic r" "mget (uriCountsByPort st) (reqPort r) \<noteq> None"
      "mget (uriStatusByPort st) (reqPort r) \<noteq> None"
    using r c by (auto simp: uri_ready_def)
  obtain s where s: "(case usStatuses c of [s] \<Rightarrow> Some s | _ \<Rightarrow> RandomFrom rnd (usStatuses c)) = Some s" "0 < s"
    using RandomFrom_in [OF st(1) ok(2)] ok(2,3)
    by (cases "usStatuses c"; cases "tl (usStatuses c)") (auto simp: list_all_iff)
  have get: "GetURIStatus r st = Some (?u, c)"
    using c ok by (auto simp: GetURIStatus_def uri_table_def hasURIConfig_def usable_status_def
        list_all_iff Let_def split: list.splits)
  define st1 where "st1 = (if trackURICallCounts st then
      st\<lparr>uriCountsByPort := mput (reqPort r) (mbump ?u (mget_or [] (uriCountsByPort st) (reqPort r)))
          (uriCountsByPort st)\<rparr> else st)"
  have st1: "uriStatusByPort st1 = uriStatusByPort st" "mget (uriCountsByPort st1) (reqPort r) \<noteq> None"
    using st(3) by (auto simp: st1_def)
  obtain st2 w where comp: "computeURIStatus rnd (reqPort r) (Some (?u, c)) st1 no_out = Some (st2, w, s)"
    and st2: "uriCountsByPort st2 = uriCountsByPort st1"
      "uriStatusByPort st2 = (if usTimes c = 1 then del2 (reqPort r) ?u (uriStatusByPort st)
         else put2 (reqPort r) ?u (c\<lparr>usTimes := usTimes c - 1\<rparr>) (uriStatusByPort st))"
    using s ok st1 by (cases "usTimes c = 1") (auto simp: computeURIStatus_def)
  have "uriStatusByPort st \<noteq> []" using st(4) by auto
  then have m: "uri_middleware rnd r 0 st no_out =
      (let (st3, w') = applyURIDelay (reqPort r) (GetURIDelay r st) st2 w
       in Some (st3, AddHeader ''Goto-URI-Status'' (Itoa s) w', Some s))"
    using st s(2) get comp
    by (simp add: uri_middleware_def checkAndSkip_def initPort_id HasAnyURIStatusOrDelay_def
        st1_def [symmetric] Let_def split: prod.splits)
  show ?thesis
    using m st2 st1(2) st(4) applyURIDelay_frame [of "reqPort r" "GetURIDelay r st" st2 w]
    by (auto simp: uri_table_def uri_tick_def uri_status_applied_def del2_def put2_def split: prod.splits)
qed

lemma list_all_del: "list_all P m \<Longrightarrow> list_all P (mdel k m)"
  using mdel_set_subset [of k m] by (auto simp: list_all_iff)

lemma list_all_put: "list_all P m \<Longrightarrow> P (k, v) \<Longrightarrow> list_all P (mput k v m)"
  using mput_set_subset [of k v m] by (auto simp: list_all_iff)

interpretation uri_cd: countdown "uri_left r" "uri_status_applied rnd r" "uri_tick rnd r" "uri_ready rnd r"
  for rnd r
proof unfold_locales
  fix st assume rd: "uri_ready rnd r st"
  show "uri_status_applied rnd r st \<longleftrightarrow> uri_left r st \<noteq> Some 0"
    using uri_tick_none [OF rd] uri_tick_some [OF rd] rd
    by (cases "mget (uri_table r st) (ToLower (URLPath r))") (auto simp: uri_left_def uri_ready_def)
  show "uri_left r (uri_tick rnd r st) = map_option (\<lambda>n. n - 1) (uri_left r st)"
    using uri_tick_none [OF rd] uri_tick_some [OF rd] rd
    by (cases "mget (uri_table r st) (ToLower (URLPath r))")
      (auto simp: uri_left_def uri_ready_def nat_diff_distrib)
  show "uri_ready rnd r (uri_tick rnd r st)"
  proof (cases "mget (uri_table r st) (ToLower (URLPath r))")
    case None
    with uri_tick_none [OF rd None] rd show ?thesis by (auto simp: uri_ready_def)
  next
    case (Some c)
    with uri_tick_some [OF rd Some] rd show ?thesis
      by (auto simp: uri_ready_def intro!: list_all_del list_all_put)
  qed
qed

section \<open>Properties\<close>

text \<open>A URI status configured for \<open>n\<close> calls is applied to exactly the first \<open>n\<close> of any \<open>m\<close>
  requests for the URI, and its entry is gone afterwards.\<close>

theorem uri_status_count:
  assumes "uri_ready rnd r st" and "mget (uri_table r st) (ToLower (URLPath r)) = Some c"
    and "usTimes c = int n"
  shows "length (filter (\<lambda>k. uri_status_applied rnd r ((uri_tick rnd r ^^ k) st)) [0..<m]) = min n m"
  using assms by (intro uri_cd.served) (auto simp: uri_left_def)

theorem uri_status_count_witness:
  "length (filter (\<lambda>k. uri_status_applied (\<lambda>n. 0)
       \<lparr>reqPort = ''80'', reqPortNum = 80, RequestURI = ''/A'', URLPath = ''/A'', reqMethod = ''GET'',
        reqHeaders = [], reqVars = [], reqQuery = [], IsKnownNonTraffic = False, IsAdminRequest = False\<rparr>
       ((uri_tick (\<lambda>n. 0)
       \<lparr>reqPort = ''80'', reqPortNum = 80, RequestURI = ''/A'', URLPath = ''/A'', reqMethod = ''GET'',
        reqHeaders = [], reqVars = [], reqQuery = [], IsKnownNonTraffic = False, IsAdminRequest = False\<rparr> ^^ k)
       \<lparr>uriCountsByPort = [(''80'', [])],
        uriStatusByPort = [(''80'', [(''/a'', \<lparr>usURI = ''/a'', usGlob = False, usStatuses = [503], usTimes = 2\<rparr>)])],
        uriDelayByPort = [(''80'', [])], trackURICallCounts = False\<rparr>)) [0..<5]) = 2"
proof -
  let ?r = "\<lparr>reqPort = ''80'', reqPortNum = 80, RequestURI = ''/A'', URLPath = ''/A'', reqMethod = ''GET'',
        reqHeaders = [], reqVars = [], reqQuery = [], IsKnownNonTraffic = False, IsAdminRequest = False\<rparr>"
  let ?c = "\<lparr>usURI = ''/a'', usGlob = False, usStatuses = [503], usTimes = 2\<rparr>"
  let ?st = "\<lparr>uriCountsByPort = [(''80'', [])], uriStatusByPort = [(''80'', [(''/a'', ?c)])],
        uriDelayByPort = [(''80'', [])], trackURICallCounts = False\<rparr>"
  have l: "ToLower ''/A'' = ''/a''" by code_simp
  then have "uri_ready (\<lambda>n. 0) ?r ?st" and "mget (uri_table ?r ?st) (ToLower (URLPath ?r)) = Some ?c"
    by (simp_all add: uri_ready_def uri_table_def mget_or_def valid_rnd_def)
  from uri_status_count [OF this, of 2 5] show ?thesis by simp
qed

text \<open>A URI status configured without a count is never applied, although the handler reports it as
  set forever: the missing count is the number -1, and only counts from 0 are served.\<close>

theorem uri_status_without_count:
  assumes "GetStringParam r ''uri'' None = (u, True)" and "\<not> HasSuffix (ToLower u) ''*''"
    and "GetStatusParam r = (c # cs, - 1, True)" and "0 < c"
    and "reqPort r' = reqPort r" and "ToLower (URLPath r') = ToLower u"
  shows "\<exists>st' w. uri_setStatus r st = Some (st', w) \<and> wcodes w = [200] \<and>
     wevts w = [''URI Status Configured''] \<and> GetURIStatus r' st' = None \<and> \<not> HasURIStatus r' st'"
  using assms
  by (auto simp: uri_setStatus_def Let_def match_uri_def GetURIStatus_def HasURIStatus_def put2_def
      hasURIConfig_def usable_status_def)

theorem uri_status_without_count_witness:
  "\<exists>st' w. uri_setStatus
       \<lparr>reqPort = ''80'', reqPortNum = 80, RequestURI = ''/uri/set/status=503'',
        URLPath = ''/uri/set/status=503'', reqMethod = ''POST'', reqHeaders = [],
        reqVars = [(''uri'', ''/a''), (''status'', ''503'')], reqQuery = [], IsKnownNonTraffic = True,
        IsAdminRequest = True\<rparr>
       \<lparr>uriCountsByPort = [], uriStatusByPort = [], uriDelayByPort = [], trackURICallCounts = False\<rparr>
       = Some (st', w) \<and> wcodes w = [200] \<and> wevts w = [''URI Status Configured''] \<and>
     GetURIStatus
       \<lparr>reqPort = ''80'', reqPortNum = 80, RequestURI = ''/a'', URLPath = ''/a'', reqMethod = ''GET'',
        reqHeaders = [], reqVars = [], reqQuery = [], IsKnownNonTraffic = False, IsAdminRequest = False\<rparr> st' = None \<and>
     \<not> HasURIStatus
       \<lparr>reqPort = ''80'', reqPortNum = 80, RequestURI = ''/a'', URLPath = ''/a'', reqMethod = ''GET'',
        reqHeaders = [], reqVars = [], reqQuery = [], IsKnownNonTraffic = False, IsAdminRequest = False\<rparr> st'"
proof (rule uri_status_without_count)
  show "GetStatusParam
       \<lparr>reqPort = ''80'', reqPortNum = 80, RequestURI = ''/uri/set/status=503'',
        URLPath = ''/uri/set/status=503'', reqMethod = ''POST'', reqHeaders = [],
        reqVars = [(''uri'', ''/a''), (''status'', ''503'')], reqQuery = [], IsKnownNonTraffic = True,
        IsAdminRequest = True\<rparr> = (503 # [], - 1, True)"
    by code_simp
  show "\<not> HasSuffix (ToLower ''/a'') ''*''" by code_simp
qed (simp_all add: GetStringParam_def mget_or_def)

text \<open>The handler that sets a URI status panics exactly when the URI is given and the status text
  is not empty but has no piece that is a decimal 32-bit number before its first colon.\<close>

theorem uri_setStatus_panics_iff:
  "uri_setStatus r st = None \<longleftrightarrow>
   mget_or [] (reqVars r) ''uri'' \<noteq> [] \<and> mget_or [] (reqVars r) ''status'' \<noteq> [] \<and>
   list_all (\<lambda>p. \<not> snd (parse_int 32 p))
     (split_on CHR '','' (hd (split_on CHR '':'' (mget_or [] (reqVars r) ''status''))))"
proof -
  let ?s = "mget_or [] (reqVars r) ''status''"
  have "uri_setStatus r st = None \<longleftrightarrow>
      mget_or [] (reqVars r) ''uri'' \<noteq> [] \<and> ?s \<noteq> [] \<and> fst (status_of_text ?s) = []"
    by (auto simp: uri_setStatus_def GetStringParam_def GetStatusParam_def status_of_text_def Let_def
        split: prod.splits bool.splits list.splits if_splits)
  moreover have "fst (status_of_text ?s) = parse_codes (split_on CHR '','' (hd (split_on CHR '':'' ?s)))"
    if "?s \<noteq> []"
  proof -
    have "parse_codes (split_on CHR '','' []) = []" by code_simp
    with that show ?thesis by (auto simp only: status_of_text_def Let_def fst_conv split: if_splits)
  qed
  moreover have "list_all (\<lambda>p. \<not> snd (parse_int 32 p)) ps \<longleftrightarrow> parse_codes ps = []" for ps
    by (simp only: parse_codes_empty_iff list_all_iff)
  ultimately show ?thesis by metis
qed

end
