(* ===== verification/Locker_Data.thy ===== *)
theory Locker_Data
  imports Goto_Prelude "HOL-Library.Sublist"
begin

text \<open>
  The data of the registry's lockers: \<open>pkg/registry/locker/locker.go\<close>, types \<open>LockerData\<close>,
  \<open>Locker\<close>, \<open>DataLocker\<close> and \<open>PeerLocker\<close>. A locker is a tree of maps; a node has a value of
  Go's type \<open>any\<close>, sub keys, the two report times and its level. The nil pointer is the constructor
  \<open>LNil\<close>, which is also what a map lookup of a missing key gives. \<open>json.Unmarshal\<close> into a map is
  the argument \<open>isObj\<close>: it says which texts decode to an object, and \<open>DObj t\<close> is the object that
  \<open>t\<close> decodes to. The sub keys of a node are a map that \<open>newLockerData\<close> made: a locker read from
  JSON has a nil map where a node had no sub keys (the field is omitted when it is empty), and storing
  below such a node panics in the code; nodes of loaded lockers are not distinguished here.

  The abstraction of a locker is the partial map from key paths to values, \<open>data_at\<close>; the lemmas
  give \<open>data_at\<close> after a store and after a removal, the well-formedness invariant of lockers, and
  what the views and the trimmed copies show.
\<close>

section \<open>Data\<close>

datatype any_data = DNil | DStr string | DObj string

datatype locker_data =
    LNil
  | LD (ldData: any_data) (ldSubKeys: "(string \<times> locker_data) list")
       (ldFirst: int) (ldLast: int) (ldLevel: int)

type_synonym locker = "(string, locker_data) gomap"

definition newLockerData :: "int \<Rightarrow> int \<Rightarrow> locker_data" where
  "newLockerData now level = LD DNil [] now 0 level"

definition createOrGetLockerData :: "locker \<Rightarrow> string \<Rightarrow> int \<Rightarrow> int \<Rightarrow> locker_data" where
  "createOrGetLockerData locker key now level =
     (case mget_or LNil locker key of LNil \<Rightarrow> newLockerData now level | ld \<Rightarrow> ld)"

section \<open>Store, remove, read\<close>

text \<open>The loop of \<open>unsafeStoreKeysInLocker\<close> goes down the keys; \<open>level\<close> is the level of the first
  of the keys that are left.\<close>

fun store_at :: "int \<Rightarrow> int \<Rightarrow> string list \<Rightarrow> string \<Rightarrow> locker \<Rightarrow> locker" where
  "store_at now level [] value locker = locker"
| "store_at now level (key # keys) value locker =
     (case createOrGetLockerData locker key now level of
        LNil \<Rightarrow> locker
      | LD d sub f l lv \<Rightarrow>
          mput key (if keys = [] then LD (DStr value) sub f now lv
                    else LD d (store_at now (level + 1) keys value sub) f now lv) locker)"

definition unsafeStoreKeysInLocker :: "int \<Rightarrow> locker \<Rightarrow> string list \<Rightarrow> string \<Rightarrow> locker" where
  "unsafeStoreKeysInLocker now locker keys value = store_at now 1 keys value locker"

fun unsafeRemoveSubKeys :: "locker_data \<Rightarrow> string list \<Rightarrow> locker_data" where
  "unsafeRemoveSubKeys LNil keys = LNil"
| "unsafeRemoveSubKeys (LD d sub f l lv) [] = LD d sub f l lv"
| "unsafeRemoveSubKeys (LD d sub f l lv) (currentKey # keys) =
     (case mget_or LNil sub currentKey of
        LNil \<Rightarrow> LD d sub f l lv
      | nextLockerData \<Rightarrow>
          (let next' = unsafeRemoveSubKeys nextLockerData keys in
           if ldSubKeys next' = [] then LD d (mdel currentKey sub) f l lv
           else LD d (mput currentKey next' sub) f l lv))"

definition unsafeRemoveKeysFromLocker :: "locker \<Rightarrow> string list \<Rightarrow> locker" where
  "unsafeRemoveKeysFromLocker locker keys =
     (case keys of
        [] \<Rightarrow> locker
      | rootKey # rest \<Rightarrow>
          (case mget_or LNil locker rootKey of
             LNil \<Rightarrow> locker
           | lockerData \<Rightarrow>
               (let ld' = unsafeRemoveSubKeys lockerData rest in
                if ldSubKeys ld' = [] then mdel rootKey locker else mput rootKey ld' locker)))"

text \<open>The node at a path of keys.\<close>

fun find_node :: "locker \<Rightarrow> string list \<Rightarrow> locker_data" where
  "find_node locker [] = LNil"
| "find_node locker (key # keys) =
     (case mget_or LNil locker key of
        LNil \<Rightarrow> LNil
      | LD d sub f l lv \<Rightarrow> (if keys = [] then LD d sub f l lv else find_node sub keys))"

text \<open>The copies that the views return: at most \<open>level\<close> levels, or with the values replaced.\<close>

function trim_entries :: "nat \<Rightarrow> locker \<Rightarrow> locker" where
  "trim_entries level [] = []"
| "trim_entries level ((key, LNil) # rest) = (key, LNil) # trim_entries level rest"
| "trim_entries level ((key, LD d sub f l lv) # rest) =
     (key, LD (if d \<noteq> DStr [] then d else DNil)
             (if 1 < level then trim_entries (level - 1) sub
              else if sub \<noteq> [] then [(''...'', LNil)] else [])
             f l lv) # trim_entries level rest"
  by pat_completeness auto
termination by (relation "measure (\<lambda>(n, l). size_list (size_prod (\<lambda>_. 0) size) l)") auto

definition unsafeTrimLocker :: "locker \<Rightarrow> locker \<Rightarrow> int \<Rightarrow> locker" where
  "unsafeTrimLocker locker lockerView level =
     (if 0 < level then map_merge lockerView (trim_entries (nat level) locker) else lockerView)"

definition decode_data :: "(string \<Rightarrow> bool) \<Rightarrow> any_data \<Rightarrow> any_data" where
  "decode_data isObj d = (case d of DStr v \<Rightarrow> (if isObj v then DObj v else DStr v) | _ \<Rightarrow> d)"

function view_entries :: "(string \<Rightarrow> bool) \<Rightarrow> bool \<Rightarrow> locker \<Rightarrow> locker" where
  "view_entries isObj data [] = []"
| "view_entries isObj data ((key, LNil) # rest) = (key, LNil) # view_entries isObj data rest"
| "view_entries isObj data ((key, LD d sub f l lv) # rest) =
     (key, LD (if d = DNil then DNil else if data then decode_data isObj d else DStr ''...'')
             (view_entries isObj data sub) f l lv) # view_entries isObj data rest"
  by pat_completeness auto
termination by (relation "measure (\<lambda>(j, d, l). size_list (size_prod (\<lambda>_. 0) size) l)") auto

definition unsafeGetLockerView :: "(string \<Rightarrow> bool) \<Rightarrow> locker \<Rightarrow> locker \<Rightarrow> bool \<Rightarrow> locker" where
  "unsafeGetLockerView isObj locker lockerView data = map_merge lockerView (view_entries isObj data locker)"

datatype read_value = RData any_data | RNode locker_data | REmpty

definition unsafeReadKeys ::
  "(string \<Rightarrow> bool) \<Rightarrow> locker \<Rightarrow> string list \<Rightarrow> bool \<Rightarrow> int \<Rightarrow> read_value \<times> bool \<times> bool" where
  "unsafeReadKeys isObj locker keys data level =
     (case find_node locker keys of
        LNil \<Rightarrow> (REmpty, False, False)
      | LD d sub f l lv \<Rightarrow>
          (if d \<noteq> DStr [] then (RData d, True, True)
           else if \<not> data \<or> 0 < level then
             (let view = (if 0 < level then unsafeTrimLocker sub [] level else []);
                  view = (if \<not> data then unsafeGetLockerView isObj sub view data else view)
              in (RNode (LD DNil view f l lv), True, False))
           else (RNode (LD d sub f l lv), True, False)))"

section \<open>Paths\<close>

text \<open>\<open>pattern\<close> is the search expression as a predicate on keys, \<open>None\<close> for nil. The keys that the
  search leaves out are the events key and those the pattern does not match.\<close>

definition skip_key :: "(string \<Rightarrow> bool) option \<Rightarrow> string \<Rightarrow> bool" where
  "skip_key pattern key \<longleftrightarrow>
     key = ''events'' \<or> (case pattern of None \<Rightarrow> False | Some p \<Rightarrow> \<not> p key)"

definition path_of :: "string \<Rightarrow> bool \<Rightarrow> string \<Rightarrow> string" where
  "path_of pathPrefix isTop key = (if isTop then pathPrefix @ key else pathPrefix @ '','' @ key)"

function flat_paths :: "(string \<Rightarrow> bool) option \<Rightarrow> string \<Rightarrow> bool \<Rightarrow> locker \<Rightarrow> string list" where
  "flat_paths pattern pathPrefix isTop [] = []"
| "flat_paths pattern pathPrefix isTop ((key, LNil) # rest) = flat_paths pattern pathPrefix isTop rest"
| "flat_paths pattern pathPrefix isTop ((key, LD d sub f l lv) # rest) =
     (if skip_key pattern key then []
      else (if d \<noteq> DStr [] then [path_of pathPrefix isTop key] else []) @
           flat_paths pattern (path_of pathPrefix isTop key) False sub) @
     flat_paths pattern pathPrefix isTop rest"
  by pat_completeness auto
termination by (relation "measure (\<lambda>(p, s, t, l). size_list (size_prod (\<lambda>_. 0) size) l)") auto

datatype path_tree = PLeaf string | PMap "(string \<times> path_tree) list"

function tree_paths ::
  "(string \<Rightarrow> bool) option \<Rightarrow> string \<Rightarrow> bool \<Rightarrow> locker \<Rightarrow> (string, path_tree) gomap" where
  "tree_paths pattern pathPrefix isTop [] = []"
| "tree_paths pattern pathPrefix isTop ((key, LNil) # rest) = tree_paths pattern pathPrefix isTop rest"
| "tree_paths pattern pathPrefix isTop ((key, LD d sub f l lv) # rest) =
     (if skip_key pattern key then []
      else
        let current = path_of pathPrefix isTop key;
            subKeys = tree_paths pattern current False sub
        in if subKeys \<noteq> [] then
             [(key, PMap (if d \<noteq> DStr [] then mput ''.'' (PLeaf current) subKeys else subKeys))]
           else if d \<noteq> DStr [] then [(key, PLeaf current)] else []) @
     tree_paths pattern pathPrefix isTop rest"
  by pat_completeness auto
termination by (relation "measure (\<lambda>(p, s, t, l). size_list (size_prod (\<lambda>_. 0) size) l)") auto

datatype found_paths = NoPaths | FlatPaths "string list" | TreePaths "(string, path_tree) gomap"

definition unsafeSearchOrGetPaths ::
  "locker \<Rightarrow> string \<Rightarrow> bool \<Rightarrow> bool \<Rightarrow> (string \<Rightarrow> bool) option \<Rightarrow> found_paths" where
  "unsafeSearchOrGetPaths locker pathPrefix isTop flat pattern =
     (if list_all (\<lambda>(key, ld). skip_key pattern key \<or> ld = LNil) locker then NoPaths
      else if flat then FlatPaths (flat_paths pattern pathPrefix isTop locker)
      else TreePaths (tree_paths pattern pathPrefix isTop locker))"

section \<open>Data lockers and peer lockers\<close>

record data_locker =
  dlLocker :: locker
  dlActive :: bool

definition newDataLocker :: data_locker where
  "newDataLocker = \<lparr>dlLocker = [], dlActive = True\<rparr>"

definition dl_Store :: "int \<Rightarrow> string list \<Rightarrow> string \<Rightarrow> data_locker \<Rightarrow> data_locker" where
  "dl_Store now keys value dl =
     (if keys = [] then dl else dl\<lparr>dlLocker := unsafeStoreKeysInLocker now (dlLocker dl) keys value\<rparr>)"

definition dl_Remove :: "string list \<Rightarrow> data_locker \<Rightarrow> data_locker" where
  "dl_Remove keys dl = dl\<lparr>dlLocker := unsafeRemoveKeysFromLocker (dlLocker dl) keys\<rparr>"

definition dl_Get ::
  "(string \<Rightarrow> bool) \<Rightarrow> string list \<Rightarrow> bool \<Rightarrow> int \<Rightarrow> data_locker \<Rightarrow> read_value \<times> bool \<times> bool" where
  "dl_Get isObj keys data level dl = unsafeReadKeys isObj (dlLocker dl) keys data level"

definition dl_Trim :: "int \<Rightarrow> data_locker \<Rightarrow> data_locker" where
  "dl_Trim level dl = \<lparr>dlLocker = unsafeTrimLocker (dlLocker dl) [] level, dlActive = dlActive dl\<rparr>"

definition dl_Deactivate :: "data_locker \<Rightarrow> data_locker" where
  "dl_Deactivate dl = dl\<lparr>dlActive := False\<rparr>"

record peer_locker =
  plDataLocker :: data_locker
  InstanceLockers :: "(string, data_locker) gomap"

definition newPeerLocker :: peer_locker where
  "newPeerLocker = \<lparr>plDataLocker = newDataLocker, InstanceLockers = []\<rparr>"

definition pl_createOrGetInstanceLocker :: "string \<Rightarrow> peer_locker \<Rightarrow> peer_locker \<times> data_locker" where
  "pl_createOrGetInstanceLocker peerAddress pl =
     (case mget (InstanceLockers pl) peerAddress of
        Some il \<Rightarrow> (pl, il)
      | None \<Rightarrow>
          (pl\<lparr>InstanceLockers := mput peerAddress newDataLocker (InstanceLockers pl)\<rparr>, newDataLocker))"

definition clearInstanceLocker :: "string \<Rightarrow> peer_locker \<Rightarrow> peer_locker \<times> bool" where
  "clearInstanceLocker peerAddress pl =
     (case mget (InstanceLockers pl) peerAddress of
        Some il \<Rightarrow> (pl\<lparr>InstanceLockers := mput peerAddress newDataLocker (InstanceLockers pl)\<rparr>, True)
      | None \<Rightarrow> (pl, False))"

definition removeInstanceLocker :: "string \<Rightarrow> peer_locker \<Rightarrow> peer_locker" where
  "removeInstanceLocker peerAddress pl =
     pl\<lparr>InstanceLockers := mdel peerAddress (InstanceLockers pl)\<rparr>"

definition pl_Store :: "int \<Rightarrow> string list \<Rightarrow> string \<Rightarrow> peer_locker \<Rightarrow> peer_locker" where
  "pl_Store now keys value pl = pl\<lparr>plDataLocker := dl_Store now keys value (plDataLocker pl)\<rparr>"

definition pl_Remove :: "string list \<Rightarrow> peer_locker \<Rightarrow> peer_locker" where
  "pl_Remove keys pl = pl\<lparr>plDataLocker := dl_Remove keys (plDataLocker pl)\<rparr>"

definition pl_GetLockerWithoutEvents :: "peer_locker \<Rightarrow> peer_locker" where
  "pl_GetLockerWithoutEvents pl =
     \<lparr>plDataLocker = \<lparr>dlLocker = filter (\<lambda>(k, ld). k \<noteq> ''events'') (dlLocker (plDataLocker pl)),
                      dlActive = dlActive (plDataLocker pl)\<rparr>,
      InstanceLockers = InstanceLockers pl\<rparr>"

definition pl_GetLockerView :: "(string \<Rightarrow> bool) \<Rightarrow> bool \<Rightarrow> bool \<Rightarrow> peer_locker \<Rightarrow> peer_locker" where
  "pl_GetLockerView isObj data events pl =
     (let view = unsafeGetLockerView isObj (dlLocker (plDataLocker pl)) [] data;
          view = (if \<not> events then mdel ''events'' view else view)
      in \<lparr>plDataLocker = \<lparr>dlLocker = view, dlActive = dlActive (plDataLocker pl)\<rparr>,
          InstanceLockers =
            map (\<lambda>(address, il).
               (address, \<lparr>dlLocker = unsafeGetLockerView isObj (dlLocker il) [] data, dlActive = dlActive il\<rparr>))
              (InstanceLockers pl)\<rparr>)"

definition pl_Trim :: "int \<Rightarrow> peer_locker \<Rightarrow> peer_locker" where
  "pl_Trim level pl =
     \<lparr>plDataLocker = dl_Trim level (plDataLocker pl),
      InstanceLockers = map (\<lambda>(address, il). (address, dl_Trim level il)) (InstanceLockers pl)\<rparr>"

definition pl_SearchOrGetDataLockerPaths ::
  "string \<Rightarrow> (string \<Rightarrow> bool) option \<Rightarrow> peer_locker \<Rightarrow> found_paths" where
  "pl_SearchOrGetDataLockerPaths uriPrefix pattern pl =
     unsafeSearchOrGetPaths (dlLocker (plDataLocker pl)) uriPrefix True (uriPrefix = []) pattern"

section \<open>A locker as a map from paths to values\<close>

definition data_at :: "locker \<Rightarrow> string list \<Rightarrow> any_data option" where
  "data_at locker keys = (case find_node locker keys of LNil \<Rightarrow> None | LD d sub f l lv \<Rightarrow> Some d)"

lemma data_at_Nil [simp]: "data_at l [] = None"
  by (simp add: data_at_def)

lemma data_at_empty [simp]: "data_at [] ks = None"
  by (cases ks) (simp_all add: data_at_def)

lemma data_at_Cons:
  "data_at l (k # ks) =
   (case mget_or LNil l k of
      LNil \<Rightarrow> None | LD d sub f la lv \<Rightarrow> (if ks = [] then Some d else data_at sub ks))"
  by (simp add: data_at_def split: locker_data.splits)

lemma createOrGet_LD: "createOrGetLockerData l k now lv \<noteq> LNil"
  by (simp add: createOrGetLockerData_def newLockerData_def split: locker_data.splits)

text \<open>Storing a value changes the value at its path, creates the missing nodes above it with a nil
  value, and changes nothing else.\<close>

lemma data_at_store:
  "data_at (store_at now lv keys v l) ks =
   (if keys \<noteq> [] \<and> ks = keys then Some (DStr v)
    else if ks \<noteq> [] \<and> strict_prefix ks keys \<and> data_at l ks = None then Some DNil
    else data_at l ks)"
proof (induction keys arbitrary: lv l ks)
  case (Cons k keys)
  obtain d sub f la v' where n: "createOrGetLockerData l k now lv = LD d sub f la v'"
    using createOrGet_LD [of l k now lv] by (cases "createOrGetLockerData l k now lv") auto
  have old: "(mget_or LNil l k = LNil \<and> d = DNil \<and> sub = []) \<or> mget_or LNil l k = LD d sub f la v'"
    using n by (auto simp: createOrGetLockerData_def newLockerData_def split: locker_data.splits)
  show ?case
  proof (cases ks)
    case (Cons k' ks')
    show ?thesis
    proof (cases "k' = k")
      case False
      with Cons n show ?thesis by (simp add: data_at_Cons)
    next
      case True
      with Cons n old show ?thesis
        by (auto simp: data_at_Cons Cons.IH strict_prefix_def)
    qed
  qed simp
qed simp

section \<open>Well-formed lockers\<close>

text \<open>No key twice, no nil node, and every node knows its level.\<close>

function locker_wf :: "int \<Rightarrow> locker \<Rightarrow> bool" where
  "locker_wf level [] = True"
| "locker_wf level ((key, LNil) # rest) = False"
| "locker_wf level ((key, LD d sub f l lv) # rest) =
     (mget rest key = None \<and> lv = level \<and> locker_wf (level + 1) sub \<and> locker_wf level rest)"
  by pat_completeness auto
termination by (relation "measure (\<lambda>(n, l). size_list (size_prod (\<lambda>_. 0) size) l)") auto

lemma locker_wf_Cons:
  "locker_wf lv ((k, n) # l) \<longleftrightarrow>
   (\<exists>d sub f la. n = LD d sub f la lv \<and> locker_wf (lv + 1) sub) \<and> mget l k = None \<and> locker_wf lv l"
  by (cases n) auto

lemma locker_wf_get:
  "locker_wf lv l \<Longrightarrow> mget l k = Some n \<Longrightarrow> \<exists>d sub f la. n = LD d sub f la lv \<and> locker_wf (lv + 1) sub"
  by (induction l) (auto simp: locker_wf_Cons split: if_splits)

lemma locker_wf_put:
  "locker_wf lv l \<Longrightarrow> locker_wf (lv + 1) sub \<Longrightarrow> locker_wf lv (mput k (LD d sub f la lv) l)"
  by (induction l) (auto simp: locker_wf_Cons)

lemma locker_wf_del: "locker_wf lv l \<Longrightarrow> locker_wf lv (mdel k l)"
  by (induction l) (auto simp: locker_wf_Cons)

lemma locker_wf_store: "locker_wf lv l \<Longrightarrow> locker_wf lv (store_at now lv keys v l)"
proof (induction keys arbitrary: lv l)
  case (Cons k keys)
  have "\<exists>d sub f la. createOrGetLockerData l k now lv = LD d sub f la lv \<and> locker_wf (lv + 1) sub"
    using locker_wf_get [OF Cons.prems, of k]
    by (cases "mget l k") (auto simp: createOrGetLockerData_def newLockerData_def mget_or_def)
  then obtain d sub f la where "createOrGetLockerData l k now lv = LD d sub f la lv" "locker_wf (lv + 1) sub"
    by blast
  with Cons show ?case by (auto intro!: locker_wf_put)
qed simp

lemma remove_node: "unsafeRemoveSubKeys (LD d sub f la lv) keys = LD d (unsafeRemoveKeysFromLocker sub keys) f la lv"
  by (cases keys) (auto simp: unsafeRemoveKeysFromLocker_def Let_def split: locker_data.splits)

lemma remove_Nil [simp]: "unsafeRemoveKeysFromLocker l [] = l"
  by (simp add: unsafeRemoveKeysFromLocker_def)

lemma remove_Cons:
  "unsafeRemoveKeysFromLocker l (k # ks) =
   (case mget_or LNil l k of
      LNil \<Rightarrow> l
    | LD d sub f la lv \<Rightarrow>
        (if unsafeRemoveKeysFromLocker sub ks = [] then mdel k l
         else mput k (LD d (unsafeRemoveKeysFromLocker sub ks) f la lv) l))"
  by (simp add: unsafeRemoveKeysFromLocker_def [of l "k # ks"] remove_node split: locker_data.splits)

lemma locker_wf_remove: "locker_wf lv l \<Longrightarrow> locker_wf lv (unsafeRemoveKeysFromLocker l keys)"
proof (induction keys arbitrary: lv l)
  case (Cons k keys)
  then show ?case
    using locker_wf_get [OF Cons.prems, of k]
    by (cases "mget l k") (auto simp: remove_Cons mget_or_def intro!: locker_wf_put locker_wf_del)
qed simp

section \<open>What a removal removes\<close>

lemma wf_has_path:
  assumes "locker_wf lv l" and "(k, n) \<in> set l"
  shows "data_at l [k] \<noteq> None"
proof -
  obtain m where m: "mget l k = Some m"
    using assms(2) by (metis map_of_eq_None_iff fst_conv image_eqI not_None_eq)
  from locker_wf_get [OF assms(1) m] m show ?thesis by (auto simp: data_at_Cons mget_or_def)
qed

lemma remove_empty_iff:
  "locker_wf lv l \<Longrightarrow>
   unsafeRemoveKeysFromLocker l keys = [] \<longleftrightarrow> (\<forall>p. data_at l p \<noteq> None \<longrightarrow> prefix p keys)"
proof (induction keys arbitrary: lv l)
  case Nil
  show ?case
  proof (cases l)
    case (Cons e l')
    then have "data_at l [fst e] \<noteq> None" using wf_has_path [OF Nil, of "fst e" "snd e"] by simp
    with Cons show ?thesis by auto
  qed simp
next
  case (Cons k keys)
  have others: "(\<forall>p. data_at l p \<noteq> None \<longrightarrow> prefix p (k # keys)) \<Longrightarrow> fst ` set l \<subseteq> {k}"
    using wf_has_path [OF Cons.prems] by fastforce
  show ?case
  proof (cases "mget l k")
    case None
    then have "k \<notin> fst ` set l" by (simp add: map_of_eq_None_iff)
    with None others show ?thesis by (cases l) (auto simp: remove_Cons mget_or_def)
  next
    case (Some n)
    then obtain d sub f la where n: "mget_or LNil l k = LD d sub f la lv" and wf: "locker_wf (lv + 1) sub"
      using locker_wf_get [OF Cons.prems Some] by (auto simp: mget_or_def)
    have sub: "data_at l (k # p) = (if p = [] then Some d else data_at sub p)" for p
      by (simp add: data_at_Cons n)
    show ?thesis
    proof (cases "unsafeRemoveKeysFromLocker sub keys = []")
      case True
      then have "\<forall>p. data_at sub p \<noteq> None \<longrightarrow> prefix p keys" using Cons.IH [OF wf] by simp
      then have on: "prefix (k # q) (k # keys)" if "data_at l (k # q) \<noteq> None" for q
        using that by (cases "q = []") (simp_all add: sub)
      have "prefix p (k # keys)" if only: "fst ` set l \<subseteq> {k}" and p: "data_at l p \<noteq> None" for p
      proof (cases p)
        case (Cons k' q)
        with p have "mget l k' \<noteq> None" by (auto simp: data_at_Cons mget_or_def split: option.splits)
        with only have "k' = k" by (auto simp: map_of_eq_None_iff)
        with p Cons on show ?thesis by blast
      qed simp
      then have "(\<forall>p. data_at l p \<noteq> None \<longrightarrow> prefix p (k # keys)) \<longleftrightarrow> fst ` set l \<subseteq> {k}"
        using others by blast
      with n True show ?thesis by (simp add: remove_Cons mdel_Nil_iff)
    next
      case False
      then obtain p where p: "data_at sub p \<noteq> None" "\<not> prefix p keys" using Cons.IH [OF wf] by auto
      then have "data_at l (k # p) \<noteq> None" "\<not> prefix (k # p) (k # keys)" using sub by auto
      moreover have "mput k m l \<noteq> []" for m by (cases l) auto
      ultimately show ?thesis using n False by (auto simp: remove_Cons)
    qed
  qed
qed

text \<open>The nodes a removal deletes: a node on the path whose whole subtree is on the path.\<close>

definition only_path :: "locker \<Rightarrow> string list \<Rightarrow> string list \<Rightarrow> bool" where
  "only_path l keys ks \<longleftrightarrow>
     ks \<noteq> [] \<and> prefix ks keys \<and> (\<forall>p. prefix ks p \<and> data_at l p \<noteq> None \<longrightarrow> prefix p keys)"

lemma only_path_Cons:
  "only_path l (k # keys) (k # q) \<longleftrightarrow>
   prefix q keys \<and> (\<forall>p. prefix q p \<and> data_at l (k # p) \<noteq> None \<longrightarrow> prefix p keys)"
proof -
  have "prefix (k # q) p \<longleftrightarrow> (\<exists>p'. p = k # p' \<and> prefix q p')" for p by (cases p) auto
  then show ?thesis by (auto simp: only_path_def)
qed

lemma data_at_remove:
  "locker_wf lv l \<Longrightarrow>
   data_at (unsafeRemoveKeysFromLocker l keys) ks = (if only_path l keys ks then None else data_at l ks)"
proof (induction keys arbitrary: lv l ks)
  case Nil
  then show ?case by (simp add: only_path_def)
next
  case (Cons k keys)
  show ?case
  proof (cases "mget l k")
    case None
    then have "data_at l ks = None" if "prefix ks (k # keys)" for ks
      using that by (cases ks) (auto simp: data_at_Cons mget_or_def)
    with None show ?thesis by (auto simp: remove_Cons mget_or_def only_path_def)
  next
    case (Some n)
    then obtain d sub f la where n: "mget_or LNil l k = LD d sub f la lv" and wf: "locker_wf (lv + 1) sub"
      using locker_wf_get [OF Cons.prems Some] by (auto simp: mget_or_def)
    have sub: "data_at l (k # p) = (if p = [] then Some d else data_at sub p)" for p
      by (simp add: data_at_Cons n)
    have root: "only_path l (k # keys) [k] \<longleftrightarrow> unsafeRemoveKeysFromLocker sub keys = []"
    proof -
      have "only_path l (k # keys) [k] \<longleftrightarrow> (\<forall>p. data_at sub p \<noteq> None \<longrightarrow> prefix p keys)"
        using data_at_Nil [of sub] by (auto simp: only_path_Cons sub) (metis Nil_prefix option.distinct(1))
      then show ?thesis using remove_empty_iff [OF wf] by simp
    qed
    have deep: "only_path l (k # keys) (k # q) \<longleftrightarrow> only_path sub keys q" if "q \<noteq> []" for q
      using that data_at_Nil [of sub]
      by (auto simp: only_path_Cons sub only_path_def [of sub]) (metis prefix_Nil)
    show ?thesis
    proof (cases ks)
      case (Cons k' ks')
      show ?thesis
      proof (cases "k' = k")
        case False
        with Cons n show ?thesis by (auto simp: remove_Cons data_at_Cons only_path_def)
      next
        case True
        show ?thesis
        proof (cases "unsafeRemoveKeysFromLocker sub keys = []")
          case empty: True
          have "data_at l (k # q) = None \<or> only_path l (k # keys) (k # q)" for q
            using root empty sub [of q] Cons.IH [OF wf, of q] deep [of q]
            by (cases "q = []") (auto split: if_splits)
          moreover have "data_at (mdel k l) (k # q) = None" for q
            by (simp add: data_at_Cons)
          ultimately show ?thesis using empty True Cons n by (simp add: remove_Cons) metis
        next
          case False
          with True Cons n root show ?thesis
            by (auto simp: remove_Cons data_at_Cons Cons.IH [OF wf] deep)
        qed
      qed
    qed (simp add: only_path_def)
  qed
qed

section \<open>Views\<close>

lemma mget_view_entries:
  "mget_or LNil (view_entries j b l) k =
   (case mget_or LNil l k of
      LNil \<Rightarrow> LNil
    | LD d sub f la lv \<Rightarrow>
        LD (if d = DNil then DNil else if b then decode_data j d else DStr ''...'') (view_entries j b sub) f la lv)"
  by (induction j b l rule: view_entries.induct) (auto simp: mget_or_def split: option.splits)

lemma data_at_view:
  "data_at (view_entries j b l) ks =
   map_option (\<lambda>d. if d = DNil then DNil else if b then decode_data j d else DStr ''...'') (data_at l ks)"
proof (induction ks arbitrary: l)
  case (Cons k ks)
  then show ?case by (auto simp: data_at_Cons mget_view_entries split: locker_data.splits)
qed simp

lemma mget_trim_entries:
  "mget_or LNil (trim_entries n l) k =
   (case mget_or LNil l k of
      LNil \<Rightarrow> LNil
    | LD d sub f la lv \<Rightarrow>
        LD (if d \<noteq> DStr [] then d else DNil)
           (if 1 < n then trim_entries (n - 1) sub else if sub \<noteq> [] then [(''...'', LNil)] else []) f la lv)"
  by (induction n l rule: trim_entries.induct) (auto simp: mget_or_def split: option.splits)

lemma data_at_trim:
  "0 < n \<Longrightarrow> data_at (trim_entries n l) ks =
   (if length ks \<le> n then map_option (\<lambda>d. if d \<noteq> DStr [] then d else DNil) (data_at l ks) else None)"
proof (induction ks arbitrary: n l)
  case (Cons k ks)
  have marker: "data_at [(''...'', LNil)] q = None" for q
    by (cases q) (auto simp: data_at_Cons mget_or_def)
  show ?case
  proof (cases "1 < n")
    case True
    then have "length ks \<le> n - 1 \<longleftrightarrow> length (k # ks) \<le> n" by auto
    with True Cons.IH [of "n - 1"] show ?thesis
      by (auto simp: data_at_Cons mget_trim_entries split: locker_data.splits)
  next
    case False
    with Cons.prems have "n = 1" by simp
    then show ?thesis
      by (cases "ks = []")
        (auto simp: data_at_Cons [of _ k] mget_trim_entries marker split: locker_data.splits)
  qed
qed simp

section \<open>Sequences of updates\<close>

datatype locker_op = StoreOp int "string list" string | RemoveOp "string list"

fun apply_op :: "locker_op \<Rightarrow> locker \<Rightarrow> locker" where
  "apply_op (StoreOp now keys value) l = unsafeStoreKeysInLocker now l keys value"
| "apply_op (RemoveOp keys) l = unsafeRemoveKeysFromLocker l keys"

lemma apply_op_wf: "locker_wf 1 l \<Longrightarrow> locker_wf 1 (apply_op oper l)"
  by (cases oper) (simp_all add: unsafeStoreKeysInLocker_def locker_wf_store locker_wf_remove)

section \<open>Properties\<close>

text \<open>C2: storing a value under a path of keys sets the value at exactly that path. The nodes above it
  that were missing come into being with a nil value, and every other path keeps its value.\<close>

theorem store_spec:
  assumes "keys \<noteq> []"
  shows "data_at (unsafeStoreKeysInLocker now l keys v) ks =
     (if ks = keys then Some (DStr v)
      else if ks \<noteq> [] \<and> strict_prefix ks keys \<and> data_at l ks = None then Some DNil
      else data_at l ks)"
  using assms by (simp add: unsafeStoreKeysInLocker_def data_at_store)

theorem store_spec_witness:
  "data_at (unsafeStoreKeysInLocker 5 [] [''a'', ''b''] ''x'') [''a''] =
     (if [''a''] = [''a'', ''b''] then Some (DStr ''x'')
      else if [''a''] \<noteq> [] \<and> strict_prefix [''a''] [''a'', ''b''] \<and> data_at [] [''a''] = None then Some DNil
      else data_at [] [''a''])"
  by (rule store_spec) simp

text \<open>C3: removing a path of keys deletes exactly the nodes on the path whose whole subtree lies on the
  path, with their values; every other value is kept. In particular a key that has other sub keys is
  not removed, and a key above the path goes with its value when nothing else is below it.\<close>

theorem remove_spec:
  assumes "locker_wf 1 l"
  shows "data_at (unsafeRemoveKeysFromLocker l keys) ks =
     (if ks \<noteq> [] \<and> prefix ks keys \<and> (\<forall>p. prefix ks p \<and> data_at l p \<noteq> None \<longrightarrow> prefix p keys)
      then None else data_at l ks)"
  using data_at_remove [OF assms, of keys ks] by (simp only: only_path_def)

theorem remove_spec_witness:
  "data_at (unsafeRemoveKeysFromLocker
       (unsafeStoreKeysInLocker 5 [] [''a''] ''x'') [''a'', ''b'']) [''a''] =
     (if [''a''] \<noteq> [] \<and> prefix [''a''] [''a'', ''b''] \<and>
         (\<forall>p. prefix [''a''] p \<and> data_at (unsafeStoreKeysInLocker 5 [] [''a''] ''x'') p \<noteq> None \<longrightarrow>
              prefix p [''a'', ''b''])
      then None else data_at (unsafeStoreKeysInLocker 5 [] [''a''] ''x'') [''a''])"
  by (rule remove_spec) (simp add: unsafeStoreKeysInLocker_def createOrGetLockerData_def newLockerData_def)

text \<open>Every locker that stores and removals build from an empty one is well-formed: no key occurs
  twice in a map, no node is nil, and each node records its depth as its level.\<close>

theorem locker_always_wf: "locker_wf 1 (fold apply_op ops [])"
proof -
  have "locker_wf 1 l \<Longrightarrow> locker_wf 1 (fold apply_op ops l)" for l
    by (induction ops arbitrary: l) (auto simp: apply_op_wf)
  then show ?thesis by simp
qed

text \<open>Reading a key above a stored path, where nothing was stored, reports data at the key although
  the value is nil: the test for an empty value compares with the empty text, which nil is not.\<close>

theorem read_inner_key:
  assumes "ks \<noteq> []" and "strict_prefix ks keys" and "data_at l ks = None"
  shows "unsafeReadKeys isObj (unsafeStoreKeysInLocker now l keys v) ks data level = (RData DNil, True, True)"
proof -
  have "keys \<noteq> []" "ks \<noteq> keys" using assms by auto
  then have "data_at (unsafeStoreKeysInLocker now l keys v) ks = Some DNil"
    using assms by (simp add: unsafeStoreKeysInLocker_def data_at_store)
  then show ?thesis by (auto simp: data_at_def unsafeReadKeys_def split: locker_data.splits)
qed

theorem read_inner_key_witness:
  "unsafeReadKeys (\<lambda>s. False) (unsafeStoreKeysInLocker 5 [] [''a'', ''b''] ''x'') [''a''] True 0 =
     (RData DNil, True, True)"
  by (rule read_inner_key) simp_all

text \<open>What the copies of a locker show. A view has the same paths as the locker, with every value
  hidden unless data is asked for; a copy trimmed to \<open>n\<close> levels has exactly the values at the
  paths of at most \<open>n\<close> keys.\<close>

theorem locker_copies:
  "data_at (view_entries isObj data l) ks =
     map_option (\<lambda>d. if d = DNil then DNil else if data then decode_data isObj d else DStr ''...'')
       (data_at l ks) \<and>
   data_at (trim_entries (Suc n) l) ks =
     (if length ks \<le> Suc n then map_option (\<lambda>d. if d \<noteq> DStr [] then d else DNil) (data_at l ks) else None)"
  by (simp add: data_at_view data_at_trim)

end
