(* ===== verification/Locker_Combi.thy ===== *)
theory Locker_Combi
  imports Locker_Data Util_Params "HOL-Library.Multiset"
begin

text \<open>
  Labeled lockers: \<open>pkg/registry/locker/locker.go\<close>, types \<open>CombiLocker\<close>, \<open>LabeledLockers\<close> and
  \<open>ContextLockers\<close>, and the handlers of \<open>pkg/registry/lockerApi.go\<close> that change them. Combi
  lockers point to their parent and to their sub lockers, the labeled lockers keep an index of all
  lockers by path label and a pointer to the current one, and a locker that was removed may still be
  the current one: the lockers are therefore kept in a heap, \<open>llHeap\<close>, and pointers are addresses.
  A nil dereference is \<open>None\<close>. The recursion of \<open>deleteLocker\<close> is a \<open>partial_function\<close>, so a
  cycle of lockers would be \<open>None\<close> too; the lemmas prove that it ends.

  The invariant \<open>index_ok\<close> says that the flat index and the tree agree: looking up a path label gives
  the locker that is found by walking down the labels from the top lockers.
\<close>

section \<open>Combi lockers\<close>

record combi_locker =
  clLabel :: string
  clPathLabel :: string
  clPeerLockers :: "(string, peer_locker) gomap"
  clDataLocker :: data_locker
  SubLockers :: "(string, nat) gomap"
  clCurrent :: bool
  FirstOpened :: int
  LastOpened :: int
  clParent :: "nat option"

record labeled_lockers =
  llHeap :: "(nat, combi_locker) gomap"
  llNext :: nat
  llLockers :: "(string, nat) gomap"
  allLockers :: "(string, nat) gomap"
  currentLocker :: "nat option"

definition upd_cl :: "nat \<Rightarrow> (combi_locker \<Rightarrow> combi_locker) \<Rightarrow> labeled_lockers \<Rightarrow> labeled_lockers" where
  "upd_cl a f ll =
     (case mget (llHeap ll) a of None \<Rightarrow> ll | Some c \<Rightarrow> ll\<lparr>llHeap := mput a (f c) (llHeap ll)\<rparr>)"

text \<open>The zero time is 0.\<close>

definition cl_Open :: "int \<Rightarrow> combi_locker \<Rightarrow> combi_locker" where
  "cl_Open now cl =
     (if clCurrent cl then cl
      else cl\<lparr>FirstOpened := (if FirstOpened cl = 0 then now else FirstOpened cl), LastOpened := now, clCurrent := True\<rparr>)"

definition cl_Init :: "int \<Rightarrow> combi_locker \<Rightarrow> combi_locker" where
  "cl_Init now cl = cl_Open now (cl\<lparr>clPeerLockers := [], clDataLocker := newDataLocker, SubLockers := []\<rparr>)"

text \<open>\<open>NewCombiLocker\<close>: the parent is given with its path label.\<close>

definition NewCombiLocker :: "int \<Rightarrow> string \<Rightarrow> (nat \<times> string) option \<Rightarrow> combi_locker" where
  "NewCombiLocker now label parent =
     cl_Init now
       \<lparr>clLabel = label,
        clPathLabel = (case parent of None \<Rightarrow> label | Some (p, pathLabel) \<Rightarrow> pathLabel @ '','' @ label),
        clPeerLockers = [], clDataLocker = newDataLocker, SubLockers = [], clCurrent = False,
        FirstOpened = 0, LastOpened = 0, clParent = map_option fst parent\<rparr>"

definition InitPeerLocker :: "string \<Rightarrow> string \<Rightarrow> combi_locker \<Rightarrow> combi_locker" where
  "InitPeerLocker peerName peerAddress cl =
     (if peerName \<noteq> [] then
        (let peerName = ToLower peerName;
             pls = (if peerAddress = [] \<or> mget (clPeerLockers cl) peerName = None
                    then mput peerName newPeerLocker (clPeerLockers cl) else clPeerLockers cl)
         in cl\<lparr>clPeerLockers :=
                 (if peerAddress \<noteq> []
                  then mput peerName (fst (clearInstanceLocker peerAddress (mget_or newPeerLocker pls peerName))) pls
                  else pls)\<rparr>)
      else cl\<lparr>clPeerLockers := []\<rparr>)"

definition createOrGetPeerLocker :: "string \<Rightarrow> combi_locker \<Rightarrow> combi_locker \<times> peer_locker" where
  "createOrGetPeerLocker peerName cl =
     (let peerName = ToLower peerName in
      case mget (clPeerLockers cl) peerName of
        Some pl \<Rightarrow> (cl, pl)
      | None \<Rightarrow> (cl\<lparr>clPeerLockers := mput peerName newPeerLocker (clPeerLockers cl)\<rparr>, newPeerLocker))"

definition upd_peer :: "string \<Rightarrow> (peer_locker \<Rightarrow> peer_locker) \<Rightarrow> combi_locker \<Rightarrow> combi_locker" where
  "upd_peer peerName f cl =
     (let (cl, pl) = createOrGetPeerLocker peerName cl
      in cl\<lparr>clPeerLockers := mput (ToLower peerName) (f pl) (clPeerLockers cl)\<rparr>)"

definition upd_instance :: "string \<Rightarrow> (data_locker \<Rightarrow> data_locker) \<Rightarrow> peer_locker \<Rightarrow> peer_locker" where
  "upd_instance peerAddress f pl =
     (let (pl, il) = pl_createOrGetInstanceLocker peerAddress pl
      in pl\<lparr>InstanceLockers := mput peerAddress (f il) (InstanceLockers pl)\<rparr>)"

definition DeactivateInstanceLocker :: "string \<Rightarrow> string \<Rightarrow> combi_locker \<Rightarrow> combi_locker" where
  "DeactivateInstanceLocker peerName peerAddress cl =
     upd_peer peerName (upd_instance peerAddress dl_Deactivate) cl"

definition StorePeerData :: "int \<Rightarrow> string \<Rightarrow> string \<Rightarrow> string list \<Rightarrow> string \<Rightarrow> combi_locker \<Rightarrow> combi_locker" where
  "StorePeerData now peerName peerAddress keys val cl =
     (if keys = [] then cl
      else if peerAddress = [] then upd_peer peerName (pl_Store now keys val) cl
      else upd_peer peerName (upd_instance peerAddress (dl_Store now keys val)) cl)"

definition RemovePeerData :: "string \<Rightarrow> string \<Rightarrow> string list \<Rightarrow> combi_locker \<Rightarrow> combi_locker" where
  "RemovePeerData peerName peerAddress keys cl =
     (if keys = [] then cl
      else if peerAddress = [] then upd_peer peerName (pl_Remove keys) cl
      else upd_peer peerName (upd_instance peerAddress (dl_Remove keys)) cl)"

definition cl_Store :: "int \<Rightarrow> string list \<Rightarrow> string \<Rightarrow> combi_locker \<Rightarrow> combi_locker" where
  "cl_Store now keys val cl = cl\<lparr>clDataLocker := dl_Store now keys val (clDataLocker cl)\<rparr>"

definition cl_Remove :: "string list \<Rightarrow> combi_locker \<Rightarrow> combi_locker" where
  "cl_Remove keys cl = cl\<lparr>clDataLocker := dl_Remove keys (clDataLocker cl)\<rparr>"

text \<open>\<open>Get\<close> wraps a node that is found in a map from the joined path to it; the flag says so.\<close>

definition cl_Get ::
  "(string \<Rightarrow> bool) \<Rightarrow> string list \<Rightarrow> bool \<Rightarrow> int \<Rightarrow> combi_locker \<Rightarrow> (read_value \<times> bool) option \<times> bool \<times> bool" where
  "cl_Get isObj keys data level cl =
     (if keys = [] then (None, False, False)
      else case dl_Get isObj keys data level (clDataLocker cl) of
             (result, present, dataAtKey) \<Rightarrow>
               (if dataAtKey then (Some (result, False), present, dataAtKey)
                else if present then (Some (result, True), True, False)
                else (None, False, False)))"

definition cl_ClearInstanceLocker :: "string \<Rightarrow> string \<Rightarrow> combi_locker \<Rightarrow> combi_locker \<times> bool" where
  "cl_ClearInstanceLocker peerName peerAddress cl =
     (case mget (clPeerLockers cl) (ToLower peerName) of
        None \<Rightarrow> (cl, False)
      | Some pl \<Rightarrow>
          (case clearInstanceLocker peerAddress pl of
             (pl', b) \<Rightarrow> (cl\<lparr>clPeerLockers := mput (ToLower peerName) pl' (clPeerLockers cl)\<rparr>, b)))"

definition RemovePeerLocker :: "string \<Rightarrow> combi_locker \<Rightarrow> combi_locker" where
  "RemovePeerLocker peerName cl = cl\<lparr>clPeerLockers := mdel (ToLower peerName) (clPeerLockers cl)\<rparr>"

definition getPeersLockers :: "string list \<Rightarrow> combi_locker \<Rightarrow> (string, peer_locker) gomap" where
  "getPeersLockers peerNames cl =
     (if peerNames \<noteq> [] then
        fold (\<lambda>p m. case mget (clPeerLockers cl) (ToLower p) of None \<Rightarrow> m | Some pl \<Rightarrow> mput (ToLower p) pl m) peerNames []
      else clPeerLockers cl)"

definition ClearPeerEvents :: "int \<Rightarrow> combi_locker \<Rightarrow> combi_locker" where
  "ClearPeerEvents now cl =
     cl\<lparr>clPeerLockers := map (\<lambda>(p, pl).
          (p, pl\<lparr>plDataLocker := (plDataLocker pl)
                   \<lparr>dlLocker := mput ''events'' (newLockerData now 1) (dlLocker (plDataLocker pl))\<rparr>\<rparr>)) (clPeerLockers cl)\<rparr>"

section \<open>Labeled lockers\<close>

definition alloc_cl :: "combi_locker \<Rightarrow> labeled_lockers \<Rightarrow> labeled_lockers \<times> nat" where
  "alloc_cl c ll = (ll\<lparr>llHeap := mput (llNext ll) c (llHeap ll), llNext := llNext ll + 1\<rparr>, llNext ll)"

definition empty_lockers :: labeled_lockers where
  "empty_lockers = \<lparr>llHeap = [], llNext = 0, llLockers = [], allLockers = [], currentLocker = None\<rparr>"

definition ll_Init :: "int \<Rightarrow> labeled_lockers \<Rightarrow> labeled_lockers" where
  "ll_Init now ll =
     (let (ll, a) = alloc_cl (NewCombiLocker now ''default'' None) ll
      in ll\<lparr>llLockers := [(''default'', a)], allLockers := [(''default'', a)], currentLocker := Some a\<rparr>)"

definition NewLabeledLockers :: "int \<Rightarrow> labeled_lockers" where
  "NewLabeledLockers now = ll_Init now empty_lockers"

definition add_root :: "int \<Rightarrow> string \<Rightarrow> labeled_lockers \<Rightarrow> labeled_lockers \<times> nat" where
  "add_root now l ll =
     (let (ll, a) = alloc_cl (NewCombiLocker now l None) ll
      in (ll\<lparr>llLockers := mput l a (llLockers ll), allLockers := mput l a (allLockers ll)\<rparr>, a))"

definition add_sub :: "int \<Rightarrow> nat \<Rightarrow> combi_locker \<Rightarrow> string \<Rightarrow> string \<Rightarrow> labeled_lockers \<Rightarrow> labeled_lockers \<times> nat" where
  "add_sub now a c pathLabel l ll =
     (let (ll, b) = alloc_cl (NewCombiLocker now l (Some (a, clPathLabel c))) ll;
          ll = upd_cl a (\<lambda>c. c\<lparr>SubLockers := mput l b (SubLockers c)\<rparr>) ll
      in (ll\<lparr>allLockers := mput pathLabel b (allLockers ll)\<rparr>, b))"

fun descend :: "int \<Rightarrow> nat \<Rightarrow> string \<Rightarrow> string list \<Rightarrow> labeled_lockers \<Rightarrow> (labeled_lockers \<times> nat) option" where
  "descend now a pathLabel [] ll = Some (ll, a)"
| "descend now a pathLabel (l # ls) ll =
     (case mget (llHeap ll) a of
        None \<Rightarrow> None
      | Some c \<Rightarrow>
          (let pathLabel = pathLabel @ '','' @ l in
           case mget (SubLockers c) l of
             Some b \<Rightarrow> descend now b pathLabel ls ll
           | None \<Rightarrow> (case add_sub now a c pathLabel l ll of (ll, b) \<Rightarrow> descend now b pathLabel ls ll)))"

text \<open>The locker is nil, \<open>Some (ll, None)\<close>, when the first label is empty.\<close>

definition unsafeCreateOrGetLocker :: "int \<Rightarrow> string \<Rightarrow> labeled_lockers \<Rightarrow> (labeled_lockers \<times> nat option) option" where
  "unsafeCreateOrGetLocker now label ll =
     (case split_on CHR '','' label of
        [] \<Rightarrow> Some (ll, None)
      | l # ls \<Rightarrow>
          (if l = [] then Some (ll, None)
           else
             let (ll, a) = (case mget (llLockers ll) l of Some a \<Rightarrow> (ll, a) | None \<Rightarrow> add_root now l ll)
             in map_option (\<lambda>(ll, b). (ll, Some b)) (descend now a l ls ll)))"

definition OpenLocker :: "int \<Rightarrow> string \<Rightarrow> labeled_lockers \<Rightarrow> labeled_lockers option" where
  "OpenLocker now label ll =
     (let ll = (case currentLocker ll of None \<Rightarrow> ll | Some c \<Rightarrow> upd_cl c (\<lambda>c. c\<lparr>clCurrent := False\<rparr>) ll)
      in case unsafeCreateOrGetLocker now label ll of
           Some (ll, Some a) \<Rightarrow> Some (upd_cl a (cl_Open now) (ll\<lparr>currentLocker := Some a\<rparr>))
         | _ \<Rightarrow> None)"

definition unlink_locker :: "combi_locker \<Rightarrow> labeled_lockers \<Rightarrow> labeled_lockers" where
  "unlink_locker locker ll =
     (let ll = (case clParent locker of
                  None \<Rightarrow> ll\<lparr>llLockers := mdel (clLabel locker) (llLockers ll)\<rparr>
                | Some p \<Rightarrow> upd_cl p (\<lambda>c. c\<lparr>SubLockers := mdel (clLabel locker) (SubLockers c)\<rparr>) ll)
      in ll\<lparr>allLockers := mdel (clPathLabel locker) (allLockers ll)\<rparr>)"

text \<open>\<open>deleteLocker\<close> on the lockers that are left to delete: the recursion over the sub lockers puts
  them before the others.\<close>

partial_function (option) deleteLockers :: "nat list \<Rightarrow> labeled_lockers \<Rightarrow> labeled_lockers option" where
  "deleteLockers todo ll =
     (case todo of
        [] \<Rightarrow> Some ll
      | a # rest \<Rightarrow>
          (case mget (llHeap ll) a of
             None \<Rightarrow> None
           | Some c \<Rightarrow> deleteLockers (map snd (SubLockers c) @ rest) (unlink_locker c ll)))"

definition deleteLocker :: "nat \<Rightarrow> labeled_lockers \<Rightarrow> labeled_lockers option" where
  "deleteLocker a ll = deleteLockers [a] ll"

definition ClearLocker :: "int \<Rightarrow> string \<Rightarrow> bool \<Rightarrow> labeled_lockers \<Rightarrow> labeled_lockers option" where
  "ClearLocker now label close ll =
     (case mget (allLockers ll) label of
        None \<Rightarrow> Some ll
      | Some a \<Rightarrow>
          (if close then
             (case deleteLocker a ll of
                None \<Rightarrow> None
              | Some ll \<Rightarrow>
                  (if currentLocker ll = Some a then
                     (case mget (llLockers ll) ''default'' of
                        None \<Rightarrow> None
                      | Some d \<Rightarrow> Some (upd_cl d (\<lambda>c. c\<lparr>clCurrent := True\<rparr>) (ll\<lparr>currentLocker := Some d\<rparr>)))
                   else Some ll))
           else
             (case mget (llHeap ll) a of
                None \<Rightarrow> None
              | Some c \<Rightarrow> map_option (upd_cl a (cl_Init now)) (deleteLockers (map snd (SubLockers c)) ll))))"

text \<open>\<open>ReplaceLockers\<close> takes lockers that were read from JSON: the arguments are the new top lockers with
  their addresses in the heap.\<close>

definition index_top :: "string \<times> nat \<Rightarrow> labeled_lockers \<Rightarrow> labeled_lockers" where
  "index_top l ll =
     (case mget (llHeap ll) (snd l) of
        None \<Rightarrow> ll
      | Some c \<Rightarrow>
          ll\<lparr>allLockers := mput (clPathLabel c) (snd l) (allLockers ll),
             currentLocker := (if clCurrent c then Some (snd l) else currentLocker ll)\<rparr>)"

definition ReplaceLockers :: "(string, nat) gomap \<Rightarrow> labeled_lockers \<Rightarrow> labeled_lockers" where
  "ReplaceLockers lockers ll = fold index_top lockers (ll\<lparr>llLockers := lockers\<rparr>)"

definition GetLocker :: "string \<Rightarrow> labeled_lockers \<Rightarrow> nat option" where
  "GetLocker label ll =
     (if EqualFold label ''current'' then currentLocker ll else mget (allLockers ll) label)"

definition GetOrCreateLocker :: "int \<Rightarrow> string \<Rightarrow> labeled_lockers \<Rightarrow> (labeled_lockers \<times> nat option) option" where
  "GetOrCreateLocker now label ll =
     (if EqualFold label ''current'' then Some (ll, currentLocker ll) else unsafeCreateOrGetLocker now label ll)"

definition getLockers :: "string \<Rightarrow> bool \<Rightarrow> labeled_lockers \<Rightarrow> (string, nat) gomap option" where
  "getLockers locker topOnly ll =
     (if locker = [] \<or> EqualFold locker ''all'' then Some (if topOnly then llLockers ll else allLockers ll)
      else if EqualFold locker ''current'' then
        (case currentLocker ll of
           None \<Rightarrow> None
         | Some a \<Rightarrow> map_option (\<lambda>c. [(clLabel c, a)]) (mget (llHeap ll) a))
      else
        Some (case mget (allLockers ll) locker of None \<Rightarrow> [] | Some a \<Rightarrow> [(locker, a)]))"

section \<open>Context lockers\<close>

type_synonym context_lockers = "(string, labeled_lockers) gomap"

definition GetContextLocker :: "int \<Rightarrow> string \<Rightarrow> context_lockers \<Rightarrow> context_lockers \<times> labeled_lockers" where
  "GetContextLocker now ctxt cl =
     (case mget cl ctxt of
        Some ll \<Rightarrow> (cl, ll)
      | None \<Rightarrow> (mput ctxt (NewLabeledLockers now) cl, NewLabeledLockers now))"

definition ClearContextLocker :: "int \<Rightarrow> string \<Rightarrow> context_lockers \<Rightarrow> context_lockers \<times> labeled_lockers" where
  "ClearContextLocker now ctxt cl = (mput ctxt (NewLabeledLockers now) cl, NewLabeledLockers now)"

section \<open>Handlers\<close>

record lockers_state =
  labeledLockers :: labeled_lockers
  contextLockers :: context_lockers

definition with_context ::
  "int \<Rightarrow> string \<Rightarrow> (labeled_lockers \<Rightarrow> labeled_lockers option) \<Rightarrow> lockers_state \<Rightarrow> lockers_state option" where
  "with_context now ctxt f st =
     (if ctxt \<noteq> [] then
        (case GetContextLocker now ctxt (contextLockers st) of
           (cl, ll) \<Rightarrow> map_option (\<lambda>ll'. st\<lparr>contextLockers := mput ctxt ll' cl\<rparr>) (f ll))
      else map_option (\<lambda>ll'. st\<lparr>labeledLockers := ll'\<rparr>) (f (labeledLockers st)))"

definition openLabeledLocker :: "int \<Rightarrow> request \<Rightarrow> lockers_state \<Rightarrow> (lockers_state \<times> http_out) option" where
  "openLabeledLocker now r st =
     (let label = GetStringParamValue r ''label'' None; ctxt = GetStringParamValue r ''context'' None in
      if label \<noteq> [] then
        map_option (\<lambda>st. (st, SendEvent ''Registry: Locker Opened'' (WriteHeader 200 no_out)))
          (with_context now ctxt (OpenLocker now label) st)
      else map_option (\<lambda>st. (st, WriteHeader 400 no_out)) (with_context now ctxt Some st))"

definition storeInLabeledLocker :: "int \<Rightarrow> string \<Rightarrow> request \<Rightarrow> lockers_state \<Rightarrow> (lockers_state \<times> http_out) option" where
  "storeInLabeledLocker now data r st =
     (let label = GetStringParamValue r ''label'' None; ctxt = GetStringParamValue r ''context'' None;
          path = fst (GetListParam r ''path'')
      in if label \<noteq> [] \<and> path \<noteq> [] then
           map_option (\<lambda>st. (st, SendEvent ''Registry: Locker Data Stored'' (WriteHeader 200 no_out)))
             (with_context now ctxt
                (\<lambda>ll. case GetOrCreateLocker now label ll of
                        Some (ll, Some a) \<Rightarrow> Some (upd_cl a (cl_Store now path data) ll)
                      | _ \<Rightarrow> None) st)
         else map_option (\<lambda>st. (st, WriteHeader 400 no_out)) (with_context now ctxt Some st))"

text \<open>Unlike the handlers above, this one ignores the context.\<close>

definition removeFromLabeledLocker :: "int \<Rightarrow> request \<Rightarrow> lockers_state \<Rightarrow> (lockers_state \<times> http_out) option" where
  "removeFromLabeledLocker now r st =
     (let label = GetStringParamValue r ''label'' None; path = fst (GetListParam r ''path'')
      in if label \<noteq> [] \<and> path \<noteq> [] then
           map_option (\<lambda>st. (st, SendEvent ''Registry: Locker Data Removed'' (WriteHeader 200 no_out)))
             (with_context now []
                (\<lambda>ll. case GetOrCreateLocker now label ll of
                        Some (ll, Some a) \<Rightarrow> Some (upd_cl a (cl_Remove path) ll)
                      | _ \<Rightarrow> None) st)
         else Some (st, WriteHeader 400 no_out))"

text \<open>The branch without a label also clears the results and events of all peers, which is done by calls
  to the peers and not modelled here.\<close>

definition closeOrClearLabeledLocker :: "int \<Rightarrow> request \<Rightarrow> lockers_state \<Rightarrow> (lockers_state \<times> http_out) option" where
  "closeOrClearLabeledLocker now r st =
     (let label = GetStringParamValue r ''label'' None; ctxt = GetStringParamValue r ''context'' None;
          close = Contains (RequestURI r) ''close''
      in if close \<and> EqualFold label ''default'' then
           map_option (\<lambda>st. (st, WriteHeader 400 no_out)) (with_context now ctxt Some st)
         else if label \<noteq> [] then
           map_option (\<lambda>st. (st, SendEvent (if close then ''Registry: Locker Closed'' else ''Registry: Locker Cleared'')
               (WriteHeader 200 no_out)))
             (with_context now ctxt (ClearLocker now label close) st)
         else
           map_option (\<lambda>st. (st, SendEvent ''Registry: All Lockers Cleared'' (WriteHeader 200 (WriteHeader 200 no_out))))
             (with_context now ctxt (\<lambda>ll. Some (ll_Init now ll)) st))"

section \<open>Walking down the labels\<close>

definition kids :: "labeled_lockers \<Rightarrow> nat \<Rightarrow> string \<Rightarrow> nat option" where
  "kids ll a l = (case mget (llHeap ll) a of None \<Rightarrow> None | Some c \<Rightarrow> mget (SubLockers c) l)"

fun subk :: "(nat \<Rightarrow> string \<Rightarrow> nat option) \<Rightarrow> nat \<Rightarrow> string list \<Rightarrow> nat option" where
  "subk k a [] = Some a"
| "subk k a (l # ls) = (case k a l of None \<Rightarrow> None | Some b \<Rightarrow> subk k b ls)"

fun walk :: "labeled_lockers \<Rightarrow> string list \<Rightarrow> nat option" where
  "walk ll [] = None"
| "walk ll (l # ls) = (case mget (llLockers ll) l of None \<Rightarrow> None | Some a \<Rightarrow> subk (kids ll) a ls)"

lemma subk_append: "subk k a (xs @ ys) = (case subk k a xs of None \<Rightarrow> None | Some b \<Rightarrow> subk k b ys)"
  by (induction k a xs rule: subk.induct) (auto split: option.splits)

lemma walk_append: "xs \<noteq> [] \<Longrightarrow> walk ll (xs @ ys) = (case walk ll xs of None \<Rightarrow> None | Some b \<Rightarrow> subk (kids ll) b ys)"
  by (cases xs) (auto simp: subk_append split: option.splits)

text \<open>Removing one link.\<close>

definition cut :: "(nat \<Rightarrow> string \<Rightarrow> nat option) \<Rightarrow> nat option \<Rightarrow> string \<Rightarrow> nat \<Rightarrow> string \<Rightarrow> nat option" where
  "cut k p lab = (\<lambda>y l. if p = Some y \<and> l = lab then None else k y l)"

lemma subk_cut_sub: "subk (cut k p lab) y ls = Some d \<Longrightarrow> subk k y ls = Some d"
  by (induction "cut k p lab" y ls rule: subk.induct) (auto simp: cut_def split: option.splits if_splits)

lemma subk_cut_used:
  "subk k y ls = Some d \<Longrightarrow>
   subk (cut k p lab) y ls = Some d \<or> (\<exists>q ls1 ls2. p = Some q \<and> ls = ls1 @ lab # ls2 \<and> subk k y ls1 = Some q)"
proof (induction k y ls rule: subk.induct)
  case (2 k a l ls)
  then obtain b where b: "k a l = Some b" "subk k b ls = Some d" by (auto split: option.splits)
  show ?case
  proof (cases "p = Some a \<and> l = lab")
    case True
    then have "l # ls = [] @ lab # ls \<and> subk k a [] = Some a" by simp
    with True show ?thesis by blast
  next
    case False
    from 2(1) [OF b] show ?thesis
    proof
      assume "subk (cut k p lab) b ls = Some d"
      with False b show ?thesis by (auto simp: cut_def)
    next
      assume "\<exists>q ls1 ls2. p = Some q \<and> ls = ls1 @ lab # ls2 \<and> subk k b ls1 = Some q"
      then obtain q ls1 ls2 where "p = Some q" "ls = ls1 @ lab # ls2" "subk k b ls1 = Some q" by blast
      with b have "p = Some q \<and> l # ls = (l # ls1) @ lab # ls2 \<and> subk k a (l # ls1) = Some q" by simp
      then show ?thesis by blast
    qed
  qed
qed simp

lemma subk_cut_tail:
  "subk k y ls = Some d \<Longrightarrow>
   subk (cut k p lab) y ls = Some d \<or> (\<exists>q z ls2. p = Some q \<and> k q lab = Some z \<and> subk (cut k p lab) z ls2 = Some d)"
proof (induction k y ls rule: subk.induct)
  case (2 k a l ls)
  then obtain b where b: "k a l = Some b" "subk k b ls = Some d" by (auto split: option.splits)
  from 2(1) [OF b] show ?case
  proof
    assume "subk (cut k p lab) b ls = Some d"
    with b show ?thesis by (cases "p = Some a \<and> l = lab") (auto simp: cut_def)
  qed blast
qed simp

section \<open>Well-formed heaps\<close>

definition heap_wf :: "labeled_lockers \<Rightarrow> bool" where
  "heap_wf ll \<longleftrightarrow>
     (\<forall>a c. mget (llHeap ll) a = Some c \<longrightarrow>
        a < llNext ll \<and> CHR '','' \<notin> set (clLabel c) \<and>
        (case clParent c of
           None \<Rightarrow> clPathLabel c = clLabel c
         | Some p \<Rightarrow> \<exists>d. mget (llHeap ll) p = Some d \<and> clPathLabel c = clPathLabel d @ '','' @ clLabel c) \<and>
        (\<forall>l b. (l, b) \<in> set (SubLockers c) \<longrightarrow>
           a < b \<and> (\<exists>d. mget (llHeap ll) b = Some d \<and> clParent d = Some a \<and> clLabel d = l)) \<and>
        mwf (SubLockers c))"

definition roots_wf :: "labeled_lockers \<Rightarrow> bool" where
  "roots_wf ll \<longleftrightarrow>
     (\<forall>l a. mget (llLockers ll) l = Some a \<longrightarrow>
        (\<exists>c. mget (llHeap ll) a = Some c \<and> clParent c = None \<and> clLabel c = l))"

lemma heap_wfD:
  assumes "heap_wf ll" and "mget (llHeap ll) a = Some c"
  shows "a < llNext ll" "CHR '','' \<notin> set (clLabel c)"
    "clParent c = None \<Longrightarrow> clPathLabel c = clLabel c"
    "clParent c = Some p \<Longrightarrow> \<exists>d. mget (llHeap ll) p = Some d \<and> clPathLabel c = clPathLabel d @ '','' @ clLabel c"
    "(l, b) \<in> set (SubLockers c) \<Longrightarrow> a < b \<and> (\<exists>d. mget (llHeap ll) b = Some d \<and> clParent d = Some a \<and> clLabel d = l)"
    "mwf (SubLockers c)"
proof -
  have *: "a < llNext ll \<and> CHR '','' \<notin> set (clLabel c) \<and>
        (case clParent c of
           None \<Rightarrow> clPathLabel c = clLabel c
         | Some p \<Rightarrow> \<exists>d. mget (llHeap ll) p = Some d \<and> clPathLabel c = clPathLabel d @ '','' @ clLabel c) \<and>
        (\<forall>l b. (l, b) \<in> set (SubLockers c) \<longrightarrow>
           a < b \<and> (\<exists>d. mget (llHeap ll) b = Some d \<and> clParent d = Some a \<and> clLabel d = l)) \<and>
        mwf (SubLockers c)"
    using assms unfolding heap_wf_def by blast
  then show "a < llNext ll" "CHR '','' \<notin> set (clLabel c)" "mwf (SubLockers c)" by blast+
  from * show "clParent c = None \<Longrightarrow> clPathLabel c = clLabel c"
    "clParent c = Some p \<Longrightarrow> \<exists>d. mget (llHeap ll) p = Some d \<and> clPathLabel c = clPathLabel d @ '','' @ clLabel c"
    by simp_all
  from * show "(l, b) \<in> set (SubLockers c) \<Longrightarrow> a < b \<and> (\<exists>d. mget (llHeap ll) b = Some d \<and> clParent d = Some a \<and> clLabel d = l)"
    by blast
qed

lemma split_on_snoc: "d \<notin> set l \<Longrightarrow> split_on d (s @ d # l) = split_on d s @ [l]"
  by (induction s) (auto simp: split_on_no_sep split: list.splits)

lemma kids_wf:
  assumes "heap_wf ll" and "kids ll a l = Some b" and "mget (llHeap ll) a = Some c"
  shows "\<exists>d. mget (llHeap ll) b = Some d \<and> clParent d = Some a \<and> clLabel d = l \<and> a < b \<and>
    split_on CHR '','' (clPathLabel d) = split_on CHR '','' (clPathLabel c) @ [l]"
proof -
  from assms(2,3) have "(l, b) \<in> set (SubLockers c)" by (auto simp: kids_def dest: mget_in_set)
  from heap_wfD(5) [OF assms(1,3) this] obtain d where
    d: "mget (llHeap ll) b = Some d" "clParent d = Some a" "clLabel d = l" "a < b" by blast
  from heap_wfD(4) [OF assms(1) d(1,2)] assms(3) have "clPathLabel d = clPathLabel c @ '','' @ clLabel d" by auto
  with heap_wfD(2) [OF assms(1) d(1)] d show ?thesis by (simp add: split_on_snoc)
qed

lemma subk_split:
  "heap_wf ll \<Longrightarrow> subk (kids ll) a ls = Some b \<Longrightarrow> mget (llHeap ll) a = Some c \<Longrightarrow>
   \<exists>d. mget (llHeap ll) b = Some d \<and> split_on CHR '','' (clPathLabel d) = split_on CHR '','' (clPathLabel c) @ ls"
proof (induction ls arbitrary: a c)
  case (Cons l ls)
  then obtain z where z: "kids ll a l = Some z" "subk (kids ll) z ls = Some b" by (auto split: option.splits)
  from kids_wf [OF Cons.prems(1) z(1) Cons.prems(3)] obtain e where
    "mget (llHeap ll) z = Some e" "split_on CHR '','' (clPathLabel e) = split_on CHR '','' (clPathLabel c) @ [l]" by blast
  with Cons.IH [OF Cons.prems(1) z(2)] show ?case by fastforce
qed simp

lemma walk_split:
  assumes "heap_wf ll" and "roots_wf ll" and "walk ll ls = Some b"
  shows "\<exists>d. mget (llHeap ll) b = Some d \<and> split_on CHR '','' (clPathLabel d) = ls"
proof (cases ls)
  case (Cons l rest)
  with assms(3) obtain a where a: "mget (llLockers ll) l = Some a" "subk (kids ll) a rest = Some b"
    by (auto split: option.splits)
  from assms(2) a(1) obtain c where c: "mget (llHeap ll) a = Some c" "clParent c = None" "clLabel c = l"
    by (auto simp: roots_wf_def)
  with heap_wfD(2,3) [OF assms(1) c(1)] have "split_on CHR '','' (clPathLabel c) = [l]" by (simp add: split_on_no_sep)
  with subk_split [OF assms(1) a(2) c(1)] Cons show ?thesis by simp
qed (use assms(3) in simp)

lemma split_on_inj: "split_on d s = split_on d t \<Longrightarrow> s = t"
  by (metis join_split_on)

section \<open>Unlinking a locker\<close>

lemma upd_cl_fields [simp]:
  "llNext (upd_cl a f ll) = llNext ll" "llLockers (upd_cl a f ll) = llLockers ll"
  "allLockers (upd_cl a f ll) = allLockers ll" "currentLocker (upd_cl a f ll) = currentLocker ll"
  by (auto simp: upd_cl_def split: option.splits)

lemma upd_cl_heap: "mget (llHeap (upd_cl a f ll)) b = (if b = a then map_option f (mget (llHeap ll) a) else mget (llHeap ll) b)"
  by (auto simp: upd_cl_def split: option.splits)

lemma unlink_fields [simp]:
  "llNext (unlink_locker c ll) = llNext ll" "currentLocker (unlink_locker c ll) = currentLocker ll"
  "allLockers (unlink_locker c ll) = mdel (clPathLabel c) (allLockers ll)"
  by (auto simp: unlink_locker_def Let_def split: option.splits)

lemma unlink_heap:
  "mget (llHeap (unlink_locker c ll)) y =
     map_option (\<lambda>d. if clParent c = Some y then d\<lparr>SubLockers := mdel (clLabel c) (SubLockers d)\<rparr> else d)
       (mget (llHeap ll) y)"
  by (auto simp: unlink_locker_def Let_def upd_cl_heap option.map_ident split: option.splits)

lemma unlink_roots:
  "llLockers (unlink_locker c ll) = (if clParent c = None then mdel (clLabel c) (llLockers ll) else llLockers ll)"
  by (auto simp: unlink_locker_def Let_def split: option.splits)

lemma unlink_kids: "kids (unlink_locker c ll) = cut (kids ll) (clParent c) (clLabel c)"
  by (auto simp: kids_def cut_def unlink_heap fun_eq_iff split: option.splits)

lemma unlink_heapD:
  "mget (llHeap (unlink_locker c ll)) y = Some d \<Longrightarrow>
   \<exists>e. mget (llHeap ll) y = Some e \<and> clLabel d = clLabel e \<and> clPathLabel d = clPathLabel e \<and> clParent d = clParent e \<and>
     set (SubLockers d) \<subseteq> set (SubLockers e) \<and> (mwf (SubLockers e) \<longrightarrow> mwf (SubLockers d))"
  by (auto simp: unlink_heap split: if_splits dest: subsetD [OF mdel_set_subset])

lemma unlink_heapI:
  "mget (llHeap ll) y = Some e \<Longrightarrow>
   \<exists>d. mget (llHeap (unlink_locker c ll)) y = Some d \<and> clLabel d = clLabel e \<and> clPathLabel d = clPathLabel e \<and>
     clParent d = clParent e \<and> d = e\<lparr>SubLockers := SubLockers d\<rparr>"
  by (auto simp: unlink_heap)

lemma unlink_wf: assumes "heap_wf ll" shows "heap_wf (unlink_locker c ll)"
  unfolding heap_wf_def
proof (intro allI impI conjI)
  fix a d assume "mget (llHeap (unlink_locker c ll)) a = Some d"
  from unlink_heapD [OF this] obtain e where e: "mget (llHeap ll) a = Some e" "clLabel d = clLabel e"
    "clPathLabel d = clPathLabel e" "clParent d = clParent e" "set (SubLockers d) \<subseteq> set (SubLockers e)"
    "mwf (SubLockers e) \<longrightarrow> mwf (SubLockers d)" by blast
  note w = heap_wfD [OF assms e(1)]
  show "a < llNext (unlink_locker c ll)" "CHR '','' \<notin> set (clLabel d)" "mwf (SubLockers d)" using w(1,2,6) e by simp_all
  show "case clParent d of None \<Rightarrow> clPathLabel d = clLabel d
      | Some p \<Rightarrow> \<exists>f. mget (llHeap (unlink_locker c ll)) p = Some f \<and> clPathLabel d = clPathLabel f @ '','' @ clLabel d"
  proof (cases "clParent d")
    case None
    then show ?thesis using w(3) e by simp
  next
    case (Some p)
    with w(4) [of p] e obtain g where "mget (llHeap ll) p = Some g" "clPathLabel d = clPathLabel g @ '','' @ clLabel d" by auto
    with Some unlink_heapI [of ll p g c] show ?thesis by auto
  qed
  fix l b assume "(l, b) \<in> set (SubLockers d)"
  with w(5) [of l b] e obtain g where "a < b" "mget (llHeap ll) b = Some g" "clParent g = Some a" "clLabel g = l" by blast
  with unlink_heapI [of ll b g c]
  show "a < b" "\<exists>g. mget (llHeap (unlink_locker c ll)) b = Some g \<and> clParent g = Some a \<and> clLabel g = l" by auto
qed

lemma unlink_roots_wf: "roots_wf ll \<Longrightarrow> roots_wf (unlink_locker c ll)"
  unfolding roots_wf_def unlink_roots using unlink_heapI [of ll _ _ c] by (fastforce split: if_splits)

lemma unlink_walk_sub: "walk (unlink_locker c ll) ls = Some d \<Longrightarrow> walk ll ls = Some d"
  by (cases ls) (auto simp: unlink_roots unlink_kids split: option.splits if_splits dest: subk_cut_sub)

lemma unlink_walk:
  assumes wf: "heap_wf ll" "roots_wf ll" and x: "mget (llHeap ll) x = Some c"
    and np: "\<not> prefix (split_on CHR '','' (clPathLabel c)) ls"
  shows "walk (unlink_locker c ll) ls = walk ll ls"
proof (cases "walk ll ls")
  case None
  then show ?thesis using unlink_walk_sub [of c ll ls] by (cases "walk (unlink_locker c ll) ls") auto
next
  case (Some d)
  then obtain l rest a where ls: "ls = l # rest" and a: "mget (llLockers ll) l = Some a" "subk (kids ll) a rest = Some d"
    by (cases ls) (auto split: option.splits)
  have root: "mget (llLockers (unlink_locker c ll)) l = Some a"
  proof (cases "clParent c")
    case None
    with heap_wfD(2,3) [OF wf(1) x] have "split_on CHR '','' (clPathLabel c) = [clLabel c]" by (simp add: split_on_no_sep)
    with np ls have "l \<noteq> clLabel c" by auto
    with None a show ?thesis by (simp add: unlink_roots)
  qed (simp add: unlink_roots a)
  from subk_cut_used [OF a(2), of "clParent c" "clLabel c"]
  have "subk (cut (kids ll) (clParent c) (clLabel c)) a rest = Some d"
  proof
    assume "\<exists>q ls1 ls2. clParent c = Some q \<and> rest = ls1 @ clLabel c # ls2 \<and> subk (kids ll) a ls1 = Some q"
    then obtain q ls1 ls2 where q: "clParent c = Some q" "rest = ls1 @ clLabel c # ls2" "subk (kids ll) a ls1 = Some q" by blast
    with a have "walk ll (l # ls1) = Some q" by simp
    from walk_split [OF wf this] obtain e where e: "mget (llHeap ll) q = Some e" "split_on CHR '','' (clPathLabel e) = l # ls1" by blast
    with heap_wfD(2,4) [OF wf(1) x] q(1) have "split_on CHR '','' (clPathLabel c) = l # ls1 @ [clLabel c]"
      by (auto simp: split_on_snoc)
    with np ls q(2) show ?thesis by (auto simp: prefix_def)
  qed
  with root ls Some show ?thesis by (simp add: unlink_kids)
qed

lemma unlink_not_walk:
  assumes wf: "heap_wf ll" "roots_wf ll" and x: "mget (llHeap ll) x = Some c"
  shows "walk (unlink_locker c ll) ls \<noteq> Some x"
proof
  let ?ll = "unlink_locker c ll"
  assume w: "walk ?ll ls = Some x"
  show False
  proof (cases ls rule: rev_cases)
    case Nil
    with w show ?thesis by simp
  next
    case (snoc ls0 l)
    show ?thesis
    proof (cases "ls0 = []")
      case True
      with w snoc have "mget (llLockers ?ll) l = Some x" by (simp split: option.splits)
      moreover with unlink_roots_wf [OF wf(2), of c] obtain d where
        "mget (llHeap ?ll) x = Some d" "clParent d = None" "clLabel d = l" by (auto simp: roots_wf_def)
      with unlink_heapI [OF x, of c] have "clParent c = None" "clLabel c = l" by auto
      ultimately show ?thesis by (simp add: unlink_roots)
    next
      case False
      with w snoc obtain q where q: "walk ?ll ls0 = Some q" "kids ?ll q l = Some x"
        by (auto simp: walk_append split: option.splits)
      from walk_split [OF unlink_wf [OF wf(1)] unlink_roots_wf [OF wf(2)] q(1)] obtain e where "mget (llHeap ?ll) q = Some e" by blast
      from kids_wf [OF unlink_wf [OF wf(1)] q(2) this] unlink_heapI [OF x, of c] have "clParent c = Some q" "clLabel c = l" by auto
      with q(2) show ?thesis by (simp add: unlink_kids cut_def)
    qed
  qed
qed

section \<open>Deleting a subtree\<close>

definition upward :: "(string list \<Rightarrow> bool) \<Rightarrow> bool" where
  "upward U \<longleftrightarrow> (\<forall>x y. U x \<longrightarrow> prefix x y \<longrightarrow> U y)"

lemma upwardD: "upward U \<Longrightarrow> U x \<Longrightarrow> prefix x y \<Longrightarrow> U y"
  unfolding upward_def by blast

lemma upward_prefix: "upward (prefix P)" "upward (strict_prefix P)"
  unfolding upward_def using prefix_order.trans prefix_order.less_le_trans by blast+

definition todo_ok :: "(string list \<Rightarrow> bool) \<Rightarrow> nat list \<Rightarrow> labeled_lockers \<Rightarrow> bool" where
  "todo_ok U todo ll \<longleftrightarrow>
     (\<forall>y \<in> set todo. \<exists>c. mget (llHeap ll) y = Some c \<and> U (split_on CHR '','' (clPathLabel c)) \<and>
        (\<forall>p z. clParent c = Some p \<and> kids ll p (clLabel c) = Some z \<longrightarrow> z = y)) \<and>
     (\<forall>p d. mget (allLockers ll) p = Some d \<longrightarrow>
        (\<exists>c. mget (llHeap ll) d = Some c \<and> clPathLabel c = p) \<and>
        (U (split_on CHR '','' p) \<longrightarrow> (\<exists>y \<in> set todo. \<exists>ls. subk (kids ll) y ls = Some d)))"

lemma todo_step:
  assumes up: "upward U"
    and wf: "heap_wf ll" and ok: "todo_ok U (x # rest) ll" and x: "mget (llHeap ll) x = Some c"
  shows "todo_ok U (map snd (SubLockers c) @ rest) (unlink_locker c ll)"
proof -
  let ?ll = "unlink_locker c ll"
  note mw = heap_wfD(6) [OF wf x]
  have xP: "U (split_on CHR '','' (clPathLabel c))"
    and xK: "\<And>p z. clParent c = Some p \<Longrightarrow> kids ll p (clLabel c) = Some z \<Longrightarrow> z = x"
    using ok x by (auto simp: todo_ok_def)
  have selfp: "clParent c \<noteq> Some x"
  proof
    assume "clParent c = Some x"
    from heap_wfD(4) [OF wf x this] x show False by (auto simp: append_eq_conv_conj)
  qed
  have kx: "kids ?ll x l = mget (SubLockers c) l" for l
    using x selfp by (auto simp: kids_def unlink_heap)
  have 1: "\<exists>d. mget (llHeap ?ll) y = Some d \<and> U (split_on CHR '','' (clPathLabel d)) \<and>
      (\<forall>p z. clParent d = Some p \<and> kids ?ll p (clLabel d) = Some z \<longrightarrow> z = y)"
    if y: "y \<in> set (map snd (SubLockers c) @ rest)" for y
  proof -
    have "\<exists>e. mget (llHeap ll) y = Some e \<and> U (split_on CHR '','' (clPathLabel e)) \<and>
      (\<forall>p z. clParent e = Some p \<and> kids ll p (clLabel e) = Some z \<longrightarrow> z = y)"
    proof (cases "y \<in> set rest")
      case True
      with ok show ?thesis by (auto simp: todo_ok_def)
    next
      case False
      with y obtain l where l: "(l, y) \<in> set (SubLockers c)" by auto
      with mw have k: "kids ll x l = Some y" using x by (simp add: kids_def mwf_get_iff)
      from kids_wf [OF wf k x] obtain e where e: "mget (llHeap ll) y = Some e" "clParent e = Some x" "clLabel e = l"
        "split_on CHR '','' (clPathLabel e) = split_on CHR '','' (clPathLabel c) @ [l]" by blast
      with k upwardD [OF up xP] show ?thesis by auto
    qed
    then obtain e where e: "mget (llHeap ll) y = Some e" "U (split_on CHR '','' (clPathLabel e))"
      "\<forall>p z. clParent e = Some p \<and> kids ll p (clLabel e) = Some z \<longrightarrow> z = y" by blast
    from unlink_heapI [OF e(1), of c] obtain d where "mget (llHeap ?ll) y = Some d" "clLabel d = clLabel e"
      "clPathLabel d = clPathLabel e" "clParent d = clParent e" by blast
    with e(2,3) show ?thesis by (auto simp: unlink_kids cut_def split: if_splits)
  qed
  have 2: "\<exists>y \<in> set (map snd (SubLockers c) @ rest). \<exists>ls. subk (kids ?ll) y ls = Some d"
    if p: "mget (allLockers ?ll) p = Some d" "U (split_on CHR '','' p)" for p d
  proof -
    from p have p': "mget (allLockers ll) p = Some d" "p \<noteq> clPathLabel c" by (auto split: if_splits)
    with ok p(2) have "\<exists>y \<in> set (x # rest). \<exists>ls. subk (kids ll) y ls = Some d" unfolding todo_ok_def by blast
    then obtain y ls where y: "y = x \<or> y \<in> set rest" "subk (kids ll) y ls = Some d" by auto
    from ok p'(1) have "\<exists>e. mget (llHeap ll) d = Some e \<and> clPathLabel e = p" unfolding todo_ok_def by blast
    with p'(2) x have dx: "d \<noteq> x" by auto
    have from_x: "\<exists>y \<in> set (map snd (SubLockers c) @ rest). \<exists>ls. subk (kids ?ll) y ls = Some d"
      if s: "subk (kids ?ll) x ls = Some d" for ls
    proof (cases ls)
      case Nil
      with s dx show ?thesis by simp
    next
      case (Cons l ls')
      with s kx obtain b where "mget (SubLockers c) l = Some b" "subk (kids ?ll) b ls' = Some d"
        by (auto split: option.splits)
      then show ?thesis by (force dest: mget_in_set)
    qed
    from subk_cut_tail [OF y(2), of "clParent c" "clLabel c"] show ?thesis
    proof
      assume "subk (cut (kids ll) (clParent c) (clLabel c)) y ls = Some d"
      with y(1) from_x show ?thesis by (auto simp: unlink_kids [symmetric])
    next
      assume "\<exists>q z ls2. clParent c = Some q \<and> kids ll q (clLabel c) = Some z \<and>
        subk (cut (kids ll) (clParent c) (clLabel c)) z ls2 = Some d"
      with xK from_x show ?thesis by (auto simp: unlink_kids [symmetric])
    qed
  qed
  have 3: "\<exists>e. mget (llHeap ?ll) d = Some e \<and> clPathLabel e = p" if "mget (allLockers ?ll) p = Some d" for p d
  proof -
    from that have "mget (allLockers ll) p = Some d" by (auto split: if_splits)
    with ok obtain e where "mget (llHeap ll) d = Some e" "clPathLabel e = p" unfolding todo_ok_def by blast
    with unlink_heapI [of ll d e c] show ?thesis by auto
  qed
  from 1 2 3 show ?thesis unfolding todo_ok_def by blast
qed

text \<open>What a state keeps when lockers are deleted: everything but links and index entries.\<close>

definition same_nodes :: "labeled_lockers \<Rightarrow> labeled_lockers \<Rightarrow> bool" where
  "same_nodes ll ll' \<longleftrightarrow>
     currentLocker ll' = currentLocker ll \<and> llNext ll' = llNext ll \<and>
     (\<forall>y. (mget (llHeap ll) y = None \<longrightarrow> mget (llHeap ll') y = None) \<and>
        (\<forall>c. mget (llHeap ll) y = Some c \<longrightarrow> (\<exists>subs. mget (llHeap ll') y = Some (c\<lparr>SubLockers := subs\<rparr>))))"

lemma same_nodes_refl: "same_nodes ll ll"
proof -
  have "\<exists>subs. c = c\<lparr>SubLockers := subs\<rparr>" for c :: combi_locker
    by (rule exI [of _ "SubLockers c"]) simp
  then show ?thesis by (simp add: same_nodes_def)
qed

lemma same_nodes_trans: "same_nodes a b \<Longrightarrow> same_nodes b c \<Longrightarrow> same_nodes a c"
  unfolding same_nodes_def by (metis combi_locker.surjective combi_locker.update_convs(5) not_None_eq)

lemma unlink_same_nodes: "same_nodes ll (unlink_locker c ll)"
  unfolding same_nodes_def
proof (intro conjI allI impI)
  fix y d assume "mget (llHeap ll) y = Some d"
  from unlink_heapI [OF this, of c] obtain e where "mget (llHeap (unlink_locker c ll)) y = Some e" "e = d\<lparr>SubLockers := SubLockers e\<rparr>"
    by blast
  then show "\<exists>subs. mget (llHeap (unlink_locker c ll)) y = Some (d\<lparr>SubLockers := subs\<rparr>)" by metis
qed (simp_all add: unlink_heap)

definition todo_measure :: "labeled_lockers \<Rightarrow> nat list \<Rightarrow> nat multiset" where
  "todo_measure ll todo = image_mset (\<lambda>a. llNext ll - a) (mset todo)"

lemma todo_measure_step:
  assumes "heap_wf ll" and "mget (llHeap ll) x = Some c" and "llNext ll' = llNext ll"
  shows "(todo_measure ll' (map snd (SubLockers c) @ rest), todo_measure ll (x # rest)) \<in> mult {(m, n :: nat). m < n}"
proof -
  let ?f = "\<lambda>a. llNext ll - a"
  have "\<forall>k \<in> set_mset (image_mset ?f (mset (map snd (SubLockers c)))). \<exists>j \<in> set_mset {#?f x#}. (k, j) \<in> {(m, n). m < n}"
  proof
    fix k assume "k \<in> set_mset (image_mset ?f (mset (map snd (SubLockers c))))"
    then obtain l b where b: "(l, b) \<in> set (SubLockers c)" "k = ?f b" by auto
    from heap_wfD(5) [OF assms(1,2) b(1)] have "x < b" "\<exists>d. mget (llHeap ll) b = Some d" by auto
    with heap_wfD(1) [OF assms(1)] have "x < b" "b < llNext ll" by auto
    with b show "\<exists>j \<in> set_mset {#?f x#}. (k, j) \<in> {(m, n). m < n}" by auto
  qed
  from one_step_implies_mult [OF _ this, of "image_mset ?f (mset rest)"] assms(3)
  show ?thesis by (simp add: todo_measure_def add.commute)
qed

lemma deleteLockers_spec:
  assumes up: "upward U"
    and "heap_wf ll" and "roots_wf ll" and "todo_ok U todo ll"
  shows "\<exists>ll'. deleteLockers todo ll = Some ll' \<and> heap_wf ll' \<and> roots_wf ll' \<and> same_nodes ll ll' \<and>
     (\<forall>p. mget (allLockers ll') p = (if U (split_on CHR '','' p) then None else mget (allLockers ll) p)) \<and>
     (\<forall>ls. \<not> U ls \<longrightarrow> walk ll' ls = walk ll ls) \<and> (\<forall>ls d. walk ll' ls = Some d \<longrightarrow> walk ll ls = Some d) \<and>
     (\<forall>y \<in> set todo. \<forall>ls. walk ll' ls \<noteq> Some y)"
  using assms(2-)
proof (induction "todo_measure ll todo" arbitrary: todo ll rule: wf_induct_rule [OF wf_mult [OF wf]])
  case (1 todo ll)
  show ?case
  proof (cases todo)
    case Nil
    with "1.prems"(3) have "\<forall>p. U (split_on CHR '','' p) \<longrightarrow> mget (allLockers ll) p = None"
      by (auto simp: todo_ok_def) (metis not_None_eq)
    with Nil "1.prems" same_nodes_refl show ?thesis by (subst deleteLockers.simps) simp
  next
    case (Cons x rest)
    from "1.prems"(3) Cons obtain c where x: "mget (llHeap ll) x = Some c" "U (split_on CHR '','' (clPathLabel c))"
      by (auto simp: todo_ok_def)
    let ?ll = "unlink_locker c ll" and ?todo = "map snd (SubLockers c) @ rest"
    have "(todo_measure ?ll ?todo, todo_measure ll todo) \<in> mult {(m, n :: nat). m < n}"
      using todo_measure_step [OF "1.prems"(1) x(1), of ?ll rest] Cons by simp
    from "1.hyps" [OF this unlink_wf [OF "1.prems"(1)] unlink_roots_wf [OF "1.prems"(2)]] todo_step [OF up "1.prems"(1) "1.prems"(3) [unfolded Cons] x(1)]
    obtain ll' where ll': "deleteLockers ?todo ?ll = Some ll'" "heap_wf ll'" "roots_wf ll'" "same_nodes ?ll ll'"
      "\<forall>p. mget (allLockers ll') p = (if U (split_on CHR '','' p) then None else mget (allLockers ?ll) p)"
      "\<forall>ls. \<not> U ls \<longrightarrow> walk ll' ls = walk ?ll ls" "\<forall>ls d. walk ll' ls = Some d \<longrightarrow> walk ?ll ls = Some d"
      "\<forall>y \<in> set ?todo. \<forall>ls. walk ll' ls \<noteq> Some y" by blast
    have "deleteLockers todo ll = Some ll'" using Cons x(1) ll'(1) by (subst deleteLockers.simps) simp
    moreover have "mget (allLockers ll') p = (if U (split_on CHR '','' p) then None else mget (allLockers ll) p)" for p
      using ll'(5) x(2) by auto
    moreover have "walk ll' ls = walk ll ls" if "\<not> U ls" for ls
    proof -
      have "\<not> prefix (split_on CHR '','' (clPathLabel c)) ls" using that upwardD [OF up x(2)] by blast
      with unlink_walk [OF "1.prems"(1,2) x(1)] that ll'(6) show ?thesis by simp
    qed
    moreover have "walk ll' ls = Some d \<Longrightarrow> walk ll ls = Some d" for ls d using ll'(7) unlink_walk_sub by blast
    moreover have "same_nodes ll ll'" using ll'(4) unlink_same_nodes same_nodes_trans by blast
    moreover have "walk ll' ls \<noteq> Some y" if "y \<in> set todo" for y ls
      using that Cons ll'(7,8) unlink_not_walk [OF "1.prems"(1,2) x(1), of ls] by auto
    ultimately show ?thesis using ll'(2,3) by blast
  qed
qed

section \<open>The invariant\<close>

definition index_ok :: "labeled_lockers \<Rightarrow> bool" where
  "index_ok ll \<longleftrightarrow> (\<forall>p. mget (allLockers ll) p = walk ll (split_on CHR '','' p))"

definition ll_inv :: "labeled_lockers \<Rightarrow> bool" where
  "ll_inv ll \<longleftrightarrow> heap_wf ll \<and> roots_wf ll \<and> index_ok ll"

lemma index_path:
  assumes "ll_inv ll" and "mget (allLockers ll) p = Some d"
  shows "\<exists>c. mget (llHeap ll) d = Some c \<and> clPathLabel c = p"
proof -
  from assms have "walk ll (split_on CHR '','' p) = Some d" by (simp add: ll_inv_def index_ok_def)
  with assms(1) walk_split [of ll "split_on CHR '','' p" d] show ?thesis by (auto simp: ll_inv_def dest: split_on_inj)
qed

lemma walk_parent:
  assumes "heap_wf ll" and "roots_wf ll" and "walk ll P = Some a" and "mget (llHeap ll) a = Some c" and "clParent c = Some p"
    and "kids ll p (clLabel c) = Some z"
  shows "z = a"
proof -
  from walk_split [OF assms(1-3)] assms(4) have P: "split_on CHR '','' (clPathLabel c) = P" by auto
  from heap_wfD(2,4) [OF assms(1,4)] assms(5) obtain d where d: "mget (llHeap ll) p = Some d"
    "split_on CHR '','' (clPathLabel c) = split_on CHR '','' (clPathLabel d) @ [clLabel c]" by (auto simp: split_on_snoc)
  with P assms(3) obtain q where q: "walk ll (split_on CHR '','' (clPathLabel d)) = Some q" "kids ll q (clLabel c) = Some a"
    by (auto simp: walk_append split: option.splits)
  from walk_split [OF assms(1,2) q(1)] obtain e where "mget (llHeap ll) q = Some e" by blast
  from kids_wf [OF assms(1) q(2) this] assms(4,5) have "q = p" by auto
  with q(2) assms(6) show ?thesis by simp
qed

lemma index_todo:
  assumes inv: "ll_inv ll" and a: "\<forall>y \<in> set todo. \<exists>Q. walk ll Q = Some y \<and> U Q"
    and cover: "\<And>ls. U ls \<Longrightarrow> walk ll ls \<noteq> None \<Longrightarrow> mget (allLockers ll) (join_with '','' ls) \<noteq> None \<Longrightarrow>
       \<exists>y \<in> set todo. \<exists>ls'. walk ll ls = subk (kids ll) y ls'"
  shows "todo_ok U todo ll"
  unfolding todo_ok_def
proof (intro conjI ballI allI impI)
  note i = inv [unfolded ll_inv_def index_ok_def]
  fix y assume "y \<in> set todo"
  with a obtain Q where Q: "walk ll Q = Some y" "U Q" by blast
  with walk_split [of ll Q y] i obtain c where c: "mget (llHeap ll) y = Some c" "split_on CHR '','' (clPathLabel c) = Q" by blast
  with Q walk_parent [OF conjunct1 [OF i] _ Q(1) c(1)] i
  show "\<exists>c. mget (llHeap ll) y = Some c \<and> U (split_on CHR '','' (clPathLabel c)) \<and>
        (\<forall>p z. clParent c = Some p \<and> kids ll p (clLabel c) = Some z \<longrightarrow> z = y)" by blast
next
  fix p d assume p: "mget (allLockers ll) p = Some d"
  with index_path [OF inv] show "\<exists>c. mget (llHeap ll) d = Some c \<and> clPathLabel c = p" by blast
  assume "U (split_on CHR '','' p)"
  moreover have "walk ll (split_on CHR '','' p) = Some d" using inv p by (simp add: ll_inv_def index_ok_def)
  ultimately show "\<exists>y \<in> set todo. \<exists>ls. subk (kids ll) y ls = Some d"
    using cover [of "split_on CHR '','' p"] p by (force simp: join_split_on)
qed

text \<open>Deleting a locker removes its subtree from the tree and from the index, and nothing else.\<close>

lemma deleteLocker_inv:
  assumes inv: "ll_inv ll" and P: "walk ll P = Some a"
  shows "\<exists>ll'. deleteLocker a ll = Some ll' \<and> ll_inv ll' \<and> same_nodes ll ll' \<and>
     (\<forall>ls. walk ll' ls = (if prefix P ls then None else walk ll ls))"
proof -
  have P0: "P \<noteq> []" using P by (cases P) auto
  have "todo_ok (prefix P) [a] ll"
  proof (rule index_todo [OF inv])
    fix ls assume "prefix P ls" "walk ll ls \<noteq> None"
    then obtain ls' where "ls = P @ ls'" by (auto simp: prefix_def)
    with P P0 show "\<exists>y \<in> set [a]. \<exists>ls'. walk ll ls = subk (kids ll) y ls'" by (auto simp: walk_append)
  qed (use P in auto)
  with deleteLockers_spec [OF upward_prefix(1), of ll P "[a]"] inv obtain ll' where
    d: "deleteLockers [a] ll = Some ll'" "heap_wf ll'" "roots_wf ll'" "same_nodes ll ll'"
      "\<forall>p. mget (allLockers ll') p = (if prefix P (split_on CHR '','' p) then None else mget (allLockers ll) p)"
      "\<forall>ls. \<not> prefix P ls \<longrightarrow> walk ll' ls = walk ll ls" "\<forall>ls d. walk ll' ls = Some d \<longrightarrow> walk ll ls = Some d"
      "\<forall>ls. walk ll' ls \<noteq> Some a" by (auto simp: ll_inv_def)
  have "walk ll' P = None" using d(7,8) P by (metis not_None_eq option.inject)
  then have "walk ll' (P @ ls) = None" for ls using P0 by (simp add: walk_append)
  then have in_P: "prefix P ls \<Longrightarrow> walk ll' ls = None" for ls by (metis prefixE)
  have w: "walk ll' ls = (if prefix P ls then None else walk ll ls)" for ls
    using in_P [of ls] spec [OF d(6), of ls] by argo
  then have "index_ok ll'" using d(5) inv by (simp add: index_ok_def ll_inv_def)
  with d(1-4) w show ?thesis unfolding deleteLocker_def ll_inv_def by blast
qed

text \<open>The same for all sub lockers of a locker.\<close>

lemma deleteSubs_inv:
  assumes inv: "ll_inv ll" and P: "walk ll P = Some a" and c: "mget (llHeap ll) a = Some c"
  shows "\<exists>ll'. deleteLockers (map snd (SubLockers c)) ll = Some ll' \<and> ll_inv ll' \<and> same_nodes ll ll' \<and>
     (\<forall>ls. walk ll' ls = (if strict_prefix P ls then None else walk ll ls))"
proof -
  have P0: "P \<noteq> []" using P by (cases P) auto
  have wf: "heap_wf ll" "roots_wf ll" using inv by (auto simp: ll_inv_def)
  have kid: "kids ll a l = mget (SubLockers c) l" for l using c by (simp add: kids_def)
  have "todo_ok (strict_prefix P) (map snd (SubLockers c)) ll"
  proof (rule index_todo [OF inv])
    show "\<forall>y \<in> set (map snd (SubLockers c)). \<exists>Q. walk ll Q = Some y \<and> strict_prefix P Q"
    proof
      fix y assume "y \<in> set (map snd (SubLockers c))"
      then obtain l where "(l, y) \<in> set (SubLockers c)" by auto
      then have "kids ll a l = Some y" using heap_wfD(6) [OF wf(1) c] by (simp add: kid mwf_get_iff)
      with P P0 have "walk ll (P @ [l]) = Some y" by (simp add: walk_append)
      then show "\<exists>Q. walk ll Q = Some y \<and> strict_prefix P Q" by (intro exI [of _ "P @ [l]"]) (simp add: strict_prefix_def)
    qed
    fix ls assume ls: "strict_prefix P ls" "walk ll ls \<noteq> None"
    then obtain l ls' where ls': "ls = P @ l # ls'" by (metis strict_prefixE')
    with ls P P0 obtain y where y: "mget (SubLockers c) l = Some y" "walk ll ls = subk (kids ll) y ls'"
      by (auto simp: walk_append kid split: option.splits)
    then have "y \<in> set (map snd (SubLockers c))" by (force dest: mget_in_set)
    with y(2) show "\<exists>y \<in> set (map snd (SubLockers c)). \<exists>ls'. walk ll ls = subk (kids ll) y ls'" by blast
  qed
  with deleteLockers_spec [OF upward_prefix(2), of ll P "map snd (SubLockers c)"] wf obtain ll' where
    d: "deleteLockers (map snd (SubLockers c)) ll = Some ll'" "heap_wf ll'" "roots_wf ll'" "same_nodes ll ll'"
      "\<forall>p. mget (allLockers ll') p = (if strict_prefix P (split_on CHR '','' p) then None else mget (allLockers ll) p)"
      "\<forall>ls. \<not> strict_prefix P ls \<longrightarrow> walk ll' ls = walk ll ls" "\<forall>ls d. walk ll' ls = Some d \<longrightarrow> walk ll ls = Some d"
      "\<forall>y \<in> set (map snd (SubLockers c)). \<forall>ls. walk ll' ls \<noteq> Some y" by blast
  have no: "walk ll' (P @ [l]) = None" for l
  proof (rule ccontr)
    assume "walk ll' (P @ [l]) \<noteq> None"
    then obtain y where y: "walk ll' (P @ [l]) = Some y" by blast
    with d(7) have "walk ll (P @ [l]) = Some y" by blast
    with P P0 have "mget (SubLockers c) l = Some y" by (simp add: walk_append kid split: option.splits)
    then have "y \<in> set (map snd (SubLockers c))" by (force dest: mget_in_set)
    with d(8) y show False by blast
  qed
  have in_P: "walk ll' ls = None" if "strict_prefix P ls" for ls
  proof -
    from that obtain l ls' where "ls = (P @ [l]) @ ls'" by (metis strict_prefixE' append_Cons append_Nil append_assoc)
    with no [of l] walk_append [of "P @ [l]" ll' ls'] show ?thesis by simp
  qed
  have w: "walk ll' ls = (if strict_prefix P ls then None else walk ll ls)" for ls
    using in_P [of ls] spec [OF d(6), of ls] by argo
  then have "index_ok ll'" using d(5) inv by (simp add: index_ok_def ll_inv_def)
  with d(1-4) w show ?thesis unfolding ll_inv_def by blast
qed

section \<open>Creating lockers\<close>

text \<open>Changes of a locker that leave its links alone.\<close>

definition keeps_links :: "(combi_locker \<Rightarrow> combi_locker) \<Rightarrow> bool" where
  "keeps_links f \<longleftrightarrow> (\<forall>c. clLabel (f c) = clLabel c \<and> clPathLabel (f c) = clPathLabel c \<and>
     clParent (f c) = clParent c \<and> SubLockers (f c) = SubLockers c)"

lemma walk_cong: "kids ll' = kids ll \<Longrightarrow> llLockers ll' = llLockers ll \<Longrightarrow> walk ll' ls = walk ll ls"
  by (cases ls) (simp_all split: option.splits)

lemma upd_cl_kids: "keeps_links f \<Longrightarrow> kids (upd_cl a f ll) = kids ll"
  by (auto simp: kids_def upd_cl_heap keeps_links_def fun_eq_iff split: option.splits)

lemma upd_cl_inv:
  assumes "keeps_links f" and "ll_inv ll"
  shows "ll_inv (upd_cl a f ll)"
proof -
  have h: "mget (llHeap ll) y = Some e \<Longrightarrow> \<exists>d. mget (llHeap (upd_cl a f ll)) y = Some d \<and> clLabel d = clLabel e \<and>
      clPathLabel d = clPathLabel e \<and> clParent d = clParent e \<and> SubLockers d = SubLockers e" for y e
    using assms(1) by (auto simp: upd_cl_heap keeps_links_def)
  have hd: "mget (llHeap (upd_cl a f ll)) y = Some d \<Longrightarrow> \<exists>e. mget (llHeap ll) y = Some e \<and> clLabel d = clLabel e \<and>
      clPathLabel d = clPathLabel e \<and> clParent d = clParent e \<and> SubLockers d = SubLockers e" for y d
    using assms(1) by (auto simp: upd_cl_heap keeps_links_def split: if_splits)
  have "heap_wf (upd_cl a f ll)"
    unfolding heap_wf_def
  proof (intro allI impI)
    fix y d assume "mget (llHeap (upd_cl a f ll)) y = Some d"
    from hd [OF this] obtain e where e: "mget (llHeap ll) y = Some e" "clLabel d = clLabel e"
      "clPathLabel d = clPathLabel e" "clParent d = clParent e" "SubLockers d = SubLockers e" by blast
    from assms(2) have wf: "heap_wf ll" by (simp add: ll_inv_def)
    note w = heap_wfD [OF wf e(1)]
    show "y < llNext (upd_cl a f ll) \<and> CHR '','' \<notin> set (clLabel d) \<and>
        (case clParent d of None \<Rightarrow> clPathLabel d = clLabel d
         | Some p \<Rightarrow> \<exists>x. mget (llHeap (upd_cl a f ll)) p = Some x \<and> clPathLabel d = clPathLabel x @ '','' @ clLabel d) \<and>
        (\<forall>l b. (l, b) \<in> set (SubLockers d) \<longrightarrow>
           y < b \<and> (\<exists>x. mget (llHeap (upd_cl a f ll)) b = Some x \<and> clParent x = Some y \<and> clLabel x = l)) \<and> mwf (SubLockers d)"
      using w e h by (fastforce split: option.splits)
  qed
  moreover have "roots_wf (upd_cl a f ll)"
    using assms(2) h unfolding roots_wf_def ll_inv_def by fastforce
  moreover have "index_ok (upd_cl a f ll)"
    using assms(2) walk_cong [OF upd_cl_kids [OF assms(1)], of a ll] by (simp add: index_ok_def ll_inv_def)
  ultimately show ?thesis by (simp add: ll_inv_def)
qed

lemma NewCombiLocker_fields [simp]:
  "clLabel (NewCombiLocker now l p) = l" "SubLockers (NewCombiLocker now l p) = []"
  "clParent (NewCombiLocker now l p) = map_option fst p"
  "clPathLabel (NewCombiLocker now l None) = l" "clPathLabel (NewCombiLocker now l (Some (a, s))) = s @ '','' @ l"
  by (auto simp: NewCombiLocker_def cl_Init_def cl_Open_def)

lemma heap_wf_fresh: "heap_wf ll \<Longrightarrow> llNext ll \<le> a \<Longrightarrow> mget (llHeap ll) a = None"
  using heap_wfD(1) [of ll a] by (cases "mget (llHeap ll) a") auto

lemma add_root_inv:
  assumes inv: "ll_inv ll" and l: "CHR '','' \<notin> set l" and new: "mget (llLockers ll) l = None" and r: "add_root now l ll = (ll', a)"
  shows "ll_inv ll' \<and> walk ll' [l] = Some a \<and> (\<forall>ls d. walk ll ls = Some d \<longrightarrow> walk ll' ls = Some d) \<and>
    (\<forall>ls. walk ll' ls \<noteq> None \<longrightarrow> walk ll ls \<noteq> None \<or> prefix ls [l])"
proof -
  from inv have wf: "heap_wf ll" "roots_wf ll" "index_ok ll" by (auto simp: ll_inv_def)
  have ll': "a = llNext ll" "ll' = ll\<lparr>llHeap := mput a (NewCombiLocker now l None) (llHeap ll), llNext := llNext ll + 1,
      llLockers := mput l a (llLockers ll), allLockers := mput l a (allLockers ll)\<rparr>"
    using r by (auto simp: add_root_def alloc_cl_def)
  have fresh: "mget (llHeap ll) a = None" using heap_wf_fresh [OF wf(1)] ll' by simp
  have k: "kids ll' = kids ll" using fresh by (auto simp: kids_def ll'(2) fun_eq_iff)
  have w: "walk ll' ls = (if ls = [l] then Some a else walk ll ls)" for ls
  proof (cases ls)
    case (Cons l' rest)
    then show ?thesis
      using new fresh k by (cases rest) (auto simp: ll'(2) kids_def split: option.splits)
  qed simp
  have "heap_wf ll'"
    unfolding heap_wf_def
  proof (intro allI impI)
    fix y d assume y: "mget (llHeap ll') y = Some d"
    show "y < llNext ll' \<and> CHR '','' \<notin> set (clLabel d) \<and>
        (case clParent d of None \<Rightarrow> clPathLabel d = clLabel d
         | Some p \<Rightarrow> \<exists>x. mget (llHeap ll') p = Some x \<and> clPathLabel d = clPathLabel x @ '','' @ clLabel d) \<and>
        (\<forall>l b. (l, b) \<in> set (SubLockers d) \<longrightarrow>
           y < b \<and> (\<exists>x. mget (llHeap ll') b = Some x \<and> clParent x = Some y \<and> clLabel x = l)) \<and> mwf (SubLockers d)"
    proof (cases "y = a")
      case True
      with y l ll' show ?thesis by auto
    next
      case False
      with y ll' have "mget (llHeap ll) y = Some d" by auto
      from heap_wfD [OF wf(1) this] fresh show ?thesis
        by (fastforce simp: ll'(2) split: option.splits)
    qed
  qed
  moreover have "roots_wf ll'"
    unfolding roots_wf_def
  proof (intro allI impI)
    fix l' b assume b: "mget (llLockers ll') l' = Some b"
    have "mget (llLockers ll') l' = (if l' = l then Some a else mget (llLockers ll) l')" by (simp add: ll'(2))
    with b consider "l' = l" "b = a" | "mget (llLockers ll) l' = Some b" by (cases "l' = l") simp_all
    then show "\<exists>c. mget (llHeap ll') b = Some c \<and> clParent c = None \<and> clLabel c = l'"
    proof cases
      case 2
      with wf(2) obtain c where "mget (llHeap ll) b = Some c" "clParent c = None" "clLabel c = l'"
        unfolding roots_wf_def by blast
      with fresh show ?thesis by (auto simp: ll'(2))
    qed (simp add: ll'(2))
  qed
  moreover have "index_ok ll'"
    unfolding index_ok_def
  proof
    fix p
    have "split_on CHR '','' p = [l] \<longleftrightarrow> p = l" using l by (metis split_on_inj split_on_no_sep)
    with wf(3) w show "mget (allLockers ll') p = walk ll' (split_on CHR '','' p)" by (auto simp: index_ok_def ll'(2))
  qed
  moreover have "walk ll ls = Some d \<Longrightarrow> walk ll' ls = Some d" for ls d
    using w [of ls] new by auto
  moreover have "\<forall>ls. walk ll' ls \<noteq> None \<longrightarrow> walk ll ls \<noteq> None \<or> prefix ls [l]" using w by auto
  moreover have "walk ll' [l] = Some a" by (simp only: w if_True refl)
  ultimately show ?thesis unfolding ll_inv_def by blast
qed

text \<open>Adding one link to a fresh locker.\<close>

lemma subk_link:
  assumes "k a l = None" and "\<And>m. k b m = None" and "b \<noteq> a"
  shows "subk (\<lambda>y m. if y = a \<and> m = l then Some b else k y m) y ls = Some d \<longleftrightarrow>
    subk k y ls = Some d \<or> (\<exists>ls1. ls = ls1 @ [l] \<and> subk k y ls1 = Some a \<and> d = b)" (is "subk ?k y ls = _ \<longleftrightarrow> _")
proof (induction ls arbitrary: y)
  case (Cons m ls)
  show ?case
  proof (cases "y = a \<and> m = l")
    case True
    have "subk ?k b ls = Some d \<longleftrightarrow> ls = [] \<and> d = b" using assms(2,3) by (cases ls) auto
    moreover have "subk k a (l # ls1) = None" for ls1 using assms(1) by simp
    ultimately show ?thesis using True by (auto simp: Cons_eq_append_conv)
  next
    case False
    show ?thesis
    proof (cases "k y m")
      case None
      have "subk ?k y (m # ls) = None" "subk k y (m # ls) = None" using False None by auto
      moreover have "subk k y ls1 \<noteq> Some a \<or> m # ls \<noteq> ls1 @ [l]" for ls1
        using False None by (cases ls1) auto
      ultimately show ?thesis by (metis option.distinct(1))
    next
      case (Some z)
      have "subk ?k y (m # ls) = subk ?k z ls" "subk k y (m # ls) = subk k z ls" using False Some by auto
      moreover have "(\<exists>ls1. m # ls = ls1 @ [l] \<and> subk k y ls1 = Some a \<and> d = b) \<longleftrightarrow>
          (\<exists>ls1. ls = ls1 @ [l] \<and> subk k z ls1 = Some a \<and> d = b)" (is "?L \<longleftrightarrow> ?R")
      proof
        assume ?L
        then obtain ls1 where "m # ls = ls1 @ [l]" "subk k y ls1 = Some a" "d = b" by blast
        with False Some show ?R by (cases ls1) auto
      next
        assume ?R
        then obtain ls1 where "ls = ls1 @ [l]" "subk k z ls1 = Some a" "d = b" by blast
        with Some show ?L by (intro exI [of _ "m # ls1"]) simp
      qed
      ultimately show ?thesis using Cons.IH [of z] by presburger
    qed
  qed
qed auto

lemma add_sub_inv:
  assumes inv: "ll_inv ll" and P: "walk ll P = Some a" and c: "mget (llHeap ll) a = Some c"
    and l: "CHR '','' \<notin> set l" and new: "mget (SubLockers c) l = None"
    and r: "add_sub now a c (clPathLabel c @ '','' @ l) l ll = (ll', b)"
  shows "ll_inv ll' \<and> walk ll' (P @ [l]) = Some b \<and> (\<forall>ls d. walk ll ls = Some d \<longrightarrow> walk ll' ls = Some d) \<and>
    (\<exists>d. mget (llHeap ll') b = Some d \<and> clPathLabel d = clPathLabel c @ '','' @ l) \<and>
    (\<forall>ls. walk ll' ls \<noteq> None \<longrightarrow> walk ll ls \<noteq> None \<or> prefix ls (P @ [l]))"
proof -
  from inv have wf: "heap_wf ll" "roots_wf ll" "index_ok ll" by (auto simp: ll_inv_def)
  let ?new = "NewCombiLocker now l (Some (a, clPathLabel c))"
  have b: "b = llNext ll" using r by (auto simp: add_sub_def alloc_cl_def)
  have fresh: "mget (llHeap ll) b = None" using heap_wf_fresh [OF wf(1)] b by simp
  with c have ab: "b \<noteq> a" by auto
  have ll': "ll' = ll\<lparr>llHeap := mput a (c\<lparr>SubLockers := mput l b (SubLockers c)\<rparr>) (mput b ?new (llHeap ll)), llNext := llNext ll + 1,
      allLockers := mput (clPathLabel c @ '','' @ l) b (allLockers ll)\<rparr>"
    using r c ab b by (auto simp: add_sub_def alloc_cl_def upd_cl_def Let_def)
  have heap: "mget (llHeap ll') y = (if y = a then Some (c\<lparr>SubLockers := mput l b (SubLockers c)\<rparr>)
      else if y = b then Some ?new else mget (llHeap ll) y)" for y
    by (simp add: ll')
  have k: "kids ll' = (\<lambda>y m. if y = a \<and> m = l then Some b else kids ll y m)"
    using c fresh ab by (auto simp: kids_def heap fun_eq_iff)
  have P0: "split_on CHR '','' (clPathLabel c) = P" using walk_split [OF wf(1,2) P] c by auto
  have link: "walk ll' ls = Some d \<longleftrightarrow> walk ll ls = Some d \<or> (\<exists>ls1. ls = ls1 @ [l] \<and> walk ll ls1 = Some a \<and> d = b)" for ls d
  proof (cases ls)
    case (Cons m rest)
    show ?thesis
    proof (cases "mget (llLockers ll) m")
      case None
      have "walk ll' ls = None" "walk ll ls = None" using Cons None by (auto simp: ll')
      moreover have "walk ll ls1 \<noteq> Some a \<or> ls \<noteq> ls1 @ [l]" for ls1
        using Cons None by (cases ls1) auto
      ultimately show ?thesis by (metis option.distinct(1))
    next
      case (Some z)
      have kb: "kids ll b x = None" for x using fresh by (simp add: kids_def)
      have ka: "kids ll a l = None" using new c by (simp add: kids_def)
      have "walk ll' ls = subk (kids ll') z rest" "walk ll ls = subk (kids ll) z rest" using Cons Some by (auto simp: ll')
      moreover have "(\<exists>ls1. ls = ls1 @ [l] \<and> walk ll ls1 = Some a \<and> d = b) \<longleftrightarrow>
          (\<exists>ls1. rest = ls1 @ [l] \<and> subk (kids ll) z ls1 = Some a \<and> d = b)" (is "?L \<longleftrightarrow> ?R")
      proof
        assume ?L
        then obtain ls1 where "ls = ls1 @ [l]" "walk ll ls1 = Some a" "d = b" by blast
        with Cons Some show ?R by (cases ls1) auto
      next
        assume ?R
        then obtain ls1 where "rest = ls1 @ [l]" "subk (kids ll) z ls1 = Some a" "d = b" by blast
        with Cons Some show ?L by (intro exI [of _ "m # ls1"]) simp
      qed
      ultimately show ?thesis unfolding k using subk_link [of "kids ll", OF ka kb ab, of z rest d] by presburger
    qed
  qed simp
  have w: "walk ll' ls = (if ls = P @ [l] then Some b else walk ll ls)" for ls
  proof -
    have one: "walk ll ls1 = Some a \<Longrightarrow> ls1 = P" for ls1
      using walk_split [OF wf(1,2), of ls1 a] c P0 by auto
    show ?thesis
    proof (cases "ls = P @ [l]")
      case True
      with P have "walk ll' ls = Some b" unfolding link by blast
      with True show ?thesis by simp
    next
      case False
      with one have "walk ll' ls = Some d \<longleftrightarrow> walk ll ls = Some d" for d unfolding link by blast
      then have "walk ll' ls = walk ll ls" by (metis not_None_eq)
      with False show ?thesis by simp
    qed
  qed
  have "heap_wf ll'"
    unfolding heap_wf_def
  proof (intro allI impI)
    fix y d assume y: "mget (llHeap ll') y = Some d"
    have other: "\<exists>x'. mget (llHeap ll') z = Some x' \<and> clParent x' = clParent x \<and> clLabel x' = clLabel x \<and> clPathLabel x' = clPathLabel x"
      if "mget (llHeap ll) z = Some x" for z x
      using that c fresh by (auto simp: heap)
    note wc = heap_wfD [OF wf(1) c]
    show "y < llNext ll' \<and> CHR '','' \<notin> set (clLabel d) \<and>
        (case clParent d of None \<Rightarrow> clPathLabel d = clLabel d
         | Some p \<Rightarrow> \<exists>x. mget (llHeap ll') p = Some x \<and> clPathLabel d = clPathLabel x @ '','' @ clLabel d) \<and>
        (\<forall>l b. (l, b) \<in> set (SubLockers d) \<longrightarrow>
           y < b \<and> (\<exists>x. mget (llHeap ll') b = Some x \<and> clParent x = Some y \<and> clLabel x = l)) \<and> mwf (SubLockers d)"
    proof (cases "y = b")
      case True
      with y ab have "d = ?new" by (simp add: heap)
      with True l b show ?thesis by (simp add: heap) (simp add: ll')
    next
      case False
      obtain e where e: "mget (llHeap ll) y = Some e" "clLabel d = clLabel e" "clPathLabel d = clPathLabel e" "clParent d = clParent e"
        "SubLockers d = SubLockers e \<or> y = a \<and> e = c \<and> SubLockers d = mput l b (SubLockers c)"
        using y False c by (auto simp: heap split: if_splits)
      note we = heap_wfD [OF wf(1) e(1)]
      have 1: "y < llNext ll'" using we(1) by (simp add: ll')
      have 2: "case clParent d of None \<Rightarrow> clPathLabel d = clLabel d
         | Some p \<Rightarrow> \<exists>x. mget (llHeap ll') p = Some x \<and> clPathLabel d = clPathLabel x @ '','' @ clLabel d"
        using we(3,4) e other by (fastforce split: option.splits)
      have 3: "y < z \<and> (\<exists>x. mget (llHeap ll') z = Some x \<and> clParent x = Some y \<and> clLabel x = m)"
        if "(m, z) \<in> set (SubLockers d)" for m z
      proof (cases "(m, z) \<in> set (SubLockers e)")
        case True
        with we(5) other show ?thesis by fastforce
      next
        case F: False
        with that e(5) have "y = a" "m = l" "z = b" using mput_set_subset [of l b "SubLockers c"] by auto
        then show ?thesis using wc(1) b ab by (auto simp: heap)
      qed
      have 4: "mwf (SubLockers d)" using we(6) e(5) wc(6) by auto
      from 1 2 3 4 we(2) e(2) show ?thesis by auto
    qed
  qed
  moreover have "roots_wf ll'"
    unfolding roots_wf_def
  proof (intro allI impI)
    fix m z assume "mget (llLockers ll') m = Some z"
    then have "mget (llLockers ll) m = Some z" by (simp add: ll')
    with wf(2) obtain x where "mget (llHeap ll) z = Some x" "clParent x = None" "clLabel x = m" unfolding roots_wf_def by blast
    with c fresh show "\<exists>c. mget (llHeap ll') z = Some c \<and> clParent c = None \<and> clLabel c = m" by (auto simp: heap)
  qed
  moreover have "index_ok ll'"
    unfolding index_ok_def
  proof
    fix p
    have "split_on CHR '','' (clPathLabel c @ '','' @ l) = P @ [l]" using l P0 by (simp add: split_on_snoc)
    then have "split_on CHR '','' p = P @ [l] \<longleftrightarrow> p = clPathLabel c @ '','' @ l" by (metis split_on_inj)
    with wf(3) w show "mget (allLockers ll') p = walk ll' (split_on CHR '','' p)" by (auto simp: index_ok_def ll')
  qed
  moreover have "walk ll ls = Some d \<Longrightarrow> walk ll' ls = Some d" for ls d using link by blast
  moreover have "\<forall>ls. walk ll' ls \<noteq> None \<longrightarrow> walk ll ls \<noteq> None \<or> prefix ls (P @ [l])" using w by auto
  moreover have "mget (llHeap ll') b = Some ?new" using ab by (simp add: heap)
  ultimately show ?thesis using w [of "P @ [l]"] ab unfolding ll_inv_def by auto
qed

lemma descend_inv:
  "ll_inv ll \<Longrightarrow> walk ll P = Some a \<Longrightarrow> mget (llHeap ll) a = Some c \<Longrightarrow> clPathLabel c = pathLabel \<Longrightarrow>
   \<forall>l \<in> set ls. CHR '','' \<notin> set l \<Longrightarrow>
   \<exists>ll' b. descend now a pathLabel ls ll = Some (ll', b) \<and> ll_inv ll' \<and> walk ll' (P @ ls) = Some b \<and>
     (\<forall>ls d. walk ll ls = Some d \<longrightarrow> walk ll' ls = Some d) \<and>
     (\<forall>qs. walk ll' qs \<noteq> None \<longrightarrow> walk ll qs \<noteq> None \<or> prefix qs (P @ ls))"
proof (induction ls arbitrary: ll P a c pathLabel)
  case (Cons l ls)
  note wf = Cons.prems(1) [unfolded ll_inv_def]
  have P0: "P \<noteq> []" using Cons.prems(2) by (cases P) auto
  show ?case
  proof (cases "mget (SubLockers c) l")
    case (Some b)
    with Cons.prems(3) have k: "kids ll a l = Some b" by (simp add: kids_def)
    from kids_wf [OF conjunct1 [OF wf] k Cons.prems(3)] obtain d where
      d: "mget (llHeap ll) b = Some d" "clParent d = Some a" "clLabel d = l" by blast
    with heap_wfD(4) [OF conjunct1 [OF wf] d(1,2)] Cons.prems(3,4) have "clPathLabel d = pathLabel @ '','' @ l" by auto
    moreover have "walk ll (P @ [l]) = Some b" using P0 Cons.prems(2) k by (simp add: walk_append)
    ultimately show ?thesis
      using Cons.IH [of ll "P @ [l]" b d] d(1) Cons.prems Some by simp
  next
    case None
    obtain ll1 b where r: "add_sub now a c (clPathLabel c @ '','' @ l) l ll = (ll1, b)" by fastforce
    from add_sub_inv [OF Cons.prems(1-3) _ None r] Cons.prems(5) obtain d where
      1: "ll_inv ll1" "walk ll1 (P @ [l]) = Some b" "\<forall>ls d. walk ll ls = Some d \<longrightarrow> walk ll1 ls = Some d"
        "\<forall>ls. walk ll1 ls \<noteq> None \<longrightarrow> walk ll ls \<noteq> None \<or> prefix ls (P @ [l])"
      and d: "mget (llHeap ll1) b = Some d" "clPathLabel d = clPathLabel c @ '','' @ l" by auto
    from Cons.IH [OF 1(1,2) d] Cons.prems(5) obtain ll' e where
      "descend now b (clPathLabel c @ '','' @ l) ls ll1 = Some (ll', e)" "ll_inv ll'" "walk ll' ((P @ [l]) @ ls) = Some e"
      and 2: "\<forall>ls d. walk ll1 ls = Some d \<longrightarrow> walk ll' ls = Some d"
        "\<forall>qs. walk ll' qs \<noteq> None \<longrightarrow> walk ll1 qs \<noteq> None \<or> prefix qs ((P @ [l]) @ ls)" by auto
    moreover have "prefix (P @ [l]) (P @ l # ls)" by simp
    then have "walk ll' qs \<noteq> None \<longrightarrow> walk ll qs \<noteq> None \<or> prefix qs (P @ l # ls)" for qs
      using 1(4) 2(2) prefix_order.trans [of qs "P @ [l]" "P @ l # ls"] by fastforce
    ultimately show ?thesis using Cons.prems(3,4) None r 1(3) by auto
  qed
qed simp

text \<open>Creating or getting a locker: afterwards its label leads to it, and all other labels to what they led to.\<close>

lemma createOrGet_inv:
  assumes inv: "ll_inv ll" and l: "hd (split_on CHR '','' label) \<noteq> []"
  shows "\<exists>ll' a. unsafeCreateOrGetLocker now label ll = Some (ll', Some a) \<and> ll_inv ll' \<and>
     mget (allLockers ll') label = Some a \<and> (\<forall>ls d. walk ll ls = Some d \<longrightarrow> walk ll' ls = Some d) \<and>
     (\<forall>qs. walk ll' qs \<noteq> None \<longrightarrow> walk ll qs \<noteq> None \<or> prefix qs (split_on CHR '','' label))"
proof -
  obtain l ls where s: "split_on CHR '','' label = l # ls" by (metis list.exhaust split_on_not_Nil)
  have nc: "CHR '','' \<notin> set l" "\<forall>l \<in> set ls. CHR '','' \<notin> set l"
    using split_on_pieces_no_sep [of _ "CHR '',''" label] s by auto
  obtain ll1 a where r: "(case mget (llLockers ll) l of Some a \<Rightarrow> (ll, a) | None \<Rightarrow> add_root now l ll) = (ll1, a)" by fastforce
  have 1: "ll_inv ll1 \<and> walk ll1 [l] = Some a \<and> (\<forall>ls d. walk ll ls = Some d \<longrightarrow> walk ll1 ls = Some d) \<and>
      (\<forall>qs. walk ll1 qs \<noteq> None \<longrightarrow> walk ll qs \<noteq> None \<or> prefix qs [l])"
  proof (cases "mget (llLockers ll) l")
    case None
    with r add_root_inv [OF inv nc(1) None, of now ll1 a] show ?thesis by simp
  next
    case (Some z)
    with r inv show ?thesis by simp
  qed
  then have wf: "heap_wf ll1" "roots_wf ll1" "walk ll1 [l] = Some a" by (auto simp: ll_inv_def)
  from walk_split [OF this] obtain c where c: "mget (llHeap ll1) a = Some c" "split_on CHR '','' (clPathLabel c) = [l]" by blast
  with nc(1) have "clPathLabel c = l" by (metis split_on_inj split_on_no_sep)
  from descend_inv [of ll1 "[l]" a c l ls now] 1 c(1) this nc(2) obtain ll' b where
    d: "descend now a l ls ll1 = Some (ll', b)" "ll_inv ll'" "walk ll' ([l] @ ls) = Some b"
      "\<forall>ls d. walk ll1 ls = Some d \<longrightarrow> walk ll' ls = Some d"
      "\<forall>qs. walk ll' qs \<noteq> None \<longrightarrow> walk ll1 qs \<noteq> None \<or> prefix qs ([l] @ ls)" by blast
  have "walk ll' qs \<noteq> None \<longrightarrow> walk ll qs \<noteq> None \<or> prefix qs (split_on CHR '','' label)" for qs
    using 1 d(5) s prefix_order.trans [of qs "[l]" "l # ls"] by fastforce
  moreover have "unsafeCreateOrGetLocker now label ll = Some (ll', Some b)"
    using s l r d(1) by (simp add: unsafeCreateOrGetLocker_def)
  moreover have "mget (allLockers ll') label = Some b" using d(2,3) s by (simp add: ll_inv_def index_ok_def)
  ultimately show ?thesis using d(2,4) 1 by blast
qed

lemma keeps_links_simps [simp]:
  "keeps_links (cl_Open now)" "keeps_links (\<lambda>c. c\<lparr>clCurrent := b\<rparr>)" "keeps_links (cl_Store now keys v)"
  "keeps_links (cl_Remove keys)"
  by (auto simp: keeps_links_def cl_Open_def cl_Store_def cl_Remove_def)

lemma inv_current [simp]: "ll_inv (ll\<lparr>currentLocker := c\<rparr>) = ll_inv ll"
proof -
  have "walk (ll\<lparr>currentLocker := c\<rparr>) ls = walk ll ls" for ls by (rule walk_cong) (auto simp: kids_def fun_eq_iff)
  then show ?thesis by (simp add: ll_inv_def heap_wf_def roots_wf_def index_ok_def cong: option.case_cong)
qed

lemma walk_upd_cl: "keeps_links f \<Longrightarrow> walk (upd_cl a f ll) ls = walk ll ls"
  by (rule walk_cong) (simp_all add: upd_cl_kids)

lemma walk_current [simp]: "walk (ll\<lparr>currentLocker := c\<rparr>) ls = walk ll ls"
  by (rule walk_cong) (auto simp: kids_def fun_eq_iff)

lemma OpenLocker_inv:
  assumes "ll_inv ll" and "hd (split_on CHR '','' label) \<noteq> []"
  shows "\<exists>ll' a. OpenLocker now label ll = Some ll' \<and> ll_inv ll' \<and> currentLocker ll' = Some a \<and>
     mget (allLockers ll') label = Some a \<and> (\<forall>ls d. walk ll ls = Some d \<longrightarrow> walk ll' ls = Some d) \<and>
     (\<forall>qs. walk ll' qs \<noteq> None \<longrightarrow> walk ll qs \<noteq> None \<or> prefix qs (split_on CHR '','' label))"
proof -
  define ll0 where "ll0 = (case currentLocker ll of None \<Rightarrow> ll | Some c \<Rightarrow> upd_cl c (\<lambda>c. c\<lparr>clCurrent := False\<rparr>) ll)"
  have "ll_inv ll0" "walk ll0 ls = walk ll ls" for ls
    using assms(1) by (auto simp: ll0_def upd_cl_inv walk_upd_cl split: option.splits)
  with createOrGet_inv [OF this(1) assms(2), of now] show ?thesis
    by (auto simp: OpenLocker_def ll0_def [symmetric] upd_cl_inv walk_upd_cl)
qed

end
