(* ===== verification/Locker_Lifecycle.thy ===== *)
theory Locker_Lifecycle
  imports Locker_Combi
begin

text \<open>
  The life of labeled lockers: what closing and clearing a locker does to the tree, the reachable
  states of \<open>LabeledLockers\<close>, and the properties of opening, reading and closing lockers.
\<close>

section \<open>Clearing and closing\<close>

lemma same_nodes_heap: "same_nodes ll ll' \<Longrightarrow> mget (llHeap ll) y = Some c \<Longrightarrow> \<exists>subs. mget (llHeap ll') y = Some (c\<lparr>SubLockers := subs\<rparr>)"
  unfolding same_nodes_def by blast

lemma close_inv:
  assumes inv: "ll_inv ll" and a: "mget (allLockers ll) p = Some a" and nd: "p \<noteq> ''default''"
    and d: "walk ll [''default''] \<noteq> None"
  shows "\<exists>ll'. ClearLocker now p True ll = Some ll' \<and> ll_inv ll' \<and>
     (\<forall>ls. walk ll' ls = (if prefix (split_on CHR '','' p) ls then None else walk ll ls)) \<and>
     (currentLocker ll \<noteq> Some a \<longrightarrow> currentLocker ll' = currentLocker ll) \<and>
     (\<forall>y. mget (llHeap ll) y \<noteq> None \<longrightarrow> mget (llHeap ll') y \<noteq> None) \<and>
     (currentLocker ll = Some a \<longrightarrow> (\<exists>c. currentLocker ll' = Some c \<and> mget (llHeap ll') c \<noteq> None))"
proof -
  have w: "walk ll (split_on CHR '','' p) = Some a" using inv a by (simp add: ll_inv_def index_ok_def)
  from deleteLocker_inv [OF inv this] obtain ll1 where
    1: "deleteLocker a ll = Some ll1" "ll_inv ll1" "same_nodes ll ll1"
      "\<forall>ls. walk ll1 ls = (if prefix (split_on CHR '','' p) ls then None else walk ll ls)" by blast
  have cur: "currentLocker ll1 = currentLocker ll" using 1(3) by (simp add: same_nodes_def)
  have hp: "mget (llHeap ll) y \<noteq> None \<Longrightarrow> mget (llHeap ll1) y \<noteq> None" for y
    using same_nodes_heap [OF 1(3), of y] by (cases "mget (llHeap ll) y") auto
  have "split_on CHR '','' p \<noteq> [''default'']" using nd join_split_on [of "CHR '',''" p] by auto
  then have "\<not> prefix (split_on CHR '','' p) [''default'']" by (auto simp: prefix_Cons)
  with d 1(4) have "walk ll1 [''default''] \<noteq> None" by presburger
  then obtain e where e: "mget (llLockers ll1) ''default'' = Some e" by (cases "mget (llLockers ll1) ''default''") auto
  then have "\<exists>c. mget (llHeap ll1) e = Some c" using 1(2) unfolding ll_inv_def roots_wf_def by blast
  then show ?thesis
    using a 1(1,2,4) cur e hp
    by (cases "currentLocker ll = Some a") (auto simp: ClearLocker_def upd_cl_inv walk_upd_cl upd_cl_heap)
qed

lemma upd_cl_cong: "mget (llHeap ll) a = Some c \<Longrightarrow> f c = g c \<Longrightarrow> upd_cl a f ll = upd_cl a g ll"
  by (simp add: upd_cl_def)

lemma clear_inv:
  assumes inv: "ll_inv ll" and a: "mget (allLockers ll) p = Some a"
  shows "\<exists>ll'. ClearLocker now p False ll = Some ll' \<and> ll_inv ll' \<and>
     (\<forall>ls. walk ll' ls = (if strict_prefix (split_on CHR '','' p) ls then None else walk ll ls)) \<and>
     currentLocker ll' = currentLocker ll \<and> (\<forall>y. mget (llHeap ll) y \<noteq> None \<longrightarrow> mget (llHeap ll') y \<noteq> None)"
proof -
  let ?P = "split_on CHR '','' p"
  have w: "walk ll ?P = Some a" using inv a by (simp add: ll_inv_def index_ok_def)
  from inv a index_path obtain c where c: "mget (llHeap ll) a = Some c" by blast
  from deleteSubs_inv [OF inv w c] obtain ll1 where
    1: "deleteLockers (map snd (SubLockers c)) ll = Some ll1" "ll_inv ll1" "same_nodes ll ll1"
      "\<forall>ls. walk ll1 ls = (if strict_prefix ?P ls then None else walk ll ls)" by blast
  from same_nodes_heap [OF 1(3) c] obtain subs where e: "mget (llHeap ll1) a = Some (c\<lparr>SubLockers := subs\<rparr>)" by blast
  have "walk ll1 ?P = Some a" using 1(4) w by simp
  moreover have "walk ll1 (?P @ [l]) = None" for l using 1(4) by (simp add: strict_prefix_def)
  ultimately have "kids ll1 a l = None" for l
    using walk_append [OF split_on_not_Nil, of ll1 "CHR '',''" p "[l]"] by (auto split: option.splits)
  with e have "mget subs l = None" for l by (simp add: kids_def)
  then have subs: "subs = []" by (metis list.set_cases option.distinct(1) prod.collapse weak_map_of_SomeI list.set_intros(1) neq_Nil_conv)
  let ?g = "\<lambda>c. (cl_Init now c)\<lparr>SubLockers := SubLockers c\<rparr>"
  have g: "keeps_links ?g" by (auto simp: keeps_links_def cl_Init_def cl_Open_def)
  have "upd_cl a (cl_Init now) ll1 = upd_cl a ?g ll1"
    by (rule upd_cl_cong [OF e]) (simp add: subs cl_Init_def cl_Open_def)
  moreover have "currentLocker ll1 = currentLocker ll" using 1(3) by (simp add: same_nodes_def)
  moreover have "mget (llHeap ll) y \<noteq> None \<Longrightarrow> mget (llHeap ll1) y \<noteq> None" for y
    using same_nodes_heap [OF 1(3), of y] by (cases "mget (llHeap ll) y") auto
  ultimately show ?thesis using a c 1 g by (auto simp: ClearLocker_def upd_cl_inv walk_upd_cl upd_cl_heap)
qed

text \<open>The states of the labeled lockers until a dump is loaded or the lockers of another registry are cloned:
  \<open>ReplaceLockers\<close> keeps stale entries of the index, as \<open>locker_index_consistent\<close> says, so it is no step
  here. The handler \<open>closeOrClearLabeledLocker\<close> refuses to close the default locker.\<close>

inductive ll_reachable :: "labeled_lockers \<Rightarrow> bool" where
  new: "ll_reachable (NewLabeledLockers now)"
| open_locker: "ll_reachable ll \<Longrightarrow> OpenLocker now label ll = Some ll' \<Longrightarrow> ll_reachable ll'"
| get_or_create: "ll_reachable ll \<Longrightarrow> GetOrCreateLocker now label ll = Some (ll', a) \<Longrightarrow> ll_reachable ll'"
| clear: "ll_reachable ll \<Longrightarrow> \<not> (close \<and> EqualFold label ''default'') \<Longrightarrow> ClearLocker now label close ll = Some ll' \<Longrightarrow>
    ll_reachable ll'"
| init: "ll_reachable ll \<Longrightarrow> ll_reachable (ll_Init now ll)"
| store: "ll_reachable ll \<Longrightarrow> ll_reachable (upd_cl a (cl_Store now keys val) ll)"
| remove: "ll_reachable ll \<Longrightarrow> ll_reachable (upd_cl a (cl_Remove keys) ll)"

definition ll_ok :: "labeled_lockers \<Rightarrow> bool" where
  "ll_ok ll \<longleftrightarrow> ll_inv ll \<and> walk ll [''default''] \<noteq> None"

lemma no_lockers_inv: "heap_wf ll \<Longrightarrow> llLockers ll = [] \<Longrightarrow> allLockers ll = [] \<Longrightarrow> ll_inv ll"
proof -
  assume a: "heap_wf ll" "llLockers ll = []" "allLockers ll = []"
  then have "walk ll ls = None" for ls by (cases ls) auto
  with a show ?thesis by (simp add: ll_inv_def roots_wf_def index_ok_def)
qed

lemma heap_wf_cong: "heap_wf ll \<Longrightarrow> llHeap ll' = llHeap ll \<Longrightarrow> llNext ll' = llNext ll \<Longrightarrow> heap_wf ll'"
  by (simp add: heap_wf_def cong: option.case_cong)

lemma ll_Init_ok:
  assumes "heap_wf ll" shows "ll_ok (ll_Init now ll)"
proof -
  let ?e = "ll\<lparr>llLockers := [], allLockers := []\<rparr>"
  have "add_root now ''default'' ?e = ((ll_Init now ll)\<lparr>currentLocker := currentLocker ll\<rparr>, llNext ll)"
    by (simp add: ll_Init_def add_root_def alloc_cl_def)
  from add_root_inv [OF no_lockers_inv _ _ this] assms
  have "ll_inv (ll_Init now ll) \<and> walk (ll_Init now ll) [''default''] = Some (llNext ll)"
    by (simp add: heap_wf_cong [of ll] del: walk.simps)
  then show ?thesis by (simp add: ll_ok_def del: walk.simps)
qed

lemma NewLabeledLockers_ok: "ll_ok (NewLabeledLockers now)"
  unfolding NewLabeledLockers_def by (rule ll_Init_ok) (simp add: heap_wf_def empty_lockers_def)

lemma create_hd: "unsafeCreateOrGetLocker now label ll = Some (ll', Some a) \<Longrightarrow> hd (split_on CHR '','' label) \<noteq> []"
  by (auto simp: unsafeCreateOrGetLocker_def split: list.splits if_splits)

lemma create_nil: "hd (split_on CHR '','' label) = [] \<Longrightarrow> unsafeCreateOrGetLocker now label ll = Some (ll, None)"
  by (auto simp: unsafeCreateOrGetLocker_def split: list.splits)

lemma ll_reachable_ok: "ll_reachable ll \<Longrightarrow> ll_ok ll"
proof (induction rule: ll_reachable.induct)
  case (open_locker ll now label ll')
  then have "hd (split_on CHR '','' label) \<noteq> []"
    using create_nil by (fastforce simp: OpenLocker_def Let_def split: option.splits prod.splits)
  from OpenLocker_inv [OF _ this, of ll now] open_locker have
    "ll_inv ll'" "\<forall>ls d. walk ll ls = Some d \<longrightarrow> walk ll' ls = Some d" by (auto simp: ll_ok_def)
  with open_locker show ?case unfolding ll_ok_def by blast
next
  case (get_or_create ll now label ll' a)
  show ?case
  proof (cases "EqualFold label ''current'' \<or> hd (split_on CHR '','' label) = []")
    case True
    with get_or_create show ?thesis by (auto simp: GetOrCreateLocker_def create_nil split: if_splits)
  next
    case False
    with get_or_create createOrGet_inv [of ll label now] have
      "ll_inv ll'" "\<forall>ls d. walk ll ls = Some d \<longrightarrow> walk ll' ls = Some d" by (auto simp: GetOrCreateLocker_def ll_ok_def)
    with get_or_create show ?thesis unfolding ll_ok_def by blast
  qed
next
  case (clear ll close label now ll')
  show ?case
  proof (cases "mget (allLockers ll) label")
    case None
    with clear show ?thesis by (simp add: ClearLocker_def)
  next
    case (Some a)
    show ?thesis
    proof (cases close)
      case True
      with clear(2) have nd: "label \<noteq> ''default''" by (auto simp: EqualFold_def)
      have "\<not> prefix (split_on CHR '','' label) [''default'']"
        using nd join_split_on [of "CHR '',''" label] by (auto simp: prefix_Cons)
      with close_inv [OF _ Some nd, of now] clear True have
        "ll_inv ll'" "walk ll' [''default''] = walk ll [''default'']" by (auto simp: ll_ok_def simp del: walk.simps)
      with clear show ?thesis unfolding ll_ok_def by presburger
    next
      case False
      have "\<not> strict_prefix (split_on CHR '','' label) [''default'']"
        by (auto simp: strict_prefix_def prefix_Cons)
      with clear_inv [OF _ Some, of now] clear False have
        "ll_inv ll'" "walk ll' [''default''] = walk ll [''default'']" by (auto simp: ll_ok_def simp del: walk.simps)
      with clear show ?thesis unfolding ll_ok_def by presburger
    qed
  qed
next
  case (init ll now)
  then show ?case using ll_Init_ok by (simp add: ll_ok_def ll_inv_def)
next
  case (new now)
  show ?case by (rule NewLabeledLockers_ok)
qed (auto simp: ll_ok_def upd_cl_inv walk_upd_cl simp del: walk.simps)

section \<open>Lockers as a set of paths\<close>

datatype locker_cmd = CmdOpen string | CmdClose string | CmdClear string

primrec run_cmds ::
  "(string \<Rightarrow> 's \<Rightarrow> 's option) \<Rightarrow> (string \<Rightarrow> 's \<Rightarrow> 's option) \<Rightarrow> (string \<Rightarrow> 's \<Rightarrow> 's option) \<Rightarrow>
   locker_cmd list \<Rightarrow> 's \<Rightarrow> 's option" where
  "run_cmds opn cls clr [] s = Some s"
| "run_cmds opn cls clr (c # cs) s =
     (case (case c of CmdOpen l \<Rightarrow> opn l s | CmdClose l \<Rightarrow> cls l s | CmdClear l \<Rightarrow> clr l s) of
        None \<Rightarrow> None
      | Some s' \<Rightarrow> run_cmds opn cls clr cs s')"

text \<open>The abstract lockers are the set of the paths that lead to a locker.\<close>

primrec spec_step :: "locker_cmd \<Rightarrow> string list set \<Rightarrow> string list set" where
  "spec_step (CmdOpen l) S = S \<union> {P. P \<noteq> [] \<and> prefix P (split_on CHR '','' l)}"
| "spec_step (CmdClose l) S = {P \<in> S. \<not> prefix (split_on CHR '','' l) P}"
| "spec_step (CmdClear l) S = {P \<in> S. \<not> strict_prefix (split_on CHR '','' l) P}"

primrec valid_cmd :: "locker_cmd \<Rightarrow> bool" where
  "valid_cmd (CmdOpen l) = (hd (split_on CHR '','' l) \<noteq> [])"
| "valid_cmd (CmdClose l) = (\<not> EqualFold l ''default'')"
| "valid_cmd (CmdClear l) = True"

primrec spares :: "string list \<Rightarrow> locker_cmd \<Rightarrow> bool" where
  "spares P (CmdOpen l) = True"
| "spares P (CmdClose l) = (\<not> prefix (split_on CHR '','' l) P)"
| "spares P (CmdClear l) = (\<not> strict_prefix (split_on CHR '','' l) P)"

lemma not_valid_open: "hd (split_on CHR '','' l) = [] \<Longrightarrow> OpenLocker now l ll = None"
  by (auto simp: OpenLocker_def Let_def create_nil split: option.splits)

locale path_store =
  fixes inv :: "'s \<Rightarrow> bool"
    and find :: "'s \<Rightarrow> string list \<Rightarrow> 'a option"
    and opn cls clr :: "string \<Rightarrow> 's \<Rightarrow> 's option"
  assumes opn_law: "inv s \<Longrightarrow> valid_cmd (CmdOpen l) \<Longrightarrow> \<exists>s'. opn l s = Some s' \<and> inv s' \<and>
      (\<forall>P. find s P \<noteq> None \<longrightarrow> find s' P = find s P) \<and> dom (find s') = spec_step (CmdOpen l) (dom (find s))"
    and opn_fails: "\<not> valid_cmd (CmdOpen l) \<Longrightarrow> opn l s = None"
    and cls_law: "inv s \<Longrightarrow> valid_cmd (CmdClose l) \<Longrightarrow> \<exists>s'. cls l s = Some s' \<and> inv s' \<and>
      (\<forall>P. find s' P = (if prefix (split_on CHR '','' l) P then None else find s P))"
    and clr_law: "inv s \<Longrightarrow> \<exists>s'. clr l s = Some s' \<and> inv s' \<and>
      (\<forall>P. find s' P = (if strict_prefix (split_on CHR '','' l) P then None else find s P))"
begin

lemma step_law:
  assumes "inv s" and "valid_cmd c"
  shows "\<exists>s'. (case c of CmdOpen l \<Rightarrow> opn l s | CmdClose l \<Rightarrow> cls l s | CmdClear l \<Rightarrow> clr l s) = Some s' \<and> inv s' \<and>
    dom (find s') = spec_step c (dom (find s)) \<and> (\<forall>P. find s P \<noteq> None \<and> spares P c \<longrightarrow> find s' P = find s P)"
proof (cases c)
  case (CmdOpen l)
  with opn_law [OF assms(1), of l] assms(2) show ?thesis by auto
next
  case (CmdClose l)
  with cls_law [OF assms(1), of l] assms(2) obtain s' where
    s': "cls l s = Some s'" "inv s'" "\<forall>P. find s' P = (if prefix (split_on CHR '','' l) P then None else find s P)" by auto
  then have "dom (find s') = spec_step c (dom (find s))" unfolding dom_def CmdClose spec_step.simps by (auto split: if_splits)
  with s' CmdClose show ?thesis by auto
next
  case (CmdClear l)
  with clr_law [OF assms(1), of l] obtain s' where
    s': "clr l s = Some s'" "inv s'" "\<forall>P. find s' P = (if strict_prefix (split_on CHR '','' l) P then None else find s P)" by auto
  then have "dom (find s') = spec_step c (dom (find s))" unfolding dom_def CmdClear spec_step.simps by (auto split: if_splits)
  with s' CmdClear show ?thesis by auto
qed

lemma run_law:
  "inv s \<Longrightarrow> \<forall>c \<in> set cs. valid_cmd c \<Longrightarrow> \<exists>s'. run_cmds opn cls clr cs s = Some s' \<and> inv s' \<and>
     dom (find s') = fold spec_step cs (dom (find s)) \<and>
     (\<forall>P. find s P \<noteq> None \<and> (\<forall>c \<in> set cs. spares P c) \<longrightarrow> find s' P = find s P)"
proof (induction cs arbitrary: s)
  case (Cons c cs)
  from step_law [OF Cons.prems(1), of c] Cons.prems(2) obtain s1 where
    1: "(case c of CmdOpen l \<Rightarrow> opn l s | CmdClose l \<Rightarrow> cls l s | CmdClear l \<Rightarrow> clr l s) = Some s1" "inv s1"
      "dom (find s1) = spec_step c (dom (find s))" "\<forall>P. find s P \<noteq> None \<and> spares P c \<longrightarrow> find s1 P = find s P" by auto
  from Cons.IH [OF 1(2)] Cons.prems(2) obtain s' where
    2: "run_cmds opn cls clr cs s1 = Some s'" "inv s'" "dom (find s') = fold spec_step cs (dom (find s1))"
      "\<forall>P. find s1 P \<noteq> None \<and> (\<forall>c \<in> set cs. spares P c) \<longrightarrow> find s' P = find s1 P" by auto
  have "find s' P = find s P" if "find s P \<noteq> None" "\<forall>c \<in> set (c # cs). spares P c" for P
  proof -
    have "find s1 P = find s P" using 1(4) that by simp
    with that 2(4) show ?thesis by auto
  qed
  with 1 2 show ?case by auto
qed simp

text \<open>An open command that is not valid makes every sequence fail.\<close>

lemma run_fails:
  "inv s \<Longrightarrow> \<forall>c \<in> set cs. c \<noteq> CmdOpen l \<longrightarrow> valid_cmd c \<or> (\<exists>l'. c = CmdOpen l') \<Longrightarrow> CmdOpen l \<in> set cs \<Longrightarrow>
   \<not> valid_cmd (CmdOpen l) \<Longrightarrow> run_cmds opn cls clr cs s = None"
proof (induction cs arbitrary: s)
  case (Cons c cs)
  show ?case
  proof (cases "valid_cmd c")
    case False
    with Cons.prems(2) obtain l' where "c = CmdOpen l'" by auto
    with False opn_fails [of l' s] show ?thesis by simp
  next
    case True
    from step_law [OF Cons.prems(1) this] obtain s1 where
      "(case c of CmdOpen l \<Rightarrow> opn l s | CmdClose l \<Rightarrow> cls l s | CmdClear l \<Rightarrow> clr l s) = Some s1" "inv s1" by auto
    with Cons True show ?thesis by auto
  qed
qed simp

end

lemma walk_prefix: "walk ll Q = Some a \<Longrightarrow> prefix P Q \<Longrightarrow> P \<noteq> [] \<Longrightarrow> walk ll P \<noteq> None"
  by (auto simp: prefix_def walk_append split: option.splits)

lemma walk_Nil: "walk ll ls \<noteq> None \<Longrightarrow> ls \<noteq> []"
  by auto

lemma absent_close:
  assumes "ll_inv ll" and "mget (allLockers ll) l = None"
  shows "walk ll P = (if prefix (split_on CHR '','' l) P then None else walk ll P)"
proof -
  have "walk ll (split_on CHR '','' l) = None" using assms by (simp add: ll_inv_def index_ok_def)
  then show ?thesis using walk_prefix [of ll P _ "split_on CHR '','' l"] split_on_not_Nil [of "CHR '',''" l]
    by (cases "walk ll P") auto
qed

interpretation lockers: path_store ll_ok walk "OpenLocker now" "\<lambda>l. ClearLocker now l True" "\<lambda>l. ClearLocker now l False"
proof unfold_locales
  fix ll l assume ll: "ll_ok ll" and v: "valid_cmd (CmdOpen l)"
  let ?P = "split_on CHR '','' l"
  from ll v OpenLocker_inv [of ll l now] obtain ll' a where
    1: "OpenLocker now l ll = Some ll'" "ll_inv ll'" "mget (allLockers ll') l = Some a"
      "\<forall>ls d. walk ll ls = Some d \<longrightarrow> walk ll' ls = Some d" "\<forall>qs. walk ll' qs \<noteq> None \<longrightarrow> walk ll qs \<noteq> None \<or> prefix qs ?P"
    by (auto simp: ll_ok_def)
  then have w: "walk ll' ?P = Some a" by (simp add: ll_inv_def index_ok_def)
  have "P \<in> dom (walk ll') \<longleftrightarrow> P \<in> spec_step (CmdOpen l) (dom (walk ll))" for P
    using 1(4,5) walk_prefix [OF w, of P] walk_Nil [of ll' P] by (auto simp: dom_def)
  moreover have "ll_ok ll'" using 1(2,4) ll unfolding ll_ok_def by blast
  ultimately show "\<exists>s'. OpenLocker now l ll = Some s' \<and> ll_ok s' \<and> (\<forall>P. walk ll P \<noteq> None \<longrightarrow> walk s' P = walk ll P) \<and>
      dom (walk s') = spec_step (CmdOpen l) (dom (walk ll))"
    using 1(1,4) by (intro exI [of _ ll']) auto
next
  fix l ll assume "\<not> valid_cmd (CmdOpen l)"
  then show "OpenLocker now l ll = None" by (simp add: not_valid_open)
next
  fix ll l assume ll: "ll_ok ll" and v: "valid_cmd (CmdClose l)"
  from v have nd: "l \<noteq> ''default''" by (auto simp: EqualFold_def)
  show "\<exists>s'. ClearLocker now l True ll = Some s' \<and> ll_ok s' \<and>
      (\<forall>P. walk s' P = (if prefix (split_on CHR '','' l) P then None else walk ll P))"
  proof (cases "mget (allLockers ll) l")
    case None
    with ll absent_close [of ll l] show ?thesis unfolding ll_ok_def ClearLocker_def by auto
  next
    case (Some a)
    have "\<not> prefix (split_on CHR '','' l) [''default'']"
      using nd join_split_on [of "CHR '',''" l] by (auto simp: prefix_Cons)
    moreover from close_inv [OF _ Some nd, of now] ll obtain ll' where
      "ClearLocker now l True ll = Some ll'" "ll_inv ll'"
      "\<forall>P. walk ll' P = (if prefix (split_on CHR '','' l) P then None else walk ll P)" unfolding ll_ok_def by blast
    ultimately show ?thesis using ll unfolding ll_ok_def by (intro exI [of _ ll']) presburger
  qed
next
  fix ll l assume ll: "ll_ok ll"
  show "\<exists>s'. ClearLocker now l False ll = Some s' \<and> ll_ok s' \<and>
      (\<forall>P. walk s' P = (if strict_prefix (split_on CHR '','' l) P then None else walk ll P))"
  proof (cases "mget (allLockers ll) l")
    case None
    have "walk ll P = None" if "strict_prefix (split_on CHR '','' l) P" for P
      using absent_close [OF _ None, of P] ll that by (auto simp: ll_ok_def strict_prefix_def)
    with None ll show ?thesis by (auto simp: ClearLocker_def)
  next
    case (Some a)
    have "\<not> strict_prefix (split_on CHR '','' l) [''default'']" by (auto simp: strict_prefix_def prefix_Cons)
    moreover from clear_inv [OF _ Some, of now] ll obtain ll' where
      "ClearLocker now l False ll = Some ll'" "ll_inv ll'"
      "\<forall>P. walk ll' P = (if strict_prefix (split_on CHR '','' l) P then None else walk ll P)" unfolding ll_ok_def by blast
    ultimately show ?thesis using ll unfolding ll_ok_def by (intro exI [of _ ll']) presburger
  qed
qed

section \<open>Properties\<close>

definition open_paths :: "labeled_lockers \<Rightarrow> string list set" where
  "open_paths ll = {split_on CHR '','' p | p. mget (allLockers ll) p \<noteq> None}"

lemma open_paths_walk:
  assumes "ll_inv ll" shows "open_paths ll = dom (walk ll)"
proof -
  have "P \<in> open_paths ll \<longleftrightarrow> walk ll P \<noteq> None" for P
    using assms walk_split [of ll P] unfolding open_paths_def ll_inv_def index_ok_def by (cases "walk ll P") (simp, metis, force)
  then show ?thesis by blast
qed

lemma index_top_simps [simp]: "llLockers (index_top l ll) = llLockers ll" "llHeap (index_top l ll) = llHeap ll"
  by (simp_all add: index_top_def split: option.splits)

lemma fold_index_top: "llLockers (fold index_top ts ll) = llLockers ll"
  by (induction ts arbitrary: ll) simp_all

lemma ReplaceLockers_lockers: "llLockers (ReplaceLockers tops ll) = tops"
  by (simp add: ReplaceLockers_def fold_index_top)

lemma fold_index_top_stale:
  "\<forall>l a c. (l, a) \<in> set ts \<and> mget (llHeap ll) a = Some c \<longrightarrow> clPathLabel c \<noteq> p \<Longrightarrow>
   mget (allLockers (fold index_top ts ll)) p = mget (allLockers ll) p"
proof (induction ts arbitrary: ll)
  case (Cons t ts)
  obtain l a where t: "t = (l, a)" by fastforce
  have "mget (allLockers (index_top t ll)) p = mget (allLockers ll) p"
    using Cons.prems t by (auto simp: index_top_def split: option.splits)
  with Cons.IH [of "index_top t ll"] Cons.prems show ?case by auto
qed simp

lemma ReplaceLockers_stale:
  assumes "\<forall>l a c. (l, a) \<in> set tops \<and> mget (llHeap ll) a = Some c \<longrightarrow> clPathLabel c \<noteq> p"
  shows "mget (allLockers (ReplaceLockers tops ll)) p = mget (allLockers ll) p"
  using fold_index_top_stale [of tops "ll\<lparr>llLockers := tops\<rparr>" p] assms by (simp add: ReplaceLockers_def)

text \<open>C5: As long as the lockers are not replaced (by loading a dump or cloning a registry) and the default locker is
  not closed (the handler refuses that), in every state of the labeled lockers the flat index of all lockers agrees with the tree: looking up a path label gives the
  locker reached by walking down its labels from the top lockers. Replacing the lockers ends this: every
  label of the index that is not the path label of a new top locker still leads to the old locker,
  although a walk now starts from the new top lockers and finds nothing if its first label is not one of theirs.\<close>

theorem locker_index_consistent:
  assumes "ll_reachable ll"
  shows "mget (allLockers ll) p = walk ll (split_on CHR '','' p) \<and>
    ((\<forall>l a c. (l, a) \<in> set tops \<and> mget (llHeap ll) a = Some c \<longrightarrow> clPathLabel c \<noteq> p) \<longrightarrow>
       mget (allLockers (ReplaceLockers tops ll)) p = walk ll (split_on CHR '','' p) \<and>
       (mget tops (hd (split_on CHR '','' p)) = None \<longrightarrow> walk (ReplaceLockers tops ll) (split_on CHR '','' p) = None))"
proof -
  have agree: "mget (allLockers ll) p = walk ll (split_on CHR '','' p)"
    using ll_reachable_ok [OF assms] by (simp add: ll_ok_def ll_inv_def index_ok_def)
  have "walk (ReplaceLockers tops ll) (split_on CHR '','' p) = None" if "mget tops (hd (split_on CHR '','' p)) = None"
    using that by (cases "split_on CHR '','' p") (simp_all add: ReplaceLockers_lockers)
  with agree ReplaceLockers_stale [of tops ll p] show ?thesis by simp
qed

theorem locker_index_consistent_witness:
  "mget (allLockers (NewLabeledLockers 5)) ''default'' = walk (NewLabeledLockers 5) (split_on CHR '','' ''default'') \<and>
   mget (allLockers (ReplaceLockers [] (NewLabeledLockers 5))) ''default'' = Some 0 \<and>
   walk (ReplaceLockers [] (NewLabeledLockers 5)) (split_on CHR '','' ''default'') = None"
proof -
  have "walk (NewLabeledLockers 5) (split_on CHR '','' ''default'') = Some 0" by code_simp
  with locker_index_consistent [OF ll_reachable.new, of 5 "''default''" "[]"] show ?thesis by simp
qed

text \<open>C4: Opening, closing and clearing lockers implements the set of paths: opening adds the path and its
  prefixes, closing removes the path and everything below, clearing only what is below; a locker that no command
  deletes stays the same object. A sequence of commands that does not close the default locker (the handler
  refuses that) and starts in a state in which the lockers were never replaced by a load or a clone panics exactly
  if it opens a label whose first part is empty; in particular the deletion of a subtree ends.\<close>

theorem lockers_refine_paths:
  assumes "ll_reachable ll" and "\<forall>l. CmdClose l \<in> set cs \<longrightarrow> \<not> EqualFold l ''default''"
  shows "case run_cmds (OpenLocker now) (\<lambda>l. ClearLocker now l True) (\<lambda>l. ClearLocker now l False) cs ll of
      None \<Rightarrow> (\<exists>l. CmdOpen l \<in> set cs \<and> hd (split_on CHR '','' l) = [])
    | Some ll' \<Rightarrow>
        (\<forall>l. CmdOpen l \<in> set cs \<longrightarrow> hd (split_on CHR '','' l) \<noteq> []) \<and>
        open_paths ll' = fold spec_step cs (open_paths ll) \<and>
        (\<forall>p a. mget (allLockers ll) p = Some a \<and> (\<forall>c \<in> set cs. spares (split_on CHR '','' p) c) \<longrightarrow>
           mget (allLockers ll') p = Some a)"
proof (cases "\<forall>c \<in> set cs. valid_cmd c")
  case False
  have v: "valid_cmd c \<or> (\<exists>l'. c = CmdOpen l')" if "c \<in> set cs" for c
  proof (cases c)
    case (CmdClose l)
    with that have "CmdClose l \<in> set cs" by simp
    with assms(2) have "\<not> EqualFold l ''default''" by blast
    with CmdClose show ?thesis by simp
  qed simp_all
  with False obtain l where l: "CmdOpen l \<in> set cs" "\<not> valid_cmd (CmdOpen l)" by blast
  have "run_cmds (OpenLocker now) (\<lambda>l. ClearLocker now l True) (\<lambda>l. ClearLocker now l False) cs ll = None"
    by (rule lockers.run_fails [OF ll_reachable_ok [OF assms(1)] _ l]) (use v in blast)
  with l show ?thesis by auto
next
  case valid: True
  have ok: "ll_ok ll" using assms(1) by (rule ll_reachable_ok)
  from lockers.run_law [OF ok valid, of now] obtain ll' where
    1: "run_cmds (OpenLocker now) (\<lambda>l. ClearLocker now l True) (\<lambda>l. ClearLocker now l False) cs ll = Some ll'" "ll_ok ll'"
      "dom (walk ll') = fold spec_step cs (dom (walk ll))"
      "\<forall>P. walk ll P \<noteq> None \<and> (\<forall>c \<in> set cs. spares P c) \<longrightarrow> walk ll' P = walk ll P" by blast
  moreover have "mget (allLockers ll') p = Some a"
    if "mget (allLockers ll) p = Some a" "\<forall>c \<in> set cs. spares (split_on CHR '','' p) c" for p a
    using that ok 1(2,4) by (auto simp: ll_ok_def ll_inv_def index_ok_def)
  moreover have "hd (split_on CHR '','' l) \<noteq> []" if "CmdOpen l \<in> set cs" for l using that valid by fastforce
  ultimately show ?thesis using ok by (auto simp: ll_ok_def open_paths_walk)
qed

theorem lockers_refine_paths_witness:
  "\<exists>ll'. run_cmds (OpenLocker 1) (\<lambda>l. ClearLocker 1 l True) (\<lambda>l. ClearLocker 1 l False)
      [CmdOpen ''a,b'', CmdClose ''a''] (NewLabeledLockers 0) = Some ll' \<and>
    open_paths ll' = fold spec_step [CmdOpen ''a,b'', CmdClose ''a''] (open_paths (NewLabeledLockers 0)) \<and>
    mget (allLockers ll') ''default'' = Some 0"
proof -
  let ?cs = "[CmdOpen ''a,b'', CmdClose ''a'']"
  let ?run = "run_cmds (OpenLocker 1) (\<lambda>l. ClearLocker 1 l True) (\<lambda>l. ClearLocker 1 l False) ?cs (NewLabeledLockers 0)"
  have "\<not> EqualFold ''a'' ''default''" by code_simp
  then have "\<forall>l. CmdClose l \<in> set ?cs \<longrightarrow> \<not> EqualFold l ''default''" by simp
  note spec = lockers_refine_paths [OF ll_reachable.new this, of 0 1]
  have "hd (split_on CHR '','' ''a,b'') \<noteq> []" by code_simp
  then have "\<not> (\<exists>l. CmdOpen l \<in> set ?cs \<and> hd (split_on CHR '','' l) = [])" by simp
  with spec have "?run \<noteq> None" by (cases ?run) (simp_all only: option.case option.distinct not_False_eq_True not_True_eq_False)
  then obtain ll' where 1: "?run = Some ll'" by blast
  from spec have 2: "open_paths ll' = fold spec_step ?cs (open_paths (NewLabeledLockers 0))"
    "\<forall>p a. mget (allLockers (NewLabeledLockers 0)) p = Some a \<and>
       (\<forall>c \<in> set ?cs. spares (split_on CHR '','' p) c) \<longrightarrow> mget (allLockers ll') p = Some a"
    unfolding 1 option.case by blast+
  moreover have "mget (allLockers (NewLabeledLockers 0)) ''default'' = Some 0" by code_simp
  moreover have "\<forall>c \<in> set ?cs. spares (split_on CHR '','' ''default'') c" by code_simp
  ultimately show ?thesis using 1 by blast
qed

text \<open>C6: Closing a locker that lies above the current one does not change the current locker: it stays the
  current one although no label leads to it any more, so what is stored in the current locker afterwards can not
  be found by a label.\<close>

theorem close_detaches_current:
  assumes "ll_reachable ll" and "mget (allLockers ll) q = Some c" and "currentLocker ll = Some c"
    and "mget (allLockers ll) p = Some a" and "\<not> EqualFold p ''default''"
    and "strict_prefix (split_on CHR '','' p) (split_on CHR '','' q)"
  shows "\<exists>ll'. ClearLocker now p True ll = Some ll' \<and> currentLocker ll' = Some c \<and> mget (llHeap ll') c \<noteq> None \<and>
    (\<forall>r. mget (allLockers ll') r \<noteq> Some c)"
proof -
  have ok: "ll_inv ll" "walk ll [''default''] \<noteq> None" using ll_reachable_ok [OF assms(1)] by (auto simp: ll_ok_def simp del: walk.simps)
  then have ix: "mget (allLockers ll) r = walk ll (split_on CHR '','' r)" for r by (simp add: ll_inv_def index_ok_def)
  have wf: "heap_wf ll" "roots_wf ll" using ok by (auto simp: ll_inv_def)
  from walk_split [OF wf, of "split_on CHR '','' q" c] assms(2) ix obtain x where
    x: "mget (llHeap ll) c = Some x" "split_on CHR '','' (clPathLabel x) = split_on CHR '','' q" by auto
  have same: "P = split_on CHR '','' q" if "walk ll P = Some c" for P using walk_split [OF wf that] x by auto
  have ne: "c \<noteq> a" using same [of "split_on CHR '','' p"] assms(4,6) ix by auto
  have nd: "p \<noteq> ''default''" using assms(5) by (auto simp: EqualFold_def)
  from close_inv [OF ok(1) assms(4) nd ok(2), of now] obtain ll' where
    1: "ClearLocker now p True ll = Some ll'" "ll_inv ll'"
      "\<forall>ls. walk ll' ls = (if prefix (split_on CHR '','' p) ls then None else walk ll ls)"
      "currentLocker ll \<noteq> Some a \<longrightarrow> currentLocker ll' = currentLocker ll"
      "\<forall>y. mget (llHeap ll) y \<noteq> None \<longrightarrow> mget (llHeap ll') y \<noteq> None" by blast
  have "walk ll' P \<noteq> Some c" for P using 1(3) same [of P] assms(6) by (auto simp: strict_prefix_def)
  then have "mget (allLockers ll') r \<noteq> Some c" for r using 1(2) by (simp add: ll_inv_def index_ok_def)
  then show ?thesis using 1 ne assms(3) x by auto
qed

definition opened_ab :: labeled_lockers where
  "opened_ab = the (OpenLocker 1 ''a,b'' (NewLabeledLockers 0))"

theorem close_detaches_current_witness:
  "\<exists>ll'. ClearLocker 2 ''a'' True opened_ab = Some ll' \<and> currentLocker ll' = Some 2 \<and> mget (llHeap ll') 2 \<noteq> None \<and>
    (\<forall>r. mget (allLockers ll') r \<noteq> Some 2)"
proof -
  have "OpenLocker 1 ''a,b'' (NewLabeledLockers 0) = Some opened_ab" by code_simp
  then have "ll_reachable opened_ab" by (rule ll_reachable.open_locker [OF ll_reachable.new])
  then show ?thesis
    by (rule close_detaches_current [where q = "''a,b''" and a = 1]) code_simp+
qed

end
