(* ===== verification/Probes.thy ===== *)
theory Probes
  imports Util_Params Util_Headers "HOL-Library.Word"
begin

text \<open>
  Readiness and liveness probes: \<open>pkg/server/probes/probes.go\<close>. The counters are Go's
  \<open>uint64\<close>, 64-bit words whose increment wraps; a wrap to 0 is counted in the overflow counter, so
  that the two together are a 128-bit count. \<open>statuses[0]\<close> of an empty list panics, which is
  \<open>None\<close>. The headers copied from the request are written before the counts, as in the code; the
  set of excluded headers, a global of \<open>util\<close>, and the request facts are arguments.
\<close>

type_synonym uint64 = "64 word"

section \<open>State and handlers\<close>

record port_probes =
  ppPort :: string
  ReadinessProbe :: string
  ReadinessStatus :: int
  ReadinessStatusRemainingCount :: int
  ReadinessCount :: uint64
  ReadinessOverflowCount :: uint64
  LivenessProbe :: string
  LivenessStatus :: int
  LivenessStatusRemainingCount :: int
  LivenessCount :: uint64
  LivenessOverflowCount :: uint64

type_synonym probes_state = "(string, port_probes) gomap"

definition new_port_probes :: "string \<Rightarrow> port_probes" where
  "new_port_probes port =
     \<lparr>ppPort = port, ReadinessProbe = ''/ready'', ReadinessStatus = 200,
      ReadinessStatusRemainingCount = 0, ReadinessCount = 0, ReadinessOverflowCount = 0,
      LivenessProbe = ''/live'', LivenessStatus = 200, LivenessStatusRemainingCount = 0,
      LivenessCount = 0, LivenessOverflowCount = 0\<rparr>"

definition GetPortProbes :: "string \<Rightarrow> probes_state \<Rightarrow> probes_state \<times> port_probes" where
  "GetPortProbes port st =
     (case mget st port of
        Some pp \<Rightarrow> (st, pp)
      | None \<Rightarrow> (mput port (new_port_probes port) st, new_port_probes port))"

definition IsLivenessProbe :: "request \<Rightarrow> port_probes \<Rightarrow> bool" where
  "IsLivenessProbe r pp \<longleftrightarrow> EqualFold (RequestURI r) (LivenessProbe pp)"

definition IsReadinessProbe :: "request \<Rightarrow> port_probes \<Rightarrow> bool" where
  "IsReadinessProbe r pp \<longleftrightarrow> EqualFold (RequestURI r) (ReadinessProbe pp)"

definition setProbe :: "request \<Rightarrow> probes_state \<Rightarrow> probes_state \<times> http_out" where
  "setProbe r st0 =
     (let probeType = GetStringParamValue r ''type'' None;
          isReadiness = EqualFold probeType ''readiness'';
          isLiveness = EqualFold probeType ''liveness''
      in if \<not> isReadiness \<and> \<not> isLiveness then (st0, WriteHeader 400 no_out)
         else
           (case GetStringParam r ''uri'' None of
              (uri, False) \<Rightarrow> (st0, WriteHeader 400 no_out)
            | (uri, True) \<Rightarrow>
                (let (st, pp) = GetPortProbes (reqPort r) st0;
                     uri = ToLower uri;
                     pp = (if isReadiness then pp\<lparr>ReadinessProbe := uri, ReadinessCount := 0\<rparr>
                           else pp\<lparr>LivenessProbe := uri, LivenessCount := 0\<rparr>)
                 in (mput (reqPort r) pp st, no_out))))"

definition setProbeStatus :: "request \<Rightarrow> probes_state \<Rightarrow> (probes_state \<times> http_out) option" where
  "setProbeStatus r st0 =
     (let probeType = GetStringParamValue r ''type'' None;
          isReadiness = EqualFold probeType ''readiness'';
          isLiveness = EqualFold probeType ''liveness''
      in if \<not> isReadiness \<and> \<not> isLiveness then Some (st0, WriteHeader 400 no_out)
         else
           (case GetStatusParam r of
              (statuses, n, False) \<Rightarrow> Some (st0, WriteHeader 400 no_out)
            | ([], n, True) \<Rightarrow> None
            | (s # ss, n, True) \<Rightarrow>
                (let (st, pp) = GetPortProbes (reqPort r) st0;
                     status = (if 0 < s then s else 200);
                     n = (if n \<le> 0 then - 1 else n);
                     pp = (if isReadiness
                           then pp\<lparr>ReadinessStatus := status, ReadinessStatusRemainingCount := n\<rparr>
                           else pp\<lparr>LivenessStatus := status, LivenessStatusRemainingCount := n\<rparr>)
                 in Some (mput (reqPort r) pp st, no_out))))"

definition getProbes :: "request \<Rightarrow> probes_state \<Rightarrow> probes_state \<times> port_probes" where
  "getProbes r st = GetPortProbes (reqPort r) st"

definition clearProbeCounts :: "request \<Rightarrow> probes_state \<Rightarrow> probes_state \<times> http_out" where
  "clearProbeCounts r st0 =
     (let (st, pp) = GetPortProbes (reqPort r) st0
      in (mput (reqPort r) (pp\<lparr>ReadinessCount := 0, LivenessCount := 0\<rparr>) st, no_out))"

section \<open>The middleware\<close>

definition serve_readiness :: "port_probes \<Rightarrow> port_probes \<times> int" where
  "serve_readiness pp =
     (let status = ReadinessStatus pp;
          pp = (if 0 < ReadinessStatusRemainingCount pp then
                  (let n = ReadinessStatusRemainingCount pp - 1 in
                   if n = 0 then pp\<lparr>ReadinessStatusRemainingCount := - 1, ReadinessStatus := 200\<rparr>
                   else pp\<lparr>ReadinessStatusRemainingCount := n\<rparr>)
                else pp);
          pp = pp\<lparr>ReadinessCount := ReadinessCount pp + 1\<rparr>;
          pp = (if ReadinessCount pp = 0
                then pp\<lparr>ReadinessOverflowCount := ReadinessOverflowCount pp + 1\<rparr> else pp)
      in (pp, status))"

definition serve_liveness :: "port_probes \<Rightarrow> port_probes \<times> int" where
  "serve_liveness pp =
     (let status = LivenessStatus pp;
          pp = (if 0 < LivenessStatusRemainingCount pp then
                  (let n = LivenessStatusRemainingCount pp - 1 in
                   if n = 0 then pp\<lparr>LivenessStatusRemainingCount := - 1, LivenessStatus := 200\<rparr>
                   else pp\<lparr>LivenessStatusRemainingCount := n\<rparr>)
                else pp);
          pp = pp\<lparr>LivenessCount := LivenessCount pp + 1\<rparr>;
          pp = (if LivenessCount pp = 0
                then pp\<lparr>LivenessOverflowCount := LivenessOverflowCount pp + 1\<rparr> else pp)
      in (pp, status))"

text \<open>The last component says whether the request was served as a probe; otherwise it is passed to
  the next handler.\<close>

definition probes_middleware ::
  "(string, bool) gomap \<Rightarrow> request_info \<Rightarrow> request \<Rightarrow> probes_state \<Rightarrow> http_out \<Rightarrow>
   probes_state \<times> http_out \<times> bool" where
  "probes_middleware excluded info r st0 w =
     (let (st, pp) = GetPortProbes (reqPort r) st0 in
      if IsReadinessProbe r pp then
        (let (pp, status) = serve_readiness pp;
             w = with_hdrs (\<lambda>h. CopyHeaders excluded ''Readiness-Request'' r info h None True True False) w;
             w = AddHeader ''Readiness-Request-Count'' (Itoa (uint (ReadinessCount pp))) w;
             w = AddHeader ''Readiness-Overflow-Count'' (Itoa (uint (ReadinessOverflowCount pp))) w
         in (mput (reqPort r) pp st, WriteHeader status w, True))
      else if IsLivenessProbe r pp then
        (let (pp, status) = serve_liveness pp;
             w = with_hdrs (\<lambda>h. CopyHeaders excluded ''Liveness-Request'' r info h None True True False) w;
             w = AddHeader ''Liveness-Request-Count'' (Itoa (uint (LivenessCount pp))) w;
             w = AddHeader ''Liveness-Overflow-Count'' (Itoa (uint (LivenessOverflowCount pp))) w
         in (mput (reqPort r) pp st, WriteHeader status w, True))
      else (st, w, False))"

section \<open>A probe status counts down\<close>

definition readiness_left :: "port_probes \<Rightarrow> nat option" where
  "readiness_left pp =
     (if 0 < ReadinessStatusRemainingCount pp then Some (nat (ReadinessStatusRemainingCount pp))
      else if ReadinessStatus pp = 200 then Some 0 else None)"

definition readiness_inv :: "port_probes \<Rightarrow> bool" where
  "readiness_inv pp \<longleftrightarrow> (0 < ReadinessStatusRemainingCount pp \<longrightarrow> ReadinessStatus pp \<noteq> 200)"

definition liveness_left :: "port_probes \<Rightarrow> nat option" where
  "liveness_left pp =
     (if 0 < LivenessStatusRemainingCount pp then Some (nat (LivenessStatusRemainingCount pp))
      else if LivenessStatus pp = 200 then Some 0 else None)"

definition liveness_inv :: "port_probes \<Rightarrow> bool" where
  "liveness_inv pp \<longleftrightarrow> (0 < LivenessStatusRemainingCount pp \<longrightarrow> LivenessStatus pp \<noteq> 200)"

interpretation ready_cd: countdown readiness_left "\<lambda>pp. snd (serve_readiness pp) \<noteq> 200"
  "\<lambda>pp. fst (serve_readiness pp)" readiness_inv
  by unfold_locales
    (auto simp: readiness_left_def readiness_inv_def serve_readiness_def Let_def nat_diff_distrib)

interpretation live_cd: countdown liveness_left "\<lambda>pp. snd (serve_liveness pp) \<noteq> 200"
  "\<lambda>pp. fst (serve_liveness pp)" liveness_inv
  by unfold_locales
    (auto simp: liveness_left_def liveness_inv_def serve_liveness_def Let_def nat_diff_distrib)

section \<open>The 128-bit count\<close>

definition probe_total :: "uint64 \<Rightarrow> uint64 \<Rightarrow> int" where
  "probe_total overflow n = uint overflow * 2 ^ 64 + uint n"

lemma uint_inc: "uint (w + 1 :: uint64) = (uint w + 1) mod 2 ^ 64"
  by (simp add: uint_word_ariths)

lemma uint64_less: "uint (w :: uint64) < 2 ^ 64"
  using uint_lt2p [of w] by simp

lemma inc_zero_iff: "(w + 1 :: uint64) = 0 \<longleftrightarrow> uint w = 2 ^ 64 - 1"
proof -
  have "(w + 1 :: uint64) = 0 \<longleftrightarrow> (uint w + 1) mod 2 ^ 64 = 0"
    by (metis uint_0_iff uint_inc)
  also have "\<dots> \<longleftrightarrow> uint w = 2 ^ 64 - 1"
  proof (cases "uint w + 1 = 2 ^ 64")
    case False
    then have "uint w + 1 < 2 ^ 64" using uint64_less [of w] by linarith
    moreover have "0 < uint w + 1" using uint_ge_0 [of w] by linarith
    ultimately have "(uint w + 1) mod 2 ^ 64 = uint w + 1" by (intro mod_pos_pos_trivial) auto
    with \<open>0 < uint w + 1\<close> False show ?thesis by linarith
  qed auto
  finally show ?thesis .
qed

lemma probe_total_inc:
  "probe_total (if c + 1 = 0 then ov + 1 else ov) (c + 1) = (probe_total ov c + 1) mod 2 ^ 128"
proof (cases "c + 1 = 0")
  case True
  then have c: "uint c = 2 ^ 64 - 1" by (simp only: inc_zero_iff)
  have "probe_total (ov + 1) (c + 1) = ((uint ov + 1) mod 2 ^ 64) * 2 ^ 64"
    using True by (simp add: probe_total_def uint_inc)
  also have "\<dots> = ((uint ov + 1) * 2 ^ 64) mod (2 ^ 64 * 2 ^ 64)"
    by (simp only: mult_mod_left)
  also have "(uint ov + 1) * 2 ^ 64 = probe_total ov c + 1"
    by (simp add: probe_total_def c)
  finally show ?thesis using True by simp
next
  case False
  then have lt: "uint c + 1 < 2 ^ 64" using uint64_less [of c] by (simp add: inc_zero_iff)
  have "probe_total ov (c + 1) = probe_total ov c + 1"
    using lt by (simp add: probe_total_def uint_inc)
  moreover have "probe_total ov c + 1 < 2 ^ 128" "0 \<le> probe_total ov c + 1"
    using lt uint64_less [of ov] by (simp_all add: probe_total_def)
  ultimately show ?thesis using False by simp
qed

definition readiness_total :: "port_probes \<Rightarrow> int" where
  "readiness_total pp = probe_total (ReadinessOverflowCount pp) (ReadinessCount pp)"

lemma serve_readiness_total:
  "readiness_total (fst (serve_readiness pp)) = (readiness_total pp + 1) mod 2 ^ 128"
  using probe_total_inc [of "ReadinessCount pp" "ReadinessOverflowCount pp"]
  by (auto simp: readiness_total_def serve_readiness_def Let_def)

section \<open>Properties\<close>

text \<open>A readiness status other than 200 that is set with a count of \<open>n\<close> is returned to exactly
  the first \<open>n\<close> of any \<open>m\<close> readiness probes; the others get 200.\<close>

theorem readiness_status_count:
  assumes "ReadinessStatusRemainingCount pp = int n" and "0 < n" and "ReadinessStatus pp \<noteq> 200"
  shows "length (filter (\<lambda>k. snd (serve_readiness (((\<lambda>p. fst (serve_readiness p)) ^^ k) pp)) \<noteq> 200) [0..<m])
     = min n m"
  using assms by (intro ready_cd.served) (auto simp: readiness_inv_def readiness_left_def)

theorem readiness_status_count_witness:
  "length (filter (\<lambda>k. snd (serve_readiness (((\<lambda>p. fst (serve_readiness p)) ^^ k)
     ((new_port_probes ''80'')\<lparr>ReadinessStatus := 503, ReadinessStatusRemainingCount := 2\<rparr>))) \<noteq> 200) [0..<5])
     = min 2 5"
  by (rule readiness_status_count) simp_all

text \<open>The probe counters do not lose counts when they wrap: the request count and the overflow
  count, read as one 128-bit number, go up by one with each probe.\<close>

theorem readiness_total_counts:
  "readiness_total (((\<lambda>p. fst (serve_readiness p)) ^^ k) pp) = (readiness_total pp + int k) mod 2 ^ 128"
proof (induction k)
  case 0
  have "readiness_total pp < 2 ^ 128" "0 \<le> readiness_total pp"
    using uint64_less [of "ReadinessOverflowCount pp"] uint64_less [of "ReadinessCount pp"]
    by (simp_all add: readiness_total_def probe_total_def)
  then show ?case by simp
next
  case (Suc k)
  then show ?case by (simp add: serve_readiness_total mod_simps ac_simps)
qed

end
