(* ===== verification/Response_Delay.thy ===== *)
theory Response_Delay
  imports Util_Params Delay_Types
begin

text \<open>
  Response delays per port: \<open>pkg/server/response/delay/delay.go\<close>. A port has a range of two
  durations and a count: 0 delays every request, a positive count that many requests, and -1 none.
  Sleeping is the duration in the response header; a range that \<open>RandomDuration\<close> cannot draw from
  panics, which is \<open>None\<close>.
\<close>

record delay_state =
  delayByPort :: "(string, int list) gomap"
  delayCountByPort :: "(string, int) gomap"

definition delay_setDelay ::
  "(string \<Rightarrow> int option) \<Rightarrow> request \<Rightarrow> delay_state \<Rightarrow> delay_state \<times> http_out" where
  "delay_setDelay pd r st0 =
     (let (delayMin, delayMax, delayCount, ok) = GetDurationParam pd r ''delay'';
          port = reqPort r;
          st = st0\<lparr>delayCountByPort := mput port (- 1) (delayCountByPort st0),
                  delayByPort := mput port [] (delayByPort st0)\<rparr>
      in if ok then
           (if 0 < delayMin then
              (st\<lparr>delayByPort := mput port [delayMin, delayMax] (delayByPort st),
                  delayCountByPort := mput port delayCount (delayCountByPort st)\<rparr>,
               if 0 \<le> delayCount then SendEvent ''Delay Configured'' no_out else no_out)
            else
              (st\<lparr>delayByPort := mdel port (delayByPort st),
                  delayCountByPort := mdel port (delayCountByPort st)\<rparr>,
               SendEvent ''Delay Cleared'' no_out))
         else (st, WriteHeader 400 no_out))"

definition delay_handler ::
  "(int \<Rightarrow> int) \<Rightarrow> (string \<Rightarrow> int option) \<Rightarrow> request \<Rightarrow> http_out option" where
  "delay_handler rnd pd r =
     (let (delayMin, delayMax, n, ok) = GetDurationParam pd r ''delay'' in
      if 0 < delayMin then
        map_option (\<lambda>d. WriteHeader 200 (AddHeader ''Goto-Response-Delay'' (DurationString d) no_out))
          (RandomDuration rnd delayMin delayMax [])
      else if \<not> ok then Some (WriteHeader 400 no_out)
      else Some no_out)"

definition getDelay :: "request \<Rightarrow> delay_state \<Rightarrow> int list \<times> int" where
  "getDelay r st = (mget_or [] (delayByPort st) (reqPort r), mget_or 0 (delayCountByPort st) (reqPort r))"

definition IsDelayRequest :: "request \<Rightarrow> bool" where
  "IsDelayRequest r \<longleftrightarrow> \<not> IsAdminRequest r \<and> Contains (RequestURI r) ''/delay''"

definition delay_middleware ::
  "(int \<Rightarrow> int) \<Rightarrow> request \<Rightarrow> delay_state \<Rightarrow> http_out \<Rightarrow> (delay_state \<times> http_out) option" where
  "delay_middleware rnd r st w =
     (if IsKnownNonTraffic r then Some (st, w)
      else
        let port = reqPort r;
            delayCount = mget_or 0 (delayCountByPort st) port
        in case mget_or [] (delayByPort st) port of
             lo # hi # rest \<Rightarrow>
               (if 0 < lo \<and> 0 \<le> delayCount \<and> \<not> IsDelayRequest r then
                  (let st' =
                     (if 0 < delayCount then
                        (if delayCount = 1 then
                           st\<lparr>delayByPort := mdel port (delayByPort st),
                              delayCountByPort := mdel port (delayCountByPort st)\<rparr>
                         else st\<lparr>delayCountByPort := mput port (delayCount - 1) (delayCountByPort st)\<rparr>)
                      else st)
                   in map_option (\<lambda>d. (st', AddHeader ''Goto-Response-Delay'' (DurationString d) w))
                        (RandomDuration rnd lo hi []))
                else Some (st, w))
           | [lo] \<Rightarrow> (if 0 < lo \<and> 0 \<le> delayCount \<and> \<not> IsDelayRequest r then None else Some (st, w))
           | [] \<Rightarrow> Some (st, w))"

section \<open>A configured delay counts down\<close>

definition pdelay_ready :: "(int \<Rightarrow> int) \<Rightarrow> request \<Rightarrow> delay_state \<Rightarrow> bool" where
  "pdelay_ready rnd r st \<longleftrightarrow>
     valid_rnd rnd \<and> \<not> IsKnownNonTraffic r \<and> \<not> IsDelayRequest r \<and>
     (case mget (delayByPort st) (reqPort r) of
        None \<Rightarrow> True
      | Some ds \<Rightarrow>
          (\<exists>lo hi. ds = [lo, hi] \<and> 0 < lo \<and> is_int64 lo \<and> is_int64 hi \<and> (lo = hi \<or> lo + Millisecond \<le> hi)) \<and>
          0 \<le> mget_or 0 (delayCountByPort st) (reqPort r))"

definition pdelay_left :: "request \<Rightarrow> delay_state \<Rightarrow> nat option" where
  "pdelay_left r st =
     (case mget (delayByPort st) (reqPort r) of
        None \<Rightarrow> Some 0
      | Some ds \<Rightarrow>
          (let n = mget_or 0 (delayCountByPort st) (reqPort r) in if n = 0 then None else Some (nat n)))"

definition pdelay_tick :: "(int \<Rightarrow> int) \<Rightarrow> request \<Rightarrow> delay_state \<Rightarrow> delay_state" where
  "pdelay_tick rnd r st = (case delay_middleware rnd r st no_out of Some (st', w) \<Rightarrow> st' | None \<Rightarrow> st)"

definition pdelay_applied :: "(int \<Rightarrow> int) \<Rightarrow> request \<Rightarrow> delay_state \<Rightarrow> bool" where
  "pdelay_applied rnd r st \<longleftrightarrow>
     (case delay_middleware rnd r st no_out of Some (st', w) \<Rightarrow> whdrs w \<noteq> [] | None \<Rightarrow> False)"

lemma delay_middleware_ready:
  assumes "pdelay_ready rnd r st" and "mget (delayByPort st) (reqPort r) = Some ds"
  shows "\<exists>d. delay_middleware rnd r st w =
     Some (let n = mget_or 0 (delayCountByPort st) (reqPort r) in
           if 0 < n then
             (if n = 1 then st\<lparr>delayByPort := mdel (reqPort r) (delayByPort st),
                              delayCountByPort := mdel (reqPort r) (delayCountByPort st)\<rparr>
              else st\<lparr>delayCountByPort := mput (reqPort r) (n - 1) (delayCountByPort st)\<rparr>)
           else st,
           AddHeader ''Goto-Response-Delay'' (DurationString d) w)"
proof -
  obtain lo hi where b: "ds = [lo, hi]" "0 < lo" "is_int64 lo" "is_int64 hi" "lo = hi \<or> lo + Millisecond \<le> hi"
    "valid_rnd rnd" "\<not> IsKnownNonTraffic r" "\<not> IsDelayRequest r" "0 \<le> mget_or 0 (delayCountByPort st) (reqPort r)"
    using assms by (auto simp: pdelay_ready_def)
  obtain d where "RandomDuration rnd lo hi [] = Some d"
    using RandomDuration_ready [OF b(6,2,3,4,5)] by blast
  with b assms(2) show ?thesis
    by (auto simp: delay_middleware_def Let_def mget_or_def [of "[]"])
qed

interpretation pdelay_cd: countdown "pdelay_left r" "pdelay_applied rnd r" "pdelay_tick rnd r" "pdelay_ready rnd r"
  for rnd r
proof unfold_locales
  fix st assume rd: "pdelay_ready rnd r st"
  have none: "delay_middleware rnd r st no_out = Some (st, no_out)" if "mget (delayByPort st) (reqPort r) = None"
    using rd that by (auto simp: delay_middleware_def mget_or_def pdelay_ready_def Let_def)
  show "pdelay_applied rnd r st \<longleftrightarrow> pdelay_left r st \<noteq> Some 0"
    using none delay_middleware_ready [OF rd, of _ no_out] rd
    by (cases "mget (delayByPort st) (reqPort r)")
      (auto simp: pdelay_applied_def pdelay_left_def pdelay_ready_def Let_def)
  show "pdelay_left r (pdelay_tick rnd r st) = map_option (\<lambda>n. n - 1) (pdelay_left r st)"
    using none delay_middleware_ready [OF rd, of _ no_out] rd
    by (cases "mget (delayByPort st) (reqPort r)")
      (auto simp: pdelay_tick_def pdelay_left_def pdelay_ready_def Let_def nat_diff_distrib)
  show "pdelay_ready rnd r (pdelay_tick rnd r st)"
    using none delay_middleware_ready [OF rd, of _ no_out] rd
    by (cases "mget (delayByPort st) (reqPort r)")
      (auto simp: pdelay_tick_def pdelay_ready_def Let_def)
qed

section \<open>Setting and clearing\<close>

text \<open>The route that clears the delay has no delay parameter: the handler clears the port's delay but
  answers 400.\<close>

lemma delay_clear_bad_request:
  assumes "mget_or [] (reqVars r) ''delay'' = []"
  shows "wcodes (snd (delay_setDelay pd r st)) = [400]"
    and "\<not> IsKnownNonTraffic r' \<Longrightarrow> reqPort r' = reqPort r \<Longrightarrow>
      delay_middleware rnd r' (fst (delay_setDelay pd r st)) w = Some (fst (delay_setDelay pd r st), w)"
  using assms by (simp_all add: delay_setDelay_def GetDurationParam_def delay_middleware_def Let_def)

section \<open>Properties\<close>

text \<open>Setting a delay parameter that parses to a positive range with a count of \<open>n\<close> delays exactly the
  first \<open>n\<close> of any \<open>m\<close> later requests on the port.\<close>

theorem set_delay_count:
  assumes "GetDurationParam pd r ''delay'' = (lo, hi, int n, True)" and "0 < n" and "0 < lo"
    and "is_int64 lo" and "is_int64 hi" and "lo = hi \<or> lo + 1000000 \<le> hi"
    and "valid_rnd rnd" and "reqPort r' = reqPort r" and "\<not> IsKnownNonTraffic r'" and "\<not> IsDelayRequest r'"
  shows "length (filter (\<lambda>k. pdelay_applied rnd r' ((pdelay_tick rnd r' ^^ k) (fst (delay_setDelay pd r st)))) [0..<m])
     = min n m"
proof (rule pdelay_cd.served)
  show "pdelay_ready rnd r' (fst (delay_setDelay pd r st))"
    using assms by (auto simp: pdelay_ready_def delay_setDelay_def Let_def)
  show "pdelay_left r' (fst (delay_setDelay pd r st)) = Some n"
    using assms by (auto simp: pdelay_left_def delay_setDelay_def Let_def)
qed

theorem set_delay_count_witness:
  "length (filter (\<lambda>k. pdelay_applied (\<lambda>n. 0)
       \<lparr>reqPort = ''80'', reqPortNum = 80, RequestURI = ''/a'', URLPath = ''/a'', reqMethod = ''GET'',
        reqHeaders = [], reqVars = [], reqQuery = [], IsKnownNonTraffic = False, IsAdminRequest = False\<rparr>
       ((pdelay_tick (\<lambda>n. 0)
       \<lparr>reqPort = ''80'', reqPortNum = 80, RequestURI = ''/a'', URLPath = ''/a'', reqMethod = ''GET'',
        reqHeaders = [], reqVars = [], reqQuery = [], IsKnownNonTraffic = False, IsAdminRequest = False\<rparr> ^^ k)
       (fst (delay_setDelay (\<lambda>s. if s = ''1s'' then Some 1000000000 else None)
         \<lparr>reqPort = ''80'', reqPortNum = 80, RequestURI = ''/response/delay/set/1s:2'',
          URLPath = ''/response/delay/set/1s:2'', reqMethod = ''POST'', reqHeaders = [],
          reqVars = [(''delay'', ''1s:2'')], reqQuery = [], IsKnownNonTraffic = True, IsAdminRequest = True\<rparr>
         \<lparr>delayByPort = [], delayCountByPort = []\<rparr>)))) [0..<5]) = min 2 5"
proof (rule set_delay_count [where lo = 1000000000 and hi = 1000000000])
  have "GetDurationParam (\<lambda>s. if s = ''1s'' then Some 1000000000 else None)
         \<lparr>reqPort = ''80'', reqPortNum = 80, RequestURI = ''/response/delay/set/1s:2'',
          URLPath = ''/response/delay/set/1s:2'', reqMethod = ''POST'', reqHeaders = [],
          reqVars = [(''delay'', ''1s:2'')], reqQuery = [], IsKnownNonTraffic = True, IsAdminRequest = True\<rparr>
         ''delay'' = (1000000000, 1000000000, 2, True)"
    by code_simp
  then show "GetDurationParam (\<lambda>s. if s = ''1s'' then Some 1000000000 else None)
         \<lparr>reqPort = ''80'', reqPortNum = 80, RequestURI = ''/response/delay/set/1s:2'',
          URLPath = ''/response/delay/set/1s:2'', reqMethod = ''POST'', reqHeaders = [],
          reqVars = [(''delay'', ''1s:2'')], reqQuery = [], IsKnownNonTraffic = True, IsAdminRequest = True\<rparr>
         ''delay'' = (1000000000, 1000000000, int 2, True)"
    by simp
qed (simp_all add: is_int64_def valid_rnd_def IsDelayRequest_def Contains_def HasPrefix_def)

end
