(* ===== verification/Response_Header.thy ===== *)
theory Response_Header
  imports Util_Params Util_Headers
begin

text \<open>
  Response headers per port: \<open>pkg/server/response/header/header.go\<close>. Configured headers are added
  to every response of the port; a removed header is one that is not copied from the request to the
  response. Removing also writes the global \<open>util.ExcludedHeaders\<close>, which is part of the state here.
\<close>

record header_state =
  responseHeadersToAddByPort :: "(string, header_map) gomap"
  responseHeadersToRemoveByPort :: "(string, (string, bool) gomap) gomap"
  ExcludedHeaders :: "(string, bool) gomap"

definition hdr_Add :: "string \<Rightarrow> string \<Rightarrow> header_map \<Rightarrow> header_map" where
  "hdr_Add h v m =
     (let k = CanonicalHeaderKey h in mput k (mget_or [] m k @ [v]) m)"

definition hdr_Del :: "string \<Rightarrow> header_map \<Rightarrow> header_map" where
  "hdr_Del h m = mdel (CanonicalHeaderKey h) m"

definition addResponseHeader :: "request \<Rightarrow> header_state \<Rightarrow> header_state \<times> http_out" where
  "addResponseHeader r st =
     (case GetStringParam r ''header'' None of
        (header, False) \<Rightarrow> (st, WriteHeader 400 no_out)
      | (header, True) \<Rightarrow>
          (let value = fst (GetStringParam r ''value'' None);
               headerMap = mget_or [] (responseHeadersToAddByPort st) (reqPort r);
               headerMap = mput header (mget_or [] headerMap header @ [value]) headerMap
           in (st\<lparr>responseHeadersToAddByPort := mput (reqPort r) headerMap (responseHeadersToAddByPort st)\<rparr>,
               SendEvent ''Response Header Added'' no_out)))"

definition removeResponseHeader :: "request \<Rightarrow> header_state \<Rightarrow> header_state \<times> http_out" where
  "removeResponseHeader r st =
     (case GetStringParam r ''header'' None of
        (header, False) \<Rightarrow> (st, WriteHeader 400 no_out)
      | (header, True) \<Rightarrow>
          (let lh = ToLower header;
               headerMap = mput lh True (mget_or [] (responseHeadersToRemoveByPort st) (reqPort r))
           in (st\<lparr>responseHeadersToRemoveByPort :=
                    mput (reqPort r) headerMap (responseHeadersToRemoveByPort st),
                  ExcludedHeaders := mput lh True (ExcludedHeaders st)\<rparr>,
               SendEvent ''Response Header Removed'' no_out)))"

definition clearResponseHeader :: "request \<Rightarrow> header_state \<Rightarrow> header_state \<times> http_out" where
  "clearResponseHeader r st =
     (st\<lparr>responseHeadersToAddByPort := mput (reqPort r) [] (responseHeadersToAddByPort st),
         responseHeadersToRemoveByPort := mput (reqPort r) [] (responseHeadersToRemoveByPort st)\<rparr>,
      SendEvent ''Response Header Cleared'' no_out)"

definition add_all :: "header_map \<Rightarrow> header_map \<Rightarrow> header_map" where
  "add_all headersToAdd out = fold (\<lambda>(h, vs) out. fold (hdr_Add h) vs out) headersToAdd out"

definition getResponseHeaders :: "request \<Rightarrow> header_state \<Rightarrow> header_map \<Rightarrow> header_map" where
  "getResponseHeaders r st out =
     fold hdr_Del (map fst (mget_or [] (responseHeadersToRemoveByPort st) (reqPort r)))
       (add_all (mget_or [] (responseHeadersToAddByPort st) (reqPort r)) out)"

definition SetResponseHeaders ::
  "request_info \<Rightarrow> request \<Rightarrow> header_state \<Rightarrow> header_map \<Rightarrow> header_map" where
  "SetResponseHeaders info r st out =
     add_all (mget_or [] (responseHeadersToAddByPort st) (reqPort r))
       (CopyRequestHeadersWithIgnore ''Request'' r info out None
          (mget_or [] (responseHeadersToRemoveByPort st) (reqPort r)) True True False)"

definition header_middleware ::
  "request_info \<Rightarrow> bool \<Rightarrow> bool \<Rightarrow> bool \<Rightarrow> request \<Rightarrow> header_state \<Rightarrow> header_map \<Rightarrow> header_map" where
  "header_middleware info headersSent tunnel grpc r st out =
     (if \<not> headersSent \<and> \<not> IsAdminRequest r \<and> \<not> tunnel \<and> \<not> grpc then SetResponseHeaders info r st out
      else out)"

section \<open>Lemmas\<close>

lemma hdr_Add_get:
  "mget_or [] (hdr_Add h v m) k = mget_or [] m k @ (if k = CanonicalHeaderKey h then [v] else [])"
  by (simp add: hdr_Add_def Let_def)

lemma add_values_get:
  "mget_or [] (fold (hdr_Add h) vs m) k = mget_or [] m k @ (if k = CanonicalHeaderKey h then vs else [])"
  by (induction vs arbitrary: m) (auto simp: hdr_Add_get)

text \<open>Every configured value is appended, in order, to what the response already has.\<close>

lemma add_all_get:
  "mget_or [] (add_all hs m) k =
   mget_or [] m k @ concat (map snd (filter (\<lambda>(h, vs). CanonicalHeaderKey h = k) hs))"
  unfolding add_all_def by (induction hs arbitrary: m) (auto simp: add_values_get)

text \<open>Clearing the headers of a port leaves the global exclusions as they are.\<close>

lemma clear_keeps_exclusions: "ExcludedHeaders (fst (clearResponseHeader r st)) = ExcludedHeaders st"
  by (simp add: clearResponseHeader_def)

lemma add_values_frame:
  "prfx @ h \<noteq> k \<Longrightarrow> mget (fold (\<lambda>v out. AddHeaderWithPrefix prfx h v out) vs out) k = mget out k"
  by (induction vs arbitrary: out) (auto simp: AddHeaderWithPrefix_def Let_def)

lemma copy_ignored:
  assumes "\<forall>(h, vs) \<in> set inp. prfx @ h = k \<longrightarrow> mget_or False ign (ToLower h)"
  shows "mget (CopyHeadersWithIgnore prfx inp out ign ch cc) k = mget out k"
  using assms unfolding CopyHeadersWithIgnore_def
proof (induction inp arbitrary: out)
  case (Cons e inp)
  obtain h vs where e: "e = (h, vs)" by (cases e)
  have "mget (if header_Get out h \<noteq> [] \<or> header_Get out (ToLower h) \<noteq> [] then out
        else if mget_or False ign (ToLower h) then out
        else if \<not> cc \<and> Contains (ToLower h) ''content'' then out
        else if \<not> ch \<and> EqualFold h ''host'' then out
        else fold (\<lambda>v out. AddHeaderWithPrefix prfx h v out) vs out) k = mget out k"
    using Cons.prems add_values_frame [of prfx h k vs out] by (auto simp: e)
  then show ?case using Cons by (simp add: e Let_def)
qed simp

end
