(* ===== verification/Request_Filter.thy ===== *)
theory Request_Filter
  imports Util_Params Util_Text
begin

text \<open>
  Request filters: \<open>pkg/server/request/filter/filter.go\<close>. Two filters, \<open>ignore\<close> and \<open>bypass\<close>,
  answer matching requests with their own status instead of passing them on. Configuration goes to
  the update maps; the first match afterwards copies them to the maps that are matched against. The
  regular expressions are compiled by the argument \<open>compile\<close>, which gives the predicate of a
  pattern or \<open>None\<close> where \<open>regexp.MustCompile\<close> panics.
\<close>

type_synonym pattern = "string \<Rightarrow> bool"

record request_filter =
  rfUris :: "(string, pattern) gomap"
  rfNotUris :: "(string, pattern) gomap"
  rfHeaders :: "(string, (string, pattern) gomap) gomap"
  UriUpdates :: "(string, pattern) gomap"
  NotUriUpdates :: "(string, pattern) gomap"
  HeaderUpdates :: "(string, (string, pattern) gomap) gomap"
  rfStatus :: int
  FilteredCount :: int
  PendingUpdates :: bool
  hasURIs :: bool
  hasHeaders :: bool

definition newRequestFilter :: request_filter where
  "newRequestFilter =
     \<lparr>rfUris = [], rfNotUris = [], rfHeaders = [], UriUpdates = [], NotUriUpdates = [],
      HeaderUpdates = [], rfStatus = 200, FilteredCount = 0, PendingUpdates = False,
      hasURIs = False, hasHeaders = False\<rparr>"

definition ResetCount :: "request_filter \<Rightarrow> request_filter" where
  "ResetCount rf = rf\<lparr>FilteredCount := 0\<rparr>"

section \<open>Configuration\<close>

definition uri_pattern :: "string \<Rightarrow> string" where
  "uri_pattern matchURI =
     (if matchURI = ''/'' then [CHR ''^'', CHR 0x5C, CHR ''/'', CHR ''?'', CHR ''$'']
      else ''(?i)^'' @ matchURI @ ''$'')"

definition addFilterHeaderOrURI ::
  "(string \<Rightarrow> pattern option) \<Rightarrow> request \<Rightarrow> request_filter \<Rightarrow> (request_filter \<times> http_out) option" where
  "addFilterHeaderOrURI compile r rf =
     (let uri = GetStringParamValue r ''uri'' None;
          header = GetStringParamValue r ''header'' None;
          value = GetStringParamValue r ''value'' None
      in if uri \<noteq> [] then
           (let negative = HasPrefix uri ''!'';
                matchURI = (if negative then TrimLeft (ToLower uri) ''!'' else ToLower uri)
            in case compile (uri_pattern matchURI) of
                 None \<Rightarrow> None
               | Some re \<Rightarrow>
                   (let rf = (if negative then rf\<lparr>NotUriUpdates := mput uri re (NotUriUpdates rf)\<rparr>
                              else rf\<lparr>UriUpdates := mput uri re (UriUpdates rf)\<rparr>)
                    in Some (rf\<lparr>PendingUpdates := True, hasURIs := True\<rparr>,
                             SendEvent ''Request Filter Added'' no_out)))
         else if header \<noteq> [] then
           (let header = ToLower header;
                (hvalue, glob) = Unglob (ToLower value);
                hvalue = (if glob then hvalue @ ''(.*)?'' else hvalue)
            in case compile (''(?i)^'' @ hvalue @ ''$'') of
                 None \<Rightarrow> None
               | Some re \<Rightarrow>
                   (let m = mput value re (mget_or [] (HeaderUpdates rf) header)
                    in Some (rf\<lparr>HeaderUpdates := mput header m (HeaderUpdates rf),
                               PendingUpdates := True, hasHeaders := True\<rparr>,
                             SendEvent ''Request Filter Added'' no_out)))
         else Some (rf, WriteHeader 400 no_out))"

definition removeIgnoreHeaderOrURI :: "request \<Rightarrow> request_filter \<Rightarrow> request_filter \<times> http_out" where
  "removeIgnoreHeaderOrURI r rf =
     (let uri = GetStringParamValue r ''uri'' None;
          header = GetStringParamValue r ''header'' None;
          value = GetStringParamValue r ''value'' None
      in if uri \<noteq> [] then
           (let uri = ToLower uri
            in (rf\<lparr>UriUpdates := mdel uri (UriUpdates rf), NotUriUpdates := mdel uri (NotUriUpdates rf),
                   PendingUpdates := True\<rparr>,
                SendEvent ''Request Filter Removed'' no_out))
         else if header \<noteq> [] then
           (let header = ToLower header;
                value = ToLower value;
                hu = (case mget (HeaderUpdates rf) header of
                        None \<Rightarrow> HeaderUpdates rf
                      | Some m \<Rightarrow>
                          (if mdel value m = [] then mdel header (HeaderUpdates rf)
                           else mput header (mdel value m) (HeaderUpdates rf)))
            in (rf\<lparr>HeaderUpdates := hu, PendingUpdates := True, hasHeaders := (hu \<noteq> [])\<rparr>,
                SendEvent ''Request Filter Removed'' no_out))
         else (rf, WriteHeader 400 no_out))"

definition setOrGetIgnoreStatus :: "request \<Rightarrow> request_filter \<Rightarrow> (request_filter \<times> http_out) option" where
  "setOrGetIgnoreStatus r rf =
     (case GetStatusParam r of
        (codes, n, False) \<Rightarrow> Some (rf, no_out)
      | ([], n, True) \<Rightarrow> None
      | (c # cs, n, True) \<Rightarrow>
          Some (rf\<lparr>rfStatus := c\<rparr>, SendEvent ''Request Filter Status Configured'' no_out))"

definition filter_clear :: "request_filter \<Rightarrow> request_filter \<times> http_out" where
  "filter_clear rf =
     (rf\<lparr>UriUpdates := [], NotUriUpdates := [], HeaderUpdates := [], FilteredCount := 0,
         PendingUpdates := True\<rparr>,
      SendEvent ''Request Filters Cleared'' (WriteHeader 200 no_out))"

section \<open>Matching\<close>

definition applyUpdates :: "request_filter \<Rightarrow> request_filter" where
  "applyUpdates rf =
     (if PendingUpdates rf then
        rf\<lparr>rfUris := UriUpdates rf, rfNotUris := NotUriUpdates rf, rfHeaders := HeaderUpdates rf,
           PendingUpdates := False, hasURIs := (UriUpdates rf \<noteq> [] \<or> NotUriUpdates rf \<noteq> [])\<rparr>
      else rf)"

definition count_filtered :: "request_filter \<Rightarrow> request_filter" where
  "count_filtered rf = rf\<lparr>FilteredCount := FilteredCount rf + 1\<rparr>"

definition matchURI :: "request \<Rightarrow> request_filter \<Rightarrow> request_filter \<times> bool" where
  "matchURI r rf0 =
     (if \<not> hasURIs rf0 then (rf0, False)
      else
        let rf = applyUpdates rf0;
            filters = map snd (rfUris rf);
            negativeFilters = map snd (rfNotUris rf)
        in if filters = [] \<and> negativeFilters = [] then (rf, False)
           else if list_ex (\<lambda>re. re (RequestURI r)) filters then (count_filtered rf, True)
           else if negativeFilters \<noteq> [] \<and> \<not> list_ex (\<lambda>re. re (RequestURI r)) negativeFilters
           then (count_filtered rf, True)
           else (rf, False))"

definition header_hit :: "(string, (string, pattern) gomap) gomap \<Rightarrow> string \<times> string list \<Rightarrow> bool" where
  "header_hit headers = (\<lambda>(h, values).
     case mget headers (ToLower h) of
       None \<Rightarrow> False
     | Some m \<Rightarrow> mget m [] \<noteq> None \<or> list_ex (\<lambda>(k, re). list_ex re values) m)"

definition matchHeaders :: "request \<Rightarrow> request_filter \<Rightarrow> request_filter \<times> bool" where
  "matchHeaders r rf0 =
     (if \<not> hasHeaders rf0 then (rf0, False)
      else
        let rf = applyUpdates rf0 in
        if rfHeaders rf = [] then (rf, False)
        else if list_ex (header_hit (rfHeaders rf)) (reqHeaders r) then (count_filtered rf, True)
        else (rf, False))"

text \<open>The two filters, and the decision on a request: the status it is answered with, 0 for none.\<close>

record filter_state =
  ignoreFilter :: request_filter
  bypassFilter :: request_filter

definition filterRequest :: "request \<Rightarrow> filter_state \<Rightarrow> http_out \<Rightarrow> filter_state \<times> http_out \<times> bool" where
  "filterRequest r st w =
     (let (ig, m1) = matchURI r (ignoreFilter st);
          st = st\<lparr>ignoreFilter := ig\<rparr>;
          (byp, m2) = (if m1 then (bypassFilter st, False) else matchURI r (bypassFilter st));
          st = st\<lparr>bypassFilter := byp\<rparr>;
          (ig, m3) = (if m1 \<or> m2 then (ignoreFilter st, False) else matchHeaders r (ignoreFilter st));
          st = st\<lparr>ignoreFilter := ig\<rparr>;
          (byp, m4) = (if m1 \<or> m2 \<or> m3 then (bypassFilter st, False) else matchHeaders r (bypassFilter st));
          st = st\<lparr>bypassFilter := byp\<rparr>;
          statusCode = (if m1 \<or> m3 then rfStatus (ignoreFilter st)
                        else if m2 \<or> m4 then rfStatus (bypassFilter st) else 0)
      in if 0 < statusCode
         then (st, WriteHeader statusCode (AddHeader ''Goto-Filtered-Request'' ''true'' w), True)
         else (st, w, False))"

text \<open>The last component says whether the next handler is called.\<close>

definition filter_middleware :: "request \<Rightarrow> filter_state \<Rightarrow> http_out \<Rightarrow> filter_state \<times> http_out \<times> bool" where
  "filter_middleware r st w =
     (if IsKnownNonTraffic r then (st, w, True)
      else (case filterRequest r st w of (st, w, filtered) \<Rightarrow> (st, w, \<not> filtered)))"

section \<open>The matched maps are the configured ones\<close>

definition filter_inv :: "request_filter \<Rightarrow> bool" where
  "filter_inv rf \<longleftrightarrow>
     (\<not> PendingUpdates rf \<longrightarrow>
        rfUris rf = UriUpdates rf \<and> rfNotUris rf = NotUriUpdates rf \<and> rfHeaders rf = HeaderUpdates rf) \<and>
     (UriUpdates rf \<noteq> [] \<or> NotUriUpdates rf \<noteq> [] \<longrightarrow> hasURIs rf) \<and>
     (HeaderUpdates rf \<noteq> [] \<longrightarrow> hasHeaders rf)"

inductive filter_reachable :: "request_filter \<Rightarrow> bool" where
  filter_new: "filter_reachable newRequestFilter"
| filter_add: "filter_reachable rf \<Longrightarrow> addFilterHeaderOrURI compile r rf = Some (rf', w) \<Longrightarrow> filter_reachable rf'"
| filter_rem: "filter_reachable rf \<Longrightarrow> filter_reachable (fst (removeIgnoreHeaderOrURI r rf))"
| filter_status: "filter_reachable rf \<Longrightarrow> setOrGetIgnoreStatus r rf = Some (rf', w) \<Longrightarrow> filter_reachable rf'"
| filter_clr: "filter_reachable rf \<Longrightarrow> filter_reachable (fst (filter_clear rf))"
| filter_uri: "filter_reachable rf \<Longrightarrow> filter_reachable (fst (matchURI r rf))"
| filter_hdr: "filter_reachable rf \<Longrightarrow> filter_reachable (fst (matchHeaders r rf))"

lemma applyUpdates_inv: "filter_inv rf \<Longrightarrow> filter_inv (applyUpdates rf)"
  by (auto simp: filter_inv_def applyUpdates_def)

lemma count_filtered_inv: "filter_inv (count_filtered rf) = filter_inv rf"
  by (simp add: filter_inv_def count_filtered_def)

lemma filter_reachable_inv: "filter_reachable rf \<Longrightarrow> filter_inv rf"
proof (induction rule: filter_reachable.induct)
  case filter_new
  then show ?case by (simp add: filter_inv_def newRequestFilter_def)
next
  case (filter_add rf compile r rf' w)
  then show ?case
    by (auto simp: addFilterHeaderOrURI_def filter_inv_def Let_def split: if_splits option.splits prod.splits)
next
  case (filter_rem rf r)
  then show ?case
    by (auto simp: removeIgnoreHeaderOrURI_def filter_inv_def Let_def split: option.splits)
next
  case (filter_status rf r rf' w)
  then show ?case
    by (auto simp: setOrGetIgnoreStatus_def filter_inv_def split: prod.splits list.splits bool.splits)
next
  case (filter_clr rf)
  then show ?case by (auto simp: filter_clear_def filter_inv_def)
next
  case (filter_uri rf r)
  then show ?case
    using applyUpdates_inv count_filtered_inv by (auto simp: matchURI_def Let_def)
next
  case (filter_hdr rf r)
  then show ?case
    using applyUpdates_inv count_filtered_inv by (auto simp: matchHeaders_def Let_def)
qed

section \<open>The decision on a request\<close>

text \<open>What the configuration of a filter says of a request: a URI pattern that matches, or negated patterns of which none
  matches; and a header of the request that is configured with an empty value or with a pattern that one of its values matches.\<close>

definition uri_filtered :: "request \<Rightarrow> request_filter \<Rightarrow> bool" where
  "uri_filtered r rf \<longleftrightarrow>
     list_ex (\<lambda>(u, re). re (RequestURI r)) (UriUpdates rf) \<or>
     NotUriUpdates rf \<noteq> [] \<and> \<not> list_ex (\<lambda>(u, re). re (RequestURI r)) (NotUriUpdates rf)"

definition header_filtered :: "request \<Rightarrow> request_filter \<Rightarrow> bool" where
  "header_filtered r rf \<longleftrightarrow> list_ex (header_hit (HeaderUpdates rf)) (reqHeaders r)"

text \<open>What a match leaves of a filter: its configuration and status; the count may change.\<close>

definition same_config :: "request_filter \<Rightarrow> request_filter \<Rightarrow> bool" where
  "same_config rf rf' \<longleftrightarrow> UriUpdates rf' = UriUpdates rf \<and> NotUriUpdates rf' = NotUriUpdates rf \<and>
     HeaderUpdates rf' = HeaderUpdates rf \<and> rfStatus rf' = rfStatus rf"

lemma same_config_match: "same_config rf rf' \<Longrightarrow> uri_filtered r rf' = uri_filtered r rf \<and> header_filtered r rf' = header_filtered r rf"
  by (simp add: same_config_def uri_filtered_def header_filtered_def)

lemma applied_maps:
  assumes "filter_inv rf"
  shows "rfUris (applyUpdates rf) = UriUpdates rf" "rfNotUris (applyUpdates rf) = NotUriUpdates rf"
    "rfHeaders (applyUpdates rf) = HeaderUpdates rf"
  using assms by (auto simp: filter_inv_def applyUpdates_def)

lemma matchURI_decision:
  assumes "filter_inv rf"
  shows "\<exists>rf'. matchURI r rf = (rf', uri_filtered r rf) \<and> same_config rf rf' \<and> filter_inv rf' \<and>
    FilteredCount rf' = FilteredCount rf + (if uri_filtered r rf then 1 else 0)"
proof -
  have "same_config rf (applyUpdates rf)" "same_config rf (count_filtered (applyUpdates rf))"
    "FilteredCount (applyUpdates rf) = FilteredCount rf"
    by (simp_all add: same_config_def applyUpdates_def count_filtered_def)
  then show ?thesis
    using assms applyUpdates_inv [OF assms] count_filtered_inv [of "applyUpdates rf"]
    by (auto simp: matchURI_def applied_maps [OF assms] Let_def list_ex_iff filter_inv_def uri_filtered_def split_def
        same_config_def count_filtered_def)
qed

lemma matchHeaders_decision:
  assumes "filter_inv rf"
  shows "\<exists>rf'. matchHeaders r rf = (rf', header_filtered r rf) \<and> same_config rf rf' \<and>
    FilteredCount rf' = FilteredCount rf + (if header_filtered r rf then 1 else 0)"
proof -
  have none: "\<not> list_ex (header_hit []) hs" for hs
    by (induction hs) (auto simp: header_hit_def split: prod.splits)
  have "same_config rf (applyUpdates rf)" "same_config rf (count_filtered (applyUpdates rf))"
    "FilteredCount (applyUpdates rf) = FilteredCount rf"
    by (simp_all add: same_config_def applyUpdates_def count_filtered_def)
  then show ?thesis
    using assms none
    by (auto simp: matchHeaders_def applied_maps [OF assms] Let_def filter_inv_def header_filtered_def same_config_def count_filtered_def)
qed

section \<open>Properties\<close>

text \<open>The filter that answers a request: URIs come before headers, and the ignore filter before the bypass filter.\<close>

datatype answering = ByIgnore | ByBypass | ByNone

definition answered_by :: "request \<Rightarrow> filter_state \<Rightarrow> answering" where
  "answered_by r st =
     (if uri_filtered r (ignoreFilter st) then ByIgnore
      else if uri_filtered r (bypassFilter st) then ByBypass
      else if header_filtered r (ignoreFilter st) then ByIgnore
      else if header_filtered r (bypassFilter st) then ByBypass
      else ByNone)"

text \<open>C37: whatever configuration requests and traffic came before, the decision on a request that is traffic is made from
  what is configured for the two filters at that moment. A request that a filter matches, by its URI before its
  headers and in the ignore filter before the bypass filter, is answered with the status of that filter and not
  passed on, and only the count of that filter goes up; a filter whose status is not positive counts the request but lets it
  pass. Every other request is passed on untouched. Neither configuration changes.\<close>

theorem filter_decision:
  assumes "filter_reachable (ignoreFilter st)" and "filter_reachable (bypassFilter st)" and "\<not> IsKnownNonTraffic r"
  shows "\<exists>st'. filter_middleware r st w =
      (let status = (case answered_by r st of
           ByIgnore \<Rightarrow> rfStatus (ignoreFilter st) | ByBypass \<Rightarrow> rfStatus (bypassFilter st) | ByNone \<Rightarrow> 0)
       in if 0 < status then (st', WriteHeader status (AddHeader ''Goto-Filtered-Request'' ''true'' w), False)
          else (st', w, True)) \<and>
    same_config (ignoreFilter st) (ignoreFilter st') \<and> same_config (bypassFilter st) (bypassFilter st') \<and>
    FilteredCount (ignoreFilter st') = FilteredCount (ignoreFilter st) + (if answered_by r st = ByIgnore then 1 else 0) \<and>
    FilteredCount (bypassFilter st') = FilteredCount (bypassFilter st) + (if answered_by r st = ByBypass then 1 else 0)"
proof -
  note inv = filter_reachable_inv [OF assms(1)] filter_reachable_inv [OF assms(2)]
  from matchURI_decision [OF inv(1), of r] obtain i1 where
    i1: "matchURI r (ignoreFilter st) = (i1, uri_filtered r (ignoreFilter st))" "same_config (ignoreFilter st) i1" "filter_inv i1"
      "FilteredCount i1 = FilteredCount (ignoreFilter st) + (if uri_filtered r (ignoreFilter st) then 1 else 0)" by blast
  from matchURI_decision [OF inv(2), of r] obtain b1 where
    b1: "matchURI r (bypassFilter st) = (b1, uri_filtered r (bypassFilter st))" "same_config (bypassFilter st) b1" "filter_inv b1"
      "FilteredCount b1 = FilteredCount (bypassFilter st) + (if uri_filtered r (bypassFilter st) then 1 else 0)" by blast
  from matchHeaders_decision [OF i1(3), of r] obtain i2 where
    i2: "matchHeaders r i1 = (i2, header_filtered r (ignoreFilter st))" "same_config i1 i2"
      "FilteredCount i2 = FilteredCount i1 + (if header_filtered r (ignoreFilter st) then 1 else 0)"
    using same_config_match [OF i1(2), of r] by auto
  from matchHeaders_decision [OF b1(3), of r] obtain b2 where
    b2: "matchHeaders r b1 = (b2, header_filtered r (bypassFilter st))" "same_config b1 b2"
      "FilteredCount b2 = FilteredCount b1 + (if header_filtered r (bypassFilter st) then 1 else 0)"
    using same_config_match [OF b1(2), of r] by auto
  have keep: "same_config (ignoreFilter st) (ignoreFilter st)" "same_config (bypassFilter st) (bypassFilter st)"
    "same_config (ignoreFilter st) i2" "same_config (bypassFilter st) b2"
    "rfStatus i1 = rfStatus (ignoreFilter st)" "rfStatus b1 = rfStatus (bypassFilter st)"
    "rfStatus i2 = rfStatus (ignoreFilter st)" "rfStatus b2 = rfStatus (bypassFilter st)"
    using i1(2) b1(2) i2(2) b2(2) by (auto simp: same_config_def)
  consider (u1) "uri_filtered r (ignoreFilter st)"
    | (u2) "\<not> uri_filtered r (ignoreFilter st)" "uri_filtered r (bypassFilter st)"
    | (h1) "\<not> uri_filtered r (ignoreFilter st)" "\<not> uri_filtered r (bypassFilter st)" "header_filtered r (ignoreFilter st)"
    | (h2) "\<not> uri_filtered r (ignoreFilter st)" "\<not> uri_filtered r (bypassFilter st)" "\<not> header_filtered r (ignoreFilter st)"
    by blast
  then show ?thesis
  proof cases
    case u1
    then show ?thesis using assms(3) i1 keep
      by (intro exI [of _ "st\<lparr>ignoreFilter := i1\<rparr>"]) (simp add: filter_middleware_def filterRequest_def answered_by_def Let_def)
  next
    case u2
    then show ?thesis using assms(3) i1 b1 keep
      by (intro exI [of _ "st\<lparr>ignoreFilter := i1, bypassFilter := b1\<rparr>"])
        (simp add: filter_middleware_def filterRequest_def answered_by_def Let_def)
  next
    case h1
    then show ?thesis using assms(3) i1 b1 i2 keep
      by (intro exI [of _ "st\<lparr>ignoreFilter := i2, bypassFilter := b1\<rparr>"])
        (simp add: filter_middleware_def filterRequest_def answered_by_def Let_def)
  next
    case h2
    then show ?thesis using assms(3) i1 b1 i2 b2 keep
      by (intro exI [of _ "st\<lparr>ignoreFilter := i2, bypassFilter := b2\<rparr>"])
        (simp add: filter_middleware_def filterRequest_def answered_by_def Let_def)
  qed
qed

text \<open>The ignore filter has the header \<open>x\<close>, the bypass filter the URI \<open>/a\<close> and the status 418; the request has both.\<close>

definition filter_config_request :: "(string \<times> string) list \<Rightarrow> request" where
  "filter_config_request vars =
     \<lparr>reqPort = ''80'', reqPortNum = 80, RequestURI = ''/'', URLPath = ''/'', reqMethod = ''POST'',
      reqHeaders = [], reqVars = vars, reqQuery = [], IsKnownNonTraffic = True, IsAdminRequest = True\<rparr>"

definition filter_sample :: filter_state where
  "filter_sample =
     \<lparr>ignoreFilter = fst (the (addFilterHeaderOrURI (\<lambda>p. Some (\<lambda>v. True)) (filter_config_request [(''header'', ''X'')]) newRequestFilter)),
      bypassFilter = fst (the (setOrGetIgnoreStatus (filter_config_request [(''status'', ''418'')])
        (fst (the (addFilterHeaderOrURI (\<lambda>p. Some (\<lambda>u. u = ''/a'')) (filter_config_request [(''uri'', ''/a'')]) newRequestFilter)))))\<rparr>"

definition filter_sample_request :: request where
  "filter_sample_request =
     \<lparr>reqPort = ''80'', reqPortNum = 80, RequestURI = ''/a'', URLPath = ''/a'', reqMethod = ''GET'',
      reqHeaders = [(''X'', [''1''])], reqVars = [], reqQuery = [], IsKnownNonTraffic = False, IsAdminRequest = False\<rparr>"

theorem filter_decision_witness:
  "\<exists>st'. filter_middleware filter_sample_request filter_sample no_out =
       (st', WriteHeader 418 (AddHeader ''Goto-Filtered-Request'' ''true'' no_out), False) \<and>
     FilteredCount (ignoreFilter st') = 0 \<and> FilteredCount (bypassFilter st') = 1"
proof -
  let ?add1 = "addFilterHeaderOrURI (\<lambda>p. Some (\<lambda>v. True)) (filter_config_request [(''header'', ''X'')]) newRequestFilter"
  let ?add2 = "addFilterHeaderOrURI (\<lambda>p. Some (\<lambda>u. u = ''/a'')) (filter_config_request [(''uri'', ''/a'')]) newRequestFilter"
  let ?set = "setOrGetIgnoreStatus (filter_config_request [(''status'', ''418'')])"
  have some: "\<not> Option.is_none ?add1" "\<not> Option.is_none ?add2" "\<not> Option.is_none (?set (fst (the ?add2)))" by code_simp+
  have i: "filter_reachable (ignoreFilter filter_sample)"
    using some(1) filter_add [OF filter_new, of "\<lambda>p. Some (\<lambda>v. True)" "filter_config_request [(''header'', ''X'')]"]
    by (cases ?add1) (auto simp: filter_sample_def)
  have "filter_reachable (fst (the ?add2))"
    using some(2) filter_add [OF filter_new, of "\<lambda>p. Some (\<lambda>u. u = ''/a'')" "filter_config_request [(''uri'', ''/a'')]"]
    by (cases ?add2) auto
  then have b: "filter_reachable (bypassFilter filter_sample)"
    using some(3) filter_status [of "fst (the ?add2)" "filter_config_request [(''status'', ''418'')]"]
    by (cases "?set (fst (the ?add2))") (auto simp: filter_sample_def)
  have "answered_by filter_sample_request filter_sample = ByBypass" "rfStatus (bypassFilter filter_sample) = 418"
    "FilteredCount (ignoreFilter filter_sample) = 0" "FilteredCount (bypassFilter filter_sample) = 0"
    "\<not> IsKnownNonTraffic filter_sample_request" by code_simp+
  with filter_decision [OF i b, of filter_sample_request no_out] show ?thesis by auto
qed

text \<open>A filter added for a URI with an upper-case letter cannot be removed with that URI: it is
  stored under the text as given, and the removal looks for the lower-case text.\<close>

theorem filter_uri_not_removed:
  assumes "GetStringParamValue r ''uri'' None = u" and "GetStringParamValue r' ''uri'' None = u"
    and "u \<noteq> []" and "ToLower u \<noteq> u" and "\<not> HasPrefix u ''!''"
    and "addFilterHeaderOrURI compile r rf = Some (rf1, w)"
  shows "mget (UriUpdates (fst (removeIgnoreHeaderOrURI r' rf1))) u = compile (uri_pattern (ToLower u))"
  using assms by (auto simp: addFilterHeaderOrURI_def removeIgnoreHeaderOrURI_def Let_def split: option.splits)

theorem filter_uri_not_removed_witness:
  "mget (UriUpdates (fst (removeIgnoreHeaderOrURI
       \<lparr>reqPort = ''80'', reqPortNum = 80, RequestURI = ''/'', URLPath = ''/'', reqMethod = ''POST'',
        reqHeaders = [], reqVars = [(''uri'', ''/A'')], reqQuery = [], IsKnownNonTraffic = True,
        IsAdminRequest = True\<rparr>
       (newRequestFilter\<lparr>UriUpdates := [(''/A'', \<lambda>s. s = ''/a'')], PendingUpdates := True, hasURIs := True\<rparr>)))) ''/A''
     = Some (\<lambda>s. s = ''/a'')"
proof -
  let ?r = "\<lparr>reqPort = ''80'', reqPortNum = 80, RequestURI = ''/'', URLPath = ''/'', reqMethod = ''POST'',
        reqHeaders = [], reqVars = [(''uri'', ''/A'')], reqQuery = [], IsKnownNonTraffic = True,
        IsAdminRequest = True\<rparr>"
  let ?rf = "newRequestFilter\<lparr>UriUpdates := [(''/A'', \<lambda>s. s = ''/a'')], PendingUpdates := True, hasURIs := True\<rparr>"
  have u: "GetStringParamValue ?r ''uri'' None = ''/A''"
    by (simp add: GetStringParamValue_def GetStringParam_def mget_or_def)
  have "ToLower ''/A'' \<noteq> ''/A''" by code_simp
  moreover have "addFilterHeaderOrURI (\<lambda>p. Some (\<lambda>s. s = ''/a'')) ?r newRequestFilter =
      Some (?rf, SendEvent ''Request Filter Added'' no_out)"
    by (simp add: addFilterHeaderOrURI_def u HasPrefix_def newRequestFilter_def Let_def)
  ultimately show ?thesis
    using filter_uri_not_removed [OF u u, of "\<lambda>p. Some (\<lambda>s. s = ''/a'')" newRequestFilter ?rf]
    by (simp add: HasPrefix_def)
qed

end
