(* ===== verification/Timeout.thy ===== *)
theory Timeout
  imports Util_Params
begin

text \<open>
  Timeout tracking: \<open>pkg/server/request/timeout/timeout.go\<close>. A request that is tracked starts a
  goroutine that waits for the connection to close or the request to complete and then updates the
  counters of the tracking object it started with. The objects are therefore kept in a store, and a
  port refers to its current object by its address: clearing a port gives it a new object while the
  requests in flight keep the old one. \<open>timeout_begin\<close> is the middleware up to the start of the
  goroutine, and \<open>timeout_end\<close> the goroutine after its wait; other operations may come in between.
  Dereferencing a counter that is no longer in the map is \<open>None\<close>: it is a nil dereference in a
  goroutine of its own.
\<close>

record timeout_data =
  ConnectionClosed :: int
  RequestCompleted :: int

definition new_timeout_data :: timeout_data where
  "new_timeout_data = \<lparr>ConnectionClosed = 0, RequestCompleted = 0\<rparr>"

record timeout_tracking =
  headersMap :: "(string, (string, timeout_data) gomap) gomap"
  allTimeouts :: "timeout_data option"

record timeout_state =
  timeoutTrackingByPort :: "(string, nat) gomap"
  trackings :: "(nat, timeout_tracking) gomap"
  nextTracking :: nat

definition new_tracking :: timeout_tracking where
  "new_tracking = \<lparr>headersMap = [], allTimeouts = None\<rparr>"

definition alloc_tracking :: "string \<Rightarrow> timeout_state \<Rightarrow> timeout_state" where
  "alloc_tracking port st =
     st\<lparr>timeoutTrackingByPort := mput port (nextTracking st) (timeoutTrackingByPort st),
        trackings := mput (nextTracking st) new_tracking (trackings st),
        nextTracking := nextTracking st + 1\<rparr>"

definition getTimeoutTracking :: "request \<Rightarrow> timeout_state \<Rightarrow> timeout_state \<times> nat" where
  "getTimeoutTracking r st =
     (case mget (timeoutTrackingByPort st) (reqPort r) of
        Some a \<Rightarrow> (st, a)
      | None \<Rightarrow> (alloc_tracking (reqPort r) st, nextTracking st))"

definition upd_tracking :: "nat \<Rightarrow> (timeout_tracking \<Rightarrow> timeout_tracking) \<Rightarrow> timeout_state \<Rightarrow> timeout_state" where
  "upd_tracking a f st = st\<lparr>trackings := mput a (f (mget_or new_tracking (trackings st) a)) (trackings st)\<rparr>"

definition addHeaders :: "string list \<Rightarrow> timeout_tracking \<Rightarrow> timeout_tracking" where
  "addHeaders headers tt = tt\<lparr>headersMap := fold (\<lambda>h m. mput h [] m) headers (headersMap tt)\<rparr>"

definition timeout_trackHeaders :: "request \<Rightarrow> timeout_state \<Rightarrow> timeout_state \<times> http_out" where
  "timeout_trackHeaders r st0 =
     (let (st, a) = getTimeoutTracking r st0 in
      case GetStringParam r ''headers'' None of
        (param, True) \<Rightarrow>
          (upd_tracking a (addHeaders (split_on CHR '','' param)) st,
           WriteHeader 200 (SendEvent ''Timeout Tracking Headers Added'' no_out))
      | (param, False) \<Rightarrow> (st, WriteHeader 400 no_out))"

definition timeout_trackAll :: "request \<Rightarrow> timeout_state \<Rightarrow> timeout_state \<times> http_out" where
  "timeout_trackAll r st0 =
     (let (st, a) = getTimeoutTracking r st0
      in (upd_tracking a (\<lambda>tt. tt\<lparr>allTimeouts := Some new_timeout_data\<rparr>) st,
          SendEvent ''All Timeout Tracking Enabled'' (WriteHeader 200 no_out)))"

definition clearTimeoutTracking :: "request \<Rightarrow> timeout_state \<Rightarrow> timeout_state \<times> http_out" where
  "clearTimeoutTracking r st =
     ((case mget (timeoutTrackingByPort st) (reqPort r) of
         Some a \<Rightarrow> alloc_tracking (reqPort r) st | None \<Rightarrow> st),
      SendEvent ''Timeout Tracking Headers Cleared'' (WriteHeader 200 no_out))"

definition reportTimeoutTracking ::
  "request \<Rightarrow> timeout_state \<Rightarrow> timeout_state \<times> timeout_tracking \<times> http_out" where
  "reportTimeoutTracking r st0 =
     (let (st, a) = getTimeoutTracking r st0
      in (st, mget_or new_tracking (trackings st) a, WriteHeader 200 no_out))"

section \<open>A tracked request\<close>

text \<open>The headers of the request that are tracked, with their values; a value seen for the first time
  gets its counters.\<close>

definition tracked_headers :: "request \<Rightarrow> timeout_tracking \<Rightarrow> (string \<times> string) list" where
  "tracked_headers r tt =
     map (\<lambda>(h, m). (h, header_Get (reqHeaders r) h))
       (filter (\<lambda>(h, m). header_Get (reqHeaders r) h \<noteq> []) (headersMap tt))"

definition add_values :: "request \<Rightarrow> timeout_tracking \<Rightarrow> timeout_tracking" where
  "add_values r tt =
     tt\<lparr>headersMap :=
          map (\<lambda>(h, m).
             let v = header_Get (reqHeaders r) h in
             (h, if v \<noteq> [] \<and> mget m v = None then mput v new_timeout_data m else m)) (headersMap tt)\<rparr>"

definition timeout_begin ::
  "request \<Rightarrow> timeout_state \<Rightarrow> timeout_state \<times> (nat \<times> (string \<times> string) list) option" where
  "timeout_begin r st0 =
     (if IsKnownNonTraffic r then (st0, None)
      else
        let (st, a) = getTimeoutTracking r st0;
            tt = mget_or new_tracking (trackings st) a;
            tracked = tracked_headers r tt;
            st = upd_tracking a (add_values r) st
        in (st, if tracked \<noteq> [] \<or> allTimeouts tt \<noteq> None then Some (a, tracked) else None))"

definition bump_data :: "bool \<Rightarrow> timeout_data \<Rightarrow> timeout_data" where
  "bump_data closed d =
     (if closed then d\<lparr>ConnectionClosed := ConnectionClosed d + 1\<rparr>
      else d\<lparr>RequestCompleted := RequestCompleted d + 1\<rparr>)"

fun bump_headers ::
  "bool \<Rightarrow> (string \<times> string) list \<Rightarrow> (string, (string, timeout_data) gomap) gomap \<Rightarrow>
   (string, (string, timeout_data) gomap) gomap option" where
  "bump_headers closed [] hm = Some hm"
| "bump_headers closed ((h, v) # tracked) hm =
     (case mget (mget_or [] hm h) v of
        None \<Rightarrow> None
      | Some d \<Rightarrow> bump_headers closed tracked (mput h (mput v (bump_data closed d) (mget_or [] hm h)) hm))"

definition timeout_end ::
  "bool \<Rightarrow> nat \<times> (string \<times> string) list \<Rightarrow> timeout_state \<Rightarrow> timeout_state option" where
  "timeout_end closed job st =
     (let (a, tracked) = job;
          tt = mget_or new_tracking (trackings st) a
      in map_option (\<lambda>hm. upd_tracking a (\<lambda>tt. tt\<lparr>headersMap := hm,
             allTimeouts := map_option (bump_data closed) (allTimeouts tt)\<rparr>) st)
           (bump_headers closed tracked (headersMap tt)))"

section \<open>Lemmas\<close>

lemma bump_headers_none_iff:
  "bump_headers closed tracked hm = None \<longleftrightarrow> (\<exists>(h, v) \<in> set tracked. mget (mget_or [] hm h) v = None)"
proof (induction tracked arbitrary: hm)
  case (Cons e tracked)
  obtain h v where e: "e = (h, v)" by (cases e)
  show ?case
  proof (cases "mget (mget_or [] hm h) v")
    case (Some d)
    have "mget (mget_or [] (mput h (mput v (bump_data closed d) (mget_or [] hm h)) hm) h') v' = None
      \<longleftrightarrow> mget (mget_or [] hm h') v' = None" for h' v'
      using Some by auto
    with Some e Cons.IH show ?thesis by simp
  qed (simp add: e)
qed simp

lemma reset_keeps: "mget m h = Some [] \<Longrightarrow> mget (fold (\<lambda>h m. mput h [] m) hs m) h = Some []"
  by (induction hs arbitrary: m) auto

lemma reset_headers_get: "h \<in> set hs \<Longrightarrow> mget (fold (\<lambda>h m. mput h [] m) hs m) h = Some []"
  by (induction hs arbitrary: m) (auto simp: reset_keeps)

lemma tracked_added:
  assumes "(h, v) \<in> set (tracked_headers r tt)"
  shows "mget (mget_or [] (headersMap (add_values r tt)) h) v \<noteq> None"
proof -
  have *: "(h, m) \<in> set hm \<Longrightarrow> header_Get (reqHeaders r) h \<noteq> [] \<Longrightarrow>
      mget (mget_or [] (map (\<lambda>(h, m). let v = header_Get (reqHeaders r) h in
         (h, if v \<noteq> [] \<and> mget m v = None then mput v new_timeout_data m else m)) hm) h)
        (header_Get (reqHeaders r) h) \<noteq> None" for h m and hm :: "(string, (string, timeout_data) gomap) gomap"
    by (induction hm) (auto simp: mget_or_def Let_def)
  from assms obtain m where "(h, m) \<in> set (headersMap tt)" "v = header_Get (reqHeaders r) h" "v \<noteq> []"
    by (auto simp: tracked_headers_def)
  with * show ?thesis by (simp add: add_values_def)
qed

text \<open>A request that ends with nothing in between updates its counters.\<close>

lemma begin_end_ok:
  assumes "timeout_begin r st = (st1, Some job)"
  shows "timeout_end closed job st1 \<noteq> None"
proof -
  obtain st' a where g: "getTimeoutTracking r st = (st', a)" by fastforce
  let ?tt = "mget_or new_tracking (trackings st') a"
  have j: "job = (a, tracked_headers r ?tt)" and s: "st1 = upd_tracking a (add_values r) st'"
    using assms g by (auto simp: timeout_begin_def Let_def split: if_splits)
  have "mget_or new_tracking (trackings st1) a = add_values r ?tt"
    by (simp add: s upd_tracking_def)
  then show ?thesis
    using tracked_added [of _ _ r ?tt] by (auto simp: timeout_end_def j bump_headers_none_iff Let_def)
qed

section \<open>Properties\<close>

text \<open>When a tracked header is configured again while a request that it tracks is in flight, the
  goroutine of that request dereferences nil when the request ends: configuring the header replaces
  its counters by an empty map. Without an operation in between, the goroutine does not panic.\<close>

theorem timeout_retrack_panics:
  assumes "timeout_begin r st = (st1, Some (a, tracked))" and "(h, v) \<in> set tracked"
    and "mget (timeoutTrackingByPort st1) (reqPort r') = Some a"
    and "GetStringParam r' ''headers'' None = (param, True)" and "h \<in> set (split_on CHR '','' param)"
  shows "timeout_end closed (a, tracked) st1 \<noteq> None \<and>
     timeout_end closed (a, tracked) (fst (timeout_trackHeaders r' st1)) = None"
proof
  show "timeout_end closed (a, tracked) st1 \<noteq> None" using assms(1) by (rule begin_end_ok)
  have "timeout_trackHeaders r' st1 =
      (upd_tracking a (addHeaders (split_on CHR '','' param)) st1,
       WriteHeader 200 (SendEvent ''Timeout Tracking Headers Added'' no_out))"
    using assms(3,4) by (simp add: timeout_trackHeaders_def getTimeoutTracking_def)
  then have "mget (mget_or [] (headersMap (mget_or new_tracking
      (trackings (fst (timeout_trackHeaders r' st1))) a)) h) v = None"
    by (simp add: upd_tracking_def addHeaders_def mget_or_def reset_headers_get [OF assms(5)])
  with assms(2) show "timeout_end closed (a, tracked) (fst (timeout_trackHeaders r' st1)) = None"
    by (auto simp: timeout_end_def bump_headers_none_iff Let_def)
qed

theorem timeout_retrack_panics_witness:
  "timeout_end True (0, [(''X'', ''1'')])
     \<lparr>timeoutTrackingByPort = [(''80'', 0)],
      trackings = [(0, \<lparr>headersMap = [(''X'', [(''1'', new_timeout_data)])], allTimeouts = None\<rparr>)],
      nextTracking = 1\<rparr> \<noteq> None \<and>
   timeout_end True (0, [(''X'', ''1'')])
     (fst (timeout_trackHeaders
       \<lparr>reqPort = ''80'', reqPortNum = 80, RequestURI = ''/'', URLPath = ''/'', reqMethod = ''POST'',
        reqHeaders = [], reqVars = [(''headers'', ''X'')], reqQuery = [], IsKnownNonTraffic = True,
        IsAdminRequest = True\<rparr>
     \<lparr>timeoutTrackingByPort = [(''80'', 0)],
      trackings = [(0, \<lparr>headersMap = [(''X'', [(''1'', new_timeout_data)])], allTimeouts = None\<rparr>)],
      nextTracking = 1\<rparr>)) = None"
proof (rule timeout_retrack_panics)
  show "timeout_begin
       \<lparr>reqPort = ''80'', reqPortNum = 80, RequestURI = ''/a'', URLPath = ''/a'', reqMethod = ''GET'',
        reqHeaders = [(''X'', [''1''])], reqVars = [], reqQuery = [], IsKnownNonTraffic = False,
        IsAdminRequest = False\<rparr>
       \<lparr>timeoutTrackingByPort = [(''80'', 0)],
        trackings = [(0, \<lparr>headersMap = [(''X'', [])], allTimeouts = None\<rparr>)], nextTracking = 1\<rparr> =
     (\<lparr>timeoutTrackingByPort = [(''80'', 0)],
      trackings = [(0, \<lparr>headersMap = [(''X'', [(''1'', new_timeout_data)])], allTimeouts = None\<rparr>)],
      nextTracking = 1\<rparr>, Some (0, [(''X'', ''1'')]))"
    by code_simp
  show "''X'' \<in> set (split_on CHR '','' ''X'')" by code_simp
qed (simp_all add: GetStringParam_def mget_or_def)

end
