(* ===== verification/Events.thy ===== *)
theory Events
  imports Util_Params
begin

text \<open>
  Events: \<open>pkg/events/events.go\<close>. Senders put events on a channel that one goroutine drains in
  order into the list of events and then publishes to the registry or stores in the current locker;
  traffic goes through a second channel to the traffic tracker, which reports only changes of a
  URI's status or details. The channels are queues; \<open>eventSender_step\<close> and
  \<open>trafficProcessor_step\<close> are one round of the two goroutines. Blocking on a full channel only
  delays a sender and is not modelled, nor are the logs. The current time is an argument; the
  registry is reached through \<open>published\<close>, the events handed to it, in order.
\<close>

record event_tracker =
  etPort :: int
  etURI :: string
  etStatusCode :: int
  TrafficDetails :: "string list"
  StatusRepeatCount :: int
  FirstEventAt :: int
  LastEventAt :: int

datatype event_data = EText string | ETracker event_tracker | ETrackers "event_tracker list"

record event =
  eTitle :: string
  eSummary :: string
  eData :: event_data
  eAt :: int
  ePeer :: string
  ePeerHost :: string

record events_env =
  EnableEvents :: bool
  PublishEvents :: bool
  RegistryURL :: string
  SelfName :: string
  SelfHostLabel :: string

record traffic =
  tPort :: int
  tURI :: string
  tStatus :: int
  tDetails :: "string list"

record events_state =
  eventsList :: "event list"
  trafficEventTracker :: "(int, (string, event_tracker) gomap) gomap"
  eventChannel :: "event list"
  trafficChannel :: "traffic list"
  published :: "event list"
  storedInLocker :: "event list"

section \<open>Creating and sending events\<close>

definition newEvent :: "string \<Rightarrow> string \<Rightarrow> event_data \<Rightarrow> int \<Rightarrow> string \<Rightarrow> string \<Rightarrow> event" where
  "newEvent title summary data at peer host =
     \<lparr>eTitle = title,
      eSummary =
        (if summary = [] then
           (case data of
              EText t \<Rightarrow> (if 20 < length t then take 20 t @ ''...'' else t)
            | _ \<Rightarrow> [])
         else summary),
      eData = data, eAt = at, ePeer = peer, ePeerHost = host\<rparr>"

definition newPortEvent :: "events_env \<Rightarrow> string \<Rightarrow> string \<Rightarrow> event_data \<Rightarrow> int \<Rightarrow> event" where
  "newPortEvent env title summary data at =
     newEvent title summary data at (SelfName env) (SelfHostLabel env)"

text \<open>The listener label of the request's port is the argument \<open>label\<close>; without a request it is
  the host label of the server.\<close>

definition newRequestEvent :: "events_env \<Rightarrow> string option \<Rightarrow> string \<Rightarrow> string \<Rightarrow> event_data \<Rightarrow> int \<Rightarrow> event" where
  "newRequestEvent env label title summary data at =
     newEvent title summary data at (SelfName env)
       (case label of Some l \<Rightarrow> l | None \<Rightarrow> SelfHostLabel env)"

definition storeAndPublishEvent :: "events_env \<Rightarrow> event \<Rightarrow> events_state \<Rightarrow> events_state" where
  "storeAndPublishEvent env ev st =
     (if EnableEvents env then
        (let st = st\<lparr>eventsList := eventsList st @ [ev]\<rparr> in
         if PublishEvents env \<and> RegistryURL env \<noteq> [] then st\<lparr>published := published st @ [ev]\<rparr>
         else st\<lparr>storedInLocker := storedInLocker st @ [ev]\<rparr>)
      else st)"

definition enqueue :: "events_env \<Rightarrow> event \<Rightarrow> events_state \<Rightarrow> events_state" where
  "enqueue env ev st = (if EnableEvents env then st\<lparr>eventChannel := eventChannel st @ [ev]\<rparr> else st)"

definition SendRequestEvent ::
  "events_env \<Rightarrow> int \<Rightarrow> string option \<Rightarrow> string \<Rightarrow> string \<Rightarrow> events_state \<Rightarrow> events_state" where
  "SendRequestEvent env now label title data st =
     enqueue env (newRequestEvent env label title [] (EText data) now) st"

definition SendEventForPort :: "events_env \<Rightarrow> int \<Rightarrow> string \<Rightarrow> string \<Rightarrow> events_state \<Rightarrow> events_state" where
  "SendEventForPort env now title data st = enqueue env (newPortEvent env title [] (EText data) now) st"

definition SendEventJSONForPort ::
  "events_env \<Rightarrow> int \<Rightarrow> string \<Rightarrow> string \<Rightarrow> event_data \<Rightarrow> events_state \<Rightarrow> events_state" where
  "SendEventJSONForPort env now title summary data st =
     enqueue env (newPortEvent env title summary data now) st"

definition SendEventDirect :: "events_env \<Rightarrow> int \<Rightarrow> string \<Rightarrow> string \<Rightarrow> events_state \<Rightarrow> events_state" where
  "SendEventDirect env now title data st =
     (if EnableEvents env then storeAndPublishEvent env (newPortEvent env title [] (EText data) now) st else st)"

definition SendEventJSONDirect ::
  "events_env \<Rightarrow> int \<Rightarrow> string \<Rightarrow> string \<Rightarrow> event_data \<Rightarrow> events_state \<Rightarrow> events_state" where
  "SendEventJSONDirect env now title summary data st =
     (if EnableEvents env then storeAndPublishEvent env (newPortEvent env title summary data now) st else st)"

definition TrackTrafficEvent ::
  "events_env \<Rightarrow> int \<Rightarrow> request \<Rightarrow> string list \<Rightarrow> events_state \<Rightarrow> events_state" where
  "TrackTrafficEvent env statusCode r details st =
     (if EnableEvents env then
        st\<lparr>trafficChannel := trafficChannel st @
             [\<lparr>tPort = reqPortNum r, tURI = ToLower (RequestURI r), tStatus = statusCode, tDetails = details\<rparr>]\<rparr>
      else st)"

definition TrackPortTrafficEvent ::
  "events_env \<Rightarrow> int \<Rightarrow> string \<Rightarrow> int \<Rightarrow> string list \<Rightarrow> events_state \<Rightarrow> events_state" where
  "TrackPortTrafficEvent env port operation statusCode details st =
     (if EnableEvents env then
        st\<lparr>trafficChannel := trafficChannel st @
             [\<lparr>tPort = port, tURI = operation, tStatus = statusCode, tDetails = details\<rparr>]\<rparr>
      else st)"

definition FlushEvents :: "events_env \<Rightarrow> int \<Rightarrow> events_state \<Rightarrow> events_state" where
  "FlushEvents env now st =
     (if EnableEvents env then
        (let trackers = concat (map (\<lambda>(p, tt). map snd tt) (trafficEventTracker st))
         in (SendEventJSONDirect env now ''Flushed Traffic Report'' [] (ETrackers trackers) st)
              \<lparr>trafficEventTracker := []\<rparr>)
      else st)"

definition ClearEvents :: "events_env \<Rightarrow> int \<Rightarrow> events_state \<Rightarrow> events_state" where
  "ClearEvents env now st =
     (if EnableEvents env then
        SendEventForPort env now ''Events Cleared'' [] (st\<lparr>eventsList := [], trafficEventTracker := []\<rparr>)
      else st)"

section \<open>The traffic tracker\<close>

text \<open>Whether a request continues the run that a tracker counts.\<close>

definition same_traffic :: "int \<Rightarrow> string list \<Rightarrow> int \<Rightarrow> string list \<Rightarrow> bool" where
  "same_traffic s d s' d' \<longleftrightarrow>
     s = s' \<and> length d = length d' \<and> (d \<noteq> [] \<and> d' \<noteq> [] \<longrightarrow> EqualFold (hd d) (hd d'))"

definition tracker_summary :: "event_tracker \<Rightarrow> string" where
  "tracker_summary t =
     ''Port ['' @ Itoa (etPort t) @ ''] URI ['' @ etURI t @ ''] Status ['' @ Itoa (etStatusCode t) @
     ''] Traffic Details ['' @ join_with '','' (TrafficDetails t) @ ''] Repeated x['' @
     Itoa (StatusRepeatCount t) @ '']''"

definition first_details :: "traffic \<Rightarrow> string" where
  "first_details t =
     ''Port ['' @ Itoa (tPort t) @ ''] URI ['' @ tURI t @ ''] First Request with Status ['' @
     Itoa (tStatus t) @ ''] Traffic Details ['' @ join_with '','' (tDetails t) @ '']''"

definition changed_details :: "int \<Rightarrow> string list \<Rightarrow> traffic \<Rightarrow> string" where
  "changed_details oldStatus oldDetails t =
     ''Port ['' @ Itoa (tPort t) @ ''] URI ['' @ tURI t @ ''] Old Status ['' @ Itoa oldStatus @
     ''] New Status ['' @ Itoa (tStatus t) @ ''] Traffic Old Details ['' @ join_with '','' oldDetails @
     ''] New Details ['' @ join_with '','' (tDetails t) @ '']''"

definition processTrafficEvent :: "events_env \<Rightarrow> int \<Rightarrow> traffic \<Rightarrow> events_state \<Rightarrow> events_state" where
  "processTrafficEvent env now t st =
     (let portTracker = mget_or [] (trafficEventTracker st) (tPort t);
          st = st\<lparr>trafficEventTracker := mput (tPort t) portTracker (trafficEventTracker st)\<rparr>;
          new = \<lparr>etPort = tPort t, etURI = tURI t, etStatusCode = tStatus t, TrafficDetails = tDetails t,
                 StatusRepeatCount = 1, FirstEventAt = now, LastEventAt = now\<rparr>;
          put = (\<lambda>k st. st\<lparr>trafficEventTracker :=
                   mput (tPort t) (mput (tURI t) k portTracker) (trafficEventTracker st)\<rparr>)
      in case mget portTracker (tURI t) of
           None \<Rightarrow> put new (SendEventForPort env now ''URI First Request'' (first_details t) st)
         | Some k \<Rightarrow>
             (if same_traffic (etStatusCode k) (TrafficDetails k) (tStatus t) (tDetails t) then
                put (k\<lparr>LastEventAt := now, StatusRepeatCount := StatusRepeatCount k + 1\<rparr>) st
              else
                (let st = (if 1 < StatusRepeatCount k
                           then SendEventJSONForPort env now ''Repeated URI Status'' (tracker_summary k)
                                  (ETracker k) st
                           else st)
                 in put new
                      (if etStatusCode k = - 1
                       then SendEventForPort env now ''URI First Request'' (first_details t) st
                       else SendEventForPort env now ''URI Status / Details Changed''
                              (changed_details (etStatusCode k) (TrafficDetails k) t) st))))"

definition eventSender_step :: "events_env \<Rightarrow> events_state \<Rightarrow> events_state" where
  "eventSender_step env st =
     (case eventChannel st of
        [] \<Rightarrow> st
      | ev # evs \<Rightarrow> storeAndPublishEvent env ev (st\<lparr>eventChannel := evs\<rparr>))"

definition trafficProcessor_step :: "events_env \<Rightarrow> int \<Rightarrow> events_state \<Rightarrow> events_state" where
  "trafficProcessor_step env now st =
     (case trafficChannel st of
        [] \<Rightarrow> st
      | t # ts \<Rightarrow> processTrafficEvent env now t (st\<lparr>trafficChannel := ts\<rparr>))"

section \<open>Reading events\<close>

text \<open>\<open>sort.SliceStable\<close> by time, ascending or descending.\<close>

definition SortEvents :: "event list \<Rightarrow> bool \<Rightarrow> event list" where
  "SortEvents evs reverse = (if reverse then sort_key (\<lambda>e. - eAt e) evs else sort_key eAt evs)"

definition without_data :: "event \<Rightarrow> event" where
  "without_data e = newEvent (eTitle e) (eSummary e) (EText ''...'') (eAt e) (ePeer e) (ePeerHost e)"

definition getEvents :: "request \<Rightarrow> events_state \<Rightarrow> event list" where
  "getEvents r st =
     (let reverse = GetBoolParamValue r ''reverse'' None;
          getData = GetBoolParamValue r ''data'' None
      in SortEvents (if getData then eventsList st else map without_data (eventsList st)) reverse)"

text \<open>\<open>matches key\<close> is the compiled search expression, as a predicate on the JSON text of an event.\<close>

definition searchEvents :: "(string \<Rightarrow> event \<Rightarrow> bool) \<Rightarrow> request \<Rightarrow> events_state \<Rightarrow> event list option" where
  "searchEvents matches r st =
     (let key = GetStringParamValue r ''text'' None;
          reverse = GetBoolParamValue r ''reverse'' None;
          getData = GetBoolParamValue r ''data'' None
      in if key = [] then None
         else
           Some (SortEvents
             (map (\<lambda>e. if getData then e else without_data e) (filter (matches key) (eventsList st)))
             reverse))"

definition events_middleware ::
  "events_env \<Rightarrow> bool \<Rightarrow> int \<Rightarrow> string list \<Rightarrow> request \<Rightarrow> events_state \<Rightarrow> events_state" where
  "events_middleware env filtered statusCode details r st =
     (if \<not> IsKnownNonTraffic r \<and> \<not> filtered then TrackTrafficEvent env statusCode r details st else st)"

section \<open>The tracker counts the current run\<close>

definition tracker_of :: "int \<Rightarrow> string \<Rightarrow> events_state \<Rightarrow> event_tracker option" where
  "tracker_of port uri st = mget (mget_or [] (trafficEventTracker st) port) uri"

lemma same_traffic_refl [simp]: "same_traffic s d s d"
  by (simp add: same_traffic_def)

lemma same_traffic_sym: "same_traffic s d s' d' \<Longrightarrow> same_traffic s' d' s d"
  by (auto simp: same_traffic_def EqualFold_def)

lemma same_traffic_trans: "same_traffic s d s' d' \<Longrightarrow> same_traffic s' d' s'' d'' \<Longrightarrow> same_traffic s d s'' d''"
  by (cases d; cases d'; cases d'') (auto simp: same_traffic_def EqualFold_def)

lemma enqueue_tracker [simp]: "trafficEventTracker (enqueue env e st) = trafficEventTracker st"
  by (simp add: enqueue_def)

lemma send_tracker [simp]:
  "trafficEventTracker (SendEventForPort env now ti d st) = trafficEventTracker st"
  "trafficEventTracker (SendEventJSONForPort env now ti su ed st) = trafficEventTracker st"
  by (simp_all add: SendEventForPort_def SendEventJSONForPort_def)

lemma process_tracker:
  "tracker_of p u (processTrafficEvent env now t st) =
   (if p = tPort t \<and> u = tURI t then
      (case tracker_of p u st of
         Some k \<Rightarrow>
           (if same_traffic (etStatusCode k) (TrafficDetails k) (tStatus t) (tDetails t)
            then Some (k\<lparr>LastEventAt := now, StatusRepeatCount := StatusRepeatCount k + 1\<rparr>)
            else Some \<lparr>etPort = tPort t, etURI = tURI t, etStatusCode = tStatus t,
              TrafficDetails = tDetails t, StatusRepeatCount = 1, FirstEventAt = now, LastEventAt = now\<rparr>)
       | None \<Rightarrow> Some \<lparr>etPort = tPort t, etURI = tURI t, etStatusCode = tStatus t,
              TrafficDetails = tDetails t, StatusRepeatCount = 1, FirstEventAt = now, LastEventAt = now\<rparr>)
    else tracker_of p u st)"
  by (auto simp: processTrafficEvent_def tracker_of_def Let_def split: option.splits)

text \<open>What is compared of a request: its status, the number of its details and the first of them, without case. The requests
  at the end of a sequence that agree in these with the last one are the current run.\<close>

definition traffic_key :: "traffic \<Rightarrow> int \<times> nat \<times> string list" where
  "traffic_key t = (tStatus t, length (tDetails t), map ToLower (take 1 (tDetails t)))"

definition current_run :: "traffic list \<Rightarrow> nat" where
  "current_run ts = (if ts = [] then 0 else length (takeWhile (\<lambda>t. traffic_key t = traffic_key (last ts)) (rev ts)))"

lemma same_traffic_key:
  "same_traffic (tStatus t) (tDetails t) (tStatus l) (tDetails l) \<longleftrightarrow> traffic_key t = traffic_key l"
  by (cases "tDetails t"; cases "tDetails l") (auto simp: same_traffic_def traffic_key_def EqualFold_def)

lemma current_run_snoc:
  "current_run (ts @ [t]) =
   (case rev ts of
      [] \<Rightarrow> 1
    | l # ls \<Rightarrow>
        (if same_traffic (tStatus l) (tDetails l) (tStatus t) (tDetails t) then current_run ts + 1 else 1))"
proof (cases ts rule: rev_cases)
  case (snoc ls l)
  then show ?thesis by (cases "traffic_key l = traffic_key t") (simp_all add: current_run_def same_traffic_key)
qed (simp add: current_run_def)

definition process_all :: "events_env \<Rightarrow> (int \<times> traffic) list \<Rightarrow> events_state \<Rightarrow> events_state" where
  "process_all env ts st = fold (\<lambda>(now, t). processTrafficEvent env now t) ts st"

definition traffic_for :: "int \<Rightarrow> string \<Rightarrow> (int \<times> traffic) list \<Rightarrow> traffic list" where
  "traffic_for p u ts = filter (\<lambda>t. tPort t = p \<and> tURI t = u) (map snd ts)"

lemma process_all_tracker:
  assumes "tracker_of p u st = None"
  shows "case rev (traffic_for p u ts) of
      [] \<Rightarrow> tracker_of p u (process_all env ts st) = None
    | l # ls \<Rightarrow> \<exists>k. tracker_of p u (process_all env ts st) = Some k \<and>
        StatusRepeatCount k = int (current_run (traffic_for p u ts)) \<and>
        same_traffic (etStatusCode k) (TrafficDetails k) (tStatus l) (tDetails l)"
proof (induction ts rule: rev_induct)
  case Nil
  then show ?case using assms by (simp add: traffic_for_def process_all_def)
next
  case (snoc e ts)
  obtain now t where e: "e = (now, t)" by (cases e)
  have step: "process_all env (ts @ [e]) st = processTrafficEvent env now t (process_all env ts st)"
    by (simp add: process_all_def e)
  show ?case
  proof (cases "tPort t = p \<and> tURI t = u")
    case False
    then have "traffic_for p u (ts @ [e]) = traffic_for p u ts"
      "tracker_of p u (process_all env (ts @ [e]) st) = tracker_of p u (process_all env ts st)"
      using step by (auto simp: traffic_for_def e process_tracker)
    with snoc show ?thesis by (simp split: list.splits)
  next
    case True
    then have tf: "traffic_for p u (ts @ [e]) = traffic_for p u ts @ [t]"
      by (simp add: traffic_for_def e)
    show ?thesis
    proof (cases "rev (traffic_for p u ts)")
      case Nil
      with snoc True show ?thesis by (auto simp: tf step process_tracker current_run_def)
    next
      case (Cons l ls)
      with snoc obtain k where k: "tracker_of p u (process_all env ts st) = Some k"
        "StatusRepeatCount k = int (current_run (traffic_for p u ts))"
        "same_traffic (etStatusCode k) (TrafficDetails k) (tStatus l) (tDetails l)"
        by auto
      have "same_traffic (etStatusCode k) (TrafficDetails k) (tStatus t) (tDetails t) \<longleftrightarrow>
          same_traffic (tStatus l) (tDetails l) (tStatus t) (tDetails t)"
        using k(3) same_traffic_trans same_traffic_sym by blast
      moreover have "current_run (traffic_for p u ts @ [t]) =
          (if same_traffic (tStatus l) (tDetails l) (tStatus t) (tDetails t)
           then current_run (traffic_for p u ts) + 1 else 1)"
        by (simp only: current_run_snoc Cons list.case)
      ultimately show ?thesis using k True by (simp add: tf step process_tracker)
    qed
  qed
qed

section \<open>Queues\<close>

text \<open>Draining the event channel keeps the order in which events were sent.\<close>

lemma eventSender_drains:
  "EnableEvents env \<Longrightarrow>
   eventsList ((eventSender_step env ^^ length (eventChannel st)) st) = eventsList st @ eventChannel st \<and>
   eventChannel ((eventSender_step env ^^ length (eventChannel st)) st) = []"
proof (induction "eventChannel st" arbitrary: st)
  case (Cons e evs)
  let ?st = "eventSender_step env st"
  have "eventChannel ?st = evs" "eventsList ?st = eventsList st @ [e]"
    using Cons.hyps(2) [symmetric] Cons.prems by (auto simp: eventSender_step_def storeAndPublishEvent_def Let_def)
  with Cons.hyps(1) [of ?st] Cons.hyps(2) [symmetric] Cons.prems show ?case
    by (simp add: funpow_swap1 del: funpow.simps) (simp add: funpow_swap1)
qed simp

section \<open>Properties\<close>

text \<open>C38: in any stream of traffic, the tracker of a port and URI that had none before counts exactly the
  current run: the requests at the end of the stream for that port and URI that agree with the last one in the status, in the
  number of traffic details and, without case, in the first detail, whatever traffic of other URIs is interleaved. Further details are
  not compared. (The documentation speaks of the status only.)\<close>

theorem tracker_counts_run:
  assumes "tracker_of p u st = None" and "traffic_for p u ts \<noteq> []"
  shows "\<exists>k. tracker_of p u (process_all env ts st) = Some k \<and>
     StatusRepeatCount k = int (current_run (traffic_for p u ts))"
  using process_all_tracker [OF assms(1), where ts = ts and env = env] assms(2)
  by (auto split: list.splits)

text \<open>Four requests for \<open>/a\<close> and one for \<open>/b\<close>: the second has another first detail, the last one another second detail.\<close>

definition sample_traffic_events :: "(int \<times> traffic) list" where
  "sample_traffic_events =
     [(1, \<lparr>tPort = 80, tURI = ''/a'', tStatus = 200, tDetails = [''x'', ''1'']\<rparr>),
      (2, \<lparr>tPort = 80, tURI = ''/a'', tStatus = 200, tDetails = [''y'', ''1'']\<rparr>),
      (3, \<lparr>tPort = 80, tURI = ''/a'', tStatus = 200, tDetails = [''x'', ''1'']\<rparr>),
      (4, \<lparr>tPort = 80, tURI = ''/b'', tStatus = 404, tDetails = []\<rparr>),
      (5, \<lparr>tPort = 80, tURI = ''/a'', tStatus = 200, tDetails = [''X'', ''2'']\<rparr>)]"

theorem tracker_counts_run_witness:
  "\<exists>k. tracker_of 80 ''/a'' (process_all
       \<lparr>EnableEvents = True, PublishEvents = False, RegistryURL = [], SelfName = ''p'', SelfHostLabel = ''h''\<rparr>
       sample_traffic_events
       \<lparr>eventsList = [], trafficEventTracker = [], eventChannel = [], trafficChannel = [], published = [],
        storedInLocker = []\<rparr>) = Some k \<and> StatusRepeatCount k = 2"
proof -
  let ?env = "\<lparr>EnableEvents = True, PublishEvents = False, RegistryURL = [], SelfName = ''p'', SelfHostLabel = ''h''\<rparr>"
  let ?st = "\<lparr>eventsList = [], trafficEventTracker = [], eventChannel = [], trafficChannel = [], published = [], storedInLocker = []\<rparr>"
  have 1: "tracker_of 80 ''/a'' ?st = None" by (simp add: tracker_of_def)
  have 2: "traffic_for 80 ''/a'' sample_traffic_events \<noteq> []" by (simp add: traffic_for_def sample_traffic_events_def)
  have "current_run (traffic_for 80 ''/a'' sample_traffic_events) = 2" by code_simp
  with tracker_counts_run [OF 1 2, of ?env] show ?thesis by simp
qed

end
