(* ===== verification/Tracking.thy ===== *)
theory Tracking
  imports Util_Params Util_Headers
begin

text \<open>
  Request tracking: \<open>pkg/server/request/tracking/tracking.go\<close> (counts of requests by URI and by
  header, kept by tracking key and port) and \<open>pkg/server/tracking/trackingData.go\<close> (counts of
  requests and responses of proxied traffic). Counters that the maps share by pointer are stored in
  the maps, since every pointer has one owner. Metrics are not modelled.
\<close>

section \<open>Counts by header\<close>

record header_data =
  RequestCountsByHeader :: int
  RequestCountsByHeaderValue :: "(string, int) gomap"

definition new_header_data :: header_data where
  "new_header_data = \<lparr>RequestCountsByHeader = 0, RequestCountsByHeaderValue = []\<rparr>"

definition hd_init :: "header_data \<Rightarrow> header_data" where
  "hd_init hdt = hdt\<lparr>RequestCountsByHeaderValue := []\<rparr>"

definition hd_trackRequest :: "string \<Rightarrow> header_data \<Rightarrow> header_data" where
  "hd_trackRequest headerValue hdt =
     (let hdt = hdt\<lparr>RequestCountsByHeader := RequestCountsByHeader hdt + 1\<rparr> in
      if headerValue \<noteq> [] then
        hdt\<lparr>RequestCountsByHeaderValue := mbump headerValue (RequestCountsByHeaderValue hdt)\<rparr>
      else hdt)"

record tracking_data =
  ByHeader :: "(string, header_data) gomap"
  ByURI :: "(string, int) gomap"
  ByURIAndHeader :: "(string, (string, header_data) gomap) gomap"

definition new_tracking_data :: tracking_data where
  "new_tracking_data = \<lparr>ByHeader = [], ByURI = [], ByURIAndHeader = []\<rparr>"

definition rtd_initURI :: "string \<Rightarrow> tracking_data \<Rightarrow> tracking_data" where
  "rtd_initURI uri rtd =
     rtd\<lparr>ByURI := mput uri 0 (ByURI rtd), ByURIAndHeader := mput uri [] (ByURIAndHeader rtd)\<rparr>"

definition rtd_initURIAndHeaders :: "string \<Rightarrow> string list \<Rightarrow> tracking_data \<Rightarrow> tracking_data" where
  "rtd_initURIAndHeaders uri headers rtd =
     rtd\<lparr>ByURI := mput uri 0 (ByURI rtd),
         ByURIAndHeader := mput uri (fold (\<lambda>h m. mput h new_header_data m) headers []) (ByURIAndHeader rtd)\<rparr>"

definition rtd_initHeaders :: "string list \<Rightarrow> tracking_data \<Rightarrow> tracking_data" where
  "rtd_initHeaders headers rtd =
     rtd\<lparr>ByHeader := fold (\<lambda>h m. if mget m h = None then mput h new_header_data m else m) headers (ByHeader rtd)\<rparr>"

definition rtd_removeHeader :: "string \<Rightarrow> tracking_data \<Rightarrow> tracking_data \<times> bool" where
  "rtd_removeHeader header rtd =
     (case mget (ByHeader rtd) header of
        Some d \<Rightarrow> (rtd\<lparr>ByHeader := mdel header (ByHeader rtd)\<rparr>, True) | None \<Rightarrow> (rtd, False))"

definition rtd_clearCounts :: "tracking_data \<Rightarrow> tracking_data" where
  "rtd_clearCounts rtd = rtd\<lparr>ByHeader := map (\<lambda>(h, d). (h, hd_init d)) (ByHeader rtd)\<rparr>"

definition rtd_getHeaders :: "tracking_data \<Rightarrow> string list" where
  "rtd_getHeaders rtd = map fst (ByHeader rtd)"

definition track_values :: "string list \<Rightarrow> header_data \<Rightarrow> header_data" where
  "track_values values d = fold hd_trackRequest values d"

definition rtd_track :: "string \<Rightarrow> header_map \<Rightarrow> tracking_data \<Rightarrow> tracking_data" where
  "rtd_track uri headers rtd =
     (let upd = map (\<lambda>(h, d). (h, track_values (mget_or [] headers h) d));
          byUH = ByURIAndHeader rtd
      in rtd\<lparr>ByURI := mbump uri (ByURI rtd),
             ByURIAndHeader := (case mget byUH uri of None \<Rightarrow> byUH | Some m \<Rightarrow> mput uri (upd m) byUH),
             ByHeader := upd (ByHeader rtd)\<rparr>)"

text \<open>The function that the middleware runs on each request: only URIs and headers that are tracked
  already are counted, and only the first value of a header.\<close>

definition track_first :: "header_map \<Rightarrow> (string, header_data) gomap \<Rightarrow> (string, header_data) gomap" where
  "track_first headers m =
     map (\<lambda>(h, d). (h, if header_Get headers h \<noteq> [] then hd_trackRequest (header_Get headers h) d else d)) m"

definition track_request :: "header_map \<Rightarrow> string \<Rightarrow> tracking_data \<Rightarrow> tracking_data" where
  "track_request headers uri rtd =
     rtd\<lparr>ByURI := (if mget (ByURI rtd) uri \<noteq> None then mbump uri (ByURI rtd) else ByURI rtd),
         ByHeader := track_first headers (ByHeader rtd),
         ByURIAndHeader :=
           (case mget (ByURIAndHeader rtd) uri of
              None \<Rightarrow> ByURIAndHeader rtd
            | Some m \<Rightarrow> mput uri (track_first headers m) (ByURIAndHeader rtd))\<rparr>"

type_synonym request_tracking = "(string, (int, tracking_data) gomap) gomap"

definition getPortRequestTrackingData :: "int \<Rightarrow> string \<Rightarrow> request_tracking \<Rightarrow> tracking_data" where
  "getPortRequestTrackingData port key rt = mget_or new_tracking_data (mget_or [] rt key) port"

definition upd_rtd ::
  "int \<Rightarrow> string \<Rightarrow> (tracking_data \<Rightarrow> tracking_data) \<Rightarrow> request_tracking \<Rightarrow> request_tracking" where
  "upd_rtd port key f rt =
     mput key (mput port (f (getPortRequestTrackingData port key rt)) (mget_or [] rt key)) rt"

definition TrackCall :: "int \<Rightarrow> string \<Rightarrow> string \<Rightarrow> header_map \<Rightarrow> request_tracking \<Rightarrow> request_tracking" where
  "TrackCall port key uri headers rt = upd_rtd port key (rtd_track uri headers) rt"

definition tracking_Init :: "int \<Rightarrow> string \<Rightarrow> string \<Rightarrow> string list \<Rightarrow> request_tracking \<Rightarrow> request_tracking" where
  "tracking_Init port key uri headers rt = upd_rtd port key (rtd_initURIAndHeaders uri headers) rt"

definition initRequestHeaders :: "string \<Rightarrow> request \<Rightarrow> request_tracking \<Rightarrow> request_tracking \<times> string list" where
  "initRequestHeaders key r rt =
     (case GetListParam r ''headers'' of
        (headers, True) \<Rightarrow> (upd_rtd (reqPortNum r) key (rtd_initHeaders headers) rt, headers)
      | (headers, False) \<Rightarrow> (rt, []))"

definition removeHeaders :: "string \<Rightarrow> request \<Rightarrow> request_tracking \<Rightarrow> request_tracking \<times> string list \<times> bool" where
  "removeHeaders key r rt =
     (case GetListParam r ''headers'' of
        (headers, True) \<Rightarrow>
          (upd_rtd (reqPortNum r) key (fold (\<lambda>h d. fst (rtd_removeHeader h d)) headers) rt, headers, True)
      | (headers, False) \<Rightarrow> (rt, [], False))"

definition tracking_clear :: "string \<Rightarrow> request \<Rightarrow> request_tracking \<Rightarrow> request_tracking" where
  "tracking_clear key r rt = upd_rtd (reqPortNum r) key (\<lambda>d. new_tracking_data) rt"

definition clearHeaderCounts :: "string \<Rightarrow> request \<Rightarrow> request_tracking \<Rightarrow> request_tracking \<times> string list" where
  "clearHeaderCounts key r rt =
     (case GetStringParam r ''headers'' None of
        (p, True) \<Rightarrow>
          (let headers = split_on CHR '','' p
           in (upd_rtd (reqPortNum r) key (rtd_initHeaders headers) rt, headers))
      | (p, False) \<Rightarrow> (upd_rtd (reqPortNum r) key rtd_clearCounts rt, []))"

definition Track :: "int \<Rightarrow> string \<Rightarrow> string \<Rightarrow> header_map \<Rightarrow> request_tracking \<Rightarrow> request_tracking" where
  "Track port key uri matchedHeaders rt =
     upd_rtd port key (\<lambda>rtd.
       let rtd = rtd\<lparr>ByURI := mbump uri (ByURI rtd),
                     ByURIAndHeader := mput uri (mget_or [] (ByURIAndHeader rtd) uri) (ByURIAndHeader rtd)\<rparr>;
           bump = (\<lambda>h v m. case mget m h of Some d \<Rightarrow> mput h (hd_trackRequest v d) m | None \<Rightarrow> m)
       in fold (\<lambda>(h, hvs) rtd.
            case hvs of
              [] \<Rightarrow> rtd
            | v # vs \<Rightarrow>
                rtd\<lparr>ByHeader := bump h v (ByHeader rtd),
                    ByURIAndHeader :=
                      mput uri (bump h v (mget_or [] (ByURIAndHeader rtd) uri)) (ByURIAndHeader rtd)\<rparr>)
            matchedHeaders rtd) rt"

definition tracking_middleware :: "request \<Rightarrow> request_tracking \<Rightarrow> request_tracking" where
  "tracking_middleware r rt =
     (if IsKnownNonTraffic r then rt
      else upd_rtd (reqPortNum r) [] (track_request (reqHeaders r) (RequestURI r)) rt)"

section \<open>Counts of requests and responses\<close>

record header_value_counts =
  CountsByHeader :: int
  CountsByHeaderValue :: "(string, int) gomap"

type_synonym header_tracking = "(string, header_value_counts) gomap"
type_synonym status_counts = "(int, int) gomap"
type_synonym value_status_counts = "(string, status_counts) gomap"

definition newHeaderValueCounts :: header_value_counts where
  "newHeaderValueCounts = \<lparr>CountsByHeader = 0, CountsByHeaderValue = []\<rparr>"

definition hvc_track :: "string \<Rightarrow> header_value_counts \<Rightarrow> header_value_counts" where
  "hvc_track headerValue hvc =
     (let hvc = hvc\<lparr>CountsByHeader := CountsByHeader hvc + 1\<rparr> in
      if headerValue \<noteq> [] then hvc\<lparr>CountsByHeaderValue := mbump headerValue (CountsByHeaderValue hvc)\<rparr>
      else hvc)"

definition htd_add :: "string list \<Rightarrow> header_tracking \<Rightarrow> header_tracking" where
  "htd_add headers htd = fold (\<lambda>h m. mput h newHeaderValueCounts m) headers htd"

definition htd_track :: "header_map \<Rightarrow> header_tracking \<Rightarrow> header_tracking" where
  "htd_track headers htd = map (\<lambda>(h, hvc). (h, fold hvc_track (mget_or [] headers h) hvc)) htd"

definition htd_clearCounts :: "header_tracking \<Rightarrow> header_tracking" where
  "htd_clearCounts htd = map (\<lambda>(h, hvc). (h, newHeaderValueCounts)) htd"

definition sc_track :: "int \<Rightarrow> status_counts \<Rightarrow> status_counts" where
  "sc_track status sc = mbump status sc"

definition hvsc_track :: "string \<Rightarrow> int \<Rightarrow> value_status_counts \<Rightarrow> value_status_counts" where
  "hvsc_track hv status sc = (if hv \<noteq> [] then mput hv (mbump status (mget_or [] sc hv)) sc else sc)"

text \<open>The request side and the response side of the data; upstream traffic has a second pair with
  the same operations.\<close>

record request_counts =
  rcByURI :: "(string, int) gomap"
  rcByReqHeader :: header_tracking
  rcByURIAndReqHeader :: "(string, header_tracking) gomap"

record response_counts =
  rsByRespHeader :: header_tracking
  rsByRespStatus :: status_counts
  rsByURIAndRespHeader :: "(string, header_tracking) gomap"
  rsByURIAndRespStatus :: "(string, status_counts) gomap"
  rsByRespHeaderAndStatus :: "(string, value_status_counts) gomap"

record traffic_data =
  tdReq :: request_counts
  tdResp :: response_counts
  tdUpReq :: request_counts
  tdUpResp :: response_counts

definition new_request_counts :: request_counts where
  "new_request_counts = \<lparr>rcByURI = [], rcByReqHeader = [], rcByURIAndReqHeader = []\<rparr>"

definition new_response_counts :: response_counts where
  "new_response_counts = \<lparr>rsByRespHeader = [], rsByRespStatus = [], rsByURIAndRespHeader = [],
     rsByURIAndRespStatus = [], rsByRespHeaderAndStatus = []\<rparr>"

definition td_init :: traffic_data where
  "td_init = \<lparr>tdReq = new_request_counts, tdResp = new_response_counts,
     tdUpReq = new_request_counts, tdUpResp = new_response_counts\<rparr>"

definition clear_request_counts :: "request_counts \<Rightarrow> request_counts" where
  "clear_request_counts rc =
     \<lparr>rcByURI = map (\<lambda>(u, n). (u, 0)) (rcByURI rc), rcByReqHeader = htd_clearCounts (rcByReqHeader rc),
      rcByURIAndReqHeader = map (\<lambda>(u, h). (u, htd_clearCounts h)) (rcByURIAndReqHeader rc)\<rparr>"

definition clear_response_counts :: "response_counts \<Rightarrow> response_counts" where
  "clear_response_counts rs =
     \<lparr>rsByRespHeader = htd_clearCounts (rsByRespHeader rs), rsByRespStatus = [],
      rsByURIAndRespHeader = map (\<lambda>(u, h). (u, htd_clearCounts h)) (rsByURIAndRespHeader rs),
      rsByURIAndRespStatus = map (\<lambda>(u, s). (u, [])) (rsByURIAndRespStatus rs),
      rsByRespHeaderAndStatus = map (\<lambda>(h, s). (h, [])) (rsByRespHeaderAndStatus rs)\<rparr>"

definition td_clearCounts :: "traffic_data \<Rightarrow> traffic_data" where
  "td_clearCounts td =
     \<lparr>tdReq = clear_request_counts (tdReq td), tdResp = clear_response_counts (tdResp td),
      tdUpReq = clear_request_counts (tdUpReq td), tdUpResp = clear_response_counts (tdUpResp td)\<rparr>"

definition add_request_tracking :: "string \<Rightarrow> string list \<Rightarrow> request_counts \<Rightarrow> request_counts" where
  "add_request_tracking uri headers rc =
     (let rc = (if uri \<noteq> [] then
                  (let rc = rc\<lparr>rcByURI := mput uri 0 (rcByURI rc)\<rparr> in
                   if headers \<noteq> [] then
                     rc\<lparr>rcByURIAndReqHeader :=
                          mput uri (htd_add headers (mget_or [] (rcByURIAndReqHeader rc) uri)) (rcByURIAndReqHeader rc)\<rparr>
                   else rc)
                else rc)
      in if headers \<noteq> [] then rc\<lparr>rcByReqHeader := htd_add headers (rcByReqHeader rc)\<rparr> else rc)"

definition add_response_tracking :: "string \<Rightarrow> string list \<Rightarrow> response_counts \<Rightarrow> response_counts" where
  "add_response_tracking uri headers rs =
     (let rs = (if uri \<noteq> [] then
                  (let rs = rs\<lparr>rsByURIAndRespStatus :=
                          mput uri (mget_or [] (rsByURIAndRespStatus rs) uri) (rsByURIAndRespStatus rs)\<rparr> in
                   if headers \<noteq> [] then
                     rs\<lparr>rsByURIAndRespHeader :=
                          mput uri (htd_add headers (mget_or [] (rsByURIAndRespHeader rs) uri)) (rsByURIAndRespHeader rs)\<rparr>
                   else rs)
                else rs)
      in if headers \<noteq> [] then
           rs\<lparr>rsByRespHeader := htd_add headers (rsByRespHeader rs),
              rsByRespHeaderAndStatus :=
                fold (\<lambda>h m. if mget m h = None then mput h [] m else m) headers (rsByRespHeaderAndStatus rs)\<rparr>
         else rs)"

definition addRequestTracking :: "string \<Rightarrow> string list \<Rightarrow> traffic_data \<Rightarrow> traffic_data" where
  "addRequestTracking uri headers td = td\<lparr>tdReq := add_request_tracking uri headers (tdReq td)\<rparr>"

definition addResponseTracking :: "string \<Rightarrow> string list \<Rightarrow> traffic_data \<Rightarrow> traffic_data" where
  "addResponseTracking uri headers td = td\<lparr>tdResp := add_response_tracking uri headers (tdResp td)\<rparr>"

definition addUpstreamRequestTracking :: "string \<Rightarrow> string list \<Rightarrow> traffic_data \<Rightarrow> traffic_data" where
  "addUpstreamRequestTracking uri headers td = td\<lparr>tdUpReq := add_request_tracking uri headers (tdUpReq td)\<rparr>"

definition addUpstreamResponseTracking :: "string \<Rightarrow> string list \<Rightarrow> traffic_data \<Rightarrow> traffic_data" where
  "addUpstreamResponseTracking uri headers td = td\<lparr>tdUpResp := add_response_tracking uri headers (tdUpResp td)\<rparr>"

definition track_req :: "string \<Rightarrow> header_map \<Rightarrow> request_counts \<Rightarrow> request_counts" where
  "track_req uri headers rc =
     rc\<lparr>rcByURI := mbump uri (rcByURI rc),
        rcByURIAndReqHeader :=
          (case mget (rcByURIAndReqHeader rc) uri of
             None \<Rightarrow> rcByURIAndReqHeader rc
           | Some htd \<Rightarrow> mput uri (htd_track headers htd) (rcByURIAndReqHeader rc)),
        rcByReqHeader := htd_track headers (rcByReqHeader rc)\<rparr>"

text \<open>One round of the loop over the response headers. The tracking of the URI's headers is inside the
  loop, so it runs once for every header of the response. \<open>hv[0]\<close> of an empty list panics.\<close>

definition track_resp_header ::
  "string \<Rightarrow> int \<Rightarrow> header_map \<Rightarrow> string \<times> string list \<Rightarrow> response_counts \<Rightarrow> response_counts option" where
  "track_resp_header uri statusCode headers = (\<lambda>(h, hv) rs.
     let rs1 = (case mget (rsByRespHeaderAndStatus rs) h of
                  None \<Rightarrow> Some rs
                | Some s \<Rightarrow>
                    (case hv of
                       [] \<Rightarrow> None
                     | v # vs \<Rightarrow> Some (rs\<lparr>rsByRespHeaderAndStatus :=
                         mput h (hvsc_track v statusCode s) (rsByRespHeaderAndStatus rs)\<rparr>)))
     in map_option (\<lambda>rs.
          case mget (rsByURIAndRespHeader rs) uri of
            None \<Rightarrow> rs
          | Some htd \<Rightarrow> rs\<lparr>rsByURIAndRespHeader := mput uri (htd_track headers htd) (rsByURIAndRespHeader rs)\<rparr>) rs1)"

fun track_resp_headers ::
  "string \<Rightarrow> int \<Rightarrow> header_map \<Rightarrow> header_map \<Rightarrow> response_counts \<Rightarrow> response_counts option" where
  "track_resp_headers uri statusCode headers [] rs = Some rs"
| "track_resp_headers uri statusCode headers (e # es) rs =
     (case track_resp_header uri statusCode headers e rs of
        None \<Rightarrow> None | Some rs' \<Rightarrow> track_resp_headers uri statusCode headers es rs')"

definition track_resp :: "string \<Rightarrow> int \<Rightarrow> header_map \<Rightarrow> response_counts \<Rightarrow> response_counts option" where
  "track_resp uri statusCode headers rs =
     track_resp_headers uri statusCode headers headers
       (rs\<lparr>rsByRespStatus := sc_track statusCode (rsByRespStatus rs),
           rsByRespHeader := htd_track headers (rsByRespHeader rs),
           rsByURIAndRespStatus :=
             (case mget (rsByURIAndRespStatus rs) uri of
                None \<Rightarrow> rsByURIAndRespStatus rs
              | Some s \<Rightarrow> mput uri (sc_track statusCode s) (rsByURIAndRespStatus rs))\<rparr>)"

definition trackRequest :: "string \<Rightarrow> header_map \<Rightarrow> traffic_data \<Rightarrow> traffic_data" where
  "trackRequest uri headers td = td\<lparr>tdReq := track_req uri headers (tdReq td)\<rparr>"

definition trackResponse :: "string \<Rightarrow> int \<Rightarrow> header_map \<Rightarrow> traffic_data \<Rightarrow> traffic_data option" where
  "trackResponse uri statusCode headers td =
     map_option (\<lambda>rs. td\<lparr>tdResp := rs\<rparr>) (track_resp uri statusCode headers (tdResp td))"

definition trackUpstreamRequest :: "string \<Rightarrow> header_map \<Rightarrow> traffic_data \<Rightarrow> traffic_data" where
  "trackUpstreamRequest uri headers td = td\<lparr>tdUpReq := track_req uri headers (tdUpReq td)\<rparr>"

definition trackUpstreamResponse :: "string \<Rightarrow> int \<Rightarrow> header_map \<Rightarrow> traffic_data \<Rightarrow> traffic_data option" where
  "trackUpstreamResponse uri statusCode headers td =
     map_option (\<lambda>rs. td\<lparr>tdUpResp := rs\<rparr>) (track_resp uri statusCode headers (tdUpResp td))"

section \<open>Lemmas\<close>

lemma mget_map_values: "mget (map (\<lambda>(k, v). (k, f k v)) m) k = map_option (f k) (mget m k)"
  by (induction m) auto

lemma htd_track_get: "mget (htd_track hs htd) h = map_option (fold hvc_track (mget_or [] hs h)) (mget htd h)"
  using mget_map_values [of "\<lambda>h hvc. fold hvc_track (mget_or [] hs h) hvc" htd h]
  by (simp add: htd_track_def)

lemma hvc_track_count: "CountsByHeader (hvc_track v c) = CountsByHeader c + 1"
  by (simp add: hvc_track_def Let_def)

lemma fold_hvc_count: "CountsByHeader (fold hvc_track vs c) = CountsByHeader c + int (length vs)"
  by (induction vs arbitrary: c) (auto simp: hvc_track_count)

text \<open>The count that a tracked URI keeps for a header.\<close>

definition uri_header_count :: "string \<Rightarrow> string \<Rightarrow> response_counts \<Rightarrow> int option" where
  "uri_header_count uri h rs =
     (case mget (rsByURIAndRespHeader rs) uri of
        None \<Rightarrow> None | Some htd \<Rightarrow> map_option CountsByHeader (mget htd h))"

lemma uri_header_count_upd [simp]:
  "uri_header_count uri h (rs\<lparr>rsByRespHeaderAndStatus := x\<rparr>) = uri_header_count uri h rs"
  by (simp add: uri_header_count_def)

lemma uri_header_count_track:
  "uri_header_count uri h (case mget (rsByURIAndRespHeader rs) uri of
       None \<Rightarrow> rs
     | Some htd \<Rightarrow> rs\<lparr>rsByURIAndRespHeader := mput uri (htd_track headers htd) (rsByURIAndRespHeader rs)\<rparr>) =
   map_option (\<lambda>n. n + int (length (mget_or [] headers h))) (uri_header_count uri h rs)"
  by (simp add: uri_header_count_def htd_track_get fold_hvc_count option.map_comp o_def split: option.splits)

lemma track_resp_header_count:
  "track_resp_header uri sc headers e rs = Some rs' \<Longrightarrow>
   uri_header_count uri h rs' =
     map_option (\<lambda>n. n + int (length (mget_or [] headers h))) (uri_header_count uri h rs)"
proof -
  assume *: "track_resp_header uri sc headers e rs = Some rs'"
  obtain k hv where e: "e = (k, hv)" by (cases e)
  let ?upd = "\<lambda>rs. case mget (rsByURIAndRespHeader rs) uri of
       None \<Rightarrow> rs
     | Some htd \<Rightarrow> rs\<lparr>rsByURIAndRespHeader := mput uri (htd_track headers htd) (rsByURIAndRespHeader rs)\<rparr>"
  have "rs' = ?upd rs \<or> (\<exists>x. rs' = ?upd (rs\<lparr>rsByRespHeaderAndStatus := x\<rparr>))"
    using * unfolding e track_resp_header_def
    by (cases "mget (rsByRespHeaderAndStatus rs) k"; cases hv) (auto simp: Let_def)
  then show ?thesis
    using uri_header_count_track [of uri h _ headers] uri_header_count_upd by metis
qed

lemma track_resp_headers_count:
  "track_resp_headers uri sc headers es rs = Some rs' \<Longrightarrow>
   uri_header_count uri h rs' =
     map_option (\<lambda>n. n + int (length es) * int (length (mget_or [] headers h))) (uri_header_count uri h rs)"
proof (induction es arbitrary: rs)
  case Nil
  then show ?case by (cases "uri_header_count uri h rs") auto
next
  case (Cons e es)
  then obtain rs1 where "track_resp_header uri sc headers e rs = Some rs1"
    "track_resp_headers uri sc headers es rs1 = Some rs'"
    by (auto split: option.splits)
  with Cons.IH [of rs1] track_resp_header_count [of uri sc headers e rs rs1 h] show ?case
    by (auto simp: option.map_comp o_def algebra_simps)
qed

lemma initHeaders_present:
  "mget m h = Some d \<Longrightarrow>
   mget (fold (\<lambda>h m. if mget m h = None then mput h new_header_data m else m) hs m) h = Some d"
proof (induction hs arbitrary: m)
  case (Cons x hs)
  then show ?case by (cases "x = h") (auto simp: Cons.IH)
qed simp

lemma upd_rtd_get:
  "getPortRequestTrackingData p k (upd_rtd port key f rt) =
   (if p = port \<and> k = key then f (getPortRequestTrackingData port key rt) else getPortRequestTrackingData p k rt)"
  by (auto simp: getPortRequestTrackingData_def upd_rtd_def)

section \<open>Properties\<close>

text \<open>When a response of a tracked URI is recorded, the URI's count of a tracked header goes up not
  by the number of values the header has in the response but by that number times the number of
  headers in the response: the URI's headers are counted inside the loop over the headers.\<close>

theorem response_header_overcount:
  assumes "track_resp uri statusCode headers rs = Some rs'" and "uri_header_count uri h rs = Some n"
  shows "uri_header_count uri h rs' = Some (n + int (length headers) * int (length (mget_or [] headers h)))"
  using track_resp_headers_count [OF assms(1) [unfolded track_resp_def], of h] assms(2)
  by (simp add: uri_header_count_def)

theorem response_header_overcount_witness:
  "uri_header_count ''/a'' ''X''
     \<lparr>rsByRespHeader = [], rsByRespStatus = [(200, 1)],
      rsByURIAndRespHeader = [(''/a'', [(''X'', \<lparr>CountsByHeader = 2, CountsByHeaderValue = [(''1'', 2)]\<rparr>)])],
      rsByURIAndRespStatus = [], rsByRespHeaderAndStatus = []\<rparr> = Some (0 + 2 * 1)"
proof -
  have "track_resp ''/a'' 200 [(''X'', [''1'']), (''Y'', [''2''])]
     \<lparr>rsByRespHeader = [], rsByRespStatus = [], rsByURIAndRespHeader = [(''/a'', [(''X'', newHeaderValueCounts)])],
      rsByURIAndRespStatus = [], rsByRespHeaderAndStatus = []\<rparr> =
    Some \<lparr>rsByRespHeader = [], rsByRespStatus = [(200, 1)],
      rsByURIAndRespHeader = [(''/a'', [(''X'', \<lparr>CountsByHeader = 2, CountsByHeaderValue = [(''1'', 2)]\<rparr>)])],
      rsByURIAndRespStatus = [], rsByRespHeaderAndStatus = []\<rparr>"
    by code_simp
  from response_header_overcount [OF this, of "''X''" 0] show ?thesis
    by (simp add: uri_header_count_def newHeaderValueCounts_def mget_or_def)
qed

text \<open>Clearing header counts does not clear them. For headers given by name, a header that is
  tracked keeps all its counts; for all headers, each keeps its request count and loses only its
  counts by value.\<close>

theorem clear_header_counts_keeps:
  assumes "mget (ByHeader (getPortRequestTrackingData (reqPortNum r) key rt)) h = Some d"
  shows "\<exists>d'. mget (ByHeader (getPortRequestTrackingData (reqPortNum r) key (fst (clearHeaderCounts key r rt)))) h
       = Some d' \<and> RequestCountsByHeader d' = RequestCountsByHeader d \<and>
     (mget_or [] (reqVars r) ''headers'' \<noteq> [] \<longrightarrow> d' = d)"
proof (cases "mget_or [] (reqVars r) ''headers'' = []")
  case True
  then have "fst (clearHeaderCounts key r rt) = upd_rtd (reqPortNum r) key rtd_clearCounts rt"
    by (simp add: clearHeaderCounts_def GetStringParam_def)
  then show ?thesis
    using assms True mget_map_values [of "\<lambda>h d. hd_init d" "ByHeader (getPortRequestTrackingData (reqPortNum r) key rt)" h]
    by (simp add: upd_rtd_get rtd_clearCounts_def hd_init_def)
next
  case False
  then have "fst (clearHeaderCounts key r rt) =
      upd_rtd (reqPortNum r) key (rtd_initHeaders (split_on CHR '','' (mget_or [] (reqVars r) ''headers''))) rt"
    by (simp add: clearHeaderCounts_def GetStringParam_def Let_def)
  then show ?thesis using assms by (simp add: upd_rtd_get rtd_initHeaders_def initHeaders_present)
qed

theorem clear_header_counts_keeps_witness:
  "\<exists>d'. mget (ByHeader (getPortRequestTrackingData 80 [] (fst (clearHeaderCounts []
       \<lparr>reqPort = ''80'', reqPortNum = 80, RequestURI = ''/'', URLPath = ''/'', reqMethod = ''POST'',
        reqHeaders = [], reqVars = [(''headers'', ''X'')], reqQuery = [], IsKnownNonTraffic = True,
        IsAdminRequest = True\<rparr>
       [([], [(80, \<lparr>ByHeader = [(''X'', \<lparr>RequestCountsByHeader = 3, RequestCountsByHeaderValue = [(''1'', 3)]\<rparr>)],
           ByURI = [], ByURIAndHeader = []\<rparr>)])])))) ''X'' = Some d' \<and>
     RequestCountsByHeader d' = 3 \<and> d' = \<lparr>RequestCountsByHeader = 3, RequestCountsByHeaderValue = [(''1'', 3)]\<rparr>"
proof -
  let ?r = "\<lparr>reqPort = ''80'', reqPortNum = 80, RequestURI = ''/'', URLPath = ''/'', reqMethod = ''POST'',
        reqHeaders = [], reqVars = [(''headers'', ''X'')], reqQuery = [], IsKnownNonTraffic = True,
        IsAdminRequest = True\<rparr>"
  let ?d = "\<lparr>RequestCountsByHeader = 3, RequestCountsByHeaderValue = [(''1'', 3)]\<rparr>"
  let ?rt = "[([], [(80, \<lparr>ByHeader = [(''X'', ?d)], ByURI = [], ByURIAndHeader = []\<rparr>)])]"
  have "mget (ByHeader (getPortRequestTrackingData (reqPortNum ?r) [] ?rt)) ''X'' = Some ?d"
    by (simp add: getPortRequestTrackingData_def mget_or_def)
  from clear_header_counts_keeps [OF this] show ?thesis by (simp add: mget_or_def)
qed

end
