(* ===== verification/Hooks.thy ===== *)
theory Hooks
  imports Util_Text Util_Headers Tracking
begin

text \<open>
  Request hooks: \<open>pkg/server/hooks/hooks.go\<close>, and the handlers that install tracking hooks,
  \<open>pkg/server/request/tracking/trackingAPI.go\<close>. A hook is matched by its URI expression; the
  headers of a request that it matches are reported to the tracking function, and its listener, when
  it has one, decides whether the request goes on to the next handler.

  The state that listeners change is the type parameter \<open>'s\<close>; a listener gets the port, the URI, the
  headers and the body. Compiled expressions are the predicates they stand for, \<open>compile\<close> is
  \<open>regexp.MustCompile\<close> (\<open>None\<close>: it panics), and \<open>matcher\<close> is \<open>util.BuildURIMatcher\<close>, which
  registers a route with the mux package and gives the prefix and the expression, or an error. The
  order in which a map is traversed is the order of its list. The lock of a port's hooks is part of
  the state, because \<open>AddGRPCStream\<close> takes it twice; a goroutine that blocks forever is \<open>None\<close>.
\<close>

section \<open>State\<close>

type_synonym 's http_listener = "int \<Rightarrow> string \<Rightarrow> header_map \<Rightarrow> string \<Rightarrow> 's \<Rightarrow> 's \<times> bool"
type_synonym re_pred = "string \<Rightarrow> bool"

record header_match =
  hmHeader :: string
  hmRe :: re_pred
  hmValues :: "(string, re_pred) gomap option"

record hook_match =
  UriPrefix :: string
  hmatchRe :: "re_pred option"
  HeaderMatches :: "(string, header_match) gomap option"

record 's hook =
  hkKey :: string
  hkID :: string
  hkIsJSONRPC :: bool
  hkURI :: string
  hkMatch :: hook_match
  httpListener :: "'s http_listener option"
  grpcListener :: "nat option"
  streamIndexes :: "(int, bool) gomap"

record rw_mutex =
  writeHeld :: bool
  readersHeld :: nat

record 's grpc_hooks =
  ghHooks :: "(string, 's hook) gomap"
  ghListeners :: "(int, (string, nat option) gomap) gomap"
  activeStreamsByURI :: "(string, int) gomap"
  activeStreamsByIndex :: "(int, string) gomap"
  clientStreams :: "nat list"
  serverStreams :: "nat list"
  serverHeaders :: "nat list"

record 's hooks =
  hksPort :: int
  httpHooks :: "(string, 's hook) gomap"
  grpcHooks :: "'s grpc_hooks"
  hksLock :: rw_mutex

definition free_lock :: rw_mutex where
  "free_lock = \<lparr>writeHeld = False, readersHeld = 0\<rparr>"

text \<open>\<open>sync.RWMutex\<close>: a writer waits for every holder, a reader waits for the writer. \<open>None\<close> is
  waiting, which never ends when the holder is the goroutine that waits.\<close>

definition mutex_Lock :: "rw_mutex \<Rightarrow> rw_mutex option" where
  "mutex_Lock l = (if writeHeld l \<or> 0 < readersHeld l then None else Some (l\<lparr>writeHeld := True\<rparr>))"

definition mutex_RLock :: "rw_mutex \<Rightarrow> rw_mutex option" where
  "mutex_RLock l = (if writeHeld l then None else Some (l\<lparr>readersHeld := readersHeld l + 1\<rparr>))"

definition newHooks :: "int \<Rightarrow> 's hooks" where
  "newHooks port =
     \<lparr>hksPort = port, httpHooks = [],
      grpcHooks = \<lparr>ghHooks = [], ghListeners = [], activeStreamsByURI = [], activeStreamsByIndex = [],
        clientStreams = [], serverStreams = [], serverHeaders = []\<rparr>,
      hksLock = free_lock\<rparr>"

definition GetPortHooks :: "int \<Rightarrow> (int, 's hooks) gomap \<Rightarrow> (int, 's hooks) gomap \<times> 's hooks" where
  "GetPortHooks port ph =
     (case mget ph port of
        Some h \<Rightarrow> (ph, h)
      | None \<Rightarrow> (mput port (newHooks port) ph, newHooks port))"

section \<open>Creating a hook\<close>

text \<open>\<open>string(n)\<close> for a number is the UTF-8 text of that code point, and of U+FFFD where there is no
  such code point.\<close>

definition byte_char :: "int \<Rightarrow> char" where
  "byte_char n = char_of n"

definition string_of_rune :: "int \<Rightarrow> string" where
  "string_of_rune n =
     (if 0 \<le> n \<and> n < 128 then [byte_char n]
      else if 128 \<le> n \<and> n < 2048 then [byte_char (192 + n div 64), byte_char (128 + n mod 64)]
      else if n < 0 \<or> 1114111 < n \<or> (55296 \<le> n \<and> n \<le> 57343)
        then [byte_char 239, byte_char 191, byte_char 189]
      else if n < 65536 then
        [byte_char (224 + n div 4096), byte_char (128 + n div 64 mod 64), byte_char (128 + n mod 64)]
      else
        [byte_char (240 + n div 262144), byte_char (128 + n div 4096 mod 64),
         byte_char (128 + n div 64 mod 64), byte_char (128 + n mod 64)])"

text \<open>\<open>atomic.Int32\<close> wraps around.\<close>

definition wrap32 :: "int \<Rightarrow> int" where
  "wrap32 n = (n + 2147483648) mod 4294967296 - 2147483648"

definition glob_re :: "string \<Rightarrow> string" where
  "glob_re s = (case Unglob s of (m, glob) \<Rightarrow> if glob then m @ ''(.*)?'' else m)"

definition add_header_match ::
  "(string \<Rightarrow> re_pred option) \<Rightarrow> string \<times> string \<Rightarrow> (string, header_match) gomap \<Rightarrow>
   (string, header_match) gomap option" where
  "add_header_match compile hv hms =
     (let header = ToLower (fst hv);
          hm0 = (case mget hms header of
                   Some hm \<Rightarrow> Some hm
                 | None \<Rightarrow>
                     map_option (\<lambda>re. \<lparr>hmHeader = header, hmRe = re, hmValues = Some []\<rparr>)
                       (compile (glob_re header)))
      in case hm0 of
           None \<Rightarrow> None
         | Some hm \<Rightarrow>
             (if snd hv \<noteq> [] then
                (case compile (glob_re (ToLower (snd hv))) of
                   None \<Rightarrow> None
                 | Some re \<Rightarrow>
                     Some (mput header
                       (hm\<lparr>hmValues := map_option (mput (ToLower (snd hv)) re) (hmValues hm)\<rparr>) hms))
              else Some (mput header hm hms)))"

fun add_header_matches ::
  "(string \<Rightarrow> re_pred option) \<Rightarrow> (string \<times> string) list \<Rightarrow> (string, header_match) gomap \<Rightarrow>
   (string, header_match) gomap option" where
  "add_header_matches compile [] hms = Some hms"
| "add_header_matches compile (hv # hvs) hms =
     (case add_header_match compile hv hms of
        None \<Rightarrow> None | Some hms' \<Rightarrow> add_header_matches compile hvs hms')"

text \<open>\<open>newHook\<close> followed by \<open>init\<close> and \<open>initHTTP\<close>; the counter of hook ids is threaded through.\<close>

definition hook_init ::
  "(string \<Rightarrow> re_pred option) \<Rightarrow> string \<Rightarrow> string \<Rightarrow> string \<Rightarrow> string \<Rightarrow> re_pred option \<Rightarrow>
   (string \<times> string) list option \<Rightarrow> bool \<Rightarrow> 's http_listener option \<Rightarrow> int \<Rightarrow> ('s hook \<times> int) option" where
  "hook_init compile key hid uri uriPrefix reURI headers isJSONRPC listener counter =
     (let (hid, counter) = (if hid = [] then (string_of_rune (wrap32 (counter + 1)), wrap32 (counter + 1)) else (hid, counter));
          hms = (case headers of
                   None \<Rightarrow> Some None
                 | Some hs \<Rightarrow> if hs = [] then Some None else map_option Some (add_header_matches compile hs []))
      in map_option (\<lambda>m.
           (\<lparr>hkKey = key, hkID = hid, hkIsJSONRPC = isJSONRPC, hkURI = uri,
             hkMatch = \<lparr>UriPrefix = uriPrefix, hmatchRe = reURI, HeaderMatches = m\<rparr>,
             httpListener = listener, grpcListener = None, streamIndexes = []\<rparr>, counter)) hms)"

text \<open>\<open>addHTTPHook\<close> with the three operations that call it: they differ in the id, in the listener and
  in the handler that is registered with the router. The result is \<open>Inl\<close> an error that is returned,
  or \<open>Inr\<close> the new hooks; \<open>None\<close> is a panic.\<close>

definition addHTTPHook ::
  "(string \<Rightarrow> re_pred option) \<Rightarrow> string \<Rightarrow> string \<Rightarrow> string \<Rightarrow> string \<Rightarrow> re_pred option \<Rightarrow>
   (string \<times> string) list option \<Rightarrow> bool \<Rightarrow> 's http_listener option \<Rightarrow> 's hooks \<times> int \<Rightarrow> ('s hooks \<times> int) option" where
  "addHTTPHook compile key hid uri uriPrefix reURI headers isJSONRPC listener = (\<lambda>(h, counter).
     map_option (\<lambda>(hook, counter). (h\<lparr>httpHooks := mput (hkID hook) hook (httpHooks h)\<rparr>, counter))
       (hook_init compile key hid uri uriPrefix reURI headers isJSONRPC listener counter))"

definition registerURI :: "(string \<Rightarrow> (string \<times> re_pred) option) \<Rightarrow> string \<Rightarrow> (string \<times> string \<times> re_pred) option" where
  "registerURI matcher uri = map_option (\<lambda>(p, re). (ToLower uri, p, re)) (matcher (ToLower uri))"

definition AddHTTPHookWithListener ::
  "(string \<Rightarrow> re_pred option) \<Rightarrow> (string \<Rightarrow> (string \<times> re_pred) option) \<Rightarrow> string \<Rightarrow> string \<Rightarrow> string \<Rightarrow>
   (string \<times> string) list option \<Rightarrow> bool \<Rightarrow> 's http_listener option \<Rightarrow> 's hooks \<times> int \<Rightarrow>
   (string + 's hooks \<times> int) option" where
  "AddHTTPHookWithListener compile matcher key hid uri headers isJSONRPC listener st =
     (if uri = [] \<and> headers = None then Some (Inl ''One of URI and Headers needed'')
      else case registerURI matcher uri of
             None \<Rightarrow> Some (Inl ''matcher'')
           | Some (luri, p, re) \<Rightarrow>
               map_option Inr (addHTTPHook compile key hid luri p (Some re) headers isJSONRPC listener st))"

definition AddHTTPTracking ::
  "(string \<Rightarrow> re_pred option) \<Rightarrow> (string \<Rightarrow> (string \<times> re_pred) option) \<Rightarrow> string \<Rightarrow> string \<Rightarrow>
   (string \<times> string) list option \<Rightarrow> bool \<Rightarrow> 's hooks \<times> int \<Rightarrow> (string + 's hooks \<times> int) option" where
  "AddHTTPTracking compile matcher key uri headers isJSONRPC st =
     AddHTTPHookWithListener compile matcher key [] uri headers isJSONRPC None st"

section \<open>Matching\<close>

definition hook_matchURI :: "'s hook \<Rightarrow> string \<Rightarrow> bool" where
  "hook_matchURI h uri = (case hmatchRe (hkMatch h) of Some re \<Rightarrow> re uri | None \<Rightarrow> False)"

text \<open>The first value that an expression of the header accepts, over the expressions and then over the
  values of the request.\<close>

definition match_values :: "(string, re_pred) gomap \<Rightarrow> string list \<Rightarrow> string option" where
  "match_values vres values =
     find (\<lambda>v. True) (concat (map (\<lambda>(k, vre). filter vre values) vres))"

fun match_header :: "(string, header_match) gomap \<Rightarrow> string \<Rightarrow> string list \<Rightarrow> string option" where
  "match_header [] header values = None"
| "match_header ((k, hm) # hms) header values =
     (if hmRe hm header then
        (case hmValues hm of
           None \<Rightarrow> Some []
         | Some vres \<Rightarrow>
             (case match_values vres values of
                Some hv \<Rightarrow> Some hv
              | None \<Rightarrow> match_header hms header values))
      else match_header hms header values)"

definition hook_matchHeader :: "'s hook \<Rightarrow> string \<Rightarrow> string list \<Rightarrow> string option" where
  "hook_matchHeader h header values =
     (case HeaderMatches (hkMatch h) of
        None \<Rightarrow> None | Some hms \<Rightarrow> match_header hms (ToLower header) values)"

type_synonym matched_headers = "(string, header_map) gomap"

definition hook_match_headers :: "'s hook \<Rightarrow> header_map \<Rightarrow> matched_headers \<Rightarrow> matched_headers" where
  "hook_match_headers h headers matched =
     fold (\<lambda>(header, hvalues) matched.
       case hook_matchHeader h header hvalues of
         None \<Rightarrow> matched
       | Some v \<Rightarrow> mput (hkKey h) (mput header [v] (mget_or [] matched (hkKey h))) matched) headers matched"

fun matchRequest_from ::
  "string \<Rightarrow> header_map \<Rightarrow> (string, 's hook) gomap \<Rightarrow> (string, 's hook) gomap \<times> matched_headers \<Rightarrow>
   (string, 's hook) gomap \<times> matched_headers" where
  "matchRequest_from uri headers [] acc = acc"
| "matchRequest_from uri headers ((k, h) # hs) (allMatches, matched) =
     (if hook_matchURI h uri
      then matchRequest_from uri headers hs
             (mput (hkID h) h allMatches, hook_match_headers h headers matched)
      else matchRequest_from uri headers hs (allMatches, matched))"

definition matchRequest ::
  "string \<Rightarrow> header_map \<Rightarrow> (string, 's hook) gomap \<Rightarrow> (string, 's hook) gomap \<times> matched_headers" where
  "matchRequest uri headers hs = matchRequest_from uri headers hs ([], [])"

section \<open>The middleware\<close>

text \<open>\<open>callNext = callNext || listener(...)\<close>: once a listener has said yes, the listeners that follow
  are not called. The loop also marks the request with the protocol of the hook.\<close>

fun run_listeners ::
  "int \<Rightarrow> string \<Rightarrow> header_map \<Rightarrow> string \<Rightarrow> (string, 's hook) gomap \<Rightarrow> bool \<times> bool \<times> 's \<Rightarrow> bool \<times> bool \<times> 's" where
  "run_listeners port uri headers body [] acc = acc"
| "run_listeners port uri headers body ((k, h) # hs) (jsonRPC, callNext, s) =
     run_listeners port uri headers body hs
       (hkIsJSONRPC h,
        (case httpListener h of
           None \<Rightarrow> (callNext, s)
         | Some l \<Rightarrow>
             (if callNext then (True, s)
              else case l port uri headers body s of (s', yes) \<Rightarrow> (yes, s'))))"

record 's hooked =
  hkdState :: 's
  hkdNext :: bool
  hkdJSONRPC :: "bool option"

definition hooks_middleware ::
  "(int \<Rightarrow> string \<Rightarrow> string \<Rightarrow> header_map \<Rightarrow> 's \<Rightarrow> 's) \<Rightarrow> request \<Rightarrow> string \<Rightarrow> 's \<Rightarrow> (int, 's hooks) gomap \<Rightarrow>
   (int, 's hooks) gomap \<times> 's hooked" where
  "hooks_middleware track r body s ph =
     (if IsKnownNonTraffic r then (ph, \<lparr>hkdState = s, hkdNext = True, hkdJSONRPC = None\<rparr>)
      else
        let (ph, h) = GetPortHooks (reqPortNum r) ph;
            (allMatches, matched) = matchRequest (RequestURI r) (reqHeaders r) (httpHooks h)
        in if allMatches = [] then (ph, \<lparr>hkdState = s, hkdNext = True, hkdJSONRPC = None\<rparr>)
           else
             let (jsonRPC, callNext, s) =
                   run_listeners (reqPortNum r) (RequestURI r) (reqHeaders r) body allMatches (False, False, s);
                 s = fold (\<lambda>(key, hs) s. track (reqPortNum r) key (RequestURI r) hs s) matched s
             in (ph, \<lparr>hkdState = s, hkdNext = callNext, hkdJSONRPC = Some jsonRPC\<rparr>))"

section \<open>gRPC streams\<close>

definition stream_listeners :: "int \<Rightarrow> 's grpc_hooks \<Rightarrow> (string, nat option) gomap" where
  "stream_listeners index g = mget_or [] (ghListeners g) index"

definition addGRPCHook ::
  "(string \<Rightarrow> re_pred option) \<Rightarrow> string \<Rightarrow> string \<Rightarrow> string \<Rightarrow> string \<Rightarrow> re_pred option \<Rightarrow> nat \<Rightarrow>
   's hooks \<times> int \<Rightarrow> ('s hooks \<times> int) option" where
  "addGRPCHook compile key hid uri uriPrefix re listener = (\<lambda>(h, counter).
     map_option (\<lambda>(hook, counter).
       let g = grpcHooks h;
           streams = map snd (filter (\<lambda>(m, i). hook_matchURI hook m) (activeStreamsByURI g));
           hook = hook\<lparr>grpcListener := Some listener,
                       streamIndexes := fold (\<lambda>i m. mput i True m) streams []\<rparr>;
           ls = fold (\<lambda>i ls. mput i (mput (hkID hook) (Some listener) (mget_or [] ls i)) ls) streams (ghListeners g)
       in (h\<lparr>grpcHooks := g\<lparr>ghHooks := mput (hkID hook) hook (ghHooks g), ghListeners := ls\<rparr>\<rparr>, counter))
       (hook_init compile key hid uri uriPrefix re None False None counter))"

definition MatchGRPCRequest ::
  "string \<Rightarrow> 's hooks \<Rightarrow> ((string, 's hook) gomap \<times> matched_headers) option" where
  "MatchGRPCRequest methodURI h =
     (case mutex_RLock (hksLock h) of
        None \<Rightarrow> None
      | Some l \<Rightarrow> Some (matchRequest methodURI [] (ghHooks (grpcHooks h))))"

text \<open>The channels are their numbers; \<open>md\<close> tells whether the stream has client headers, which
  \<open>onHeaders\<close> hands to a listener.\<close>

definition AddGRPCStream ::
  "(nat \<Rightarrow> 's \<Rightarrow> 's) \<Rightarrow> (int \<Rightarrow> string \<Rightarrow> string \<Rightarrow> header_map \<Rightarrow> 's \<Rightarrow> 's) \<Rightarrow> string \<Rightarrow> bool \<Rightarrow> nat \<Rightarrow> nat \<Rightarrow> nat \<Rightarrow>
   's hooks \<times> 's \<Rightarrow> ('s hooks \<times> 's) option" where
  "AddGRPCStream onHeaders track methodURI md client server hdrs = (\<lambda>(h, s).
     case mutex_Lock (hksLock h) of
       None \<Rightarrow> None
     | Some l \<Rightarrow>
         (let index = int (length (clientStreams (grpcHooks h)));
              h = h\<lparr>hksLock := l,
                    grpcHooks := (grpcHooks h)
                      \<lparr>clientStreams := clientStreams (grpcHooks h) @ [client],
                       serverStreams := serverStreams (grpcHooks h) @ [server],
                       serverHeaders := serverHeaders (grpcHooks h) @ [hdrs],
                       activeStreamsByURI := mput methodURI index (activeStreamsByURI (grpcHooks h)),
                       activeStreamsByIndex := mput index methodURI (activeStreamsByIndex (grpcHooks h))\<rparr>\<rparr>
          in case MatchGRPCRequest methodURI h of
               None \<Rightarrow> None
             | Some (allMatches, matched) \<Rightarrow>
                 (if md \<and> list_ex (\<lambda>(k, hook). grpcListener hook = None) allMatches then None
                  else
                  let s = (if md then fold (\<lambda>(k, hook) s. onHeaders (the (grpcListener hook)) s) allMatches s else s);
                      ls = fold (\<lambda>(k, hook) m. mput (hkID hook) (grpcListener hook) m) allMatches
                             (stream_listeners index (grpcHooks h));
                      s = fold (\<lambda>(key, hs) s. track (hksPort h) key methodURI hs s) matched s
                  in Some (h\<lparr>hksLock := hksLock h\<lparr>writeHeld := False\<rparr>,
                             grpcHooks := (grpcHooks h)\<lparr>ghListeners := mput index ls (ghListeners (grpcHooks h))\<rparr>\<rparr>, s))))"

definition remove_nth :: "nat \<Rightarrow> 'a list \<Rightarrow> 'a list" where
  "remove_nth i xs = take i xs @ drop (i + 1) xs"

definition RemoveGRPCStream :: "string \<Rightarrow> int \<Rightarrow> 's hooks \<Rightarrow> 's hooks option" where
  "RemoveGRPCStream methodURI index h =
     (let g = grpcHooks h;
          (methodURI, index) =
            (if methodURI \<noteq> [] then (methodURI, mget_or 0 (activeStreamsByURI g) methodURI)
             else (mget_or [] (activeStreamsByIndex g) index, index));
          i = nat index
      in if index < 0 \<or> length (clientStreams g) \<le> i \<or> length (serverStreams g) \<le> i \<or> length (serverHeaders g) \<le> i
         then None
         else Some (h\<lparr>grpcHooks := g
           \<lparr>activeStreamsByURI := mdel methodURI (activeStreamsByURI g),
            activeStreamsByIndex := mdel index (activeStreamsByIndex g),
            clientStreams := remove_nth i (clientStreams g), serverStreams := remove_nth i (serverStreams g),
            serverHeaders := remove_nth i (serverHeaders g),
            ghHooks := map (\<lambda>(k, hook). (k, hook\<lparr>streamIndexes := mdel index (streamIndexes hook)\<rparr>)) (ghHooks g)\<rparr>\<rparr>))"

definition RemoveHook :: "string \<Rightarrow> 's hooks \<Rightarrow> 's hooks" where
  "RemoveHook hid h =
     (let g = grpcHooks h in
      case mget (ghHooks g) hid of
        Some hook \<Rightarrow>
          h\<lparr>grpcHooks := g\<lparr>ghHooks := mdel hid (ghHooks g),
              ghListeners := map (\<lambda>(i, ls). (i, if mget (streamIndexes hook) i \<noteq> None then mdel hid ls else ls))
                               (ghListeners g)\<rparr>\<rparr>
      | None \<Rightarrow> h\<lparr>httpHooks := mdel hid (httpHooks h)\<rparr>)"

section \<open>Installing tracking hooks\<close>

definition trackCallCounts :: "request_tracking http_listener" where
  "trackCallCounts port uri headers body rt = (TrackCall port [] uri headers rt, True)"

record tracking_hooks =
  thTracking :: request_tracking
  thHooks :: "(int, request_tracking hooks) gomap"
  thCounter :: int

text \<open>The handlers ignore the error of \<open>AddHTTPHookWithListener\<close>.\<close>

definition install_hook ::
  "(string \<Rightarrow> re_pred option) \<Rightarrow> (string \<Rightarrow> (string \<times> re_pred) option) \<Rightarrow> int \<Rightarrow> string \<Rightarrow> string \<Rightarrow>
   (string \<times> string) list option \<Rightarrow> tracking_hooks \<Rightarrow> tracking_hooks option" where
  "install_hook compile matcher port hid uri headers st =
     (let (ph, h) = GetPortHooks port (thHooks st) in
      case AddHTTPHookWithListener compile matcher [] hid uri headers False (Some trackCallCounts) (h, thCounter st) of
        None \<Rightarrow> None
      | Some (Inl e) \<Rightarrow> Some (st\<lparr>thHooks := ph\<rparr>)
      | Some (Inr (h', c)) \<Rightarrow> Some (st\<lparr>thHooks := mput port h' ph, thCounter := c\<rparr>))"

definition trackURI ::
  "(string \<Rightarrow> re_pred option) \<Rightarrow> (string \<Rightarrow> (string \<times> re_pred) option) \<Rightarrow> request \<Rightarrow> tracking_hooks \<Rightarrow>
   (tracking_hooks \<times> http_out) option" where
  "trackURI compile matcher r st =
     (let port = reqPortNum r; uri = GetStringParamValue r ''uri'' None in
      if uri \<noteq> [] then
        map_option (\<lambda>st. (st, WriteHeader 200 (SendEvent ''Tracking URI Added'' no_out)))
          (install_hook compile matcher port uri uri None
             (st\<lparr>thTracking := tracking_Init port [] uri [] (thTracking st)\<rparr>))
      else Some (st, WriteHeader 400 no_out))"

definition trackHeaders ::
  "(string \<Rightarrow> re_pred option) \<Rightarrow> (string \<Rightarrow> (string \<times> re_pred) option) \<Rightarrow> request \<Rightarrow> tracking_hooks \<Rightarrow>
   (tracking_hooks \<times> http_out) option" where
  "trackHeaders compile matcher r st =
     (let port = reqPortNum r; (headers, present) = GetListParam r ''headers'' in
      if present then
        map_option (\<lambda>st. (st, SendEvent ''Tracking Headers Added'' no_out))
          (install_hook compile matcher port (join_with ''_'' headers) []
             (Some (ConvertHeadersArrayToMultiArray headers))
             (st\<lparr>thTracking := tracking_Init port [] [] headers (thTracking st)\<rparr>))
      else Some (st, WriteHeader 400 no_out))"

definition trackURIAndHeaders ::
  "(string \<Rightarrow> re_pred option) \<Rightarrow> (string \<Rightarrow> (string \<times> re_pred) option) \<Rightarrow> request \<Rightarrow> tracking_hooks \<Rightarrow>
   (tracking_hooks \<times> http_out) option" where
  "trackURIAndHeaders compile matcher r st =
     (let port = reqPortNum r; uri = GetStringParamValue r ''uri'' None;
          (headers, present) = GetListParam r ''headers'' in
      if uri \<noteq> [] \<and> present then
        map_option (\<lambda>st. (st, SendEvent ''Tracking URI and Headers Added'' no_out))
          (install_hook compile matcher port uri uri (Some (ConvertHeadersArrayToMultiArray headers))
             (st\<lparr>thTracking := tracking_Init port [] uri headers (thTracking st)\<rparr>))
      else Some (st, WriteHeader 400 no_out))"

definition trackURIAndHeaderValue ::
  "(string \<Rightarrow> re_pred option) \<Rightarrow> (string \<Rightarrow> (string \<times> re_pred) option) \<Rightarrow> request \<Rightarrow> tracking_hooks \<Rightarrow>
   (tracking_hooks \<times> http_out) option" where
  "trackURIAndHeaderValue compile matcher r st =
     (let port = reqPortNum r; uri = GetStringParamValue r ''uri'' None;
          header = GetStringParamValue r ''header'' None; val = GetStringParamValue r ''value'' None in
      if uri \<noteq> [] \<and> header \<noteq> [] \<and> val \<noteq> [] then
        map_option (\<lambda>st. (st, SendEvent ''Tracking URI and Headers Added'' no_out))
          (install_hook compile matcher port uri uri (Some [(header, val)])
             (st\<lparr>thTracking := tracking_Init port [] uri [header] (thTracking st)\<rparr>))
      else Some (st, WriteHeader 400 no_out))"

section \<open>The tracking API for requests and responses\<close>

text \<open>\<open>pkg/server/tracking/tracking.go\<close> and \<open>pkg/server/tracking/trackingAPI.go\<close>.\<close>

type_synonym traffic_tracking = "(string, (int, traffic_data) gomap) gomap"

definition getKeyPort :: "int \<Rightarrow> string \<Rightarrow> traffic_tracking \<Rightarrow> traffic_data" where
  "getKeyPort port key t = mget_or td_init (mget_or [] t key) port"

definition upd_td :: "int \<Rightarrow> string \<Rightarrow> (traffic_data \<Rightarrow> traffic_data) \<Rightarrow> traffic_tracking \<Rightarrow> traffic_tracking" where
  "upd_td port key f t = mput key (mput port (f (getKeyPort port key t)) (mget_or [] t key)) t"

definition AddRequestTracking :: "int \<Rightarrow> string \<Rightarrow> string \<Rightarrow> string list \<Rightarrow> traffic_tracking \<Rightarrow> traffic_tracking" where
  "AddRequestTracking port key uri headers t = upd_td port key (addRequestTracking uri headers) t"

definition AddUpstreamRequestTracking :: "int \<Rightarrow> string \<Rightarrow> string \<Rightarrow> string list \<Rightarrow> traffic_tracking \<Rightarrow> traffic_tracking" where
  "AddUpstreamRequestTracking port key uri headers t = upd_td port key (addUpstreamRequestTracking uri headers) t"

definition AddResponseTracking :: "int \<Rightarrow> string \<Rightarrow> string \<Rightarrow> string list \<Rightarrow> traffic_tracking \<Rightarrow> traffic_tracking" where
  "AddResponseTracking port key uri headers t = upd_td port key (addResponseTracking uri headers) t"

definition AddUpstreamResponseTracking :: "int \<Rightarrow> string \<Rightarrow> string \<Rightarrow> string list \<Rightarrow> traffic_tracking \<Rightarrow> traffic_tracking" where
  "AddUpstreamResponseTracking port key uri headers t = upd_td port key (addUpstreamResponseTracking uri headers) t"

definition TrackRequest :: "int \<Rightarrow> string \<Rightarrow> string \<Rightarrow> header_map \<Rightarrow> traffic_tracking \<Rightarrow> traffic_tracking" where
  "TrackRequest port key uri headers t = upd_td port key (trackRequest uri headers) t"

definition TrackUpstreamRequest :: "int \<Rightarrow> string \<Rightarrow> string \<Rightarrow> header_map \<Rightarrow> traffic_tracking \<Rightarrow> traffic_tracking" where
  "TrackUpstreamRequest port key uri headers t = upd_td port key (trackUpstreamRequest uri headers) t"

definition TrackResponse ::
  "int \<Rightarrow> string \<Rightarrow> string \<Rightarrow> int \<Rightarrow> header_map \<Rightarrow> traffic_tracking \<Rightarrow> traffic_tracking option" where
  "TrackResponse port key uri statusCode headers t =
     map_option (\<lambda>td. upd_td port key (\<lambda>d. td) t) (trackResponse uri statusCode headers (getKeyPort port key t))"

definition TrackUpstreamResponse ::
  "int \<Rightarrow> string \<Rightarrow> string \<Rightarrow> int \<Rightarrow> header_map \<Rightarrow> traffic_tracking \<Rightarrow> traffic_tracking option" where
  "TrackUpstreamResponse port key uri statusCode headers t =
     map_option (\<lambda>td. upd_td port key (\<lambda>d. td) t) (trackUpstreamResponse uri statusCode headers (getKeyPort port key t))"

definition tracker_clear :: "request \<Rightarrow> traffic_tracking \<Rightarrow> traffic_tracking \<times> http_out" where
  "tracker_clear r t =
     (upd_td (reqPortNum r) (GetStringParamValue r ''key'' None) (\<lambda>d. td_init) t,
      WriteHeader 200 (SendEvent ''Tracking Cleared'' no_out))"

definition tracker_clearCounts :: "request \<Rightarrow> traffic_tracking \<Rightarrow> traffic_tracking \<times> http_out" where
  "tracker_clearCounts r t =
     (upd_td (reqPortNum r) (GetStringParamValue r ''key'' None) td_clearCounts t,
      SendEvent ''Tracking Counts Cleared'' no_out)"

record traffic_hooks =
  trTracking :: traffic_tracking
  trHooks :: "(int, traffic_tracking hooks) gomap"
  trCounter :: int

definition install_tracking ::
  "(string \<Rightarrow> re_pred option) \<Rightarrow> (string \<Rightarrow> (string \<times> re_pred) option) \<Rightarrow> int \<Rightarrow> string \<Rightarrow> string \<Rightarrow>
   (string \<times> string) list option \<Rightarrow> traffic_hooks \<Rightarrow> traffic_hooks option" where
  "install_tracking compile matcher port key uri headers st =
     (let (ph, h) = GetPortHooks port (trHooks st) in
      case AddHTTPTracking compile matcher key uri headers False (h, trCounter st) of
        None \<Rightarrow> None
      | Some (Inl e) \<Rightarrow> Some (st\<lparr>trHooks := ph\<rparr>)
      | Some (Inr (h', c)) \<Rightarrow> Some (st\<lparr>trHooks := mput port h' ph, trCounter := c\<rparr>))"

definition tr_trackURIAndHeaders ::
  "(string \<Rightarrow> re_pred option) \<Rightarrow> (string \<Rightarrow> (string \<times> re_pred) option) \<Rightarrow> request \<Rightarrow> traffic_hooks \<Rightarrow>
   (traffic_hooks \<times> http_out) option" where
  "tr_trackURIAndHeaders compile matcher r st =
     (let port = reqPortNum r; key = GetStringParamValue r ''key'' None; uri = GetStringParamValue r ''uri'' None;
          (headers, present) = GetListParam r ''headers'';
          isRequest = Contains (RequestURI r) ''/request''; isUpstream = Contains (RequestURI r) ''/upstream''
      in if (isRequest \<or> isUpstream) \<and> (uri \<noteq> [] \<or> present) then
           map_option (\<lambda>st. (st, SendEvent ''Tracking URI and Headers Added'' no_out))
             (install_tracking compile matcher port key uri (Some (ConvertHeadersArrayToMultiArray headers))
                (st\<lparr>trTracking := (if isRequest then AddRequestTracking else AddUpstreamRequestTracking)
                                    port key uri headers (trTracking st)\<rparr>))
         else Some (st, WriteHeader 400 no_out))"

definition tr_trackURIAndHeaderValue ::
  "(string \<Rightarrow> re_pred option) \<Rightarrow> (string \<Rightarrow> (string \<times> re_pred) option) \<Rightarrow> request \<Rightarrow> traffic_hooks \<Rightarrow>
   (traffic_hooks \<times> http_out) option" where
  "tr_trackURIAndHeaderValue compile matcher r st =
     (let port = reqPortNum r; key = GetStringParamValue r ''key'' None; uri = GetStringParamValue r ''uri'' None;
          header = GetStringParamValue r ''header'' None; val = GetStringParamValue r ''value'' None;
          isRequest = Contains (RequestURI r) ''/request''; isUpstream = Contains (RequestURI r) ''/upstream''
      in if (isRequest \<or> isUpstream) \<and> uri \<noteq> [] \<and> header \<noteq> [] \<and> val \<noteq> [] then
           map_option (\<lambda>st. (st, SendEvent ''Tracking URI and Headers Added'' no_out))
             (install_tracking compile matcher port key uri (Some [(header, val)])
                (st\<lparr>trTracking := (if isRequest then AddRequestTracking else AddUpstreamRequestTracking)
                                    port key uri [header] (trTracking st)\<rparr>))
         else Some (st, WriteHeader 400 no_out))"

section \<open>Lemmas\<close>

text \<open>A header match without values accepts nothing.\<close>

definition no_values :: "(string, header_match) gomap \<Rightarrow> bool" where
  "no_values hms \<longleftrightarrow> (\<forall>(k, hm) \<in> set hms. hmValues hm = Some [])"

lemma match_header_no_values: "no_values hms \<Longrightarrow> match_header hms header values = None"
  by (induction hms header "values" rule: match_header.induct) (auto simp: no_values_def match_values_def)

lemma mput_in_set: "(k', v') \<in> set (mput k v m) \<Longrightarrow> (k', v') = (k, v) \<or> (k', v') \<in> set m"
  by (induction m) (auto split: if_splits)

lemma add_header_match_no_values:
  assumes "add_header_match compile (h, []) hms = Some hms'" and "no_values hms"
  shows "no_values hms'"
  using assms mget_in_set [of hms "ToLower h"]
  by (auto simp: add_header_match_def no_values_def Let_def split: option.splits dest!: mput_in_set)

lemma add_header_matches_no_values:
  "add_header_matches compile (ConvertHeadersArrayToMultiArray hs) hms = Some hms' \<Longrightarrow> no_values hms \<Longrightarrow> no_values hms'"
  by (induction hs arbitrary: hms)
    (auto simp: ConvertHeadersArrayToMultiArray_def split: option.splits dest: add_header_match_no_values)

lemma hook_init_names:
  assumes "hook_init compile key hid uri p re (Some (ConvertHeadersArrayToMultiArray hs)) j l c = Some (hook, c')"
  shows "hook_matchHeader hook header values = None" "httpListener hook = l" "hmatchRe (hkMatch hook) = re"
proof -
  show "httpListener hook = l" "hmatchRe (hkMatch hook) = re"
    using assms by (auto simp: hook_init_def split: prod.splits if_splits)
  have "HeaderMatches (hkMatch hook) = None \<or> (\<exists>hms. HeaderMatches (hkMatch hook) = Some hms \<and> no_values hms)"
    using assms add_header_matches_no_values [of compile hs "[]"]
    by (auto simp: hook_init_def no_values_def split: prod.splits if_splits)
  then show "hook_matchHeader hook header values = None"
    by (auto simp: hook_matchHeader_def match_header_no_values)
qed

lemma hook_match_headers_none:
  "(\<And>header values. hook_matchHeader hook header values = None) \<Longrightarrow> hook_match_headers hook headers m = m"
  by (induction headers arbitrary: m) (auto simp: hook_match_headers_def)

lemma run_listeners_yes:
  "snd (run_listeners port uri headers body hs (j, True, s)) = (True, s)"
  by (induction hs arbitrary: j) (auto split: option.splits)

lemma run_listeners_track:
  "(\<And>k h. (k, h) \<in> set hs \<Longrightarrow> httpListener h = None \<or> httpListener h = Some trackCallCounts) \<Longrightarrow>
   snd (run_listeners port uri headers body hs (j, False, rt)) =
     (list_ex (\<lambda>(k, h). httpListener h \<noteq> None) hs,
      if list_ex (\<lambda>(k, h). httpListener h \<noteq> None) hs then TrackCall port [] uri headers rt else rt)"
proof (induction hs arbitrary: j)
  case (Cons e hs)
  obtain k h where e: "e = (k, h)" by (cases e)
  have IH: "snd (run_listeners port uri headers body hs (hkIsJSONRPC h, False, rt)) =
     (list_ex (\<lambda>(k, h). httpListener h \<noteq> None) hs,
      if list_ex (\<lambda>(k, h). httpListener h \<noteq> None) hs then TrackCall port [] uri headers rt else rt)"
    using Cons.prems by (intro Cons.IH) auto
  from Cons.prems [of k h] e show ?case
    by (auto simp: IH run_listeners_yes trackCallCounts_def)
qed simp

text \<open>The states that the handlers reach which track URIs and header names.\<close>

inductive names_reachable ::
  "(string \<Rightarrow> re_pred option) \<Rightarrow> (string \<Rightarrow> (string \<times> re_pred) option) \<Rightarrow> tracking_hooks \<Rightarrow> bool"
  for compile matcher where
  start: "names_reachable compile matcher \<lparr>thTracking = rt, thHooks = [], thCounter = 0\<rparr>"
| uri: "names_reachable compile matcher st \<Longrightarrow> trackURI compile matcher r st = Some (st', out) \<Longrightarrow>
    names_reachable compile matcher st'"
| headers: "names_reachable compile matcher st \<Longrightarrow> trackHeaders compile matcher r st = Some (st', out) \<Longrightarrow>
    names_reachable compile matcher st'"
| uri_headers: "names_reachable compile matcher st \<Longrightarrow> trackURIAndHeaders compile matcher r st = Some (st', out) \<Longrightarrow>
    names_reachable compile matcher st'"

definition hooks_silent :: "'s hooks \<Rightarrow> bool" where
  "hooks_silent h \<longleftrightarrow> (\<forall>hook \<in> snd ` set (httpHooks h). \<forall>header values. hook_matchHeader hook header values = None)"

definition all_silent :: "(int, 's hooks) gomap \<Rightarrow> bool" where
  "all_silent ph \<longleftrightarrow> (\<forall>h \<in> snd ` set ph. hooks_silent h)"

lemma all_silent_mput: "all_silent ph \<Longrightarrow> hooks_silent h \<Longrightarrow> all_silent (mput p h ph)"
  by (auto simp: all_silent_def dest!: mput_in_set)

lemma GetPortHooks_silent:
  "all_silent ph \<Longrightarrow> GetPortHooks p ph = (ph', h) \<Longrightarrow> all_silent ph' \<and> hooks_silent h"
  by (force simp: GetPortHooks_def newHooks_def all_silent_mput hooks_silent_def all_silent_def
      split: option.splits dest: mget_in_set mput_in_set)

lemma hook_init_no_headers:
  "hook_init compile key hid uri p re None j l c = Some (hook, c') \<Longrightarrow> hook_matchHeader hook header values = None"
  by (auto simp: hook_init_def hook_matchHeader_def split: prod.splits if_splits)

lemma install_hook_silent:
  assumes "install_hook compile matcher port hid uri headers st = Some st'" and "all_silent (thHooks st)"
    and "headers = None \<or> headers = Some (ConvertHeadersArrayToMultiArray names)"
  shows "all_silent (thHooks st')"
proof -
  obtain ph h where ph: "GetPortHooks port (thHooks st) = (ph, h)" by fastforce
  note sil = GetPortHooks_silent [OF assms(2) ph]
  have add: "hooks_silent (h\<lparr>httpHooks := mput (hkID hook) hook (httpHooks h)\<rparr>)"
    if "hook_init compile [] hid u p re headers False l c = Some (hook, c')" for hook u p re l c c'
    using that sil assms(3) hook_init_no_headers [of compile "[]" hid u p re] hook_init_names(1) [of compile "[]" hid u p re]
    by (fastforce simp: hooks_silent_def dest!: mput_in_set)
  show ?thesis
    using assms(1) ph sil add
    by (auto simp: install_hook_def AddHTTPHookWithListener_def addHTTPHook_def Let_def all_silent_mput
        split: option.splits sum.splits if_splits prod.splits)
qed

lemma names_reachable_silent: "names_reachable compile matcher st \<Longrightarrow> all_silent (thHooks st)"
proof (induction rule: names_reachable.induct)
  case (start rt)
  then show ?case by (simp add: all_silent_def)
qed (auto simp: trackURI_def trackHeaders_def trackURIAndHeaders_def Let_def split: if_splits prod.splits
    dest!: install_hook_silent)

lemma matchRequest_silent:
  "\<forall>hook \<in> snd ` set hs. \<forall>header values. hook_matchHeader hook header values = None \<Longrightarrow>
   snd (matchRequest_from uri headers hs (all, m)) = m"
  by (induction hs arbitrary: all m) (auto simp: hook_match_headers_none)

section \<open>Properties\<close>

text \<open>Adding a gRPC stream never returns. \<open>AddGRPCStream\<close> holds the write lock of the hooks when it
  calls \<open>MatchGRPCRequest\<close>, which waits for the read lock of the same mutex.\<close>

theorem AddGRPCStream_blocks: "AddGRPCStream onHeaders track methodURI md client server hdrs (h, s) = None"
  by (auto simp: AddGRPCStream_def MatchGRPCRequest_def mutex_Lock_def mutex_RLock_def Let_def split: option.splits)

text \<open>A request that several tracking hooks match is counted once: the first listener says yes and the
  others are skipped. A request that only hooks without a listener match is dropped instead of being
  passed to the next handler.\<close>

theorem hooks_middleware_listeners:
  assumes "\<not> IsKnownNonTraffic r"
    and "matchRequest (RequestURI r) (reqHeaders r) (httpHooks (snd (GetPortHooks (reqPortNum r) ph))) = (hs, [])"
    and "hs \<noteq> []"
    and "\<And>k h. (k, h) \<in> set hs \<Longrightarrow> httpListener h = None \<or> httpListener h = Some trackCallCounts"
  shows "hkdNext (snd (hooks_middleware track r body rt ph)) = list_ex (\<lambda>(k, h). httpListener h \<noteq> None) hs \<and>
    hkdState (snd (hooks_middleware track r body rt ph)) =
      (if list_ex (\<lambda>(k, h). httpListener h \<noteq> None) hs
       then TrackCall (reqPortNum r) [] (RequestURI r) (reqHeaders r) rt else rt)"
proof -
  have "snd (run_listeners (reqPortNum r) (RequestURI r) (reqHeaders r) body hs (False, False, rt)) =
     (list_ex (\<lambda>(k, h). httpListener h \<noteq> None) hs,
      if list_ex (\<lambda>(k, h). httpListener h \<noteq> None) hs
      then TrackCall (reqPortNum r) [] (RequestURI r) (reqHeaders r) rt else rt)"
    using assms(4) by (rule run_listeners_track)
  with assms(1-3) show ?thesis by (auto simp: hooks_middleware_def Let_def split: prod.splits)
qed

theorem hooks_middleware_listeners_witness:
  "\<exists>ph r. length (httpHooks (snd (GetPortHooks 80 ph))) = 2 \<and>
     hkdNext (snd (hooks_middleware (\<lambda>p k u h s. s) r ''body'' [] ph)) \<and>
     hkdState (snd (hooks_middleware (\<lambda>p k u h s. s) r ''body'' [] ph)) = TrackCall 80 [] ''/a'' [] []"
proof -
  define hk where "hk = (\<lambda>i. \<lparr>hkKey = [], hkID = i, hkIsJSONRPC = False, hkURI = ''/a'',
    hkMatch = \<lparr>UriPrefix = ''/a'', hmatchRe = Some (\<lambda>u. u = ''/a''), HeaderMatches = None\<rparr>,
    httpListener = Some trackCallCounts, grpcListener = None, streamIndexes = []\<rparr>)"
  define ph :: "(int, request_tracking hooks) gomap" where
    "ph = [(80, (newHooks 80)\<lparr>httpHooks := [(''1'', hk ''1''), (''2'', hk ''2'')]\<rparr>)]"
  define r where "r = \<lparr>reqPort = ''80'', reqPortNum = 80, RequestURI = ''/a'', URLPath = ''/a'', reqMethod = ''GET'',
        reqHeaders = [], reqVars = [], reqQuery = [], IsKnownNonTraffic = False, IsAdminRequest = False\<rparr>"
  have m: "matchRequest (RequestURI r) (reqHeaders r) (httpHooks (snd (GetPortHooks (reqPortNum r) ph))) =
      ([(''1'', hk ''1''), (''2'', hk ''2'')], [])"
    by (simp add: matchRequest_def hook_matchURI_def hook_match_headers_def GetPortHooks_def ph_def r_def hk_def)
  have l: "httpListener h = None \<or> httpListener h = Some trackCallCounts"
    if "(k, h) \<in> set [(''1'', hk ''1''), (''2'', hk ''2'')]" for k h
    using that by (auto simp: hk_def)
  have n: "\<not> IsKnownNonTraffic r" by (simp add: r_def)
  from hooks_middleware_listeners [OF n m _ l, where body = "''body''" and rt = "[]" and track = "\<lambda>p k u h s. s"]
  have "hkdNext (snd (hooks_middleware (\<lambda>p k u h s. s) r ''body'' [] ph)) \<and>
     hkdState (snd (hooks_middleware (\<lambda>p k u h s. s) r ''body'' [] ph)) = TrackCall 80 [] ''/a'' [] []"
    by (auto simp: r_def hk_def)
  moreover have "length (httpHooks (snd (GetPortHooks 80 ph))) = 2" by (simp add: GetPortHooks_def ph_def)
  ultimately show ?thesis by blast
qed

text \<open>Tracking a URI through the tracking API cuts it off. The hook that is installed has no listener
  and its headers are given by name only, which match nothing; so, when no other hook matches, a
  request to the URI is not passed to the next handler, and it is not counted either.\<close>

theorem tracked_uri_swallowed:
  assumes "tr_trackURIAndHeaders compile matcher c st = Some (st', out)"
    and "GetStringParamValue c ''uri'' None \<noteq> []"
    and "Contains (RequestURI c) ''/request'' \<or> Contains (RequestURI c) ''/upstream''"
    and "httpHooks (snd (GetPortHooks (reqPortNum c) (trHooks st))) = []"
    and "matcher (ToLower (GetStringParamValue c ''uri'' None)) = Some (p, re)" and "re (RequestURI r)"
    and "reqPortNum r = reqPortNum c" and "\<not> IsKnownNonTraffic r"
  shows "\<not> hkdNext (snd (hooks_middleware TrackRequest r body (trTracking st') (trHooks st')))
       \<and> hkdState (snd (hooks_middleware TrackRequest r body (trTracking st') (trHooks st'))) = trTracking st'"
proof -
  obtain hs b where hs: "GetListParam c ''headers'' = (hs, b)" by fastforce
  obtain ph h where ph: "GetPortHooks (reqPortNum c) (trHooks st) = (ph, h)" by fastforce
  have "\<exists>hook cnt cnt'. hook_init compile (GetStringParamValue c ''key'' None) [] (ToLower (GetStringParamValue c ''uri'' None)) p
        (Some re) (Some (ConvertHeadersArrayToMultiArray hs)) False None cnt = Some (hook, cnt') \<and>
      trHooks st' = mput (reqPortNum c) (h\<lparr>httpHooks := [(hkID hook, hook)]\<rparr>) ph"
    using assms(1-5) hs ph
    by (auto simp: tr_trackURIAndHeaders_def install_tracking_def AddHTTPTracking_def AddHTTPHookWithListener_def
        registerURI_def addHTTPHook_def Let_def split: option.splits sum.splits; blast)
  then obtain hook cnt cnt' where
    hi: "hook_init compile (GetStringParamValue c ''key'' None) [] (ToLower (GetStringParamValue c ''uri'' None)) p
        (Some re) (Some (ConvertHeadersArrayToMultiArray hs)) False None cnt = Some (hook, cnt')"
    and th: "trHooks st' = mput (reqPortNum c) (h\<lparr>httpHooks := [(hkID hook, hook)]\<rparr>) ph" by blast
  note facts = hook_init_names [OF hi]
  have "matchRequest (RequestURI r) (reqHeaders r) [(hkID hook, hook)] = ([(hkID hook, hook)], [])"
    using facts assms(6) by (simp add: matchRequest_def hook_matchURI_def hook_match_headers_none)
  then show ?thesis
    using assms(7,8) th facts(2) by (simp add: hooks_middleware_def GetPortHooks_def)
qed

theorem tracked_uri_swallowed_witness:
  "\<exists>compile matcher c st st' out r. tr_trackURIAndHeaders compile matcher c st = Some (st', out) \<and>
     \<not> hkdNext (snd (hooks_middleware TrackRequest r [] (trTracking st') (trHooks st'))) \<and>
     hkdState (snd (hooks_middleware TrackRequest r [] (trTracking st') (trHooks st'))) = trTracking st'"
proof -
  define c where "c = \<lparr>reqPort = ''80'', reqPortNum = 80, RequestURI = ''/tracking/request'', URLPath = [],
        reqMethod = ''POST'', reqHeaders = [], reqVars = [(''uri'', ''/a'')], reqQuery = [(''headers'', [''X''])],
        IsKnownNonTraffic = True, IsAdminRequest = True\<rparr>"
  define r where "r = \<lparr>reqPort = ''80'', reqPortNum = 80, RequestURI = ''/a'', URLPath = ''/a'', reqMethod = ''GET'',
        reqHeaders = [(''X'', [''1''])], reqVars = [], reqQuery = [], IsKnownNonTraffic = False, IsAdminRequest = False\<rparr>"
  define compile :: "string \<Rightarrow> re_pred option" where "compile = (\<lambda>p. Some (\<lambda>s. s = p))"
  define matcher :: "string \<Rightarrow> (string \<times> re_pred) option" where "matcher = (\<lambda>p. Some (p, \<lambda>s. s = p))"
  define st where "st = \<lparr>trTracking = [], trHooks = [], trCounter = 0\<rparr>"
  have uri: "GetStringParamValue c ''uri'' None = ''/a''"
    by (simp add: c_def GetStringParamValue_def GetStringParam_def mget_or_def)
  have low: "ToLower ''/a'' = ''/a''" by code_simp
  have cont: "Contains (RequestURI c) ''/request''" unfolding c_def by code_simp
  have "\<not> Option.is_none (tr_trackURIAndHeaders compile matcher c st)"
    unfolding c_def compile_def matcher_def st_def by code_simp
  then obtain st' out where *: "tr_trackURIAndHeaders compile matcher c st = Some (st', out)"
    by (cases "tr_trackURIAndHeaders compile matcher c st") auto
  have "httpHooks (snd (GetPortHooks (reqPortNum c) (trHooks st))) = []"
    by (simp add: st_def GetPortHooks_def newHooks_def)
  with tracked_uri_swallowed [OF *, of "''/a''" "\<lambda>s. s = ''/a''" r "[]"] uri low cont
  have "\<not> hkdNext (snd (hooks_middleware TrackRequest r [] (trTracking st') (trHooks st'))) \<and>
     hkdState (snd (hooks_middleware TrackRequest r [] (trTracking st') (trHooks st'))) = trTracking st'"
    by (simp add: matcher_def r_def c_def)
  with * show ?thesis by blast
qed

text \<open>Header names alone are never reported. Whatever URIs and header names were set to be tracked, no
  request is ever found to match a header, so the header tracking function is never called: a header
  match without values accepts no value, although the code has a branch for that case.\<close>

theorem tracked_names_never_reported:
  assumes "names_reachable compile matcher st"
  shows "snd (matchRequest uri headers (httpHooks (snd (GetPortHooks port (thHooks st))))) = []"
proof -
  obtain ph h where "GetPortHooks port (thHooks st) = (ph, h)" by fastforce
  with GetPortHooks_silent [OF names_reachable_silent [OF assms] this] show ?thesis
    unfolding matchRequest_def by (intro matchRequest_silent) (simp add: hooks_silent_def)
qed

theorem tracked_names_never_reported_witness:
  "\<exists>st compile matcher. names_reachable compile matcher st \<and> length (httpHooks (snd (GetPortHooks 80 (thHooks st)))) = 1 \<and>
     snd (matchRequest ''/a'' [(''X'', [''1''])] (httpHooks (snd (GetPortHooks 80 (thHooks st))))) = []"
proof -
  define c where "c = \<lparr>reqPort = ''80'', reqPortNum = 80, RequestURI = ''/tracking'', URLPath = [],
        reqMethod = ''POST'', reqHeaders = [], reqVars = [(''uri'', ''/a'')], reqQuery = [(''headers'', [''X''])],
        IsKnownNonTraffic = True, IsAdminRequest = True\<rparr>"
  define compile :: "string \<Rightarrow> re_pred option" where "compile = (\<lambda>p. Some (\<lambda>s. s = p))"
  define matcher :: "string \<Rightarrow> (string \<times> re_pred) option" where "matcher = (\<lambda>p. Some (p, \<lambda>s. s = p))"
  define st where "st = \<lparr>thTracking = [], thHooks = [], thCounter = 0\<rparr>"
  have "case trackURIAndHeaders compile matcher c st of None \<Rightarrow> False
        | Some (st', out) \<Rightarrow> length (httpHooks (snd (GetPortHooks 80 (thHooks st')))) = 1"
    unfolding c_def compile_def matcher_def st_def by code_simp
  then obtain st' out where 1: "trackURIAndHeaders compile matcher c st = Some (st', out)"
    "length (httpHooks (snd (GetPortHooks 80 (thHooks st')))) = 1"
    by (auto split: option.splits)
  then have 2: "names_reachable compile matcher st'"
    using names_reachable.start [of compile matcher "[]"] names_reachable.uri_headers by (fastforce simp: st_def)
  with tracked_names_never_reported [OF 2] 1 show ?thesis by blast
qed

end
