(* ===== verification/Middleware.thy ===== *)
theory Middleware
  imports Goto_Prelude
begin

text \<open>
  Middleware chains: \<open>pkg/server/middleware/middleware.go\<close>, and the lists of middlewares in
  \<open>pkg/server/server.go\<close>, \<open>pkg/server/request/request.go\<close> and \<open>pkg/server/response/response.go\<close>.
  A handler is a value of the type parameter \<open>'h\<close>, and a middleware wraps one handler in another;
  a middleware may have no handler. The order of the wrapped handlers is what the chains are about,
  so the server's own chains are evaluated with handlers that are traces: the names of the
  middlewares that a request passes, outermost first.
\<close>

record 'h middleware =
  mwName :: string
  MiddlewareHandler :: "('h \<Rightarrow> 'h) option"

definition NewMiddleware :: "string \<Rightarrow> ('h \<Rightarrow> 'h) option \<Rightarrow> 'h middleware" where
  "NewMiddleware n h = \<lparr>mwName = n, MiddlewareHandler = h\<rparr>"

text \<open>The loop runs from the last middleware to the first.\<close>

definition AddMiddlewares :: "'h \<Rightarrow> 'h middleware list \<Rightarrow> 'h" where
  "AddMiddlewares nxt ms =
     fold (\<lambda>m h. case MiddlewareHandler m of Some f \<Rightarrow> f h | None \<Rightarrow> h) (rev ms) nxt"

text \<open>One of the three loops of \<open>LinkUnintercepted\<close>: the chain built so far and the head of the gRPC
  chain, which is set after every middleware that has a handler.\<close>

definition link_loop :: "'h middleware list \<Rightarrow> 'h \<times> 'h option \<Rightarrow> 'h \<times> 'h option" where
  "link_loop ms acc =
     fold (\<lambda>m (h, chain_head). case MiddlewareHandler m of Some f \<Rightarrow> (f h, Some (f h)) | None \<Rightarrow> (h, chain_head))
       (rev ms) acc"

definition LinkUnintercepted ::
  "'h \<Rightarrow> 'h middleware list \<Rightarrow> 'h middleware list \<Rightarrow> 'h middleware list \<Rightarrow> 'h option \<Rightarrow> 'h option" where
  "LinkUnintercepted base core interceptedCore unintercepted chain_head =
     snd (link_loop core (link_loop interceptedCore (link_loop unintercepted (base, chain_head))))"

text \<open>\<open>LinkIntercepted\<close> wraps the base handler anew in every round.\<close>

definition LinkIntercepted :: "'h \<Rightarrow> 'h middleware list \<Rightarrow> 'h option \<Rightarrow> 'h option" where
  "LinkIntercepted base intercepted chain_head =
     fold (\<lambda>m hd. case MiddlewareHandler m of Some f \<Rightarrow> Some (f base) | None \<Rightarrow> hd) (rev intercepted) chain_head"

section \<open>The chains of the server\<close>

definition traced :: "string \<Rightarrow> string list middleware" where
  "traced n = NewMiddleware n (Some (\<lambda>h. n # h))"

definition routes_only :: "string \<Rightarrow> string list middleware" where
  "routes_only n = NewMiddleware n None"

definition requestMiddlewares :: "string list middleware list" where
  "requestMiddlewares = [traced ''timeout'', traced ''filter'']"

definition request_CoreMiddlewares :: "string list middleware list" where
  "request_CoreMiddlewares = [traced ''tracking'', traced ''uri'']"

definition responseMiddlewares :: "string list middleware list" where
  "responseMiddlewares = [traced ''response.payload'', routes_only ''trigger'']"

definition response_CoreMiddlewares :: "string list middleware list" where
  "response_CoreMiddlewares = [traced ''status'', traced ''delay'', traced ''response.header'']"

definition request_Middleware :: "string list middleware" where
  "request_Middleware = NewMiddleware ''request'' (Some (\<lambda>nxt. AddMiddlewares nxt requestMiddlewares))"

definition response_Middleware :: "string list middleware" where
  "response_Middleware = NewMiddleware ''response'' (Some (\<lambda>nxt. AddMiddlewares nxt responseMiddlewares))"

definition server_Core :: "string list middleware list" where
  "server_Core = [traced ''connection'', traced ''hooks'']"

definition server_InterceptedCore :: "string list middleware list" where
  "server_InterceptedCore = request_CoreMiddlewares @ response_CoreMiddlewares"

definition server_Unintercepted :: "string list middleware list" where
  "server_Unintercepted =
     [traced ''tunnelCount'', traced ''tunnel'', traced ''probes'', traced ''memory'', traced ''events'',
      traced ''metrics'', traced ''body'']"

definition server_Intercepted :: "string list middleware list" where
  "server_Intercepted = [request_Middleware, response_Middleware, traced ''catchall'', traced ''ui'']"

text \<open>The chain that a gRPC request runs: the base of the first chain is the head of the second one.\<close>

definition grpc_chain :: "string list option" where
  "grpc_chain =
     (case LinkIntercepted [] server_Intercepted None of
        None \<Rightarrow> None
      | Some base \<Rightarrow> LinkUnintercepted base server_Core server_InterceptedCore server_Unintercepted None)"

section \<open>Lemmas\<close>

lemma AddMiddlewares_Nil [simp]: "AddMiddlewares nxt [] = nxt"
  by (simp add: AddMiddlewares_def)

lemma AddMiddlewares_Cons [simp]:
  "AddMiddlewares nxt (m # ms) =
     (case MiddlewareHandler m of Some f \<Rightarrow> f (AddMiddlewares nxt ms) | None \<Rightarrow> AddMiddlewares nxt ms)"
  by (simp add: AddMiddlewares_def split: option.splits)

lemma AddMiddlewares_append: "AddMiddlewares nxt (ms @ ms') = AddMiddlewares (AddMiddlewares nxt ms') ms"
  by (induction ms) (auto split: option.splits)

definition has_handler :: "'h middleware \<Rightarrow> bool" where
  "has_handler m \<longleftrightarrow> MiddlewareHandler m \<noteq> None"

lemma link_loop_eq:
  "link_loop ms (h, hd0) =
     (AddMiddlewares h ms, if list_ex has_handler ms then Some (AddMiddlewares h ms) else hd0)"
  by (induction ms) (auto simp: link_loop_def has_handler_def split: option.splits)

section \<open>Properties\<close>

text \<open>The handlers of the unintercepted gRPC chain are nested in the order core, intercepted core,
  unintercepted, around the base handler, exactly as one call of \<open>AddMiddlewares\<close> would nest them.\<close>

theorem grpc_chain_nesting:
  assumes "list_ex has_handler core"
  shows "LinkUnintercepted base core icore unint chain_head = Some (AddMiddlewares base (core @ icore @ unint))"
  using assms by (auto simp: LinkUnintercepted_def link_loop_eq AddMiddlewares_append)

theorem grpc_chain_nesting_witness:
  "LinkUnintercepted [] server_Core [] [traced ''probes''] None = Some [''connection'', ''hooks'', ''probes'']"
  using grpc_chain_nesting [of server_Core "[]" "[]" "[traced ''probes'']" None]
  by (simp add: server_Core_def has_handler_def traced_def NewMiddleware_def)

text \<open>The intercepted chain is not a chain. Its head is the first middleware around the base handler,
  whatever middlewares follow it; so a gRPC request to the server passes the timeout and filter
  middlewares last, and never the payload, catch-all or user interface ones.\<close>

theorem grpc_server_chain:
  "grpc_chain = Some [''connection'', ''hooks'', ''tracking'', ''uri'', ''status'', ''delay'', ''response.header'',
     ''tunnelCount'', ''tunnel'', ''probes'', ''memory'', ''events'', ''metrics'', ''body'', ''timeout'', ''filter''] \<and>
   LinkIntercepted base (NewMiddleware n (Some f) # ms) chain_head = Some (f base)"
proof
  show "grpc_chain = Some [''connection'', ''hooks'', ''tracking'', ''uri'', ''status'', ''delay'', ''response.header'',
     ''tunnelCount'', ''tunnel'', ''probes'', ''memory'', ''events'', ''metrics'', ''body'', ''timeout'', ''filter'']"
    by code_simp
  show "LinkIntercepted base (NewMiddleware n (Some f) # ms) chain_head = Some (f base)"
    by (simp add: LinkIntercepted_def NewMiddleware_def)
qed

end
