(* ===== verification/Intercept.thy ===== *)
theory Intercept
  imports Goto_Prelude
begin

text \<open>
  Response interception: \<open>pkg/server/intercept/intercept.go\<close>. The intercepting writer holds back the
  status and the body that handlers write until \<open>Proceed\<close>, so that later middlewares can still
  change headers. The writer underneath is the one of \<open>net/http\<close>: the first \<open>WriteHeader\<close> decides the
  status, a \<open>Write\<close> or \<open>Flush\<close> before it sends 200, an informational code decides nothing, a code
  outside 100 to 999 panics, and after a hijack nothing is written. A panic is \<open>None\<close>. Interceptors
  that wrap other interceptors are not modelled, so the parent of an interceptor is nil here; the
  response headers are not part of the state.
\<close>

section \<open>The writer of net/http\<close>

record base_writer =
  wireStatus :: "int option"
  wireBody :: string
  bwHijacked :: bool
  rawConn :: string

definition new_base :: base_writer where
  "new_base = \<lparr>wireStatus = None, wireBody = [], bwHijacked = False, rawConn = []\<rparr>"

definition base_WriteHeader :: "int \<Rightarrow> base_writer \<Rightarrow> base_writer option" where
  "base_WriteHeader c b =
     (if bwHijacked b \<or> wireStatus b \<noteq> None then Some b
      else if c < 100 \<or> 999 < c then None
      else if c \<le> 199 \<and> c \<noteq> 101 then Some b
      else Some (b\<lparr>wireStatus := Some c\<rparr>))"

datatype write_error = ErrHijacked | ErrBodyNotAllowed

definition bodyAllowed :: "int \<Rightarrow> bool" where
  "bodyAllowed c \<longleftrightarrow> \<not> (100 \<le> c \<and> c \<le> 199) \<and> c \<noteq> 204 \<and> c \<noteq> 304"

definition implicit_status :: "base_writer \<Rightarrow> base_writer" where
  "implicit_status b = (if wireStatus b = None then b\<lparr>wireStatus := Some 200\<rparr> else b)"

definition base_Write :: "string \<Rightarrow> base_writer \<Rightarrow> base_writer \<times> write_error option" where
  "base_Write d b =
     (if bwHijacked b then (b, Some ErrHijacked)
      else
        let b = implicit_status b in
        if d = [] then (b, None)
        else if \<not> bodyAllowed (the (wireStatus b)) then (b, Some ErrBodyNotAllowed)
        else (b\<lparr>wireBody := wireBody b @ d\<rparr>, None))"

definition base_Flush :: "base_writer \<Rightarrow> base_writer" where
  "base_Flush b = (if bwHijacked b then b else implicit_status b)"

section \<open>The intercepting writer\<close>

record irw =
  irBase :: base_writer
  irStatusCode :: int
  irData :: string
  Hold :: bool
  HoldChunked :: bool
  Hijacked :: bool
  Chunked :: bool
  Proceeded :: bool
  BodyLength :: int
  hasFlusher :: bool
  rsStatusCode :: int

definition NewInterceptResponseWriter :: "base_writer \<Rightarrow> bool \<Rightarrow> bool \<Rightarrow> int \<Rightarrow> irw" where
  "NewInterceptResponseWriter b flusher hold rsStatus =
     \<lparr>irBase = b, irStatusCode = 0, irData = [], Hold = hold, HoldChunked = False, Hijacked = False,
      Chunked = False, Proceeded = False, BodyLength = 0, hasFlusher = flusher, rsStatusCode = rsStatus\<rparr>"

definition irw_WriteHeader :: "int \<Rightarrow> irw \<Rightarrow> irw option" where
  "irw_WriteHeader c w =
     (let w = (if irStatusCode w = 0 then w\<lparr>irStatusCode := c, rsStatusCode := c\<rparr> else w)
      in if \<not> Hijacked w \<and> \<not> Hold w then map_option (\<lambda>b. w\<lparr>irBase := b\<rparr>) (base_WriteHeader c (irBase w))
         else Some w)"

definition irw_Write :: "string \<Rightarrow> irw \<Rightarrow> irw \<times> write_error option" where
  "irw_Write d w0 =
     (let w = w0\<lparr>BodyLength := BodyLength w0 + int (length d)\<rparr> in
      if Hijacked w then (w, None)
      else if \<not> Hold w \<or> Chunked w \<and> \<not> HoldChunked w then
        (let (b, e) = (if irData w \<noteq> [] then base_Write (irData w) (irBase w) else (irBase w, None))
         in case e of
              Some err \<Rightarrow> (w\<lparr>irBase := b\<rparr>, Some err)
            | None \<Rightarrow> (case base_Write d b of (b, e) \<Rightarrow> (w\<lparr>irBase := b, irData := []\<rparr>, e)))
      else (w\<lparr>irData := irData w @ d\<rparr>, None))"

definition SetChunked :: "irw \<Rightarrow> irw" where
  "SetChunked w = w\<lparr>Chunked := True\<rparr>"

definition SetHijacked :: "irw \<Rightarrow> irw" where
  "SetHijacked w = w\<lparr>Hijacked := True\<rparr>"

definition irw_Flush :: "irw \<Rightarrow> irw" where
  "irw_Flush w =
     (if HoldChunked w then w
      else
        let w = SetChunked w in
        if hasFlusher w then w\<lparr>irBase := base_Flush (irBase w)\<rparr> else w)"

definition Proceed :: "irw \<Rightarrow> irw option" where
  "Proceed w =
     (if Proceeded w then Some w
      else
        let w = w\<lparr>Proceeded := True\<rparr> in
        if Hijacked w \<or> Hold w \<or> HoldChunked w \<or> \<not> Chunked w then
          (let w = (if irStatusCode w \<le> 0 then w\<lparr>irStatusCode := 200, rsStatusCode := 200\<rparr> else w)
           in case base_WriteHeader (irStatusCode w) (irBase w) of
                None \<Rightarrow> None
              | Some b \<Rightarrow>
                  (case base_Write (irData w) b of
                     (b, Some ErrHijacked) \<Rightarrow>
                       Some (w\<lparr>Hijacked := True, irBase := b\<lparr>rawConn := rawConn b @ irData w\<rparr>\<rparr>)
                   | (b, e) \<Rightarrow> Some (w\<lparr>irBase := b\<rparr>)))
        else Some w)"

definition WithIntercept :: "base_writer \<Rightarrow> bool \<Rightarrow> int \<Rightarrow> irw" where
  "WithIntercept b flusher rsStatus = NewInterceptResponseWriter b flusher True rsStatus"

definition WithInterceptChunked :: "base_writer \<Rightarrow> bool \<Rightarrow> int \<Rightarrow> irw" where
  "WithInterceptChunked b flusher rsStatus = (WithIntercept b flusher rsStatus)\<lparr>HoldChunked := True\<rparr>"

definition WithInterceptAndStatus :: "int \<Rightarrow> bool \<Rightarrow> irw \<Rightarrow> irw option" where
  "WithInterceptAndStatus status chunked w =
     map_option (\<lambda>w. w\<lparr>HoldChunked := chunked\<rparr>)
       (if 0 < status then map_option (\<lambda>w. w\<lparr>irStatusCode := status\<rparr>) (irw_WriteHeader status w) else Some w)"

text \<open>What a handler does to its writer.\<close>

datatype writer_op = OpHeader int | OpWrite string | OpFlush

fun run_ops :: "writer_op list \<Rightarrow> irw \<Rightarrow> irw option" where
  "run_ops [] w = Some w"
| "run_ops (OpHeader c # ops) w = (case irw_WriteHeader c w of None \<Rightarrow> None | Some w' \<Rightarrow> run_ops ops w')"
| "run_ops (OpWrite d # ops) w = run_ops ops (fst (irw_Write d w))"
| "run_ops (OpFlush # ops) w = run_ops ops (irw_Flush w)"

text \<open>The middleware: the handlers before and after, the next handler, the status that the request store
  gets, and \<open>Proceed\<close>.\<close>

definition IntereceptMiddleware :: "bool \<Rightarrow> bool \<Rightarrow> writer_op list \<Rightarrow> writer_op list \<Rightarrow> writer_op list \<Rightarrow>
    base_writer \<Rightarrow> bool \<Rightarrow> int \<Rightarrow> irw option" where
  "IntereceptMiddleware interceptChunked isKnownNonTraffic pre nxt post b flusher rsStatus =
     (let w = (if interceptChunked then WithInterceptChunked b flusher rsStatus else WithIntercept b flusher rsStatus)
      in case run_ops (pre @ nxt) w of
           None \<Rightarrow> None
         | Some w \<Rightarrow>
             (let w = (if \<not> isKnownNonTraffic then w\<lparr>rsStatusCode := irStatusCode w\<rparr> else w);
                  w = (if rsStatusCode w = 0 then w\<lparr>rsStatusCode := 200\<rparr> else w)
              in case run_ops post w of None \<Rightarrow> None | Some w \<Rightarrow> Proceed w))"

section \<open>Lemmas\<close>

fun op_codes :: "writer_op list \<Rightarrow> int list" where
  "op_codes [] = []"
| "op_codes (OpHeader c # ops) = c # op_codes ops"
| "op_codes (OpWrite d # ops) = op_codes ops"
| "op_codes (OpFlush # ops) = op_codes ops"

fun op_data :: "writer_op list \<Rightarrow> string" where
  "op_data [] = []"
| "op_data (OpHeader c # ops) = op_data ops"
| "op_data (OpWrite d # ops) = d @ op_data ops"
| "op_data (OpFlush # ops) = op_data ops"

definition first_code :: "int \<Rightarrow> int list \<Rightarrow> int" where
  "first_code c cs = (case filter (\<lambda>c. c \<noteq> 0) (c # cs) of [] \<Rightarrow> 0 | c # _ \<Rightarrow> c)"

text \<open>A writer that holds everything back.\<close>

definition holding :: "irw \<Rightarrow> bool" where
  "holding w \<longleftrightarrow> Hold w \<and> \<not> Hijacked w \<and> (Chunked w \<longrightarrow> HoldChunked w)"

lemma holding_ops:
  "holding w \<Longrightarrow> HoldChunked w \<or> OpFlush \<notin> set ops \<Longrightarrow>
   \<exists>w'. run_ops ops w = Some w' \<and> holding w' \<and> irBase w' = irBase w \<and> irData w' = irData w @ op_data ops \<and>
     irStatusCode w' = first_code (irStatusCode w) (op_codes ops) \<and> Proceeded w' = Proceeded w \<and> HoldChunked w' = HoldChunked w"
proof (induction ops arbitrary: w rule: op_data.induct)
  case 1
  then show ?case by (simp add: first_code_def)
next
  case (2 c ops)
  define w1 where "w1 = (if irStatusCode w = 0 then w\<lparr>irStatusCode := c, rsStatusCode := c\<rparr> else w)"
  have "irw_WriteHeader c w = Some w1" "holding w1"
    using 2(2) by (auto simp: irw_WriteHeader_def holding_def w1_def Let_def)
  with 2(1) [of w1] 2(2,3) show ?case by (auto simp: w1_def first_code_def)
next
  case (3 d ops)
  define w1 where "w1 = w\<lparr>BodyLength := BodyLength w + int (length d), irData := irData w @ d\<rparr>"
  have "fst (irw_Write d w) = w1" "holding w1"
    using 3(2) by (auto simp: irw_Write_def holding_def w1_def Let_def)
  with 3(1) [of w1] 3(2,3) show ?case by (auto simp: w1_def)
next
  case (4 ops)
  then have "irw_Flush w = w" by (simp add: irw_Flush_def)
  with 4(1) [of w] 4(2,3) show ?case by auto
qed

text \<open>A writer that has been flushed: the status 200 is on the wire and the body is complete up to the data
  still held.\<close>

definition flushed :: "string \<Rightarrow> irw \<Rightarrow> bool" where
  "flushed d w \<longleftrightarrow> Hold w \<and> \<not> Hijacked w \<and> Chunked w \<and> \<not> HoldChunked w \<and> hasFlusher w \<and>
     \<not> bwHijacked (irBase w) \<and> wireStatus (irBase w) = Some 200 \<and> wireBody (irBase w) @ irData w = d"

lemma flushed_Write: "flushed d w \<Longrightarrow> flushed (d @ x) (fst (irw_Write x w))"
  by (auto simp: flushed_def irw_Write_def base_Write_def implicit_status_def bodyAllowed_def Let_def)

lemma flushed_ops:
  "flushed d w \<Longrightarrow> \<exists>w'. run_ops ops w = Some w' \<and> flushed (d @ op_data ops) w' \<and> Proceeded w' = Proceeded w"
proof (induction ops arbitrary: d w rule: op_data.induct)
  case (2 c ops)
  then have "flushed d (if irStatusCode w = 0 then w\<lparr>irStatusCode := c, rsStatusCode := c\<rparr> else w)"
    by (simp add: flushed_def)
  with 2 show ?case by (fastforce simp: irw_WriteHeader_def flushed_def Let_def)
next
  case (3 x ops)
  have "Proceeded (fst (irw_Write x w)) = Proceeded w"
    by (simp add: irw_Write_def Let_def split: prod.splits option.splits)
  with 3 flushed_Write [of d w x] show ?case by fastforce
next
  case (4 ops)
  then have "flushed d (irw_Flush w) \<and> Proceeded (irw_Flush w) = Proceeded w"
    by (simp add: flushed_def irw_Flush_def SetChunked_def base_Flush_def implicit_status_def)
  with 4 show ?case by fastforce
qed simp

lemma run_ops_flusher: "run_ops ops w = Some w' \<Longrightarrow> hasFlusher w' = hasFlusher w"
proof (induction ops w rule: run_ops.induct)
  case (2 c ops w)
  then show ?case by (auto simp: irw_WriteHeader_def Let_def split: option.splits if_splits)
next
  case (3 d ops w)
  then show ?case by (auto simp: irw_Write_def Let_def split: prod.splits option.splits if_splits)
next
  case (4 ops w)
  then show ?case by (auto simp: irw_Flush_def SetChunked_def Let_def split: if_splits)
qed simp

lemma run_ops_append: "run_ops (xs @ ys) w = (case run_ops xs w of None \<Rightarrow> None | Some w' \<Rightarrow> run_ops ys w')"
  by (induction xs w rule: run_ops.induct) (auto split: option.splits)

section \<open>Properties\<close>

text \<open>C39: a response that is held reaches the wire as the handlers meant it. The status is the first
  one that a handler wrote, or 200, and the body is everything that was written, in order; flushing
  has no effect when the chunks are held too. Nothing is on the wire before \<open>Proceed\<close>.\<close>

theorem intercept_held:
  assumes "HoldChunked w \<or> OpFlush \<notin> set ops" and "holding w" and "irBase w = new_base"
    and "irStatusCode w = 0" and "irData w = []" and "\<not> Proceeded w"
    and "code = first_code 0 (op_codes ops)" and "code = 0 \<or> 200 \<le> code \<and> code \<le> 999 \<and> bodyAllowed code"
  shows "\<exists>w1 w2. run_ops ops w = Some w1 \<and> irBase w1 = new_base \<and> Proceed w1 = Some w2 \<and>
     wireStatus (irBase w2) = Some (if code = 0 then 200 else code) \<and> wireBody (irBase w2) = op_data ops"
proof -
  from holding_ops [OF assms(2,1)] assms(3-7) obtain w1 where
    1: "run_ops ops w = Some w1" "holding w1" "irBase w1 = new_base" "irData w1 = op_data ops"
      "irStatusCode w1 = code" "\<not> Proceeded w1" by auto
  then have "\<exists>w2. Proceed w1 = Some w2 \<and> wireStatus (irBase w2) = Some (if code = 0 then 200 else code) \<and>
      wireBody (irBase w2) = op_data ops"
    using assms(8)
    by (auto simp: Proceed_def holding_def base_WriteHeader_def base_Write_def implicit_status_def new_base_def
        bodyAllowed_def Let_def)
  with 1 show ?thesis by blast
qed

theorem intercept_held_witness:
  "\<exists>w1 w2. run_ops [OpWrite ''a'', OpHeader 503, OpHeader 200, OpWrite ''b''] (WithIntercept new_base True 0) = Some w1 \<and>
     irBase w1 = new_base \<and> Proceed w1 = Some w2 \<and> wireStatus (irBase w2) = Some 503 \<and> wireBody (irBase w2) = ''ab''"
  using intercept_held [of "WithIntercept new_base True 0" "[OpWrite ''a'', OpHeader 503, OpHeader 200, OpWrite ''b'']" 503]
  by (simp add: WithIntercept_def NewInterceptResponseWriter_def holding_def first_code_def bodyAllowed_def)

text \<open>A flush loses the status. When the chunks are not held, a response that is flushed is sent with
  status 200 even if a handler wrote another status before the flush; the body is complete.\<close>

theorem intercept_flush_loses_status:
  assumes "holding w" and "\<not> HoldChunked w" and "\<not> Chunked w" and "hasFlusher w" and "irBase w = new_base"
    and "irData w = []" and "\<not> Proceeded w" and "OpFlush \<notin> set ops"
  shows "\<exists>w1 w2. run_ops (ops @ OpFlush # ops') w = Some w1 \<and> Proceed w1 = Some w2 \<and>
     wireStatus (irBase w2) = Some 200 \<and> wireBody (irBase w2) = op_data ops @ op_data ops'"
proof -
  have "\<exists>w1. run_ops ops w = Some w1 \<and> holding w1 \<and> irBase w1 = new_base \<and> irData w1 = op_data ops \<and>
      \<not> Proceeded w1 \<and> \<not> HoldChunked w1 \<and> hasFlusher w1 = hasFlusher w"
  proof -
    from holding_ops [OF assms(1), of ops] assms run_ops_flusher show ?thesis by fastforce
  qed
  then obtain w1 where 1: "run_ops ops w = Some w1" "holding w1" "irBase w1 = new_base" "irData w1 = op_data ops"
    "\<not> Proceeded w1" "\<not> HoldChunked w1" "hasFlusher w1"
    using assms(4) by blast
  then have "flushed (op_data ops) (irw_Flush w1)" "\<not> Proceeded (irw_Flush w1)"
    by (auto simp: flushed_def irw_Flush_def SetChunked_def base_Flush_def implicit_status_def holding_def new_base_def Let_def)
  with flushed_ops [of "op_data ops" "irw_Flush w1" ops'] obtain w2 where
    2: "run_ops ops' (irw_Flush w1) = Some w2" "flushed (op_data ops @ op_data ops') w2" "\<not> Proceeded w2" by auto
  then have "\<exists>w3. Proceed w2 = Some w3 \<and> wireStatus (irBase w3) = Some 200 \<and>
      wireBody (irBase w3) = op_data ops @ op_data ops'"
    by (auto simp: flushed_def Proceed_def base_WriteHeader_def base_Write_def implicit_status_def bodyAllowed_def Let_def)
  with 1 2 show ?thesis by (simp add: run_ops_append)
qed

theorem intercept_flush_loses_status_witness:
  "\<exists>w1 w2. run_ops ([OpHeader 503, OpWrite ''a''] @ OpFlush # [OpWrite ''b'']) (WithIntercept new_base True 0) = Some w1 \<and>
     Proceed w1 = Some w2 \<and> wireStatus (irBase w2) = Some 200 \<and> wireBody (irBase w2) = ''ab''"
  using intercept_flush_loses_status [of "WithIntercept new_base True 0" "[OpHeader 503, OpWrite ''a'']" "[OpWrite ''b'']"]
  by (simp add: WithIntercept_def NewInterceptResponseWriter_def holding_def)

end
