(* ===== verification/Trigger.thy ===== *)
theory Trigger
  imports Util_Params Util_Headers
begin

text \<open>
  Response triggers: \<open>pkg/server/response/trigger/trigger.go\<close>. A trigger target is matched against the
  request and the status of each response, and when its match count is in its window the target is
  invoked. A compiled expression is the predicate it stands for; \<open>route\<close> is
  \<open>util.GetURIRegexpAndRoute\<close> (the final URI and its expression, or an error); the decoded JSON body
  and the validation of the invocation are arguments; \<open>invoke\<close> gives the names and the statuses that
  an invocation reports, or \<open>None\<close> when it cannot be registered. \<open>allTriggerTargets\<close> holds
  pointers to the targets of the ports: it is kept as the port that owns the target of a name.
\<close>

type_synonym trigger_re = "string \<Rightarrow> bool"

record trigger_http_target =
  thtMethod :: string
  thtURL :: string
  thtHeaders :: "(string, string) gomap"
  thtBody :: string
  thtSendID :: bool

record trigger_target =
  ttName :: string
  HTTPTarget :: "trigger_http_target option"
  ttPipe :: bool
  PipeCallbacks :: "string list"
  ttEnabled :: bool
  TriggerURIs :: "string list"
  TriggerHeaders :: "(string, string) gomap"
  TriggerStatuses :: "int list"
  StartFrom :: int
  StopAt :: int
  MatchCount :: int
  TriggerCount :: int
  triggerURIRegexps :: "(string, trigger_re) gomap"

record trigger =
  trgTargets :: "(string, trigger_target) gomap"
  TargetsByURIs :: "(string, string list) gomap"
  TargetsByHeaders :: "(string, (string, string list) gomap) gomap"
  TargetsByStatus :: "(int, string list) gomap"
  TriggerResults :: "(string, (int, int) gomap) gomap"

record trigger_state =
  portTriggers :: "(string, trigger) gomap"
  allTriggerTargets :: "(string, string) gomap"

definition new_trigger :: trigger where
  "new_trigger = \<lparr>trgTargets = [], TargetsByURIs = [], TargetsByHeaders = [], TargetsByStatus = [], TriggerResults = []\<rparr>"

definition getPortTrigger :: "request \<Rightarrow> trigger_state \<Rightarrow> trigger_state \<times> trigger" where
  "getPortTrigger r st =
     (case mget (portTriggers st) (reqPort r) of
        Some t \<Rightarrow> (st, t)
      | None \<Rightarrow> (st\<lparr>portTriggers := mput (reqPort r) new_trigger (portTriggers st)\<rparr>, new_trigger))"

section \<open>Deleting a target\<close>

text \<open>
  The loop \<open>for i, name := range targets { if name == targetName { targets = append(targets[:i],
  targets[i+1:]...) } }\<close>. The range is over the slice as it was before the loop, of length \<open>n\<close>, while
  \<open>append\<close> shifts the elements of the array that both slices share: \<open>arr\<close> is that array and \<open>m\<close>
  the length of \<open>targets\<close>. \<open>targets[i+1:]\<close> panics when \<open>i + 1\<close> is beyond \<open>m\<close>.
\<close>

function del_loop :: "string \<Rightarrow> nat \<Rightarrow> nat \<Rightarrow> string list \<Rightarrow> nat \<Rightarrow> (string list \<times> nat) option" where
  "del_loop targetName n i arr m =
     (if i < n then
        (if arr ! i = targetName then
           (if m < i + 1 then None
            else del_loop targetName n (i + 1)
                   (take i arr @ take (m - (i + 1)) (drop (i + 1) arr) @ drop (m - 1) arr) (m - 1))
         else del_loop targetName n (i + 1) arr m)
      else Some (arr, m))"
  by pat_completeness auto
termination by (relation "measure (\<lambda>(_, n, i, _, _). n - i)") auto

declare del_loop.simps [simp del]

definition delete_from_slice :: "string \<Rightarrow> string list \<Rightarrow> (string list \<times> nat) option" where
  "delete_from_slice targetName targets = del_loop targetName (length targets) 0 targets (length targets)"

text \<open>The slices by URI and by status are stored back with their new length.\<close>

fun prune_slices :: "string \<Rightarrow> ('k, string list) gomap \<Rightarrow> ('k, string list) gomap option" where
  "prune_slices targetName [] = Some []"
| "prune_slices targetName ((k, targets) # m) =
     (case delete_from_slice targetName targets of
        None \<Rightarrow> None
      | Some (arr, l) \<Rightarrow>
          map_option (\<lambda>m'. if l = 0 then m' else (k, take l arr) # m') (prune_slices targetName m))"

text \<open>The slices by header value are not: the map keeps the old slice, whose array has been shifted.\<close>

fun prune_values :: "string \<Rightarrow> (string, string list) gomap \<Rightarrow> (string, string list) gomap option" where
  "prune_values targetName [] = Some []"
| "prune_values targetName ((hv, targets) # m) =
     (case delete_from_slice targetName targets of
        None \<Rightarrow> None
      | Some (arr, l) \<Rightarrow>
          map_option (\<lambda>m'. if l = 0 then m' else (hv, arr) # m') (prune_values targetName m))"

fun prune_headers ::
  "string \<Rightarrow> (string, (string, string list) gomap) gomap \<Rightarrow> (string, (string, string list) gomap) gomap option" where
  "prune_headers targetName [] = Some []"
| "prune_headers targetName ((h, hvTargets) # m) =
     (case prune_values targetName hvTargets of
        None \<Rightarrow> None
      | Some hvTargets' \<Rightarrow>
          map_option (\<lambda>m'. if hvTargets' = [] then m' else (h, hvTargets') # m') (prune_headers targetName m))"

definition deleteTrigger :: "string \<Rightarrow> trigger \<Rightarrow> trigger option" where
  "deleteTrigger targetName t =
     (case prune_slices targetName (TargetsByURIs t) of
        None \<Rightarrow> None
      | Some uris \<Rightarrow>
          (case prune_headers targetName (TargetsByHeaders t) of
             None \<Rightarrow> None
           | Some hs \<Rightarrow>
               (case prune_slices targetName (TargetsByStatus t) of
                  None \<Rightarrow> None
                | Some ss \<Rightarrow>
                    Some (t\<lparr>trgTargets := mdel targetName (trgTargets t), TargetsByURIs := uris,
                             TargetsByHeaders := hs, TargetsByStatus := ss\<rparr>))))"

section \<open>Adding a target\<close>

definition append_at :: "'k \<Rightarrow> string \<Rightarrow> ('k, string list) gomap \<Rightarrow> ('k, string list) gomap" where
  "append_at k n m = mput k (mget_or [] m k @ [n]) m"

definition index_target :: "(string \<Rightarrow> (string \<times> trigger_re) option) \<Rightarrow> trigger_target \<Rightarrow> trigger \<Rightarrow> trigger" where
  "index_target route tt t =
     (if TriggerURIs tt \<noteq> [] then
        (let routes = concat (map (\<lambda>uri. case route uri of Some p \<Rightarrow> [p] | None \<Rightarrow> []) (TriggerURIs tt));
             tt = tt\<lparr>triggerURIRegexps := fold (\<lambda>(u, re) m. mput u re m) routes []\<rparr>
         in t\<lparr>trgTargets := mput (ttName tt) tt (trgTargets t),
              TargetsByURIs := fold (\<lambda>(u, re) m. append_at u (ttName tt) m) routes (TargetsByURIs t)\<rparr>)
      else
        let t = t\<lparr>trgTargets := mput (ttName tt) tt (trgTargets t)\<rparr> in
        if TriggerHeaders tt \<noteq> [] then
          t\<lparr>TargetsByHeaders :=
              fold (\<lambda>(h, hv) m. mput h (append_at hv (ttName tt) (mget_or [] m h)) m)
                (TriggerHeaders tt) (TargetsByHeaders t)\<rparr>
        else if TriggerStatuses tt \<noteq> [] then
          t\<lparr>TargetsByStatus := fold (\<lambda>s m. append_at s (ttName tt) m) (TriggerStatuses tt) (TargetsByStatus t)\<rparr>
        else t)"

definition addTrigger ::
  "(string \<Rightarrow> (string \<times> trigger_re) option) \<Rightarrow> (trigger_target \<Rightarrow> bool) \<Rightarrow> trigger_target option \<Rightarrow> request \<Rightarrow>
   trigger_state \<Rightarrow> (trigger_state \<times> http_out) option" where
  "addTrigger route valid body r st0 =
     (let (st, t) = getPortTrigger r st0 in
      case body of
        None \<Rightarrow> Some (st, WriteHeader 400 no_out)
      | Some tt \<Rightarrow>
          (if HTTPTarget tt \<noteq> None \<and> \<not> valid tt then Some (st, WriteHeader 400 no_out)
           else
             case deleteTrigger (ttName tt) t of
               None \<Rightarrow> None
             | Some t \<Rightarrow>
                 Some (st\<lparr>portTriggers := mput (reqPort r) (index_target route tt t) (portTriggers st),
                          allTriggerTargets := mput (ttName tt) (reqPort r) (allTriggerTargets st)\<rparr>,
                       SendEvent ''Trigger Added'' (WriteHeader 200 no_out))))"

definition getRequestedTrigger :: "request \<Rightarrow> trigger \<Rightarrow> trigger_target option" where
  "getRequestedTrigger r t =
     (case GetStringParam r ''trigger'' None of
        (n, True) \<Rightarrow> mget (trgTargets t) n | (n, False) \<Rightarrow> None)"

definition removeTrigger :: "request \<Rightarrow> trigger_state \<Rightarrow> (trigger_state \<times> http_out) option" where
  "removeTrigger r st0 =
     (let (st, t) = getPortTrigger r st0 in
      case getRequestedTrigger r t of
        None \<Rightarrow> Some (st, WriteHeader 400 no_out)
      | Some tt \<Rightarrow>
          map_option (\<lambda>t.
            (st\<lparr>portTriggers := mput (reqPort r) t (portTriggers st),
                allTriggerTargets := mdel (ttName tt) (allTriggerTargets st)\<rparr>,
             SendEvent ''Trigger Removed'' (WriteHeader 200 no_out))) (deleteTrigger (ttName tt) t))"

definition upd_target :: "string \<Rightarrow> (trigger_target \<Rightarrow> trigger_target) \<Rightarrow> trigger \<Rightarrow> trigger" where
  "upd_target n f t =
     (case mget (trgTargets t) n of None \<Rightarrow> t | Some tt \<Rightarrow> t\<lparr>trgTargets := mput n (f tt) (trgTargets t)\<rparr>)"

definition enableOrDisableTrigger :: "request \<Rightarrow> trigger_state \<Rightarrow> trigger_state \<times> http_out" where
  "enableOrDisableTrigger r st0 =
     (let (st, t) = getPortTrigger r st0;
          n = GetStringParamValue r ''trigger'' None;
          enable = Contains (RequestURI r) ''enable''
      in case getRequestedTrigger r t of
           None \<Rightarrow> (st, WriteHeader 400 no_out)
         | Some tt \<Rightarrow>
             (st\<lparr>portTriggers := mput (reqPort r) (upd_target n (\<lambda>tt. tt\<lparr>ttEnabled := enable\<rparr>) t) (portTriggers st)\<rparr>,
              SendEvent ''Trigger Enabled/Disabled'' (WriteHeader 200 no_out)))"

definition clearTriggers :: "request \<Rightarrow> trigger_state \<Rightarrow> trigger_state \<times> http_out" where
  "clearTriggers r st =
     (let names = (case mget (portTriggers st) (reqPort r) of None \<Rightarrow> [] | Some t \<Rightarrow> map fst (trgTargets t))
      in (st\<lparr>portTriggers := mput (reqPort r) new_trigger (portTriggers st),
             allTriggerTargets := fold mdel names (allTriggerTargets st)\<rparr>,
          SendEvent ''Triggers Cleared'' (WriteHeader 200 no_out)))"

definition RegisterPipeCallback :: "string \<Rightarrow> string \<Rightarrow> trigger_state \<Rightarrow> trigger_state" where
  "RegisterPipeCallback target pipe st =
     (case mget (allTriggerTargets st) target of
        None \<Rightarrow> st
      | Some port \<Rightarrow>
          (case mget (portTriggers st) port of
             None \<Rightarrow> st
           | Some t \<Rightarrow>
               st\<lparr>portTriggers := mput port
                    (upd_target target (\<lambda>tt. tt\<lparr>PipeCallbacks := List.insert pipe (PipeCallbacks tt)\<rparr>) t)
                    (portTriggers st)\<rparr>))"

section \<open>Matching\<close>

definition uri_triggered :: "request \<Rightarrow> int \<Rightarrow> trigger_target \<Rightarrow> bool" where
  "uri_triggered r statusCode tt \<longleftrightarrow>
     list_ex (\<lambda>(u, re). re (ToLower (RequestURI r)) \<and>
        (TriggerStatuses tt \<noteq> [] \<longrightarrow> statusCode \<in> set (TriggerStatuses tt)) \<and>
        (TriggerHeaders tt \<noteq> [] \<longrightarrow> MatchAllHeaders (reqHeaders r) (TriggerHeaders tt))) (triggerURIRegexps tt)"

definition status_triggered :: "request \<Rightarrow> trigger_target \<Rightarrow> bool" where
  "status_triggered r tt \<longleftrightarrow>
     (TriggerHeaders tt \<noteq> [] \<longrightarrow> MatchAllHeaders (reqHeaders r) (TriggerHeaders tt))"

definition present_and :: "(trigger_target \<Rightarrow> bool) \<Rightarrow> trigger \<Rightarrow> string \<Rightarrow> bool" where
  "present_and p t n = (case mget (trgTargets t) n of None \<Rightarrow> False | Some tt \<Rightarrow> p tt)"

text \<open>The names of the targets that the three searches collect, each once.\<close>

definition matched_names :: "request \<Rightarrow> int \<Rightarrow> trigger \<Rightarrow> string list" where
  "matched_names r statusCode t =
     (let by_uri = filter (present_and (uri_triggered r statusCode) t) (concat (map snd (TargetsByURIs t)));
          by_status = filter (present_and (status_triggered r) t) (mget_or [] (TargetsByStatus t) statusCode);
          by_header = (case GetIfAnyHeaderMatched (reqHeaders r) (TargetsByHeaders t) of
                         None \<Rightarrow> [] | Some names \<Rightarrow> filter (present_and (\<lambda>tt. True) t) names)
      in remdups (by_uri @ by_status @ by_header))"

definition in_window :: "trigger_target \<Rightarrow> bool" where
  "in_window tt \<longleftrightarrow>
     ttEnabled tt \<and> StartFrom tt \<le> MatchCount tt \<and> (StopAt tt = 0 \<or> MatchCount tt \<le> StopAt tt)"

definition count_match :: "string \<Rightarrow> trigger \<Rightarrow> trigger" where
  "count_match n t = upd_target n (\<lambda>tt. tt\<lparr>MatchCount := MatchCount tt + 1\<rparr>) t"

definition findMatchingTriggers :: "request \<Rightarrow> int \<Rightarrow> trigger \<Rightarrow> trigger \<times> string list \<times> string list" where
  "findMatchingTriggers r statusCode t =
     (let names = matched_names r statusCode t;
          t = fold count_match names t;
          fired = filter (present_and in_window t) names
      in (t, filter (present_and (\<lambda>tt. HTTPTarget tt \<noteq> None) t) fired, filter (present_and ttPipe t) fired))"

section \<open>Invoking\<close>

definition capture_key :: "string \<Rightarrow> string" where
  "capture_key hv = rev (dropWhile (\<lambda>c. c = CHR ''}'') (rev (dropWhile (\<lambda>c. c = CHR ''{'') hv)))"

definition prepareTargetHeaders ::
  "(header_map \<Rightarrow> string) \<Rightarrow> request \<Rightarrow> header_map \<Rightarrow> trigger_http_target \<Rightarrow> (string, string) gomap" where
  "prepareTargetHeaders ToJSONText r respHeaders ht =
     map (\<lambda>(h, hv).
       (h, if HasPrefix hv ''{'' \<and> HasSuffix hv ''}'' then
             (if EqualFold (capture_key hv) ''request.uri'' then RequestURI r
              else if EqualFold (capture_key hv) ''request.headers'' then ToJSONText (reqHeaders r)
              else if header_Get respHeaders (capture_key hv) \<noteq> [] then header_Get respHeaders (capture_key hv)
              else hv)
           else hv)) (thtHeaders ht)"

definition count_trigger :: "string \<Rightarrow> trigger \<Rightarrow> trigger" where
  "count_trigger n t = upd_target n (\<lambda>tt. tt\<lparr>TriggerCount := TriggerCount tt + 1\<rparr>) t"

definition count_result :: "string \<times> int \<Rightarrow> trigger \<Rightarrow> trigger" where
  "count_result = (\<lambda>(n, code) t.
     let code = (if code = 0 then 503 else code)
     in t\<lparr>TriggerResults := mput n (mbump code (mget_or [] (TriggerResults t) n)) (TriggerResults t)\<rparr>)"

definition invokeHTTPTargets ::
  "(string \<Rightarrow> (string \<times> int) list option) \<Rightarrow> string list \<Rightarrow> trigger \<Rightarrow> trigger \<times> (string \<times> int) list" where
  "invokeHTTPTargets invoke targets t =
     (let responses = concat (map (\<lambda>n. case invoke n of None \<Rightarrow> [] | Some rs \<Rightarrow> rs) targets)
      in (fold count_result responses (fold count_trigger targets t), responses))"

definition invokePipeSources :: "string list \<Rightarrow> trigger \<Rightarrow> trigger \<times> (string \<times> string) list" where
  "invokePipeSources sources t =
     (fold count_trigger sources t,
      concat (map (\<lambda>n. case mget (trgTargets t) n of
                         None \<Rightarrow> [] | Some tt \<Rightarrow> map (\<lambda>source. (n, source)) (PipeCallbacks tt)) sources))"

text \<open>The two goroutines of \<open>RunTriggers\<close> change different fields or the same counter by addition, so
  their order does not matter; they are run one after the other.\<close>

definition RunTriggers ::
  "(string \<Rightarrow> (string \<times> int) list option) \<Rightarrow> bool \<Rightarrow> int \<Rightarrow> request \<Rightarrow> trigger_state \<Rightarrow> trigger_state" where
  "RunTriggers invoke isMetricsRequest statusCode r st0 =
     (if IsAdminRequest r \<or> isMetricsRequest then st0
      else
        let (st, t) = getPortTrigger r st0;
            (t, httpTargets, pipeSources) = findMatchingTriggers r statusCode t;
            t = fst (invokeHTTPTargets invoke httpTargets t);
            t = fst (invokePipeSources pipeSources t)
        in st\<lparr>portTriggers := mput (reqPort r) t (portTriggers st)\<rparr>)"

definition getRequestedTriggers :: "request \<Rightarrow> trigger \<Rightarrow> string list" where
  "getRequestedTriggers r t =
     (case GetStringParam r ''triggers'' None of
        (n, True) \<Rightarrow> remdups (filter (\<lambda>n. mget (trgTargets t) n \<noteq> None) (split_on CHR '','' n))
      | (n, False) \<Rightarrow> map fst (trgTargets t))"

definition invokeTriggers ::
  "(string \<Rightarrow> (string \<times> int) list option) \<Rightarrow> request \<Rightarrow> trigger_state \<Rightarrow> trigger_state \<times> http_out" where
  "invokeTriggers invoke r st0 =
     (let (st, t) = getPortTrigger r st0;
          targets = getRequestedTriggers r t
      in if targets \<noteq> [] then
           (let t1 = fst (invokeHTTPTargets invoke (filter (present_and (\<lambda>tt. HTTPTarget tt \<noteq> None) t) targets) t);
                t2 = fst (invokePipeSources (filter (present_and ttPipe t) targets) t1)
            in (st\<lparr>portTriggers := mput (reqPort r) t2 (portTriggers st)\<rparr>, WriteHeader 200 no_out))
         else (st, WriteHeader 404 no_out))"

section \<open>Lemmas on deletion\<close>

lemma del_loop_none: "\<forall>j. i \<le> j \<and> j < n \<longrightarrow> arr ! j \<noteq> name \<Longrightarrow> del_loop name n i arr m = Some (arr, m)"
proof (induction "n - i" arbitrary: i)
  case 0
  then show ?case by (subst del_loop.simps) simp
next
  case (Suc d)
  then have "del_loop name n (i + 1) arr m = Some (arr, m)" by simp
  with Suc.prems show ?case by (subst del_loop.simps) simp
qed

lemma del_loop_skip:
  "name \<notin> set xs \<Longrightarrow> k + length xs \<le> n \<Longrightarrow> (\<forall>j < length xs. arr ! (k + j) = xs ! j) \<Longrightarrow>
   del_loop name n k arr m = del_loop name n (k + length xs) arr m"
proof (induction xs arbitrary: k)
  case (Cons x xs)
  from Cons.prems(3) have "\<forall>j < length xs. arr ! (Suc k + j) = xs ! j" by fastforce
  moreover from Cons.prems(3) have "arr ! k = x" by fastforce
  ultimately show ?case using Cons.IH [of "Suc k"] Cons.prems(1,2) by (subst del_loop.simps) auto
qed simp

lemma del_loop_hit:
  "name \<notin> set as \<Longrightarrow> n = length (as @ name # bs) \<Longrightarrow>
   del_loop name n 0 (as @ name # bs) n =
   del_loop name n (length as + 1) (as @ bs @ [last (name # bs)]) (n - 1)"
proof -
  assume a: "name \<notin> set as" and n: "n = length (as @ name # bs)"
  have "del_loop name n 0 (as @ name # bs) n = del_loop name n (0 + length as) (as @ name # bs) n"
    using a n by (intro del_loop_skip) (auto simp: nth_append)
  moreover have "drop (length as + length bs) (as @ name # bs) = [last (name # bs)]"
    by (cases bs rule: rev_cases) auto
  moreover have "del_loop name n (0 + length as) (as @ name # bs) n =
      del_loop name n (length as + 1)
        (as @ take (n - (length as + 1)) bs @ drop (length as + length bs) (as @ name # bs)) (n - 1)"
    using n by (subst del_loop.simps) (simp add: nth_append)
  ultimately show ?thesis using n by simp
qed

lemma delete_from_slice_absent: "name \<notin> set xs \<Longrightarrow> delete_from_slice name xs = Some (xs, length xs)"
  unfolding delete_from_slice_def by (rule del_loop_none) (metis nth_mem)

lemma delete_from_slice_unique:
  assumes "name \<notin> set as" and "name \<notin> set bs"
  shows "delete_from_slice name (as @ name # bs) = Some (as @ bs @ [last (name # bs)], length as + length bs)"
proof -
  have "del_loop name (length (as @ name # bs)) (length as + 1) (as @ bs @ [last (name # bs)]) (length (as @ name # bs) - 1) =
      Some (as @ bs @ [last (name # bs)], length (as @ name # bs) - 1)"
  proof (rule del_loop_none, intro allI impI)
    fix j assume j: "length as + 1 \<le> j \<and> j < length (as @ name # bs)"
    then have "bs \<noteq> []" by auto
    then have "(as @ bs @ [last (name # bs)]) ! j \<in> set bs"
      using j by (auto simp: nth_append)
    with assms(2) show "(as @ bs @ [last (name # bs)]) ! j \<noteq> name" by auto
  qed
  with del_loop_hit [OF assms(1) refl, of bs] show ?thesis by (simp add: delete_from_slice_def)
qed

lemma delete_from_slice_twice:
  assumes "name \<notin> set xs"
  shows "delete_from_slice name (xs @ [name, name]) = None"
proof -
  have "del_loop name (length xs + 2) (length xs + 1) (xs @ [name] @ [name]) (length xs + 1) = None"
    by (subst del_loop.simps) (simp add: nth_append)
  with del_loop_hit [OF assms refl, of "[name]"] show ?thesis by (simp add: delete_from_slice_def)
qed

lemma prune_slices_none: "(k, xs) \<in> set m \<Longrightarrow> delete_from_slice name xs = None \<Longrightarrow> prune_slices name m = None"
  by (induction name m rule: prune_slices.induct) (auto split: option.splits)

lemma prune_values_none: "(k, xs) \<in> set m \<Longrightarrow> delete_from_slice name xs = None \<Longrightarrow> prune_values name m = None"
  by (induction name m rule: prune_values.induct) (auto split: option.splits)

lemma prune_headers_none: "(h, m) \<in> set hs \<Longrightarrow> prune_values name m = None \<Longrightarrow> prune_headers name hs = None"
  by (induction name hs rule: prune_headers.induct) (auto split: option.splits)

lemma prune_values_get:
  "prune_values name m = Some m' \<Longrightarrow> mget m hv = Some xs \<Longrightarrow> delete_from_slice name xs = Some (arr, l) \<Longrightarrow> l \<noteq> 0 \<Longrightarrow>
   (hv, arr) \<in> set m'"
  by (induction name m arbitrary: m' rule: prune_values.induct) (auto split: option.splits if_splits)

lemma prune_headers_get:
  "prune_headers name hs = Some hs' \<Longrightarrow> mget hs h = Some m \<Longrightarrow>
   \<exists>m'. prune_values name m = Some m' \<and> (m' \<noteq> [] \<longrightarrow> (h, m') \<in> set hs')"
  by (induction name hs arbitrary: hs' rule: prune_headers.induct) (auto split: option.splits if_splits)

section \<open>Lemmas on matching\<close>

lemma count_match_index [simp]:
  "TargetsByURIs (count_match n t) = TargetsByURIs t" "TargetsByHeaders (count_match n t) = TargetsByHeaders t"
  "TargetsByStatus (count_match n t) = TargetsByStatus t"
  by (auto simp: count_match_def upd_target_def split: option.splits)

lemma count_match_get:
  "mget (trgTargets (count_match n t)) k =
     map_option (\<lambda>tt. if k = n then tt\<lparr>MatchCount := MatchCount tt + 1\<rparr> else tt) (mget (trgTargets t) k)"
  by (cases "mget (trgTargets t) k") (auto simp: count_match_def upd_target_def split: option.splits)

lemma fold_count_match_index [simp]:
  "TargetsByURIs (fold count_match ns t) = TargetsByURIs t" "TargetsByHeaders (fold count_match ns t) = TargetsByHeaders t"
  "TargetsByStatus (fold count_match ns t) = TargetsByStatus t"
  by (induction ns arbitrary: t) auto

lemma fold_count_match_get:
  "distinct ns \<Longrightarrow> mget (trgTargets (fold count_match ns t)) k =
     map_option (\<lambda>tt. if k \<in> set ns then tt\<lparr>MatchCount := MatchCount tt + 1\<rparr> else tt) (mget (trgTargets t) k)"
  by (induction ns arbitrary: t) (auto simp: count_match_get option.map_comp o_def option.map_ident intro!: option.map_cong)

lemma present_and_count:
  "(\<And>tt c. p (tt\<lparr>MatchCount := c\<rparr>) = p tt) \<Longrightarrow> distinct ns \<Longrightarrow>
   present_and p (fold count_match ns t) n = present_and p t n"
  by (auto simp: present_and_def fold_count_match_get split: option.splits)

lemma matched_names_distinct: "distinct (matched_names r sc t)"
  by (simp add: matched_names_def Let_def)

lemma matched_names_count:
  assumes "distinct ns" shows "matched_names r sc (fold count_match ns t) = matched_names r sc t"
proof -
  have 1: "present_and (uri_triggered r sc) (fold count_match ns t) = present_and (uri_triggered r sc) t"
    "present_and (status_triggered r) (fold count_match ns t) = present_and (status_triggered r) t"
    "present_and (\<lambda>tt. True) (fold count_match ns t) = present_and (\<lambda>tt. True) t"
    using assms by (auto intro!: ext present_and_count simp: uri_triggered_def status_triggered_def)
  show ?thesis by (simp only: matched_names_def 1 fold_count_match_index)
qed

text \<open>A sequence of responses, with the HTTP targets that each one fires.\<close>

fun run_matching :: "(request \<times> int) list \<Rightarrow> trigger \<Rightarrow> trigger \<times> string list list" where
  "run_matching [] t = (t, [])"
| "run_matching ((r, sc) # xs) t =
     (let (t1, fired, pipes) = findMatchingTriggers r sc t; (t2, rest) = run_matching xs t1 in (t2, fired # rest))"

definition window_at :: "trigger_target \<Rightarrow> int \<Rightarrow> bool" where
  "window_at tt c \<longleftrightarrow> StartFrom tt \<le> c \<and> (StopAt tt = 0 \<or> c \<le> StopAt tt)"

lemma findMatching_step:
  assumes "mget (trgTargets t) name = Some tt" and "name \<in> set (matched_names r sc t)"
    and "HTTPTarget tt \<noteq> None" and "ttEnabled tt"
    and "findMatchingTriggers r sc t = (t1, fired, pipes)"
  shows "mget (trgTargets t1) name = Some (tt\<lparr>MatchCount := MatchCount tt + 1\<rparr>)"
    and "name \<in> set fired \<longleftrightarrow> window_at tt (MatchCount tt + 1)"
    and "matched_names r' sc' t1 = matched_names r' sc' t"
  using assms fold_count_match_get [OF matched_names_distinct, of r sc t t name]
  by (auto simp: findMatchingTriggers_def Let_def present_and_def in_window_def window_at_def
      matched_names_count [OF matched_names_distinct])

lemma run_matching_window:
  "mget (trgTargets t) name = Some tt \<Longrightarrow> \<forall>(r, sc) \<in> set xs. name \<in> set (matched_names r sc t) \<Longrightarrow>
   HTTPTarget tt \<noteq> None \<Longrightarrow> ttEnabled tt \<Longrightarrow>
   map (\<lambda>fired. name \<in> set fired) (snd (run_matching xs t)) =
     map (\<lambda>k. window_at tt (MatchCount tt + 1 + int k)) [0..<length xs]"
proof (induction xs arbitrary: t tt)
  case (Cons x xs)
  obtain r sc where x: "x = (r, sc)" by (cases x)
  obtain t1 fired pipes where f: "findMatchingTriggers r sc t = (t1, fired, pipes)" by (metis prod_cases3)
  let ?tt = "tt\<lparr>MatchCount := MatchCount tt + 1\<rparr>"
  note step = findMatching_step [OF Cons.prems(1) _ Cons.prems(3,4) f]
  have m: "name \<in> set (matched_names r sc t)" using Cons.prems(2) x by auto
  have "map (\<lambda>fired. name \<in> set fired) (snd (run_matching xs t1)) =
      map (\<lambda>k. window_at ?tt (MatchCount ?tt + 1 + int k)) [0..<length xs]"
    using Cons.prems step [OF m] by (intro Cons.IH) auto
  also have "\<dots> = map (\<lambda>k. window_at tt (MatchCount tt + 1 + int k)) [1..<Suc (length xs)]"
    by (auto simp: window_at_def map_Suc_upt [symmetric] o_def algebra_simps simp del: upt_Suc)
  finally show ?case using step(2) [OF m] x f
    by (auto simp: upt_conv_Cons Let_def simp del: upt_Suc split: prod.splits)
qed simp

section \<open>Properties\<close>

text \<open>C40: an enabled trigger that every response of a sequence matches fires exactly for the matches in its
  window: the k-th match from now fires when its number is at least \<open>StartFrom\<close> and, unless
  \<open>StopAt\<close> is 0, at most \<open>StopAt\<close>.\<close>

theorem trigger_window:
  assumes "mget (trgTargets t) name = Some tt" and "\<forall>(r, sc) \<in> set xs. name \<in> set (matched_names r sc t)"
    and "HTTPTarget tt \<noteq> None" and "ttEnabled tt" and "k < length xs"
  shows "name \<in> set (snd (run_matching xs t) ! k) \<longleftrightarrow>
    StartFrom tt \<le> MatchCount tt + 1 + int k \<and> (StopAt tt = 0 \<or> MatchCount tt + 1 + int k \<le> StopAt tt)"
proof -
  note w = run_matching_window [OF assms(1-4)]
  have "length (snd (run_matching xs t)) = length xs" using arg_cong [OF w, of length] by simp
  with arg_cong [OF w, of "\<lambda>l. l ! k"] assms(5) show ?thesis by (simp add: window_at_def)
qed

theorem trigger_window_witness:
  "\<exists>t r. ''a'' \<notin> set (snd (run_matching [(r, 500), (r, 500), (r, 500)] t) ! 0) \<and>
     ''a'' \<in> set (snd (run_matching [(r, 500), (r, 500), (r, 500)] t) ! 1) \<and>
     ''a'' \<notin> set (snd (run_matching [(r, 500), (r, 500), (r, 500)] t) ! 2)"
proof -
  define tt where "tt = \<lparr>ttName = ''a'', HTTPTarget = Some \<lparr>thtMethod = ''GET'', thtURL = [], thtHeaders = [], thtBody = [],
    thtSendID = False\<rparr>, ttPipe = False, PipeCallbacks = [], ttEnabled = True, TriggerURIs = [], TriggerHeaders = [],
    TriggerStatuses = [500], StartFrom = 2, StopAt = 2, MatchCount = 0, TriggerCount = 0, triggerURIRegexps = []\<rparr>"
  define t where "t = new_trigger\<lparr>trgTargets := [(''a'', tt)], TargetsByStatus := [(500, [''a''])]\<rparr>"
  define r where "r = \<lparr>reqPort = ''80'', reqPortNum = 80, RequestURI = ''/a'', URLPath = ''/a'', reqMethod = ''GET'',
        reqHeaders = [], reqVars = [], reqQuery = [], IsKnownNonTraffic = False, IsAdminRequest = False\<rparr>"
  have 1: "mget (trgTargets t) ''a'' = Some tt" by (simp add: t_def)
  have 2: "\<forall>(r, sc) \<in> set [(r, 500), (r, 500), (r, 500)]. ''a'' \<in> set (matched_names r sc t)"
    by (simp add: matched_names_def t_def tt_def new_trigger_def r_def present_and_def status_triggered_def mget_or_def Let_def)
  have 3: "HTTPTarget tt \<noteq> None" "ttEnabled tt" "StartFrom tt = 2" "StopAt tt = 2" "MatchCount tt = 0"
    by (simp_all add: tt_def)
  from trigger_window [OF 1 2 3(1,2), of 0] trigger_window [OF 1 2 3(1,2), of 1] trigger_window [OF 1 2 3(1,2), of 2]
  show ?thesis using 3 by (intro exI [of _ t] exI [of _ r]) simp
qed

text \<open>Deleting a name that a slice holds once removes it and keeps the order of the others, although the
  loop changes the array that it traverses.\<close>

theorem delete_from_slice_once:
  assumes "count_list xs name = 1"
  shows "\<exists>arr. delete_from_slice name xs = Some (arr, length xs - 1) \<and> take (length xs - 1) arr = remove1 name xs"
proof -
  have "name \<in> set xs" using assms count_notin [of name xs] by fastforce
  then obtain as bs where xs: "xs = as @ name # bs" "name \<notin> set as" by (meson split_list_first)
  with assms have "name \<notin> set bs" by (simp add: count_notin count_list_0_iff)
  with xs show ?thesis by (auto simp: delete_from_slice_unique remove1_append)
qed

theorem delete_from_slice_once_witness:
  "\<exists>arr. delete_from_slice ''b'' [''a'', ''b'', ''c''] = Some (arr, 2) \<and> take 2 arr = [''a'', ''c'']"
  using delete_from_slice_once [of "[''a'', ''b'', ''c'']" "''b''"] by (simp add: numeral_2_eq_2)

text \<open>A trigger that lists a status twice cannot be removed or replaced: its name is twice in the slice of
  the status, and deleting it panics with an index out of range.\<close>

theorem repeated_status_stuck:
  assumes "TriggerURIs tt = []" and "TriggerHeaders tt = []" and "TriggerStatuses tt = [s, s]"
    and "ttName tt \<notin> set (mget_or [] (TargetsByStatus t) s)"
  shows "deleteTrigger (ttName tt) (index_target route tt t) = None"
proof -
  have "mget (TargetsByStatus (index_target route tt t)) s =
      Some (mget_or [] (TargetsByStatus t) s @ [ttName tt, ttName tt])"
    using assms(1-3) by (simp add: index_target_def append_at_def Let_def)
  from mget_in_set [OF this] have "prune_slices (ttName tt) (TargetsByStatus (index_target route tt t)) = None"
    by (rule prune_slices_none) (rule delete_from_slice_twice [OF assms(4)])
  then show ?thesis by (simp add: deleteTrigger_def split: option.splits)
qed

theorem repeated_status_stuck_witness:
  "\<exists>tt. TriggerStatuses tt = [500, 500] \<and> deleteTrigger (ttName tt) (index_target (\<lambda>u. None) tt new_trigger) = None"
proof -
  define tt where "tt = \<lparr>ttName = ''a'', HTTPTarget = None, ttPipe = False, PipeCallbacks = [], ttEnabled = True,
    TriggerURIs = [], TriggerHeaders = [], TriggerStatuses = [500, 500], StartFrom = 0, StopAt = 0, MatchCount = 0,
    TriggerCount = 0, triggerURIRegexps = []\<rparr>"
  show ?thesis using repeated_status_stuck [of tt 500 new_trigger "\<lambda>u. None"]
    by (intro exI [of _ tt]) (simp add: tt_def new_trigger_def)
qed

text \<open>Of two triggers on the same header value, removing the first one damages the second. The slice
  is shifted but not stored back, so it holds the second name twice, and removing the second trigger
  panics.\<close>

theorem header_trigger_delete_damages:
  assumes "mget (TargetsByHeaders t) h = Some hvs" and "mget hvs hv = Some [a, b]" and "a \<noteq> b"
    and "deleteTrigger a t = Some t'"
  shows "deleteTrigger b t' = None"
proof -
  from assms(4) have "prune_headers a (TargetsByHeaders t) = Some (TargetsByHeaders t')"
    by (auto simp: deleteTrigger_def split: option.splits)
  from prune_headers_get [OF this assms(1)] obtain m' where
    m': "prune_values a hvs = Some m'" "m' \<noteq> [] \<longrightarrow> (h, m') \<in> set (TargetsByHeaders t')" by blast
  have "delete_from_slice a [a, b] = Some ([b, b], 1)"
    using assms(3) delete_from_slice_unique [of a "[]" "[b]"] by simp
  from prune_values_get [OF m'(1) assms(2) this] have "(hv, [b, b]) \<in> set m'" by simp
  moreover have "delete_from_slice b [b, b] = None" using delete_from_slice_twice [of b "[]"] by simp
  ultimately have "prune_values b m' = None" "m' \<noteq> []" using prune_values_none by fastforce+
  with m'(2) have "prune_headers b (TargetsByHeaders t') = None" using prune_headers_none [of h m' "TargetsByHeaders t'" b] by simp
  then show ?thesis by (simp add: deleteTrigger_def split: option.splits)
qed

theorem header_trigger_delete_damages_witness:
  "\<exists>t'. deleteTrigger ''a'' (new_trigger\<lparr>TargetsByHeaders := [(''X'', [(''1'', [''a'', ''b''])])]\<rparr>) = Some t' \<and>
     deleteTrigger ''b'' t' = None"
proof -
  let ?t = "new_trigger\<lparr>TargetsByHeaders := [(''X'', [(''1'', [''a'', ''b''])])]\<rparr>"
  have "deleteTrigger ''a'' ?t = Some (new_trigger\<lparr>TargetsByHeaders := [(''X'', [(''1'', [''b'', ''b''])])]\<rparr>)"
    using delete_from_slice_unique [of "''a''" "[]" "[''b'']"] by (simp add: deleteTrigger_def new_trigger_def)
  with header_trigger_delete_damages [OF _ _ _ this, of "''X''" "[(''1'', [''a'', ''b''])]" "''1''" "''b''"]
  show ?thesis by simp
qed

end
