(* ===== verification/Util_Tracking.thy ===== *)
theory Util_Tracking
  imports Util_Params
begin

text \<open>
  Tracking configuration: \<open>pkg/util/httpTrackingUtil.go\<close>. The texts that name the headers and the
  time buckets to track are parsed here, and the counts by key that the proxies keep are updated. A
  nil map is \<open>None\<close>.
\<close>

section \<open>Headers to track\<close>

definition add_tracking :: "string \<Rightarrow> string list \<Rightarrow> string list" where
  "add_tracking h hs = (if list_ex (EqualFold h) hs then hs else hs @ [ToLower h])"

definition ParseTrackingHeaders :: "string \<Rightarrow> string list \<times> (string, string list) gomap" where
  "ParseTrackingHeaders headers =
     fold (\<lambda>piece (tracking, cross).
         let crossHeaders = map ToLower (split_on CHR ''|'' piece);
             cross = (if 1 < length crossHeaders
                      then mput (hd crossHeaders) (mget_or [] cross (hd crossHeaders) @ tl crossHeaders) cross
                      else cross)
         in (fold add_tracking crossHeaders tracking, cross))
       (split_on CHR '','' headers) ([], [])"

definition BuildCrossHeadersMap :: "(string, string list) gomap \<Rightarrow> (string, string) gomap" where
  "BuildCrossHeadersMap crossTrackingHeaders =
     fold (\<lambda>(header, subheaders). fold (\<lambda>subheader. mput subheader header) subheaders) crossTrackingHeaders []"

section \<open>Time buckets\<close>

text \<open>The bounds of one piece: nil when a number is malformed. A piece that does not have two parts gives
  the bounds 0 and 0.\<close>

definition bucket_bounds :: "string \<Rightarrow> (int \<times> int) option" where
  "bucket_bounds piece =
     (case split_on CHR ''-'' piece of
        [l, h] \<Rightarrow>
          (case parse_int 64 l of
             (low, True) \<Rightarrow> (case parse_int 64 h of (high, True) \<Rightarrow> Some (low, high) | _ \<Rightarrow> None)
           | _ \<Rightarrow> None)
      | _ \<Rightarrow> Some (0, 0))"

fun parse_buckets :: "string list \<Rightarrow> int list list \<Rightarrow> int list list \<times> bool" where
  "parse_buckets [] buckets = (buckets, True)"
| "parse_buckets (piece # pieces) buckets =
     (case bucket_bounds piece of
        None \<Rightarrow> (buckets, False)
      | Some (low, high) \<Rightarrow>
          (if low < 0 \<or> high < 0 \<or> (low = 0 \<and> high = 0) \<or> (high \<noteq> 0 \<and> high < low) then (buckets, False)
           else parse_buckets pieces (buckets @ [[low, high]])))"

definition ParseTimeBuckets :: "string \<Rightarrow> int list list \<times> bool" where
  "ParseTimeBuckets b = parse_buckets (split_on CHR '','' b) []"

definition bucket_ok :: "int list \<Rightarrow> bool" where
  "bucket_ok tb \<longleftrightarrow> (\<exists>low high. tb = [low, high] \<and> 0 \<le> low \<and> 0 \<le> high \<and> (low \<noteq> 0 \<or> high \<noteq> 0) \<and> (high = 0 \<or> low \<le> high))"

section \<open>Counts by key\<close>

definition mbump2 :: "'a \<Rightarrow> 'b \<Rightarrow> ('a, ('b, int) gomap) gomap \<Rightarrow> ('a, ('b, int) gomap) gomap" where
  "mbump2 a b m = mput a (mbump b (mget_or [] m a)) m"

definition UpdateTrackingCountsByURIAndID ::
  "string \<Rightarrow> string \<Rightarrow> (string, int) gomap option \<Rightarrow> (string, int) gomap option \<Rightarrow>
   (string, (string, int) gomap) gomap option \<Rightarrow>
   (string, int) gomap option \<times> (string, int) gomap option \<times> (string, (string, int) gomap) gomap option" where
  "UpdateTrackingCountsByURIAndID rid uri countsByIDs countsByURIs countsByURIIDs =
     (map_option (mbump rid) countsByIDs, map_option (mbump uri) countsByURIs, map_option (mbump2 uri rid) countsByURIIDs)"

record key_tracking =
  countsByKeys :: "(string, int) gomap option"
  countsByKeyValues :: "(string, (string, int) gomap) gomap option"
  countsByURIKeys :: "(string, (string, int) gomap) gomap option"
  countsByKeyIDs :: "(string, (string, int) gomap) gomap option"

text \<open>The code has the block for \<open>countsByURIKeys\<close> twice.\<close>

definition track_key :: "string \<Rightarrow> string \<Rightarrow> (string, string list) gomap \<Rightarrow> string \<Rightarrow> key_tracking \<Rightarrow> key_tracking" where
  "track_key rid uri actual key t =
     (case mget_or [] actual key of
        [] \<Rightarrow> t
      | v # vs \<Rightarrow>
          \<lparr>countsByKeys = map_option (mbump key) (countsByKeys t),
           countsByKeyValues = map_option (mbump2 key v) (countsByKeyValues t),
           countsByURIKeys = map_option (mbump2 uri key) (map_option (mbump2 uri key) (countsByURIKeys t)),
           countsByKeyIDs = map_option (mbump2 key rid) (countsByKeyIDs t)\<rparr>)"

definition UpdateTrackingCountsByURIKeyValuesID ::
  "string \<Rightarrow> string \<Rightarrow> string list option \<Rightarrow> (string, string list) gomap \<Rightarrow> key_tracking \<Rightarrow> key_tracking" where
  "UpdateTrackingCountsByURIKeyValuesID rid uri trackingKeys actual t =
     (case trackingKeys of None \<Rightarrow> t | Some keys \<Rightarrow> fold (track_key rid uri actual) keys t)"

section \<open>Lemmas\<close>

lemma bucket_bounds_pair: "bucket_bounds piece = Some (low, high) \<Longrightarrow>
    (\<not> (low < 0 \<or> high < 0 \<or> (low = 0 \<and> high = 0) \<or> (high \<noteq> 0 \<and> high < low))) \<Longrightarrow> bucket_ok [low, high]"
  by (auto simp: bucket_ok_def)

lemma parse_buckets_ok:
  "list_all bucket_ok buckets \<Longrightarrow> list_all bucket_ok (fst (parse_buckets pieces buckets))"
  by (induction pieces buckets rule: parse_buckets.induct)
    (auto simp: bucket_ok_def split: option.splits)

lemma parse_buckets_all:
  "parse_buckets pieces buckets = (bs, True) \<Longrightarrow>
   bs = buckets @ map (\<lambda>p. case bucket_bounds p of Some (l, h) \<Rightarrow> [l, h] | None \<Rightarrow> []) pieces"
  by (induction pieces buckets rule: parse_buckets.induct) (auto split: option.splits if_splits)

text \<open>Parsing the time buckets gives only usable buckets, and the text of a list of usable buckets is
  parsed back to it.\<close>

definition bucket_text :: "int list \<Rightarrow> string" where
  "bucket_text tb = join_with ''-'' (map Itoa tb)"

lemma Itoa_bucket_seps: "0 \<le> n \<Longrightarrow> CHR ''-'' \<notin> set (Itoa n)" "CHR '','' \<notin> set (Itoa n)"
proof -
  assume "0 \<le> n"
  then show "CHR ''-'' \<notin> set (Itoa n)"
    using int_digits_are_digits [of n "CHR ''-''"] by (auto simp: Itoa_def digit_of_def)
next
  show "CHR '','' \<notin> set (Itoa n)" using Itoa_chars [of "CHR '',''" n] by (auto simp: digit_of_def)
qed

lemma bucket_bounds_text:
  assumes "bucket_ok tb" and "\<forall>x \<in> set tb. x < 2 ^ 63"
  shows "\<exists>l h. tb = [l, h] \<and> bucket_bounds (bucket_text tb) = Some (l, h)"
proof -
  from assms obtain l h where tb: "tb = [l, h]" "0 \<le> l" "0 \<le> h" "l < 2 ^ 63" "h < 2 ^ 63"
    by (auto simp: bucket_ok_def)
  have "bucket_text tb = Itoa l @ CHR ''-'' # Itoa h" by (simp add: tb(1) bucket_text_def)
  then have "split_on CHR ''-'' (bucket_text tb) = [Itoa l, Itoa h]"
    using tb by (simp add: split_on_append_sep split_on_no_sep Itoa_bucket_seps)
  then show ?thesis using tb parse_int_Itoa [of 64 l] parse_int_Itoa [of 64 h] by (simp add: bucket_bounds_def)
qed

lemma parse_buckets_text:
  "\<forall>tb \<in> set bs. bucket_ok tb \<and> (\<forall>x \<in> set tb. x < 2 ^ 63) \<Longrightarrow>
   parse_buckets (map bucket_text bs) acc = (acc @ bs, True)"
proof (induction bs arbitrary: acc)
  case (Cons tb bs)
  then obtain l h where "tb = [l, h]" "bucket_bounds (bucket_text tb) = Some (l, h)"
    using bucket_bounds_text [of tb] by auto
  with Cons show ?case by (auto simp: bucket_ok_def)
qed simp

text \<open>C32: The text of usable time buckets is parsed back to the buckets, and whatever the text, every bucket
  that is parsed has two bounds that are not negative, not both zero, and in order unless the upper one is zero.\<close>

theorem ParseTimeBuckets_roundtrip:
  "list_all bucket_ok (fst (ParseTimeBuckets b)) \<and>
   (bs \<noteq> [] \<and> (\<forall>tb \<in> set bs. bucket_ok tb \<and> (\<forall>x \<in> set tb. x < 2 ^ 63)) \<longrightarrow>
      ParseTimeBuckets (join_with '','' (map bucket_text bs)) = (bs, True))"
proof (intro conjI impI)
  show "list_all bucket_ok (fst (ParseTimeBuckets b))" by (simp add: ParseTimeBuckets_def parse_buckets_ok)
  assume bs: "bs \<noteq> [] \<and> (\<forall>tb \<in> set bs. bucket_ok tb \<and> (\<forall>x \<in> set tb. x < 2 ^ 63))"
  have "CHR '','' \<notin> set p" if p: "p \<in> set (map bucket_text bs)" for p
  proof -
    from p bs obtain l h where "p = Itoa l @ ''-'' @ Itoa h" by (auto simp: bucket_ok_def bucket_text_def)
    then show ?thesis using Itoa_bucket_seps(2) by auto
  qed
  with bs show "ParseTimeBuckets (join_with '','' (map bucket_text bs)) = (bs, True)"
    by (simp add: ParseTimeBuckets_def split_on_join parse_buckets_text)
qed

theorem ParseTimeBuckets_roundtrip_witness:
  "ParseTimeBuckets ''0-100,100-0'' = ([[0, 100], [100, 0]], True)"
proof -
  have "join_with '','' (map bucket_text [[0, 100], [100, 0]]) = ''0-100,100-0''" by code_simp
  moreover have "bucket_ok [0, 100]" "bucket_ok [100, 0]" by (simp_all add: bucket_ok_def)
  ultimately show ?thesis
    using ParseTimeBuckets_roundtrip [of "[]" "[[0, 100], [100, 0]]"] by simp
qed

end
