(* ===== verification/Client_Results.thy ===== *)
theory Client_Results
  imports Util_Tracking Util_Headers "HOL-Library.Monad_Syntax"
begin

text \<open>
  Client results: \<open>pkg/client/results/results.go\<close>. Every result of an invocation is counted by status,
  URI, header, payload size, retry, error and time bucket; the registry adds up the counts of the
  instances of a peer. Times are integers with 0 as the zero time. The maps of a
  \<open>TargetResults\<close> and of \<open>HeaderCounts\<close> are never nil after they were created; the two maps of
  \<open>KeyResultCounts\<close> may be, and a write to a nil map is a panic, \<open>None\<close>. Of an invocation result the
  fields are kept that are counted. Sending to the registry and the JSON text are not modelled.
\<close>

section \<open>Counts\<close>

record count_info =
  ciCount :: int
  ciClientStreamCount :: int
  ciServerStreamCount :: int
  ciRetries :: int
  ciFirstResultAt :: int
  ciLastResultAt :: int

definition zero_count :: count_info where
  "zero_count = \<lparr>ciCount = 0, ciClientStreamCount = 0, ciServerStreamCount = 0, ciRetries = 0,
     ciFirstResultAt = 0, ciLastResultAt = 0\<rparr>"

text \<open>The arguments that a result passes to every count: status code, retries, client and server stream
  counts and the time stamp.\<close>

record hit =
  hCode :: string
  hRetries :: int
  hCS :: int
  hSS :: int
  hTs :: int

definition first_at :: "int \<Rightarrow> int \<Rightarrow> int" where
  "first_at ts f = (if f = 0 \<or> ts < f then ts else f)"

definition last_at :: "int \<Rightarrow> int \<Rightarrow> int" where
  "last_at ts l = (if l = 0 \<or> l < ts then ts else l)"

definition increment :: "hit \<Rightarrow> count_info \<Rightarrow> count_info" where
  "increment x c =
     \<lparr>ciCount = ciCount c + 1, ciClientStreamCount = ciClientStreamCount c + hCS x,
      ciServerStreamCount = ciServerStreamCount c + hSS x, ciRetries = ciRetries c + hRetries x,
      ciFirstResultAt = first_at (hTs x) (ciFirstResultAt c), ciLastResultAt = hTs x\<rparr>"

definition incrementBy :: "count_info \<Rightarrow> count_info \<Rightarrow> count_info" where
  "incrementBy d c =
     \<lparr>ciCount = ciCount c + ciCount d, ciClientStreamCount = ciClientStreamCount c + ciClientStreamCount d,
      ciServerStreamCount = ciServerStreamCount c + ciServerStreamCount d, ciRetries = ciRetries c + ciRetries d,
      ciFirstResultAt = first_at (ciFirstResultAt d) (ciFirstResultAt c),
      ciLastResultAt = last_at (ciLastResultAt d) (ciLastResultAt c)\<rparr>"

type_synonym counts_map = "(string, count_info) gomap"

text \<open>\<open>incrementHeaderCount\<close> and \<open>incrementHeaderValueCount\<close> have the same body, and so have their
  variants that add a count.\<close>

definition incrementHeaderCount :: "string \<Rightarrow> hit \<Rightarrow> counts_map \<Rightarrow> counts_map" where
  "incrementHeaderCount key x m = mput key (increment x (mget_or zero_count m key)) m"

definition incrementHeaderCountBy :: "string \<Rightarrow> count_info \<Rightarrow> counts_map \<Rightarrow> counts_map" where
  "incrementHeaderCountBy key d m = mput key (incrementBy d (mget_or zero_count m key)) m"

section \<open>Counts by header\<close>

datatype header_counts =
  HC (hcInfo: count_info) (hcHeader: string)
    (hcCountsByValues: "(string \<times> count_info) list")
    (hcCountsByStatusCodes: "(string \<times> count_info) list")
    (hcCountsByValuesStatusCodes: "(string \<times> (string \<times> count_info) list) list")
    (hcCrossHeaders: "(string \<times> header_counts) list")
    (hcCrossHeadersByValues: "(string \<times> (string \<times> header_counts) list) list")

definition newHeaderCounts :: "string \<Rightarrow> header_counts" where
  "newHeaderCounts header = HC zero_count header [] [] [] [] []"

definition setTimestamps :: "int \<Rightarrow> count_info \<Rightarrow> count_info" where
  "setTimestamps ts c = c\<lparr>ciFirstResultAt := first_at ts (ciFirstResultAt c), ciLastResultAt := ts\<rparr>"

definition count_value :: "hit \<Rightarrow> string \<Rightarrow> header_counts \<Rightarrow> header_counts" where
  "count_value x v hc =
     (case hc of HC ci h vs scs vscs ch chv \<Rightarrow>
        HC ci h (incrementHeaderCount v x vs) scs
          (mput v (incrementHeaderCount (hCode x) x (mget_or [] vscs v)) vscs) ch chv)"

text \<open>The block that counts a header with its values, with the time stamps set first.\<close>

definition count_header :: "int \<Rightarrow> hit \<Rightarrow> string list \<Rightarrow> header_counts \<Rightarrow> header_counts" where
  "count_header at x vals hc =
     (case hc of HC ci h vs scs vscs ch chv \<Rightarrow>
        fold (count_value x) vals
          (HC (increment x (setTimestamps at ci)) h vs (incrementHeaderCount (hCode x) x scs) vscs ch chv))"

definition init_cross_values :: "string list \<Rightarrow> header_counts \<Rightarrow> header_counts" where
  "init_cross_values vals hc =
     (case hc of HC ci h vs scs vscs ch chv \<Rightarrow>
        HC ci h vs scs vscs ch (fold (\<lambda>v m. if mget m v = None then mput v [] m else m) vals chv))"

definition upd_cross :: "string \<Rightarrow> (header_counts \<Rightarrow> header_counts) \<Rightarrow> header_counts \<Rightarrow> header_counts" where
  "upd_cross c f hc =
     (case hc of HC ci h vs scs vscs ch chv \<Rightarrow>
        HC ci h vs scs vscs (mput c (f (mget_or (newHeaderCounts c) ch c)) ch) chv)"

definition upd_cross_value :: "string \<Rightarrow> (header_counts \<Rightarrow> header_counts) \<Rightarrow> string \<Rightarrow> header_counts \<Rightarrow> header_counts" where
  "upd_cross_value c f v hc =
     (case hc of HC ci h vs scs vscs ch chv \<Rightarrow>
        HC ci h vs scs vscs ch
          (mput v (mput c (f (mget_or (newHeaderCounts c) (mget_or [] chv v) c)) (mget_or [] chv v)) chv))"

fun processSubCrossHeadersForHeader ::
  "hit \<Rightarrow> (string, string list) gomap \<Rightarrow> string list \<Rightarrow> string list \<Rightarrow> header_counts \<Rightarrow> header_counts" where
  "processSubCrossHeadersForHeader x allHeaders vals [] hc = init_cross_values vals hc"
| "processSubCrossHeadersForHeader x allHeaders vals (crossHeader # rest) hc0 =
     (let hc = init_cross_values vals hc0 in
      case mget allHeaders crossHeader of
        None \<Rightarrow> processSubCrossHeadersForHeader x allHeaders vals rest hc
      | Some crossValues \<Rightarrow>
          (let count = (\<lambda>sub. let sub = count_header (ciLastResultAt (hcInfo hc)) x crossValues sub
                              in if rest = [] then sub
                                 else processSubCrossHeadersForHeader x allHeaders crossValues rest sub);
               hc = upd_cross crossHeader count hc;
               hc = fold (upd_cross_value crossHeader count) vals hc
           in processSubCrossHeadersForHeader x allHeaders vals rest hc))"

section \<open>Counts by key\<close>

datatype key_counts =
  KC (kcInfo: count_info)
    (kcByStatusCodes: "(string \<times> key_counts) list option")
    (kcByTimeBuckets: "(string \<times> key_counts) list option")

type_synonym key_result = "(string, key_counts) gomap"

definition newKeyResultCounts :: "bool \<Rightarrow> bool \<Rightarrow> key_counts" where
  "newKeyResultCounts withStatusCodes withTimeBuckets =
     KC zero_count (if withStatusCodes then Some [] else None) (if withTimeBuckets then Some [] else None)"

definition kc_increment :: "hit \<Rightarrow> key_counts \<Rightarrow> key_counts" where
  "kc_increment x k = (case k of KC ci s t \<Rightarrow> KC (increment x ci) s t)"

definition addKeyResultCounts :: "string \<Rightarrow> hit \<Rightarrow> bool \<Rightarrow> bool \<Rightarrow> key_result \<Rightarrow> key_result option" where
  "addKeyResultCounts key x withStatusCodes withTimeBuckets counts =
     (case kc_increment x (mget_or (newKeyResultCounts withStatusCodes withTimeBuckets) counts key) of
        KC ci s t \<Rightarrow>
          (if withStatusCodes then
             (case s of
                None \<Rightarrow> None
              | Some m \<Rightarrow>
                  Some (mput key
                    (KC ci (Some (mput (hCode x) (kc_increment x (mget_or (KC zero_count None None) m (hCode x))) m)) t)
                    counts))
           else Some (mput key (KC ci s t) counts)))"

record target_results =
  trTarget :: string
  InvocationCount :: int
  trFirstResultAt :: int
  trLastResultAt :: int
  trClientStreamCount :: int
  trServerStreamCount :: int
  RetriedInvocationCounts :: int
  CountsByHeaders :: "(string, header_counts) gomap"
  CountsByStatus :: "(string, int) gomap"
  CountsByStatusCodes :: key_result
  CountsByURIs :: key_result
  CountsByRequestPayloadSizes :: key_result
  CountsByResponsePayloadSizes :: key_result
  CountsByRetries :: key_result
  CountsByRetryReasons :: key_result
  CountsByErrors :: key_result
  CountsByTimeBuckets :: key_result
  trackingHeaders :: "string list"
  crossTrackingHeaders :: "(string, string list) gomap"
  crossHeadersMap :: "(string, string) gomap"
  trackingTimeBuckets :: "int list list"

text \<open>What is read of an invocation result and of its request and response.\<close>

record invocation_result =
  rStatus :: string
  rStatusCode :: int
  rHeaders :: "(string, string list) gomap"
  rPayloadSize :: int
  rClientStreamCount :: int
  rServerStreamCount :: int
  qURI :: string
  qPayloadSize :: int
  qLastRequestAt :: int
  irRetries :: int
  irLastRetryReason :: string
  irErrors :: "(string, string) gomap list"
  irTookNanos :: int

definition NewTargetResults ::
  "string \<Rightarrow> string list \<Rightarrow> (string, string list) gomap \<Rightarrow> int list list \<Rightarrow> target_results" where
  "NewTargetResults target hs cross buckets =
     \<lparr>trTarget = target, InvocationCount = 0, trFirstResultAt = 0, trLastResultAt = 0, trClientStreamCount = 0,
      trServerStreamCount = 0, RetriedInvocationCounts = 0, CountsByHeaders = [], CountsByStatus = [],
      CountsByStatusCodes = [], CountsByURIs = [], CountsByRequestPayloadSizes = [], CountsByResponsePayloadSizes = [],
      CountsByRetries = [], CountsByRetryReasons = [], CountsByErrors = [], CountsByTimeBuckets = [],
      trackingHeaders = hs, crossTrackingHeaders = cross, crossHeadersMap = BuildCrossHeadersMap cross,
      trackingTimeBuckets = buckets\<rparr>"

definition hit_of :: "invocation_result \<Rightarrow> hit" where
  "hit_of ir = \<lparr>hCode = Itoa (rStatusCode ir), hRetries = irRetries ir, hCS = rClientStreamCount ir,
     hSS = rServerStreamCount ir, hTs = qLastRequestAt ir\<rparr>"

definition addHeaderResult :: "string \<Rightarrow> string list \<Rightarrow> invocation_result \<Rightarrow> target_results \<Rightarrow> target_results" where
  "addHeaderResult header vals ir tr =
     tr\<lparr>CountsByHeaders := mput header
          (count_header (qLastRequestAt ir) (hit_of ir) vals (mget_or (newHeaderCounts header) (CountsByHeaders tr) header))
          (CountsByHeaders tr)\<rparr>"

definition processCrossHeadersForHeader ::
  "string \<Rightarrow> string list \<Rightarrow> invocation_result \<Rightarrow> target_results \<Rightarrow> target_results" where
  "processCrossHeadersForHeader header vals ir tr =
     (case mget (crossTrackingHeaders tr) header of
        None \<Rightarrow> tr
      | Some crossHeaders \<Rightarrow>
          tr\<lparr>CountsByHeaders := mput header
               (processSubCrossHeadersForHeader (hit_of ir) (rHeaders ir) vals crossHeaders
                  (mget_or (newHeaderCounts header) (CountsByHeaders tr) header))
               (CountsByHeaders tr)\<rparr>)"

definition track_result_headers :: "invocation_result \<Rightarrow> target_results \<Rightarrow> target_results" where
  "track_result_headers ir tr =
     fold (\<lambda>h tr. fold (\<lambda>(rh, vals) tr.
         if EqualFold h rh then processCrossHeadersForHeader h vals ir (addHeaderResult h vals ir tr) else tr)
       (rHeaders ir) tr) (trackingHeaders tr) tr"

section \<open>Adding a result\<close>

text \<open>\<open>fmt.Sprint\<close> of a slice of integers.\<close>

definition bucket_name :: "int list option \<Rightarrow> string" where
  "bucket_name tb = ''['' @ (case tb of None \<Rightarrow> [] | Some tb \<Rightarrow> join_with '' '' (map Itoa tb)) @ '']''"

text \<open>Counts the bucket below the entry of a key, if there is one.\<close>

definition count_below :: "string \<Rightarrow> string \<Rightarrow> hit \<Rightarrow> bool \<Rightarrow> key_result \<Rightarrow> key_result option" where
  "count_below bucket key x withStatusCodes m =
     (case mget m key of
        None \<Rightarrow> Some m
      | Some (KC ci s t) \<Rightarrow>
          (case t of
             None \<Rightarrow> None
           | Some tm \<Rightarrow>
               map_option (\<lambda>tm. mput key (KC ci s (Some tm)) m) (addKeyResultCounts bucket x withStatusCodes False tm)))"

fun fold_opt :: "('a \<Rightarrow> 's \<Rightarrow> 's option) \<Rightarrow> 'a list \<Rightarrow> 's \<Rightarrow> 's option" where
  "fold_opt f [] s = Some s"
| "fold_opt f (a # as) s = (case f a s of None \<Rightarrow> None | Some s' \<Rightarrow> fold_opt f as s')"

text \<open>The errors of a result are counted by their position in the list.\<close>

definition error_keys :: "invocation_result \<Rightarrow> string list" where
  "error_keys ir = map (\<lambda>e. Itoa (int e)) [0..<length (irErrors ir)]"

definition addTimeBucketResult :: "int list option \<Rightarrow> invocation_result \<Rightarrow> target_results \<Rightarrow> target_results option" where
  "addTimeBucketResult tb ir tr =
     (let bucket = bucket_name tb; x = hit_of ir; statusCode = hCode x in
      do {
        m1 \<leftarrow> addKeyResultCounts bucket x True False (CountsByTimeBuckets tr);
        m2 \<leftarrow> count_below bucket (qURI ir) x True (CountsByURIs tr);
        m3 \<leftarrow> count_below bucket (Itoa (qPayloadSize ir)) x True (CountsByRequestPayloadSizes tr);
        m4 \<leftarrow> count_below bucket (Itoa (rPayloadSize ir)) x True (CountsByResponsePayloadSizes tr);
        m5 \<leftarrow> count_below bucket (Itoa (irRetries ir)) x True (CountsByRetries tr);
        m6 \<leftarrow> count_below bucket (irLastRetryReason ir) x True (CountsByRetryReasons tr);
        m7 \<leftarrow> fold_opt (\<lambda>e. count_below bucket e x True) (error_keys ir) (CountsByErrors tr);
        m8 \<leftarrow> count_below bucket statusCode x False (CountsByStatusCodes tr);
        Some (tr\<lparr>CountsByTimeBuckets := m1, CountsByURIs := m2, CountsByRequestPayloadSizes := m3,
                CountsByResponsePayloadSizes := m4, CountsByRetries := m5, CountsByRetryReasons := m6,
                CountsByErrors := m7, CountsByStatusCodes := m8\<rparr>)
      })"

text \<open>The first bucket that holds the duration; a bucket that has less than two bounds is an index out of
  range.\<close>

fun find_bucket :: "int \<Rightarrow> int list list \<Rightarrow> int list option option" where
  "find_bucket took [] = Some None"
| "find_bucket took (tb # tbs) =
     (case tb of
        [] \<Rightarrow> None
      | low # rest \<Rightarrow>
          (if took < low then find_bucket took tbs
           else case rest of
                  [] \<Rightarrow> None
                | high # _ \<Rightarrow> (if high = 0 \<or> took \<le> high then Some (Some tb) else find_bucket took tbs)))"

definition took_millis :: "invocation_result \<Rightarrow> int" where
  "took_millis ir = quot (irTookNanos ir) 1000000"

definition addResult :: "invocation_result \<Rightarrow> target_results \<Rightarrow> target_results option" where
  "addResult ir tr =
     (let x = hit_of ir; statusCode = hCode x; at = qLastRequestAt ir in
      do {
        (retried, m1, m2) \<leftarrow>
          (if 0 < irRetries ir then
             do {
               m1 \<leftarrow> addKeyResultCounts (Itoa (irRetries ir)) x True True (CountsByRetries tr);
               m2 \<leftarrow> (if irLastRetryReason ir \<noteq> []
                      then addKeyResultCounts (irLastRetryReason ir) x True True (CountsByRetryReasons tr)
                      else Some (CountsByRetryReasons tr));
               Some (1, m1, m2)
             }
           else Some (0, CountsByRetries tr, CountsByRetryReasons tr));
        m3 \<leftarrow> addKeyResultCounts statusCode x False True (CountsByStatusCodes tr);
        m4 \<leftarrow> addKeyResultCounts (ToLower (qURI ir)) x True True (CountsByURIs tr);
        m5 \<leftarrow> (if 0 < qPayloadSize ir
               then addKeyResultCounts (Itoa (qPayloadSize ir)) x True True (CountsByRequestPayloadSizes tr)
               else Some (CountsByRequestPayloadSizes tr));
        m6 \<leftarrow> (if 0 < rPayloadSize ir
               then addKeyResultCounts (Itoa (rPayloadSize ir)) x True True (CountsByResponsePayloadSizes tr)
               else Some (CountsByResponsePayloadSizes tr));
        m7 \<leftarrow> fold_opt (\<lambda>e. addKeyResultCounts e x True True) (error_keys ir) (CountsByErrors tr);
        let tr' = track_result_headers ir
          (tr\<lparr>InvocationCount := InvocationCount tr + 1,
              trFirstResultAt := first_at at (trFirstResultAt tr), trLastResultAt := at,
              RetriedInvocationCounts := RetriedInvocationCounts tr + retried,
              trClientStreamCount := trClientStreamCount tr + rClientStreamCount ir,
              trServerStreamCount := trServerStreamCount tr + rServerStreamCount ir,
              CountsByStatus := mbump (rStatus ir) (CountsByStatus tr),
              CountsByRetries := m1, CountsByRetryReasons := m2, CountsByStatusCodes := m3, CountsByURIs := m4,
              CountsByRequestPayloadSizes := m5, CountsByResponsePayloadSizes := m6, CountsByErrors := m7\<rparr>);
        if trackingTimeBuckets tr = [] then Some tr'
        else do {
          tb \<leftarrow> find_bucket (took_millis ir) (trackingTimeBuckets tr);
          addTimeBucketResult tb ir tr'
        }
      })"

section \<open>What is counted\<close>

definition entries :: "'a list option \<Rightarrow> 'a list" where
  "entries m = (case m of None \<Rightarrow> [] | Some l \<Rightarrow> l)"

definition kcount :: "key_result \<Rightarrow> string \<Rightarrow> int" where
  "kcount m k = (case mget m k of None \<Rightarrow> 0 | Some v \<Rightarrow> ciCount (kcInfo v))"

definition kscount :: "key_result \<Rightarrow> string \<Rightarrow> string \<Rightarrow> int" where
  "kscount m k c = (case mget m k of None \<Rightarrow> 0 | Some v \<Rightarrow> kcount (entries (kcByStatusCodes v)) c)"

definition ktcount :: "key_result \<Rightarrow> string \<Rightarrow> string \<Rightarrow> int" where
  "ktcount m k b = (case mget m k of None \<Rightarrow> 0 | Some v \<Rightarrow> kcount (entries (kcByTimeBuckets v)) b)"

text \<open>The maps of the entries are there where they are used: \<open>s\<close> for status codes, \<open>t\<close> for time buckets.\<close>

definition value_ok :: "bool \<Rightarrow> bool \<Rightarrow> key_counts \<Rightarrow> bool" where
  "value_ok s t v \<longleftrightarrow> (s \<longrightarrow> kcByStatusCodes v \<noteq> None) \<and> (t \<longrightarrow> kcByTimeBuckets v \<noteq> None) \<and>
     mwf (entries (kcByStatusCodes v)) \<and> mwf (entries (kcByTimeBuckets v)) \<and>
     (\<forall>b w. mget (entries (kcByTimeBuckets v)) b = Some w \<longrightarrow> s \<longrightarrow> kcByStatusCodes w \<noteq> None)"

definition shape :: "bool \<Rightarrow> bool \<Rightarrow> key_result \<Rightarrow> bool" where
  "shape s t m \<longleftrightarrow> mwf m \<and> (\<forall>k v. mget m k = Some v \<longrightarrow> value_ok s t v)"

lemma entries_simps [simp]: "entries None = []" "entries (Some l) = l"
  by (simp_all add: entries_def)

lemma kcount_Nil [simp]: "kcount [] k = 0"
  by (simp add: kcount_def)

lemma kcount_put [simp]: "kcount (mput key v m) k = (if k = key then ciCount (kcInfo v) else kcount m k)"
  by (simp add: kcount_def)

lemma kscount_put [simp]:
  "kscount (mput key v m) k c = (if k = key then kcount (entries (kcByStatusCodes v)) c else kscount m k c)"
  by (simp add: kscount_def)

lemma ktcount_put [simp]:
  "ktcount (mput key v m) k b = (if k = key then kcount (entries (kcByTimeBuckets v)) b else ktcount m k b)"
  by (simp add: ktcount_def)

lemma kcount_or: "ciCount (kcInfo (mget_or z m k)) = (case mget m k of None \<Rightarrow> ciCount (kcInfo z) | Some v \<Rightarrow> kcount m k)"
  by (simp add: kcount_def mget_or_def split: option.splits)

lemma shape_put: "shape s t m \<Longrightarrow> value_ok s t v \<Longrightarrow> shape s t (mput k v m)"
  by (auto simp: shape_def)

lemma shape_Nil [simp]: "shape s t []"
  by (simp add: shape_def)

lemma new_value_ok [simp]: "value_ok s t (newKeyResultCounts s t)"
  by (auto simp: value_ok_def newKeyResultCounts_def)

lemma new_sel [simp]:
  "ciCount (kcInfo (newKeyResultCounts s t)) = 0" "kcount (entries (kcByStatusCodes (newKeyResultCounts s t))) k = 0"
  "kcount (entries (kcByTimeBuckets (newKeyResultCounts s t))) k = 0"
  by (simp_all add: newKeyResultCounts_def zero_count_def)

lemma mget_or_ok: "shape s t m \<Longrightarrow> value_ok s t (mget_or (newKeyResultCounts s t) m k)"
  by (auto simp: shape_def mget_or_def split: option.splits)

lemma count_sel [simp]: "ciCount (increment x c) = ciCount c + 1" "ciCount (incrementBy d c) = ciCount c + ciCount d"
  "ciCount (setTimestamps ts c) = ciCount c" "ciCount zero_count = 0"
  by (simp_all add: increment_def incrementBy_def setTimestamps_def zero_count_def)

lemma kc_increment_sel [simp]: "kcInfo (kc_increment x k) = increment x (kcInfo k)"
  "kcByStatusCodes (kc_increment x k) = kcByStatusCodes k" "kcByTimeBuckets (kc_increment x k) = kcByTimeBuckets k"
  by (cases k; simp add: kc_increment_def)+

text \<open>One hit on an entry, when no map is missing.\<close>

definition kc_hit :: "hit \<Rightarrow> bool \<Rightarrow> key_counts \<Rightarrow> key_counts" where
  "kc_hit x s k =
     (case k of KC ci st t \<Rightarrow>
        KC (increment x ci)
          (if s then Some (mput (hCode x) (kc_increment x (mget_or (KC zero_count None None) (entries st) (hCode x))) (entries st))
           else st) t)"

lemma kc_hit_sel [simp]: "kcInfo (kc_hit x s k) = increment x (kcInfo k)" "kcByTimeBuckets (kc_hit x s k) = kcByTimeBuckets k"
  "kcByStatusCodes (kc_hit x s k) =
     (if s then Some (mput (hCode x) (kc_increment x (mget_or (KC zero_count None None) (entries (kcByStatusCodes k)) (hCode x)))
        (entries (kcByStatusCodes k))) else kcByStatusCodes k)"
  by (cases k; simp add: kc_hit_def)+

lemma kc_hit_ok: "value_ok s t v \<Longrightarrow> value_ok s t (kc_hit x s v)"
  by (auto simp: value_ok_def)

lemma kc_hit_codes: "kcount (entries (kcByStatusCodes (kc_hit x s k))) c =
    kcount (entries (kcByStatusCodes k)) c + (if s \<and> c = hCode x then 1 else 0)"
  by (simp add: kcount_or) (simp add: kcount_def split: option.splits)

lemma addKeyResultCounts_eq:
  assumes "s \<Longrightarrow> kcByStatusCodes (mget_or (newKeyResultCounts s t) m key) \<noteq> None"
  shows "addKeyResultCounts key x s t m = Some (mput key (kc_hit x s (mget_or (newKeyResultCounts s t) m key)) m)"
  using assms by (cases "mget_or (newKeyResultCounts s t) m key")
    (auto simp: addKeyResultCounts_def kc_hit_def kc_increment_def split: option.splits)

definition below_hit :: "string \<Rightarrow> hit \<Rightarrow> bool \<Rightarrow> key_counts \<Rightarrow> key_counts" where
  "below_hit b x s v =
     (let tm = entries (kcByTimeBuckets v)
      in KC (kcInfo v) (kcByStatusCodes v) (Some (mput b (kc_hit x s (mget_or (newKeyResultCounts s False) tm b)) tm)))"

lemma below_hit_ok: "value_ok s t v \<Longrightarrow> value_ok s t (below_hit b x s v)"
  by (auto simp: value_ok_def below_hit_def Let_def)

lemma count_below_eq:
  assumes "shape s True m"
  shows "count_below b key x s m = Some (case mget m key of None \<Rightarrow> m | Some v \<Rightarrow> mput key (below_hit b x s v) m)"
proof (cases "mget m key")
  case (Some v)
  with assms have v: "value_ok s True v" by (auto simp: shape_def)
  then obtain tm where tm: "kcByTimeBuckets v = Some tm" by (auto simp: value_ok_def)
  have "s \<Longrightarrow> kcByStatusCodes (mget_or (newKeyResultCounts s False) tm b) \<noteq> None"
    using v tm by (auto simp: value_ok_def mget_or_def newKeyResultCounts_def split: option.splits)
  then show ?thesis
    using Some tm by (cases v) (simp add: count_below_def addKeyResultCounts_eq below_hit_def)
qed (simp add: count_below_def)

text \<open>The effect of one hit on a map of a given shape.\<close>

lemma add_spec:
  assumes "shape s t m"
  obtains m' where "addKeyResultCounts key x s t m = Some m'" "shape s t m'"
    "\<And>k. kcount m' k = kcount m k + (if k = key then 1 else 0)"
    "\<And>k c. kscount m' k c = kscount m k c + (if s \<and> k = key \<and> c = hCode x then 1 else 0)"
    "\<And>k b. ktcount m' k b = ktcount m k b"
    "\<And>k. mget m' k \<noteq> None \<longleftrightarrow> k = key \<or> mget m k \<noteq> None"
proof
  let ?v = "mget_or (newKeyResultCounts s t) m key"
  let ?m = "mput key (kc_hit x s ?v) m"
  have v: "value_ok s t ?v" by (rule mget_or_ok [OF assms])
  show "addKeyResultCounts key x s t m = Some ?m"
    by (rule addKeyResultCounts_eq) (use v in \<open>auto simp: value_ok_def\<close>)
  show "shape s t ?m" using assms v by (simp add: shape_put kc_hit_ok)
  show "kcount ?m k = kcount m k + (if k = key then 1 else 0)" for k
    by (simp add: kcount_or) (simp add: kcount_def split: option.splits)
  show "kscount ?m k c = kscount m k c + (if s \<and> k = key \<and> c = hCode x then 1 else 0)" for k c
    by (cases "mget m key") (auto simp: kc_hit_codes mget_or_def kscount_def simp del: kc_hit_sel(3))
  show "ktcount ?m k b = ktcount m k b" for k b
    by (cases "mget m key") (auto simp: mget_or_def ktcount_def)
  show "mget ?m k \<noteq> None \<longleftrightarrow> k = key \<or> mget m k \<noteq> None" for k by simp
qed

lemma below_spec:
  assumes "shape s True m"
  obtains m' where "count_below b key x s m = Some m'" "shape s True m'" "\<And>k. kcount m' k = kcount m k"
    "\<And>k c. kscount m' k c = kscount m k c"
    "\<And>k b'. ktcount m' k b' = ktcount m k b' + (if k = key \<and> b' = b \<and> mget m key \<noteq> None then 1 else 0)"
    "\<And>k. mget m' k \<noteq> None \<longleftrightarrow> mget m k \<noteq> None"
proof
  let ?m = "case mget m key of None \<Rightarrow> m | Some v \<Rightarrow> mput key (below_hit b x s v) m"
  show "count_below b key x s m = Some ?m" by (rule count_below_eq [OF assms])
  show "shape s True ?m" using assms by (auto simp: shape_put below_hit_ok shape_def split: option.splits)
  show "kcount ?m k = kcount m k" "kscount ?m k c = kscount m k c" for k c
    by (auto simp: below_hit_def Let_def kcount_def kscount_def split: option.splits)
  show "ktcount ?m k b' = ktcount m k b' + (if k = key \<and> b' = b \<and> mget m key \<noteq> None then 1 else 0)" for k b'
    by (cases "mget m key") (auto simp: below_hit_def Let_def ktcount_def kcount_or, auto simp: kcount_def split: option.splits)
  show "mget ?m k \<noteq> None \<longleftrightarrow> mget m k \<noteq> None" for k by (auto split: option.splits)
qed

text \<open>Hits on several keys.\<close>

lemma adds_spec:
  "shape s t m \<Longrightarrow> \<exists>m'. fold_opt (\<lambda>k. addKeyResultCounts k x s t) ks m = Some m' \<and> shape s t m' \<and>
     (\<forall>k. kcount m' k = kcount m k + int (count_list ks k)) \<and>
     (\<forall>k c. kscount m' k c = kscount m k c + (if s \<and> c = hCode x then int (count_list ks k) else 0)) \<and>
     (\<forall>k b. ktcount m' k b = ktcount m k b) \<and> (\<forall>k. mget m' k \<noteq> None \<longleftrightarrow> k \<in> set ks \<or> mget m k \<noteq> None)"
proof (induction ks arbitrary: m)
  case (Cons key ks)
  obtain m1 where 1: "addKeyResultCounts key x s t m = Some m1" "shape s t m1"
    "\<And>k. kcount m1 k = kcount m k + (if k = key then 1 else 0)"
    "\<And>k c. kscount m1 k c = kscount m k c + (if s \<and> k = key \<and> c = hCode x then 1 else 0)"
    "\<And>k b. ktcount m1 k b = ktcount m k b" "\<And>k. mget m1 k \<noteq> None \<longleftrightarrow> k = key \<or> mget m k \<noteq> None"
    using add_spec [OF Cons.prems] by metis
  from Cons.IH [OF 1(2)] 1 show ?case by auto
qed simp

lemma belows_spec:
  "shape s True m \<Longrightarrow> \<exists>m'. fold_opt (\<lambda>k. count_below b k x s) ks m = Some m' \<and> shape s True m' \<and>
     (\<forall>k. kcount m' k = kcount m k) \<and> (\<forall>k c. kscount m' k c = kscount m k c) \<and>
     (\<forall>k b'. ktcount m' k b' = ktcount m k b' + (if b' = b \<and> mget m k \<noteq> None then int (count_list ks k) else 0)) \<and>
     (\<forall>k. mget m' k \<noteq> None \<longleftrightarrow> mget m k \<noteq> None)"
proof (induction ks arbitrary: m)
  case (Cons key ks)
  obtain m1 where 1: "count_below b key x s m = Some m1" "shape s True m1" "\<And>k. kcount m1 k = kcount m k"
    "\<And>k c. kscount m1 k c = kscount m k c"
    "\<And>k b'. ktcount m1 k b' = ktcount m k b' + (if k = key \<and> b' = b \<and> mget m key \<noteq> None then 1 else 0)"
    "\<And>k. mget m1 k \<noteq> None \<longleftrightarrow> mget m k \<noteq> None"
    using below_spec [OF Cons.prems] by metis
  from Cons.IH [OF 1(2)] 1 show ?case by auto
qed simp

lemma fold_opt_single: "fold_opt f [a] s = f a s"
  by (simp split: option.splits)

section \<open>Counters of a target\<close>

datatype dim = DURI | DRequestSize | DResponseSize | DRetries | DRetryReason | DError

fun dim_map :: "dim \<Rightarrow> target_results \<Rightarrow> key_result" where
  "dim_map DURI tr = CountsByURIs tr"
| "dim_map DRequestSize tr = CountsByRequestPayloadSizes tr"
| "dim_map DResponseSize tr = CountsByResponsePayloadSizes tr"
| "dim_map DRetries tr = CountsByRetries tr"
| "dim_map DRetryReason tr = CountsByRetryReasons tr"
| "dim_map DError tr = CountsByErrors tr"

text \<open>The keys under which a result is counted.\<close>

fun keys_of :: "dim \<Rightarrow> invocation_result \<Rightarrow> string list" where
  "keys_of DURI ir = [ToLower (qURI ir)]"
| "keys_of DRequestSize ir = (if 0 < qPayloadSize ir then [Itoa (qPayloadSize ir)] else [])"
| "keys_of DResponseSize ir = (if 0 < rPayloadSize ir then [Itoa (rPayloadSize ir)] else [])"
| "keys_of DRetries ir = (if 0 < irRetries ir then [Itoa (irRetries ir)] else [])"
| "keys_of DRetryReason ir = (if 0 < irRetries ir \<and> irLastRetryReason ir \<noteq> [] then [irLastRetryReason ir] else [])"
| "keys_of DError ir = error_keys ir"

fun below_keys :: "dim \<Rightarrow> invocation_result \<Rightarrow> string list" where
  "below_keys DURI ir = [qURI ir]"
| "below_keys DRequestSize ir = [Itoa (qPayloadSize ir)]"
| "below_keys DResponseSize ir = [Itoa (rPayloadSize ir)]"
| "below_keys DRetries ir = [Itoa (irRetries ir)]"
| "below_keys DRetryReason ir = [irLastRetryReason ir]"
| "below_keys DError ir = error_keys ir"

text \<open>The counters: all invocations, those that were retried, the streams, by status text, by status code, by time
  bucket, by a key of one of the dimensions, and the status codes and time buckets below these. The counters of
  headers, and the stream counts and status codes below a time bucket of a key, are not among them.\<close>

datatype metric =
    Invocations
  | Retried
  | ClientStreams
  | ServerStreams
  | OfStatus string
  | OfCode string
  | OfCodeBucket string string
  | OfBucket string
  | OfBucketCode string string
  | OfKey dim string
  | OfKeyCode dim string string
  | OfKeyBucket dim string string

fun tally :: "target_results \<Rightarrow> metric \<Rightarrow> int" where
  "tally tr Invocations = InvocationCount tr"
| "tally tr Retried = RetriedInvocationCounts tr"
| "tally tr ClientStreams = trClientStreamCount tr"
| "tally tr ServerStreams = trServerStreamCount tr"
| "tally tr (OfStatus s) = mget_or 0 (CountsByStatus tr) s"
| "tally tr (OfCode c) = kcount (CountsByStatusCodes tr) c"
| "tally tr (OfCodeBucket c b) = ktcount (CountsByStatusCodes tr) c b"
| "tally tr (OfBucket b) = kcount (CountsByTimeBuckets tr) b"
| "tally tr (OfBucketCode b c) = kscount (CountsByTimeBuckets tr) b c"
| "tally tr (OfKey d k) = kcount (dim_map d tr) k"
| "tally tr (OfKeyCode d k c) = kscount (dim_map d tr) k c"
| "tally tr (OfKeyBucket d k b) = ktcount (dim_map d tr) k b"

definition bucket_of :: "int list list \<Rightarrow> invocation_result \<Rightarrow> string option" where
  "bucket_of tbs ir = (if tbs = [] then None else map_option bucket_name (find_bucket (took_millis ir) tbs))"

text \<open>What one result is to add to a counter.\<close>

fun hits :: "int list list \<Rightarrow> metric \<Rightarrow> invocation_result \<Rightarrow> int" where
  "hits tbs Invocations ir = 1"
| "hits tbs Retried ir = (if 0 < irRetries ir then 1 else 0)"
| "hits tbs ClientStreams ir = rClientStreamCount ir"
| "hits tbs ServerStreams ir = rServerStreamCount ir"
| "hits tbs (OfStatus s) ir = (if s = rStatus ir then 1 else 0)"
| "hits tbs (OfCode c) ir = (if c = Itoa (rStatusCode ir) then 1 else 0)"
| "hits tbs (OfCodeBucket c b) ir = (if c = Itoa (rStatusCode ir) \<and> bucket_of tbs ir = Some b then 1 else 0)"
| "hits tbs (OfBucket b) ir = (if bucket_of tbs ir = Some b then 1 else 0)"
| "hits tbs (OfBucketCode b c) ir = (if c = Itoa (rStatusCode ir) \<and> bucket_of tbs ir = Some b then 1 else 0)"
| "hits tbs (OfKey d k) ir = int (count_list (keys_of d ir) k)"
| "hits tbs (OfKeyCode d k c) ir = (if c = Itoa (rStatusCode ir) then int (count_list (keys_of d ir) k) else 0)"
| "hits tbs (OfKeyBucket d k b) ir = (if bucket_of tbs ir = Some b then int (count_list (keys_of d ir) k) else 0)"

text \<open>What it does add: the time bucket of a URI is looked up under the URI as it was sent, and URIs are kept in
  lower case.\<close>

definition adds :: "int list list \<Rightarrow> metric \<Rightarrow> invocation_result \<Rightarrow> int" where
  "adds tbs k ir =
     (case k of
        OfKeyBucket DURI u b \<Rightarrow> (if ToLower (qURI ir) = qURI ir then hits tbs k ir else 0)
      | _ \<Rightarrow> hits tbs k ir)"

text \<open>A retry reason comes with a retry.\<close>

definition reason_ok :: "invocation_result \<Rightarrow> bool" where
  "reason_ok ir \<longleftrightarrow> 0 < irRetries ir \<or> irLastRetryReason ir = []"

text \<open>The keys that a dimension can have.\<close>

fun dim_key :: "dim \<Rightarrow> string \<Rightarrow> bool" where
  "dim_key DURI k \<longleftrightarrow> ToLower k = k"
| "dim_key DRetryReason k \<longleftrightarrow> k \<noteq> []"
| "dim_key DError k \<longleftrightarrow> True"
| "dim_key d k \<longleftrightarrow> (\<exists>n > 0. k = Itoa n)"

lemma keys_of_dim_key: "k \<in> set (keys_of d ir) \<Longrightarrow> dim_key d k"
  by (cases d) (auto split: if_splits)

lemma below_keys_count:
  assumes "reason_ok ir" and "dim_key d k"
  shows "count_list (below_keys d ir) k = (if d = DURI \<and> ToLower (qURI ir) \<noteq> qURI ir then 0 else count_list (keys_of d ir) k)"
  using assms by (cases d) (auto simp: reason_ok_def dest: Itoa_inj)

definition tr_ok :: "target_results \<Rightarrow> bool" where
  "tr_ok tr \<longleftrightarrow> (\<forall>d. shape True True (dim_map d tr)) \<and> shape False True (CountsByStatusCodes tr) \<and>
     shape True False (CountsByTimeBuckets tr) \<and> mwf (CountsByStatus tr) \<and> (\<forall>d k. mget (dim_map d tr) k \<noteq> None \<longrightarrow> dim_key d k)"

lemma NewTargetResults_ok: "tr_ok (NewTargetResults target hs cross tbs)"
proof -
  have "dim_map d (NewTargetResults target hs cross tbs) = []" for d by (cases d) (simp_all add: NewTargetResults_def)
  then show ?thesis by (simp add: tr_ok_def) (simp add: NewTargetResults_def)
qed

lemma track_result_headers_eq: "\<exists>hs. track_result_headers ir tr = tr\<lparr>CountsByHeaders := hs\<rparr>"
proof -
  let ?P = "\<lambda>tr'. \<exists>hs. tr' = tr\<lparr>CountsByHeaders := hs\<rparr>"
  have step: "?P (processCrossHeadersForHeader h vals ir (addHeaderResult h vals ir tr'))" if "?P tr'" for h vals tr'
    using that by (auto simp: processCrossHeadersForHeader_def addHeaderResult_def split: option.splits)
  have inner: "?P (fold (\<lambda>(rh, vals) tr.
      if EqualFold h rh then processCrossHeadersForHeader h vals ir (addHeaderResult h vals ir tr) else tr) rhs tr')"
    if "?P tr'" for h rhs tr'
    by (rule fold_invariant [where Q = "\<lambda>_. True" and P = ?P]) (use that step in \<open>auto split: prod.splits\<close>)
  have "?P tr" by (rule exI [of _ "CountsByHeaders tr"]) simp
  then show ?thesis unfolding track_result_headers_def
    by (rule fold_invariant [where Q = "\<lambda>_. True" and P = ?P, rotated]) (rule TrueI | rule inner, assumption)+
qed

lemma find_bucket_Some: "list_all (\<lambda>tb. 2 \<le> length tb) tbs \<Longrightarrow> find_bucket took tbs \<noteq> None"
  by (induction tbs) (auto split: list.splits)

text \<open>The two stages of adding a result: the counts, and the time bucket below them.\<close>

lemma addTimeBucket_spec:
  assumes "tr_ok tr"
  shows "\<exists>tr'. addTimeBucketResult tb ir tr = Some tr' \<and> tr_ok tr' \<and> trackingTimeBuckets tr' = trackingTimeBuckets tr \<and>
    (\<forall>k. tally tr' k = tally tr k + (case k of
        OfCodeBucket c b \<Rightarrow> (if c = hCode (hit_of ir) \<and> b = bucket_name tb \<and> mget (CountsByStatusCodes tr) c \<noteq> None then 1 else 0)
      | OfBucket b \<Rightarrow> (if b = bucket_name tb then 1 else 0)
      | OfBucketCode b c \<Rightarrow> (if b = bucket_name tb \<and> c = hCode (hit_of ir) then 1 else 0)
      | OfKeyBucket d k b \<Rightarrow> (if b = bucket_name tb \<and> mget (dim_map d tr) k \<noteq> None then int (count_list (below_keys d ir) k) else 0)
      | _ \<Rightarrow> 0))"
proof -
  let ?x = "hit_of ir" and ?b = "bucket_name tb"
  from assms have sh: "\<And>d. shape True True (dim_map d tr)" "shape False True (CountsByStatusCodes tr)"
    "shape True False (CountsByTimeBuckets tr)" by (auto simp: tr_ok_def)
  have "\<forall>d. \<exists>m'. fold_opt (\<lambda>k. count_below ?b k ?x True) (below_keys d ir) (dim_map d tr) = Some m' \<and> shape True True m' \<and>
     (\<forall>k. kcount m' k = kcount (dim_map d tr) k) \<and> (\<forall>k c. kscount m' k c = kscount (dim_map d tr) k c) \<and>
     (\<forall>k b'. ktcount m' k b' = ktcount (dim_map d tr) k b' +
        (if b' = ?b \<and> mget (dim_map d tr) k \<noteq> None then int (count_list (below_keys d ir) k) else 0)) \<and>
     (\<forall>k. mget m' k \<noteq> None \<longleftrightarrow> mget (dim_map d tr) k \<noteq> None)"
    using belows_spec [OF sh(1)] by blast
  then obtain M where M: "\<And>d. fold_opt (\<lambda>k. count_below ?b k ?x True) (below_keys d ir) (dim_map d tr) = Some (M d)"
    "\<And>d. shape True True (M d)" "\<And>d k. kcount (M d) k = kcount (dim_map d tr) k"
    "\<And>d k c. kscount (M d) k c = kscount (dim_map d tr) k c"
    "\<And>d k b'. ktcount (M d) k b' = ktcount (dim_map d tr) k b' +
        (if b' = ?b \<and> mget (dim_map d tr) k \<noteq> None then int (count_list (below_keys d ir) k) else 0)"
    "\<And>d k. mget (M d) k \<noteq> None \<longleftrightarrow> mget (dim_map d tr) k \<noteq> None" by metis
  obtain m1 where m1: "addKeyResultCounts ?b ?x True False (CountsByTimeBuckets tr) = Some m1" "shape True False m1"
    "\<And>k. kcount m1 k = kcount (CountsByTimeBuckets tr) k + (if k = ?b then 1 else 0)"
    "\<And>k c. kscount m1 k c = kscount (CountsByTimeBuckets tr) k c + (if True \<and> k = ?b \<and> c = hCode ?x then 1 else 0)"
    using add_spec [OF sh(3), of ?b ?x] by metis
  obtain m8 where m8: "count_below ?b (hCode ?x) ?x False (CountsByStatusCodes tr) = Some m8" "shape False True m8"
    "\<And>k. kcount m8 k = kcount (CountsByStatusCodes tr) k"
    "\<And>k b'. ktcount m8 k b' = ktcount (CountsByStatusCodes tr) k b' +
       (if k = hCode ?x \<and> b' = ?b \<and> mget (CountsByStatusCodes tr) (hCode ?x) \<noteq> None then 1 else 0)"
    using below_spec [OF sh(2), of ?b "hCode ?x" ?x] by metis
  let ?tr = "tr\<lparr>CountsByTimeBuckets := m1, CountsByURIs := M DURI, CountsByRequestPayloadSizes := M DRequestSize,
      CountsByResponsePayloadSizes := M DResponseSize, CountsByRetries := M DRetries, CountsByRetryReasons := M DRetryReason,
      CountsByErrors := M DError, CountsByStatusCodes := m8\<rparr>"
  have e: "addTimeBucketResult tb ir tr = Some ?tr"
    using M(1) [of DURI] M(1) [of DRequestSize] M(1) [of DResponseSize] M(1) [of DRetries] M(1) [of DRetryReason] M(1) [of DError]
      m1(1) m8(1) by (simp only: addTimeBucketResult_def Let_def below_keys.simps dim_map.simps fold_opt_single) simp
  have dm: "dim_map d ?tr = M d" for d by (cases d) simp_all
  have "tr_ok ?tr" unfolding tr_ok_def dm using assms M(2) m1(2) m8(2) M(6) by (simp add: tr_ok_def)
  moreover have "tally ?tr k = tally tr k + (case k of
        OfCodeBucket c b \<Rightarrow> (if c = hCode (hit_of ir) \<and> b = bucket_name tb \<and> mget (CountsByStatusCodes tr) c \<noteq> None then 1 else 0)
      | OfBucket b \<Rightarrow> (if b = bucket_name tb then 1 else 0)
      | OfBucketCode b c \<Rightarrow> (if b = bucket_name tb \<and> c = hCode (hit_of ir) then 1 else 0)
      | OfKeyBucket d k b \<Rightarrow> (if b = bucket_name tb \<and> mget (dim_map d tr) k \<noteq> None then int (count_list (below_keys d ir) k) else 0)
      | _ \<Rightarrow> 0)" for k
    by (cases k) (simp_all add: dm M(3-5) m1(3,4) m8(3,4))
  ultimately show ?thesis using e by auto
qed

text \<open>The counts of a result without its time bucket.\<close>

definition count_result :: "(dim \<Rightarrow> key_result) \<Rightarrow> key_result \<Rightarrow> invocation_result \<Rightarrow> target_results \<Rightarrow> target_results" where
  "count_result M m ir tr = tr\<lparr>InvocationCount := InvocationCount tr + 1,
      trFirstResultAt := first_at (qLastRequestAt ir) (trFirstResultAt tr), trLastResultAt := qLastRequestAt ir,
      RetriedInvocationCounts := RetriedInvocationCounts tr + (if 0 < irRetries ir then 1 else 0),
      trClientStreamCount := trClientStreamCount tr + rClientStreamCount ir,
      trServerStreamCount := trServerStreamCount tr + rServerStreamCount ir,
      CountsByStatus := mbump (rStatus ir) (CountsByStatus tr),
      CountsByRetries := M DRetries, CountsByRetryReasons := M DRetryReason, CountsByStatusCodes := m, CountsByURIs := M DURI,
      CountsByRequestPayloadSizes := M DRequestSize, CountsByResponsePayloadSizes := M DResponseSize, CountsByErrors := M DError\<rparr>"

lemma addResult_stages:
  assumes "\<And>d. fold_opt (\<lambda>k. addKeyResultCounts k (hit_of ir) True True) (keys_of d ir) (dim_map d tr) = Some (M d)"
    and "addKeyResultCounts (hCode (hit_of ir)) (hit_of ir) False True (CountsByStatusCodes tr) = Some m"
  shows "addResult ir tr =
    (let tr' = track_result_headers ir (count_result M m ir tr)
     in if trackingTimeBuckets tr = [] then Some tr'
        else case find_bucket (took_millis ir) (trackingTimeBuckets tr) of
               None \<Rightarrow> None | Some tb \<Rightarrow> addTimeBucketResult tb ir tr')"
proof -
  note M = assms(1) [of DURI] assms(1) [of DRequestSize] assms(1) [of DResponseSize] assms(1) [of DRetries]
    assms(1) [of DRetryReason] assms(1) [of DError]
  have "addKeyResultCounts (ToLower (qURI ir)) (hit_of ir) True True (CountsByURIs tr) = Some (M DURI)"
    using M(1) by (simp only: keys_of.simps dim_map.simps fold_opt_single)
  moreover have "(if 0 < qPayloadSize ir then addKeyResultCounts (Itoa (qPayloadSize ir)) (hit_of ir) True True (CountsByRequestPayloadSizes tr)
      else Some (CountsByRequestPayloadSizes tr)) = Some (M DRequestSize)"
    using M(2) by (simp only: keys_of.simps dim_map.simps fold_opt_single split: if_splits) simp_all
  moreover have "(if 0 < rPayloadSize ir then addKeyResultCounts (Itoa (rPayloadSize ir)) (hit_of ir) True True (CountsByResponsePayloadSizes tr)
      else Some (CountsByResponsePayloadSizes tr)) = Some (M DResponseSize)"
    using M(3) by (simp only: keys_of.simps dim_map.simps fold_opt_single split: if_splits) simp_all
  moreover have "(if 0 < irRetries ir then
             do {
               m1 \<leftarrow> addKeyResultCounts (Itoa (irRetries ir)) (hit_of ir) True True (CountsByRetries tr);
               m2 \<leftarrow> (if irLastRetryReason ir \<noteq> []
                      then addKeyResultCounts (irLastRetryReason ir) (hit_of ir) True True (CountsByRetryReasons tr)
                      else Some (CountsByRetryReasons tr));
               Some (1 :: int, m1, m2)
             }
           else Some (0, CountsByRetries tr, CountsByRetryReasons tr)) =
        Some (if 0 < irRetries ir then 1 else 0, M DRetries, M DRetryReason)"
    using M(4,5) by (simp only: keys_of.simps dim_map.simps fold_opt_single split: if_splits) simp_all
  moreover have "fold_opt (\<lambda>e. addKeyResultCounts e (hit_of ir) True True) (error_keys ir) (CountsByErrors tr) = Some (M DError)"
    using M(6) by simp
  ultimately show ?thesis
    using assms(2) unfolding addResult_def count_result_def Let_def
    by (simp only: bind.bind_lunit prod.case) (simp split: option.splits)
qed

lemma addResult_spec:
  assumes ok: "tr_ok tr" and tbs: "list_all (\<lambda>tb. 2 \<le> length tb) (trackingTimeBuckets tr)" and reason: "reason_ok ir"
  shows "\<exists>tr'. addResult ir tr = Some tr' \<and> tr_ok tr' \<and> trackingTimeBuckets tr' = trackingTimeBuckets tr \<and>
    (\<forall>k. tally tr' k = tally tr k + adds (trackingTimeBuckets tr) k ir)"
proof -
  let ?x = "hit_of ir" and ?tbs = "trackingTimeBuckets tr"
  from ok have sh: "\<And>d. shape True True (dim_map d tr)" "shape False True (CountsByStatusCodes tr)" by (auto simp: tr_ok_def)
  have "\<forall>d. \<exists>m'. fold_opt (\<lambda>k. addKeyResultCounts k ?x True True) (keys_of d ir) (dim_map d tr) = Some m' \<and> shape True True m' \<and>
     (\<forall>k. kcount m' k = kcount (dim_map d tr) k + int (count_list (keys_of d ir) k)) \<and>
     (\<forall>k c. kscount m' k c = kscount (dim_map d tr) k c + (if True \<and> c = hCode ?x then int (count_list (keys_of d ir) k) else 0)) \<and>
     (\<forall>k b. ktcount m' k b = ktcount (dim_map d tr) k b) \<and>
     (\<forall>k. mget m' k \<noteq> None \<longleftrightarrow> k \<in> set (keys_of d ir) \<or> mget (dim_map d tr) k \<noteq> None)"
    using adds_spec [OF sh(1)] by blast
  then obtain M where M: "\<And>d. fold_opt (\<lambda>k. addKeyResultCounts k ?x True True) (keys_of d ir) (dim_map d tr) = Some (M d)"
     "\<And>d. shape True True (M d)" "\<And>d k. kcount (M d) k = kcount (dim_map d tr) k + int (count_list (keys_of d ir) k)"
     "\<And>d k c. kscount (M d) k c = kscount (dim_map d tr) k c + (if True \<and> c = hCode ?x then int (count_list (keys_of d ir) k) else 0)"
     "\<And>d k b. ktcount (M d) k b = ktcount (dim_map d tr) k b"
     "\<And>d k. mget (M d) k \<noteq> None \<longleftrightarrow> k \<in> set (keys_of d ir) \<or> mget (dim_map d tr) k \<noteq> None" by metis
  obtain m where m: "addKeyResultCounts (hCode ?x) ?x False True (CountsByStatusCodes tr) = Some m" "shape False True m"
    "\<And>k. kcount m k = kcount (CountsByStatusCodes tr) k + (if k = hCode ?x then 1 else 0)"
    "\<And>k b. ktcount m k b = ktcount (CountsByStatusCodes tr) k b"
    "\<And>k. mget m k \<noteq> None \<longleftrightarrow> k = hCode ?x \<or> mget (CountsByStatusCodes tr) k \<noteq> None"
    using add_spec [OF sh(2), of "hCode ?x" ?x] by metis
  obtain hs where hs: "track_result_headers ir (count_result M m ir tr) = (count_result M m ir tr)\<lparr>CountsByHeaders := hs\<rparr>" (is "_ = ?tr")
    using track_result_headers_eq by blast
  note stages = addResult_stages [OF M(1) m(1), unfolded hs Let_def]
  have dm: "dim_map d ?tr = M d" for d by (cases d) (simp_all add: count_result_def)
  have keys: "dim_key d k" if "mget (M d) k \<noteq> None" for d k
    using that M(6) [of d k] keys_of_dim_key [of k d ir] ok by (auto simp: tr_ok_def)
  have fields: "CountsByStatusCodes ?tr = m" "CountsByTimeBuckets ?tr = CountsByTimeBuckets tr" "trackingTimeBuckets ?tr = ?tbs"
    "CountsByStatus ?tr = mbump (rStatus ir) (CountsByStatus tr)" "InvocationCount ?tr = InvocationCount tr + 1"
    "RetriedInvocationCounts ?tr = RetriedInvocationCounts tr + (if 0 < irRetries ir then 1 else 0)"
    "trClientStreamCount ?tr = trClientStreamCount tr + rClientStreamCount ir" "trServerStreamCount ?tr = trServerStreamCount tr + rServerStreamCount ir"
    by (simp_all add: count_result_def)
  have ok1: "tr_ok ?tr" unfolding tr_ok_def dm using ok M(2) m(2) keys by (auto simp: tr_ok_def fields(1-4))
  have t1: "tally ?tr k = tally tr k + (case k of OfCodeBucket c b \<Rightarrow> 0 | OfBucket b \<Rightarrow> 0 | OfBucketCode b c \<Rightarrow> 0
      | OfKeyBucket d k b \<Rightarrow> 0 | _ \<Rightarrow> hits ?tbs k ir)" for k
    by (cases k) (simp_all add: dm M(3-5) m(3,4) fields hit_of_def)
  show ?thesis
  proof (cases "?tbs = []")
    case True
    have "tally ?tr k = tally tr k + adds ?tbs k ir" for k
      unfolding t1 using True by (cases k) (simp_all add: bucket_of_def adds_def split: dim.split)
    then show ?thesis using stages True ok1 fields(3) by auto
  next
    case False
    obtain tb where tb: "find_bucket (took_millis ir) ?tbs = Some tb" using find_bucket_Some [OF tbs] by blast
    have b: "bucket_of ?tbs ir = Some (bucket_name tb)" using False tb by (simp add: bucket_of_def)
    from addTimeBucket_spec [OF ok1, of tb ir] obtain tr2 where
      2: "addTimeBucketResult tb ir ?tr = Some tr2" "tr_ok tr2" "trackingTimeBuckets tr2 = trackingTimeBuckets ?tr"
        "\<forall>k. tally tr2 k = tally ?tr k + (case k of
            OfCodeBucket c b \<Rightarrow> (if c = hCode (hit_of ir) \<and> b = bucket_name tb \<and> mget (CountsByStatusCodes ?tr) c \<noteq> None then 1 else 0)
          | OfBucket b \<Rightarrow> (if b = bucket_name tb then 1 else 0)
          | OfBucketCode b c \<Rightarrow> (if b = bucket_name tb \<and> c = hCode (hit_of ir) then 1 else 0)
          | OfKeyBucket d k b \<Rightarrow> (if b = bucket_name tb \<and> mget (dim_map d ?tr) k \<noteq> None then int (count_list (below_keys d ir) k) else 0)
          | _ \<Rightarrow> 0)" by blast
    have codes: "mget (CountsByStatusCodes ?tr) (hCode ?x) \<noteq> None" using m(5) by (simp add: fields(1))
    have u: "(if mget (M d) k \<noteq> None then count_list (below_keys d ir) k else 0) =
        (if d = DURI \<and> ToLower (qURI ir) \<noteq> qURI ir then 0 else count_list (keys_of d ir) k)" for d k
    proof (cases "mget (M d) k = None")
      case True
      then have "k \<notin> set (keys_of d ir)" using M(6) [of d k] by auto
      with True show ?thesis by (simp add: count_list_0_iff)
    next
      case False
      with below_keys_count [OF reason keys, of d k] show ?thesis by simp
    qed
    have "tally tr2 k = tally tr k + adds ?tbs k ir" for k
    proof (cases k)
      case (OfKeyBucket d x b')
      have t: "tally tr2 k = tally tr k +
          (if b' = bucket_name tb then int (if mget (M d) x \<noteq> None then count_list (below_keys d ir) x else 0) else 0)"
        using 2(4) [rule_format, of k] unfolding t1 by (simp add: OfKeyBucket dm)
      have "adds ?tbs k ir = (if b' = bucket_name tb
          then int (if d = DURI \<and> ToLower (qURI ir) \<noteq> qURI ir then 0 else count_list (keys_of d ir) x) else 0)"
        by (cases d) (auto simp: OfKeyBucket adds_def b)
      with t show ?thesis unfolding u by simp
    qed (use 2(4) [rule_format, of k] codes t1 [of k] in \<open>auto simp: b hit_of_def adds_def\<close>)
    then show ?thesis using stages False tb 2(1-3) fields(3) by auto
  qed
qed

lemma addResults_spec:
  assumes "tr_ok tr" and "list_all (\<lambda>tb. 2 \<le> length tb) (trackingTimeBuckets tr)" and "list_all reason_ok irs"
  shows "\<exists>tr'. fold_opt addResult irs tr = Some tr' \<and> tr_ok tr' \<and> trackingTimeBuckets tr' = trackingTimeBuckets tr \<and>
    (\<forall>k. tally tr' k = tally tr k + sum_list (map (adds (trackingTimeBuckets tr) k) irs))"
  using assms
proof (induction irs arbitrary: tr)
  case (Cons ir irs)
  from addResult_spec [OF Cons.prems(1,2), of ir] Cons.prems(3) obtain tr1 where
    1: "addResult ir tr = Some tr1" "tr_ok tr1" "trackingTimeBuckets tr1 = trackingTimeBuckets tr"
      "\<forall>k. tally tr1 k = tally tr k + adds (trackingTimeBuckets tr) k ir" by auto
  from Cons.IH [OF 1(2)] Cons.prems(2,3) 1 show ?case by fastforce
qed simp


section \<open>Properties\<close>


definition sample_result :: invocation_result where
  "sample_result = \<lparr>rStatus = ''200 OK'', rStatusCode = 200, rHeaders = [], rPayloadSize = 0, rClientStreamCount = 0,
     rServerStreamCount = 0, qURI = ''/Foo'', qPayloadSize = 0, qLastRequestAt = 5, irRetries = 0, irLastRetryReason = [],
     irErrors = [], irTookNanos = 2000000\<rparr>"



text \<open>A result whose URI has an upper-case letter is counted for its URI in lower case and for its time bucket,
  but in no time bucket of any URI: the time bucket is looked up under the URI as it was sent.\<close>

theorem uri_time_bucket_lost:
  assumes "list_all (\<lambda>tb. 2 \<le> length tb) tbs" and "ToLower (qURI ir) \<noteq> qURI ir" and "list_all reason_ok (ir # irs)"
    and "fold_opt addResult irs (NewTargetResults target hs cross tbs) = Some tr"
  shows "\<exists>tr'. addResult ir tr = Some tr' \<and> tally tr' (OfKey DURI (ToLower (qURI ir))) = tally tr (OfKey DURI (ToLower (qURI ir))) + 1 \<and>
    (\<forall>u b. tally tr' (OfKeyBucket DURI u b) = tally tr (OfKeyBucket DURI u b))"
proof -
  have "trackingTimeBuckets (NewTargetResults target hs cross tbs) = tbs" by (simp add: NewTargetResults_def)
  with addResults_spec [OF NewTargetResults_ok, of target hs cross tbs irs] assms(1,3,4) have
    "tr_ok tr" "trackingTimeBuckets tr = tbs" by auto
  with addResult_spec [of tr ir] assms(1,3) obtain tr' where
    "addResult ir tr = Some tr'" "\<forall>k. tally tr' k = tally tr k + adds tbs k ir" by auto
  then show ?thesis using assms(2) by (intro exI [of _ tr']) (auto simp: adds_def simp del: tally.simps)
qed

theorem uri_time_bucket_lost_witness:
  "\<exists>tr'. addResult sample_result (NewTargetResults ''t'' [] [] [[0, 10]]) = Some tr' \<and>
     (\<forall>u b. tally tr' (OfKeyBucket DURI u b) = tally (NewTargetResults ''t'' [] [] [[0, 10]]) (OfKeyBucket DURI u b))"
proof -
  have "ToLower (qURI sample_result) \<noteq> qURI sample_result" by code_simp
  from uri_time_bucket_lost [OF _ this, of "[[0, 10]]" "[]" "''t''" "[]" "[]"] show ?thesis
    by (auto simp: reason_ok_def sample_result_def simp del: tally.simps)
qed

end
