(* ===== verification/Results_Store.thy ===== *)
theory Results_Store
  imports Client_Results
begin

text \<open>
  Client results, continued: adding up the results of several instances and summarising them
  (\<open>AddDeltaResults\<close>, \<open>AddTargetResult\<close>), and the tables of results by target and by invocation with the
  sinks that fill them. A sink keeps pointers to the results it adds to, so the results live in a heap.
\<close>

section \<open>Adding up header counts\<close>

function addDeltaHeaderCounts ::
    "(string, string list) gomap \<Rightarrow> (string, string) gomap \<Rightarrow> bool \<Rightarrow> header_counts \<Rightarrow> header_counts \<Rightarrow> header_counts"
  and addDeltaCrossHeaders ::
    "(string, string list) gomap \<Rightarrow> (string, string) gomap \<Rightarrow> bool \<Rightarrow> (string, header_counts) gomap \<Rightarrow>
     (string, header_counts) gomap \<Rightarrow> (string, header_counts) gomap"
  and addDeltaCrossHeadersValues ::
    "(string, string list) gomap \<Rightarrow> (string, string) gomap \<Rightarrow> bool \<Rightarrow> (string, (string, header_counts) gomap) gomap \<Rightarrow>
     (string, (string, header_counts) gomap) gomap \<Rightarrow> (string, (string, header_counts) gomap) gomap" where
  "addDeltaHeaderCounts cross crossMap detailed (HC dci dh dvs dscs dvscs dch dchv) (HC ci h vs scs vscs ch chv) =
     (let ci = incrementBy dci (setTimestamps (ciLastResultAt dci) ci);
          vs = fold (\<lambda>(v, c). incrementHeaderCountBy v c) dvs vs
      in if detailed then
           (let scs = fold (\<lambda>(s, c). incrementHeaderCountBy s c) dscs scs;
                vscs = fold (\<lambda>(v, m) r.
                  mput v (fold (\<lambda>(s, c). incrementHeaderCountBy s c) m (mget_or [] r v)) r) dvscs vscs
            in if mget cross h \<noteq> None \<or> mget_or [] crossMap h \<noteq> [] then
                 HC ci h vs scs vscs (addDeltaCrossHeaders cross crossMap detailed dch ch)
                   (addDeltaCrossHeadersValues cross crossMap detailed dchv chv)
               else HC ci h vs scs vscs ch chv)
         else HC ci h vs scs vscs ch chv)"
| "addDeltaCrossHeaders cross crossMap detailed [] r = r"
| "addDeltaCrossHeaders cross crossMap detailed ((c, d) # delta) r =
     addDeltaCrossHeaders cross crossMap detailed delta
       (mput c (addDeltaHeaderCounts cross crossMap detailed d (mget_or (newHeaderCounts c) r c)) r)"
| "addDeltaCrossHeadersValues cross crossMap detailed [] r = r"
| "addDeltaCrossHeadersValues cross crossMap detailed ((v, d) # delta) r =
     addDeltaCrossHeadersValues cross crossMap detailed delta
       (mput v (addDeltaCrossHeaders cross crossMap detailed d (mget_or [] r v)) r)"
  by pat_completeness auto
termination
  by (relation "measure (case_sum (\<lambda>(_, _, _, d, _). size d)
        (case_sum (\<lambda>(_, _, _, d, _). size_list (size_prod (\<lambda>_. 0) size) d)
           (\<lambda>(_, _, _, d, _). size_list (size_prod (\<lambda>_. 0) (size_list (size_prod (\<lambda>_. 0) size))) d)))") auto


section \<open>Adding up counts by key\<close>

definition kc_incrementBy :: "count_info \<Rightarrow> key_counts \<Rightarrow> key_counts" where
  "kc_incrementBy d k = (case k of KC ci s t \<Rightarrow> KC (incrementBy d ci) s t)"






section \<open>Summaries\<close>

record summary_counts =
  sumCount :: int
  sumClientStreamCount :: int
  sumServerStreamCount :: int
  sumByStatusCodes :: "(string, int) gomap"
  sumByTimeBuckets :: "(string, int) gomap"

type_synonym summary_result = "(string, summary_counts) gomap"

definition zero_summary :: summary_counts where
  "zero_summary = \<lparr>sumCount = 0, sumClientStreamCount = 0, sumServerStreamCount = 0, sumByStatusCodes = [], sumByTimeBuckets = []\<rparr>"

definition add_counts :: "key_result option \<Rightarrow> (string, int) gomap \<Rightarrow> (string, int) gomap" where
  "add_counts m r = fold (\<lambda>(k, c) r. mput k (mget_or 0 r k + ciCount (kcInfo c)) r) (entries m) r"

definition incrementKeyResultCounts :: "bool \<Rightarrow> key_result \<Rightarrow> summary_result \<Rightarrow> summary_result" where
  "incrementKeyResultCounts detailed delta result =
     fold (\<lambda>(key, v) r.
         let c = mget_or zero_summary r key
         in mput key
              \<lparr>sumCount = sumCount c + ciCount (kcInfo v),
               sumClientStreamCount = sumClientStreamCount c + ciClientStreamCount (kcInfo v),
               sumServerStreamCount = sumServerStreamCount c + ciServerStreamCount (kcInfo v),
               sumByStatusCodes = (if detailed then add_counts (kcByStatusCodes v) (sumByStatusCodes c) else sumByStatusCodes c),
               sumByTimeBuckets = (if detailed then add_counts (kcByTimeBuckets v) (sumByTimeBuckets c) else sumByTimeBuckets c)\<rparr> r)
       delta result"

record aggregate_view =
  avStatusCodes :: summary_result
  avHeaders :: "(string, int) gomap"
  avHeaderValues :: "(string, (string, int) gomap) gomap"
  avURIs :: summary_result
  avRequestPayloadSizes :: summary_result
  avResponsePayloadSizes :: summary_result
  avRetries :: summary_result
  avRetryReasons :: summary_result
  avErrors :: summary_result
  avTimeBuckets :: summary_result

definition new_view :: aggregate_view where
  "new_view = \<lparr>avStatusCodes = [], avHeaders = [], avHeaderValues = [], avURIs = [], avRequestPayloadSizes = [],
     avResponsePayloadSizes = [], avRetries = [], avRetryReasons = [], avErrors = [], avTimeBuckets = []\<rparr>"

definition av_addTargetResult :: "bool \<Rightarrow> target_results \<Rightarrow> aggregate_view \<Rightarrow> aggregate_view" where
  "av_addTargetResult detailed tr sr =
     \<lparr>avStatusCodes = incrementKeyResultCounts detailed (CountsByStatusCodes tr) (avStatusCodes sr),
      avHeaders = fold (\<lambda>(h, c) m. mput h (mget_or 0 m h + ciCount (hcInfo c)) m) (CountsByHeaders tr) (avHeaders sr),
      avHeaderValues = fold (\<lambda>(h, c) m.
          mput h (fold (\<lambda>(v, ci) r. mput v (mget_or 0 r v + ciCount ci) r) (hcCountsByValues c) (mget_or [] m h)) m)
        (CountsByHeaders tr) (avHeaderValues sr),
      avURIs = incrementKeyResultCounts detailed (CountsByURIs tr) (avURIs sr),
      avRequestPayloadSizes = incrementKeyResultCounts detailed (CountsByRequestPayloadSizes tr) (avRequestPayloadSizes sr),
      avResponsePayloadSizes = incrementKeyResultCounts detailed (CountsByResponsePayloadSizes tr) (avResponsePayloadSizes sr),
      avRetries = incrementKeyResultCounts detailed (CountsByRetries tr) (avRetries sr),
      avRetryReasons = incrementKeyResultCounts detailed (CountsByRetryReasons tr) (avRetryReasons sr),
      avErrors = incrementKeyResultCounts detailed (CountsByErrors tr) (avErrors sr),
      avTimeBuckets = incrementKeyResultCounts detailed (CountsByTimeBuckets tr) (avTimeBuckets sr)\<rparr>"

record client_view =
  cvView :: aggregate_view
  cvInvocationCount :: int
  cvFirstResultAt :: int
  cvLastResultAt :: int

definition cv_addTargetResult :: "bool \<Rightarrow> target_results \<Rightarrow> client_view \<Rightarrow> client_view" where
  "cv_addTargetResult detailed tr car =
     \<lparr>cvView = av_addTargetResult detailed tr (cvView car), cvInvocationCount = cvInvocationCount car + InvocationCount tr,
      cvFirstResultAt = first_at (trFirstResultAt tr) (cvFirstResultAt car),
      cvLastResultAt = last_at (trLastResultAt tr) (cvLastResultAt car)\<rparr>"

definition new_client_view :: client_view where
  "new_client_view = \<lparr>cvView = new_view, cvInvocationCount = 0, cvFirstResultAt = 0, cvLastResultAt = 0\<rparr>"

record targets_view =
  tvView :: aggregate_view
  ResultsByTargets :: "(string, client_view) gomap"

definition NewClientTargetsAggregateResults :: targets_view where
  "NewClientTargetsAggregateResults = \<lparr>tvView = new_view, ResultsByTargets = []\<rparr>"

definition AddTargetResult :: "bool \<Rightarrow> target_results \<Rightarrow> targets_view \<Rightarrow> targets_view" where
  "AddTargetResult detailed tr v =
     \<lparr>tvView = av_addTargetResult detailed tr (tvView v),
      ResultsByTargets = mput (trTarget tr)
        (cv_addTargetResult detailed tr (mget_or new_client_view (ResultsByTargets v) (trTarget tr))) (ResultsByTargets v)\<rparr>"

section \<open>The tables of results\<close>

record invocation_results =
  InvocationIndex :: int
  irsResults :: "invocation_result list"
  Finished :: bool

record results_state =
  trHeap :: "(nat, target_results) gomap"
  trNext :: nat
  targetsResults :: "(string, nat) gomap option"
  irHeap :: "(nat, invocation_results) gomap"
  irNext :: nat
  invocationsResults :: "(int, nat) gomap option"
  collectTargetsResults :: bool
  collectAllTargetsResults :: bool
  collectInvocationResults :: bool

definition results_start :: results_state where
  "results_start = \<lparr>trHeap = [], trNext = 0, targetsResults = None, irHeap = [], irNext = 0, invocationsResults = None,
     collectTargetsResults = True, collectAllTargetsResults = False, collectInvocationResults = False\<rparr>"

definition alloc_tr :: "string \<Rightarrow> results_state \<Rightarrow> results_state \<times> nat" where
  "alloc_tr target st =
     (st\<lparr>trHeap := mput (trNext st) (NewTargetResults target [] [] []) (trHeap st), trNext := trNext st + 1\<rparr>, trNext st)"

definition tr_init :: "bool \<Rightarrow> results_state \<Rightarrow> results_state" where
  "tr_init reset st =
     (if reset \<or> targetsResults st = None then
        (let (st, a) = alloc_tr [] st in st\<lparr>targetsResults := Some [([], a)]\<rparr>)
      else st)"

text \<open>The addresses of the results of the target and of all targets (nil if there is no entry).\<close>

definition getTargetResults :: "string \<Rightarrow> results_state \<Rightarrow> results_state \<times> nat \<times> nat option" where
  "getTargetResults target st0 =
     (let st = tr_init False st0; m = entries (targetsResults st) in
      case mget m target of
        Some a \<Rightarrow> (st, a, mget m [])
      | None \<Rightarrow>
          (let (st, a) = alloc_tr target st; m = mput target a m
           in (st\<lparr>targetsResults := Some m\<rparr>, a, mget m [])))"

definition ir_init :: "bool \<Rightarrow> results_state \<Rightarrow> results_state" where
  "ir_init reset st = (if reset \<or> invocationsResults st = None then st\<lparr>invocationsResults := Some []\<rparr> else st)"

definition getInvocation :: "int \<Rightarrow> results_state \<Rightarrow> results_state \<times> nat" where
  "getInvocation index st0 =
     (let st = ir_init False st0; m = entries (invocationsResults st) in
      case mget m index of
        Some a \<Rightarrow> (st, a)
      | None \<Rightarrow>
          (st\<lparr>irHeap := mput (irNext st) \<lparr>InvocationIndex = index, irsResults = [], Finished = False\<rparr> (irHeap st),
              irNext := irNext st + 1, invocationsResults := Some (mput index (irNext st) m)\<rparr>, irNext st))"

definition upd_tr :: "nat \<Rightarrow> (target_results \<Rightarrow> target_results option) \<Rightarrow> results_state \<Rightarrow> results_state option" where
  "upd_tr a f st =
     (case mget (trHeap st) a of
        None \<Rightarrow> None
      | Some tr \<Rightarrow> map_option (\<lambda>tr'. st\<lparr>trHeap := mput a tr' (trHeap st)\<rparr>) (f tr))"

definition upd_ir :: "nat \<Rightarrow> (invocation_results \<Rightarrow> invocation_results) \<Rightarrow> results_state \<Rightarrow> results_state option" where
  "upd_ir a f st = map_option (\<lambda>ir. st\<lparr>irHeap := mput a (f ir) (irHeap st)\<rparr>) (mget (irHeap st) a)"

record sink =
  sinkInvocation :: nat
  sinkTarget :: nat
  sinkAll :: "nat option"

definition processTrackingConfig ::
  "string list \<Rightarrow> (string, string list) gomap \<Rightarrow> int list list \<Rightarrow> nat \<Rightarrow> nat option \<Rightarrow> results_state \<Rightarrow> results_state option" where
  "processTrackingConfig hs cross buckets a allResults st =
     do {
       st \<leftarrow> upd_tr a (\<lambda>tr. Some (tr\<lparr>trackingHeaders := hs, crossTrackingHeaders := cross,
              crossHeadersMap := BuildCrossHeadersMap cross, trackingTimeBuckets := buckets\<rparr>)) st;
       case allResults of
         None \<Rightarrow> Some st
       | Some b \<Rightarrow> upd_tr b (\<lambda>tr. Some (tr\<lparr>trackingHeaders := hs, crossTrackingHeaders := cross,
              crossHeadersMap := BuildCrossHeadersMap cross\<rparr>)) st
     }"

text \<open>Both sink factories, applied to the tracker of an invocation.\<close>

definition ResultSinkFactory ::
  "string \<Rightarrow> string list \<Rightarrow> (string, string list) gomap \<Rightarrow> int list list \<Rightarrow> int \<Rightarrow> results_state \<Rightarrow> (results_state \<times> sink) option" where
  "ResultSinkFactory target hs cross buckets trackerID st =
     (let (st, a, b) = getTargetResults target st in
      do {
        st \<leftarrow> processTrackingConfig hs cross buckets a b st;
        let (st, i) = getInvocation trackerID st;
        Some (st, \<lparr>sinkInvocation = i, sinkTarget = a, sinkAll = b\<rparr>)
      })"

text \<open>After each of the three tables the sink also sends it to the registry over a channel, which is not modelled.\<close>

definition resultSink :: "sink \<Rightarrow> invocation_result option \<Rightarrow> results_state \<Rightarrow> results_state option" where
  "resultSink s result st =
     (case result of
        None \<Rightarrow> Some st
      | Some ir0 \<Rightarrow>
          (let ir = ir0\<lparr>rHeaders := ToLowerHeaders (rHeaders ir0)\<rparr> in
           do {
             st \<leftarrow> (if collectInvocationResults st
                    then upd_ir (sinkInvocation s) (\<lambda>x. x\<lparr>irsResults := irsResults x @ [ir]\<rparr>) st else Some st);
             st \<leftarrow> (if collectTargetsResults st then upd_tr (sinkTarget s) (addResult ir) st else Some st);
             if collectAllTargetsResults st
             then (case sinkAll s of None \<Rightarrow> None | Some b \<Rightarrow> upd_tr b (addResult ir) st)
             else Some st
           }))"

text \<open>\<open>channelSink\<close>: the results that are received before the invocation is done, then the ones that are still
  in the channel, up to the first nil.\<close>

definition channelSink :: "sink \<Rightarrow> invocation_result option list \<Rightarrow> invocation_result option list \<Rightarrow> results_state \<Rightarrow> results_state option" where
  "channelSink s received buffered st =
     do {
       st \<leftarrow> fold_opt (resultSink s) received st;
       st \<leftarrow> fold_opt (resultSink s) (takeWhile (\<lambda>r. r \<noteq> None) buffered) st;
       upd_ir (sinkInvocation s) (\<lambda>x. x\<lparr>Finished := True\<rparr>) st
     }"

definition ClearResults :: "results_state \<Rightarrow> results_state" where
  "ClearResults st = tr_init True (ir_init True st)"

definition EnableAllTargetResults :: "bool \<Rightarrow> results_state \<Rightarrow> results_state" where
  "EnableAllTargetResults enable st = st\<lparr>collectAllTargetsResults := enable\<rparr>"

definition EnableInvocationResults :: "bool \<Rightarrow> results_state \<Rightarrow> results_state" where
  "EnableInvocationResults enable st = st\<lparr>collectInvocationResults := enable\<rparr>"

section \<open>Adding up is adding the counters\<close>

lemma kc_incrementBy_sel [simp]: "kcInfo (kc_incrementBy d k) = incrementBy d (kcInfo k)"
  "kcByStatusCodes (kc_incrementBy d k) = kcByStatusCodes k" "kcByTimeBuckets (kc_incrementBy d k) = kcByTimeBuckets k"
  by (cases k; simp add: kc_incrementBy_def)+


















section \<open>Properties\<close>



text \<open>The states of the results with the sinks that were made.\<close>

inductive results_reach :: "results_state \<Rightarrow> sink set \<Rightarrow> bool" where
  start: "results_reach results_start {}"
| factory: "results_reach st S \<Longrightarrow> ResultSinkFactory target hs cross tbs trackerID st = Some (st', s) \<Longrightarrow> results_reach st' (insert s S)"
| sink: "results_reach st S \<Longrightarrow> s \<in> S \<Longrightarrow> resultSink s r st = Some st' \<Longrightarrow> results_reach st' S"
| clear: "results_reach st S \<Longrightarrow> results_reach (ClearResults st) S"
| enable_all: "results_reach st S \<Longrightarrow> results_reach (EnableAllTargetResults b st) S"
| enable_inv: "results_reach st S \<Longrightarrow> results_reach (EnableInvocationResults b st) S"

definition sinks_old :: "results_state \<Rightarrow> sink set \<Rightarrow> bool" where
  "sinks_old st S \<longleftrightarrow> (\<forall>s \<in> S. sinkTarget s < trNext st \<and> (\<forall>b. sinkAll s = Some b \<longrightarrow> b < trNext st)) \<and>
     (\<forall>k a. mget (entries (targetsResults st)) k = Some a \<longrightarrow> a < trNext st)"

lemma upd_tr_fields: "upd_tr a f st = Some st' \<Longrightarrow> trNext st' = trNext st \<and> targetsResults st' = targetsResults st \<and>
    invocationsResults st' = invocationsResults st \<and> collectTargetsResults st' = collectTargetsResults st \<and>
    collectAllTargetsResults st' = collectAllTargetsResults st \<and> (\<forall>b. b \<noteq> a \<longrightarrow> mget (trHeap st') b = mget (trHeap st) b)"
  by (auto simp: upd_tr_def split: option.splits)

lemma upd_ir_fields: "upd_ir a f st = Some st' \<Longrightarrow> trNext st' = trNext st \<and> targetsResults st' = targetsResults st \<and>
    trHeap st' = trHeap st \<and> collectTargetsResults st' = collectTargetsResults st \<and>
    collectAllTargetsResults st' = collectAllTargetsResults st"
  by (auto simp: upd_ir_def)

lemma resultSink_fields:
  assumes "resultSink s r st = Some st'"
  shows "trNext st' = trNext st \<and> targetsResults st' = targetsResults st \<and>
    (\<forall>b. b \<noteq> sinkTarget s \<and> sinkAll s \<noteq> Some b \<longrightarrow> mget (trHeap st') b = mget (trHeap st) b)"
proof (cases r)
  case None
  with assms show ?thesis by (simp add: resultSink_def)
next
  case (Some ir)
  let ?ir = "ir\<lparr>rHeaders := ToLowerHeaders (rHeaders ir)\<rparr>"
  from assms [unfolded Some] obtain st1 st2 where
    1: "(if collectInvocationResults st then upd_ir (sinkInvocation s) (\<lambda>x. x\<lparr>irsResults := irsResults x @ [?ir]\<rparr>) st else Some st) = Some st1"
    and 2: "(if collectTargetsResults st1 then upd_tr (sinkTarget s) (addResult ?ir) st1 else Some st1) = Some st2"
    and 3: "(if collectAllTargetsResults st2 then (case sinkAll s of None \<Rightarrow> None | Some b \<Rightarrow> upd_tr b (addResult ?ir) st2) else Some st2) = Some st'"
    unfolding resultSink_def Let_def option.case bind_eq_Some_conv by blast
  have "trNext st1 = trNext st \<and> targetsResults st1 = targetsResults st \<and> trHeap st1 = trHeap st"
    using 1 upd_ir_fields [of _ _ st st1] by (auto split: if_splits)
  moreover have "trNext st2 = trNext st1 \<and> targetsResults st2 = targetsResults st1 \<and>
      (\<forall>b. b \<noteq> sinkTarget s \<longrightarrow> mget (trHeap st2) b = mget (trHeap st1) b)"
    using 2 upd_tr_fields [of _ _ st1 st2] by (simp split: if_splits)
  moreover have "trNext st' = trNext st2 \<and> targetsResults st' = targetsResults st2 \<and>
      (\<forall>b. sinkAll s \<noteq> Some b \<longrightarrow> mget (trHeap st') b = mget (trHeap st2) b)"
    using 3 upd_tr_fields [of _ _ st2 st'] by (simp split: if_splits option.splits)
  ultimately show ?thesis by simp
qed

lemma getTargetResults_old:
  assumes "getTargetResults target st = (st', a, b)" and "sinks_old st S"
  shows "sinks_old st' S \<and> a < trNext st' \<and> (\<forall>c. b = Some c \<longrightarrow> c < trNext st')"
proof -
  have "sinks_old (tr_init False st) S"
    using assms(2) by (auto simp: sinks_old_def tr_init_def alloc_tr_def)
  then show ?thesis using assms(1)
    by (auto simp: getTargetResults_def Let_def alloc_tr_def sinks_old_def split: option.splits if_splits prod.splits)
      (metis less_SucI)+
qed

lemma results_reach_old: "results_reach st S \<Longrightarrow> sinks_old st S"
proof (induction rule: results_reach.induct)
  case (factory st S target hs cross tbs trackerID st' s)
  obtain st1 a b where g: "getTargetResults target st = (st1, a, b)" by (metis prod_cases3)
  note old = getTargetResults_old [OF g factory.IH]
  from factory.hyps(2) g obtain st2 where p: "processTrackingConfig hs cross tbs a b st1 = Some st2"
    and s: "s = \<lparr>sinkInvocation = snd (getInvocation trackerID st2), sinkTarget = a, sinkAll = b\<rparr>" "st' = fst (getInvocation trackerID st2)"
    by (auto simp: ResultSinkFactory_def bind_eq_Some_conv case_prod_beta)
  have "trNext st2 = trNext st1 \<and> targetsResults st2 = targetsResults st1"
    using p upd_tr_fields by (auto simp: processTrackingConfig_def bind_eq_Some_conv split: option.splits)
  moreover have "trNext st' = trNext st2 \<and> targetsResults st' = targetsResults st2"
    by (auto simp: s(2) getInvocation_def ir_init_def Let_def split: option.splits)
  ultimately show ?case using old by (auto simp: sinks_old_def s(1))
next
  case (sink st S s r st')
  then show ?case using resultSink_fields [of s r st st'] by (simp add: sinks_old_def)
qed (auto simp: sinks_old_def results_start_def ClearResults_def tr_init_def ir_init_def alloc_tr_def
      EnableAllTargetResults_def EnableInvocationResults_def)

text \<open>C18: Clearing the results detaches the invocations that are running: what a sink that was made before the
  clear adds is added to the old results, so after the first result that a sink adds the results in the tables of
  this instance are still empty. (What is sent to the registry is not modelled.)\<close>

theorem clear_detaches_sinks:
  assumes "results_reach st S" and "s \<in> S" and "resultSink s r (ClearResults st) = Some st'"
    and "mget (entries (targetsResults st')) target = Some a"
  shows "mget (trHeap st') a = Some (NewTargetResults [] [] [] [])"
proof -
  let ?st = "ClearResults st"
  from resultSink_fields [OF assms(3)] have f: "targetsResults st' = targetsResults ?st"
    "b \<noteq> sinkTarget s \<and> sinkAll s \<noteq> Some b \<longrightarrow> mget (trHeap st') b = mget (trHeap ?st) b" for b by auto
  have new: "targetsResults ?st = Some [([], trNext st)]" "mget (trHeap ?st) (trNext st) = Some (NewTargetResults [] [] [] [])"
    by (auto simp: ClearResults_def tr_init_def ir_init_def alloc_tr_def)
  from assms(4) f(1) new(1) have "a = trNext st" by (auto split: if_splits)
  moreover have "sinkTarget s < trNext st" "\<forall>b. sinkAll s = Some b \<longrightarrow> b < trNext st"
    using results_reach_old [OF assms(1)] assms(2) by (auto simp: sinks_old_def)
  ultimately show ?thesis using f(2) [of a] new(2) by auto
qed

definition sample_sink :: "results_state \<times> sink" where
  "sample_sink = the (ResultSinkFactory ''t'' [] [] [] 1 results_start)"

theorem clear_detaches_sinks_witness:
  "\<exists>st'. resultSink (snd sample_sink) (Some sample_result) (ClearResults (fst sample_sink)) = Some st' \<and>
     mget (trHeap st') 2 = Some (NewTargetResults [] [] [] [])"
proof -
  have "ResultSinkFactory ''t'' [] [] [] 1 results_start = Some sample_sink" by code_simp
  then have "ResultSinkFactory ''t'' [] [] [] 1 results_start = Some (fst sample_sink, snd sample_sink)" by simp
  note reach = results_reach.factory [OF results_reach.start this]
  obtain st' where st': "resultSink (snd sample_sink) (Some sample_result) (ClearResults (fst sample_sink)) = Some st'"
    "mget (entries (targetsResults st')) [] = Some 2"
  proof -
    have "map_option (\<lambda>st. mget (entries (targetsResults st)) []) (resultSink (snd sample_sink) (Some sample_result) (ClearResults (fst sample_sink)))
        = Some (Some 2)" by code_simp
    then show thesis using that by auto
  qed
  with clear_detaches_sinks [OF reach _ st'(1), of "[]" 2] show ?thesis by auto
qed

end
