(* ===== verification/Registry.thy ===== *)
theory Registry
  imports Locker_Lifecycle Util_Tracking Results_Store
begin

text \<open>
  The registry: \<open>pkg/registry/registry.go\<close> and \<open>pkg/registry/peerCaller.go\<close>. The registry keeps the peers
  with their pods and the epochs in which a pod was known, and the targets, jobs, scripts, tracking headers, time
  buckets and probes that it pushes to the peers. \<open>PodEpochs\<close> holds pointers to the current epochs
  of pods, so the epochs live in a heap. A call to a pod is network I/O: the outcome of every attempt is
  an argument (\<open>attempts\<close>). The calls to different pods run concurrently and touch different pods; they are
  made in the order of the pods.
\<close>

section \<open>State\<close>

record pod_epoch =
  Epoch :: int
  epName :: string
  epAddress :: string
  epNode :: string
  epCluster :: string
  FirstContact :: int
  LastContact :: int

record peer =
  pName :: string
  pAddress :: string
  pPod :: string
  pNamespace :: string
  pNode :: string
  pCluster :: string

text \<open>\<open>podClient\<close>: whether the pod has an HTTP client.\<close>

record pod =
  podName :: string
  podAddress :: string
  podNode :: string
  podCluster :: string
  Healthy :: bool
  CurrentEpoch :: nat
  PastEpochs :: "nat list"
  podURL :: string
  Offline :: bool
  podClient :: bool

record peers =
  prName :: string
  prNamespace :: string
  Pods :: "(string, pod) gomap"
  PodEpochs :: "(string, nat list) gomap"

record peer_probes =
  ppReadinessProbe :: string
  ppLivenessProbe :: string
  ppReadinessStatus :: int
  ppLivenessStatus :: int

text \<open>Targets, jobs, scripts and files by peer and name; their content is text.\<close>

type_synonym peer_items = "(string, (string, string) gomap) gomap"

record registry =
  regPeers :: "(string, peers) gomap"
  epHeap :: "(nat, pod_epoch) gomap"
  epNext :: nat
  peerTargets :: peer_items
  peerJobs :: peer_items
  peerJobScripts :: peer_items
  peerFiles :: peer_items
  peerTrackingHeaders :: string
  regTrackingHeaders :: "string list"
  regCrossTrackingHeaders :: "(string, string list) gomap"
  peerTrackingTimeBuckets :: string
  regTrackingTimeBuckets :: "int list list"
  peerProbes :: "peer_probes option"
  regLockers :: labeled_lockers
  eventsCounter :: int

definition new_registry :: "int \<Rightarrow> registry" where
  "new_registry now = \<lparr>regPeers = [], epHeap = [], epNext = 0, peerTargets = [], peerJobs = [], peerJobScripts = [],
     peerFiles = [], peerTrackingHeaders = [], regTrackingHeaders = [], regCrossTrackingHeaders = [],
     peerTrackingTimeBuckets = [], regTrackingTimeBuckets = [], peerProbes = None, regLockers = NewLabeledLockers now,
     eventsCounter = 0\<rparr>"

definition with_current :: "(combi_locker \<Rightarrow> combi_locker) \<Rightarrow> registry \<Rightarrow> registry option" where
  "with_current f reg =
     (case currentLocker (regLockers reg) of
        None \<Rightarrow> None
      | Some a \<Rightarrow> Some (reg\<lparr>regLockers := upd_cl a f (regLockers reg)\<rparr>))"

definition StoreEventInCurrentLocker :: "int \<Rightarrow> string \<Rightarrow> string \<Rightarrow> string \<Rightarrow> registry \<Rightarrow> registry option" where
  "StoreEventInCurrentLocker now selfName title json reg =
     (let n = eventsCounter reg + 1
      in with_current (StorePeerData now selfName [] [''events'', title @ ''-'' @ Itoa n] json) (reg\<lparr>eventsCounter := n\<rparr>))"

definition reset :: "int \<Rightarrow> registry \<Rightarrow> registry" where
  "reset now reg = reg\<lparr>regPeers := [], peerTargets := [], peerJobs := [], peerJobScripts := [], peerFiles := [],
     regLockers := NewLabeledLockers now\<rparr>"

section \<open>Peers and pods\<close>

definition ensure :: "string \<Rightarrow> peer_items \<Rightarrow> peer_items" where
  "ensure name m = (if mget m name = None then mput name [] m else m)"

definition new_peers :: "peer \<Rightarrow> peers" where
  "new_peers p = \<lparr>prName = pName p, prNamespace = pNamespace p, Pods = [], PodEpochs = []\<rparr>"

definition unsafeAddPeer :: "int \<Rightarrow> peer \<Rightarrow> registry \<Rightarrow> registry" where
  "unsafeAddPeer now p reg =
     (let ps = mget_or (new_peers p) (regPeers reg) (pName p);
          old = mget_or [] (PodEpochs ps) (pAddress p);
          e = epNext reg;
          ep = \<lparr>Epoch = int (length old), epName = pPod p, epAddress = pAddress p, epNode = pNode p, epCluster = pCluster p,
                FirstContact = now, LastContact = now\<rparr>;
          pod = \<lparr>podName = pPod p, podAddress = pAddress p, podNode = pNode p, podCluster = pCluster p, Healthy = True,
                 CurrentEpoch = e, PastEpochs = old, podURL = ''http://'' @ pAddress p, Offline = False, podClient = True\<rparr>;
          ps = ps\<lparr>PodEpochs := mput (pAddress p) (old @ [e]) (PodEpochs ps), Pods := mput (pAddress p) pod (Pods ps)\<rparr>
      in reg\<lparr>regPeers := mput (pName p) ps (regPeers reg), epHeap := mput e ep (epHeap reg), epNext := e + 1,
             peerTargets := ensure (pName p) (peerTargets reg), peerJobs := ensure (pName p) (peerJobs reg),
             peerJobScripts := ensure (pName p) (peerJobScripts reg), peerFiles := ensure (pName p) (peerFiles reg)\<rparr>)"

definition reg_addPeer :: "int \<Rightarrow> peer \<Rightarrow> registry \<Rightarrow> registry option" where
  "reg_addPeer now p reg = with_current (InitPeerLocker (pName p) (pAddress p)) (unsafeAddPeer now p reg)"

definition GetPeer :: "string \<Rightarrow> string \<Rightarrow> registry \<Rightarrow> pod option" where
  "GetPeer name address reg = (case mget (regPeers reg) name of None \<Rightarrow> None | Some ps \<Rightarrow> mget (Pods ps) address)"

definition upd_peers :: "string \<Rightarrow> (peers \<Rightarrow> peers) \<Rightarrow> registry \<Rightarrow> registry" where
  "upd_peers name f reg =
     (case mget (regPeers reg) name of None \<Rightarrow> reg | Some ps \<Rightarrow> reg\<lparr>regPeers := mput name (f ps) (regPeers reg)\<rparr>)"

definition upd_pod :: "string \<Rightarrow> string \<Rightarrow> (pod \<Rightarrow> pod) \<Rightarrow> registry \<Rightarrow> registry" where
  "upd_pod name address f =
     upd_peers name (\<lambda>ps. case mget (Pods ps) address of None \<Rightarrow> ps | Some pod \<Rightarrow> ps\<lparr>Pods := mput address (f pod) (Pods ps)\<rparr>)"

definition upd_epoch :: "nat \<Rightarrow> (pod_epoch \<Rightarrow> pod_epoch) \<Rightarrow> registry \<Rightarrow> registry" where
  "upd_epoch e f reg =
     (case mget (epHeap reg) e of None \<Rightarrow> reg | Some ep \<Rightarrow> reg\<lparr>epHeap := mput e (f ep) (epHeap reg)\<rparr>)"

definition rememberPeer :: "int \<Rightarrow> peer \<Rightarrow> registry \<Rightarrow> registry" where
  "rememberPeer now p reg =
     (case GetPeer (pName p) (pAddress p) reg of
        Some pod \<Rightarrow>
          upd_epoch (CurrentEpoch pod) (\<lambda>e. e\<lparr>LastContact := now\<rparr>)
            (upd_pod (pName p) (pAddress p) (\<lambda>pod. pod\<lparr>Healthy := True, Offline := False, podClient := True\<rparr>) reg)
      | None \<Rightarrow> unsafeAddPeer now p reg)"

definition reg_removePeer :: "string \<Rightarrow> string \<Rightarrow> registry \<Rightarrow> (registry \<times> bool) option" where
  "reg_removePeer name address reg =
     map_option (\<lambda>reg'. (reg', mget (regPeers reg) name \<noteq> None))
       (with_current (DeactivateInstanceLocker name address)
          (upd_peers name (\<lambda>ps. ps\<lparr>Pods := mdel address (Pods ps)\<rparr>) reg))"

definition clear_epochs :: "peers \<Rightarrow> peers" where
  "clear_epochs ps =
     ps\<lparr>PodEpochs := concat (map (\<lambda>(address, es).
            case mget (Pods ps) address of None \<Rightarrow> [] | Some pod \<Rightarrow> [(address, [CurrentEpoch pod])]) (PodEpochs ps)),
        Pods := map (\<lambda>(address, pod).
            (address, if mget (PodEpochs ps) address \<noteq> None then pod\<lparr>PastEpochs := []\<rparr> else pod)) (Pods ps)\<rparr>"

definition reg_clearPeerEpochs :: "registry \<Rightarrow> registry option" where
  "reg_clearPeerEpochs reg =
     fold_opt (\<lambda>(name, ps) reg.
         if Pods ps = [] then with_current (RemovePeerLocker name) (reg\<lparr>regPeers := mdel name (regPeers reg)\<rparr>)
         else Some (upd_peers name clear_epochs reg))
       (regPeers reg) reg"

section \<open>Calling pods\<close>

definition getPodsArray :: "(string, pod) gomap \<Rightarrow> pod list" where
  "getPodsArray pods = filter podClient (map snd pods)"

type_synonym peer_pods = "(string, pod list) gomap"

definition loadAllPeerPods :: "registry \<Rightarrow> peer_pods" where
  "loadAllPeerPods reg = map (\<lambda>(name, ps). (name, getPodsArray (Pods ps))) (regPeers reg)"

definition loadPeerPods :: "string \<Rightarrow> string \<Rightarrow> registry \<Rightarrow> peer_pods" where
  "loadPeerPods name address reg =
     (if name \<noteq> [] then
        (case mget (regPeers reg) name of
           None \<Rightarrow> []
         | Some ps \<Rightarrow>
             (if address \<noteq> [] then
                (case mget (Pods ps) address of
                   Some pod \<Rightarrow> (if podClient pod then [(name, [pod])] else [])
                 | None \<Rightarrow> [])
              else [(name, getPodsArray (Pods ps))]))
      else loadAllPeerPods reg)"

definition loadPodsForPeerWithData :: "string \<Rightarrow> bool \<Rightarrow> registry \<Rightarrow> peer_pods" where
  "loadPodsForPeerWithData name jobs reg =
     (if name \<noteq> [] then
        (let hasData = (if jobs then mget (peerJobs reg) name \<noteq> None \<or> mget (peerJobScripts reg) name \<noteq> None
                        else mget (peerTargets reg) name \<noteq> None)
         in case mget (regPeers reg) name of
              Some ps \<Rightarrow> (if hasData then [(name, getPodsArray (Pods ps))] else [])
            | None \<Rightarrow> [])
      else loadAllPeerPods reg)"

text \<open>The outcome of one attempt: an answer that has the expected status or not, a time-out, another error.\<close>

datatype outcome = Answered bool | TimedOut | CallError

fun last_attempt :: "(nat \<Rightarrow> outcome) \<Rightarrow> nat \<Rightarrow> nat \<Rightarrow> outcome" where
  "last_attempt att i 0 = att i"
| "last_attempt att i (Suc n) = (case att i of TimedOut \<Rightarrow> last_attempt att (Suc i) n | r \<Rightarrow> r)"

text \<open>\<open>invokePod\<close>: the success, and what \<open>onPodDone\<close> is called with, if it is called: whether there is no
  error, and whether the pod was marked as bad before.\<close>

definition invokePod :: "nat \<Rightarrow> (nat \<Rightarrow> outcome) \<Rightarrow> pod \<Rightarrow> bool \<times> (bool \<times> bool) option" where
  "invokePod retryCount att pod =
     (if \<not> podClient pod \<or> Offline pod then (True, None)
      else case last_attempt att 0 retryCount of
             Answered ok \<Rightarrow> (ok, Some (ok, False))
           | TimedOut \<Rightarrow> (False, Some (False, True))
           | CallError \<Rightarrow> (False, Some (False, False)))"

type_synonym attempts = "string \<Rightarrow> string \<Rightarrow> nat \<Rightarrow> outcome"

definition call_pod :: "nat \<Rightarrow> bool \<Rightarrow> attempts \<Rightarrow> string \<Rightarrow> pod \<Rightarrow> bool \<times> (bool \<times> bool) option" where
  "call_pod retryCount useUnhealthy att name pod =
     (if \<not> useUnhealthy \<and> \<not> Healthy pod then (False, None) else invokePod retryCount (att name (podAddress pod)) pod)"

type_synonym peer_results = "(string, (string, bool) gomap) gomap"

text \<open>The results, and the calls of \<open>onPodDone\<close> with the peer, the pod's address, the absence of an error and
  whether the pod is marked as bad.\<close>

definition invokeForPods :: "nat \<Rightarrow> bool \<Rightarrow> attempts \<Rightarrow> peer_pods \<Rightarrow> peer_results \<times> (string \<times> string \<times> bool \<times> bool) list" where
  "invokeForPods retryCount useUnhealthy att pp =
     (map (\<lambda>(name, pods).
        (name, fold (\<lambda>pod m. mput (podAddress pod) (fst (call_pod retryCount useUnhealthy att name pod)) m) pods [])) pp,
      concat (map (\<lambda>(name, pods). concat (map (\<lambda>pod.
        case snd (call_pod retryCount useUnhealthy att name pod) of
          None \<Rightarrow> [] | Some (ok, bad) \<Rightarrow> [(name, podAddress pod, ok, bad)]) pods)) pp))"

definition mark_bad :: "(string \<times> string \<times> bool \<times> bool) list \<Rightarrow> registry \<Rightarrow> registry" where
  "mark_bad dones reg =
     fold (\<lambda>(name, address, ok, bad) reg. if bad then upd_pod name address (\<lambda>p. p\<lparr>Healthy := False\<rparr>) reg else reg) dones reg"

text \<open>A call whose \<open>onPodDone\<close> only writes to the log.\<close>

definition push_to_pods :: "nat \<Rightarrow> attempts \<Rightarrow> peer_pods \<Rightarrow> registry \<Rightarrow> registry \<times> peer_results" where
  "push_to_pods retryCount att pp reg =
     (case invokeForPods retryCount False att pp of (res, dones) \<Rightarrow> (mark_bad dones reg, res))"

definition reg_checkPeerHealth :: "string \<Rightarrow> string \<Rightarrow> attempts \<Rightarrow> registry \<Rightarrow> registry \<times> peer_results" where
  "reg_checkPeerHealth name address att reg =
     (case invokeForPods 1 True att (loadPeerPods name address reg) of
        (res, dones) \<Rightarrow>
          (fold (\<lambda>(name, address, ok, bad). upd_pod name address (\<lambda>p. p\<lparr>Healthy := ok\<rparr>)) dones (mark_bad dones reg), res))"

definition cleanup_step :: "string \<times> string \<times> bool \<times> bool \<Rightarrow> registry \<Rightarrow> registry option" where
  "cleanup_step = (\<lambda>(name, address, ok, bad) reg.
     if ok then Some (upd_pod name address (\<lambda>p. p\<lparr>Healthy := True, PastEpochs := []\<rparr>) reg)
     else map_option fst (reg_removePeer name address reg))"

definition reg_cleanupUnhealthyPeers :: "string \<Rightarrow> attempts \<Rightarrow> registry \<Rightarrow> (registry \<times> peer_results) option" where
  "reg_cleanupUnhealthyPeers name att reg =
     (case invokeForPods 1 True att (loadPeerPods name [] reg) of
        (res, dones) \<Rightarrow>
          map_option (\<lambda>reg. (reg, res)) (fold_opt cleanup_step dones (mark_bad dones reg)))"

text \<open>The registry's own events, which are cleared too, are the state of \<open>Events\<close>.\<close>

definition clearPeersResultsAndEvents :: "attempts \<Rightarrow> attempts \<Rightarrow> peer_pods \<Rightarrow> registry \<Rightarrow> registry \<times> peer_results" where
  "clearPeersResultsAndEvents attEvents attResults pp reg =
     (let (reg1, _) = push_to_pods 2 attEvents pp reg;
          pp' = map (\<lambda>(name, pods). (name, map (\<lambda>p. case GetPeer name (podAddress p) reg1 of Some p' \<Rightarrow> p' | None \<Rightarrow> p) pods)) pp
      in push_to_pods 2 attResults pp' reg1)"

definition reg_clearLocker :: "string \<Rightarrow> string \<Rightarrow> attempts \<Rightarrow> attempts \<Rightarrow> registry \<Rightarrow> (registry \<times> peer_results) option" where
  "reg_clearLocker name address attEvents attResults reg =
     (case currentLocker (regLockers reg) of
        None \<Rightarrow> None
      | Some a \<Rightarrow>
          (case mget (llHeap (regLockers reg)) a of
             None \<Rightarrow> None
           | Some cl \<Rightarrow>
               (let (cl', found) = (if name \<noteq> [] \<and> address \<noteq> [] then cl_ClearInstanceLocker name address cl
                                    else (InitPeerLocker name [] cl, True));
                    pp = (if \<not> found then [] else loadPeerPods name (if name \<noteq> [] then address else []) reg)
                in Some (clearPeersResultsAndEvents attEvents attResults pp
                     (reg\<lparr>regLockers := upd_cl a (\<lambda>_. cl') (regLockers reg)\<rparr>)))))"

section \<open>Targets, jobs and files\<close>

definition put_item :: "string \<Rightarrow> string \<Rightarrow> string \<Rightarrow> peer_items \<Rightarrow> peer_items" where
  "put_item name item content m = mput name (mput item content (mget_or [] m name)) m"

text \<open>The peers that an item is stored for, and the pods it is pushed to.\<close>

definition item_peers :: "string \<Rightarrow> registry \<Rightarrow> string list" where
  "item_peers name reg = (if name \<noteq> [] then [name] else map fst (regPeers reg))"

definition item_pods :: "string \<Rightarrow> registry \<Rightarrow> peer_pods" where
  "item_pods name reg =
     (if name \<noteq> [] then (case mget (regPeers reg) name of None \<Rightarrow> [] | Some ps \<Rightarrow> [(name, getPodsArray (Pods ps))])
      else loadAllPeerPods reg)"

definition reg_addPeerTarget :: "string \<Rightarrow> string \<Rightarrow> string \<Rightarrow> attempts \<Rightarrow> registry \<Rightarrow> registry \<times> peer_results" where
  "reg_addPeerTarget name target content att reg =
     push_to_pods 1 att (item_pods name reg)
       (reg\<lparr>peerTargets := fold (\<lambda>p. put_item p target content) (item_peers name reg) (peerTargets reg)\<rparr>)"

definition reg_addPeerJob :: "string \<Rightarrow> string \<Rightarrow> string \<Rightarrow> attempts \<Rightarrow> registry \<Rightarrow> registry \<times> peer_results" where
  "reg_addPeerJob name job content att reg =
     push_to_pods 1 att (item_pods name reg)
       (reg\<lparr>peerJobs := fold (\<lambda>p. put_item p job content) (item_peers name reg) (peerJobs reg)\<rparr>)"

text \<open>\<open>storePeerFile\<close>: for a file, the map of files is created and the content is written to the map of
  scripts, which panics if the peer has none.\<close>

definition storePeerFile :: "bool \<Rightarrow> string \<Rightarrow> string \<Rightarrow> string \<Rightarrow> registry \<Rightarrow> registry option" where
  "storePeerFile script fileName content name reg =
     (if script then Some (reg\<lparr>peerJobScripts := put_item name fileName content (peerJobScripts reg)\<rparr>)
      else
        (case mget (peerJobScripts reg) name of
           None \<Rightarrow> None
         | Some m \<Rightarrow>
             Some (reg\<lparr>peerFiles := ensure name (peerFiles reg),
                       peerJobScripts := mput name (mput fileName content m) (peerJobScripts reg)\<rparr>)))"

definition BuildFilePath :: "string \<Rightarrow> string \<Rightarrow> string" where
  "BuildFilePath filePath fileName =
     (if filePath \<noteq> [] \<and> \<not> HasSuffix filePath ''/'' \<and> \<not> HasSuffix filePath [CHR 0x5C] then filePath @ ''/'' else filePath)
     @ fileName"

definition reg_addPeerJobScriptOrFile ::
  "string \<Rightarrow> string \<Rightarrow> string \<Rightarrow> string \<Rightarrow> bool \<Rightarrow> attempts \<Rightarrow> registry \<Rightarrow> (registry \<times> peer_results) option" where
  "reg_addPeerJobScriptOrFile name filePath fileName content script att reg =
     (let nameKey = (if script then fileName else BuildFilePath filePath fileName)
      in map_option (push_to_pods 1 att (item_pods name reg)) (fold_opt (storePeerFile script nameKey content) (item_peers name reg) reg))"

text \<open>The variable \<open>removed\<close> is shared by all peers: \<open>onPeerDone\<close> acts on it and sets it again.\<close>

fun peers_done :: "(string \<Rightarrow> registry \<Rightarrow> registry) \<Rightarrow> string list \<Rightarrow> bool \<Rightarrow> registry \<Rightarrow> registry" where
  "peers_done f [] removed reg = reg"
| "peers_done f (p # ps) removed reg = peers_done f ps True (if removed then f p reg else reg)"

definition call_and_remove ::
  "(string \<Rightarrow> registry \<Rightarrow> registry) \<Rightarrow> attempts \<Rightarrow> peer_pods \<Rightarrow> registry \<Rightarrow> registry \<times> peer_results" where
  "call_and_remove f att pp reg =
     (case invokeForPods 3 False att pp of
        (res, dones) \<Rightarrow>
          (peers_done f (map fst pp) (list_all (\<lambda>(name, address, ok, bad). ok) dones) (mark_bad dones reg), res))"

definition drop_targets :: "string list \<Rightarrow> string \<Rightarrow> registry \<Rightarrow> registry" where
  "drop_targets targets p reg =
     (case mget (peerTargets reg) p of
        None \<Rightarrow> reg
      | Some m \<Rightarrow>
          (if targets \<noteq> [] then reg\<lparr>peerTargets := mput p (fold mdel targets m) (peerTargets reg)\<rparr>
           else reg\<lparr>peerTargets := mdel p (peerTargets reg)\<rparr>))"

definition reg_removePeerTargets :: "string \<Rightarrow> string list \<Rightarrow> attempts \<Rightarrow> registry \<Rightarrow> registry \<times> peer_results" where
  "reg_removePeerTargets name targets att reg =
     call_and_remove (drop_targets targets) att (loadPodsForPeerWithData name False reg) reg"

definition reg_clearPeerTargets :: "string \<Rightarrow> attempts \<Rightarrow> registry \<Rightarrow> registry \<times> peer_results" where
  "reg_clearPeerTargets name att reg =
     call_and_remove (\<lambda>p reg. reg\<lparr>peerTargets := mdel p (peerTargets reg)\<rparr>) att (loadPodsForPeerWithData name False reg) reg"

definition drop_jobs :: "string list \<Rightarrow> string \<Rightarrow> registry \<Rightarrow> registry" where
  "drop_jobs jobs p reg =
     (case mget (peerJobs reg) p of
        None \<Rightarrow> reg\<lparr>peerJobs := mdel p (peerJobs reg)\<rparr>
      | Some m \<Rightarrow> reg\<lparr>peerJobs := mput p (fold mdel jobs m) (peerJobs reg)\<rparr>)"

definition reg_removePeerJobs :: "string \<Rightarrow> string list \<Rightarrow> attempts \<Rightarrow> registry \<Rightarrow> registry \<times> peer_results" where
  "reg_removePeerJobs name jobs att reg =
     call_and_remove (drop_jobs jobs) att (loadPodsForPeerWithData name True reg) reg"

definition reg_clearPeerJobs :: "string \<Rightarrow> attempts \<Rightarrow> registry \<Rightarrow> registry \<times> peer_results" where
  "reg_clearPeerJobs name att reg =
     call_and_remove (\<lambda>p reg. reg\<lparr>peerJobs := mdel p (peerJobs reg)\<rparr>) att (loadPodsForPeerWithData name True reg) reg"

text \<open>Stopping and invoking targets and running and stopping jobs only call the pods.\<close>

definition call_targets :: "nat \<Rightarrow> bool \<Rightarrow> string \<Rightarrow> attempts \<Rightarrow> registry \<Rightarrow> registry \<times> peer_results" where
  "call_targets retryCount jobs name att reg = push_to_pods retryCount att (loadPodsForPeerWithData name jobs reg) reg"

definition reg_enableResults :: "string \<Rightarrow> bool \<Rightarrow> attempts \<Rightarrow> results_state \<times> registry \<Rightarrow> (results_state \<times> registry) \<times> peer_results" where
  "reg_enableResults enable all att s =
     (case s of (rs, reg) \<Rightarrow>
        (case push_to_pods 3 att (loadAllPeerPods reg) reg of
           (reg', res) \<Rightarrow>
             ((if all then EnableAllTargetResults (IsYes enable) rs else EnableInvocationResults (IsYes enable) rs, reg'), res)))"

section \<open>Tracking and probes\<close>

definition reg_addPeersTrackingHeaders :: "string \<Rightarrow> attempts \<Rightarrow> registry \<Rightarrow> registry \<times> peer_results" where
  "reg_addPeersTrackingHeaders headers att reg =
     push_to_pods 3 att (loadAllPeerPods reg)
       (reg\<lparr>peerTrackingHeaders := headers, regTrackingHeaders := fst (ParseTrackingHeaders headers),
            regCrossTrackingHeaders := snd (ParseTrackingHeaders headers)\<rparr>)"

definition reg_clearPeersTrackingHeaders :: "attempts \<Rightarrow> registry \<Rightarrow> registry \<times> peer_results" where
  "reg_clearPeersTrackingHeaders att reg =
     push_to_pods 3 att (loadAllPeerPods reg)
       (reg\<lparr>peerTrackingHeaders := [], regTrackingHeaders := [], regCrossTrackingHeaders := []\<rparr>)"

text \<open>The results are nil, \<open>None\<close>, when the text is not valid.\<close>

definition reg_addPeersTrackingTimeBuckets :: "string \<Rightarrow> attempts \<Rightarrow> registry \<Rightarrow> registry \<times> peer_results option" where
  "reg_addPeersTrackingTimeBuckets b att reg0 =
     (let reg = reg0\<lparr>peerTrackingTimeBuckets := b\<rparr> in
      case ParseTimeBuckets b of
        (buckets, ok) \<Rightarrow>
          (if \<not> ok then (reg, None)
           else case push_to_pods 3 att (loadAllPeerPods reg) (reg\<lparr>regTrackingTimeBuckets := buckets\<rparr>) of
                  (reg, res) \<Rightarrow> (reg, Some res)))"

definition reg_clearPeersTrackingTimeBuckets :: "attempts \<Rightarrow> registry \<Rightarrow> registry \<times> peer_results" where
  "reg_clearPeersTrackingTimeBuckets att reg =
     push_to_pods 3 att (loadAllPeerPods reg) (reg\<lparr>peerTrackingTimeBuckets := [], regTrackingTimeBuckets := []\<rparr>)"

definition probe_status :: "int \<Rightarrow> int \<Rightarrow> int" where
  "probe_status status old = (if 0 < status then status else if old \<le> 0 then 200 else old)"

definition reg_setProbe :: "bool \<Rightarrow> string \<Rightarrow> int \<Rightarrow> registry \<Rightarrow> registry" where
  "reg_setProbe isReadiness uri status reg =
     (let p = (case peerProbes reg of
                 None \<Rightarrow> \<lparr>ppReadinessProbe = [], ppLivenessProbe = [], ppReadinessStatus = 0, ppLivenessStatus = 0\<rparr>
               | Some p \<Rightarrow> p)
      in reg\<lparr>peerProbes := Some
           (if isReadiness then
              p\<lparr>ppReadinessProbe := (if uri \<noteq> [] then uri else ppReadinessProbe p),
                ppReadinessStatus := probe_status status (ppReadinessStatus p)\<rparr>
            else
              p\<lparr>ppLivenessProbe := (if uri \<noteq> [] then uri else ppLivenessProbe p),
                ppLivenessStatus := probe_status status (ppLivenessStatus p)\<rparr>)\<rparr>)"

definition send_to_all :: "nat \<Rightarrow> attempts \<Rightarrow> registry \<Rightarrow> registry \<times> peer_results" where
  "send_to_all retryCount att reg = push_to_pods retryCount att (loadAllPeerPods reg) reg"

definition reg_clearPeersEvents :: "int \<Rightarrow> attempts \<Rightarrow> registry \<Rightarrow> (registry \<times> peer_results) option" where
  "reg_clearPeersEvents now att reg = map_option (send_to_all 2 att) (with_current (ClearPeerEvents now) reg)"

record peer_data =
  pdTargets :: "(string, string) gomap"
  pdJobs :: "(string, string) gomap"
  pdJobScripts :: "(string, string) gomap"
  pdFiles :: "(string, string) gomap"
  pdTrackingHeaders :: string
  pdTrackingTimeBuckets :: string
  pdProbes :: "peer_probes option"

definition preparePeerStartupData :: "string \<Rightarrow> registry \<Rightarrow> peer_data" where
  "preparePeerStartupData name reg =
     \<lparr>pdTargets = mget_or [] (peerTargets reg) name, pdJobs = mget_or [] (peerJobs reg) name,
      pdJobScripts = mget_or [] (peerJobScripts reg) name, pdFiles = mget_or [] (peerFiles reg) name,
      pdTrackingHeaders = peerTrackingHeaders reg, pdTrackingTimeBuckets = peerTrackingTimeBuckets reg, pdProbes = peerProbes reg\<rparr>"

text \<open>Cloning takes what was read from the other registry; \<open>None\<close> is a failed call or a malformed answer.
  The pods come without an HTTP client, and their epochs are new objects, given as a heap above the old one.\<close>

definition clonePeersFrom :: "((string, peers) gomap \<times> (nat, pod_epoch) gomap \<times> nat) option \<Rightarrow> registry \<Rightarrow> registry option" where
  "clonePeersFrom answer reg =
     (case answer of
        None \<Rightarrow> None
      | Some (ps, heap, next) \<Rightarrow>
          Some (reg\<lparr>regPeers := map (\<lambda>(name, p). (name, p\<lparr>Pods := map (\<lambda>(a, pod). (a, pod\<lparr>Offline := True\<rparr>)) (Pods p)\<rparr>)) ps,
                    epHeap := heap, epNext := next\<rparr>))"

definition clonePeersTargetsFrom :: "peer_items option \<Rightarrow> registry \<Rightarrow> registry option" where
  "clonePeersTargetsFrom answer reg = map_option (\<lambda>m. reg\<lparr>peerTargets := m\<rparr>) answer"

definition clonePeersJobsFrom :: "peer_items option \<Rightarrow> registry \<Rightarrow> registry option" where
  "clonePeersJobsFrom answer reg = map_option (\<lambda>m. reg\<lparr>peerJobs := m\<rparr>) answer"

definition clonePeersTrackingHeadersFrom :: "string option \<Rightarrow> registry \<Rightarrow> registry option" where
  "clonePeersTrackingHeadersFrom answer reg =
     map_option (\<lambda>h. reg\<lparr>peerTrackingHeaders := h, regTrackingHeaders := fst (ParseTrackingHeaders h),
       regCrossTrackingHeaders := snd (ParseTrackingHeaders h)\<rparr>) answer"

definition clonePeersProbesFrom :: "peer_probes option \<Rightarrow> registry \<Rightarrow> registry option" where
  "clonePeersProbesFrom answer reg = map_option (\<lambda>p. reg\<lparr>peerProbes := Some p\<rparr>) answer"

text \<open>\<open>GetPeers\<close> dereferences the peers of the name.\<close>

definition GetPeers :: "string \<Rightarrow> registry \<Rightarrow> (string, string) gomap option" where
  "GetPeers name reg =
     map_option (\<lambda>ps. fold (\<lambda>(_, pod) m. mput (podName pod) (podAddress pod) m) (Pods ps) []) (mget (regPeers reg) name)"

end
