(* ===== verification/Registry_Api.thy ===== *)
theory Registry_Api
  imports Registry
begin

text \<open>
  The handlers of \<open>pkg/registry/registryAPI.go\<close> that change the registry, and the properties of the registry.
  The request body is given as what the JSON reader makes of it, \<open>None\<close> when it fails. Response
  bodies are not modelled.
\<close>

section \<open>Handlers\<close>

text \<open>A pod that failed counts only if its peer has no other pod.\<close>

definition checkBadPods :: "peer_results \<Rightarrow> http_out \<Rightarrow> http_out" where
  "checkBadPods res w =
     (if list_ex (\<lambda>(name, pods). list_ex (\<lambda>(a, status). \<not> status \<and> length pods \<le> 1) pods) res
      then WriteHeader 424 w else WriteHeader 200 w)"

definition addPeer :: "int \<Rightarrow> peer option \<Rightarrow> request \<Rightarrow> registry \<Rightarrow> (registry \<times> http_out \<times> peer_data option) option" where
  "addPeer now body r reg =
     (case body of
        None \<Rightarrow> Some (reg, SendEvent ''Registry: Peer Rejected'' (WriteHeader 400 no_out), None)
      | Some p \<Rightarrow>
          (if GetStringParamValue r ''peer'' None = [] then
             map_option (\<lambda>reg. (reg, WriteHeader 200 (SendEvent ''Registry: Peer Added'' no_out), Some (preparePeerStartupData (pName p) reg)))
               (reg_addPeer now p reg)
           else Some (rememberPeer now p reg, WriteHeader 200 no_out, None)))"

definition removePeer :: "request \<Rightarrow> registry \<Rightarrow> (registry \<times> http_out) option" where
  "removePeer r reg =
     (case GetStringParam r ''peer'' None of
        (name, False) \<Rightarrow> Some (reg, WriteHeader 400 no_out)
      | (name, True) \<Rightarrow>
          (case GetStringParam r ''address'' None of
             (address, False) \<Rightarrow> Some (reg, WriteHeader 400 no_out)
           | (address, True) \<Rightarrow>
               map_option (\<lambda>(reg, present).
                   (reg, if present then SendEvent ''Registry: Peer Removed'' (WriteHeader 200 no_out) else WriteHeader 406 no_out))
                 (reg_removePeer name address reg)))"

definition checkPeerHealth :: "attempts \<Rightarrow> request \<Rightarrow> registry \<Rightarrow> registry \<times> http_out" where
  "checkPeerHealth att r reg =
     (fst (reg_checkPeerHealth (GetStringParamValue r ''peer'' None) (GetStringParamValue r ''address'' None) att reg),
      SendEvent ''Registry: Checked Peers Health'' no_out)"

definition cleanupUnhealthyPeers :: "attempts \<Rightarrow> request \<Rightarrow> registry \<Rightarrow> (registry \<times> http_out) option" where
  "cleanupUnhealthyPeers att r reg =
     map_option (\<lambda>(reg, res). (reg, SendEvent ''Registry: Cleaned Up Unhealthy Peers'' no_out))
       (reg_cleanupUnhealthyPeers (GetStringParamValue r ''peer'' None) att reg)"

definition clearPeerEpochs :: "registry \<Rightarrow> (registry \<times> http_out) option" where
  "clearPeerEpochs reg =
     map_option (\<lambda>reg. (reg, SendEvent ''Registry: Peers Epochs Cleared'' (WriteHeader 200 no_out))) (reg_clearPeerEpochs reg)"

definition clearPeers :: "int \<Rightarrow> registry \<Rightarrow> registry \<times> http_out" where
  "clearPeers now reg = (reset now reg, SendEvent ''Registry: Peers Cleared'' (WriteHeader 200 no_out))"

definition clearPeerEvents :: "int \<Rightarrow> attempts \<Rightarrow> registry \<Rightarrow> (registry \<times> http_out) option" where
  "clearPeerEvents now att reg = map_option (\<lambda>(reg, res). (reg, WriteHeader 200 no_out)) (reg_clearPeersEvents now att reg)"

definition report :: "string \<Rightarrow> registry \<times> peer_results \<Rightarrow> registry \<times> http_out" where
  "report title x = (case x of (reg, res) \<Rightarrow> (reg, SendEvent title (checkBadPods res no_out)))"

text \<open>A target is given with its name and the text that is stored, if it is valid.\<close>

definition addPeerTarget :: "attempts \<Rightarrow> (string \<times> string) option \<Rightarrow> request \<Rightarrow> registry \<Rightarrow> registry \<times> http_out" where
  "addPeerTarget att body r reg =
     (case body of
        None \<Rightarrow> (reg, SendEvent ''Registry: Peer Target Rejected'' (WriteHeader 400 no_out))
      | Some (target, content) \<Rightarrow>
          report ''Registry: Peer Target Added'' (reg_addPeerTarget (GetStringParamValue r ''peer'' None) target content att reg))"

definition removePeerTargets :: "attempts \<Rightarrow> request \<Rightarrow> registry \<Rightarrow> registry \<times> http_out" where
  "removePeerTargets att r reg =
     report ''Registry: Peer Targets Removed''
       (reg_removePeerTargets (GetStringParamValue r ''peer'' None) (fst (GetListParam r ''targets'')) att reg)"

definition stopPeerTargets :: "attempts \<Rightarrow> request \<Rightarrow> registry \<Rightarrow> registry \<times> http_out" where
  "stopPeerTargets att r reg =
     report ''Registry: Peer Targets Stopped'' (call_targets 3 False (GetStringParamValue r ''peer'' None) att reg)"

definition invokePeerTargets :: "attempts \<Rightarrow> request \<Rightarrow> registry \<Rightarrow> registry \<times> http_out" where
  "invokePeerTargets att r reg =
     report ''Registry: Peer Targets Invoked'' (call_targets 1 False (GetStringParamValue r ''peer'' None) att reg)"

definition clearPeerTargets :: "attempts \<Rightarrow> request \<Rightarrow> registry \<Rightarrow> registry \<times> http_out" where
  "clearPeerTargets att r reg =
     report ''Registry: Peer Targets Cleared'' (reg_clearPeerTargets (GetStringParamValue r ''peer'' None) att reg)"

definition addPeerJob :: "attempts \<Rightarrow> (string \<times> string) option \<Rightarrow> request \<Rightarrow> registry \<Rightarrow> registry \<times> http_out" where
  "addPeerJob att body r reg =
     (case body of
        None \<Rightarrow> (reg, SendEvent ''Registry: Peer Job Rejected'' (WriteHeader 400 no_out))
      | Some (job, content) \<Rightarrow>
          report ''Registry: Peer Job Added'' (reg_addPeerJob (GetStringParamValue r ''peer'' None) job content att reg))"

definition addPeerJobScriptOrFile :: "attempts \<Rightarrow> string \<Rightarrow> request \<Rightarrow> registry \<Rightarrow> (registry \<times> http_out) option" where
  "addPeerJobScriptOrFile att content r reg =
     (let name = GetStringParamValue r ''peer'' None; fileName = GetStringParamValue r ''name'' None;
          filePath = GetStringParamValue r ''path'' None; script = Contains (RequestURI r) ''script''
      in if fileName \<noteq> [] \<and> content \<noteq> [] then
           map_option (report ''Registry: Peer Job File Added'') (reg_addPeerJobScriptOrFile name filePath fileName content script att reg)
         else Some (reg, SendEvent ''Registry: Peer Job Script Rejected'' (WriteHeader 400 no_out)))"

definition removePeerJobs :: "attempts \<Rightarrow> request \<Rightarrow> registry \<Rightarrow> registry \<times> http_out" where
  "removePeerJobs att r reg =
     report ''Registry: Peer Jobs Removed''
       (reg_removePeerJobs (GetStringParamValue r ''peer'' None) (fst (GetListParam r ''jobs'')) att reg)"

definition stopPeerJobs :: "attempts \<Rightarrow> request \<Rightarrow> registry \<Rightarrow> registry \<times> http_out" where
  "stopPeerJobs att r reg =
     report ''Registry: Peer Jobs Stopped'' (call_targets 3 True (GetStringParamValue r ''peer'' None) att reg)"

definition runPeerJobs :: "attempts \<Rightarrow> request \<Rightarrow> registry \<Rightarrow> registry \<times> http_out" where
  "runPeerJobs att r reg =
     report ''Registry: Peer Jobs Invoked'' (call_targets 1 True (GetStringParamValue r ''peer'' None) att reg)"

definition clearPeerJobs :: "attempts \<Rightarrow> request \<Rightarrow> registry \<Rightarrow> registry \<times> http_out" where
  "clearPeerJobs att r reg =
     report ''Registry: Peer Jobs Cleared'' (reg_clearPeerJobs (GetStringParamValue r ''peer'' None) att reg)"

definition addPeersTrackingHeaders :: "attempts \<Rightarrow> request \<Rightarrow> registry \<Rightarrow> registry \<times> http_out" where
  "addPeersTrackingHeaders att r reg =
     (case GetStringParam r ''headers'' None of
        (h, True) \<Rightarrow>
          (case reg_addPeersTrackingHeaders h att reg of
             (reg, res) \<Rightarrow> (reg, checkBadPods res (SendEvent ''Registry: Peer Tracking Headers Added'' no_out)))
      | (h, False) \<Rightarrow> (reg, WriteHeader 400 no_out))"

definition clearPeersTrackingHeaders :: "attempts \<Rightarrow> registry \<Rightarrow> registry \<times> http_out" where
  "clearPeersTrackingHeaders att reg =
     (case reg_clearPeersTrackingHeaders att reg of
        (reg, res) \<Rightarrow> (reg, checkBadPods res (SendEvent ''Registry: Peer Tracking Headers Cleared'' no_out)))"

definition addPeersTrackingTimeBuckets :: "attempts \<Rightarrow> request \<Rightarrow> registry \<Rightarrow> registry \<times> http_out" where
  "addPeersTrackingTimeBuckets att r reg =
     (case GetStringParam r ''buckets'' None of
        (b, True) \<Rightarrow>
          (case reg_addPeersTrackingTimeBuckets b att reg of
             (reg, Some res) \<Rightarrow> (reg, checkBadPods res (SendEvent ''Registry: Peer Tracking Time Buckets Added'' no_out))
           | (reg, None) \<Rightarrow> (reg, WriteHeader 400 no_out))
      | (b, False) \<Rightarrow> (reg, WriteHeader 400 no_out))"

definition clearPeersTrackingTimeBuckets :: "attempts \<Rightarrow> registry \<Rightarrow> registry \<times> http_out" where
  "clearPeersTrackingTimeBuckets att reg =
     (case reg_clearPeersTrackingTimeBuckets att reg of
        (reg, res) \<Rightarrow> (reg, checkBadPods res (SendEvent ''Registry: Peer Tracking Time Buckets Cleared'' no_out)))"

definition setPeersProbe :: "attempts \<Rightarrow> request \<Rightarrow> registry \<Rightarrow> registry \<times> http_out" where
  "setPeersProbe att r reg =
     (let probeType = GetStringParamValue r ''type'' None; isReadiness = EqualFold probeType ''readiness'' in
      if \<not> isReadiness \<and> \<not> EqualFold probeType ''liveness'' then (reg, WriteHeader 400 no_out)
      else case GetStringParam r ''uri'' None of
             (uri, False) \<Rightarrow> (reg, WriteHeader 400 no_out)
           | (uri, True) \<Rightarrow> report ''Registry: Peer Probe Set'' (send_to_all 3 att (reg_setProbe isReadiness uri 0 reg)))"

definition setPeersProbeStatus :: "attempts \<Rightarrow> request \<Rightarrow> registry \<Rightarrow> registry \<times> http_out" where
  "setPeersProbeStatus att r reg =
     (let probeType = GetStringParamValue r ''type'' None; isReadiness = EqualFold probeType ''readiness'' in
      if \<not> isReadiness \<and> \<not> EqualFold probeType ''liveness'' then (reg, WriteHeader 400 no_out)
      else case GetIntParam r ''status'' (Some 200) of
             (status, False) \<Rightarrow> (reg, WriteHeader 400 no_out)
           | (status, True) \<Rightarrow>
               report ''Registry: Peer Probe Status Set''
                 (send_to_all 3 att (reg_setProbe isReadiness [] (if status \<le> 0 then 200 else status) reg)))"

definition copyPeersToLocker :: "int \<Rightarrow> string \<Rightarrow> registry \<Rightarrow> (registry \<times> http_out) option" where
  "copyPeersToLocker now json reg =
     map_option (\<lambda>reg. (reg, SendEvent ''Registry: Peers Copied'' (WriteHeader 200 no_out)))
       (with_current (cl_Store now [''peers''] json) reg)"

section \<open>Invariant of the registry\<close>

definition peers_ok :: "nat \<Rightarrow> (nat, pod_epoch) gomap \<Rightarrow> peers \<Rightarrow> bool" where
  "peers_ok next heap ps \<longleftrightarrow> mwf (Pods ps) \<and>
     (\<forall>a pod. mget (Pods ps) a = Some pod \<longrightarrow> podAddress pod = a \<and> podClient pod \<and> \<not> Offline pod \<and>
        (\<exists>es. mget (PodEpochs ps) a = Some (es @ [CurrentEpoch pod]))) \<and>
     (\<forall>a es. mget (PodEpochs ps) a = Some es \<longrightarrow> (\<forall>e \<in> set es. e < next \<and> mget heap e \<noteq> None))"

definition reg_ok :: "registry \<Rightarrow> bool" where
  "reg_ok reg \<longleftrightarrow> mwf (regPeers reg) \<and> currentLocker (regLockers reg) \<noteq> None \<and>
     (\<forall>name ps. mget (regPeers reg) name = Some ps \<longrightarrow> peers_ok (epNext reg) (epHeap reg) ps)"

lemma fold_opt_invariant:
  "(\<And>a s s'. a \<in> set xs \<Longrightarrow> P s \<Longrightarrow> f a s = Some s' \<Longrightarrow> P s') \<Longrightarrow> P s \<Longrightarrow> fold_opt f xs s = Some s' \<Longrightarrow> P s'"
  by (induction xs arbitrary: s) (auto split: option.splits)

lemma fold_opt_total: "(\<And>a s. a \<in> set xs \<Longrightarrow> P s \<Longrightarrow> \<exists>s'. f a s = Some s' \<and> P s') \<Longrightarrow> P s \<Longrightarrow> \<exists>s'. fold_opt f xs s = Some s' \<and> P s'"
proof (induction xs arbitrary: s)
  case (Cons a xs)
  from Cons.prems(1) [of a s] Cons.prems(2) obtain s1 where "f a s = Some s1" "P s1" by auto
  with Cons.IH [of s1] Cons.prems(1) show ?case by auto
qed simp

lemma upd_peers_ok:
  assumes "reg_ok reg" and "\<And>ps. peers_ok (epNext reg) (epHeap reg) ps \<Longrightarrow> peers_ok (epNext reg) (epHeap reg) (f ps)"
  shows "reg_ok (upd_peers name f reg)"
  using assms by (auto simp: reg_ok_def upd_peers_def split: option.splits)

definition keeps_epoch :: "(pod \<Rightarrow> pod) \<Rightarrow> bool" where
  "keeps_epoch f \<longleftrightarrow> (\<forall>p. podAddress (f p) = podAddress p \<and> (podClient p \<longrightarrow> podClient (f p)) \<and>
     (Offline (f p) \<longrightarrow> Offline p) \<and> CurrentEpoch (f p) = CurrentEpoch p)"

lemma keeps_epoch_simps [simp]: "keeps_epoch (\<lambda>p. p\<lparr>Healthy := b\<rparr>)" "keeps_epoch (\<lambda>p. p\<lparr>Healthy := b, PastEpochs := es\<rparr>)"
  "keeps_epoch (\<lambda>p. p\<lparr>Healthy := b, Offline := False, podClient := True\<rparr>)"
  by (simp_all add: keeps_epoch_def)

lemma upd_pod_ok: "reg_ok reg \<Longrightarrow> keeps_epoch f \<Longrightarrow> reg_ok (upd_pod name address f reg)"
  unfolding upd_pod_def by (erule upd_peers_ok) (auto simp: peers_ok_def keeps_epoch_def split: option.splits)

lemma with_current_ok: "reg_ok reg \<Longrightarrow> \<exists>reg'. with_current f reg = Some reg' \<and> reg_ok reg' \<and> regPeers reg' = regPeers reg \<and>
    peerTargets reg' = peerTargets reg"
  by (auto simp: with_current_def reg_ok_def upd_cl_def split: option.splits)

lemma mark_bad_ok: "reg_ok reg \<Longrightarrow> reg_ok (mark_bad dones reg)"
  unfolding mark_bad_def
  by (rule fold_invariant [where Q = "\<lambda>_. True" and P = reg_ok]) (auto simp: upd_pod_ok split: prod.splits)

lemma push_ok: "reg_ok reg \<Longrightarrow> reg_ok (fst (push_to_pods n att pp reg))"
  by (simp add: push_to_pods_def mark_bad_ok split: prod.splits)

lemma epoch_heap_put: "peers_ok next heap ps \<Longrightarrow> next \<le> next' \<Longrightarrow> peers_ok next' (mput e ep heap) ps"
proof -
  assume ok: "peers_ok next heap ps" and le: "next \<le> next'"
  have "x < next' \<and> mget (mput e ep heap) x \<noteq> None" if "mget (PodEpochs ps) a = Some es" "x \<in> set es" for a es x
  proof -
    from ok that have "x < next" "mget heap x \<noteq> None" unfolding peers_ok_def by blast+
    with le show ?thesis by (auto simp: update_conv)
  qed
  with ok show ?thesis unfolding peers_ok_def by blast
qed

lemma add_pod_ok:
  assumes ok: "peers_ok next heap ps" and e: "e < next" "mget heap e \<noteq> None"
    and pod: "podAddress pod = a" "podClient pod" "\<not> Offline pod" "CurrentEpoch pod = e"
  shows "peers_ok next heap
    (ps\<lparr>PodEpochs := mput a (mget_or [] (PodEpochs ps) a @ [e]) (PodEpochs ps), Pods := mput a pod (Pods ps)\<rparr>)"
proof -
  have "x < next \<and> mget heap x \<noteq> None" if "x \<in> set (mget_or [] (PodEpochs ps) a)" for x
    using that ok by (cases "mget (PodEpochs ps) a") (auto simp: peers_ok_def mget_or_def)
  then show ?thesis using assms unfolding peers_ok_def by auto
qed

lemma unsafeAddPeer_ok:
  assumes "reg_ok reg" shows "reg_ok (unsafeAddPeer now p reg)"
proof -
  define ps where "ps = mget_or (new_peers p) (regPeers reg) (pName p)"
  have "peers_ok (epNext reg) (epHeap reg) ps"
    using assms by (auto simp: ps_def reg_ok_def mget_or_def peers_ok_def new_peers_def split: option.splits)
  then have ps: "peers_ok (epNext reg + 1) (mput (epNext reg) ep (epHeap reg)) ps" for ep by (rule epoch_heap_put) simp
  have others: "peers_ok (epNext reg + 1) (mput (epNext reg) ep (epHeap reg)) ps'" if "mget (regPeers reg) n = Some ps'" for n ps' ep
    using assms that by (intro epoch_heap_put [of "epNext reg"]) (auto simp: reg_ok_def)
  have new: "peers_ok (Suc (epNext reg)) (mput (epNext reg) ep (epHeap reg))
      (ps\<lparr>PodEpochs := mput a (mget_or [] (PodEpochs ps) a @ [epNext reg]) (PodEpochs ps), Pods := mput a pod (Pods ps)\<rparr>)"
    if "podAddress pod = a" "podClient pod" "\<not> Offline pod" "CurrentEpoch pod = epNext reg" for a pod ep
    using add_pod_ok [OF ps _ _ that] by simp
  show ?thesis
    using others assms unfolding reg_ok_def unsafeAddPeer_def Let_def ps_def [symmetric] by (auto intro!: new)
qed

lemma upd_epoch_ok: "reg_ok reg \<Longrightarrow> reg_ok (upd_epoch e f reg)"
  by (auto simp: upd_epoch_def reg_ok_def split: option.splits intro: epoch_heap_put)

lemma rememberPeer_ok: "reg_ok reg \<Longrightarrow> reg_ok (rememberPeer now p reg)"
  by (simp add: rememberPeer_def unsafeAddPeer_ok upd_epoch_ok upd_pod_ok split: option.splits)

lemma peers_ok_del: "peers_ok next heap ps \<Longrightarrow> peers_ok next heap (ps\<lparr>Pods := mdel a (Pods ps)\<rparr>)"
  by (auto simp: peers_ok_def)

lemma removePeer_ok: "reg_ok reg \<Longrightarrow> \<exists>reg' b. reg_removePeer name address reg = Some (reg', b) \<and> reg_ok reg' \<and>
    regPeers reg' = regPeers (upd_peers name (\<lambda>ps. ps\<lparr>Pods := mdel address (Pods ps)\<rparr>) reg)"
  using with_current_ok [OF upd_peers_ok [of reg "\<lambda>ps. ps\<lparr>Pods := mdel address (Pods ps)\<rparr>" name], of "DeactivateInstanceLocker name address"]
    peers_ok_del by (auto simp: reg_removePeer_def)

lemma mget_map_value: "mget (map (\<lambda>(a, x). (a, f a x)) m) k = map_option (f k) (mget m k)"
  by (induction m) auto

lemma mwf_map_value: "mwf (map (\<lambda>(a, x). (a, f a x)) m) = mwf m"
  by (simp add: mwf_def comp_def case_prod_beta)

lemma mget_present:
  "mget (concat (map (\<lambda>(a, es). case mget P a of None \<Rightarrow> [] | Some v \<Rightarrow> [(a, g v)]) m)) k =
   (if mget m k = None then None else map_option g (mget P k))"
  by (induction m) (auto split: option.splits)

lemma clear_epochs_ok: "peers_ok next heap ps \<Longrightarrow> peers_ok next heap (clear_epochs ps)"
proof -
  assume ok: "peers_ok next heap ps"
  let ?ps = "clear_epochs ps"
  have P: "mget (Pods ?ps) a = map_option (\<lambda>pod. if mget (PodEpochs ps) a \<noteq> None then pod\<lparr>PastEpochs := []\<rparr> else pod) (mget (Pods ps) a)" for a
    by (simp add: clear_epochs_def mget_map_value)
  have E: "mget (PodEpochs ?ps) a = (if mget (PodEpochs ps) a = None then None else map_option (\<lambda>pod. [CurrentEpoch pod]) (mget (Pods ps) a))" for a
    by (simp add: clear_epochs_def mget_present)
  have W: "mwf (Pods ?ps)" using ok by (simp add: clear_epochs_def mwf_map_value peers_ok_def)
  have "podAddress pod = a \<and> podClient pod \<and> \<not> Offline pod \<and> (\<exists>es. mget (PodEpochs ?ps) a = Some (es @ [CurrentEpoch pod]))"
    if "mget (Pods ?ps) a = Some pod" for a pod
    using that ok unfolding P E peers_ok_def by (auto split: if_splits)
  moreover have "e < next \<and> mget heap e \<noteq> None" if "mget (PodEpochs ?ps) a = Some es" "e \<in> set es" for a es e
  proof -
    from that obtain pod where pod: "mget (Pods ps) a = Some pod" "e = CurrentEpoch pod" unfolding E by (auto split: if_splits)
    with ok obtain es' where "mget (PodEpochs ps) a = Some (es' @ [e])" unfolding peers_ok_def by blast
    with ok show ?thesis unfolding peers_ok_def by fastforce
  qed
  ultimately show ?thesis using W unfolding peers_ok_def by blast
qed

lemma clearPeerEpochs_ok: "reg_ok reg \<Longrightarrow> \<exists>reg'. reg_clearPeerEpochs reg = Some reg' \<and> reg_ok reg'"
  unfolding reg_clearPeerEpochs_def
proof (rule fold_opt_total)
  fix x :: "string \<times> peers" and reg assume ok: "reg_ok reg"
  obtain name ps where x: "x = (name, ps)" by fastforce
  have "reg_ok (reg\<lparr>regPeers := mdel name (regPeers reg)\<rparr>)" using ok by (auto simp: reg_ok_def)
  from with_current_ok [OF this, of "RemovePeerLocker name"] upd_peers_ok [OF ok, of clear_epochs name] clear_epochs_ok
  show "\<exists>reg'. (case x of (name, ps) \<Rightarrow> \<lambda>reg.
      if Pods ps = [] then with_current (RemovePeerLocker name) (reg\<lparr>regPeers := mdel name (regPeers reg)\<rparr>)
      else Some (upd_peers name clear_epochs reg)) reg = Some reg' \<and> reg_ok reg'" by (auto simp: x)
qed

lemma checkPeerHealth_ok: "reg_ok reg \<Longrightarrow> reg_ok (fst (reg_checkPeerHealth name address att reg))"
proof -
  assume "reg_ok reg"
  obtain res dones where i: "invokeForPods 1 True att (loadPeerPods name address reg) = (res, dones)" by fastforce
  have "reg_ok (fold (\<lambda>(name, address, ok, bad). upd_pod name address (\<lambda>p. p\<lparr>Healthy := ok\<rparr>)) dones (mark_bad dones reg))"
    by (rule fold_invariant [where Q = "\<lambda>_. True" and P = reg_ok]) (auto simp: upd_pod_ok mark_bad_ok \<open>reg_ok reg\<close> split: prod.splits)
  then show ?thesis unfolding reg_checkPeerHealth_def i by simp
qed

lemma cleanup_step_ok: "reg_ok reg \<Longrightarrow> \<exists>reg'. cleanup_step x reg = Some reg' \<and> reg_ok reg'"
  using removePeer_ok [of reg "fst x" "fst (snd x)"] by (cases x) (auto simp: cleanup_step_def upd_pod_ok)

lemma cleanup_ok: "reg_ok reg \<Longrightarrow> \<exists>reg' res. reg_cleanupUnhealthyPeers name att reg = Some (reg', res) \<and> reg_ok reg'"
  unfolding reg_cleanupUnhealthyPeers_def
  using fold_opt_total [of _ reg_ok cleanup_step, OF cleanup_step_ok mark_bad_ok] by (fastforce split: prod.splits)

text \<open>The states of a registry by its own operations. Cloning the peers of another registry and loading a dump are no
  steps: they replace the peers by decoded ones, which have no client and whose epochs are separate objects.\<close>

inductive reg_reach :: "registry \<Rightarrow> bool" where
  new: "reg_reach (new_registry now)"
| add: "reg_reach reg \<Longrightarrow> reg_addPeer now p reg = Some reg' \<Longrightarrow> reg_reach reg'"
| remember: "reg_reach reg \<Longrightarrow> reg_reach (rememberPeer now p reg)"
| remove: "reg_reach reg \<Longrightarrow> reg_removePeer name address reg = Some (reg', b) \<Longrightarrow> reg_reach reg'"
| epochs: "reg_reach reg \<Longrightarrow> reg_clearPeerEpochs reg = Some reg' \<Longrightarrow> reg_reach reg'"
| health: "reg_reach reg \<Longrightarrow> reg_reach (fst (reg_checkPeerHealth name address att reg))"
| cleanup: "reg_reach reg \<Longrightarrow> reg_cleanupUnhealthyPeers name att reg = Some (reg', res) \<Longrightarrow> reg_reach reg'"
| push: "reg_reach reg \<Longrightarrow> reg_reach (fst (push_to_pods n att pp reg))"
| items: "reg_reach reg \<Longrightarrow> reg_reach (reg\<lparr>peerTargets := ts, peerJobs := js, peerJobScripts := ss, peerFiles := fs\<rparr>)"
| clear: "reg_reach reg \<Longrightarrow> reg_reach (reset now reg)"
| lockers: "reg_reach reg \<Longrightarrow> currentLocker ll \<noteq> None \<Longrightarrow> reg_reach (reg\<lparr>regLockers := ll\<rparr>)"

lemma new_lockers_current: "currentLocker (NewLabeledLockers now) \<noteq> None"
  by (simp add: NewLabeledLockers_def ll_Init_def alloc_cl_def)

lemma reg_reach_ok: "reg_reach reg \<Longrightarrow> reg_ok reg"
proof (induction rule: reg_reach.induct)
  case (add reg now p reg')
  then show ?case
    using with_current_ok [OF unsafeAddPeer_ok, of reg "InitPeerLocker (pName p) (pAddress p)" now p] by (auto simp: reg_addPeer_def)
next
  case (remove reg name address reg' b)
  then show ?case using removePeer_ok [of reg name address] by auto
next
  case (epochs reg reg')
  then show ?case using clearPeerEpochs_ok [of reg] by auto
next
  case (cleanup reg name att reg' res)
  then show ?case using cleanup_ok [of reg name att] by auto
next
  case (new now)
  then show ?case using new_lockers_current by (simp add: reg_ok_def new_registry_def)
next
  case (items reg ts js ss fs)
  then show ?case by (simp add: reg_ok_def)
next
  case (clear reg now)
  then show ?case using new_lockers_current by (simp add: reg_ok_def reset_def)
next
  case (lockers reg ll)
  then show ?case by (simp add: reg_ok_def)
qed (simp_all only: rememberPeer_ok checkPeerHealth_ok push_ok)

text \<open>C20: In every state of the registry that it reaches by its own operations, so until peers are cloned from another
  registry or loaded from a dump (which make the current epoch and the kept epochs separate objects), the current epoch of a pod is the last of the epochs that are kept for its
  address, and every epoch that is kept exists.\<close>

theorem pod_epochs_kept:
  assumes "reg_reach reg" and "mget (regPeers reg) name = Some ps"
  shows "(mget (Pods ps) a = Some pod \<longrightarrow> podAddress pod = a \<and> (\<exists>es. mget (PodEpochs ps) a = Some (es @ [CurrentEpoch pod]))) \<and>
    (mget (PodEpochs ps) a = Some es \<and> e \<in> set es \<longrightarrow> mget (epHeap reg) e \<noteq> None)"
  using reg_reach_ok [OF assms(1)] assms(2) unfolding reg_ok_def peers_ok_def by blast

definition sample_peer :: peer where
  "sample_peer = \<lparr>pName = ''p'', pAddress = ''1.1.1.1:80'', pPod = ''pod'', pNamespace = ''ns'', pNode = ''n'', pCluster = ''c''\<rparr>"

theorem pod_epochs_kept_witness:
  "\<exists>ps pod es. mget (regPeers (rememberPeer 2 sample_peer (rememberPeer 1 sample_peer (new_registry 0)))) ''p'' = Some ps \<and>
     mget (Pods ps) ''1.1.1.1:80'' = Some pod \<and> mget (PodEpochs ps) ''1.1.1.1:80'' = Some (es @ [CurrentEpoch pod])"
proof -
  let ?reg = "rememberPeer 2 sample_peer (rememberPeer 1 sample_peer (new_registry 0))"
  have reach: "reg_reach ?reg" by (intro reg_reach.remember reg_reach.new)
  have "case mget (regPeers ?reg) ''p'' of None \<Rightarrow> False | Some ps \<Rightarrow> mget (Pods ps) ''1.1.1.1:80'' \<noteq> None" by code_simp
  then obtain ps pod where "mget (regPeers ?reg) ''p'' = Some ps" "mget (Pods ps) ''1.1.1.1:80'' = Some pod" by (auto split: option.splits)
  with pod_epochs_kept [OF reach, of "''p''" ps "''1.1.1.1:80''" pod] show ?thesis by blast
qed

section \<open>Removing the pods that do not answer\<close>

lemma last_attempt_timed_out: "last_attempt att i n = TimedOut \<longleftrightarrow> (\<forall>j \<le> n. att (i + j) = TimedOut)"
  unfolding less_Suc_eq_le [symmetric]
  by (induction n arbitrary: i) (auto simp: All_less_Suc2 split: outcome.splits)

definition answers :: "attempts \<Rightarrow> nat \<Rightarrow> string \<Rightarrow> string \<Rightarrow> bool" where
  "answers att n name address \<longleftrightarrow> last_attempt (att name address) 0 n = Answered True"

lemma answers_two_attempts:
  "answers att 1 name address \<longleftrightarrow>
   att name address 0 = Answered True \<or> att name address 0 = TimedOut \<and> att name address 1 = Answered True"
  by (auto simp: answers_def split: outcome.splits)

lemma GetPeer_upd_peers:
  "GetPeer n a (upd_peers name f reg) =
   (if n = name then (case mget (regPeers reg) n of None \<Rightarrow> None | Some ps \<Rightarrow> mget (Pods (f ps)) a) else GetPeer n a reg)"
  by (auto simp: GetPeer_def upd_peers_def split: option.splits)

lemma GetPeer_upd_pod:
  "GetPeer n a (upd_pod name address f reg) = (if n = name \<and> a = address then map_option f (GetPeer n a reg) else GetPeer n a reg)"
  by (auto simp: upd_pod_def GetPeer_upd_peers) (auto simp: GetPeer_def split: option.splits)

lemma GetPeer_cong: "regPeers reg = regPeers reg' \<Longrightarrow> GetPeer n a reg = GetPeer n a reg'"
  by (simp add: GetPeer_def)

lemma removePeer_GetPeer:
  assumes "reg_ok reg"
  shows "\<exists>reg' b. reg_removePeer name address reg = Some (reg', b) \<and> reg_ok reg' \<and>
    (\<forall>n a. GetPeer n a reg' = (if n = name \<and> a = address then None else GetPeer n a reg))"
proof -
  from removePeer_ok [OF assms, of name address] obtain reg' b
    where r: "reg_removePeer name address reg = Some (reg', b)" "reg_ok reg'"
      and p: "regPeers reg' = regPeers (upd_peers name (\<lambda>ps. ps\<lparr>Pods := mdel address (Pods ps)\<rparr>) reg)" by blast
  have "GetPeer n a reg' = (if n = name \<and> a = address then None else GetPeer n a reg)" for n a
    unfolding GetPeer_cong [OF p] GetPeer_upd_peers by (auto simp: GetPeer_def delete_conv split: option.splits)
  with r show ?thesis by blast
qed

definition done_map :: "(string \<times> string \<times> bool \<times> bool) list \<Rightarrow> string \<times> string \<rightharpoonup> bool" where
  "done_map dones = map_of (map (\<lambda>(n, a, ok, bad). ((n, a), ok)) dones)"

abbreviation done_keys :: "(string \<times> string \<times> bool \<times> bool) list \<Rightarrow> (string \<times> string) list" where
  "done_keys dones \<equiv> map (\<lambda>(n, a, ok, bad). (n, a)) dones"

lemma cleanup_step_spec:
  assumes "reg_ok reg"
  shows "\<exists>reg'. cleanup_step (name, address, ok, bad) reg = Some reg' \<and> reg_ok reg' \<and>
    (\<forall>n a. GetPeer n a reg' =
       (if n = name \<and> a = address then if ok then map_option (\<lambda>p. p\<lparr>Healthy := True, PastEpochs := []\<rparr>) (GetPeer n a reg) else None
        else GetPeer n a reg))"
proof (cases ok)
  case True
  then show ?thesis using assms by (auto simp: cleanup_step_def upd_pod_ok GetPeer_upd_pod)
next
  case False
  with removePeer_GetPeer [OF assms, of name address] show ?thesis by (auto simp: cleanup_step_def)
qed

lemma cleanup_fold:
  assumes "distinct (done_keys dones)" and "reg_ok reg"
  shows "\<exists>reg'. fold_opt cleanup_step dones reg = Some reg' \<and> reg_ok reg' \<and>
    (\<forall>n a. GetPeer n a reg' = (case done_map dones (n, a) of
         None \<Rightarrow> GetPeer n a reg
       | Some ok \<Rightarrow> if ok then map_option (\<lambda>p. p\<lparr>Healthy := True, PastEpochs := []\<rparr>) (GetPeer n a reg) else None))"
  using assms
proof (induction dones arbitrary: reg)
  case Nil
  then show ?case by (simp add: done_map_def)
next
  case (Cons d dones)
  obtain name address ok bad where d: "d = (name, address, ok, bad)" by (cases d)
  from cleanup_step_spec [OF Cons.prems(2), of name address ok bad] obtain reg1
    where s: "cleanup_step d reg = Some reg1" "reg_ok reg1"
      and g1: "\<And>n a. GetPeer n a reg1 = (if n = name \<and> a = address then if ok then map_option (\<lambda>p. p\<lparr>Healthy := True, PastEpochs := []\<rparr>) (GetPeer n a reg) else None
        else GetPeer n a reg)" unfolding d by blast
  from Cons.prems(1) have fresh: "done_map dones (name, address) = None"
    unfolding d done_map_def map_of_eq_None_iff by (force simp: image_image)
  from Cons.IH [OF _ s(2)] Cons.prems(1) obtain reg' where r: "fold_opt cleanup_step dones reg1 = Some reg'" "reg_ok reg'"
    and g: "\<And>n a. GetPeer n a reg' = (case done_map dones (n, a) of None \<Rightarrow> GetPeer n a reg1
       | Some ok \<Rightarrow> if ok then map_option (\<lambda>p. p\<lparr>Healthy := True, PastEpochs := []\<rparr>) (GetPeer n a reg1) else None)" by auto
  have "done_map (d # dones) (n, a) = (if n = name \<and> a = address then Some ok else done_map dones (n, a))" for n a
    by (simp add: done_map_def d)
  then have "GetPeer n a reg' = (case done_map (d # dones) (n, a) of None \<Rightarrow> GetPeer n a reg
       | Some ok \<Rightarrow> if ok then map_option (\<lambda>p. p\<lparr>Healthy := True, PastEpochs := []\<rparr>) (GetPeer n a reg) else None)" for n a
    using fresh by (auto simp: g g1 split: option.splits)
  with r s(1) show ?case by auto
qed

lemma mark_bad_GetPeer:
  assumes "\<And>p. f (p\<lparr>Healthy := False\<rparr>) = f p"
  shows "map_option f (GetPeer n a (mark_bad dones reg)) = map_option f (GetPeer n a reg)"
  unfolding mark_bad_def
  by (induction dones arbitrary: reg) (auto simp: GetPeer_upd_pod assms option.map_comp comp_def split: prod.splits)

lemma call_all:
  assumes "\<forall>(a, pod) \<in> set pods. podAddress pod = a \<and> podClient pod \<and> \<not> Offline pod"
  shows "concat (map (\<lambda>pod. case snd (call_pod n True att name pod) of None \<Rightarrow> [] | Some (ok, bad) \<Rightarrow> [(name, podAddress pod, ok, bad)])
      (getPodsArray pods)) =
    map (\<lambda>(a, pod). (name, a, answers att n name a, last_attempt (att name a) 0 n = TimedOut)) pods"
  using assms
  by (induction pods) (auto simp: getPodsArray_def call_pod_def invokePod_def answers_def split: outcome.splits)

definition all_dones :: "attempts \<Rightarrow> nat \<Rightarrow> (string, peers) gomap \<Rightarrow> (string \<times> string \<times> bool \<times> bool) list" where
  "all_dones att n pm =
     concat (map (\<lambda>(name, ps). map (\<lambda>(a, pod). (name, a, answers att n name a, last_attempt (att name a) 0 n = TimedOut)) (Pods ps)) pm)"

lemma mwf_mget: "mwf m \<Longrightarrow> (k, v) \<in> set m \<Longrightarrow> mget m k = Some v"
  by (simp add: mwf_def)

lemma reg_ok_entry:
  assumes "reg_ok reg" and "(name, ps) \<in> set (regPeers reg)"
  shows "peers_ok (epNext reg) (epHeap reg) ps"
proof -
  have "mget (regPeers reg) name = Some ps" using assms by (simp add: reg_ok_def mwf_mget)
  with assms(1) show ?thesis unfolding reg_ok_def by blast
qed

lemma peers_ok_entry:
  assumes "peers_ok next heap ps" and "(a, pod) \<in> set (Pods ps)"
  shows "podAddress pod = a \<and> podClient pod \<and> \<not> Offline pod"
proof -
  have "mget (Pods ps) a = Some pod" using assms by (simp add: peers_ok_def mwf_mget)
  with assms(1) show ?thesis unfolding peers_ok_def by blast
qed

lemma invoke_all_dones:
  assumes "reg_ok reg"
  shows "snd (invokeForPods n True att (loadAllPeerPods reg)) = all_dones att n (regPeers reg)"
proof -
  have "\<forall>(a, pod) \<in> set (Pods ps). podAddress pod = a \<and> podClient pod \<and> \<not> Offline pod" if "(name, ps) \<in> set (regPeers reg)" for name ps
    using peers_ok_entry [OF reg_ok_entry [OF assms that]] by blast
  then show ?thesis
    unfolding invokeForPods_def loadAllPeerPods_def all_dones_def
    by (auto simp: comp_def call_all intro!: arg_cong [where f = concat] map_cong)
qed

lemma all_dones_Cons:
  "all_dones att n ((name, ps) # pm) =
   map (\<lambda>(a, pod). (name, a, answers att n name a, last_attempt (att name a) 0 n = TimedOut)) (Pods ps) @ all_dones att n pm"
  by (simp add: all_dones_def)

lemma all_dones_keys: "done_keys (all_dones att n pm) = concat (map (\<lambda>(name, ps). map (Pair name) (map fst (Pods ps))) pm)"
  by (induction pm) (auto simp: all_dones_Cons, simp add: all_dones_def)

lemma all_dones_distinct:
  "mwf pm \<Longrightarrow> (\<And>name ps. (name, ps) \<in> set pm \<Longrightarrow> mwf (Pods ps)) \<Longrightarrow> distinct (done_keys (all_dones att n pm))"
  unfolding all_dones_keys
proof (induction pm)
  case (Cons x pm)
  obtain name ps where x: "x = (name, ps)" by fastforce
  have "distinct (map fst (Pods ps))" using Cons.prems(2) [of name ps] by (simp add: x mwf_def)
  then have "distinct (map (Pair name) (map fst (Pods ps)))" by (metis distinct_map inj_onI prod.inject)
  moreover have "distinct (concat (map (\<lambda>(name, ps). map (Pair name) (map fst (Pods ps))) pm))"
    by (rule Cons.IH) (use Cons.prems in \<open>auto simp: mwf_def\<close>)
  ultimately show ?case using Cons.prems(1) by (force simp: x mwf_def)
qed simp

lemma mget_row:
  "mget (map (\<lambda>(a, x). ((nm, a), f nm a)) m) (name, a) = (if name = nm then map_option (\<lambda>_. f name a) (mget m a) else None)"
  by (induction m) auto

lemma all_dones_map:
  "mwf pm \<Longrightarrow> done_map (all_dones att n pm) (name, a) =
     (case mget pm name of None \<Rightarrow> None | Some ps \<Rightarrow> (case mget (Pods ps) a of None \<Rightarrow> None | Some _ \<Rightarrow> Some (answers att n name a)))"
proof (induction pm)
  case Nil
  then show ?case by (simp add: done_map_def all_dones_def)
next
  case (Cons x pm)
  obtain nm ps where x: "x = (nm, ps)" by fastforce
  let ?row = "map (\<lambda>(a, pod). ((nm, a), answers att n nm a)) (Pods ps)"
  have "done_map (all_dones att n (x # pm)) (name, a) =
      (case map_of ?row (name, a) of None \<Rightarrow> done_map (all_dones att n pm) (name, a) | Some v \<Rightarrow> Some v)"
    unfolding x all_dones_Cons done_map_def
    by (simp add: map_add_def comp_def case_prod_unfold cong: option.case_cong)
  moreover have "map_of ?row (name, a) = (if name = nm then map_option (\<lambda>_. answers att n name a) (mget (Pods ps) a) else None)"
    by (rule mget_row)
  moreover have "name = nm \<Longrightarrow> mget pm name = None" using Cons.prems by (auto simp: x mwf_def map_of_eq_None_iff)
  ultimately show ?case using Cons by (auto simp: x mwf_def split: option.splits)
qed

text \<open>C19: As long as no peers were cloned from another registry or loaded from a dump (such pods are never called, and
  are kept), cleaning up always returns and removes exactly the pods that do not answer as expected: a pod is kept
  if the first call is answered with the expected status, or if the first call times out and the second is answered so.
  A call that fails in another way, or is answered with another status, is not repeated: the pod is removed.
  Every pod that is left is healthy and has no past epochs.\<close>

theorem cleanup_keeps_answering:
  assumes "reg_reach reg"
  shows "\<exists>reg' res. reg_cleanupUnhealthyPeers [] att reg = Some (reg', res) \<and>
    (\<forall>name address. GetPeer name address reg' =
       (if att name address 0 = Answered True \<or> att name address 0 = TimedOut \<and> att name address 1 = Answered True
        then map_option (\<lambda>p. p\<lparr>Healthy := True, PastEpochs := []\<rparr>) (GetPeer name address reg) else None))"
proof -
  have ok: "reg_ok reg" using assms by (rule reg_reach_ok)
  define dones where "dones = all_dones att 1 (regPeers reg)"
  obtain res where i: "invokeForPods 1 True att (loadPeerPods [] [] reg) = (res, dones)"
    using invoke_all_dones [OF ok, of 1 att] by (cases "invokeForPods 1 True att (loadAllPeerPods reg)") (simp add: loadPeerPods_def dones_def)
  have wf: "mwf (regPeers reg)" "\<And>name ps. (name, ps) \<in> set (regPeers reg) \<Longrightarrow> mwf (Pods ps)"
    using ok reg_ok_entry [OF ok] by (simp_all add: reg_ok_def peers_ok_def)
  have dist: "distinct (done_keys dones)" unfolding dones_def by (rule all_dones_distinct) (fact wf)+
  from cleanup_fold [OF dist mark_bad_ok [OF ok], of dones]
  obtain reg' where r: "fold_opt cleanup_step dones (mark_bad dones reg) = Some reg'"
    and g: "\<And>n a. GetPeer n a reg' = (case done_map dones (n, a) of None \<Rightarrow> GetPeer n a (mark_bad dones reg)
       | Some ok \<Rightarrow> if ok then map_option (\<lambda>p. p\<lparr>Healthy := True, PastEpochs := []\<rparr>) (GetPeer n a (mark_bad dones reg)) else None)"
    by blast
  have none: "GetPeer n a (mark_bad dones reg) = None \<longleftrightarrow> GetPeer n a reg = None" for n a
    using mark_bad_GetPeer [of "\<lambda>_. ()" n a dones reg] by (cases "GetPeer n a (mark_bad dones reg)"; cases "GetPeer n a reg") auto
  have "GetPeer n a reg' = (if answers att 1 n a then map_option (\<lambda>p. p\<lparr>Healthy := True, PastEpochs := []\<rparr>) (GetPeer n a reg) else None)" for n a
    using all_dones_map [OF wf(1), of att 1 n a] mark_bad_GetPeer [of "\<lambda>p. p\<lparr>Healthy := True, PastEpochs := []\<rparr>" n a dones reg] none [of n a]
    unfolding g dones_def [symmetric] by (auto simp: GetPeer_def split: option.splits)
  with r show ?thesis unfolding reg_cleanupUnhealthyPeers_def i answers_two_attempts by auto
qed

theorem cleanup_keeps_answering_witness:
  "GetPeer ''p'' ''1.1.1.1:80'' (rememberPeer 1 sample_peer (new_registry 0)) \<noteq> None \<and>
   (\<exists>reg' res. reg_cleanupUnhealthyPeers [] (\<lambda>_ _ i. if i = 0 then CallError else Answered True)
       (rememberPeer 1 sample_peer (new_registry 0)) = Some (reg', res) \<and> GetPeer ''p'' ''1.1.1.1:80'' reg' = None) \<and>
   (\<exists>reg' res. reg_cleanupUnhealthyPeers [] (\<lambda>_ _ i. if i = 0 then TimedOut else Answered True)
       (rememberPeer 1 sample_peer (new_registry 0)) = Some (reg', res) \<and> GetPeer ''p'' ''1.1.1.1:80'' reg' \<noteq> None)"
proof -
  have reach: "reg_reach (rememberPeer 1 sample_peer (new_registry 0))" by (intro reg_reach.remember reg_reach.new)
  have "GetPeer ''p'' ''1.1.1.1:80'' (rememberPeer 1 sample_peer (new_registry 0)) \<noteq> None" by code_simp
  then show ?thesis
    using cleanup_keeps_answering [OF reach, of "\<lambda>_ _ i. if i = 0 then CallError else Answered True"]
      cleanup_keeps_answering [OF reach, of "\<lambda>_ _ i. if i = 0 then TimedOut else Answered True"] by auto
qed

section \<open>Items of the peers\<close>

lemma upd_pod_items [simp]:
  "peerTargets (upd_pod name address f reg) = peerTargets reg" "peerJobScripts (upd_pod name address f reg) = peerJobScripts reg"
  "peerFiles (upd_pod name address f reg) = peerFiles reg"
  by (simp_all add: upd_pod_def upd_peers_def split: option.splits)

lemma mark_bad_items [simp]:
  "peerTargets (mark_bad dones reg) = peerTargets reg" "peerJobScripts (mark_bad dones reg) = peerJobScripts reg"
  "peerFiles (mark_bad dones reg) = peerFiles reg"
  unfolding mark_bad_def by (induction dones arbitrary: reg) (auto split: prod.splits)

lemma peers_done_clear:
  "mget (peerTargets (peers_done (\<lambda>p reg. reg\<lparr>peerTargets := mdel p (peerTargets reg)\<rparr>) ps True reg)) q =
   (if q \<in> set ps then None else mget (peerTargets reg) q)"
  by (induction ps arbitrary: reg) (auto simp: delete_conv)

text \<open>C21: Clearing the targets of all peers does not look at the peer whose pod failed: when any pod fails, the first peer
  that is visited keeps its targets in the registry and all other peers lose them, the failed one included.\<close>

theorem clear_targets_keeps_first:
  assumes "map fst (regPeers reg) = p # ps"
  shows "mget (peerTargets (fst (reg_clearPeerTargets [] att reg))) q =
    (if q \<in> set ps \<or> q = p \<and> (\<forall>(name, address, ok, bad) \<in> set (snd (invokeForPods 3 False att (loadAllPeerPods reg))). ok)
     then None else mget (peerTargets reg) q)"
proof -
  obtain res dones where i: "invokeForPods 3 False att (loadAllPeerPods reg) = (res, dones)" by fastforce
  have "map fst (loadAllPeerPods reg) = p # ps" using assms by (auto simp: loadAllPeerPods_def comp_def case_prod_beta)
  then show ?thesis
    by (auto simp: reg_clearPeerTargets_def call_and_remove_def loadPodsForPeerWithData_def i peers_done_clear delete_conv list_all_iff
      split: if_splits)
qed

definition two_peers :: registry where
  "two_peers =
     (let reg = rememberPeer 1 (sample_peer\<lparr>pName := ''q'', pAddress := ''2.2.2.2:80''\<rparr>) (rememberPeer 1 sample_peer (new_registry 0))
      in fst (reg_addPeerTarget [] ''t'' ''x'' (\<lambda>_ _ _. Answered True) reg))"

theorem clear_targets_keeps_first_witness:
  "mget (peerTargets two_peers) ''q'' = Some [(''t'', ''x'')] \<and>
   (''q'', ''2.2.2.2:80'', False, False) \<in> set (snd (invokeForPods 3 False (\<lambda>name _ _. Answered (name = ''p'')) (loadAllPeerPods two_peers))) \<and>
   mget (peerTargets (fst (reg_clearPeerTargets [] (\<lambda>name _ _. Answered (name = ''p'')) two_peers))) ''q'' = None \<and>
   mget (peerTargets (fst (reg_clearPeerTargets [] (\<lambda>name _ _. Answered (name = ''p'')) two_peers))) ''p'' = Some [(''t'', ''x'')]"
proof -
  let ?att = "\<lambda>name _ _. Answered (name = ''p'')"
  have 1: "map fst (regPeers two_peers) = [''p'', ''q'']" by code_simp
  have 2: "mget (peerTargets two_peers) ''q'' = Some [(''t'', ''x'')]" "mget (peerTargets two_peers) ''p'' = Some [(''t'', ''x'')]" by code_simp+
  have 3: "(''q'', ''2.2.2.2:80'', False, False) \<in> set (snd (invokeForPods 3 False ?att (loadAllPeerPods two_peers)))" by code_simp
  then have 4: "\<not> (\<forall>(name, address, ok, bad) \<in> set (snd (invokeForPods 3 False ?att (loadAllPeerPods two_peers))). ok)" by blast
  show ?thesis
    using clear_targets_keeps_first [OF 1, of ?att "''p''"] clear_targets_keeps_first [OF 1, of ?att "''q''"] 2 3 unfolding if_not_P [OF 4] by (simp add: 4)
qed

text \<open>A file for the jobs of a peer is stored under the scripts of the peer and never under its files, and storing it
  panics when the peer has no scripts: a peer that registers gets the file as a script.\<close>

theorem peer_file_becomes_script:
  "case reg_addPeerJobScriptOrFile (c # name) path file content False att reg of
     None \<Rightarrow> mget (peerJobScripts reg) (c # name) = None
   | Some (reg', res) \<Rightarrow>
       mget (peerJobScripts reg) (c # name) \<noteq> None \<and>
       pdFiles (preparePeerStartupData (c # name) reg') = pdFiles (preparePeerStartupData (c # name) reg) \<and>
       mget (pdJobScripts (preparePeerStartupData (c # name) reg')) (BuildFilePath path file) = Some content"
  by (cases "mget (peerJobScripts reg) (c # name)"; cases "mget (peerFiles reg) (c # name)")
    (simp_all add: reg_addPeerJobScriptOrFile_def Let_def item_peers_def storePeerFile_def push_to_pods_def preparePeerStartupData_def
      ensure_def mget_or_def split: prod.splits)

end
