(* ===== verification/Util_Json.thy ===== *)
theory Util_Json
  imports Util_Text
begin

text \<open>
  JSON values and transformations: \<open>pkg/util/json.go\<close> and \<open>TransformPayload\<close> of \<open>pkg/util/payloadUtil.go\<close>. A value
  that \<open>encoding/json\<close> reads is a tree; \<open>JNull\<close> is nil, and a number is kept as the text that
  \<open>fmt.Sprint\<close> prints. A \<open>JSONValue\<close> holds an object or an array or nothing (\<open>JNull\<close>): every constructor stores once.
  A field that \<open>FindTransformPath\<close> returns points into the tree, so it is a location. Reading and
  writing JSON text (\<open>parse\<close>, \<open>marshal\<close>) and regular expressions (\<open>re\<close>) are parameters. An index out of range is \<open>None\<close>.
\<close>

section \<open>Values\<close>

datatype json = JNull | JBool bool | JNum string | JStr string | JArr "json list" | JObj "(string \<times> json) list"

fun is_container :: "json \<Rightarrow> bool" where
  "is_container (JObj m) = True"
| "is_container (JArr a) = True"
| "is_container _ = False"

fun str_le :: "string \<Rightarrow> string \<Rightarrow> bool" where
  "str_le [] t = True"
| "str_le (a # s) [] = False"
| "str_le (a # s) (b # t) = (if a = b then str_le s t else (of_char a :: nat) < of_char b)"

fun ins_field :: "string \<times> string \<Rightarrow> (string \<times> string) list \<Rightarrow> (string \<times> string) list" where
  "ins_field x [] = [x]"
| "ins_field x (y # ys) = (if str_le (fst x) (fst y) then x # y # ys else y # ins_field x ys)"

text \<open>\<open>fmt.Sprint\<close>: a map is printed in the order of its keys.\<close>

fun Sprint :: "json \<Rightarrow> string" where
  "Sprint JNull = ''<nil>''"
| "Sprint (JBool b) = (if b then ''true'' else ''false'')"
| "Sprint (JNum n) = n"
| "Sprint (JStr s) = s"
| "Sprint (JArr a) = ''['' @ join_with '' '' (map Sprint a) @ '']''"
| "Sprint (JObj m) = ''map['' @
     join_with '' '' (map (\<lambda>(k, v). k @ '':'' @ v) (foldr ins_field (map (\<lambda>(k, v). (k, Sprint v)) m) [])) @ '']''"

definition ToJSONValue :: "json \<Rightarrow> json" where
  "ToJSONValue v = (if is_container v then v else JNull)"

definition JSONArray :: "json \<Rightarrow> json list" where
  "JSONArray j = (case j of JArr a \<Rightarrow> map ToJSONValue a | _ \<Rightarrow> [])"

definition ToJSONArray :: "json \<Rightarrow> json list" where
  "ToJSONArray j = (case j of JArr a \<Rightarrow> JSONArray j | _ \<Rightarrow> [j])"

definition RemoveEmpty :: "string list \<Rightarrow> string list" where
  "RemoveEmpty arr = filter (\<lambda>s. s \<noteq> []) arr"

definition path_keys :: "string \<Rightarrow> string list" where
  "path_keys path = RemoveEmpty (split_on CHR ''.'' path)"

definition CleanJSONBytes :: "string \<Rightarrow> string" where
  "CleanJSONBytes b =
     (let s = ReplaceAll b (CHR 0x5C # [CHR 0x0A]) [];
          s = ReplaceAll s (CHR 0x5C # ''n'') [];
          s = ReplaceAll s [CHR 0x0A] [];
          s = ReplaceAll s (CHR 0x5C # [CHR 0x22]) [CHR 0x22]
      in TrimLeft (TrimRight s [CHR 0x00]) [CHR 0x00])"

section \<open>Reading\<close>

text \<open>A key in an array is an index; a negative index is below the length and panics.\<close>

definition array_at :: "string \<Rightarrow> json list \<Rightarrow> (int \<times> json) option option" where
  "array_at key a =
     (case parse_int 64 key of
        (i, ok) \<Rightarrow>
          (if ok \<and> i < int (length a) then (if 0 \<le> i then Some (Some (i, a ! nat i)) else None)
           else Some None))"

definition next_value :: "json \<Rightarrow> string \<Rightarrow> json option" where
  "next_value cur key =
     (case cur of
        JArr a \<Rightarrow> map_option (\<lambda>r. case r of None \<Rightarrow> JNull | Some (i, v) \<Rightarrow> v) (array_at key a)
      | JObj m \<Rightarrow> Some (mget_or JNull m key)
      | _ \<Rightarrow> Some JNull)"

fun find_path :: "json \<Rightarrow> json \<times> bool \<Rightarrow> string list \<Rightarrow> (json \<times> bool) option option" where
  "find_path cur v [] = Some (Some v)"
| "find_path cur v (key # keys) =
     (case next_value cur key of
        None \<Rightarrow> None
      | Some nv \<Rightarrow>
          (if nv = JNull then Some None
           else if is_container nv then find_path nv (nv, True) keys
           else find_path cur (nv, False) keys))"

definition FindPath :: "json \<Rightarrow> string \<Rightarrow> (json \<times> bool) option option" where
  "FindPath j path = find_path j (j, False) (path_keys path)"

definition FindPaths :: "json \<Rightarrow> string list \<Rightarrow> (string, (json \<times> bool) option) gomap option" where
  "FindPaths j paths =
     fold (\<lambda>p acc. case acc of None \<Rightarrow> None | Some m \<Rightarrow> map_option (\<lambda>v. mput p v m) (FindPath j p)) paths (Some [])"

text \<open>\<open>View\<close> dereferences the value of every path.\<close>

definition View :: "json \<Rightarrow> string list \<Rightarrow> (string, json) gomap option" where
  "View j paths =
     (case FindPaths j paths of
        None \<Rightarrow> None
      | Some m \<Rightarrow> (if list_ex (\<lambda>(p, v). v = None) m then None else Some (map (\<lambda>(p, v). (p, case v of Some (x, _) \<Rightarrow> x | None \<Rightarrow> JNull)) m)))"

definition GetText :: "(json \<Rightarrow> string) \<Rightarrow> json \<Rightarrow> string \<Rightarrow> string option" where
  "GetText marshal j path =
     (case FindPath j path of
        None \<Rightarrow> None
      | Some None \<Rightarrow> Some []
      | Some (Some (v, isJSON)) \<Rightarrow> Some (if isJSON then marshal v else Sprint v))"

section \<open>Fields\<close>

datatype jstep = Key string | Idx nat

type_synonym jloc = "jstep list"

fun get_step :: "jstep \<Rightarrow> json \<Rightarrow> json" where
  "get_step (Key k) (JObj m) = mget_or JNull m k"
| "get_step (Idx i) (JArr a) = (if i < length a then a ! i else JNull)"
| "get_step _ _ = JNull"

fun set_step :: "jstep \<Rightarrow> json \<Rightarrow> json \<Rightarrow> json" where
  "set_step (Key k) v (JObj m) = JObj (mput k v m)"
| "set_step (Idx i) v (JArr a) = JArr (a[i := v])"
| "set_step _ v j = j"

fun get_at :: "jloc \<Rightarrow> json \<Rightarrow> json" where
  "get_at [] j = j"
| "get_at (s # l) j = get_at l (get_step s j)"

fun upd_at :: "jloc \<Rightarrow> (json \<Rightarrow> json) \<Rightarrow> json \<Rightarrow> json" where
  "upd_at [] f j = f j"
| "upd_at (s # l) f j = set_step s (upd_at l f (get_step s j)) j"

text \<open>\<open>JSONMapField\<close> and \<open>JSONArrayField\<close>: the location of the map or array, the key or index, whether it exists,
  and for an array the location of the map or array above it with its key or index.\<close>

datatype json_field =
    MapField jloc string bool
  | ArrayField jloc nat bool "(jloc \<times> jstep) option"

record field_search =
  fsCur :: "json \<times> jloc"
  fsParent :: "json \<times> jloc"
  fsGrand :: "json \<times> jloc"
  fsGrandKey :: string
  fsGrandIndex :: int
  fsLastIndex :: int
  fsLastKey :: string
  fsExists :: bool

definition is_JArr :: "json \<Rightarrow> bool" where
  "is_JArr j = (case j of JArr _ \<Rightarrow> True | _ \<Rightarrow> False)"

definition is_JObj :: "json \<Rightarrow> bool" where
  "is_JObj j = (case j of JObj _ \<Rightarrow> True | _ \<Rightarrow> False)"

text \<open>One round of the loop: the next value, its step, and the last key and index. A key that is no index of the
  array leaves them as they were.\<close>

definition field_next :: "string \<Rightarrow> field_search \<Rightarrow> (field_search \<times> json \<times> jstep) option" where
  "field_next key s0 =
     (let s = s0\<lparr>fsGrand := fsParent s0, fsGrandKey := fsLastKey s0, fsGrandIndex := fsLastIndex s0, fsParent := fsCur s0\<rparr> in
      case fst (fsCur s) of
        JArr a \<Rightarrow>
          (case array_at key a of
             None \<Rightarrow> None
           | Some None \<Rightarrow> Some (s, JNull, Key [])
           | Some (Some (i, v)) \<Rightarrow> Some (s\<lparr>fsLastIndex := i, fsLastKey := []\<rparr>, v, Idx (nat i)))
      | JObj m \<Rightarrow> Some (s\<lparr>fsLastKey := key, fsLastIndex := - 1\<rparr>, mget_or JNull m key, Key key)
      | _ \<Rightarrow> Some (s, JNull, Key []))"

fun field_loop :: "string list \<Rightarrow> field_search \<Rightarrow> field_search option option" where
  "field_loop [] s = Some (Some s)"
| "field_loop (key # keys) s0 =
     (case field_next key s0 of
        None \<Rightarrow> None
      | Some (s, nv, st) \<Rightarrow>
          (if nv = JNull then
             (let s = s\<lparr>fsExists := False\<rparr>; p = fst (fsParent s) in
              if keys \<noteq> [] \<or> is_JArr p \<and> fsLastIndex s = - 1 \<or> is_JObj p \<and> fsLastKey s = [] then Some None
              else Some (Some s))
           else
             (let s = s\<lparr>fsExists := True\<rparr> in
              field_loop keys (if is_container nv then s\<lparr>fsCur := (nv, snd (fsCur s) @ [st])\<rparr> else s))))"

text \<open>The loop gives up in an array whose last index is -1, so the indices here are not negative.\<close>

definition field_of :: "field_search \<Rightarrow> json_field option" where
  "field_of s =
     (let (p, loc) = fsParent s; (g, gloc) = fsGrand s in
      if is_JArr p then
        Some (ArrayField loc (nat (fsLastIndex s)) (fsExists s)
          (if is_JObj g then Some (gloc, Key (fsGrandKey s))
           else if is_JArr g then Some (gloc, Idx (nat (fsGrandIndex s))) else None))
      else if is_JObj p then Some (MapField loc (fsLastKey s) (fsExists s))
      else None)"

definition FindTransformPath :: "json \<Rightarrow> string \<Rightarrow> json_field option option" where
  "FindTransformPath j path =
     (case field_loop (path_keys path)
         \<lparr>fsCur = (j, []), fsParent = (JNull, []), fsGrand = (JNull, []), fsGrandKey = [], fsGrandIndex = 0,
          fsLastIndex = 0, fsLastKey = [], fsExists = False\<rparr> of
        None \<Rightarrow> None
      | Some None \<Rightarrow> Some None
      | Some (Some s) \<Rightarrow> Some (field_of s))"

fun Exists :: "json_field \<Rightarrow> bool" where
  "Exists (MapField _ _ e) = e"
| "Exists (ArrayField _ _ e _) = e"

fun Read :: "json_field \<Rightarrow> json \<Rightarrow> json option" where
  "Read (MapField loc key _) j = Some (get_step (Key key) (get_at loc j))"
| "Read (ArrayField loc i _ _) j =
     (case get_at loc j of JArr a \<Rightarrow> (if i < length a then Some (a ! i) else None) | _ \<Rightarrow> None)"

definition AddToArray :: "json list \<Rightarrow> json \<Rightarrow> int \<Rightarrow> bool \<Rightarrow> json list option" where
  "AddToArray arr value pos push =
     (let pos = (if pos < 0 then int (length arr) - 1 else pos) in
      if push then
        (if 0 \<le> pos \<and> pos \<le> int (length arr) then Some (take (nat pos) arr @ value # drop (nat pos) arr) else None)
      else
        (if pos < int (length arr) then Some (take (nat (pos + 1)) arr @ value # drop (nat (pos + 1)) arr) else None))"

record field_mode =
  fmJoin :: bool
  fmReplace :: bool
  fmPush :: bool

definition map_update :: "field_mode \<Rightarrow> string \<Rightarrow> json \<Rightarrow> (string, json) gomap \<Rightarrow> (string, json) gomap option" where
  "map_update md key value m =
     (if fmReplace md \<or> fmJoin md then
        Some (case mget m key of
                None \<Rightarrow> m
              | Some cur \<Rightarrow> mput key (if fmJoin md then JStr (Sprint cur @ Sprint value) else value) m)
      else
        (case mget_or JNull m key of
           JArr a \<Rightarrow> map_option (\<lambda>a. mput key (JArr a) m) (AddToArray a value (- 1) (fmPush md))
         | JNull \<Rightarrow> Some (mput key (JArr [value]) m)
         | cur \<Rightarrow> Some (mput key (JArr (if fmPush md then [value, cur] else [cur, value])) m)))"

definition grand_update :: "(jloc \<times> jstep) option \<Rightarrow> json list \<Rightarrow> json \<Rightarrow> json" where
  "grand_update grand a j =
     (case grand of
        None \<Rightarrow> j
      | Some (gloc, Key k) \<Rightarrow>
          upd_at gloc (\<lambda>g. case g of JObj m \<Rightarrow> (if mget m k = None then g else JObj (mput k (JArr a) m)) | _ \<Rightarrow> g) j
      | Some (gloc, Idx i) \<Rightarrow> upd_at gloc (set_step (Idx i) (JArr a)) j)"

fun Update :: "field_mode \<Rightarrow> json \<Rightarrow> json_field \<Rightarrow> json \<Rightarrow> json option" where
  "Update md value (MapField loc key _) j =
     (case get_at loc j of
        JObj m \<Rightarrow> map_option (\<lambda>m'. upd_at loc (\<lambda>_. JObj m') j) (map_update md key value m)
      | _ \<Rightarrow> Some j)"
| "Update md value (ArrayField loc i _ grand) j =
     (case get_at loc j of
        JArr a \<Rightarrow>
          (if fmReplace md \<or> fmJoin md then
             (if i < length a then
                Some (upd_at loc (set_step (Idx i) (if fmJoin md then JStr (Sprint (a ! i) @ Sprint value) else value)) j)
              else Some j)
           else
             map_option (\<lambda>a'. grand_update grand a' j)
               (if i < length a then AddToArray a value (int i) (fmPush md) else Some (a @ [value])))
      | _ \<Rightarrow> Some j)"

section \<open>Transformations\<close>

record json_transform =
  tSource :: string
  tTarget :: string
  tIfContains :: string
  tIfNotContains :: string
  tMode :: string
  tValue :: json
  tFlags :: field_mode

text \<open>\<open>compiles p\<close> is whether \<open>regexp.MustCompile\<close> accepts the pattern; it panics otherwise.\<close>

definition JSONTransform_Init :: "(string \<Rightarrow> bool) \<Rightarrow> json_transform \<Rightarrow> json_transform option" where
  "JSONTransform_Init compiles t =
     (let fl = tFlags t;
          fl = (if EqualFold (tMode t) ''join'' then fl\<lparr>fmJoin := True\<rparr>
                else if EqualFold (tMode t) ''replace'' then fl\<lparr>fmReplace := True\<rparr>
                else if EqualFold (tMode t) ''push'' then fl\<lparr>fmPush := True\<rparr> else fl)
      in if (tIfContains t = [] \<or> compiles (''(?i)'' @ tIfContains t)) \<and> (tIfNotContains t = [] \<or> compiles (''(?i)'' @ tIfNotContains t))
         then Some (t\<lparr>tFlags := fl\<rparr>) else None)"

type_synonym json_patterns = "(nat, string list) gomap"

text \<open>The value of a mapping: for an equal source and target the given value comes first, otherwise last.\<close>

definition transform_value :: "json_transform \<Rightarrow> json \<Rightarrow> json option" where
  "transform_value t source =
     (let v = (if tTarget t = [] then tValue t else JNull);
          found = (if v \<noteq> JNull then Some v
                   else case FindTransformPath source (tSource t) of
                          None \<Rightarrow> None
                        | Some None \<Rightarrow> Some JNull
                        | Some (Some f) \<Rightarrow> (if Exists f then Read f source else Some JNull))
      in map_option (\<lambda>x. if x = JNull then tValue t else x) found)"

definition transform_one :: "(string \<Rightarrow> string \<Rightarrow> bool) \<Rightarrow> json \<Rightarrow> nat \<Rightarrow> json_transform \<Rightarrow>
    json \<times> json_patterns \<times> bool \<Rightarrow> (json \<times> json_patterns \<times> bool) option" where
  "transform_one re source i t s =
     (case s of (j, pats, done) \<Rightarrow>
        (let target = (if tTarget t = [] then tSource t else tTarget t) in
         if target = [] then Some s
         else case transform_value t source of
                None \<Rightarrow> None
              | Some v \<Rightarrow>
                  (if v = JNull then Some s
                   else if tIfContains t \<noteq> [] \<and> \<not> re (''(?i)'' @ tIfContains t) (Sprint v) then Some s
                   else if tIfNotContains t \<noteq> [] \<and> re (''(?i)'' @ tIfNotContains t) (Sprint v) then Some s
                   else if IsFiller target then Some (j, mput i [fst (GetFillerUnmarked target), Sprint v] pats, True)
                   else case FindTransformPath j target of
                          None \<Rightarrow> None
                        | Some None \<Rightarrow> Some (j, pats, True)
                        | Some (Some f) \<Rightarrow> map_option (\<lambda>j. (j, pats, True)) (Update (tFlags t) v f j))))"

fun transform_all :: "(string \<Rightarrow> string \<Rightarrow> bool) \<Rightarrow> json \<Rightarrow> nat \<Rightarrow> json_transform list \<Rightarrow>
    json \<times> json_patterns \<times> bool \<Rightarrow> (json \<times> json_patterns \<times> bool) option" where
  "transform_all re source i [] s = Some s"
| "transform_all re source i (t # ts) s =
     (case transform_one re source i t s of None \<Rightarrow> None | Some s \<Rightarrow> transform_all re source (i + 1) ts s)"

definition TransformPatterns :: "json_patterns \<Rightarrow> string \<Rightarrow> string" where
  "TransformPatterns pats txt =
     fold (\<lambda>(i, p) txt. case p of a # b # _ \<Rightarrow> ReplaceAll txt a b | _ \<Rightarrow> txt) pats txt"

record transform =
  trMappings :: "json_transform list"
  trPayload :: json

text \<open>\<open>Clone\<close> copies the reference to the map or array and not the tree: the transformation changes the payload of the
  configuration, which is part of the result. The source is empty in the loop, so that every value that is inserted
  comes from the configuration.\<close>

fun transform_payloads :: "(json \<Rightarrow> string) \<Rightarrow> (string \<Rightarrow> string \<Rightarrow> bool) \<Rightarrow> json \<Rightarrow> transform list \<Rightarrow> string \<Rightarrow>
    (string \<times> transform list) option" where
  "transform_payloads marshal re source [] txt = Some (txt, [])"
| "transform_payloads marshal re source (t # ts) txt =
     (let target = (if trPayload t = JNull then source else ToJSONValue (trPayload t)) in
      case (if is_container target then
              map_option (\<lambda>(j, pats, done). (TransformPatterns pats (if done then marshal j else txt), t\<lparr>trPayload := j\<rparr>))
                (transform_all re source 0 (trMappings t) (target, [], False))
            else Some (txt, t)) of
        None \<Rightarrow> None
      | Some (txt, t) \<Rightarrow>
          (if txt \<noteq> [] then Some (txt, t # ts)
           else map_option (\<lambda>(r, ts). (r, t # ts)) (transform_payloads marshal re source ts txt)))"

definition TransformPayload :: "(string \<Rightarrow> json option) \<Rightarrow> (json \<Rightarrow> string) \<Rightarrow> (string \<Rightarrow> string \<Rightarrow> bool) \<Rightarrow> string \<Rightarrow> transform list \<Rightarrow>
    (string \<times> transform list) option" where
  "TransformPayload parse marshal re sourcePayload ts =
     (let source = (case parse sourcePayload of None \<Rightarrow> JNull | Some j \<Rightarrow> ToJSONValue j) in
      if parse sourcePayload \<noteq> None \<and> is_container source then Some (sourcePayload, ts)
      else map_option (\<lambda>(txt, ts). (if txt = [] then sourcePayload else txt, ts)) (transform_payloads marshal re source ts []))"

section \<open>Finding a path\<close>

text \<open>The value at a path: every key leads from an object or array to one of its members.\<close>

definition child :: "json \<Rightarrow> string \<Rightarrow> json option" where
  "child j key =
     (case j of
        JObj m \<Rightarrow> mget m key
      | JArr a \<Rightarrow> (case array_at key a of Some (Some (i, v)) \<Rightarrow> Some v | _ \<Rightarrow> None)
      | _ \<Rightarrow> None)"

fun descend :: "json \<Rightarrow> string list \<Rightarrow> json option" where
  "descend j [] = Some j"
| "descend j (key # keys) = (case child j key of None \<Rightarrow> None | Some c \<Rightarrow> descend c keys)"

lemma next_value_child: "child j key = Some c \<Longrightarrow> next_value j key = Some c"
  by (auto simp: child_def next_value_def mget_or_def split: json.splits option.splits)

lemma descend_Some: "descend j keys = Some v \<Longrightarrow> v \<noteq> JNull \<Longrightarrow> keys \<noteq> [] \<Longrightarrow> is_container j"
  by (cases keys; cases j) (auto simp: child_def)

lemma find_path_descend:
  assumes "descend j keys = Some v" and "v \<noteq> JNull"
  shows "find_path j x keys = Some (Some (if keys = [] then x else (v, is_container v)))"
  using assms
proof (induction keys arbitrary: j x)
  case (Cons key keys)
  from Cons.prems(1) obtain c where c: "child j key = Some c" "descend c keys = Some v" by (auto split: option.splits)
  have "c \<noteq> JNull" using c(2) Cons.prems(2) descend_Some [of c keys v] by (cases keys) auto
  moreover have "keys = [] \<or> is_container c" using descend_Some [OF c(2) Cons.prems(2)] by auto
  moreover have "keys = [] \<Longrightarrow> c = v" using c(2) by simp
  ultimately show ?case using Cons.IH [OF c(2) Cons.prems(2)] by (auto simp: next_value_child [OF c(1)])
qed simp

text \<open>A path whose keys lead from objects and arrays to their members is found with its value, and the result says
  whether the value is an object or array.\<close>

theorem FindPath_finds:
  assumes "descend j (path_keys path) = Some v" and "v \<noteq> JNull" and "path_keys path \<noteq> []"
  shows "FindPath j path = Some (Some (v, is_container v))"
  using find_path_descend [OF assms(1,2)] assms(3) by (simp add: FindPath_def)

definition sample_json :: json where
  "sample_json = JObj [(''a'', JArr [JNum ''1'', JObj [(''b'', JStr ''x'')]]), (''b'', JNum ''2'')]"

theorem FindPath_finds_witness: "FindPath sample_json ''a.1.b'' = Some (Some (JStr ''x'', False))"
proof -
  have 1: "descend sample_json (path_keys ''a.1.b'') = Some (JStr ''x'')" by code_simp
  have 2: "path_keys ''a.1.b'' \<noteq> []" by code_simp
  show ?thesis using FindPath_finds [OF 1 _ 2] by simp
qed

text \<open>A key after a value that is no object or array is looked up next to that value.\<close>

lemma find_path_after_scalar:
  assumes "mget m k = Some v" and "v \<noteq> JNull" and "\<not> is_container v"
    and "CHR ''.'' \<notin> set k" and "k \<noteq> []" and "path_keys rest \<noteq> []"
  shows "FindPath (JObj m) (k @ ''.'' @ rest) = FindPath (JObj m) rest"
proof -
  have "path_keys (k @ ''.'' @ rest) = k # path_keys rest"
    using assms(4,5) by (simp add: path_keys_def RemoveEmpty_def split_on_append_sep)
  then show ?thesis using assms by (cases "path_keys rest") (simp_all add: FindPath_def next_value_def mget_or_def)
qed

section \<open>Updating a field\<close>

fun has_step :: "jstep \<Rightarrow> json \<Rightarrow> bool" where
  "has_step (Key k) (JObj m) = True"
| "has_step (Idx i) (JArr a) = (i < length a)"
| "has_step _ _ = False"

fun valid_loc :: "jloc \<Rightarrow> json \<Rightarrow> bool" where
  "valid_loc [] j = True"
| "valid_loc (s # l) j = (has_step s j \<and> valid_loc l (get_step s j))"

lemma get_set_step: "has_step s j \<Longrightarrow> get_step s (set_step s v j) = v"
  by (cases s; cases j) (auto simp: mget_or_def)

lemma get_upd_at: "valid_loc l j \<Longrightarrow> get_at l (upd_at l f j) = f (get_at l j)"
  by (induction l arbitrary: j) (auto simp: get_set_step)

lemma valid_loc_snoc: "valid_loc (l @ [s]) j \<longleftrightarrow> valid_loc l j \<and> has_step s (get_at l j)"
  by (induction l arbitrary: j) auto

lemma get_at_snoc: "get_at (l @ [s]) j = get_step s (get_at l j)"
  by (induction l arbitrary: j) auto

lemma array_at_member: "array_at key a = Some (Some (i, v)) \<Longrightarrow> 0 \<le> i \<and> i < int (length a) \<and> nat i < length a \<and> a ! nat i = v"
  by (auto simp: array_at_def split: prod.splits if_splits)

lemma upd_at_cong: "f (get_at l j) = g (get_at l j) \<Longrightarrow> upd_at l f j = upd_at l g j"
  by (induction l arbitrary: j) auto

text \<open>The step that a key makes from an object or array, and the value with the member at a path replaced.\<close>

definition key_step :: "json \<Rightarrow> string \<Rightarrow> jstep" where
  "key_step j key = (if is_JArr j then Idx (nat (fst (parse_int 64 key))) else Key key)"

fun put_path :: "json \<Rightarrow> string list \<Rightarrow> json \<Rightarrow> json" where
  "put_path j [] v = v"
| "put_path (JObj m) (key # keys) v = JObj (mput key (put_path (mget_or JNull m key) keys v) m)"
| "put_path (JArr a) (key # keys) v =
     (let i = nat (fst (parse_int 64 key)) in JArr (a[i := put_path (a ! i) keys v]))"
| "put_path j (key # keys) v = j"

fun path_loc :: "json \<Rightarrow> string list \<Rightarrow> jloc" where
  "path_loc j [] = []"
| "path_loc j (key # keys) = key_step j key # path_loc (get_step (key_step j key) j) keys"

lemma child_step:
  assumes "child j key = Some c"
  shows "has_step (key_step j key) j \<and> get_step (key_step j key) j = c"
  using assms
proof (cases j)
  case (JArr a)
  then obtain i where i: "array_at key a = Some (Some (i, c))"
    using assms by (auto simp: child_def split: option.splits)
  moreover have "fst (parse_int 64 key) = i" using i by (auto simp: array_at_def split: prod.splits if_splits)
  ultimately show ?thesis using array_at_member [OF i] JArr by (simp add: key_step_def is_JArr_def)
qed (auto simp: child_def key_step_def is_JArr_def mget_or_def)

lemma put_path_step:
  assumes "child j key = Some c"
  shows "put_path j (key # keys) v = set_step (key_step j key) (put_path c keys v) j"
  using assms child_step [OF assms] by (cases j) (auto simp: child_def key_step_def is_JArr_def Let_def mget_or_def)

lemma descend_loc: "descend j keys = Some v \<Longrightarrow> valid_loc (path_loc j keys) j \<and> get_at (path_loc j keys) j = v"
proof (induction keys arbitrary: j)
  case (Cons key keys)
  then obtain c where c: "child j key = Some c" "descend c keys = Some v" by (auto split: option.splits)
  with Cons.IH [OF c(2)] child_step [OF c(1)] show ?case by simp
qed simp

lemma put_path_loc:
  "descend j keys = Some old \<Longrightarrow> keys \<noteq> [] \<Longrightarrow>
   put_path j keys v = upd_at (butlast (path_loc j keys)) (set_step (last (path_loc j keys)) v) j"
proof (induction keys arbitrary: j)
  case (Cons key keys)
  then obtain c where c: "child j key = Some c" "descend c keys = Some old" by (auto split: option.splits)
  show ?case
  proof (cases keys)
    case Nil
    then show ?thesis using put_path_step [OF c(1), of keys v] by simp
  next
    case (Cons k ks)
    then have "path_loc c keys \<noteq> []" "keys \<noteq> []" by simp_all
    then show ?thesis
      using Cons.IH [OF c(2)] put_path_step [OF c(1), of keys v] child_step [OF c(1)] by simp
  qed
qed simp

lemma child_put:
  assumes "child j key = Some c"
  shows "child (set_step (key_step j key) v j) key = Some v"
  using assms
proof (cases j)
  case (JArr a)
  then obtain i where i: "array_at key a = Some (Some (i, c))"
    using assms by (auto simp: child_def split: option.splits)
  moreover have "fst (parse_int 64 key) = i" using i by (auto simp: array_at_def split: prod.splits if_splits)
  moreover have "array_at key (a[nat i := v]) = Some (Some (i, v))"
    using i array_at_member [OF i] by (auto simp: array_at_def split: prod.splits if_splits)
  ultimately show ?thesis using JArr by (simp add: child_def key_step_def is_JArr_def)
qed (auto simp: child_def key_step_def is_JArr_def)

lemma descend_put_path: "descend j keys = Some old \<Longrightarrow> descend (put_path j keys v) keys = Some v"
proof (induction keys arbitrary: j)
  case (Cons key keys)
  then obtain c where c: "child j key = Some c" "descend c keys = Some old" by (auto split: option.splits)
  show ?case unfolding put_path_step [OF c(1)] by (simp add: child_put [OF c(1)] Cons.IH [OF c(2)])
qed simp

text \<open>Where the search for an existing value ends: at its parent, with the last step.\<close>

definition found_at :: "field_search \<Rightarrow> json \<Rightarrow> jloc \<Rightarrow> bool" where
  "found_at s p loc \<longleftrightarrow> fsExists s \<and> fsParent s = (p, butlast loc) \<and>
     (case p of
        JArr a \<Rightarrow> last loc = Idx (nat (fsLastIndex s)) \<and> nat (fsLastIndex s) < length a
      | JObj m \<Rightarrow> last loc = Key (fsLastKey s) \<and> mget m (fsLastKey s) \<noteq> None
      | _ \<Rightarrow> False)"

lemma field_next_child:
  assumes "child j key = Some c" and "fsCur s0 = (j, loc)"
  shows "\<exists>s. field_next key s0 = Some (s, c, key_step j key) \<and> fsCur s = (j, loc) \<and>
    found_at (s\<lparr>fsExists := True\<rparr>) j (loc @ [key_step j key])"
proof (cases j)
  case (JArr a)
  then obtain i where i: "array_at key a = Some (Some (i, c))"
    using assms by (auto simp: child_def split: option.splits)
  moreover have "fst (parse_int 64 key) = i" using i by (auto simp: array_at_def split: prod.splits if_splits)
  ultimately show ?thesis
    using JArr assms(2) array_at_member [OF i] by (simp add: field_next_def found_at_def key_step_def is_JArr_def Let_def)
qed (use assms in \<open>auto simp: child_def field_next_def found_at_def key_step_def is_JArr_def Let_def mget_or_def\<close>)

lemma field_loop_descend:
  assumes "descend j keys = Some v" and "v \<noteq> JNull" and "keys \<noteq> []" and "fsCur s0 = (j, loc)"
  shows "\<exists>s. field_loop keys s0 = Some (Some s) \<and>
    found_at s (get_at (butlast (path_loc j keys)) j) (loc @ path_loc j keys)"
  using assms
proof (induction keys arbitrary: j s0 loc)
  case (Cons key keys)
  then obtain c where c: "child j key = Some c" "descend c keys = Some v" by (auto split: option.splits)
  have nn: "c \<noteq> JNull" using c(2) Cons.prems(2) descend_Some [of c keys v] by (cases keys) auto
  from field_next_child [OF c(1) Cons.prems(4)] obtain s where
    s: "field_next key s0 = Some (s, c, key_step j key)" "fsCur s = (j, loc)"
      "found_at (s\<lparr>fsExists := True\<rparr>) j (loc @ [key_step j key])" by blast
  show ?case
  proof (cases "keys = []")
    case True
    have "found_at (s\<lparr>fsExists := True, fsCur := x\<rparr>) j (loc @ [key_step j key])" for x
      using s(3) by (auto simp: found_at_def split: json.splits)
    with s nn True show ?thesis by (auto simp: Let_def)
  next
    case False
    have "is_container c" using descend_Some [OF c(2) Cons.prems(2) False] .
    moreover have "path_loc c keys \<noteq> []" using False by (cases keys) auto
    ultimately show ?thesis
      using Cons.IH [OF c(2) Cons.prems(2) False, of "s\<lparr>fsExists := True, fsCur := (c, loc @ [key_step j key])\<rparr>" "loc @ [key_step j key]"]
        s(1,2) nn child_step [OF c(1)] by (simp add: Let_def)
  qed
qed simp

text \<open>The field of a search that found a value reads the value and replaces it.\<close>

lemma found_field:
  assumes "found_at s p loc" and "p = get_at (butlast loc) j" and "valid_loc (butlast loc) j"
  shows "\<exists>f. field_of s = Some f \<and> Exists f \<and> Read f j = Some (get_step (last loc) p) \<and>
    Update \<lparr>fmJoin = False, fmReplace = True, fmPush = push\<rparr> v f j = Some (upd_at (butlast loc) (set_step (last loc) v) j)"
proof (cases p)
  case (JArr a)
  then show ?thesis using assms
    by (auto simp: found_at_def field_of_def is_JArr_def is_JObj_def Let_def split: prod.splits json.splits)
next
  case (JObj m)
  have "get_at (butlast loc) j = JObj m" using assms(2) JObj by simp
  moreover have "fsParent s = (JObj m, butlast loc)" "last loc = Key (fsLastKey s)" "fsExists s" "mget m (fsLastKey s) \<noteq> None"
    using assms(1) unfolding found_at_def JObj by simp_all
  ultimately show ?thesis using JObj upd_at_cong [of "\<lambda>_. JObj (mput (fsLastKey s) v m)" "butlast loc" j "set_step (Key (fsLastKey s)) v"]
    by (auto simp: field_of_def is_JArr_def is_JObj_def Let_def map_update_def split: prod.splits option.splits)
qed (use assms in \<open>simp_all add: found_at_def\<close>)

text \<open>C31: Take a path whose keys lead from objects and arrays to their members (an index in an array, a name in an object) and end
  at a value other than null. The field that is found for it reads this value, and replacing it gives the document in which exactly the value
  at the path is replaced: the path then leads to the new value, and every other member of every object and array on the way is as before.\<close>

theorem replace_at_path:
  assumes "descend j (path_keys path) = Some old" and "old \<noteq> JNull" and "path_keys path \<noteq> []"
  shows "\<exists>f. FindTransformPath j path = Some (Some f) \<and> Exists f \<and> Read f j = Some old \<and>
    Update \<lparr>fmJoin = False, fmReplace = True, fmPush = push\<rparr> v f j = Some (put_path j (path_keys path) v) \<and>
    descend (put_path j (path_keys path) v) (path_keys path) = Some v"
proof -
  let ?L = "path_loc j (path_keys path)"
  have ne: "?L \<noteq> []" using assms(3) by (cases "path_keys path") auto
  then have split: "?L = butlast ?L @ [last ?L]" by simp
  from descend_loc [OF assms(1)] have L: "valid_loc (butlast ?L) j" "get_step (last ?L) (get_at (butlast ?L) j) = old"
    using valid_loc_snoc [of "butlast ?L" "last ?L" j] get_at_snoc [of "butlast ?L" "last ?L" j] split by simp_all
  let ?s0 = "\<lparr>fsCur = (j, []), fsParent = (JNull, []), fsGrand = (JNull, []), fsGrandKey = [], fsGrandIndex = 0,
      fsLastIndex = 0, fsLastKey = [], fsExists = False\<rparr>"
  from field_loop_descend [OF assms, of ?s0 "[]"] obtain s where
    s: "field_loop (path_keys path) ?s0 = Some (Some s)" "found_at s (get_at (butlast ?L) j) ?L" by auto
  from found_field [OF s(2) refl L(1), of push v] s(1) L(2) put_path_loc [OF assms(1,3), of v] descend_put_path [OF assms(1), of v]
  show ?thesis by (auto simp: FindTransformPath_def)
qed

theorem replace_at_path_witness:
  "\<exists>f. FindTransformPath sample_json ''a.1.b'' = Some (Some f) \<and> Read f sample_json = Some (JStr ''x'') \<and>
     Update \<lparr>fmJoin = False, fmReplace = True, fmPush = False\<rparr> (JNum ''7'') f sample_json =
       Some (JObj [(''a'', JArr [JNum ''1'', JObj [(''b'', JNum ''7'')]]), (''b'', JNum ''2'')])"
proof -
  have 1: "descend sample_json (path_keys ''a.1.b'') = Some (JStr ''x'')" by code_simp
  have 2: "path_keys ''a.1.b'' \<noteq> []" by code_simp
  have "put_path sample_json (path_keys ''a.1.b'') (JNum ''7'') =
      JObj [(''a'', JArr [JNum ''1'', JObj [(''b'', JNum ''7'')]]), (''b'', JNum ''2'')]" by code_simp
  with replace_at_path [OF 1 _ 2, of False "JNum ''7''"] show ?thesis by auto
qed

text \<open>In an array at the top, an index that is out of range is taken for the first element: replacing the
  value at the index replaces the first element.\<close>

theorem top_index_out_of_range:
  assumes "parse_int 64 key = (i, True)" and "int (length a) \<le> i" and "CHR ''.'' \<notin> set key" and "key \<noteq> []"
  shows "FindTransformPath (JArr a) key = Some (Some (ArrayField [] 0 False None)) \<and>
    Update \<lparr>fmJoin = False, fmReplace = True, fmPush = push\<rparr> v (ArrayField [] 0 False None) (JArr a) = Some (JArr (a[0 := v]))"
proof -
  have "path_keys key = [key]" using assms(3,4) by (simp add: path_keys_def RemoveEmpty_def split_on_no_sep)
  moreover have "array_at key a = Some None" using assms(1,2) by (simp add: array_at_def)
  ultimately show ?thesis by (cases a) (simp_all add: FindTransformPath_def field_next_def field_of_def is_JArr_def is_JObj_def)
qed

theorem top_index_out_of_range_witness:
  "FindTransformPath (JArr [JNum ''1'', JNum ''2'']) ''5'' = Some (Some (ArrayField [] 0 False None)) \<and>
   Update \<lparr>fmJoin = False, fmReplace = True, fmPush = False\<rparr> (JNum ''9'') (ArrayField [] 0 False None) (JArr [JNum ''1'', JNum ''2'']) =
     Some (JArr [JNum ''9'', JNum ''2''])"
proof -
  have "parse_int 64 ''5'' = (5, True)" by code_simp
  then show ?thesis using top_index_out_of_range [of "''5''" 5 "[JNum ''1'', JNum ''2'']" False "JNum ''9''"] by simp
qed

text \<open>A transformation is never applied to a payload that is a JSON object or array: the payload is returned as it
  came, whatever the transformations are.\<close>

theorem valid_json_not_transformed:
  assumes "parse txt = Some j" and "is_container j"
  shows "TransformPayload parse marshal re txt ts = Some (txt, ts)"
  using assms by (simp add: TransformPayload_def ToJSONValue_def)

definition sample_transform :: transform where
  "sample_transform = \<lparr>trMappings = [\<lparr>tSource = [], tTarget = ''a'', tIfContains = [], tIfNotContains = [], tMode = [], tValue = JNum ''3'',
     tFlags = \<lparr>fmJoin = False, fmReplace = False, fmPush = False\<rparr>\<rparr>], trPayload = JObj [(''a'', JNum ''1'')]\<rparr>"

theorem valid_json_not_transformed_witness:
  "TransformPayload (\<lambda>_. Some sample_json) Sprint (\<lambda>_ _. True) ''{...}'' [sample_transform] = Some (''{...}'', [sample_transform])"
  by (rule valid_json_not_transformed [of _ _ sample_json]) (simp_all add: sample_json_def)

text \<open>For other payloads the transformation changes the configured payload itself: the second request sees the value of
  the first one.\<close>

lemma transform_accumulates:
  "TransformPayload (\<lambda>_. None) Sprint (\<lambda>_ _. True) ''x'' [sample_transform] =
     Some (''map[a:[1 3]]'', [sample_transform\<lparr>trPayload := JObj [(''a'', JArr [JNum ''1'', JNum ''3''])]\<rparr>]) \<and>
   map_option fst (TransformPayload (\<lambda>_. None) Sprint (\<lambda>_ _. True) ''x'' [sample_transform\<lparr>trPayload := JObj [(''a'', JArr [JNum ''1'', JNum ''3''])]\<rparr>]) =
     Some ''map[a:[1 3 3]]''"
  by code_simp

end
