(* ===== verification/Payload_Stream.thy ===== *)
theory Payload_Stream
  imports Util_Json Delay_Types
begin

text \<open>
  Payloads that are sent once or as a stream: the type \<open>Payload\<close> of \<open>pkg/server/response/payload/payloadUtil.go\<close>, with
  \<open>FixPayload\<close>, and \<open>PrepareJSONStreamPayload\<close> of \<open>protoPayload.go\<close>. A nil slice or interface is \<open>None\<close>. The function
  that a stream is handed to is a parameter that changes a state of its own and answers \<open>None\<close> for an error or whether to
  go on. The loop of a stream may run forever: it is a \<open>partial_function\<close>, and the theorems say when it returns and what it sends.
\<close>

section \<open>Payloads\<close>

datatype raw_value = RawStr string | RawBytes string | RawJson json | RawOther string

record payload =
  plIsStream :: bool
  plStreamCount :: int
  plDelay :: "delay option"
  plJSON :: "json option"
  plText :: string
  plRaw :: "raw_value option"
  plJSONStream :: "json list option"
  plTextStream :: "string list option"
  plRawStream :: "raw_value list option"

definition empty_payload :: payload where
  "empty_payload = \<lparr>plIsStream = False, plStreamCount = 0, plDelay = None, plJSON = None, plText = [], plRaw = None,
     plJSONStream = None, plTextStream = None, plRawStream = None\<rparr>"

definition JSONFromBytes :: "(string \<Rightarrow> json option) \<Rightarrow> string \<Rightarrow> json" where
  "JSONFromBytes parse b = (case parse b of None \<Rightarrow> JNull | Some j \<Rightarrow> ToJSONValue j)"

definition NewJSONPayload :: "(string \<Rightarrow> json option) \<Rightarrow> json option \<Rightarrow> string \<Rightarrow> int \<Rightarrow> int \<Rightarrow> int \<Rightarrow> payload" where
  "NewJSONPayload parse j raw delayMin delayMax delayCount =
     empty_payload\<lparr>plDelay := NewDelay delayMin delayMax delayCount,
       plJSON := (if j = None \<and> raw \<noteq> [] then Some (JSONFromBytes parse raw) else j)\<rparr>"

definition NewRawPayload :: "string \<Rightarrow> string \<Rightarrow> int \<Rightarrow> int \<Rightarrow> int \<Rightarrow> payload" where
  "NewRawPayload raw txt delayMin delayMax delayCount =
     empty_payload\<lparr>plDelay := NewDelay delayMin delayMax delayCount, plText := txt, plRaw := Some (RawBytes raw)\<rparr>"

definition stream_count :: "nat \<Rightarrow> payload \<Rightarrow> payload" where
  "stream_count n p = p\<lparr>plStreamCount := (if plStreamCount p \<le> 0 then int n else plStreamCount p), plIsStream := True\<rparr>"

text \<open>\<open>jsonMap\<close> is the object, if it is not nil.\<close>

definition prepareJSONStream ::
  "(string \<Rightarrow> json option) \<Rightarrow> json list \<Rightarrow> (string, json) gomap list \<Rightarrow> (string, json) gomap option \<Rightarrow> string \<Rightarrow> payload \<Rightarrow> payload" where
  "prepareJSONStream parse jsonArr jsonMapArr jsonMap raw p =
     (if jsonArr = [] \<and> jsonMapArr = [] \<and> raw = [] \<and> jsonMap = None then p
      else
        (let arr = (if jsonMapArr \<noteq> [] then map JObj jsonMapArr
                    else if jsonArr = [] \<and> raw \<noteq> [] then ToJSONArray (JSONFromBytes parse raw)
                    else case jsonMap of Some (f # fs) \<Rightarrow> (if jsonArr = [] then ToJSONArray (JObj (f # fs)) else jsonArr) | _ \<Rightarrow> jsonArr)
         in (stream_count (length arr) p)\<lparr>plJSONStream := Some arr\<rparr>))"

text \<open>\<open>readStrings\<close> is \<open>json.Unmarshal\<close> into a list of strings.\<close>

definition ReadStringArray :: "(string \<Rightarrow> string list option) \<Rightarrow> string \<Rightarrow> string list" where
  "ReadStringArray readStrings b = (case readStrings b of None \<Rightarrow> [b] | Some arr \<Rightarrow> arr)"

definition prepareTextStream :: "(string \<Rightarrow> string list option) \<Rightarrow> string list option \<Rightarrow> string \<Rightarrow> payload \<Rightarrow> payload" where
  "prepareTextStream readStrings textArr b p =
     (let arr = (case textArr of None \<Rightarrow> ReadStringArray readStrings b | Some a \<Rightarrow> a)
      in (stream_count (length arr) p)\<lparr>plTextStream := Some arr\<rparr>)"

definition prepareRawStream :: "raw_value list option \<Rightarrow> string list option \<Rightarrow> string list \<Rightarrow> payload \<Rightarrow> payload" where
  "prepareRawStream raw strArr byteArr p =
     (let vs = (case raw of Some r \<Rightarrow> r | None \<Rightarrow> (case strArr of Some a \<Rightarrow> map RawStr a | None \<Rightarrow> map RawBytes byteArr))
      in (stream_count (length vs) p)\<lparr>plRawStream := Some vs\<rparr>)"

definition new_stream :: "int \<Rightarrow> int \<Rightarrow> int \<Rightarrow> int \<Rightarrow> payload" where
  "new_stream streamCount delayMin delayMax delayCount =
     empty_payload\<lparr>plIsStream := True, plStreamCount := streamCount, plDelay := NewDelay delayMin delayMax delayCount\<rparr>"

definition NewStreamJSONPayload :: "(string \<Rightarrow> json option) \<Rightarrow> json list \<Rightarrow> string \<Rightarrow> int \<Rightarrow> int \<Rightarrow> int \<Rightarrow> int \<Rightarrow> payload" where
  "NewStreamJSONPayload parse jsonArr raw streamCount delayMin delayMax delayCount =
     prepareJSONStream parse jsonArr [] None raw (new_stream streamCount delayMin delayMax delayCount)"

definition NewStreamTextPayload ::
  "(string \<Rightarrow> string list option) \<Rightarrow> string list option \<Rightarrow> string \<Rightarrow> int \<Rightarrow> int \<Rightarrow> int \<Rightarrow> int \<Rightarrow> payload" where
  "NewStreamTextPayload readStrings textArr b streamCount delayMin delayMax delayCount =
     prepareTextStream readStrings textArr b (new_stream streamCount delayMin delayMax delayCount)"

definition NewRawStreamPayload ::
  "raw_value list option \<Rightarrow> string list option \<Rightarrow> string list \<Rightarrow> int \<Rightarrow> int \<Rightarrow> int \<Rightarrow> int \<Rightarrow> payload" where
  "NewRawStreamPayload raw strArr byteArr streamCount delayMin delayMax delayCount =
     prepareRawStream raw strArr byteArr (new_stream streamCount delayMin delayMax delayCount)"

text \<open>What \<open>json.Unmarshal\<close> or the YAML reader made of the text; an empty list stands for a missing one.\<close>

record payload_marshal =
  pmStreamCount :: int
  pmDelay :: "delay option"
  pmJSON :: "(string, json) gomap option"
  pmText :: string
  pmRaw :: "raw_value option"
  pmJSONStream :: "(string, json) gomap list"
  pmTextStream :: "string list"
  pmRawStream :: "raw_value list"

definition Unmarshal_payload ::
  "(string \<Rightarrow> json option) \<Rightarrow> (string \<Rightarrow> string list option) \<Rightarrow> payload_marshal \<Rightarrow> payload \<Rightarrow> payload option" where
  "Unmarshal_payload parse readStrings pm p0 =
     (let p =
        (if 0 < pmStreamCount pm \<or> pmJSONStream pm \<noteq> [] \<or> pmTextStream pm \<noteq> [] \<or> pmRawStream pm \<noteq> [] then
           (let p = p0\<lparr>plStreamCount := pmStreamCount pm\<rparr> in
            if pmJSONStream pm \<noteq> [] then prepareJSONStream parse [] (pmJSONStream pm) (pmJSON pm) [] p
            else if pmTextStream pm \<noteq> [] then prepareTextStream readStrings (Some (pmTextStream pm)) [] p
            else if pmRawStream pm \<noteq> [] then prepareRawStream (Some (pmRawStream pm)) None [] p
            else p)
         else
           (case pmJSON pm of
              Some (f # fs) \<Rightarrow> p0\<lparr>plJSON := Some (JObj (f # fs))\<rparr>
            | _ \<Rightarrow> (if pmText pm \<noteq> [] then p0\<lparr>plText := pmText pm\<rparr> else p0\<lparr>plRaw := pmRaw pm\<rparr>)))
      in case pmDelay pm of
           None \<Rightarrow> Some (p\<lparr>plDelay := None\<rparr>)
         | Some d \<Rightarrow> map_option (\<lambda>d. p\<lparr>plDelay := Some d\<rparr>) (Prepare d))"

definition payload_Count :: "payload \<Rightarrow> int" where
  "payload_Count p =
     (case plJSONStream p of
        Some a \<Rightarrow> int (length a)
      | None \<Rightarrow>
          (case plTextStream p of
             Some a \<Rightarrow> int (length a)
           | None \<Rightarrow>
               (case plRawStream p of
                  Some a \<Rightarrow> int (length a)
                | None \<Rightarrow> (if plJSON p \<noteq> None \<or> plText p \<noteq> [] \<or> plRaw p \<noteq> None then 1 else 0))))"

definition raw_text :: "(json \<Rightarrow> string) \<Rightarrow> raw_value \<Rightarrow> string" where
  "raw_text marshal r = (case r of RawStr s \<Rightarrow> s | RawBytes b \<Rightarrow> b | RawJson j \<Rightarrow> marshal j | RawOther s \<Rightarrow> s)"

definition ToText :: "(json \<Rightarrow> string) \<Rightarrow> payload \<Rightarrow> string" where
  "ToText marshal p =
     (if plText p \<noteq> [] then plText p
      else case plJSON p of
             Some j \<Rightarrow> marshal j
           | None \<Rightarrow>
               (case plRaw p of
                  Some r \<Rightarrow> raw_text marshal r
                | None \<Rightarrow>
                    join_with '', ''
                      (case plJSONStream p of
                         Some js \<Rightarrow> map marshal js
                       | None \<Rightarrow>
                           (case plTextStream p of
                              Some ts \<Rightarrow> ts
                            | None \<Rightarrow> (case plRawStream p of Some rs \<Rightarrow> map (raw_text marshal) rs | None \<Rightarrow> [])))))"

section \<open>Sending\<close>

type_synonym ('a, 's) range_func = "'a \<Rightarrow> int \<Rightarrow> bool \<Rightarrow> 's \<Rightarrow> 's \<times> bool option"

datatype 's pass_end = PassFail 's | PassDone int bool bool 's

text \<open>One pass over the stream. The elements that \<open>skip\<close> selects are counted and not handed over.\<close>

fun send_pass :: "('a \<Rightarrow> bool) \<Rightarrow> ('a, 's) range_func \<Rightarrow> int \<Rightarrow> int \<Rightarrow> 'a list \<Rightarrow> int \<Rightarrow> bool \<Rightarrow> bool \<Rightarrow> 's \<Rightarrow> 's pass_end" where
  "send_pass skip f from until [] cnt restarted cont s = PassDone cnt restarted cont s"
| "send_pass skip f from until (x # xs) cnt restarted cont s =
     (let cnt = cnt + 1 in
      if cnt < from then send_pass skip f from until xs cnt restarted cont s
      else case (if skip x then (s, Some cont) else f x cnt restarted s) of
             (s, None) \<Rightarrow> PassFail s
           | (s, Some cont) \<Rightarrow>
               (if \<not> cont \<or> until \<le> cnt then PassDone cnt False cont s
                else send_pass skip f from until xs cnt False cont s))"

partial_function (option) send_loop ::
  "('a \<Rightarrow> bool) \<Rightarrow> ('a, 's) range_func \<Rightarrow> int \<Rightarrow> int \<Rightarrow> 'a list \<Rightarrow> int \<Rightarrow> bool \<Rightarrow> bool \<Rightarrow> 's \<Rightarrow> ('s \<times> bool) option" where
  "send_loop skip f from until xs cnt restarted cont s =
     (case send_pass skip f from until xs cnt restarted cont s of
        PassFail s \<Rightarrow> Some (s, False)
      | PassDone cnt restarted cont s \<Rightarrow>
          (if \<not> cont \<or> until \<le> cnt then Some (s, True)
           else send_loop skip f from until xs cnt True cont s))"

definition stream_end :: "int \<Rightarrow> payload \<Rightarrow> int" where
  "stream_end until p = (if until \<le> 0 then plStreamCount p else until)"

text \<open>\<open>f\<close> gets the text of an element (\<open>RangeText\<close>); for \<open>RangeAny\<close>, an element that is no text is handed over as it is.\<close>

definition sendJSONStream :: "(json, 's) range_func \<Rightarrow> int \<Rightarrow> int \<Rightarrow> json list \<Rightarrow> payload \<Rightarrow> 's \<Rightarrow> ('s \<times> bool) option" where
  "sendJSONStream f from until js p s = send_loop (\<lambda>_. False) f from (stream_end until p) js 0 False True s"

definition sendTextStream :: "(string, 's) range_func \<Rightarrow> int \<Rightarrow> int \<Rightarrow> string list \<Rightarrow> payload \<Rightarrow> 's \<Rightarrow> ('s \<times> bool) option" where
  "sendTextStream f from until ts p s = send_loop (\<lambda>_. False) f from (stream_end until p) ts 0 False True s"

definition sendRawStream :: "(json \<Rightarrow> string) \<Rightarrow> (string, 's) range_func \<Rightarrow> int \<Rightarrow> int \<Rightarrow> raw_value list \<Rightarrow> payload \<Rightarrow> 's \<Rightarrow> ('s \<times> bool) option" where
  "sendRawStream marshal f from until rs p s =
     send_loop (\<lambda>r. raw_text marshal r = []) (\<lambda>r. f (raw_text marshal r)) from (stream_end until p) rs 0 False True s"

definition send_once :: "('s \<times> bool option) \<Rightarrow> ('s \<times> bool) option" where
  "send_once r = Some (fst r, snd r \<noteq> None)"

definition sendRaw :: "(json \<Rightarrow> string) \<Rightarrow> (string, 's) range_func \<Rightarrow> raw_value \<Rightarrow> 's \<Rightarrow> ('s \<times> bool) option" where
  "sendRaw marshal f r s =
     (if raw_text marshal r \<noteq> [] then send_once (f (raw_text marshal r) 1 False s) else Some (s, True))"

definition RangeTextFrom :: "(json \<Rightarrow> string) \<Rightarrow> int \<Rightarrow> int \<Rightarrow> (string, 's) range_func \<Rightarrow> payload \<Rightarrow> 's \<Rightarrow> ('s \<times> bool) option" where
  "RangeTextFrom marshal from until f p s =
     (case plJSONStream p of
        Some js \<Rightarrow> sendJSONStream (\<lambda>j. f (marshal j)) from until js p s
      | None \<Rightarrow>
          (case plTextStream p of
             Some ts \<Rightarrow> sendTextStream f from until ts p s
           | None \<Rightarrow>
               (case plRawStream p of
                  Some rs \<Rightarrow> sendRawStream marshal f from until rs p s
                | None \<Rightarrow>
                    (case plJSON p of
                       Some j \<Rightarrow> send_once (f (marshal j) 1 False s)
                     | None \<Rightarrow>
                         (if plText p \<noteq> [] then send_once (f (plText p) 1 False s)
                          else case plRaw p of Some r \<Rightarrow> sendRaw marshal f r s | None \<Rightarrow> Some (s, True))))))"

definition RangeText :: "(json \<Rightarrow> string) \<Rightarrow> int \<Rightarrow> (string, 's) range_func \<Rightarrow> payload \<Rightarrow> 's \<Rightarrow> ('s \<times> bool) option" where
  "RangeText marshal until f p s = RangeTextFrom marshal 0 until f p s"

definition RangeAnyFrom :: "(json \<Rightarrow> string) \<Rightarrow> int \<Rightarrow> int \<Rightarrow> (json + string, 's) range_func \<Rightarrow> payload \<Rightarrow> 's \<Rightarrow> ('s \<times> bool) option" where
  "RangeAnyFrom marshal from until f p s =
     (case plJSONStream p of
        Some js \<Rightarrow> sendJSONStream (\<lambda>j. f (Inl j)) from until js p s
      | None \<Rightarrow>
          (case plTextStream p of
             Some ts \<Rightarrow> sendTextStream (\<lambda>t. f (Inr t)) from until ts p s
           | None \<Rightarrow>
               (case plRawStream p of
                  Some rs \<Rightarrow> sendRawStream marshal (\<lambda>t. f (Inr t)) from until rs p s
                | None \<Rightarrow>
                    (case plJSON p of
                       Some j \<Rightarrow> send_once (f (Inl j) 1 False s)
                     | None \<Rightarrow>
                         (if plText p \<noteq> [] then send_once (f (Inr (plText p)) 1 False s)
                          else case plRaw p of Some r \<Rightarrow> sendRaw marshal (\<lambda>t. f (Inr t)) r s | None \<Rightarrow> Some (s, True))))))"

section \<open>Payloads of a given size or count\<close>

text \<open>\<open>random n\<close> is a random text of \<open>n\<close> characters.\<close>

definition FixPayload :: "(nat \<Rightarrow> string) \<Rightarrow> string \<Rightarrow> int \<Rightarrow> string option" where
  "FixPayload random payload sz =
     (if payload = [] \<and> 0 < sz then Some (random (nat sz))
      else if sz < int (length payload) then (if sz < 0 then None else Some (take (nat sz) payload))
      else Some payload)"

function fill_stream :: "'a list \<Rightarrow> int \<Rightarrow> int \<Rightarrow> 'a list \<Rightarrow> 'a list" where
  "fill_stream arr cnt i out =
     (if arr = [] \<or> cnt \<le> i then out
      else fill_stream arr cnt (i + min (int (length arr)) (cnt - i)) (out @ take (nat (cnt - i)) arr))"
  by pat_completeness auto
termination
  by (relation "measure (\<lambda>(arr, cnt, i, out). nat (cnt - i))") (auto simp: min_def)

declare fill_stream.simps [simp del]

text \<open>\<open>StreamPayload\<close> and \<open>StreamCount\<close> of a response payload; \<open>None\<close>: the stream stays as it is.\<close>

definition PrepareJSONStreamPayload :: "(string \<Rightarrow> json option) \<Rightarrow> (json \<Rightarrow> string) \<Rightarrow> string \<Rightarrow> int \<Rightarrow> string list option" where
  "PrepareJSONStreamPayload parse marshal payload cnt =
     (case parse payload of
        None \<Rightarrow> None
      | Some j \<Rightarrow>
          (if is_container j then Some (fill_stream (map marshal (ToJSONArray j)) cnt 0 []) else None))"

section \<open>When a stream ends and what it sends\<close>

lemma send_pass_count:
  "send_pass skip f from until xs c r k s = PassDone c' r' k' s' \<Longrightarrow> c' = c + int (length xs) \<or> \<not> k' \<or> until \<le> c'"
  by (induction xs arbitrary: c r k s) (fastforce simp: Let_def split: if_splits prod.splits option.splits)+

lemma send_loop_returns:
  assumes "xs \<noteq> []"
  shows "\<exists>r. send_loop skip f from until xs c b k s = Some r"
proof (induction "nat (until - c)" arbitrary: c b k s rule: less_induct)
  case less
  show ?case
  proof (cases "send_pass skip f from until xs c b k s")
    case (PassFail s')
    then have "send_loop skip f from until xs c b k s = Some (s', False)" by (subst send_loop.simps) simp
    then show ?thesis ..
  next
    case (PassDone c' b' k' s')
    show ?thesis
    proof (cases "\<not> k' \<or> until \<le> c'")
      case True
      with PassDone have "send_loop skip f from until xs c b k s = Some (s', True)" by (subst send_loop.simps) auto
      then show ?thesis ..
    next
      case False
      with send_pass_count [OF PassDone] have "c' = c + int (length xs)" by auto
      then have "c < c'" using assms by simp
      with False have "nat (until - c') < nat (until - c)" by auto
      from less [OF this, of True k' s'] PassDone False show ?thesis by (subst send_loop.simps) simp
    qed
  qed
qed

lemma send_loop_empty:
  assumes "send_loop skip f from until xs c b k s = Some r"
  shows "xs = [] \<longrightarrow> k \<longrightarrow> until \<le> c"
  by (rule send_loop.raw_induct [of "\<lambda>skip f start until xs c b k s r. xs = [] \<longrightarrow> k \<longrightarrow> until \<le> c", OF _ assms])
    (force split: if_splits pass_end.splits)

lemma send_loop_empty_diverges: "c < until \<Longrightarrow> send_loop skip f from until [] c b True s = None"
  using send_loop_empty [of skip f "from" until "[]" c b True s] by (cases "send_loop skip f from until [] c b True s") auto

text \<open>C29: A stream that is sent as a text stream ends for every receiver exactly if it has an element or nothing is to be sent. A
  stream without elements and with a positive count is never finished, even if the receiver would stop.\<close>

theorem text_stream_ends_iff:
  assumes "plJSONStream p = None" and "plTextStream p = Some ts"
  shows "(\<exists>r. RangeTextFrom marshal from until f p s = Some r) \<longleftrightarrow> ts \<noteq> [] \<or> stream_end until p \<le> 0"
proof (cases "ts = []")
  case True
  have r: "RangeTextFrom marshal from until f p s = send_loop (\<lambda>_. False) f from (stream_end until p) [] 0 False True s"
    using assms True by (simp add: RangeTextFrom_def sendTextStream_def)
  show ?thesis
  proof (cases "0 < stream_end until p")
    case True
    then show ?thesis using \<open>ts = []\<close> by (simp add: r send_loop_empty_diverges)
  next
    case False
    then have "send_loop (\<lambda>_. False) f from (stream_end until p) [] 0 False True s = Some (s, True)" by (subst send_loop.simps) simp
    with False show ?thesis unfolding r by (metis not_less)
  qed
next
  case False
  then show ?thesis using assms send_loop_returns [OF False] by (simp add: RangeTextFrom_def sendTextStream_def)
qed

theorem text_stream_ends_iff_witness:
  "\<not> (\<exists>r. RangeTextFrom Sprint 0 0 (\<lambda>t n b s. (s, Some False)) (NewStreamTextPayload (\<lambda>_. Some []) None ''[]'' 3 0 0 0) () = Some r)"
proof -
  let ?p = "NewStreamTextPayload (\<lambda>_. Some []) None ''[]'' 3 0 0 0"
  have 1: "plJSONStream ?p = None" "plTextStream ?p = Some []" "stream_end 0 ?p = 3"
    by (simp_all add: NewStreamTextPayload_def prepareTextStream_def ReadStringArray_def stream_count_def new_stream_def empty_payload_def
      stream_end_def)
  show ?thesis unfolding text_stream_ends_iff [OF 1(1,2)] 1(3) by simp
qed

text \<open>The receiver that writes down what it is handed.\<close>

definition record_all :: "('a, ('a \<times> int \<times> bool) list) range_func" where
  "record_all x n b s = (s @ [(x, n, b)], Some True)"

definition sent :: "'a list \<Rightarrow> int \<Rightarrow> 'a \<times> int \<times> bool" where
  "sent xs n = (xs ! (nat (n - 1) mod length xs), n, 1 < n \<and> (n - 1) mod int (length xs) = 0)"

lemma send_pass_record:
  assumes "from \<le> c + 1" and "c < until"
  shows "send_pass (\<lambda>_. False) record_all from until xs c b True s =
    (let ys = take (nat (until - c)) xs
     in PassDone (c + int (length ys)) (b \<and> xs = []) True
          (s @ map (\<lambda>i. (ys ! i, c + 1 + int i, b \<and> i = 0)) [0..<length ys]))"
  using assms
proof (induction xs arbitrary: c b s)
  case (Cons x xs)
  obtain m where m: "nat (until - c) = Suc m" using Cons.prems(2) by (cases "nat (until - c)") auto
  define zs where "zs = take m xs"
  have idx: "map (\<lambda>i. ((x # zs) ! i, c + 1 + int i, b \<and> i = 0)) [0..<Suc (length zs)] =
      (x, c + 1, b) # map (\<lambda>i. (zs ! i, c + 1 + 1 + int i, False)) [0..<length zs]"
    unfolding upt_conv_Cons [OF zero_less_Suc] map_Suc_upt [symmetric] by (simp add: comp_def algebra_simps)
  have ys: "take (nat (until - c)) (x # xs) = x # zs" by (simp add: m zs_def)
  show ?case
  proof (cases "until \<le> c + 1")
    case True
    then have "m = 0" using m by auto
    then have "zs = []" by (simp add: zs_def)
    with True Cons.prems(1) show ?thesis unfolding ys by (simp add: record_all_def Let_def)
  next
    case False
    have "nat (until - (c + 1)) = m" using m by auto
    then have ih: "send_pass (\<lambda>_. False) record_all from until xs (c + 1) False True (s @ [(x, c + 1, b)]) =
        PassDone (c + 1 + int (length zs)) False True ((s @ [(x, c + 1, b)]) @ map (\<lambda>i. (zs ! i, c + 1 + 1 + int i, False)) [0..<length zs])"
      using Cons.IH [of "c + 1" False "s @ [(x, c + 1, b)]"] False Cons.prems(1) by (simp add: zs_def [symmetric] Let_def)
    have "send_pass (\<lambda>_. False) record_all from until (x # xs) c b True s =
        send_pass (\<lambda>_. False) record_all from until xs (c + 1) False True (s @ [(x, c + 1, b)])"
      using False Cons.prems(1) by (simp add: record_all_def Let_def)
    also have "\<dots> = PassDone (c + int (length (x # zs))) (b \<and> x # xs = []) True
        (s @ map (\<lambda>i. ((x # zs) ! i, c + 1 + int i, b \<and> i = 0)) [0..<length (x # zs)])"
      unfolding ih list.size(4) add_0_right add_Suc_right idx by simp
    finally show ?thesis unfolding ys Let_def .
  qed
qed simp

lemma upto_map: "map (\<lambda>i. c + 1 + int i) [0..<m] = [c + 1..c + int m]"
  by (induction m) (simp_all add: upto_rec2 algebra_simps)

lemma upto_map_0: "map (\<lambda>j. i + int j) [0..<m] = [i..i + int m - 1]"
  using upto_map [of "i - 1" m] by (simp add: algebra_simps)

lemma cyclic_index:
  assumes "int n dvd c" and "0 \<le> c" and "i < n"
  shows "nat (c + int i) mod n = i \<and> (c + int i) mod int n = int i"
proof -
  from assms(1) obtain k where k: "c = int n * k" ..
  with assms(2,3) have "0 \<le> k" by (simp add: zero_le_mult_iff)
  then have "nat (c + int i) = n * nat k + i" by (simp add: k nat_add_distrib nat_mult_distrib)
  with assms(3) show ?thesis by (simp add: k)
qed

lemma sent_index:
  assumes "int (length xs) dvd c" and "0 \<le> c" and "i < length xs"
  shows "sent xs (c + 1 + int i) = (xs ! i, c + 1 + int i, 0 < c \<and> i = 0)"
proof -
  have "c + 1 + int i - 1 = c + int i" by simp
  then show ?thesis using cyclic_index [OF assms] assms(2) by (auto simp: sent_def)
qed

lemma send_loop_record:
  assumes "xs \<noteq> []" and "from \<le> 1" and "0 \<le> c" and "int (length xs) dvd c" and "c < until"
  shows "send_loop (\<lambda>_. False) record_all from until xs c (0 < c) True s = Some (s @ map (sent xs) [c + 1..until], True)"
  using assms(3-5)
proof (induction "nat (until - c)" arbitrary: c s rule: less_induct)
  case less
  let ?m = "nat (until - c)"
  let ?n = "length (take ?m xs)"
  have "map (\<lambda>i. (take ?m xs ! i, c + 1 + int i, 0 < c \<and> i = 0)) [0..<?n] = map (\<lambda>i. sent xs (c + 1 + int i)) [0..<?n]"
    by (rule map_cong) (simp_all add: sent_index [OF less.prems(2,1)])
  also have "\<dots> = map (sent xs) [c + 1..c + int ?n]" unfolding upto_map [symmetric] map_map comp_def ..
  finally have pass: "send_pass (\<lambda>_. False) record_all from until xs c (0 < c) True s =
      PassDone (c + int ?n) False True (s @ map (sent xs) [c + 1..c + int ?n])"
    using send_pass_record [of "from" c until xs "0 < c" s] assms(1,2) less.prems by (simp add: Let_def)
  show ?case
  proof (cases "until \<le> c + int (length xs)")
    case True
    then have "c + int ?n = until" using less.prems by simp
    then show ?thesis by (subst send_loop.simps) (simp only: pass, simp)
  next
    case False
    then have n: "?n = length xs" by simp
    have "0 < int (length xs)" using assms(1) by simp
    then have "send_loop (\<lambda>_. False) record_all from until xs (c + int (length xs)) (0 < c + int (length xs)) True
        (s @ map (sent xs) [c + 1..c + int (length xs)]) =
      Some ((s @ map (sent xs) [c + 1..c + int (length xs)]) @ map (sent xs) [c + int (length xs) + 1..until], True)"
      using False less.prems by (intro less.hyps) auto
    moreover have "c + 1 \<le> c + int (length xs)" "c + int (length xs) \<le> until" using False \<open>0 < int (length xs)\<close> by linarith+
    then have "[c + 1..until] = [c + 1..c + int (length xs)] @ [c + int (length xs) + 1..until]" by (rule upto_split2)
    moreover have "0 < c + int (length xs)" using \<open>0 < int (length xs)\<close> less.prems by linarith
    ultimately show ?thesis using False by (subst send_loop.simps) (simp add: pass n del: length_take)
  qed
qed

text \<open>A receiver that always goes on is handed exactly the asked number of elements, in the order of the stream, which is
  started again as often as needed; each call carries its number, and the first call after a restart says so.\<close>

theorem text_stream_sends:
  assumes "plJSONStream p = None" and "plTextStream p = Some ts" and "ts \<noteq> []" and "0 < stream_end until p"
  shows "RangeText marshal until record_all p [] = Some (map (sent ts) [1..stream_end until p], True)"
  using assms send_loop_record [of ts 0 0 "stream_end until p" "[]"] by (simp add: RangeText_def RangeTextFrom_def sendTextStream_def)

theorem text_stream_sends_witness:
  "RangeText Sprint 3 record_all (NewStreamTextPayload (\<lambda>_. None) (Some [''a'', ''b'']) [] 0 0 0 0) [] =
     Some ([(''a'', 1, False), (''b'', 2, False), (''a'', 3, True)], True)"
proof -
  let ?p = "NewStreamTextPayload (\<lambda>_. None) (Some [''a'', ''b'']) [] 0 0 0 0"
  have 1: "plJSONStream ?p = None" "plTextStream ?p = Some [''a'', ''b'']" "stream_end 3 ?p = 3" by code_simp+
  have 2: "map (sent [''a'', ''b'']) [1..3] = [(''a'', 1, False), (''b'', 2, False), (''a'', 3, True)]" by code_simp
  show ?thesis using text_stream_sends [OF 1(1,2), of 3 Sprint] unfolding 1(3) 2 by simp
qed

section \<open>Prepared streams\<close>

lemma fill_stream_spec:
  assumes "arr \<noteq> []" and "0 \<le> i" and "int (length arr) dvd i"
  shows "fill_stream arr cnt i out = out @ map (\<lambda>k. arr ! (nat k mod length arr)) [i..cnt - 1]"
  using assms(2,3)
proof (induction "nat (cnt - i)" arbitrary: i out rule: less_induct)
  case less
  let ?f = "\<lambda>k. arr ! (nat k mod length arr)"
  show ?case
  proof (cases "cnt \<le> i")
    case True
    then show ?thesis by (simp add: fill_stream.simps)
  next
    case False
    let ?ys = "take (nat (cnt - i)) arr"
    have "?ys = map (\<lambda>j. ?f (i + int j)) [0..<length ?ys]"
      by (rule nth_equalityI) (simp_all add: cyclic_index [OF less.prems(2,1)])
    also have "\<dots> = map ?f (map (\<lambda>j. i + int j) [0..<length ?ys])" by simp
    finally have ys: "?ys = map ?f [i..i + int (length ?ys) - 1]" unfolding upto_map_0 .
    have len: "int (length ?ys) = min (int (length arr)) (cnt - i)" using False by auto
    have "fill_stream arr cnt i out = fill_stream arr cnt (i + int (length ?ys)) (out @ ?ys)"
      unfolding len using False assms(1) by (subst fill_stream.simps) simp
    also have "\<dots> = out @ map ?f [i..cnt - 1]"
    proof (cases "cnt \<le> i + int (length arr)")
      case True
      then have c: "i + int (length ?ys) = cnt" using False len by simp
      show ?thesis unfolding c using ys c by (simp add: fill_stream.simps)
    next
      case False
      then have c: "i + int (length ?ys) = i + int (length arr)" using len by simp
      have "0 < int (length arr)" using assms(1) by simp
      then have "fill_stream arr cnt (i + int (length arr)) (out @ ?ys) = (out @ ?ys) @ map ?f [i + int (length arr)..cnt - 1]"
        using False less.prems by (intro less.hyps) auto
      moreover have "i \<le> i + int (length arr)" "i + int (length arr) \<le> cnt - 1" using False by linarith+
      then have "[i..cnt - 1] = [i..i + int (length arr) - 1] @ [i + int (length arr)..cnt - 1]" by (rule upto_split1)
      ultimately show ?thesis using ys unfolding c by simp
    qed
    finally show ?thesis .
  qed
qed

text \<open>A stream that is prepared from a JSON array has exactly the asked number of elements, the elements of the array in their
  order, repeated; an element that is no object or array is written as the empty JSON value.\<close>

theorem prepared_stream:
  assumes "parse txt = Some (JArr a)" and "a \<noteq> []"
  shows "PrepareJSONStreamPayload parse marshal txt cnt =
    Some (map (\<lambda>k. let v = a ! (nat k mod length a) in if is_container v then marshal v else marshal JNull) [0..cnt - 1])"
  using assms fill_stream_spec [of "map marshal (map ToJSONValue a)" 0 cnt "[]"]
  by (simp add: PrepareJSONStreamPayload_def ToJSONArray_def JSONArray_def ToJSONValue_def Let_def if_distrib [of marshal])

theorem prepared_stream_witness:
  "PrepareJSONStreamPayload (\<lambda>_. Some (JArr [JNum ''1'', JObj []])) Sprint ''[1,{}]'' 3 = Some [''<nil>'', ''map[]'', ''<nil>'']"
proof -
  have "map (\<lambda>k. let v = [JNum ''1'', JObj []] ! (nat k mod length [JNum ''1'', JObj []]) in if is_container v then Sprint v else Sprint JNull)
      [0..3 - 1] = [''<nil>'', ''map[]'', ''<nil>'']" by code_simp
  then show ?thesis using prepared_stream [of "\<lambda>_. Some (JArr [JNum ''1'', JObj []])" "''[1,{}]''" _ Sprint 3] by simp
qed

text \<open>A payload that is given a count and a single text loses the text.\<close>

lemma counted_text_lost:
  assumes "0 < pmStreamCount pm" and "pmJSONStream pm = []" and "pmTextStream pm = []" and "pmRawStream pm = []" and "pmDelay pm = None"
  shows "\<exists>p. Unmarshal_payload parse readStrings pm empty_payload = Some p \<and> payload_Count p = 0"
  using assms by (simp add: Unmarshal_payload_def payload_Count_def empty_payload_def)

lemma FixPayload_length:
  "0 < sz \<Longrightarrow> (\<And>n. length (random n) = n) \<Longrightarrow> \<exists>p. FixPayload random payload sz = Some p \<and> int (length p) \<le> sz"
  by (auto simp: FixPayload_def)

end
