(* ===== verification/Payload_Tables.thy ===== *)
theory Payload_Tables
  imports Payload_Stream Util_Headers
begin

text \<open>
  Response payloads: the tables of \<open>pkg/server/response/payload/protoPayload.go\<close> and \<open>payload.go\<close>. A payload is configured for a
  URI, a header, a query parameter, a URI with a header, query parameter or body, for a list of matches, or as the default.
  \<open>payload_env\<close> holds the code that is called outside the repository: \<open>peMatcher\<close> is the expression that the router
  builds for a URI (\<open>None\<close>: an error), \<open>peCompile\<close> is \<open>regexp.MustCompile\<close> (\<open>None\<close>: it panics), \<open>peFind\<close> finds
  JSON paths in a document and \<open>peParse\<close>, \<open>peMarshal\<close> read and write JSON. A payload keeps the text of its
  expressions; they are functions of that text. A panic is \<open>None\<close>, an error is \<open>Inl\<close>.
\<close>

record payload_env =
  peMatcher :: "string \<Rightarrow> (string \<Rightarrow> bool) option"
  peCompile :: "string \<Rightarrow> (string \<Rightarrow> bool) option"
  peParse :: "string \<Rightarrow> json option"
  peMarshal :: "json \<Rightarrow> string"
  peFind :: "(string, string) gomap \<Rightarrow> json \<Rightarrow> (string, string) gomap \<times> bool"

section \<open>Payloads\<close>

record request_match =
  mURIPrefix :: string
  mHeaders :: "(string, string) gomap"
  mQueries :: "(string, string) gomap"
  mURICaptureKeys :: "string list"
  headerValueMatches :: "(string, string) gomap"
  queryValueMatches :: "(string, string) gomap"

record request_capture =
  rcHeaders :: "(string, string) gomap"
  rcQueries :: "(string, string) gomap"
  headerCaptureKeys :: "(string, string \<times> string list) gomap"
  queryCaptureKeys :: "(string, string \<times> string list) gomap"

record part_process =
  SplitWith :: string
  JoinWith :: string
  Base64Encode :: "bool list"
  Base64Decode :: "bool list"
  Keep :: "bool list"

record response_payload =
  rpPayload :: "string option"
  rpStreamPayload :: "string list"
  rpContentType :: string
  rpIsStream :: bool
  rpIsBinary :: bool
  rpIsJSON :: bool
  rpURIMatch :: string
  rpHeaderMatch :: string
  rpHeaderValueMatch :: string
  rpRequestMatches :: "request_match list"
  rpRequestCapture :: "request_capture option"
  rpQueryMatch :: string
  rpQueryValueMatch :: string
  rpBodyMatch :: "string list"
  rpBodyPaths :: "(string, string) gomap"
  rpURICaptureKeys :: "string list"
  rpHeaderCaptureKey :: string
  rpQueryCaptureKey :: string
  rpTransforms :: "transform list"
  rpDelay :: "delay option"
  rpStreamCount :: int
  rpBase64Encode :: bool
  rpBase64Decode :: bool
  rpDetectJSON :: bool
  rpEscapeJSON :: bool
  rpReplace :: "(string, string) gomap"
  rpPre :: "part_process option"
  rpPost :: "part_process option"
  rpFillers :: "string list"

definition IsBinaryContentType :: "string \<Rightarrow> bool" where
  "IsBinaryContentType contentType \<longleftrightarrow> \<not> list_ex (Contains contentType) [''text'', ''html'', ''json'', ''yaml'', ''form'']"

definition IsBinaryContentHeader :: "header_map \<Rightarrow> bool" where
  "IsBinaryContentHeader h \<longleftrightarrow> (let ct = header_Get h ''Content-Type'' in ct \<noteq> [] \<and> IsBinaryContentType ct)"

text \<open>\<open>JSONPath.Parse\<close>: a path without a name is named by a counter.\<close>

fun parse_paths :: "int \<Rightarrow> string list \<Rightarrow> (string, string) gomap \<Rightarrow> (string, string) gomap" where
  "parse_paths n [] m = m"
| "parse_paths n (p # ps) m =
     (case split_on CHR ''='' p of
        [k, v] \<Rightarrow> parse_paths n ps (mput k v m)
      | pieces \<Rightarrow> parse_paths (n + 1) ps (mput (Itoa (n + 1)) (pieces ! 0) m))"

definition JSONPath_Parse :: "string list \<Rightarrow> (string, string) gomap" where
  "JSONPath_Parse paths = (case paths of [] \<Rightarrow> [] | p # ps \<Rightarrow> (if p = [] then [] else parse_paths 0 paths []))"

definition body_pattern :: "string list \<Rightarrow> string" where
  "body_pattern regexes = ''(?i)'' @ join_with ''.*'' regexes @ ''.*''"

datatype payload_error = BadURI string | MatchesRequired | PayloadRequired | URIRequired | MissingPayload

fun init_mappings :: "(string \<Rightarrow> bool) \<Rightarrow> json_transform list \<Rightarrow> json_transform list option" where
  "init_mappings compiles [] = Some []"
| "init_mappings compiles (t # ts) =
     (case JSONTransform_Init compiles t of
        None \<Rightarrow> None
      | Some t' \<Rightarrow> map_option (\<lambda>ts'. t' # ts') (init_mappings compiles ts))"

fun init_transforms :: "(string \<Rightarrow> bool) \<Rightarrow> transform list \<Rightarrow> transform list option" where
  "init_transforms compiles [] = Some []"
| "init_transforms compiles (t # ts) =
     (case init_mappings compiles (trMappings t) of
        None \<Rightarrow> None
      | Some ms \<Rightarrow> map_option (\<lambda>ts'. t\<lparr>trMappings := ms\<rparr> # ts') (init_transforms compiles ts))"

definition newResponsePayload ::
  "payload_env \<Rightarrow> string \<Rightarrow> bool \<Rightarrow> bool \<Rightarrow> string \<Rightarrow> string \<Rightarrow> string \<Rightarrow> string \<Rightarrow> string \<Rightarrow> string list \<Rightarrow> string list \<Rightarrow> transform list \<Rightarrow>
   int \<Rightarrow> int \<Rightarrow> (payload_error + response_payload) option" where
  "newResponsePayload env payload stream binary contentType uri header query value bodyRegexes paths transforms delayMin delayMax =
     (let contentType = (if contentType = [] then ''application/json'' else contentType);
          compiles = (\<lambda>p. peCompile env p \<noteq> None)
      in if peMatcher env uri = None then Some (Inl (BadURI uri))
         else if bodyRegexes \<noteq> [] \<and> \<not> compiles (body_pattern bodyRegexes) then None
         else case init_transforms compiles transforms of
                None \<Rightarrow> None
              | Some ts \<Rightarrow>
                  (if \<not> compiles (''(?i)'' @ query) then None
                   else Some (Inr
                     \<lparr>rpPayload = Some payload, rpStreamPayload = [], rpContentType = contentType, rpIsStream = stream,
                      rpIsBinary = IsBinaryContentType contentType, rpIsJSON = False, rpURIMatch = uri, rpHeaderMatch = header,
                      rpHeaderValueMatch = (if \<not> IsFiller value \<and> header \<noteq> [] then value else []), rpRequestMatches = [],
                      rpRequestCapture = None, rpQueryMatch = query,
                      rpQueryValueMatch = (if \<not> IsFiller value \<and> header = [] \<and> query \<noteq> [] then value else []),
                      rpBodyMatch = bodyRegexes, rpBodyPaths = JSONPath_Parse paths, rpURICaptureKeys = GetFillersUnmarked uri,
                      rpHeaderCaptureKey = (if IsFiller value \<and> header \<noteq> [] then value else []),
                      rpQueryCaptureKey = (if IsFiller value \<and> header = [] \<and> query \<noteq> [] then value else []),
                      rpTransforms = ts, rpDelay = NewDelay delayMin delayMax (- 1), rpStreamCount = 0, rpBase64Encode = False,
                      rpBase64Decode = False, rpDetectJSON = False, rpEscapeJSON = False, rpReplace = [], rpPre = None, rpPost = None,
                      rpFillers = (if binary then [] else GetFillersUnmarked payload)\<rparr>)))"

text \<open>\<open>util.ReplaceFillersWithCaptureGroupRegex\<close>: the fillers and the pattern, which must compile.\<close>

definition capture_pattern :: "string \<Rightarrow> string \<times> string list" where
  "capture_pattern txt = (fold (\<lambda>f txt. ReplaceAll txt f ''(.+)'') (GetFillers txt) txt, GetFillers txt)"

fun add_captures :: "(string \<Rightarrow> bool) \<Rightarrow> (string, string) gomap \<Rightarrow> (string, string \<times> string list) gomap \<Rightarrow> (string, string \<times> string list) gomap option" where
  "add_captures compiles [] m = Some m"
| "add_captures compiles ((k, v) # kvs) m =
     (let c = capture_pattern v in if compiles (fst c) then add_captures compiles kvs (mput k c m) else None)"

text \<open>The headers or the query parameters of a match: a filler is captured, other values are matched.\<close>

fun rp_match_values :: "(string \<Rightarrow> bool) \<Rightarrow> (string, string) gomap \<Rightarrow> (string, string \<times> string list) gomap \<times> (string, string) gomap \<Rightarrow>
    ((string, string \<times> string list) gomap \<times> (string, string) gomap) option" where
  "rp_match_values compiles [] s = Some s"
| "rp_match_values compiles ((k, v) # kvs) (caps, vals) =
     (let h = ToLower k in
      if k = [] then rp_match_values compiles kvs (caps, vals)
      else if IsFiller v then
        (if mget caps h = None then
           (let c = capture_pattern v in if compiles (fst c) then rp_match_values compiles kvs (mput h c caps, vals) else None)
         else rp_match_values compiles kvs (caps, vals))
      else rp_match_values compiles kvs (caps, if v \<noteq> ''{}'' then mput h v vals else vals))"

fun process_matches :: "payload_env \<Rightarrow> request_match list \<Rightarrow> request_capture \<Rightarrow> (payload_error + request_match list \<times> request_capture) option" where
  "process_matches env [] rc = Some (Inr ([], rc))"
| "process_matches env (m # ms) rc =
     (let uri = ToLower (mURIPrefix m); compiles = (\<lambda>p. peCompile env p \<noteq> None) in
      if mURIPrefix m = [] then Some (Inl URIRequired)
      else if peMatcher env uri = None then Some (Inl (BadURI uri))
      else
        (case rp_match_values compiles (mHeaders m) (headerCaptureKeys rc, headerValueMatches m) of
           None \<Rightarrow> None
         | Some (hc, hv) \<Rightarrow>
             (case rp_match_values compiles (mQueries m) (queryCaptureKeys rc, queryValueMatches m) of
                None \<Rightarrow> None
              | Some (qc, qv) \<Rightarrow>
                  (case process_matches env ms (rc\<lparr>headerCaptureKeys := hc, queryCaptureKeys := qc\<rparr>) of
                     None \<Rightarrow> None
                   | Some (Inl e) \<Rightarrow> Some (Inl e)
                   | Some (Inr (ms', rc')) \<Rightarrow>
                       Some (Inr (m\<lparr>mURIPrefix := uri, mURICaptureKeys := GetFillersUnmarked uri, headerValueMatches := hv,
                                    queryValueMatches := qv\<rparr> # ms', rc'))))))"

definition Process :: "payload_env \<Rightarrow> response_payload \<Rightarrow> (payload_error + response_payload) option" where
  "Process env rp =
     (let compiles = (\<lambda>p. peCompile env p \<noteq> None); len0 = (rpPayload rp = None \<or> rpPayload rp = Some []) in
      if rpRequestMatches rp = [] then Some (Inl MatchesRequired)
      else if len0 \<and> rpStreamPayload rp = [] then Some (Inl PayloadRequired)
      else
        (let ct = (if rpContentType rp = [] then ''application/json'' else rpContentType rp);
             rc0 = (case rpRequestCapture rp of
                      None \<Rightarrow> \<lparr>rcHeaders = [], rcQueries = [], headerCaptureKeys = [], queryCaptureKeys = []\<rparr> | Some rc \<Rightarrow> rc)
         in case add_captures compiles (rcHeaders rc0) (headerCaptureKeys rc0) of
              None \<Rightarrow> None
            | Some hc \<Rightarrow>
                (case add_captures compiles (rcQueries rc0) (queryCaptureKeys rc0) of
                   None \<Rightarrow> None
                 | Some qc \<Rightarrow>
                     (case process_matches env (rpRequestMatches rp) (rc0\<lparr>headerCaptureKeys := hc, queryCaptureKeys := qc\<rparr>) of
                        None \<Rightarrow> None
                      | Some (Inl e) \<Rightarrow> Some (Inl e)
                      | Some (Inr (ms, rc)) \<Rightarrow>
                          (let payload = map_option CleanJSONBytes (rpPayload rp) in
                           if rpBodyMatch rp \<noteq> [] \<and> \<not> compiles (body_pattern (rpBodyMatch rp)) then None
                           else Some (Inr (rp\<lparr>rpContentType := ct, rpIsBinary := IsBinaryContentType ct,
                              rpIsStream := len0 \<and> rpStreamPayload rp \<noteq> [], rpIsJSON := EqualFold ct ''application/json'',
                              rpPayload := payload,
                              rpStreamPayload := (if rpPayload rp = None then map CleanJSONBytes (rpStreamPayload rp) else rpStreamPayload rp),
                              rpRequestCapture := Some rc, rpRequestMatches := ms,
                              rpFillers := GetFillersUnmarked (case payload of None \<Rightarrow> [] | Some p \<Rightarrow> p)\<rparr>)))))))"

definition prepare_stream :: "payload_env \<Rightarrow> int \<Rightarrow> response_payload \<Rightarrow> response_payload" where
  "prepare_stream env n rp =
     (case PrepareJSONStreamPayload (peParse env) (peMarshal env) (case rpPayload rp of None \<Rightarrow> [] | Some p \<Rightarrow> p) n of
        None \<Rightarrow> rp\<lparr>rpStreamCount := n\<rparr>
      | Some st \<Rightarrow> rp\<lparr>rpStreamCount := n, rpStreamPayload := st\<rparr>)"

section \<open>Tables\<close>

type_synonym by_key = "(string, response_payload) gomap"
type_synonym by_key2 = "(string, by_key) gomap"
type_synonym by_key3 = "(string, by_key2) gomap"

record proto_payloads =
  DefaultPayload :: "response_payload option"
  PayloadByURIWithMatches :: "(string, response_payload list) gomap"
  PayloadByURIs :: by_key
  PayloadByHeaders :: by_key2
  PayloadByURIAndHeaders :: by_key3
  PayloadByQuery :: by_key2
  PayloadByURIAndQuery :: by_key3
  PayloadByURIAndBody :: by_key2
  allURIResponsePayloads :: by_key

definition pp_init :: proto_payloads where
  "pp_init = \<lparr>DefaultPayload = None, PayloadByURIWithMatches = [], PayloadByURIs = [], PayloadByHeaders = [], PayloadByURIAndHeaders = [],
     PayloadByQuery = [], PayloadByURIAndQuery = [], PayloadByURIAndBody = [], allURIResponsePayloads = []\<rparr>"

definition pp_setDefaultResponsePayload :: "response_payload \<Rightarrow> proto_payloads \<Rightarrow> proto_payloads" where
  "pp_setDefaultResponsePayload rp pp = pp\<lparr>DefaultPayload := Some rp\<rparr>"

definition pp_setURIResponsePayload :: "string \<Rightarrow> response_payload \<Rightarrow> proto_payloads \<Rightarrow> proto_payloads" where
  "pp_setURIResponsePayload uri rp pp =
     pp\<lparr>PayloadByURIs := mput uri rp (PayloadByURIs pp), allURIResponsePayloads := mput uri rp (allURIResponsePayloads pp)\<rparr>"

definition setURIResponsePayloadWithMatches :: "string \<Rightarrow> response_payload \<Rightarrow> proto_payloads \<Rightarrow> proto_payloads" where
  "setURIResponsePayloadWithMatches uri rp pp =
     pp\<lparr>PayloadByURIWithMatches := mput uri (mget_or [] (PayloadByURIWithMatches pp) uri @ [rp]) (PayloadByURIWithMatches pp)\<rparr>"

definition unsafeRemoveUntrackedURI :: "string \<Rightarrow> proto_payloads \<Rightarrow> proto_payloads" where
  "unsafeRemoveUntrackedURI uri pp =
     (if mget (PayloadByURIs pp) uri \<noteq> None \<or> mget (PayloadByURIAndHeaders pp) uri \<noteq> None \<or>
         mget (PayloadByURIAndQuery pp) uri \<noteq> None \<or> mget (PayloadByURIAndBody pp) uri \<noteq> None then pp
      else pp\<lparr>allURIResponsePayloads := mdel uri (allURIResponsePayloads pp)\<rparr>)"

definition removeURIResponsePayload :: "string \<Rightarrow> proto_payloads \<Rightarrow> proto_payloads" where
  "removeURIResponsePayload uri pp =
     unsafeRemoveUntrackedURI uri
       (pp\<lparr>PayloadByURIs := mdel uri (PayloadByURIs pp), PayloadByURIWithMatches := mdel uri (PayloadByURIWithMatches pp)\<rparr>)"

definition put2 :: "string \<Rightarrow> string \<Rightarrow> 'v \<Rightarrow> (string, (string, 'v) gomap) gomap \<Rightarrow> (string, (string, 'v) gomap) gomap" where
  "put2 k1 k2 v m = mput k1 (mput k2 v (mget_or [] m k1)) m"

text \<open>A key is deleted with its last entry.\<close>

definition prune :: "string \<Rightarrow> (string, ('k, 'v) gomap) gomap \<Rightarrow> (string, ('k, 'v) gomap) gomap" where
  "prune k m = (if mget_or [] m k = [] then mdel k m else m)"

definition del2 :: "string \<Rightarrow> string \<Rightarrow> (string, (string, 'v) gomap) gomap \<Rightarrow> (string, (string, 'v) gomap) gomap" where
  "del2 k1 k2 m = prune k1 (case mget m k1 of None \<Rightarrow> m | Some inner \<Rightarrow> mput k1 (mdel k2 inner) m)"

definition pp_setHeaderResponsePayload :: "string \<Rightarrow> response_payload \<Rightarrow> proto_payloads \<Rightarrow> proto_payloads" where
  "pp_setHeaderResponsePayload header rp pp = pp\<lparr>PayloadByHeaders := put2 header (rpHeaderValueMatch rp) rp (PayloadByHeaders pp)\<rparr>"

definition removeHeaderResponsePayload :: "string \<Rightarrow> string \<Rightarrow> proto_payloads \<Rightarrow> proto_payloads" where
  "removeHeaderResponsePayload header value pp =
     pp\<lparr>PayloadByHeaders := del2 header (if IsFiller value then [] else value) (PayloadByHeaders pp)\<rparr>"

definition setURIWithHeaderResponsePayload :: "string \<Rightarrow> string \<Rightarrow> response_payload \<Rightarrow> proto_payloads \<Rightarrow> proto_payloads" where
  "setURIWithHeaderResponsePayload uri header rp pp =
     pp\<lparr>PayloadByURIAndHeaders :=
          mput uri (put2 header (rpHeaderValueMatch rp) rp (mget_or [] (PayloadByURIAndHeaders pp) uri)) (PayloadByURIAndHeaders pp),
        allURIResponsePayloads := mput uri rp (allURIResponsePayloads pp)\<rparr>"

text \<open>Removing from a table by URI: whether the URI has no entry left.\<close>

definition del3 :: "string \<Rightarrow> string \<Rightarrow> string \<Rightarrow> by_key3 \<Rightarrow> by_key3 \<times> bool" where
  "del3 uri k v m =
     (case mget m uri of
        None \<Rightarrow> (m, False)
      | Some inner \<Rightarrow>
          (let inner' = (if mget inner k = None then inner else del2 k (if snd (GetFillerUnmarked v) then [] else v) inner)
           in if inner' = [] then (mdel uri m, True) else (mput uri inner' m, False)))"

definition removeURIWithHeaderResponsePayload :: "string \<Rightarrow> string \<Rightarrow> string \<Rightarrow> proto_payloads \<Rightarrow> proto_payloads" where
  "removeURIWithHeaderResponsePayload uri header value pp =
     (case del3 uri header value (PayloadByURIAndHeaders pp) of
        (m, gone) \<Rightarrow> (if gone then unsafeRemoveUntrackedURI uri else (\<lambda>pp. pp)) (pp\<lparr>PayloadByURIAndHeaders := m\<rparr>))"

definition pp_setQueryResponsePayload :: "string \<Rightarrow> response_payload \<Rightarrow> proto_payloads \<Rightarrow> proto_payloads" where
  "pp_setQueryResponsePayload query rp pp = pp\<lparr>PayloadByQuery := put2 query (rpQueryValueMatch rp) rp (PayloadByQuery pp)\<rparr>"

definition removeQueryResponsePayload :: "string \<Rightarrow> string \<Rightarrow> proto_payloads \<Rightarrow> proto_payloads" where
  "removeQueryResponsePayload query value pp =
     pp\<lparr>PayloadByQuery := del2 query (if IsFiller value then [] else value) (PayloadByQuery pp)\<rparr>"

definition setURIWithQueryResponsePayload :: "string \<Rightarrow> string \<Rightarrow> response_payload \<Rightarrow> proto_payloads \<Rightarrow> proto_payloads" where
  "setURIWithQueryResponsePayload uri query rp pp =
     pp\<lparr>PayloadByURIAndQuery :=
          mput uri (put2 query (rpQueryValueMatch rp) rp (mget_or [] (PayloadByURIAndQuery pp) uri)) (PayloadByURIAndQuery pp),
        allURIResponsePayloads := mput uri rp (allURIResponsePayloads pp)\<rparr>"

definition removeURIWithQueryResponsePayload :: "string \<Rightarrow> string \<Rightarrow> string \<Rightarrow> proto_payloads \<Rightarrow> proto_payloads" where
  "removeURIWithQueryResponsePayload uri query value pp =
     (case del3 uri query value (PayloadByURIAndQuery pp) of
        (m, gone) \<Rightarrow> (if gone then unsafeRemoveUntrackedURI uri else (\<lambda>pp. pp)) (pp\<lparr>PayloadByURIAndQuery := m\<rparr>))"

definition setURIWithBodyMatchResponsePayload :: "string \<Rightarrow> string \<Rightarrow> response_payload \<Rightarrow> proto_payloads \<Rightarrow> proto_payloads" where
  "setURIWithBodyMatchResponsePayload uri matchText rp pp =
     pp\<lparr>PayloadByURIAndBody := put2 uri matchText rp (PayloadByURIAndBody pp),
        allURIResponsePayloads := mput uri rp (allURIResponsePayloads pp)\<rparr>"

definition removeURIWithBodyMatchResponsePayload :: "string \<Rightarrow> string \<Rightarrow> proto_payloads \<Rightarrow> proto_payloads" where
  "removeURIWithBodyMatchResponsePayload uri matchText pp =
     (case mget (PayloadByURIAndBody pp) uri of
        None \<Rightarrow> pp
      | Some inner \<Rightarrow>
          (if mdel matchText inner = [] then unsafeRemoveUntrackedURI uri (pp\<lparr>PayloadByURIAndBody := mdel uri (PayloadByURIAndBody pp)\<rparr>)
           else pp\<lparr>PayloadByURIAndBody := mput uri (mdel matchText inner) (PayloadByURIAndBody pp)\<rparr>))"

definition HasAnyPayload :: "proto_payloads \<Rightarrow> bool" where
  "HasAnyPayload pp \<longleftrightarrow> allURIResponsePayloads pp \<noteq> [] \<or> PayloadByURIWithMatches pp \<noteq> [] \<or> PayloadByHeaders pp \<noteq> [] \<or>
     PayloadByQuery pp \<noteq> [] \<or> DefaultPayload pp \<noteq> None"

end
