(* ===== verification/Payload_Api.thy ===== *)
theory Payload_Api
  imports Payload_Tables
begin

text \<open>
  Response payloads: the search for the payload of a request (\<open>GetMatchingResponsePayload\<close> of \<open>protoPayload.go\<close> and the
  helpers of \<open>payloadUtil.go\<close>), the operations of a port (\<open>payload.go\<close>), the handlers (\<open>payloadAPI.go\<close>) and the decision of the
  middleware (\<open>payloadMiddleware.go\<close>). The body of a request is a reader: the first search that reads it leaves
  nothing for the next one. Messages are not modelled.
\<close>

section \<open>Searching\<close>

fun first_value :: "by_key \<Rightarrow> string list \<Rightarrow> response_payload option" where
  "first_value m [] = mget m []"
| "first_value m (v # vs) = (case mget m (ToLower v) of Some p \<Rightarrow> Some p | None \<Rightarrow> first_value m vs)"

fun getPayloadForKV :: "(string, string list) gomap \<Rightarrow> by_key2 \<Rightarrow> response_payload option" where
  "getPayloadForKV [] pm = None"
| "getPayloadForKV ((k, kv) # kvs) pm =
     (case mget pm (ToLower k) of
        None \<Rightarrow> getPayloadForKV kvs pm
      | Some m \<Rightarrow> (case first_value m kv of Some p \<Rightarrow> Some p | None \<Rightarrow> getPayloadForKV kvs pm))"

text \<open>A document that can not be read as an object ends the search.\<close>

fun getPayloadForBodyMatch :: "payload_env \<Rightarrow> string \<Rightarrow> by_key \<Rightarrow> (string, string) gomap \<Rightarrow> (response_payload \<times> (string, string) gomap) option" where
  "getPayloadForBodyMatch env body [] caps = None"
| "getPayloadForBodyMatch env body ((k, rp) # ms) caps =
     (if rpBodyMatch rp \<noteq> [] \<and> (case peCompile env (body_pattern (rpBodyMatch rp)) of None \<Rightarrow> False | Some re \<Rightarrow> re (ToLower body))
      then Some (rp, caps)
      else if rpBodyPaths rp \<noteq> [] then
        (case (case peParse env body of Some (JObj m) \<Rightarrow> Some m | Some JNull \<Rightarrow> Some [] | _ \<Rightarrow> None) of
           None \<Rightarrow> None
         | Some m \<Rightarrow>
             (case peFind env (rpBodyPaths rp) (JObj m) of
                (c, allMatched) \<Rightarrow> (if allMatched then Some (rp, c) else getPayloadForBodyMatch env body ms c)))
      else getPayloadForBodyMatch env body ms caps)"

definition matchKV :: "string \<Rightarrow> (string, string) gomap \<Rightarrow> string \<Rightarrow> bool" where
  "matchKV k valueMatches v \<longleftrightarrow>
     v \<noteq> [] \<and> (let v2 = mget_or [] valueMatches k in v2 \<noteq> [] \<longrightarrow> EqualFold v v2)"

definition query_Get :: "(string, string list) gomap \<Rightarrow> string \<Rightarrow> string" where
  "query_Get q k = (case mget q k of Some (v # vs) \<Rightarrow> v | _ \<Rightarrow> [])"

definition request_matches :: "payload_env \<Rightarrow> string \<Rightarrow> (string, string list) gomap \<Rightarrow> (string, string list) gomap \<Rightarrow> request_match \<Rightarrow> bool" where
  "request_matches env uri headers query m \<longleftrightarrow>
     (case peMatcher env (mURIPrefix m) of None \<Rightarrow> True | Some re \<Rightarrow> re uri) \<and>
     list_all (\<lambda>(k, _). matchKV k (headerValueMatches m) (header_Get headers k)) (mHeaders m) \<and>
     list_all (\<lambda>(k, _). matchKV k (queryValueMatches m) (query_Get query k)) (mQueries m)"

text \<open>The payload of the first URI that matches and has a payload for the request.\<close>

fun search_uris :: "payload_env \<Rightarrow> string \<Rightarrow> (string, string list) gomap \<Rightarrow> (string, string list) gomap \<Rightarrow> proto_payloads \<Rightarrow> string option \<Rightarrow>
    by_key \<Rightarrow> (response_payload \<times> (string, string) gomap) option" where
  "search_uris env requestURI headers query pp body [] = None"
| "search_uris env requestURI headers query pp body ((uri, rp) # uris) =
     (if (case peMatcher env (rpURIMatch rp) of None \<Rightarrow> False | Some re \<Rightarrow> re requestURI) then
        (case getPayloadForKV headers (mget_or [] (PayloadByURIAndHeaders pp) uri) of
           Some p \<Rightarrow> Some (p, [])
         | None \<Rightarrow>
             (case getPayloadForKV query (mget_or [] (PayloadByURIAndQuery pp) uri) of
                Some p \<Rightarrow> Some (p, [])
              | None \<Rightarrow>
                  (let bodies = mget_or [] (PayloadByURIAndBody pp) uri in
                   case (case body of None \<Rightarrow> None | Some b \<Rightarrow> getPayloadForBodyMatch env b bodies []) of
                     Some r \<Rightarrow> Some r
                   | None \<Rightarrow>
                       (case mget (PayloadByURIs pp) uri of
                          Some p \<Rightarrow> Some (p, [])
                        | None \<Rightarrow>
                            search_uris env requestURI headers query pp
                              (if bodies \<noteq> [] then map_option (\<lambda>_. []) body else body) uris))))
      else search_uris env requestURI headers query pp body uris)"

definition find_matches :: "payload_env \<Rightarrow> string \<Rightarrow> (string, string list) gomap \<Rightarrow> (string, string list) gomap \<Rightarrow> proto_payloads \<Rightarrow> response_payload option" where
  "find_matches env requestURI headers query pp =
     find (\<lambda>rp. list_ex (request_matches env requestURI headers query) (rpRequestMatches rp)) (concat (map snd (PayloadByURIWithMatches pp)))"

definition GetMatchingResponsePayload :: "payload_env \<Rightarrow> string \<Rightarrow> (string, string list) gomap \<Rightarrow> (string, string list) gomap \<Rightarrow> string option \<Rightarrow>
    proto_payloads \<Rightarrow> (response_payload \<times> (string, string) gomap) option" where
  "GetMatchingResponsePayload env requestURI headers query body pp =
     (case find_matches env requestURI headers query pp of
        Some rp \<Rightarrow> Some (rp, [])
      | None \<Rightarrow>
          (case search_uris env requestURI headers query pp body (allURIResponsePayloads pp) of
             Some r \<Rightarrow> Some r
           | None \<Rightarrow>
               (case getPayloadForKV headers (PayloadByHeaders pp) of
                  Some p \<Rightarrow> Some (p, [])
                | None \<Rightarrow>
                    (case getPayloadForKV query (PayloadByQuery pp) of
                       Some p \<Rightarrow> Some (p, [])
                     | None \<Rightarrow> map_option (\<lambda>p. (p, [])) (DefaultPayload pp)))))"

section \<open>The payloads of a port\<close>

record port_payloads =
  HTTPPayloads :: proto_payloads
  RPCPayloads :: proto_payloads

definition port_init :: port_payloads where
  "port_init = \<lparr>HTTPPayloads = pp_init, RPCPayloads = pp_init\<rparr>"

definition protoPayload :: "bool \<Rightarrow> port_payloads \<Rightarrow> proto_payloads" where
  "protoPayload isGRPC pr = (if isGRPC then RPCPayloads pr else HTTPPayloads pr)"

definition upd_proto :: "bool \<Rightarrow> (proto_payloads \<Rightarrow> proto_payloads) \<Rightarrow> port_payloads \<Rightarrow> port_payloads" where
  "upd_proto isGRPC f pr =
     (if isGRPC then pr\<lparr>RPCPayloads := f (RPCPayloads pr)\<rparr> else pr\<lparr>HTTPPayloads := f (HTTPPayloads pr)\<rparr>)"

type_synonym set_result = "(payload_error + port_payloads) option"

text \<open>A payload that is built is stored; an error leaves the tables as they are.\<close>

definition store_new :: "(payload_error + response_payload) option \<Rightarrow> bool \<Rightarrow> (response_payload \<Rightarrow> proto_payloads \<Rightarrow> proto_payloads) \<Rightarrow>
    port_payloads \<Rightarrow> set_result" where
  "store_new new isGRPC f pr =
     (case new of
        None \<Rightarrow> None
      | Some (Inl e) \<Rightarrow> Some (Inl e)
      | Some (Inr rp) \<Rightarrow> Some (Inr (upd_proto isGRPC (f rp) pr)))"

definition remove_old :: "bool \<Rightarrow> (proto_payloads \<Rightarrow> proto_payloads) \<Rightarrow> port_payloads \<Rightarrow> set_result" where
  "remove_old isGRPC f pr = Some (Inr (upd_proto isGRPC f pr))"

definition setStreamResponsePayload ::
  "payload_env \<Rightarrow> bool \<Rightarrow> string \<Rightarrow> string \<Rightarrow> string \<Rightarrow> string \<Rightarrow> string \<Rightarrow> int \<Rightarrow> int \<Rightarrow> int \<Rightarrow> port_payloads \<Rightarrow> set_result" where
  "setStreamResponsePayload env isGRPC payload contentType uri0 header0 value0 n delayMin delayMax pr =
     (let uri = ToLower uri0; header = ToLower header0; value = ToLower value0
      in case newResponsePayload env payload True True contentType uri header [] value [] [] [] delayMin delayMax of
           None \<Rightarrow> None
         | Some (Inl e) \<Rightarrow> Some (Inl e)
         | Some (Inr rp0) \<Rightarrow>
             (let rp = prepare_stream env n rp0 in
              Some (Inr (upd_proto isGRPC
                (if payload \<noteq> [] then
                   (if uri \<noteq> [] \<and> header \<noteq> [] then setURIWithHeaderResponsePayload uri header rp
                    else if uri \<noteq> [] then pp_setURIResponsePayload uri rp
                    else if header \<noteq> [] then pp_setHeaderResponsePayload header rp
                    else pp_setDefaultResponsePayload rp)
                 else if uri \<noteq> [] then removeURIResponsePayload uri
                 else (\<lambda>pp. pp)) pr))))"

definition setDefaultResponsePayload ::
  "payload_env \<Rightarrow> (nat \<Rightarrow> string) \<Rightarrow> bool \<Rightarrow> string \<Rightarrow> string \<Rightarrow> int \<Rightarrow> int \<Rightarrow> int \<Rightarrow> port_payloads \<Rightarrow> set_result" where
  "setDefaultResponsePayload env random isGRPC payload contentType sz delayMin delayMax pr =
     (case (if 0 < sz then FixPayload random payload sz else Some payload) of
        None \<Rightarrow> None
      | Some p \<Rightarrow>
          store_new (newResponsePayload env p False True contentType [] [] [] [] [] [] [] delayMin delayMax) isGRPC pp_setDefaultResponsePayload pr)"

definition setURIResponsePayload ::
  "payload_env \<Rightarrow> bool \<Rightarrow> bool \<Rightarrow> string \<Rightarrow> bool \<Rightarrow> string \<Rightarrow> string \<Rightarrow> transform list \<Rightarrow> int \<Rightarrow> int \<Rightarrow> port_payloads \<Rightarrow> set_result" where
  "setURIResponsePayload env isGRPC isStream payload binary uri0 contentType transforms delayMin delayMax pr =
     (let uri = ToLower uri0 in
      if payload \<noteq> [] \<or> transforms \<noteq> [] then
        store_new (newResponsePayload env payload isStream binary contentType uri [] [] [] [] [] transforms delayMin delayMax) isGRPC
          (pp_setURIResponsePayload uri) pr
      else remove_old isGRPC (removeURIResponsePayload uri) pr)"

definition setHeaderResponsePayload ::
  "payload_env \<Rightarrow> bool \<Rightarrow> string \<Rightarrow> bool \<Rightarrow> string \<Rightarrow> string \<Rightarrow> string \<Rightarrow> int \<Rightarrow> int \<Rightarrow> port_payloads \<Rightarrow> set_result" where
  "setHeaderResponsePayload env isGRPC payload binary header0 value0 contentType delayMin delayMax pr =
     (let header = ToLower header0; value = ToLower value0 in
      if payload \<noteq> [] then
        store_new (newResponsePayload env payload False binary contentType [] header [] value [] [] [] delayMin delayMax) isGRPC
          (pp_setHeaderResponsePayload header) pr
      else remove_old isGRPC (removeHeaderResponsePayload header value) pr)"

definition setQueryResponsePayload ::
  "payload_env \<Rightarrow> bool \<Rightarrow> string \<Rightarrow> bool \<Rightarrow> string \<Rightarrow> string \<Rightarrow> string \<Rightarrow> int \<Rightarrow> int \<Rightarrow> port_payloads \<Rightarrow> set_result" where
  "setQueryResponsePayload env isGRPC payload binary query0 value0 contentType delayMin delayMax pr =
     (let query = ToLower query0; value = ToLower value0 in
      if payload \<noteq> [] then
        store_new (newResponsePayload env payload False binary contentType [] [] query value [] [] [] delayMin delayMax) isGRPC
          (pp_setQueryResponsePayload query) pr
      else remove_old isGRPC (removeQueryResponsePayload query value) pr)"

definition setResponsePayloadForURIWithHeader ::
  "payload_env \<Rightarrow> bool \<Rightarrow> string \<Rightarrow> bool \<Rightarrow> string \<Rightarrow> string \<Rightarrow> string \<Rightarrow> string \<Rightarrow> int \<Rightarrow> int \<Rightarrow> port_payloads \<Rightarrow> set_result" where
  "setResponsePayloadForURIWithHeader env isGRPC payload binary uri0 header0 value0 contentType delayMin delayMax pr =
     (let uri = ToLower uri0; header = ToLower header0; value = ToLower value0 in
      if payload \<noteq> [] then
        store_new (newResponsePayload env payload False binary contentType uri header [] value [] [] [] delayMin delayMax) isGRPC
          (setURIWithHeaderResponsePayload uri header) pr
      else remove_old isGRPC (removeURIWithHeaderResponsePayload uri header value) pr)"

text \<open>The payload is stored with the payloads for headers.\<close>

definition setResponsePayloadForURIWithQuery ::
  "payload_env \<Rightarrow> bool \<Rightarrow> string \<Rightarrow> bool \<Rightarrow> string \<Rightarrow> string \<Rightarrow> string \<Rightarrow> string \<Rightarrow> int \<Rightarrow> int \<Rightarrow> port_payloads \<Rightarrow> set_result" where
  "setResponsePayloadForURIWithQuery env isGRPC payload binary uri0 query0 value0 contentType delayMin delayMax pr =
     (let uri = ToLower uri0; query = ToLower query0; value = ToLower value0 in
      if payload \<noteq> [] then
        store_new (newResponsePayload env payload False binary contentType uri [] query value [] [] [] delayMin delayMax) isGRPC
          (setURIWithHeaderResponsePayload uri query) pr
      else remove_old isGRPC (removeURIWithQueryResponsePayload uri query value) pr)"

definition setResponsePayloadForURIWithBodyMatch ::
  "payload_env \<Rightarrow> bool \<Rightarrow> string \<Rightarrow> bool \<Rightarrow> string \<Rightarrow> string \<Rightarrow> string \<Rightarrow> bool \<Rightarrow> int \<Rightarrow> int \<Rightarrow> port_payloads \<Rightarrow> set_result" where
  "setResponsePayloadForURIWithBodyMatch env isGRPC payload binary uri0 match0 contentType isPaths delayMin delayMax pr =
     (let uri = ToLower uri0; mt = (if isPaths then match0 else ToLower match0); bodyMatch = split_on CHR '','' mt in
      if payload \<noteq> [] then
        store_new (newResponsePayload env payload False binary contentType uri [] [] [] (if isPaths then [] else bodyMatch)
            (if isPaths then bodyMatch else []) [] delayMin delayMax) isGRPC (setURIWithBodyMatchResponsePayload uri mt) pr
      else remove_old isGRPC (removeURIWithBodyMatchResponsePayload uri mt) pr)"

section \<open>The manager\<close>

type_synonym payload_manager = "(int, port_payloads) gomap"

definition GetPortResponse :: "int \<Rightarrow> payload_manager \<Rightarrow> port_payloads" where
  "GetPortResponse port pm = mget_or port_init pm port"

text \<open>An operation on the payloads of a port, which are created if they are missing.\<close>

definition on_port :: "int \<Rightarrow> (port_payloads \<Rightarrow> set_result) \<Rightarrow> payload_manager \<Rightarrow> (payload_manager \<times> payload_error option) option" where
  "on_port port f pm =
     (let pr = GetPortResponse port pm in
      case f pr of
        None \<Rightarrow> None
      | Some (Inl e) \<Rightarrow> Some (mput port pr pm, Some e)
      | Some (Inr pr') \<Rightarrow> Some (mput port pr' pm, None))"

definition ClearRPCResponsePayloads :: "int \<Rightarrow> payload_manager \<Rightarrow> payload_manager" where
  "ClearRPCResponsePayloads port pm = mput port port_init pm"

definition SetRPCResponsePayload ::
  "payload_env \<Rightarrow> (nat \<Rightarrow> string) \<Rightarrow> int \<Rightarrow> bool \<Rightarrow> string \<Rightarrow> string \<Rightarrow> string \<Rightarrow> string \<Rightarrow> string \<Rightarrow> string \<Rightarrow> string \<Rightarrow> int \<Rightarrow> int \<Rightarrow> int \<Rightarrow>
   payload_manager \<Rightarrow> (payload_manager \<times> payload_error option) option" where
  "SetRPCResponsePayload env random port isStream payload contentType uri header value regexes paths n delayMin delayMax pm =
     (if payload = [] then Some (pm, Some MissingPayload)
      else on_port port (\<lambda>pr.
        if isStream then setStreamResponsePayload env True payload contentType uri header value n delayMin delayMax pr
        else if uri = [] \<and> header = [] then
          setDefaultResponsePayload env random True payload contentType (int (length payload)) delayMin delayMax pr
        else if uri \<noteq> [] then
          (if header \<noteq> [] then setResponsePayloadForURIWithHeader env True payload False uri header value contentType delayMin delayMax pr
           else if regexes \<noteq> [] \<or> paths \<noteq> [] then
             setResponsePayloadForURIWithBodyMatch env True payload False uri (if regexes = [] then paths else regexes) contentType
               (paths \<noteq> []) delayMin delayMax pr
           else setURIResponsePayload env True isStream payload False uri contentType [] delayMin delayMax pr)
        else setHeaderResponsePayload env True payload False header value contentType delayMin delayMax pr) pm)"

definition SetRPCResponsePayloadTransform ::
  "payload_env \<Rightarrow> int \<Rightarrow> bool \<Rightarrow> string \<Rightarrow> string \<Rightarrow> transform list \<Rightarrow> int \<Rightarrow> int \<Rightarrow> payload_manager \<Rightarrow> (payload_manager \<times> payload_error option) option" where
  "SetRPCResponsePayloadTransform env port isStream contentType uri transforms delayMin delayMax pm =
     on_port port (setURIResponsePayload env True isStream [] False uri contentType transforms delayMin delayMax) pm"

definition SetURIResponsePayloadWithMatches ::
  "payload_env \<Rightarrow> int \<Rightarrow> response_payload option \<Rightarrow> bool \<Rightarrow> payload_manager \<Rightarrow> (payload_manager \<times> payload_error option) option" where
  "SetURIResponsePayloadWithMatches env port rpo isGRPC pm =
     (case rpo of
        None \<Rightarrow> Some (pm, Some MissingPayload)
      | Some rp0 \<Rightarrow>
          (case Process env rp0 of
             None \<Rightarrow> None
           | Some (Inl e) \<Rightarrow> Some (pm, Some e)
           | Some (Inr rp1) \<Rightarrow>
               (let rp = (if 0 < rpStreamCount rp1 then prepare_stream env (rpStreamCount rp1) (rp1\<lparr>rpIsStream := True\<rparr>) else rp1)
                in on_port port (\<lambda>pr. Some (Inr (upd_proto isGRPC
                     (fold (\<lambda>m. setURIResponsePayloadWithMatches (ToLower (mURIPrefix m)) rp) (rpRequestMatches rp)) pr))) pm)))"

section \<open>Handlers\<close>

definition setResponsePayload ::
  "payload_env \<Rightarrow> (nat \<Rightarrow> string) \<Rightarrow> (string \<Rightarrow> int option) \<Rightarrow> string \<Rightarrow> request \<Rightarrow> payload_manager \<Rightarrow> (payload_manager \<times> http_out) option" where
  "setResponsePayload env random pd payload r pm =
     (let isGRPC = GetStringParamValue r ''grpc'' None \<noteq> [];
          binary = IsBinaryContentHeader (reqHeaders r) \<or> Contains (RequestURI r) ''binary'';
          uri = GetStringParamValue r ''uri'' None; header = GetStringParamValue r ''header'' None;
          query = GetStringParamValue r ''q'' None; value = GetStringParamValue r ''value'' None;
          regexes = GetStringParamValue r ''regexes'' None; paths = GetStringParamValue r ''paths'' None;
          isStream = Contains (RequestURI r) ''stream''; n = GetIntParamValue r ''count'' None;
          (delayMin, delayMax, _, _) = GetDurationParam pd r ''delay'';
          ct = header_Get (reqHeaders r) ''ResponseContent-Type'';
          contentType = (if ct \<noteq> [] then ct else if binary then ''application/octet-stream'' else ''plain/text'')
      in map_option (\<lambda>(pm, _). (pm, SendEvent ''Response Payload Configured'' no_out))
        (on_port (reqPortNum r) (\<lambda>pr.
          if isStream then setStreamResponsePayload env isGRPC payload contentType uri header value n delayMin delayMax pr
          else if header \<noteq> [] \<and> uri \<noteq> [] then
            setResponsePayloadForURIWithHeader env isGRPC payload binary uri header value contentType delayMin delayMax pr
          else if query \<noteq> [] \<and> uri \<noteq> [] then
            setResponsePayloadForURIWithQuery env isGRPC payload binary uri query value contentType delayMin delayMax pr
          else if uri \<noteq> [] \<and> (regexes \<noteq> [] \<or> paths \<noteq> []) then
            setResponsePayloadForURIWithBodyMatch env isGRPC payload binary uri (if regexes = [] then paths else regexes) contentType
              (paths \<noteq> []) delayMin delayMax pr
          else if uri \<noteq> [] then setURIResponsePayload env isGRPC False payload binary uri contentType [] delayMin delayMax pr
          else if header \<noteq> [] then setHeaderResponsePayload env isGRPC payload binary header value contentType delayMin delayMax pr
          else if query \<noteq> [] then setQueryResponsePayload env isGRPC payload binary query value contentType delayMin delayMax pr
          else setDefaultResponsePayload env random isGRPC payload contentType
                 (ParseSize size_units (mget_or [] (reqVars r) ''size'')) delayMin delayMax pr) pm))"

text \<open>The transformations as they are read from the body: \<open>None\<close> is an error, \<open>Some None\<close> is null.\<close>

definition setPayloadTransform ::
  "payload_env \<Rightarrow> (string \<Rightarrow> int option) \<Rightarrow> transform list option option \<Rightarrow> request \<Rightarrow> payload_manager \<Rightarrow> (payload_manager \<times> http_out) option" where
  "setPayloadTransform env pd body r pm =
     (let isGRPC = GetStringParamValue r ''grpc'' None \<noteq> []; isStream = Contains (RequestURI r) ''stream'';
          ct = header_Get (reqHeaders r) ''ResponseContent-Type'';
          contentType = (if ct = [] then ''application/json'' else ct);
          (delayMin, delayMax, _, _) = GetDurationParam pd r ''delay'';
          uri = GetStringParamValue r ''uri'' None; port = reqPortNum r;
          pm0 = mput port (GetPortResponse port pm) pm
      in case body of
           Some (Some transforms) \<Rightarrow>
             (if uri \<noteq> [] then
                map_option (\<lambda>(pm, _). (pm, SendEvent ''Response Payload Configured'' no_out))
                  (on_port port (setURIResponsePayload env isGRPC isStream [] False uri contentType transforms delayMin delayMax) pm)
              else Some (pm0, no_out))
         | _ \<Rightarrow> Some (pm0, no_out))"

fun set_all_matches :: "payload_env \<Rightarrow> int \<Rightarrow> bool \<Rightarrow> response_payload option list \<Rightarrow> payload_manager \<Rightarrow> (payload_manager \<times> payload_error option) option" where
  "set_all_matches env port isGRPC [] pm = Some (pm, None)"
| "set_all_matches env port isGRPC (rp # rps) pm =
     (case SetURIResponsePayloadWithMatches env port rp isGRPC pm of
        None \<Rightarrow> None
      | Some (pm, Some e) \<Rightarrow> Some (pm, Some e)
      | Some (pm, None) \<Rightarrow> set_all_matches env port isGRPC rps pm)"

text \<open>The body as a list of payloads, if it is one, and as a single payload, \<open>None\<close> when that fails.\<close>

definition setResponsePayloadWithMatches ::
  "payload_env \<Rightarrow> response_payload option list \<Rightarrow> response_payload option \<Rightarrow> request \<Rightarrow> payload_manager \<Rightarrow> (payload_manager \<times> http_out) option" where
  "setResponsePayloadWithMatches env rps single r pm =
     (let isGRPC = GetStringParamValue r ''grpc'' None \<noteq> [];
          result = (if rps \<noteq> [] then set_all_matches env (reqPortNum r) isGRPC rps pm
                    else case single of
                           None \<Rightarrow> Some (pm, Some MissingPayload)
                         | Some rp \<Rightarrow> SetURIResponsePayloadWithMatches env (reqPortNum r) (Some rp) isGRPC pm)
      in map_option (\<lambda>(pm, e). (pm, if e = None then SendEvent ''Response Payload Configured'' no_out else no_out)) result)"

definition clearResponsePayload :: "request \<Rightarrow> payload_manager \<Rightarrow> payload_manager \<times> http_out" where
  "clearResponsePayload r pm = (mput (reqPortNum r) port_init pm, SendEvent ''Response Payload Cleared'' (WriteHeader 200 no_out))"

text \<open>The payload of a request, if there is one, and whether the next handler is called. \<open>rpc\<close>: the request is gRPC or JSON-RPC;
  \<open>payloadReq\<close>, \<open>statusReq\<close> and \<open>delayReq\<close> are the classification of the request.\<close>

definition payload_middleware ::
  "payload_env \<Rightarrow> bool \<Rightarrow> bool \<Rightarrow> bool \<Rightarrow> bool \<Rightarrow> string \<Rightarrow> request \<Rightarrow> payload_manager \<Rightarrow>
   (response_payload \<times> (string, string) gomap) option \<times> bool" where
  "payload_middleware env rpc payloadReq statusReq delayReq body r pm =
     (if IsKnownNonTraffic r then (None, True)
      else
        (let pp = protoPayload rpc (GetPortResponse (reqPortNum r) pm);
             found = (if \<not> payloadReq \<and> HasAnyPayload pp
                      then GetMatchingResponsePayload env (RequestURI r) (reqHeaders r) (reqQuery r) (Some body) pp else None)
         in (found, found = None \<or> statusReq \<or> delayReq)))"

section \<open>The index of URIs\<close>

definition pp_ok :: "proto_payloads \<Rightarrow> bool" where
  "pp_ok pp \<longleftrightarrow> PayloadByURIAndQuery pp = [] \<and>
     (\<forall>uri. mget (allURIResponsePayloads pp) uri \<noteq> None \<longleftrightarrow>
        mget (PayloadByURIs pp) uri \<noteq> None \<or> mget (PayloadByURIAndHeaders pp) uri \<noteq> None \<or> mget (PayloadByURIAndBody pp) uri \<noteq> None) \<and>
     (\<forall>uri rp. mget (allURIResponsePayloads pp) uri = Some rp \<longrightarrow> rpURIMatch rp = uri)"

lemma pp_ok_init: "pp_ok pp_init"
  by (simp add: pp_ok_def pp_init_def)

lemma pp_ok_index: "pp_ok pp \<Longrightarrow> mget (allURIResponsePayloads pp) uri \<noteq> None \<longleftrightarrow>
    mget (PayloadByURIs pp) uri \<noteq> None \<or> mget (PayloadByURIAndHeaders pp) uri \<noteq> None \<or> mget (PayloadByURIAndBody pp) uri \<noteq> None"
  by (simp add: pp_ok_def)

text \<open>The operations that do not touch the tables by URI.\<close>

lemma pp_ok_other:
  assumes "pp_ok pp"
  shows "pp_ok (pp_setDefaultResponsePayload rp pp)" "pp_ok (setURIResponsePayloadWithMatches uri rp pp)"
    "pp_ok (pp_setHeaderResponsePayload h rp pp)" "pp_ok (removeHeaderResponsePayload h v pp)"
    "pp_ok (pp_setQueryResponsePayload q rp pp)" "pp_ok (removeQueryResponsePayload q v pp)"
    "pp_ok (removeURIWithQueryResponsePayload uri q v pp)"
  using assms
  by (simp_all add: pp_ok_def pp_setDefaultResponsePayload_def setURIResponsePayloadWithMatches_def pp_setHeaderResponsePayload_def
    removeHeaderResponsePayload_def pp_setQueryResponsePayload_def removeQueryResponsePayload_def removeURIWithQueryResponsePayload_def del3_def)

lemma pp_ok_setI:
  assumes "pp_ok pp" and "rpURIMatch rp = uri" and "PayloadByURIAndQuery pp' = []"
    and "allURIResponsePayloads pp' = mput uri rp (allURIResponsePayloads pp)"
    and "mget (PayloadByURIs pp') uri \<noteq> None \<or> mget (PayloadByURIAndHeaders pp') uri \<noteq> None \<or> mget (PayloadByURIAndBody pp') uri \<noteq> None"
    and "\<And>u. u \<noteq> uri \<Longrightarrow> mget (PayloadByURIs pp') u = mget (PayloadByURIs pp) u \<and>
      mget (PayloadByURIAndHeaders pp') u = mget (PayloadByURIAndHeaders pp) u \<and> mget (PayloadByURIAndBody pp') u = mget (PayloadByURIAndBody pp) u"
  shows "pp_ok pp'"
  unfolding pp_ok_def
proof (intro conjI allI impI)
  fix u
  show "mget (allURIResponsePayloads pp') u \<noteq> None \<longleftrightarrow>
      mget (PayloadByURIs pp') u \<noteq> None \<or> mget (PayloadByURIAndHeaders pp') u \<noteq> None \<or> mget (PayloadByURIAndBody pp') u \<noteq> None"
    using pp_ok_index [OF assms(1), of u] assms(4-6) by (cases "u = uri") auto
  fix r assume "mget (allURIResponsePayloads pp') u = Some r"
  then show "rpURIMatch r = u" using assms(1,2,4) by (auto simp: pp_ok_def split: if_splits)
qed (fact assms(3))

lemma pp_ok_set:
  assumes "pp_ok pp" and "rpURIMatch rp = uri"
  shows "pp_ok (pp_setURIResponsePayload uri rp pp)" "pp_ok (setURIWithHeaderResponsePayload uri h rp pp)"
    "pp_ok (setURIWithBodyMatchResponsePayload uri mt rp pp)"
proof -
  have q: "PayloadByURIAndQuery pp = []" using assms(1) by (simp add: pp_ok_def)
  show "pp_ok (pp_setURIResponsePayload uri rp pp)"
    by (rule pp_ok_setI [OF assms]) (simp_all add: q pp_setURIResponsePayload_def)
  show "pp_ok (setURIWithHeaderResponsePayload uri h rp pp)"
    by (rule pp_ok_setI [OF assms]) (simp_all add: q setURIWithHeaderResponsePayload_def)
  show "pp_ok (setURIWithBodyMatchResponsePayload uri mt rp pp)"
    by (rule pp_ok_setI [OF assms]) (simp_all add: q setURIWithBodyMatchResponsePayload_def put2_def)
qed

text \<open>Deleting the entries of a URI in a table and then the URI, if nothing is left of it.\<close>

lemma pp_ok_untracked:
  assumes "PayloadByURIAndQuery pp = []"
    and "\<And>u. u \<noteq> uri \<Longrightarrow> mget (allURIResponsePayloads pp) u \<noteq> None \<longleftrightarrow>
      mget (PayloadByURIs pp) u \<noteq> None \<or> mget (PayloadByURIAndHeaders pp) u \<noteq> None \<or> mget (PayloadByURIAndBody pp) u \<noteq> None"
    and "mget (PayloadByURIs pp) uri \<noteq> None \<or> mget (PayloadByURIAndHeaders pp) uri \<noteq> None \<or> mget (PayloadByURIAndBody pp) uri \<noteq> None \<Longrightarrow>
      mget (allURIResponsePayloads pp) uri \<noteq> None"
    and "\<And>u rp. mget (allURIResponsePayloads pp) u = Some rp \<Longrightarrow> rpURIMatch rp = u"
  shows "pp_ok (unsafeRemoveUntrackedURI uri pp)"
proof (cases "mget (PayloadByURIs pp) uri \<noteq> None \<or> mget (PayloadByURIAndHeaders pp) uri \<noteq> None \<or> mget (PayloadByURIAndBody pp) uri \<noteq> None")
  case True
  then have "unsafeRemoveUntrackedURI uri pp = pp" by (auto simp: unsafeRemoveUntrackedURI_def)
  moreover have "pp_ok pp" unfolding pp_ok_def
  proof (intro conjI allI impI)
    show "mget (allURIResponsePayloads pp) u \<noteq> None \<longleftrightarrow> mget (PayloadByURIs pp) u \<noteq> None \<or> mget (PayloadByURIAndHeaders pp) u \<noteq> None \<or>
        mget (PayloadByURIAndBody pp) u \<noteq> None" for u
      using assms(2) [of u] assms(3) [OF True] True by (cases "u = uri") simp_all
  qed (fact assms(1), fact assms(4))
  ultimately show ?thesis by simp
next
  case False
  then have r: "unsafeRemoveUntrackedURI uri pp = pp\<lparr>allURIResponsePayloads := mdel uri (allURIResponsePayloads pp)\<rparr>"
    using assms(1) by (simp add: unsafeRemoveUntrackedURI_def)
  show ?thesis unfolding r pp_ok_def using assms(1,2,4) False by (auto simp: delete_conv')
qed

lemma pp_ok_removeURI: "pp_ok pp \<Longrightarrow> pp_ok (removeURIResponsePayload uri pp)"
  unfolding removeURIResponsePayload_def by (rule pp_ok_untracked) (auto simp: pp_ok_def delete_conv' split: if_splits)

lemma pp_ok_removeURIHeader:
  assumes "pp_ok pp" shows "pp_ok (removeURIWithHeaderResponsePayload uri h v pp)"
proof -
  obtain m gone where d: "del3 uri h v (PayloadByURIAndHeaders pp) = (m, gone)" by fastforce
  show ?thesis
  proof (cases gone)
    case True
    then have m: "m = mdel uri (PayloadByURIAndHeaders pp)" using d by (auto simp: del3_def Let_def split: option.splits if_splits)
    show ?thesis unfolding removeURIWithHeaderResponsePayload_def d using True
      by simp (rule pp_ok_untracked, use assms in \<open>auto simp: m pp_ok_def delete_conv' split: if_splits\<close>)
  next
    case False
    then have "mget m u = None \<longleftrightarrow> mget (PayloadByURIAndHeaders pp) u = None" for u
      using d by (auto simp: del3_def Let_def update_conv' split: option.splits if_splits)
    then show ?thesis using assms False by (simp add: removeURIWithHeaderResponsePayload_def d pp_ok_def)
  qed
qed

lemma pp_ok_removeBody:
  assumes "pp_ok pp" shows "pp_ok (removeURIWithBodyMatchResponsePayload uri mt pp)"
proof (cases "mget (PayloadByURIAndBody pp) uri")
  case None
  then show ?thesis using assms by (simp add: removeURIWithBodyMatchResponsePayload_def)
next
  case (Some inner)
  show ?thesis
  proof (cases "mdel mt inner = []")
    case True
    have "pp_ok (unsafeRemoveUntrackedURI uri (pp\<lparr>PayloadByURIAndBody := mdel uri (PayloadByURIAndBody pp)\<rparr>))"
      by (rule pp_ok_untracked) (use assms in \<open>auto simp: pp_ok_def delete_conv' split: if_splits\<close>)
    with True Some show ?thesis by (simp add: removeURIWithBodyMatchResponsePayload_def)
  next
    case False
    with Some assms show ?thesis by (auto simp: removeURIWithBodyMatchResponsePayload_def pp_ok_def update_conv')
  qed
qed

lemmas pp_ok_intros = pp_ok_other pp_ok_set pp_ok_removeURI pp_ok_removeURIHeader pp_ok_removeBody

definition port_ok :: "port_payloads \<Rightarrow> bool" where
  "port_ok pr \<longleftrightarrow> pp_ok (HTTPPayloads pr) \<and> pp_ok (RPCPayloads pr)"

lemma upd_proto_ok: "port_ok pr \<Longrightarrow> (\<And>pp. pp_ok pp \<Longrightarrow> pp_ok (f pp)) \<Longrightarrow> port_ok (upd_proto g f pr)"
  by (simp add: port_ok_def upd_proto_def)

lemma new_payload_uri: "newResponsePayload env p st b ct uri h q v bs ps ts d1 d2 = Some (Inr rp) \<Longrightarrow> rpURIMatch rp = uri"
  by (auto simp: newResponsePayload_def Let_def split: if_splits option.splits)

lemma store_new_ok:
  assumes "store_new new g f pr = Some (Inr pr')" and "port_ok pr"
    and "\<And>rp pp. new = Some (Inr rp) \<Longrightarrow> pp_ok pp \<Longrightarrow> pp_ok (f rp pp)"
  shows "port_ok pr'"
  using assms by (auto simp: store_new_def intro!: upd_proto_ok split: option.splits sum.splits)

definition keeps_port :: "(port_payloads \<Rightarrow> set_result) \<Rightarrow> bool" where
  "keeps_port f \<longleftrightarrow> (\<forall>pr pr'. port_ok pr \<longrightarrow> f pr = Some (Inr pr') \<longrightarrow> port_ok pr')"

lemma keeps_portI: "(\<And>pr pr'. port_ok pr \<Longrightarrow> f pr = Some (Inr pr') \<Longrightarrow> port_ok pr') \<Longrightarrow> keeps_port f"
  by (auto simp: keeps_port_def)

lemma prepare_stream_uri [simp]: "rpURIMatch (prepare_stream env n rp) = rpURIMatch rp"
  by (simp add: prepare_stream_def split: option.splits)

lemma keeps_store_or_remove:
  assumes "\<And>rp pp. new = Some (Inr rp) \<Longrightarrow> pp_ok pp \<Longrightarrow> pp_ok (f rp pp)" and "\<And>pp. pp_ok pp \<Longrightarrow> pp_ok (h pp)"
  shows "keeps_port (\<lambda>pr. if b then store_new new g f pr else remove_old g h pr)"
  using store_new_ok [OF _ _ assms(1)] upd_proto_ok [OF _ assms(2)] by (auto simp: keeps_port_def remove_old_def)

lemma keeps_setStream: "keeps_port (setStreamResponsePayload env g payload ct uri h v n d1 d2)"
proof (rule keeps_portI)
  fix pr pr' assume ok: "port_ok pr" and s: "setStreamResponsePayload env g payload ct uri h v n d1 d2 pr = Some (Inr pr')"
  let ?new = "newResponsePayload env payload True True ct (ToLower uri) (ToLower h) [] (ToLower v) [] [] [] d1 d2"
  from s obtain rp where rp: "?new = Some (Inr rp)" by (auto simp: setStreamResponsePayload_def Let_def split: option.splits sum.splits)
  have uri: "rpURIMatch rp = ToLower uri" by (rule new_payload_uri [OF rp])
  from s have "Inr pr' = (Inr (upd_proto g
      (if payload \<noteq> [] then
         (if ToLower uri \<noteq> [] \<and> ToLower h \<noteq> [] then setURIWithHeaderResponsePayload (ToLower uri) (ToLower h) (prepare_stream env n rp)
          else if ToLower uri \<noteq> [] then pp_setURIResponsePayload (ToLower uri) (prepare_stream env n rp)
          else if ToLower h \<noteq> [] then pp_setHeaderResponsePayload (ToLower h) (prepare_stream env n rp)
          else pp_setDefaultResponsePayload (prepare_stream env n rp))
       else if ToLower uri \<noteq> [] then removeURIResponsePayload (ToLower uri)
       else (\<lambda>pp. pp)) pr) :: payload_error + port_payloads)"
    unfolding setStreamResponsePayload_def Let_def rp option.case sum.case by (rule option.inject [THEN iffD1, OF sym])
  then have pr': "pr' = upd_proto g (if payload \<noteq> [] then
         (if ToLower uri \<noteq> [] \<and> ToLower h \<noteq> [] then setURIWithHeaderResponsePayload (ToLower uri) (ToLower h) (prepare_stream env n rp)
          else if ToLower uri \<noteq> [] then pp_setURIResponsePayload (ToLower uri) (prepare_stream env n rp)
          else if ToLower h \<noteq> [] then pp_setHeaderResponsePayload (ToLower h) (prepare_stream env n rp)
          else pp_setDefaultResponsePayload (prepare_stream env n rp))
       else if ToLower uri \<noteq> [] then removeURIResponsePayload (ToLower uri)
       else (\<lambda>pp. pp)) pr" by (rule sum.inject(2) [THEN iffD1])
  show "port_ok pr'" unfolding pr' by (rule upd_proto_ok [OF ok]) (simp add: pp_ok_intros uri)
qed

lemma keeps_set:
  "keeps_port (setURIResponsePayload env g st payload b uri ct ts d1 d2)"
  "keeps_port (setHeaderResponsePayload env g payload b h v ct d1 d2)"
  "keeps_port (setQueryResponsePayload env g payload b h v ct d1 d2)"
  "keeps_port (setResponsePayloadForURIWithHeader env g payload b uri h v ct d1 d2)"
  "keeps_port (setResponsePayloadForURIWithQuery env g payload b uri h v ct d1 d2)"
  "keeps_port (setResponsePayloadForURIWithBodyMatch env g payload b uri mt ct isPaths d1 d2)"
  unfolding setURIResponsePayload_def setHeaderResponsePayload_def setQueryResponsePayload_def setResponsePayloadForURIWithHeader_def
    setResponsePayloadForURIWithQuery_def setResponsePayloadForURIWithBodyMatch_def Let_def
  by (intro keeps_store_or_remove pp_ok_intros new_payload_uri; assumption)+

lemma keeps_setDefault: "keeps_port (setDefaultResponsePayload env random g payload ct sz d1 d2)"
  unfolding setDefaultResponsePayload_def
  by (rule keeps_portI, simp split: option.splits if_splits) (erule store_new_ok, assumption, rule pp_ok_other, assumption)+

lemmas keeps_intros = keeps_setStream keeps_set keeps_setDefault

lemma keeps_port_If: "keeps_port f \<Longrightarrow> keeps_port h \<Longrightarrow> keeps_port (\<lambda>pr. if b then f pr else h pr)"
  by (cases b) simp_all

definition manager_ok :: "payload_manager \<Rightarrow> bool" where
  "manager_ok pm \<longleftrightarrow> (\<forall>port pr. mget pm port = Some pr \<longrightarrow> port_ok pr)"

lemma port_ok_init: "port_ok port_init"
  by (simp add: port_ok_def port_init_def pp_ok_init)

lemma port_ok_Get: "manager_ok pm \<Longrightarrow> port_ok (GetPortResponse port pm)"
  by (auto simp: GetPortResponse_def mget_or_def manager_ok_def port_ok_init split: option.splits)

lemma manager_ok_put: "manager_ok pm \<Longrightarrow> port_ok pr \<Longrightarrow> manager_ok (mput port pr pm)"
  by (simp add: manager_ok_def)

lemma on_port_ok:
  assumes "on_port port f pm = Some (pm', e)" and "manager_ok pm" and "keeps_port f"
  shows "manager_ok pm'"
  using assms port_ok_Get [OF assms(2), of port]
  by (auto simp: on_port_def Let_def keeps_port_def intro!: manager_ok_put split: option.splits sum.splits)

lemma SetRPC_ok:
  assumes "SetRPCResponsePayload env random port st payload ct uri h v res ps n d1 d2 pm = Some (pm', e)" and "manager_ok pm"
  shows "manager_ok pm'"
proof (cases "payload = []")
  case True
  with assms show ?thesis by (simp add: SetRPCResponsePayload_def)
next
  case False
  show ?thesis
    by (rule on_port_ok [OF assms(1) [unfolded SetRPCResponsePayload_def if_not_P [OF False]] assms(2)])
      (intro keeps_port_If keeps_intros)
qed

lemma SetMatches_ok:
  assumes "SetURIResponsePayloadWithMatches env port rp g pm = Some (pm', e)" and "manager_ok pm"
  shows "manager_ok pm'"
proof -
  have "pp_ok pp \<Longrightarrow> pp_ok (fold (\<lambda>m. setURIResponsePayloadWithMatches (ToLower (mURIPrefix m)) r) ms pp)" for r ms pp
    by (induction ms arbitrary: pp) (simp_all add: pp_ok_other)
  then have k: "keeps_port (\<lambda>pr. Some (Inr (upd_proto g (fold (\<lambda>m. setURIResponsePayloadWithMatches (ToLower (mURIPrefix m)) r) ms) pr)))" for r ms
    by (auto simp: keeps_port_def intro: upd_proto_ok)
  show ?thesis using assms on_port_ok [OF _ assms(2) k]
    by (auto simp: SetURIResponsePayloadWithMatches_def Let_def split: option.splits sum.splits)
qed

lemma set_all_matches_ok: "set_all_matches env port g rps pm = Some (pm', e) \<Longrightarrow> manager_ok pm \<Longrightarrow> manager_ok pm'"
proof (induction rps arbitrary: pm)
  case (Cons rp rps)
  then obtain pm1 e1 where m: "SetURIResponsePayloadWithMatches env port rp g pm = Some (pm1, e1)" by (auto split: option.splits)
  have "manager_ok pm1" by (rule SetMatches_ok [OF m Cons.prems(2)])
  with Cons.IH [of pm1] Cons.prems(1) m show ?case by (cases e1) auto
qed simp

lemma map_on_port_ok:
  "map_option (\<lambda>(pm, _). (pm, w0)) (on_port port f pm) = Some (pm', w) \<Longrightarrow> manager_ok pm \<Longrightarrow> keeps_port f \<Longrightarrow> manager_ok pm'"
  by (auto intro: on_port_ok)

lemma setResponsePayload_ok:
  assumes "setResponsePayload env random pd payload r pm = Some (pm', w)" and "manager_ok pm"
  shows "manager_ok pm'"
proof -
  obtain d1 d2 x y where d: "GetDurationParam pd r ''delay'' = (d1, d2, x, y)" by (cases "GetDurationParam pd r ''delay''")
  show ?thesis
    by (rule map_on_port_ok [OF assms(1) [unfolded setResponsePayload_def Let_def d prod.case] assms(2)])
      (intro keeps_port_If keeps_intros)
qed

lemma setPayloadTransform_ok: "setPayloadTransform env pd body r pm = Some (pm', w) \<Longrightarrow> manager_ok pm \<Longrightarrow> manager_ok pm'"
  unfolding setPayloadTransform_def Let_def
  by (auto split: prod.splits option.splits if_splits intro: on_port_ok keeps_intros manager_ok_put port_ok_Get)

inductive payload_reach :: "payload_env \<Rightarrow> payload_manager \<Rightarrow> bool" for env where
  start: "payload_reach env []"
| set: "payload_reach env pm \<Longrightarrow> setResponsePayload env random pd payload r pm = Some (pm', w) \<Longrightarrow> payload_reach env pm'"
| transform: "payload_reach env pm \<Longrightarrow> setPayloadTransform env pd body r pm = Some (pm', w) \<Longrightarrow> payload_reach env pm'"
| matches: "payload_reach env pm \<Longrightarrow> setResponsePayloadWithMatches env rps single r pm = Some (pm', w) \<Longrightarrow> payload_reach env pm'"
| clear: "payload_reach env pm \<Longrightarrow> payload_reach env (fst (clearResponsePayload r pm))"
| rpc: "payload_reach env pm \<Longrightarrow> SetRPCResponsePayload env random port st payload ct uri h v res ps n d1 d2 pm = Some (pm', e) \<Longrightarrow> payload_reach env pm'"
| rpc_transform: "payload_reach env pm \<Longrightarrow> SetRPCResponsePayloadTransform env port st ct uri ts d1 d2 pm = Some (pm', e) \<Longrightarrow> payload_reach env pm'"
| rpc_matches: "payload_reach env pm \<Longrightarrow> SetURIResponsePayloadWithMatches env port rp g pm = Some (pm', e) \<Longrightarrow> payload_reach env pm'"
| rpc_clear: "payload_reach env pm \<Longrightarrow> payload_reach env (ClearRPCResponsePayloads port pm)"

lemma payload_reach_ok: "payload_reach env pm \<Longrightarrow> manager_ok pm"
proof (induction rule: payload_reach.induct)
  case start
  show ?case by (simp add: manager_ok_def)
next
  case (matches pm rps single r pm' w)
  then show ?case
    by (auto simp: setResponsePayloadWithMatches_def Let_def split: if_splits option.splits intro: set_all_matches_ok SetMatches_ok)
next
  case (clear pm r)
  then show ?case by (simp add: clearResponsePayload_def manager_ok_put port_ok_init)
next
  case (rpc_transform pm port st ct uri ts d1 d2 pm' e)
  then show ?case by (auto simp: SetRPCResponsePayloadTransform_def intro: on_port_ok keeps_intros)
next
  case (rpc_clear pm port)
  then show ?case by (simp add: ClearRPCResponsePayloads_def manager_ok_put port_ok_init)
qed (blast intro: setResponsePayload_ok setPayloadTransform_ok SetRPC_ok SetMatches_ok)+

text \<open>C30: In every reachable state, for every port and protocol, the index of URIs lists exactly the URIs that have a payload by
  themselves, with a header or with a body, the payload in the index is one of that URI, and no payload is ever kept for a URI with a
  query parameter.\<close>

theorem payload_uri_index:
  assumes "payload_reach env pm"
  shows "let pp = protoPayload rpc (GetPortResponse port pm) in
    (mget (allURIResponsePayloads pp) uri \<noteq> None \<longleftrightarrow>
       mget (PayloadByURIs pp) uri \<noteq> None \<or> mget (PayloadByURIAndHeaders pp) uri \<noteq> None \<or> mget (PayloadByURIAndBody pp) uri \<noteq> None) \<and>
    (mget (allURIResponsePayloads pp) uri = Some rp \<longrightarrow> rpURIMatch rp = uri) \<and> PayloadByURIAndQuery pp = []"
  using port_ok_Get [OF payload_reach_ok [OF assms], of port] unfolding port_ok_def pp_ok_def protoPayload_def Let_def by (cases rpc) simp_all

definition sample_env :: payload_env where
  "sample_env = \<lparr>peMatcher = (\<lambda>u. Some (\<lambda>s. HasPrefix s u)), peCompile = (\<lambda>p. Some (\<lambda>s. False)), peParse = (\<lambda>_. None), peMarshal = Sprint,
     peFind = (\<lambda>_ _. ([], False))\<rparr>"

definition sample_request :: request where
  "sample_request = \<lparr>reqPort = ''80'', reqPortNum = 80, RequestURI = ''/payload/set/header/x=1'', URLPath = ''/payload/set/header/x=1'',
     reqMethod = ''POST'', reqHeaders = [], reqVars = [(''uri'', ''/A''), (''header'', ''X''), (''value'', ''1'')], reqQuery = [],
     IsKnownNonTraffic = True, IsAdminRequest = True\<rparr>"

definition sample_manager :: payload_manager where
  "sample_manager = (case setResponsePayload sample_env (\<lambda>_. []) (\<lambda>_. None) ''hi'' sample_request [] of Some (pm, _) \<Rightarrow> pm | None \<Rightarrow> [])"

lemma sample_manager_reach: "payload_reach sample_env sample_manager"
  unfolding sample_manager_def by (auto split: option.splits intro: payload_reach.start payload_reach.set)

theorem payload_uri_index_witness:
  "let pp = HTTPPayloads (GetPortResponse 80 sample_manager) in
     mget (PayloadByURIAndHeaders pp) ''/a'' \<noteq> None \<and> mget (allURIResponsePayloads pp) ''/a'' \<noteq> None \<and> PayloadByURIAndQuery pp = []"
proof -
  have 1: "mget (PayloadByURIAndHeaders (HTTPPayloads (GetPortResponse 80 sample_manager))) ''/a'' \<noteq> None" by code_simp
  with payload_uri_index [OF sample_manager_reach, of False 80 "''/a''"] show ?thesis unfolding protoPayload_def Let_def if_False by blast
qed

section \<open>A payload that is set is found\<close>

definition uri_hit :: "payload_env \<Rightarrow> string \<Rightarrow> response_payload \<Rightarrow> bool" where
  "uri_hit env requestURI rp \<longleftrightarrow> (case peMatcher env (rpURIMatch rp) of None \<Rightarrow> False | Some re \<Rightarrow> re requestURI)"

lemma search_uris_hit:
  assumes "mget l u = Some rp" and "uri_hit env req rp" and "\<forall>(u', rp') \<in> set l. u' \<noteq> u \<longrightarrow> \<not> uri_hit env req rp'"
    and "getPayloadForKV headers (mget_or [] (PayloadByURIAndHeaders pp) u) = Some p"
  shows "search_uris env req headers query pp body l = Some (p, [])"
  using assms(1,3)
proof (induction l)
  case (Cons x l)
  obtain u' rp' where x: "x = (u', rp')" by fastforce
  show ?case
  proof (cases "u' = u")
    case True
    with Cons.prems(1) x have "rp' = rp" by simp
    then show ?thesis using assms(2,4) True by (simp add: x uri_hit_def)
  next
    case False
    with Cons.prems x have "\<not> uri_hit env req rp'" "mget l u = Some rp" by auto
    then show ?thesis using Cons.IH Cons.prems(2) by (simp add: x uri_hit_def)
  qed
qed simp

lemma set_mput: "x \<in> set (mput k v l) \<Longrightarrow> x = (k, v) \<or> x \<in> set l"
  by (induction l) (auto split: if_splits)

lemma set_uri_header_result:
  assumes "setResponsePayloadForURIWithHeader env g payload b uri h v ct d1 d2 pr = Some (Inr pr')" and "payload \<noteq> []"
  obtains rp where "rpPayload rp = Some payload" and "rpURIMatch rp = ToLower uri"
    and "rpHeaderValueMatch rp = (if \<not> IsFiller (ToLower v) \<and> ToLower h \<noteq> [] then ToLower v else [])"
    and "protoPayload g pr' = setURIWithHeaderResponsePayload (ToLower uri) (ToLower h) rp (protoPayload g pr)"
proof -
  from assms obtain rp where n: "newResponsePayload env payload False b ct (ToLower uri) (ToLower h) [] (ToLower v) [] [] [] d1 d2 = Some (Inr rp)"
    and pr': "pr' = upd_proto g (setURIWithHeaderResponsePayload (ToLower uri) (ToLower h) rp) pr"
    by (auto simp: setResponsePayloadForURIWithHeader_def Let_def store_new_def split: option.splits sum.splits)
  show thesis
  proof (rule that [of rp])
    show "protoPayload g pr' = setURIWithHeaderResponsePayload (ToLower uri) (ToLower h) rp (protoPayload g pr)"
      by (simp add: pr' protoPayload_def upd_proto_def)
  qed (use n in \<open>auto simp: newResponsePayload_def Let_def split: if_splits option.splits\<close>)
qed

text \<open>A payload that is set for a URI and a header value is the answer to a request for the URI with that header, in any case, unless a
  payload with matches applies or another URI with payloads matches the request.\<close>

theorem uri_header_payload_found:
  assumes "setResponsePayloadForURIWithHeader env g payload b uri h v ct d1 d2 pr = Some (Inr pr')" and "payload \<noteq> []" and "h \<noteq> []"
    and "\<not> IsFiller (ToLower v)" and "ToLower H = ToLower h" and "ToLower V = ToLower v"
    and "find_matches env req [(H, [V])] query (protoPayload g pr) = None"
    and "\<forall>(u, rp) \<in> set (allURIResponsePayloads (protoPayload g pr)). u \<noteq> ToLower uri \<longrightarrow> \<not> uri_hit env req rp"
    and "peMatcher env (ToLower uri) = Some re" and "re req"
  shows "\<exists>rp. GetMatchingResponsePayload env req [(H, [V])] query body (protoPayload g pr') = Some (rp, []) \<and> rpPayload rp = Some payload"
proof -
  let ?uri = "ToLower uri" and ?h = "ToLower h" and ?pp = "protoPayload g pr"
  from assms(1,2) obtain rp where rp: "rpPayload rp = Some payload" "rpURIMatch rp = ?uri"
      "rpHeaderValueMatch rp = (if \<not> IsFiller (ToLower v) \<and> ?h \<noteq> [] then ToLower v else [])"
    and pp': "protoPayload g pr' = setURIWithHeaderResponsePayload ?uri ?h rp ?pp" by (rule set_uri_header_result)
  let ?pp' = "setURIWithHeaderResponsePayload ?uri ?h rp ?pp"
  have val: "rpHeaderValueMatch rp = ToLower v" using rp(3) assms(3,4) by (simp add: ToLower_def)
  have fm: "find_matches env req [(H, [V])] query ?pp' = None"
    using assms(7) by (simp add: find_matches_def setURIWithHeaderResponsePayload_def)
  have "search_uris env req [(H, [V])] query ?pp' body (allURIResponsePayloads ?pp') = Some (rp, [])"
  proof (rule search_uris_hit)
    show "mget (allURIResponsePayloads ?pp') ?uri = Some rp" by (simp add: setURIWithHeaderResponsePayload_def)
    show "uri_hit env req rp" using assms(9,10) by (simp add: uri_hit_def rp)
    show "\<forall>(u', rp') \<in> set (allURIResponsePayloads ?pp'). u' \<noteq> ?uri \<longrightarrow> \<not> uri_hit env req rp'"
      using assms(8) by (auto simp: setURIWithHeaderResponsePayload_def dest!: set_mput)
    show "getPayloadForKV [(H, [V])] (mget_or [] (PayloadByURIAndHeaders ?pp') ?uri) = Some rp"
      by (simp add: setURIWithHeaderResponsePayload_def mget_or_def put2_def assms(5,6) val)
  qed
  with fm rp(1) show ?thesis by (simp add: pp' GetMatchingResponsePayload_def)
qed

theorem uri_header_payload_found_witness:
  "\<exists>pr' rp. setResponsePayloadForURIWithHeader sample_env False ''hi'' False ''/A'' ''X'' ''1'' [] 0 0 port_init = Some (Inr pr') \<and>
     GetMatchingResponsePayload sample_env ''/a/b'' [(''x'', [''1''])] [] None (protoPayload False pr') = Some (rp, []) \<and> rpPayload rp = Some ''hi''"
proof -
  have "case setResponsePayloadForURIWithHeader sample_env False ''hi'' False ''/A'' ''X'' ''1'' [] 0 0 port_init of Some (Inr _) \<Rightarrow> True | _ \<Rightarrow> False"
    by code_simp
  then obtain pr' where s: "setResponsePayloadForURIWithHeader sample_env False ''hi'' False ''/A'' ''X'' ''1'' [] 0 0 port_init = Some (Inr pr')"
    by (auto split: option.splits sum.splits)
  have 1: "\<not> IsFiller (ToLower ''1'')" "ToLower ''x'' = ToLower ''X''" "ToLower ''1'' = ToLower ''1''"
    "find_matches sample_env ''/a/b'' [(''x'', [''1''])] [] (protoPayload False port_init) = None"
    "allURIResponsePayloads (protoPayload False port_init) = []" "HasPrefix ''/a/b'' (ToLower ''/A'')" by code_simp+
  have 2: "\<forall>(u, rp) \<in> set (allURIResponsePayloads (protoPayload False port_init)). u \<noteq> ToLower ''/A'' \<longrightarrow> \<not> uri_hit sample_env ''/a/b'' rp"
    by (simp add: 1(5))
  have 3: "peMatcher sample_env (ToLower ''/A'') = Some (\<lambda>s. HasPrefix s (ToLower ''/A''))" by (simp add: sample_env_def)
  show ?thesis using uri_header_payload_found [OF s _ _ 1(1-4) 2 3 1(6), of None] s by auto
qed

text \<open>A payload for a URI with a query parameter is stored for a header of that name and any value: the query parameter of a request is not looked at, and a
  request that has a header with the name of the parameter gets the payload.\<close>

theorem uri_query_payload_by_header:
  assumes "setResponsePayloadForURIWithQuery env g payload b uri q v ct d1 d2 pr = Some (Inr pr')" and "payload \<noteq> []"
    and "mget (mget_or [] (PayloadByURIAndHeaders (protoPayload g pr)) (ToLower uri)) (ToLower q) = None"
  shows "PayloadByURIAndQuery (protoPayload g pr') = PayloadByURIAndQuery (protoPayload g pr) \<and>
    (\<exists>rp. getPayloadForKV [(q, vals)] (mget_or [] (PayloadByURIAndHeaders (protoPayload g pr')) (ToLower uri)) = Some rp \<and> rpPayload rp = Some payload)"
proof -
  let ?uri = "ToLower uri" and ?q = "ToLower q"
  from assms(1,2) obtain rp where n: "newResponsePayload env payload False b ct ?uri [] ?q (ToLower v) [] [] [] d1 d2 = Some (Inr rp)"
    and pr': "pr' = upd_proto g (setURIWithHeaderResponsePayload ?uri ?q rp) pr"
    by (auto simp: setResponsePayloadForURIWithQuery_def Let_def store_new_def split: option.splits sum.splits)
  have rp: "rpPayload rp = Some payload" "rpHeaderValueMatch rp = []"
    using n by (auto simp: newResponsePayload_def Let_def split: if_splits option.splits)
  have pp': "protoPayload g pr' = setURIWithHeaderResponsePayload ?uri ?q rp (protoPayload g pr)" by (simp add: pr' protoPayload_def upd_proto_def)
  have m: "mget (mget_or [] (PayloadByURIAndHeaders (protoPayload g pr')) ?uri) ?q = Some [([], rp)]"
    using assms(3) by (simp add: pp' setURIWithHeaderResponsePayload_def put2_def mget_or_def rp)
  have "first_value [([], rp)] vals = Some rp" by (induction vals) (auto simp: ToLower_def)
  then show ?thesis using m rp(1) by (simp add: pp' setURIWithHeaderResponsePayload_def)
qed

theorem uri_query_payload_by_header_witness:
  "\<exists>pr' rp. setResponsePayloadForURIWithQuery sample_env False ''hi'' False ''/A'' ''q'' ''1'' [] 0 0 port_init = Some (Inr pr') \<and>
     PayloadByURIAndQuery (protoPayload False pr') = [] \<and>
     getPayloadForKV [(''q'', [''other''])] (mget_or [] (PayloadByURIAndHeaders (protoPayload False pr')) ''/a'') = Some rp \<and> rpPayload rp = Some ''hi''"
proof -
  have "case setResponsePayloadForURIWithQuery sample_env False ''hi'' False ''/A'' ''q'' ''1'' [] 0 0 port_init of Some (Inr _) \<Rightarrow> True | _ \<Rightarrow> False"
    by code_simp
  then obtain pr' where s: "setResponsePayloadForURIWithQuery sample_env False ''hi'' False ''/A'' ''q'' ''1'' [] 0 0 port_init = Some (Inr pr')"
    by (auto split: option.splits sum.splits)
  have 1: "PayloadByURIAndHeaders (protoPayload False port_init) = []" "PayloadByURIAndQuery (protoPayload False port_init) = []"
    "ToLower ''/A'' = ''/a''" by code_simp+
  show ?thesis using uri_query_payload_by_header [OF s, of "[''other'']"] s unfolding 1 by (simp add: mget_or_def)
qed

end
