(* ===== verification/Tcp_Config.thy ===== *)
theory Tcp_Config
  imports Util_Params "HOL-Library.Monad_Syntax"
begin

text \<open>
  The configuration of TCP listeners (\<open>pkg/server/tcp/tcp.go\<close>, \<open>tcpapi.go\<close>). A configuration is an object: the table of
  listeners and a listener may share one, and storing a second configuration for a port overwrites the
  object that is there. \<open>tcObjs\<close> holds the objects by address. The flags of the modes and the parameters of a stream are
  records of their own. \<open>pd\<close> is \<open>time.ParseDuration\<close> and \<open>showD\<close> is \<open>Duration.String\<close>; \<open>present\<close> and \<open>getID\<close> are
  \<open>IsListenerPresent\<close> and \<open>GetListenerID\<close> of the listeners. A division by zero panics: \<open>None\<close>.
\<close>

section \<open>Configurations\<close>

record tcp_modes =
  tmPayload :: bool
  tmStream :: bool
  tmEcho :: bool
  tmConversation :: bool
  tmSilentLife :: bool
  tmCloseAtFirstByte :: bool
  tmValidatePayloadLength :: bool
  tmValidatePayloadContent :: bool

record tcp_stream =
  StreamPayloadSize :: string
  StreamChunkSize :: string
  StreamChunkCount :: int
  StreamChunkDelay :: string
  StreamDuration :: string
  StreamPayloadSizeV :: int
  StreamChunkSizeV :: int
  StreamChunkDelayD :: int
  StreamDurationD :: int

record tcp_config =
  tcListenerID :: string
  tcPort :: int
  ReadTimeout :: string
  WriteTimeout :: string
  ConnectTimeout :: string
  ConnIdleTimeout :: string
  ConnectionLife :: string
  EchoResponseDelay :: string
  ResponseDelay :: string
  KeepOpen :: bool
  RespondAfterRead :: bool
  ResponsePayloads :: "string list"
  ExpectedPayloadLength :: int
  ExpectedPayload :: string
  EchoResponseSize :: int
  ReadTimeoutD :: int
  WriteTimeoutD :: int
  ConnectTimeoutD :: int
  ConnIdleTimeoutD :: int
  ConnectionLifeD :: int
  EchoResponseDelayD :: int
  ResponseDelayD :: int
  tcModes :: tcp_modes
  tcStream :: tcp_stream

definition no_modes :: tcp_modes where
  "no_modes = \<lparr>tmPayload = False, tmStream = False, tmEcho = False, tmConversation = False, tmSilentLife = False, tmCloseAtFirstByte = False,
     tmValidatePayloadLength = False, tmValidatePayloadContent = False\<rparr>"

definition no_stream :: tcp_stream where
  "no_stream = \<lparr>StreamPayloadSize = [], StreamChunkSize = [], StreamChunkCount = 0, StreamChunkDelay = [], StreamDuration = [],
     StreamPayloadSizeV = 0, StreamChunkSizeV = 0, StreamChunkDelayD = 0, StreamDurationD = 0\<rparr>"

definition new_tcp_config :: "int \<Rightarrow> tcp_config" where
  "new_tcp_config port = \<lparr>tcListenerID = [], tcPort = port, ReadTimeout = [], WriteTimeout = [], ConnectTimeout = [], ConnIdleTimeout = [],
     ConnectionLife = [], EchoResponseDelay = [], ResponseDelay = [], KeepOpen = False, RespondAfterRead = False, ResponsePayloads = [],
     ExpectedPayloadLength = 0, ExpectedPayload = [], EchoResponseSize = 0, ReadTimeoutD = 0, WriteTimeoutD = 0, ConnectTimeoutD = 0,
     ConnIdleTimeoutD = 0, ConnectionLifeD = 0, EchoResponseDelayD = 0, ResponseDelayD = 0, tcModes = no_modes, tcStream = no_stream\<rparr>"

definition upd_modes :: "(tcp_modes \<Rightarrow> tcp_modes) \<Rightarrow> tcp_config \<Rightarrow> tcp_config" where
  "upd_modes f c = c\<lparr>tcModes := f (tcModes c)\<rparr>"

definition turnOffAllModes :: "tcp_config \<Rightarrow> tcp_config" where
  "turnOffAllModes = upd_modes (\<lambda>_. no_modes)"

section \<open>Streams\<close>

definition ParseDuration :: "(string \<Rightarrow> int option) \<Rightarrow> string \<Rightarrow> int" where
  "ParseDuration pd value = (case pd value of Some d \<Rightarrow> d | None \<Rightarrow> 0)"

definition Milliseconds :: "int \<Rightarrow> int" where
  "Milliseconds d = quot d 1000000"

definition go_div :: "int \<Rightarrow> int \<Rightarrow> int option" where
  "go_div a b = (if b = 0 then None else Some (wrap64 (quot a b)))"

definition computeChunkCount :: "int \<Rightarrow> int \<Rightarrow> int \<Rightarrow> int \<Rightarrow> int option" where
  "computeChunkCount payloadSize chunkSize chunkDelay streamDuration =
     (if 0 < payloadSize \<and> 0 < chunkSize then go_div payloadSize chunkSize
      else if 0 < streamDuration \<and> 0 < chunkDelay then go_div (Milliseconds streamDuration) (Milliseconds chunkDelay)
      else Some 0)"

definition computeChunkDelay :: "int \<Rightarrow> int \<Rightarrow> int \<Rightarrow> int \<Rightarrow> int option" where
  "computeChunkDelay payloadSize chunkSize chunkCount streamDuration =
     (if 0 < streamDuration then
        (if 0 < chunkCount then go_div streamDuration chunkCount
         else if 0 < payloadSize \<and> 0 < chunkSize then do { n \<leftarrow> go_div payloadSize chunkSize; go_div streamDuration n }
         else Some 0)
      else Some 0)"

definition computeChunkSize :: "int \<Rightarrow> int \<Rightarrow> int \<Rightarrow> int \<Rightarrow> int option" where
  "computeChunkSize payloadSize chunkCount chunkDelay streamDuration =
     (if 0 < payloadSize then
        (if 0 < chunkCount then go_div payloadSize chunkCount
         else if 0 < streamDuration \<and> 0 < chunkDelay
           then do { n \<leftarrow> go_div (Milliseconds streamDuration) (Milliseconds chunkDelay); go_div payloadSize n }
         else Some 0)
      else Some 0)"

definition computePayloadSize :: "int \<Rightarrow> int \<Rightarrow> int \<Rightarrow> int \<Rightarrow> int option" where
  "computePayloadSize chunkSize chunkCount chunkDelay streamDuration =
     (if 0 < chunkSize then
        (if 0 < chunkCount then Some (wrap64 (chunkSize * chunkCount))
         else if 0 < streamDuration \<and> 0 < chunkDelay
           then do { n \<leftarrow> go_div (Milliseconds streamDuration) (Milliseconds chunkDelay); Some (wrap64 (chunkSize * n)) }
         else Some 0)
      else Some 0)"

definition computeStreamDuration :: "int \<Rightarrow> int \<Rightarrow> int \<Rightarrow> int \<Rightarrow> int option" where
  "computeStreamDuration payloadSize chunkSize chunkCount chunkDelay =
     (if 0 < chunkDelay then
        (if 0 < chunkCount then Some (wrap64 (chunkDelay * chunkCount))
         else if 0 < payloadSize \<and> 0 < chunkSize
           then do { n \<leftarrow> go_div payloadSize chunkSize; Some (wrap64 (chunkDelay * n)) }
         else Some 0)
      else Some 0)"

text \<open>The parameters as they are computed: payload size, duration, chunk count, chunk size and delay.\<close>

type_synonym stream_params = "int \<times> int \<times> int \<times> int \<times> int"

definition if_zero :: "int \<Rightarrow> int option \<Rightarrow> int option" where
  "if_zero v compute = (if v = 0 then compute else Some v)"

definition or_default :: "int \<Rightarrow> int option \<Rightarrow> int option" where
  "or_default d compute = map_option (\<lambda>v. if v = 0 then d else v) compute"

definition compute_missing :: "stream_params \<Rightarrow> stream_params option" where
  "compute_missing p = (case p of (ps, sd, cc, cs, cd) \<Rightarrow> do {
     ps \<leftarrow> if_zero ps (computePayloadSize cs cc cd sd);
     sd \<leftarrow> if_zero sd (computeStreamDuration ps cs cc cd);
     cc \<leftarrow> if_zero cc (computeChunkCount ps cs cd sd);
     cs \<leftarrow> if_zero cs (computeChunkSize ps cc cd sd);
     cd \<leftarrow> if_zero cd (computeChunkDelay ps cs cc sd);
     Some (ps, sd, cc, cs, cd) })"

definition fill_defaults :: "stream_params \<Rightarrow> stream_params option" where
  "fill_defaults p = (case p of (ps, sd, cc, cs, cd) \<Rightarrow> do {
     cd \<leftarrow> if_zero cd (Some 100000000);
     cs \<leftarrow> if_zero cs (or_default 100 (computeChunkSize ps cc cd sd));
     cc \<leftarrow> if_zero cc (or_default 10 (computeChunkCount ps cs cd sd));
     ps \<leftarrow> if_zero ps (or_default 1000 (computePayloadSize cs cc cd sd));
     sd \<leftarrow> if_zero sd (or_default 1000000000 (computeStreamDuration ps cs cc cd));
     Some (ps, sd, cc, cs, cd) })"

definition drop_excess :: "stream_params \<Rightarrow> stream_params" where
  "drop_excess p = (case p of (ps, sd, cc, cs, cd) \<Rightarrow>
     (ps, sd,
      if 0 < ps \<and> 0 < cs \<and> 0 < cc \<or> 0 < sd \<and> 0 < cd \<and> 0 < cc then 0 else cc,
      if 0 < sd \<and> 0 < cd \<and> 0 < ps \<and> 0 < cs then 0 else cs, cd))"

definition stream_values :: "bool \<Rightarrow> stream_params \<Rightarrow> stream_params option" where
  "stream_values stream p = do {
     p \<leftarrow> compute_missing (drop_excess p);
     if stream then fill_defaults p else Some p }"

definition configureStreamParams ::
  "(string \<Rightarrow> int option) \<Rightarrow> (int \<Rightarrow> string) \<Rightarrow> string \<Rightarrow> string \<Rightarrow> string \<Rightarrow> string \<Rightarrow> int \<Rightarrow> tcp_config \<Rightarrow> tcp_config option" where
  "configureStreamParams pd showD sPayloadSize sChunkSize sDuration sChunkDelay chunkCount c =
     (let requested = ParseSize size_units sPayloadSize in
      map_option (\<lambda>(ps, sd, cc, cs, cd).
        c\<lparr>tcStream := (tcStream c)\<lparr>StreamChunkSizeV := cs, StreamChunkSize := Itoa cs, StreamChunkCount := cc,
             StreamChunkDelayD := cd, StreamChunkDelay := showD cd, StreamDurationD := sd, StreamDuration := showD sd, StreamPayloadSizeV := ps,
             StreamPayloadSize :=
               (if 10 < \<bar>wrap64 (requested - wrap64 (cc * cs))\<bar> then Itoa ps else StreamPayloadSize (tcStream c))\<rparr>\<rparr>)
      (stream_values (tmStream (tcModes c))
         (requested, ParseDuration pd sDuration, chunkCount, ParseSize size_units sChunkSize, ParseDuration pd sChunkDelay)))"

definition configureStream :: "(string \<Rightarrow> int option) \<Rightarrow> (int \<Rightarrow> string) \<Rightarrow> tcp_config \<Rightarrow> tcp_config option" where
  "configureStream pd showD c =
     (let s = tcStream c in
      configureStreamParams pd showD (StreamPayloadSize s) (StreamChunkSize s) (StreamDuration s) (StreamChunkDelay s) (StreamChunkCount s) c)"

section \<open>Timeouts\<close>

text \<open>A duration that is given, or the default; and whether it is rejected.\<close>

definition given_duration :: "(string \<Rightarrow> int option) \<Rightarrow> int \<Rightarrow> string \<Rightarrow> int \<times> bool" where
  "given_duration pd dflt value =
     (if value \<noteq> [] then (let d = ParseDuration pd value in (d, d < 0)) else (dflt, False))"

definition Configure :: "(string \<Rightarrow> int option) \<Rightarrow> (int \<Rightarrow> string) \<Rightarrow> tcp_config \<Rightarrow> (tcp_config \<times> bool) option" where
  "Configure pd showD c =
     (let (rt, bad1) = given_duration pd 30000000000 (ReadTimeout c);
          (wt, bad2) = given_duration pd 30000000000 (WriteTimeout c);
          (ct, bad3) = given_duration pd 30000000000 (ConnectTimeout c);
          (it, bad4) = given_duration pd 30000000000 (ConnIdleTimeout c);
          (life, bad5) = given_duration pd 0 (ConnectionLife c);
          (rd, bad6) = given_duration pd 0 (ResponseDelay c);
          (ed, bad7) = given_duration pd 0 (EchoResponseDelay c);
          c = c\<lparr>ReadTimeoutD := rt, WriteTimeoutD := wt, ConnectTimeoutD := ct, ConnIdleTimeoutD := it, ConnectionLifeD := life,
                ResponseDelayD := rd, EchoResponseDelayD := ed,
                EchoResponseSize := (if EchoResponseSize c \<le> 0 then 10 else EchoResponseSize c)\<rparr>
      in map_option (\<lambda>c. (c, bad1 \<or> bad2 \<or> bad3 \<or> bad4 \<or> bad5 \<or> bad6 \<or> bad7)) (configureStream pd showD c))"

end
