(* ===== verification/Tcp_Api.thy ===== *)
theory Tcp_Api
  imports Tcp_Config
begin

text \<open>
  The tables of the TCP server (\<open>pkg/server/tcp/tcp.go\<close>) and the handlers that change them (\<open>tcpapi.go\<close>): the configuration of a
  port, the active connections of a listener by request, and the history of connections of a port. A connection
  keeps a copy of the configuration it was accepted with; the history and the table of active connections share the connection
  objects, which \<open>thObjs\<close> holds by address. Times are integers, and a time that is not set is \<open>None\<close>.
\<close>

section \<open>Connections\<close>

record conn_status =
  csPort :: int
  csListenerID :: string
  csRequestID :: int
  ConnStartTime :: int
  ConnCloseTime :: "int option"
  FirstByteInAt :: "int option"
  LastByteInAt :: "int option"
  FirstByteOutAt :: "int option"
  LastByteOutAt :: "int option"
  TotalBytesRead :: int
  TotalBytesSent :: int
  TotalReads :: int
  TotalWrites :: int
  csClosed :: bool
  ClientClosed :: bool
  ServerClosed :: bool
  ErrorClosed :: bool
  csReadTimeout :: bool
  IdleTimeout :: bool
  LifeTimeout :: bool
  WriteErrors :: int

record tcp_conn =
  thConfig :: tcp_config
  thClosed :: bool
  thRequestID :: int
  thStatus :: conn_status
  readBuffer :: string
  writeBuffer :: string
  readText :: string
  expectedPayload :: string
  readBufferSize :: int
  writeBufferSize :: int
  thClosing :: bool

definition zero_bytes :: "int \<Rightarrow> string" where
  "zero_bytes n = replicate (nat n) (char_of (0 :: int))"

definition new_status :: "int \<Rightarrow> int \<Rightarrow> string \<Rightarrow> int \<Rightarrow> conn_status" where
  "new_status now port listenerID requestID =
     \<lparr>csPort = port, csListenerID = listenerID, csRequestID = requestID, ConnStartTime = now, ConnCloseTime = None, FirstByteInAt = None,
      LastByteInAt = None, FirstByteOutAt = None, LastByteOutAt = None, TotalBytesRead = 0, TotalBytesSent = 0, TotalReads = 0, TotalWrites = 0,
      csClosed = False, ClientClosed = False, ServerClosed = False, ErrorClosed = False, csReadTimeout = False, IdleTimeout = False,
      LifeTimeout = False, WriteErrors = 0\<rparr>"

definition new_conn :: "int \<Rightarrow> int \<Rightarrow> int \<Rightarrow> tcp_config \<Rightarrow> tcp_conn" where
  "new_conn now port requestID c =
     \<lparr>thConfig = c, thClosed = False, thRequestID = requestID, thStatus = new_status now port (tcListenerID c) requestID,
      readBuffer = zero_bytes 100, writeBuffer = zero_bytes 100, readText = [], expectedPayload = [], readBufferSize = 100,
      writeBufferSize = 100, thClosing = False\<rparr>"

definition upd_status :: "(conn_status \<Rightarrow> conn_status) \<Rightarrow> tcp_conn \<Rightarrow> tcp_conn" where
  "upd_status f h = h\<lparr>thStatus := f (thStatus h)\<rparr>"

definition closeClientConnection :: "int \<Rightarrow> tcp_conn \<Rightarrow> tcp_conn" where
  "closeClientConnection now h =
     upd_status (\<lambda>s. s\<lparr>csClosed := True, ConnCloseTime := Some now\<rparr>) (h\<lparr>thClosing := True, thClosed := True\<rparr>)"

section \<open>Tables\<close>

record tcp_state =
  tcObjs :: "tcp_config list"
  tcpListeners :: "(int, nat) gomap"
  thObjs :: "tcp_conn list"
  connectionHistory :: "(int, nat list) gomap"
  activeConnections :: "(string, (int, nat) gomap) gomap"

definition tcp_init :: tcp_state where
  "tcp_init = \<lparr>tcObjs = [], tcpListeners = [], thObjs = [], connectionHistory = [], activeConnections = []\<rparr>"

definition getTCPConfig :: "int \<Rightarrow> tcp_state \<Rightarrow> tcp_config option" where
  "getTCPConfig port st = map_option (\<lambda>a. tcObjs st ! a) (mget (tcpListeners st) port)"

definition upd_config :: "int \<Rightarrow> (tcp_config \<Rightarrow> tcp_config) \<Rightarrow> tcp_state \<Rightarrow> tcp_state" where
  "upd_config port f st =
     (case mget (tcpListeners st) port of
        None \<Rightarrow> st
      | Some a \<Rightarrow> st\<lparr>tcObjs := (tcObjs st)[a := f (tcObjs st ! a)]\<rparr>)"

definition default_mode :: "tcp_config \<Rightarrow> tcp_config" where
  "default_mode c =
     (if tcModes c = no_modes then upd_modes (\<lambda>m. if 0 < ConnectionLifeD c then m\<lparr>tmSilentLife := True\<rparr> else m\<lparr>tmEcho := True\<rparr>) c else c)"

text \<open>The object at the address \<open>a\<close> is stored for its port, or copied to the object that is there.\<close>

definition storeTCPConfig :: "(int \<Rightarrow> string) \<Rightarrow> nat \<Rightarrow> tcp_state \<Rightarrow> tcp_state" where
  "storeTCPConfig getID a st =
     (let c = tcObjs st ! a; port = tcPort c;
          c = default_mode (c\<lparr>tcListenerID := getID port\<rparr>);
          objs = (tcObjs st)[a := c];
          st = (case mget (tcpListeners st) port of
                  None \<Rightarrow> st\<lparr>tcObjs := objs, tcpListeners := mput port a (tcpListeners st)\<rparr>
                | Some b \<Rightarrow> st\<lparr>tcObjs := objs[b := c]\<rparr>)
      in if mget (connectionHistory st) port = None then st\<lparr>connectionHistory := mput port [] (connectionHistory st)\<rparr> else st)"

text \<open>The result has the address of the configuration and whether it was rejected.\<close>

definition InitTCPConfig ::
  "(string \<Rightarrow> int option) \<Rightarrow> (int \<Rightarrow> string) \<Rightarrow> (int \<Rightarrow> string) \<Rightarrow> int \<Rightarrow> tcp_config option \<Rightarrow> tcp_state \<Rightarrow> (tcp_state \<times> nat \<times> bool) option" where
  "InitTCPConfig pd showD getID port given st =
     (let c = (case given of None \<Rightarrow> new_tcp_config port | Some c \<Rightarrow> c\<lparr>tcPort := port\<rparr>); a = length (tcObjs st) in
      case Configure pd showD c of
        None \<Rightarrow> None
      | Some (c, bad) \<Rightarrow>
          (let st = st\<lparr>tcObjs := tcObjs st @ [c]\<rparr> in
           Some (if bad then st else storeTCPConfig getID a st, a, bad)))"

text \<open>The result has the address of the connection, \<open>None\<close> when the port has no configuration.\<close>

definition ServeClientConnection :: "int \<Rightarrow> int \<Rightarrow> int \<Rightarrow> tcp_state \<Rightarrow> tcp_state \<times> nat option" where
  "ServeClientConnection now port requestID st =
     (case getTCPConfig port st of
        None \<Rightarrow> (st, None)
      | Some c \<Rightarrow>
          (let a = length (thObjs st); lid = tcListenerID c in
           (st\<lparr>thObjs := thObjs st @ [new_conn now port requestID c],
               connectionHistory := mput port (mget_or [] (connectionHistory st) port @ [a]) (connectionHistory st),
               activeConnections := mput lid (mput requestID a (mget_or [] (activeConnections st) lid)) (activeConnections st)\<rparr>, Some a)))"

definition upd_conn :: "nat \<Rightarrow> (tcp_conn \<Rightarrow> tcp_conn) \<Rightarrow> tcp_state \<Rightarrow> tcp_state" where
  "upd_conn a f st = st\<lparr>thObjs := (thObjs st)[a := f (thObjs st ! a)]\<rparr>"

definition CloseListenerConnections :: "int \<Rightarrow> string \<Rightarrow> tcp_state \<Rightarrow> tcp_state" where
  "CloseListenerConnections now lid st =
     (let close = (\<lambda>h. closeClientConnection now (upd_status (\<lambda>s. s\<lparr>ServerClosed := True\<rparr>) h));
          st = fold (\<lambda>(_, a). upd_conn a close) (mget_or [] (activeConnections st) lid) st
      in st\<lparr>activeConnections := mdel lid (activeConnections st)\<rparr>)"

definition CloseClientConnection :: "int \<Rightarrow> string \<Rightarrow> int \<Rightarrow> tcp_state \<Rightarrow> tcp_state" where
  "CloseClientConnection now lid requestID st =
     (case mget (activeConnections st) lid of
        None \<Rightarrow> st
      | Some conns \<Rightarrow>
          (let (st, conns) =
                 (case mget conns requestID of
                    None \<Rightarrow> (st, conns)
                  | Some a \<Rightarrow> (upd_conn a (closeClientConnection now) st, mdel requestID conns))
           in st\<lparr>activeConnections := (if conns = [] then mdel lid (activeConnections st) else mput lid conns (activeConnections st))\<rparr>))"

section \<open>Handlers\<close>

definition port_var :: "request \<Rightarrow> int" where
  "port_var r = GetIntParamValue r ''port'' None"

definition ValidateListener :: "(int \<Rightarrow> bool) \<Rightarrow> request \<Rightarrow> bool" where
  "ValidateListener present r \<longleftrightarrow> present (port_var r)"

definition reject :: "string \<Rightarrow> http_out" where
  "reject event = SendEvent event (WriteHeader 400 no_out)"

text \<open>A handler for a TCP port: it is called only if the port has a listener and a configuration.\<close>

definition validateTCPListener :: "(int \<Rightarrow> bool) \<Rightarrow> request \<Rightarrow> tcp_state \<Rightarrow> bool" where
  "validateTCPListener present r st \<longleftrightarrow> ValidateListener present r \<and> mget (tcpListeners st) (port_var r) \<noteq> None"

definition for_tcp :: "(int \<Rightarrow> bool) \<Rightarrow> request \<Rightarrow> (tcp_state \<Rightarrow> (tcp_state \<times> http_out) option) \<Rightarrow> tcp_state \<Rightarrow> (tcp_state \<times> http_out) option" where
  "for_tcp present r f st =
     (if validateTCPListener present r st then f st else Some (st, reject ''TCP Configuration Rejected''))"

definition configureTCP ::
  "(string \<Rightarrow> int option) \<Rightarrow> (int \<Rightarrow> string) \<Rightarrow> (int \<Rightarrow> bool) \<Rightarrow> (int \<Rightarrow> string) \<Rightarrow> tcp_config option \<Rightarrow> request \<Rightarrow> tcp_state \<Rightarrow> (tcp_state \<times> http_out) option" where
  "configureTCP pd showD present getID body r st =
     (if \<not> ValidateListener present r then Some (st, reject ''TCP Configuration Rejected'')
      else case body of
             None \<Rightarrow> Some (st, reject ''TCP Configuration Rejected'')
           | Some c \<Rightarrow>
               map_option (\<lambda>(st, _, bad). (st, if bad then WriteHeader 400 no_out else SendEvent ''TCP Configured'' no_out))
                 (InitTCPConfig pd showD getID (port_var r) (Some c) st))"

definition duration_update :: "string \<Rightarrow> int \<Rightarrow> tcp_config \<Rightarrow> tcp_config" where
  "duration_update uri d c =
     (if Contains uri ''connection/set/life'' then c\<lparr>ConnectionLifeD := d\<rparr>
      else if Contains uri ''timeout/set/read'' then c\<lparr>ReadTimeoutD := d\<rparr>
      else if Contains uri ''timeout/set/write'' then c\<lparr>WriteTimeoutD := d\<rparr>
      else if Contains uri ''timeout/set/idle'' then c\<lparr>ConnIdleTimeoutD := d\<rparr>
      else if Contains uri ''echo/response/set/delay'' then c\<lparr>EchoResponseDelayD := d\<rparr>
      else c)"

definition setConnectionDurationConfig :: "(string \<Rightarrow> int option) \<Rightarrow> (int \<Rightarrow> bool) \<Rightarrow> request \<Rightarrow> tcp_state \<Rightarrow> (tcp_state \<times> http_out) option" where
  "setConnectionDurationConfig pd present r = for_tcp present r (\<lambda>st.
     let d = ParseDuration pd (GetStringParamValue r ''duration'' None) in
     Some (if 0 \<le> d then (upd_config (port_var r) (duration_update (RequestURI r) d) st, SendEvent ''TCP Connection Duration Configured'' no_out)
           else (st, reject ''TCP Connection Duration Configured'')))"

definition setStreamConfig ::
  "(string \<Rightarrow> int option) \<Rightarrow> (int \<Rightarrow> string) \<Rightarrow> (int \<Rightarrow> bool) \<Rightarrow> request \<Rightarrow> tcp_state \<Rightarrow> (tcp_state \<times> http_out) option" where
  "setStreamConfig pd showD present r = for_tcp present r (\<lambda>st.
     let payloadSize = GetStringParamValue r ''payloadSize'' None; chunkSize = GetStringParamValue r ''chunkSize'' None;
         chunkCount = GetIntParamValue r ''chunkCount'' None; duration = GetStringParamValue r ''duration'' None;
         delay = GetStringParamValue r ''delay'' None
     in if chunkSize = [] \<and> payloadSize = [] \<or> duration = [] \<and> chunkCount = 0
        then Some (st, reject ''TCP Streaming Configured'')
        else case getTCPConfig (port_var r) st of
               None \<Rightarrow> None
             | Some c \<Rightarrow>
                 map_option (\<lambda>c. (upd_config (port_var r) (\<lambda>_. upd_modes (\<lambda>m. m\<lparr>tmStream := True\<rparr>) (turnOffAllModes c)) st,
                                  SendEvent ''TCP Streaming Configured'' no_out))
                   (configureStreamParams pd showD payloadSize chunkSize duration delay chunkCount c))"

definition setExpectedPayloadLength :: "(int \<Rightarrow> bool) \<Rightarrow> request \<Rightarrow> tcp_state \<Rightarrow> (tcp_state \<times> http_out) option" where
  "setExpectedPayloadLength present r = for_tcp present r (\<lambda>st.
     Some (upd_config (port_var r) (\<lambda>c. (upd_modes (\<lambda>m. m\<lparr>tmValidatePayloadLength := True\<rparr>) (turnOffAllModes c))
             \<lparr>ExpectedPayloadLength := GetIntParamValue r ''length'' None, ExpectedPayload := []\<rparr>) st,
           SendEvent ''TCP Expected Payload Configured'' no_out))"

definition setExpectedPayload :: "(int \<Rightarrow> bool) \<Rightarrow> string \<Rightarrow> request \<Rightarrow> tcp_state \<Rightarrow> (tcp_state \<times> http_out) option" where
  "setExpectedPayload present body r = for_tcp present r (\<lambda>st.
     Some (upd_config (port_var r)
             (\<lambda>c. (upd_modes (\<lambda>m. m\<lparr>tmValidatePayloadLength := True, tmValidatePayloadContent := True\<rparr>) (turnOffAllModes c))
               \<lparr>ExpectedPayload := body, ExpectedPayloadLength := int (length body)\<rparr>) st,
           SendEvent ''TCP Expected Payload Configured'' no_out))"

definition configurePayloadValidation :: "(int \<Rightarrow> bool) \<Rightarrow> request \<Rightarrow> tcp_state \<Rightarrow> (tcp_state \<times> http_out) option" where
  "configurePayloadValidation present r = for_tcp present r (\<lambda>st.
     Some (upd_config (port_var r)
             (\<lambda>c. if GetBoolParamValue r ''enable'' None
                  then upd_modes (\<lambda>m. m\<lparr>tmValidatePayloadLength := True, tmValidatePayloadContent := ExpectedPayload c \<noteq> []\<rparr>) (turnOffAllModes c)
                  else upd_modes (\<lambda>m. m\<lparr>tmValidatePayloadLength := False, tmValidatePayloadContent := False\<rparr>) c) st,
           SendEvent ''TCP Payload Validation Configured'' no_out))"

text \<open>What enabling or disabling a mode does to a configuration; a mode that is enabled is the only one.\<close>

definition set_mode ::
  "(string \<Rightarrow> int option) \<Rightarrow> (int \<Rightarrow> string) \<Rightarrow> bool \<Rightarrow> string \<Rightarrow> bool \<Rightarrow> tcp_config \<Rightarrow> tcp_config option" where
  "set_mode pd showD isPayload mode enable c0 =
     (let c = (if enable then turnOffAllModes c0 else c0) in
      if isPayload then
        (let c = upd_modes (\<lambda>m. m\<lparr>tmPayload := enable\<rparr>) c in if enable then map_option fst (Configure pd showD c) else Some c)
      else if mode = ''stream'' then
        (let c = upd_modes (\<lambda>m. m\<lparr>tmStream := enable\<rparr>) c in if enable then configureStream pd showD c else Some c)
      else if mode = ''echo'' then
        (let c = upd_modes (\<lambda>m. m\<lparr>tmEcho := enable\<rparr>) c in if enable then map_option fst (Configure pd showD c) else Some c)
      else if mode = ''conversation'' then Some (upd_modes (\<lambda>m. m\<lparr>tmConversation := enable\<rparr>) c)
      else if mode = ''silentlife'' then Some (upd_modes (\<lambda>m. m\<lparr>tmSilentLife := enable\<rparr>) c)
      else if mode = ''closeatfirst'' then Some (upd_modes (\<lambda>m. m\<lparr>tmCloseAtFirstByte := enable\<rparr>) c)
      else Some c)"

definition setModes :: "(string \<Rightarrow> int option) \<Rightarrow> (int \<Rightarrow> string) \<Rightarrow> (int \<Rightarrow> bool) \<Rightarrow> request \<Rightarrow> tcp_state \<Rightarrow> (tcp_state \<times> http_out) option" where
  "setModes pd showD present r = for_tcp present r (\<lambda>st.
     case getTCPConfig (port_var r) st of
       None \<Rightarrow> None
     | Some c \<Rightarrow>
         map_option (\<lambda>c. (upd_config (port_var r) (\<lambda>_. c) st, SendEvent ''TCP Mode Configured'' no_out))
           (set_mode pd showD (Contains (RequestURI r) ''payload'') (GetStringParamValue r ''mode'' None) (GetBoolParamValue r ''enable'' None) c))"

definition clearConnectionHistory :: "request \<Rightarrow> tcp_state \<Rightarrow> tcp_state \<times> http_out" where
  "clearConnectionHistory r st =
     (let port = port_var r in
      if 0 < port
      then (st\<lparr>connectionHistory := mput port [] (connectionHistory st)\<rparr>,
            SendEvent (''TCP Connection History Cleared for port '' @ Itoa port) no_out)
      else (st\<lparr>connectionHistory := []\<rparr>, SendEvent ''TCP Connection History Cleared'' no_out))"

section \<open>Reports\<close>

definition isMode :: "tcp_config \<Rightarrow> string \<Rightarrow> bool" where
  "isMode c mode =
     (let m = tcModes c;
          actual = (if tmPayload m then ''Payload'' else if tmConversation m then ''Conversation'' else if tmEcho m then ''Echo''
                    else if tmStream m then ''Stream'' else if tmValidatePayloadLength m \<or> tmValidatePayloadContent m then ''Payload''
                    else if tmSilentLife m then ''SilentLife'' else if tmCloseAtFirstByte m then ''CloseAtFirstByte'' else [])
      in Contains (ToLower actual) (ToLower mode))"

definition history_of :: "string \<Rightarrow> tcp_state \<Rightarrow> nat list \<Rightarrow> (int, nat) gomap" where
  "history_of mode st as =
     fold (\<lambda>a m. if mode = [] \<or> isMode (thConfig (thObjs st ! a)) mode then mput (csRequestID (thStatus (thObjs st ! a))) a m else m) as []"

definition getConnectionHistory :: "request \<Rightarrow> tcp_state \<Rightarrow> (int, (int, nat) gomap) gomap" where
  "getConnectionHistory r st =
     (let port = port_var r; mode = GetStringParamValue r ''mode'' None in
      if 0 < port then
        (case mget (connectionHistory st) port of None \<Rightarrow> [] | Some as \<Rightarrow> [(port, history_of mode st as)])
      else map (\<lambda>(p, as). (p, history_of mode st as)) (connectionHistory st))"

definition getActiveConnections :: "(int \<Rightarrow> string) \<Rightarrow> request \<Rightarrow> tcp_state \<Rightarrow> (int, (int, nat) gomap) gomap" where
  "getActiveConnections getID r st =
     (let port = port_var r in
      if 0 < port then [(port, fold (\<lambda>(rid, a). mput rid a) (mget_or [] (activeConnections st) (getID port)) [])]
      else fold (\<lambda>(_, conns). fold (\<lambda>(rid, a) m. let p = tcPort (thConfig (thObjs st ! a)) in mput p (mput rid a (mget_or [] m p)) m) conns)
             (activeConnections st) [])"

section \<open>Active connections\<close>

definition conn_ids :: "tcp_conn \<Rightarrow> string \<times> int" where
  "conn_ids h = (tcListenerID (thConfig h), thRequestID h)"

definition is_active :: "tcp_state \<Rightarrow> string \<Rightarrow> int \<Rightarrow> nat \<Rightarrow> bool" where
  "is_active st lid rid a \<longleftrightarrow> mget (mget_or [] (activeConnections st) lid) rid = Some a"

definition is_open :: "tcp_state \<Rightarrow> nat \<Rightarrow> bool" where
  "is_open st a \<longleftrightarrow> a < length (thObjs st) \<and> \<not> thClosed (thObjs st ! a)"

definition conns_ok :: "int \<Rightarrow> tcp_state \<Rightarrow> bool" where
  "conns_ok n st \<longleftrightarrow>
     (\<forall>lid conns. mget (activeConnections st) lid = Some conns \<longrightarrow> conns \<noteq> [] \<and> mwf conns) \<and>
     (\<forall>lid rid a. is_active st lid rid a \<longleftrightarrow> is_open st a \<and> conn_ids (thObjs st ! a) = (lid, rid)) \<and>
     (\<forall>h \<in> set (thObjs st). thRequestID h \<le> n)"

definition same_conns :: "tcp_state \<Rightarrow> tcp_state \<Rightarrow> bool" where
  "same_conns st st' \<longleftrightarrow> thObjs st' = thObjs st \<and> activeConnections st' = activeConnections st"

lemma same_conns_ok: "same_conns st st' \<Longrightarrow> conns_ok n st \<Longrightarrow> conns_ok n st'"
  by (simp add: same_conns_def conns_ok_def is_active_def is_open_def)

lemma same_conns_refl [simp]: "same_conns st st"
  by (simp add: same_conns_def)

lemma same_conns_upd_config [simp]: "same_conns st (upd_config port f st)"
  by (simp add: same_conns_def upd_config_def split: option.split)

lemma same_conns_store: "same_conns st (storeTCPConfig getID a st)"
  by (simp add: same_conns_def storeTCPConfig_def Let_def split: option.split)

lemma same_conns_InitTCPConfig:
  assumes "InitTCPConfig pd showD getID port given st = Some (st', a, bad)"
  shows "same_conns st st'"
proof -
  have "same_conns st (storeTCPConfig getID b (st\<lparr>tcObjs := cs\<rparr>))" for b cs
    using same_conns_store [of "st\<lparr>tcObjs := cs\<rparr>" getID b] by (simp add: same_conns_def)
  moreover have "same_conns st (st\<lparr>tcObjs := cs\<rparr>)" for cs by (simp add: same_conns_def)
  ultimately show ?thesis using assms by (auto simp: InitTCPConfig_def Let_def split: option.splits prod.splits if_splits)
qed

lemma same_conns_for_tcp:
  assumes "for_tcp present r f st = Some (st', w)" and "\<And>st1 w1. f st = Some (st1, w1) \<Longrightarrow> same_conns st st1"
  shows "same_conns st st'"
  using assms by (auto simp: for_tcp_def split: if_splits)

lemma same_conns_handlers:
  "setConnectionDurationConfig pd present r st = Some (st', w) \<Longrightarrow> same_conns st st'"
  "setStreamConfig pd showD present r st = Some (st', w) \<Longrightarrow> same_conns st st'"
  "setExpectedPayloadLength present r st = Some (st', w) \<Longrightarrow> same_conns st st'"
  "setExpectedPayload present body r st = Some (st', w) \<Longrightarrow> same_conns st st'"
  "configurePayloadValidation present r st = Some (st', w) \<Longrightarrow> same_conns st st'"
  "setModes pd showD present r st = Some (st', w) \<Longrightarrow> same_conns st st'"
  unfolding setConnectionDurationConfig_def setStreamConfig_def setExpectedPayloadLength_def setExpectedPayload_def
    configurePayloadValidation_def setModes_def
  by (erule same_conns_for_tcp; auto simp: Let_def split: if_splits option.splits)+

lemma same_conns_configureTCP: "configureTCP pd showD present getID body r st = Some (st', w) \<Longrightarrow> same_conns st st'"
  by (auto simp: configureTCP_def split: if_splits option.splits intro: same_conns_InitTCPConfig)

lemma same_conns_clear: "same_conns st (fst (clearConnectionHistory r st))"
  by (simp add: clearConnectionHistory_def same_conns_def Let_def)

lemma serve_ok:
  assumes "conns_ok n st"
  shows "conns_ok (n + 1) (fst (ServeClientConnection now port (n + 1) st))"
proof (cases "getTCPConfig port st")
  case None
  then show ?thesis using assms by (auto simp: ServeClientConnection_def conns_ok_def)
next
  case (Some c)
  let ?st = "fst (ServeClientConnection now port (n + 1) st)" and ?h = "new_conn now port (n + 1) c" and ?lid = "tcListenerID c"
  have objs: "thObjs ?st = thObjs st @ [?h]"
    and act: "activeConnections ?st = mput ?lid (mput (n + 1) (length (thObjs st)) (mget_or [] (activeConnections st) ?lid)) (activeConnections st)"
    using Some by (simp_all add: ServeClientConnection_def Let_def)
  have new: "conn_ids ?h = (?lid, n + 1)" "\<not> thClosed ?h" "thRequestID ?h = n + 1" by (simp_all add: new_conn_def conn_ids_def)
  have old: "thRequestID (thObjs st ! a) \<noteq> n + 1" if "a < length (thObjs st)" for a
  proof -
    have "thRequestID (thObjs st ! a) \<le> n" using assms nth_mem [OF that] by (simp add: conns_ok_def)
    then show ?thesis by simp
  qed
  have active: "is_active st lid rid a \<longleftrightarrow> is_open st a \<and> conn_ids (thObjs st ! a) = (lid, rid)" for lid rid a
    using assms by (simp add: conns_ok_def)
  have wf: "mwf (mget_or [] (activeConnections st) lid)" for lid
    using assms by (auto simp: conns_ok_def mget_or_def split: option.split)
  have "is_active ?st lid rid a \<longleftrightarrow> is_open ?st a \<and> conn_ids (thObjs ?st ! a) = (lid, rid)" for lid rid a
  proof (cases "lid = ?lid \<and> rid = n + 1")
    case True
    then show ?thesis using old [of a] new by (auto simp: is_active_def act is_open_def objs nth_append conn_ids_def)
  next
    case False
    then have "is_active ?st lid rid a \<longleftrightarrow> is_active st lid rid a" by (auto simp: is_active_def act)
    with False show ?thesis using active [of lid rid a] new by (auto simp: is_open_def objs nth_append)
  qed
  moreover have "conns \<noteq> [] \<and> mwf conns" if "mget (activeConnections ?st) lid = Some conns" for lid conns
    using that assms wf by (auto simp: act conns_ok_def split: if_splits)
  ultimately show ?thesis using assms new(3) unfolding conns_ok_def objs by fastforce
qed

lemma upd_status_sel [simp]:
  "thClosed (upd_status f h) = thClosed h" "conn_ids (upd_status f h) = conn_ids h" "thRequestID (upd_status f h) = thRequestID h"
  by (simp_all add: upd_status_def conn_ids_def)

lemma closeClient_sel [simp]:
  "thClosed (closeClientConnection now h)" "conn_ids (closeClientConnection now h) = conn_ids h"
  "thRequestID (closeClientConnection now h) = thRequestID h"
  by (simp_all add: closeClientConnection_def upd_status_def conn_ids_def)

lemma closeClient_ok:
  assumes "conns_ok n st"
  shows "conns_ok n (CloseClientConnection now lid rid st)"
proof (cases "\<exists>a. is_active st lid rid a")
  case False
  then have "mget (mget_or [] (activeConnections st) lid) rid = None" by (simp add: is_active_def)
  moreover have "conns \<noteq> []" if "mget (activeConnections st) lid = Some conns" for conns using assms that by (simp add: conns_ok_def)
  ultimately have "thObjs (CloseClientConnection now lid rid st) = thObjs st"
    "mget (activeConnections (CloseClientConnection now lid rid st)) l = mget (activeConnections st) l" for l
    by (auto simp: CloseClientConnection_def mget_or_def split: option.splits)
  then show ?thesis using assms by (simp add: conns_ok_def is_active_def is_open_def mget_or_def)
next
  case True
  then obtain a conns where a: "is_active st lid rid a" and conns: "mget (activeConnections st) lid = Some conns" "mget conns rid = Some a"
    by (auto simp: is_active_def mget_or_def split: option.splits)
  have active: "is_active st l i b \<longleftrightarrow> is_open st b \<and> conn_ids (thObjs st ! b) = (l, i)" for l i b
    using assms by (simp add: conns_ok_def)
  have la: "a < length (thObjs st)" and ids: "conn_ids (thObjs st ! a) = (lid, rid)" using a active by (auto simp: is_open_def)
  let ?st = "CloseClientConnection now lid rid st"
  have objs: "thObjs ?st = (thObjs st)[a := closeClientConnection now (thObjs st ! a)]"
    and act: "mget (activeConnections ?st) l = (if l = lid then if mdel rid conns = [] then None else Some (mdel rid conns) else mget (activeConnections st) l)" for l
    using conns by (simp_all add: CloseClientConnection_def upd_conn_def)
  have is_act: "is_active ?st l i b \<longleftrightarrow> is_active st l i b \<and> (l, i) \<noteq> (lid, rid)" for l i b
  proof (cases "l = lid")
    case True
    have "mget (mget_or [] (activeConnections ?st) lid) i = mget (mdel rid conns) i"
      using act [of lid] mdel_get [of rid conns i] by (cases "mdel rid conns = []") (simp_all add: mget_or_def del: mdel_get)
    then show ?thesis using True conns(1) by (auto simp: is_active_def mget_or_def)
  qed (simp add: is_active_def mget_or_def act)
  have "is_active ?st l i b \<longleftrightarrow> is_open ?st b \<and> conn_ids (thObjs ?st ! b) = (l, i)" for l i b
  proof (cases "b = a")
    case True
    then show ?thesis using la ids active [of l i a] by (auto simp: is_act is_open_def objs)
  next
    case False
    have "(l, i) \<noteq> (lid, rid)" if "is_active st l i b" using that a False by (auto simp: is_active_def)
    then show ?thesis using False active [of l i b] by (auto simp: is_act is_open_def objs nth_list_update)
  qed
  moreover have "cs \<noteq> [] \<and> mwf cs" if "mget (activeConnections ?st) l = Some cs" for l cs
    using that assms conns(1) by (auto simp: act conns_ok_def split: if_splits)
  moreover have "thRequestID h \<le> n" if "h \<in> set (thObjs ?st)" for h
    using that assms la set_update_subset_insert [of "thObjs st" a "closeClientConnection now (thObjs st ! a)"]
    by (auto simp: objs conns_ok_def)
  ultimately show ?thesis unfolding conns_ok_def by blast
qed

text \<open>Closing the connections in a list closes exactly these.\<close>

lemma fold_upd_conn:
  assumes "\<And>h. thClosed (f h)" and "\<And>h. conn_ids (f h) = conn_ids h"
  shows "length (thObjs (fold (\<lambda>(_, a). upd_conn a f) l st)) = length (thObjs st) \<and>
    activeConnections (fold (\<lambda>(_, a). upd_conn a f) l st) = activeConnections st \<and>
    (b < length (thObjs st) \<longrightarrow>
       conn_ids (thObjs (fold (\<lambda>(_, a). upd_conn a f) l st) ! b) = conn_ids (thObjs st ! b) \<and>
       (thClosed (thObjs (fold (\<lambda>(_, a). upd_conn a f) l st) ! b) \<longleftrightarrow> thClosed (thObjs st ! b) \<or> b \<in> snd ` set l))"
proof (induction l arbitrary: st)
  case (Cons x l)
  obtain k a where x: "x = (k, a)" by fastforce
  have "length (thObjs (upd_conn a f st)) = length (thObjs st)" "activeConnections (upd_conn a f st) = activeConnections st"
    by (simp_all add: upd_conn_def)
  moreover have "conn_ids (thObjs (upd_conn a f st) ! b) = conn_ids (thObjs st ! b) \<and>
      (thClosed (thObjs (upd_conn a f st) ! b) \<longleftrightarrow> thClosed (thObjs st ! b) \<or> b = a)" if "b < length (thObjs st)"
    using that assms by (cases "b = a") (simp_all add: upd_conn_def)
  ultimately show ?case using Cons.IH [of "upd_conn a f st"] by (auto simp: x)
qed simp

lemma closeListener_result:
  fixes now lid st
  defines "st' \<equiv> CloseListenerConnections now lid st"
  shows "length (thObjs st') = length (thObjs st)" and "activeConnections st' = mdel lid (activeConnections st)"
    and "b < length (thObjs st) \<Longrightarrow> conn_ids (thObjs st' ! b) = conn_ids (thObjs st ! b)"
    and "b < length (thObjs st) \<Longrightarrow> thClosed (thObjs st' ! b) \<longleftrightarrow> thClosed (thObjs st ! b) \<or> b \<in> snd ` set (mget_or [] (activeConnections st) lid)"
proof -
  let ?f = "\<lambda>h. closeClientConnection now (upd_status (\<lambda>s. s\<lparr>ServerClosed := True\<rparr>) h)"
  have f: "thClosed (?f h)" "conn_ids (?f h) = conn_ids h" for h by simp_all
  note r = fold_upd_conn [of ?f "mget_or [] (activeConnections st) lid" st b, OF f]
  show "length (thObjs st') = length (thObjs st)" "activeConnections st' = mdel lid (activeConnections st)"
    using r by (simp_all add: st'_def CloseListenerConnections_def Let_def)
  show "conn_ids (thObjs st' ! b) = conn_ids (thObjs st ! b)" if "b < length (thObjs st)"
    using r that by (simp add: st'_def CloseListenerConnections_def Let_def)
  show "thClosed (thObjs st' ! b) \<longleftrightarrow> thClosed (thObjs st ! b) \<or> b \<in> snd ` set (mget_or [] (activeConnections st) lid)"
    if "b < length (thObjs st)"
    using r that by (simp add: st'_def CloseListenerConnections_def Let_def)
qed

lemma active_addresses:
  assumes "conns_ok n st"
  shows "b \<in> snd ` set (mget_or [] (activeConnections st) lid) \<longleftrightarrow> (\<exists>rid. is_active st lid rid b)"
proof -
  have "mwf (mget_or [] (activeConnections st) lid)"
    using assms by (auto simp: conns_ok_def mget_or_def split: option.split)
  then show ?thesis by (force simp: is_active_def mwf_get_iff)
qed

lemma closeListener_ok:
  assumes "conns_ok n st"
  shows "conns_ok n (CloseListenerConnections now lid st)"
proof -
  let ?st = "CloseListenerConnections now lid st"
  note r = closeListener_result [where now = now and lid = lid and st = st]
  have active: "is_active st l i b \<longleftrightarrow> is_open st b \<and> conn_ids (thObjs st ! b) = (l, i)" for l i b
    using assms by (simp add: conns_ok_def)
  have "is_active ?st l i b \<longleftrightarrow> is_active st l i b \<and> l \<noteq> lid" for l i b
    by (auto simp: is_active_def r(2))
  moreover have "is_open ?st b \<longleftrightarrow> is_open st b \<and> fst (conn_ids (thObjs st ! b)) \<noteq> lid" for b
  proof (cases "b < length (thObjs st)")
    case True
    then have "thClosed (thObjs ?st ! b) \<longleftrightarrow> thClosed (thObjs st ! b) \<or> (\<exists>rid. is_active st lid rid b)"
      using r(4) active_addresses [OF assms] by simp
    then show ?thesis using True active by (cases "conn_ids (thObjs st ! b)") (auto simp: is_open_def r(1))
  qed (simp add: is_open_def r(1))
  moreover have "conn_ids (thObjs ?st ! b) = conn_ids (thObjs st ! b)" if "is_open st b" for b
    using that r(3) by (simp add: is_open_def)
  ultimately have "is_active ?st l i b \<longleftrightarrow> is_open ?st b \<and> conn_ids (thObjs ?st ! b) = (l, i)" for l i b
    using active [of l i b] by auto
  moreover have "cs \<noteq> [] \<and> mwf cs" if "mget (activeConnections ?st) l = Some cs" for l cs
    using that assms by (auto simp: r(2) conns_ok_def split: if_splits)
  moreover have "thRequestID h \<le> n" if "h \<in> set (thObjs ?st)" for h
  proof -
    from that obtain b where b: "b < length (thObjs st)" "h = thObjs ?st ! b" by (auto simp: in_set_conv_nth r(1))
    then have "thRequestID h = thRequestID (thObjs st ! b)" using r(3) [OF b(1)] by (simp add: conn_ids_def)
    then show ?thesis using assms b(1) by (simp add: conns_ok_def)
  qed
  ultimately show ?thesis unfolding conns_ok_def by blast
qed

end
