(* ===== verification/Tcp_Handler.thy ===== *)
theory Tcp_Handler
  imports Tcp_Api
begin

text \<open>
  Serving a TCP connection (\<open>pkg/server/tcp/tcpHandler.go\<close>). What the connection and the clock answer is a \<open>tcp_world\<close>: the
  result of every read by its number, and by a running number whether the listener is open, what a write
  accepts and the time. Deadlines and pauses have no other effect. \<open>ioOut\<close> lists the data that was accepted by
  the connection. The loops end when the connection does: they are \<open>partial_function\<close>s, and a panic is \<open>None\<close> too.
\<close>

datatype read_result = RData string | REOF | RTimeout | RClosed | RError

record tcp_world =
  wRead :: "nat \<Rightarrow> read_result"
  wScan :: "nat \<Rightarrow> string option"
  wOpen :: "nat \<Rightarrow> bool"
  wWrite :: "nat \<Rightarrow> string \<Rightarrow> int option"
  wNow :: "nat \<Rightarrow> int"
  wHost :: string

record tcp_io =
  ioConn :: tcp_conn
  ioReads :: nat
  ioTick :: nat
  ioOut :: "string list"

section \<open>Buffers\<close>

definition go_slice :: "string \<Rightarrow> int \<Rightarrow> int \<Rightarrow> string option" where
  "go_slice b i j = (if 0 \<le> i \<and> i \<le> j \<and> j \<le> int (length b) then Some (take (nat (j - i)) (drop (nat i) b)) else None)"

definition go_copy :: "string \<Rightarrow> int \<Rightarrow> int \<Rightarrow> string \<Rightarrow> string option" where
  "go_copy b i j src =
     (case go_slice b i j of
        None \<Rightarrow> None
      | Some dst \<Rightarrow> (let n = min (length dst) (length src) in Some (take (nat i) b @ take n src @ drop (nat i + n) b)))"

definition CopyInputHeadToOutput :: "string \<Rightarrow> string \<Rightarrow> int \<Rightarrow> int \<Rightarrow> int \<Rightarrow> string option" where
  "CopyInputHeadToOutput out inp inHead outFrom outTo = do { src \<leftarrow> go_slice inp 0 inHead; go_copy out outFrom outTo src }"

definition CopyInputTailToOutput :: "string \<Rightarrow> string \<Rightarrow> int \<Rightarrow> int \<Rightarrow> int \<Rightarrow> string option" where
  "CopyInputTailToOutput out inp tail outFrom outTo = do { src \<leftarrow> go_slice inp tail (int (length inp)); go_copy out outFrom outTo src }"

definition upd_io :: "(tcp_conn \<Rightarrow> tcp_conn) \<Rightarrow> tcp_io \<Rightarrow> tcp_io" where
  "upd_io f s = s\<lparr>ioConn := f (ioConn s)\<rparr>"

definition resetReadBuffer :: "tcp_conn \<Rightarrow> tcp_conn" where
  "resetReadBuffer h = h\<lparr>readBuffer := zero_bytes (readBufferSize h), readText := []\<rparr>"

definition resetWriteBuffer :: "tcp_conn \<Rightarrow> tcp_conn option" where
  "resetWriteBuffer h = (if writeBufferSize h < 0 then None else Some (h\<lparr>writeBuffer := zero_bytes (writeBufferSize h)\<rparr>))"

definition copy_head :: "int \<Rightarrow> int \<Rightarrow> int \<Rightarrow> tcp_io \<Rightarrow> tcp_io option" where
  "copy_head inHead outFrom outTo s =
     map_option (\<lambda>b. upd_io (\<lambda>h. h\<lparr>writeBuffer := b\<rparr>) s)
       (CopyInputHeadToOutput (writeBuffer (ioConn s)) (readBuffer (ioConn s)) inHead outFrom outTo)"

definition copy_tail :: "int \<Rightarrow> int \<Rightarrow> int \<Rightarrow> tcp_io \<Rightarrow> tcp_io option" where
  "copy_tail tail outFrom outTo s =
     map_option (\<lambda>b. upd_io (\<lambda>h. h\<lparr>writeBuffer := b\<rparr>) s)
       (CopyInputTailToOutput (writeBuffer (ioConn s)) (readBuffer (ioConn s)) tail outFrom outTo)"

section \<open>Reading and writing\<close>

definition tick :: "tcp_io \<Rightarrow> tcp_io" where
  "tick s = s\<lparr>ioTick := Suc (ioTick s)\<rparr>"

definition GetConnectionRemainingLife :: "int \<Rightarrow> int \<Rightarrow> int \<Rightarrow> int \<Rightarrow> int \<Rightarrow> int" where
  "GetConnectionRemainingLife now startTime connectionLife readTimeout connIdleTimeout =
     (if connectionLife \<le> 0 \<and> readTimeout \<le> 0 \<and> connIdleTimeout \<le> 0 then 86400000000000
      else
        (let life = (if 0 < connectionLife then connectionLife - (now - startTime) else 0);
             life = (if 0 < readTimeout \<and> (connectionLife = 0 \<or> readTimeout < life) then readTimeout else life)
         in if 0 < connIdleTimeout \<and> (connectionLife = 0 \<and> readTimeout = 0 \<or> connIdleTimeout < life) then connIdleTimeout else life))"

definition isClosingOrClosed :: "tcp_world \<Rightarrow> tcp_io \<Rightarrow> tcp_io \<times> bool" where
  "isClosingOrClosed W s = (tick s, thClosing (ioConn s) \<or> thClosed (ioConn s) \<or> \<not> wOpen W (ioTick s))"

definition io_status :: "(conn_status \<Rightarrow> conn_status) \<Rightarrow> tcp_io \<Rightarrow> tcp_io" where
  "io_status f = upd_io (upd_status f)"

definition processConnectionError :: "tcp_world \<Rightarrow> read_result \<Rightarrow> tcp_io \<Rightarrow> tcp_io" where
  "processConnectionError W err s =
     (let s = upd_io (\<lambda>h. h\<lparr>thClosing := True\<rparr>) s; c = thConfig (ioConn s) in
      case err of
        REOF \<Rightarrow> io_status (\<lambda>t. t\<lparr>ClientClosed := True\<rparr>) s
      | _ \<Rightarrow>
          (let s = io_status (\<lambda>t. t\<lparr>ServerClosed := True\<rparr>) s in
           case err of
             RClosed \<Rightarrow> s
           | RTimeout \<Rightarrow>
               (let balanceLife = GetConnectionRemainingLife (wNow W (ioTick s)) (ConnStartTime (thStatus (ioConn s))) (ConnectionLifeD c)
                      (ReadTimeoutD c) (ConnIdleTimeoutD c);
                    s = tick s
                in if balanceLife < 0 then io_status (\<lambda>t. t\<lparr>LifeTimeout := True\<rparr>) s
                   else if ConnIdleTimeoutD c < ReadTimeoutD c then io_status (\<lambda>t. t\<lparr>IdleTimeout := True\<rparr>) s
                   else io_status (\<lambda>t. t\<lparr>csReadTimeout := True\<rparr>) s)
           | _ \<Rightarrow> io_status (\<lambda>t. t\<lparr>ErrorClosed := True\<rparr>) s))"

definition got_bytes :: "int \<Rightarrow> int \<Rightarrow> conn_status \<Rightarrow> conn_status" where
  "got_bytes now n t = t\<lparr>FirstByteInAt := (if FirstByteInAt t = None then Some now else FirstByteInAt t), LastByteInAt := Some now,
     TotalBytesRead := TotalBytesRead t + n\<rparr>"

text \<open>The result of a read: the data that was read, which is at the front of the read buffer, or of a scan: the line.\<close>

definition readOrScan :: "bool \<Rightarrow> tcp_world \<Rightarrow> tcp_io \<Rightarrow> tcp_io \<times> bool \<times> int" where
  "readOrScan isScan W s =
     (case isClosingOrClosed W s of
        (s, closed) \<Rightarrow>
          if closed then (s, False, 0)
          else
          (let k = ioReads s; s = io_status (\<lambda>t. t\<lparr>TotalReads := TotalReads t + 1\<rparr>) (s\<lparr>ioReads := Suc k\<rparr>);
               now = wNow W (ioTick s)
           in if isScan then
                (case wScan W k of
                   Some line \<Rightarrow> (tick (io_status (got_bytes now (int (length line))) (upd_io (\<lambda>h. h\<lparr>readText := line\<rparr>) s)), True, int (length line))
                 | None \<Rightarrow> (processConnectionError W RError s, False, 0))
              else
                (case wRead W k of
                   RData d \<Rightarrow>
                     (let d = take (length (readBuffer (ioConn s))) d in
                      (tick (io_status (got_bytes now (int (length d)))
                         (upd_io (\<lambda>h. h\<lparr>readBuffer := d @ drop (length d) (readBuffer h)\<rparr>) s)), True, int (length d)))
                 | REOF \<Rightarrow> (upd_io (\<lambda>h. h\<lparr>thClosing := True\<rparr>) s, False, 0)
                 | err \<Rightarrow> (processConnectionError W err s, False, 0))))"

definition sent_bytes :: "int \<Rightarrow> int \<Rightarrow> conn_status \<Rightarrow> conn_status" where
  "sent_bytes now n t = t\<lparr>FirstByteOutAt := (if FirstByteOutAt t = None then Some now else FirstByteOutAt t), LastByteOutAt := Some now,
     TotalBytesSent := TotalBytesSent t + n\<rparr>"

text \<open>A write that does not take all the data is repeated with all of it.\<close>

partial_function (option) write_loop :: "tcp_world \<Rightarrow> string \<Rightarrow> int \<Rightarrow> tcp_io \<Rightarrow> (tcp_io \<times> bool) option" where
  "write_loop W data sentLength s =
     (let k = ioTick s; s = io_status (\<lambda>t. t\<lparr>TotalWrites := TotalWrites t + 1\<rparr>) (tick s) in
      case wWrite W k data of
        None \<Rightarrow> Some (io_status (\<lambda>t. t\<lparr>WriteErrors := WriteErrors t + 1\<rparr>) s, False)
      | Some n \<Rightarrow>
          (let s = (io_status (sent_bytes (wNow W (ioTick s)) n) s)\<lparr>ioOut := ioOut s @ [take (nat n) data]\<rparr> in
           if sentLength + n < int (length data) then write_loop W data (sentLength + n) s else Some (s, True)))"

definition sendDataToClientWithDeadline :: "tcp_world \<Rightarrow> string \<Rightarrow> bool \<Rightarrow> tcp_io \<Rightarrow> (tcp_io \<times> bool) option" where
  "sendDataToClientWithDeadline W data useConnDeadline s =
     (if useConnDeadline then
        (case isClosingOrClosed W s of
           (s, closed) \<Rightarrow>
             if closed then Some (s, False)
             else write_loop W data 0 s)
      else write_loop W data 0 s)"

definition sendDataToClient :: "tcp_world \<Rightarrow> string \<Rightarrow> tcp_io \<Rightarrow> (tcp_io \<times> bool) option" where
  "sendDataToClient W data s = sendDataToClientWithDeadline W data True s"

definition sendMessage :: "tcp_world \<Rightarrow> string \<Rightarrow> tcp_io \<Rightarrow> tcp_io option" where
  "sendMessage W message s = map_option fst (sendDataToClientWithDeadline W (''['' @ wHost W @ '']'' @ message) False s)"

section \<open>Silent life and closing at the first byte\<close>

partial_function (option) silent_loop :: "tcp_world \<Rightarrow> tcp_io \<Rightarrow> tcp_io option" where
  "silent_loop W s =
     (case isClosingOrClosed W s of
        (s, closed) \<Rightarrow>
          if closed then sendMessage W (Itoa (TotalBytesRead (thStatus (ioConn s)))) s
          else silent_loop W (fst (readOrScan False W s)))"

definition doSilentLife :: "tcp_world \<Rightarrow> tcp_io \<Rightarrow> tcp_io option" where
  "doSilentLife W s =
     silent_loop W (io_status (\<lambda>t. t\<lparr>TotalBytesRead := 0\<rparr>)
       (upd_io (\<lambda>h. h\<lparr>thConfig := upd_modes (\<lambda>m. m\<lparr>tmSilentLife := True\<rparr>) (thConfig h)\<rparr>) s))"

definition doCloseAtFirstByte :: "tcp_world \<Rightarrow> tcp_io \<Rightarrow> tcp_io option" where
  "doCloseAtFirstByte W s =
     (let s = upd_io (\<lambda>h. h\<lparr>thConfig := upd_modes (\<lambda>m. m\<lparr>tmCloseAtFirstByte := True\<rparr>) (thConfig h)\<rparr>) s;
          k = ioReads s;
          s = io_status (\<lambda>t. t\<lparr>TotalReads := TotalReads t + 1\<rparr>) (s\<lparr>ioReads := Suc k\<rparr>)
      in case wRead W k of
           RData d \<Rightarrow> do {
             s \<leftarrow> sendMessage W ''GOODBYE'' (tick (io_status (\<lambda>t. t\<lparr>FirstByteInAt := Some (wNow W (ioTick s)), LastByteInAt := Some (wNow W (ioTick s))\<rparr>) s));
             Some (upd_io (\<lambda>h. h\<lparr>thClosing := True\<rparr>)
               (tick (io_status (\<lambda>t. t\<lparr>FirstByteOutAt := Some (wNow W (ioTick s)), LastByteOutAt := Some (wNow W (ioTick s)), TotalBytesRead := 1,
                  ServerClosed := True\<rparr>) s))) }
         | err \<Rightarrow> Some (processConnectionError W err s))"

section \<open>Validation of a payload\<close>

datatype verdict = VTimeout | VExceeded | VContent | VSuccess

definition verdict_text :: "int \<Rightarrow> int \<Rightarrow> int \<Rightarrow> verdict \<Rightarrow> string" where
  "verdict_text got expected port v =
     (case v of
        VTimeout \<Rightarrow> ''[ERROR:TIMEOUT] - Timed out before receiving payload of expected length ['' @ Itoa expected @ ''] on port ['' @ Itoa port @ '']''
      | VExceeded \<Rightarrow> ''[ERROR:EXCEEDED] - Payload length ['' @ Itoa got @ ''] exceeded expected length ['' @ Itoa expected @ ''] on port ['' @ Itoa port @ '']''
      | VContent \<Rightarrow> ''[ERROR:CONTENT] - Payload content of length ['' @ Itoa got @ ''] didn't match expected payload of length ['' @
          Itoa expected @ ''] on port ['' @ Itoa port @ '']''
      | VSuccess \<Rightarrow> ''[SUCCESS]: Received payload matches expected payload of length ['' @ Itoa got @ ''] on port ['' @ Itoa port @ '']'')"

text \<open>The loop: what was received, whether the payload is complete, and whether it was exceeded. The flag that asks for a check for more bytes
  is set with the first one and stays set.\<close>

partial_function (option) validate_loop ::
  "tcp_world \<Rightarrow> string \<Rightarrow> bool \<Rightarrow> bool \<Rightarrow> bool \<Rightarrow> tcp_io \<Rightarrow> (tcp_io \<times> string \<times> bool \<times> bool) option" where
  "validate_loop W received ready check excess s =
     (if \<not> ready \<or> check then
        (case isClosingOrClosed W s of
           (s, closed) \<Rightarrow>
             if closed then Some (s, received, ready, excess)
             else
             (let prev = TotalBytesRead (thStatus (ioConn s)) in
              case readOrScan False W s of
                (s, ok, n) \<Rightarrow>
                  if \<not> ok then validate_loop W received ready check excess s
                  else
                  (let c = thConfig (ioConn s); total = TotalBytesRead (thStatus (ioConn s)); expected = ExpectedPayloadLength c in
                   case (if tmValidatePayloadContent (tcModes c) \<and> total \<le> expected
                         then do { src \<leftarrow> go_slice (readBuffer (ioConn s)) 0 n; go_copy received prev (prev + n) src }
                         else Some received) of
                     None \<Rightarrow> None
                   | Some received \<Rightarrow>
                       (if total = expected then validate_loop W received True True excess s
                        else if total < expected then validate_loop W received ready check excess s
                        else validate_loop W received True check True s))))
      else Some (s, received, ready, excess))"

definition content_matches :: "string \<Rightarrow> tcp_conn \<Rightarrow> bool option" where
  "content_matches received h =
     (let n = ExpectedPayloadLength (thConfig h) in
      case go_slice received 0 n of
        None \<Rightarrow> None
      | Some r \<Rightarrow>
          (if r \<noteq> expectedPayload h then Some False
           else if n < int (length (readBuffer h)) then Some (readBuffer h ! nat n = char_of (0 :: int))
           else None))"

definition doPayloadValidation :: "tcp_world \<Rightarrow> tcp_io \<Rightarrow> (tcp_io \<times> verdict) option" where
  "doPayloadValidation W s =
     (let s = upd_io (\<lambda>h. if ConnectionLifeD (thConfig h) \<le> 0 then h\<lparr>thConfig := (thConfig h)\<lparr>ConnectionLifeD := 30000000000\<rparr>\<rparr> else h) s;
          s = upd_io resetReadBuffer (io_status (\<lambda>t. t\<lparr>TotalBytesRead := 0\<rparr>) s); c = thConfig (ioConn s);
          content = tmValidatePayloadContent (tcModes c); expected = ExpectedPayloadLength c
      in do {
        h \<leftarrow> resetWriteBuffer (ioConn s);
        received \<leftarrow> (if \<not> content then Some [] else if expected < 0 then None else Some (zero_bytes expected));
        (s, received, ready, excess) \<leftarrow> validate_loop W received False False False (s\<lparr>ioConn := h\<rparr>);
        v \<leftarrow> (if \<not> ready then Some VTimeout else if excess then Some VExceeded
               else if content then map_option (\<lambda>ok. if ok then VSuccess else VContent) (content_matches received (ioConn s)) else Some VSuccess);
        s \<leftarrow> sendMessage W (verdict_text (TotalBytesRead (thStatus (ioConn s))) expected (tcPort c) v) s;
        Some (s, v) })"

section \<open>Echo\<close>

definition echoBack :: "tcp_world \<Rightarrow> tcp_io \<Rightarrow> tcp_io option" where
  "echoBack W s = map_option fst (sendDataToClient W (writeBuffer (ioConn s)) s)"

text \<open>The inner loop sends full chunks; its result has the number of bytes that are left over.\<close>

partial_function (option) echo_chunks :: "tcp_world \<Rightarrow> int \<Rightarrow> int \<Rightarrow> tcp_io \<Rightarrow> (tcp_io \<times> int) option" where
  "echo_chunks W n remaining s =
     (if remaining \<le> 0 then Some (s, 0)
      else
        (let sz = EchoResponseSize (thConfig (ioConn s)); remaining = remaining - sz in
         case echoBack W s of
           None \<Rightarrow> None
         | Some s \<Rightarrow>
             (if sz \<le> remaining then
                (case copy_tail (n - remaining) 0 sz s of None \<Rightarrow> None | Some s \<Rightarrow> echo_chunks W n remaining s)
              else if 0 < remaining then map_option (\<lambda>s. (s, remaining)) (copy_tail (n - remaining) 0 remaining s)
              else echo_chunks W n remaining s)))"

partial_function (option) echo_loop :: "tcp_world \<Rightarrow> int \<Rightarrow> tcp_io \<Rightarrow> tcp_io option" where
  "echo_loop W leftover s =
     (case isClosingOrClosed W s of
        (s, closed) \<Rightarrow>
          if closed then Some s
          else
          (case readOrScan False W s of
             (s, ok, n) \<Rightarrow>
               if \<not> ok then Some s
               else
               (let sz = EchoResponseSize (thConfig (ioConn s)) in
                if sz \<le> n + leftover then
                  (case copy_head (sz - leftover) leftover (int (length (writeBuffer (ioConn s)))) s of
                     None \<Rightarrow> None
                   | Some s \<Rightarrow>
                       (case echo_chunks W n (n + leftover) s of None \<Rightarrow> None | Some (s, leftover) \<Rightarrow> echo_loop W leftover s))
                else
                  (case copy_head n leftover (leftover + n) s of None \<Rightarrow> None | Some s \<Rightarrow> echo_loop W (leftover + n) s))))"

definition doEcho :: "tcp_world \<Rightarrow> tcp_io \<Rightarrow> tcp_io option" where
  "doEcho W s =
     (let s = io_status (\<lambda>t. t\<lparr>TotalBytesRead := 0\<rparr>) s in do {
        h \<leftarrow> resetWriteBuffer ((ioConn s)\<lparr>writeBufferSize := EchoResponseSize (thConfig (ioConn s))\<rparr>);
        echo_loop W 0 (s\<lparr>ioConn := h\<rparr>) })"

section \<open>Preconfigured responses and streams\<close>

fun respond_loop :: "tcp_world \<Rightarrow> int \<Rightarrow> string \<Rightarrow> string list \<Rightarrow> tcp_io \<Rightarrow> tcp_io option" where
  "respond_loop W life payload rest s =
     (case isClosingOrClosed W s of
        (s, closed) \<Rightarrow>
          if closed then Some s
          else
          (let s = (if RespondAfterRead (thConfig (ioConn s)) then fst (readOrScan False W s) else s);
               s = upd_io (\<lambda>h. h\<lparr>writeBufferSize := int (length payload), writeBuffer := zero_bytes (int (length payload))\<rparr>) s
           in case sendDataToClient W payload s of
                None \<Rightarrow> None
              | Some (s, False) \<Rightarrow> Some s
              | Some (s, True) \<Rightarrow>
                  (let remaining = GetConnectionRemainingLife (wNow W (ioTick s)) (ConnStartTime (thStatus (ioConn s))) life 0 0; s = tick s in
                   if 0 < life \<and> remaining \<le> 0 then Some s
                   else case rest of
                          [] \<Rightarrow> Some s
                        | p # rest \<Rightarrow> respond_loop W life (if p \<noteq> [] then p else payload) rest s)))"

definition doResponsePayload :: "tcp_world \<Rightarrow> tcp_io \<Rightarrow> tcp_io option" where
  "doResponsePayload W s =
     (let c = thConfig (ioConn s); life = (if ConnectionLifeD c \<le> 0 then 30000000000 else ConnectionLifeD c) in
      case ResponsePayloads c of
        [] \<Rightarrow> None
      | p # ps \<Rightarrow> respond_loop W life p ps s)"

fun stream_loop :: "tcp_world \<Rightarrow> string \<Rightarrow> nat \<Rightarrow> tcp_io \<Rightarrow> tcp_io option" where
  "stream_loop W payload 0 s = Some s"
| "stream_loop W payload (Suc n) s =
     (case isClosingOrClosed W s of
        (s, closed) \<Rightarrow>
          if closed then Some s
          else
          (let c = thConfig (ioConn s);
               remaining = GetConnectionRemainingLife (wNow W (ioTick s)) (ConnStartTime (thStatus (ioConn s))) (ConnectionLifeD c) 0 0;
               s = tick s
           in if 0 < ConnectionLifeD c \<and> remaining \<le> 0 then Some s
              else case sendDataToClient W payload s of None \<Rightarrow> None | Some (s, _) \<Rightarrow> stream_loop W payload n s))"

text \<open>\<open>random n\<close> is a text of \<open>n\<close> random bytes.\<close>

definition doStream :: "(nat \<Rightarrow> string) \<Rightarrow> tcp_world \<Rightarrow> tcp_io \<Rightarrow> tcp_io option" where
  "doStream random W s =
     (let st = tcStream (thConfig (ioConn s)) in do {
        h \<leftarrow> resetWriteBuffer ((ioConn s)\<lparr>writeBufferSize := StreamChunkSizeV st\<rparr>);
        stream_loop W (random (nat (StreamChunkSizeV st))) (nat (StreamChunkCount st)) (s\<lparr>ioConn := h\<rparr>) })"

section \<open>Conversation\<close>

definition ToUpper :: "string \<Rightarrow> string" where
  "ToUpper s = map upper_char s"

definition trim_blank :: "string \<Rightarrow> string" where
  "trim_blank s = TrimRight (TrimLeft s [CHR '' '', char_of (10 :: int), char_of (13 :: int)]) [CHR '' '', char_of (10 :: int), char_of (13 :: int)]"

definition client_reply :: "string \<Rightarrow> string" where
  "client_reply message =
     (case split_on CHR ''/'' message of
        [a, b, c] \<Rightarrow> (if Contains (trim_blank a) ''BEGIN'' \<and> Contains (trim_blank c) ''END'' then ''ACK/'' @ b @ ''/END'' else ''ERROR'')
      | _ \<Rightarrow> ''ERROR'')"

definition processClientMessage :: "tcp_world \<Rightarrow> string \<Rightarrow> tcp_io \<Rightarrow> tcp_io option" where
  "processClientMessage W message s = sendMessage W (client_reply message) s"

definition readMessage :: "tcp_world \<Rightarrow> tcp_io \<Rightarrow> tcp_io \<times> string" where
  "readMessage W s = (let s = fst (readOrScan True W (upd_io resetReadBuffer s)) in (s, readText (ioConn s)))"

definition doHello :: "tcp_world \<Rightarrow> tcp_io \<Rightarrow> tcp_io option" where
  "doHello W s =
     (case isClosingOrClosed W s of
        (s, closed) \<Rightarrow>
          if closed then Some s
          else
          (case readMessage W s of
             (s, message) \<Rightarrow> (if message \<noteq> [] \<and> Contains (ToUpper message) ''HELLO'' then sendMessage W ''HELLO'' s else Some s)))"

partial_function (option) conversation_loop :: "tcp_world \<Rightarrow> tcp_io \<Rightarrow> tcp_io option" where
  "conversation_loop W s =
     (case isClosingOrClosed W s of
        (s, closed) \<Rightarrow>
          if closed then Some s
          else
          (case readMessage W s of
             (s, message) \<Rightarrow>
               (if message \<noteq> [] then
                  (if Contains (ToUpper message) ''GOODBYE'' then sendMessage W ''GOODBYE'' s
                   else case processClientMessage W message s of None \<Rightarrow> None | Some s \<Rightarrow> conversation_loop W s)
                else conversation_loop W (fst (isClosingOrClosed W s)))))"

definition doConversation :: "tcp_world \<Rightarrow> tcp_io \<Rightarrow> tcp_io option" where
  "doConversation W s = do {
     h \<leftarrow> resetWriteBuffer (ioConn s);
     s \<leftarrow> doHello W (s\<lparr>ioConn := h\<rparr>);
     conversation_loop W s }"

section \<open>Requests\<close>

definition processRequest :: "(nat \<Rightarrow> string) \<Rightarrow> tcp_world \<Rightarrow> tcp_io \<Rightarrow> tcp_io option" where
  "processRequest random W s =
     (let c = thConfig (ioConn s); m = tcModes c in
      if tmPayload m then doResponsePayload W s
      else if tmStream m then doStream random W s
      else if tmConversation m then doConversation W s
      else if tmValidatePayloadContent m \<or> tmValidatePayloadLength m then map_option fst (doPayloadValidation W s)
      else if 0 < ConnectionLifeD c then doSilentLife W s
      else if tmCloseAtFirstByte m then doCloseAtFirstByte W s
      else doEcho W s)"

definition io_start :: "tcp_conn \<Rightarrow> tcp_io" where
  "io_start h = \<lparr>ioConn = h, ioReads = 0, ioTick = 0, ioOut = []\<rparr>"

text \<open>A connection is served from its start to its close.\<close>

definition serve_connection ::
  "(nat \<Rightarrow> string) \<Rightarrow> tcp_world \<Rightarrow> int \<Rightarrow> int \<Rightarrow> int \<Rightarrow> tcp_state \<Rightarrow> (tcp_state \<times> string list) option" where
  "serve_connection random W now port requestID st =
     (case ServeClientConnection now port requestID st of
        (st, None) \<Rightarrow> Some (st, [])
      | (st, Some a) \<Rightarrow> do {
          s \<leftarrow> processRequest random W (io_start (thObjs st ! a));
          Some (CloseClientConnection (wNow W (ioTick s)) (tcListenerID (thConfig (ioConn s))) (thRequestID (ioConn s))
                  (upd_conn a (\<lambda>_. ioConn s) st), ioOut s) })"

end
