(* ===== verification/Tcp_Behaviour.thy ===== *)
theory Tcp_Behaviour
  imports Tcp_Handler
begin

text \<open>
  What a client of the TCP server observes: the theorems about the loops of \<open>Tcp_Handler\<close> and the tables of \<open>Tcp_Api\<close>. A
  world is \<open>reliable\<close> if the listener stays open and a write takes all data; the data of the client comes as
  a sequence of reads, each of which fits into the read buffer, and ends with a read that brings no data.
\<close>

section \<open>Views of a connection\<close>

definition reliable :: "tcp_world \<Rightarrow> bool" where
  "reliable W \<longleftrightarrow> (\<forall>k. wOpen W k) \<and> (\<forall>k d. wWrite W k d = Some (int (length d)))"

definition client_sends :: "tcp_world \<Rightarrow> nat \<Rightarrow> string list \<Rightarrow> bool" where
  "client_sends W k ds \<longleftrightarrow> (\<forall>i < length ds. wRead W (k + i) = RData (ds ! i)) \<and> (\<forall>d. wRead W (k + length ds) \<noteq> RData d)"

lemma client_sends_Cons: "client_sends W k (d # ds) \<longleftrightarrow> wRead W k = RData d \<and> client_sends W (Suc k) ds"
  by (simp add: client_sends_def All_less_Suc2 conj_assoc)

definition live :: "tcp_io \<Rightarrow> bool" where
  "live s \<longleftrightarrow> \<not> thClosing (ioConn s) \<and> \<not> thClosed (ioConn s)"

text \<open>What the loops depend on: configuration, buffers, number of reads, output, bytes read and the expected payload.\<close>

definition view :: "tcp_io \<Rightarrow> tcp_config \<times> string \<times> string \<times> nat \<times> string list \<times> int \<times> string" where
  "view s = (let h = ioConn s in
     (thConfig h, readBuffer h, writeBuffer h, ioReads s, ioOut s, TotalBytesRead (thStatus h), expectedPayload h))"

lemmas view_simps = view_def live_def tick_def upd_io_def io_status_def upd_status_def Let_def

lemma view_tick [simp]: "view (tick s) = view s" "live (tick s) = live s"
  by (simp_all add: view_simps)

lemma isClosing_live: "reliable W \<Longrightarrow> live s \<Longrightarrow> isClosingOrClosed W s = (tick s, False)"
  by (simp add: isClosingOrClosed_def reliable_def live_def)

lemma write_reliable:
  assumes "reliable W"
  shows "\<exists>s'. write_loop W d 0 s = Some (s', True) \<and> live s' = live s \<and>
    (view s = (c, rb, wb, k, out, tot, e) \<longrightarrow> view s' = (c, rb, wb, k, out @ [d], tot, e))"
proof -
  have "wWrite W (ioTick s) d = Some (int (length d))" using assms by (simp add: reliable_def)
  then show ?thesis by (subst write_loop.simps) (simp add: view_simps sent_bytes_def)
qed

lemma send_reliable:
  assumes "reliable W" and "live s" and "view s = (c, rb, wb, k, out, tot, e)"
  shows "\<exists>s'. sendDataToClient W d s = Some (s', True) \<and> live s' \<and> view s' = (c, rb, wb, k, out @ [d], tot, e)"
  using write_reliable [OF assms(1), of d "tick s" c rb wb k out tot e] assms
  by (auto simp: sendDataToClient_def sendDataToClientWithDeadline_def isClosing_live)

lemma sendMessage_reliable:
  assumes "reliable W" and "view s = (c, rb, wb, k, out, tot, e)"
  shows "\<exists>s'. sendMessage W m s = Some s' \<and> view s' = (c, rb, wb, k, out @ [''['' @ wHost W @ '']'' @ m], tot, e)"
  using write_reliable [OF assms(1), of "''['' @ wHost W @ '']'' @ m" s c rb wb k out tot e] assms(2)
  by (auto simp: sendMessage_def sendDataToClientWithDeadline_def)

lemma read_data:
  assumes "reliable W" and "live s" and "view s = (c, rb, wb, k, out, tot, e)" and "wRead W k = RData d" and "length d \<le> length rb"
  shows "\<exists>s'. readOrScan False W s = (s', True, int (length d)) \<and> live s' \<and>
    view s' = (c, d @ drop (length d) rb, wb, Suc k, out, tot + int (length d), e)"
proof -
  have k: "ioReads s = k" "readBuffer (ioConn s) = rb" using assms(3) by (simp_all add: view_def Let_def)
  show ?thesis
    using assms k by (simp add: readOrScan_def isClosing_live view_simps got_bytes_def)
qed

lemma read_end:
  assumes "reliable W" and "live s" and "view s = (c, rb, wb, k, out, tot, e)" and "\<And>d. wRead W k \<noteq> RData d"
  shows "\<exists>s'. readOrScan False W s = (s', False, 0) \<and> thClosing (ioConn s') \<and> view s' = (c, rb, wb, Suc k, out, tot, e)"
proof -
  have k: "ioReads s = k" using assms(3) by (simp add: view_def Let_def)
  show ?thesis
  proof (cases "wRead W k")
    case (RData d)
    with assms(4) show ?thesis by blast
  qed (use assms(1-3) k in \<open>simp_all add: readOrScan_def isClosing_live view_simps processConnectionError_def\<close>)
qed

section \<open>Chunks\<close>

function chunks :: "nat \<Rightarrow> 'a list \<Rightarrow> 'a list list" where
  "chunks n xs = (if n = 0 \<or> length xs < n then [] else take n xs # chunks n (drop n xs))"
  by pat_completeness auto
termination
  by (relation "measure (\<lambda>(n, xs). length xs)") auto

declare chunks.simps [simp del]

definition rest_of :: "nat \<Rightarrow> 'a list \<Rightarrow> 'a list" where
  "rest_of n xs = drop (n * (length xs div n)) xs"

lemma chunks_step: "0 < n \<Longrightarrow> n \<le> length xs \<Longrightarrow> chunks n xs = take n xs # chunks n (drop n xs)"
  by (subst chunks.simps) simp

lemma chunks_short: "length xs < n \<Longrightarrow> chunks n xs = []"
  by (subst chunks.simps) simp

lemma rest_step: "0 < n \<Longrightarrow> n \<le> length xs \<Longrightarrow> rest_of n (drop n xs) = rest_of n xs"
  by (simp add: rest_of_def div_if [of "length xs"] add.commute)

lemma rest_short: "length xs < n \<Longrightarrow> rest_of n xs = xs"
  by (simp add: rest_of_def)

lemma rest_length: "0 < n \<Longrightarrow> length (rest_of n xs) = length xs mod n"
  by (simp add: rest_of_def minus_mult_div_eq_mod)

lemma chunks_append: "0 < n \<Longrightarrow> chunks n (xs @ ys) = chunks n xs @ chunks n (rest_of n xs @ ys)"
proof (induction n xs rule: chunks.induct)
  case (1 n xs)
  show ?case
  proof (cases "length xs < n")
    case True
    then show ?thesis by (simp add: chunks_short rest_short)
  next
    case False
    then have "chunks n (drop n xs @ ys) = chunks n (drop n xs) @ chunks n (rest_of n xs @ ys)"
      using 1 rest_step [of n xs] by simp
    then show ?thesis using False "1.prems" by (simp add: chunks_step [of n "xs @ ys"] chunks_step [of n xs])
  qed
qed

lemma concat_chunks: "concat (chunks n xs) = take (n * (length xs div n)) xs"
proof (induction n xs rule: chunks.induct)
  case (1 n xs)
  show ?case
  proof (cases "n = 0 \<or> length xs < n")
    case True
    then show ?thesis by (auto simp: chunks.simps [of n xs])
  next
    case False
    then have "length xs div n = Suc (length (drop n xs) div n)" by (simp add: div_if [of "length xs"])
    then show ?thesis using False 1 by (simp add: chunks.simps [of n xs] take_add)
  qed
qed

lemma chunks_length: "c \<in> set (chunks n xs) \<Longrightarrow> length c = n"
  by (induction n xs rule: chunks.induct) (subst (asm) (2) chunks.simps, auto split: if_splits)

section \<open>Echo\<close>

lemma go_slice_nat: "i \<le> j \<Longrightarrow> j \<le> length b \<Longrightarrow> go_slice b (int i) (int j) = Some (take (j - i) (drop i b))"
  by (simp add: go_slice_def flip: of_nat_diff)

lemma go_copy_nat: "i + length src \<le> j \<Longrightarrow> j \<le> length b \<Longrightarrow> go_copy b (int i) (int j) src = Some (take i b @ src @ drop (i + length src) b)"
  by (simp add: go_copy_def go_slice_nat min_absorb1 min_absorb2)

lemma go_copy_front: "m \<le> length src \<Longrightarrow> m \<le> length b \<Longrightarrow> go_copy b 0 (int m) src = Some (take m src @ drop m b)"
  using go_slice_nat [of 0 m b] by (simp add: go_copy_def min_absorb1 min_absorb2)

lemma copy_tail_result:
  assumes "view s = (c, d @ junk, wb, k, out, tot, e)" and "t \<le> length d" and "m \<le> length d - t" and "m \<le> length wb"
  shows "\<exists>s'. copy_tail (int t) 0 (int m) s = Some s' \<and> live s' = live s \<and>
    view s' = (c, d @ junk, take m (drop t d) @ drop m wb, k, out, tot, e)"
proof -
  have "go_slice (d @ junk) (int t) (int (length (d @ junk))) = Some (drop t d @ junk)"
    using assms(2) by (subst go_slice_nat) simp_all
  moreover have "go_copy wb 0 (int m) (drop t d @ junk) = Some (take m (drop t d) @ drop m wb)"
    using assms(3,4) by (subst go_copy_front) simp_all
  ultimately have "CopyInputTailToOutput wb (d @ junk) (int t) 0 (int m) = Some (take m (drop t d) @ drop m wb)"
    by (simp add: CopyInputTailToOutput_def)
  moreover have "writeBuffer (ioConn s) = wb" "readBuffer (ioConn s) = d @ junk" using assms(1) by (simp_all add: view_def Let_def)
  ultimately show ?thesis using assms(1) by (simp add: copy_tail_def view_simps)
qed

lemma copy_head_result:
  assumes "view s = (c, d @ junk, wb, k, out, tot, e)" and "h \<le> length d" and "f + h \<le> u" and "u \<le> length wb"
  shows "\<exists>s'. copy_head (int h) (int f) (int u) s = Some s' \<and> live s' = live s \<and>
    view s' = (c, d @ junk, take f wb @ take h d @ drop (f + h) wb, k, out, tot, e)"
proof -
  have "go_slice (d @ junk) (int 0) (int h) = Some (take h d)" using assms(2) by (subst go_slice_nat) simp_all
  moreover have "go_copy wb (int f) (int u) (take h d) = Some (take f wb @ take h d @ drop (f + h) wb)"
    using assms(2-4) by (subst go_copy_nat) (simp_all add: min_absorb2)
  ultimately have "CopyInputHeadToOutput wb (d @ junk) (int h) (int f) (int u) = Some (take f wb @ take h d @ drop (f + h) wb)"
    by (simp add: CopyInputHeadToOutput_def)
  moreover have "writeBuffer (ioConn s) = wb" "readBuffer (ioConn s) = d @ junk" using assms(1) by (simp_all add: view_def Let_def)
  ultimately show ?thesis using assms(1) by (simp add: copy_head_def view_simps)
qed

text \<open>The inner loop, from the state in which the write buffer has the first chunk of the bytes that remain; the others are at the end of the data
  that was read.\<close>

lemma echo_chunks_result:
  assumes "reliable W" and "live s" and "view s = (c, d @ junk, wb, k, out, tot, e)" and "EchoResponseSize c = int n" and "0 < n"
    and "n \<le> length rem" and "wb = take n rem" and "drop n rem = drop (n + length d - length rem) d" and "length rem \<le> n + length d"
  shows "\<exists>s' wb'. echo_chunks W (int (length d)) (int (length rem)) s = Some (s', int (length rem mod n)) \<and> live s' \<and>
    view s' = (c, d @ junk, wb', k, out @ chunks n rem, tot, e) \<and> length wb' = n \<and> take (length rem mod n) wb' = rest_of n rem"
  using assms(2,3,6-9)
proof (induction "length rem" arbitrary: rem s wb out rule: less_induct)
  case less
  note size = assms(4,5)
  let ?r = "length rem - n"
  have cfg: "EchoResponseSize (thConfig (ioConn s)) = int n" and wb: "writeBuffer (ioConn s) = wb"
    using less.prems(2) size by (simp_all add: view_def Let_def)
  from send_reliable [OF assms(1) less.prems(1,2), of wb] obtain s1
    where s1: "echoBack W s = Some s1" "live s1" "view s1 = (c, d @ junk, wb, k, out @ [take n rem], tot, e)"
    by (auto simp: echoBack_def wb less.prems(4))
  have lw: "length wb = n" using less.prems(3,4) by simp
  define t where "t = n + length d - length rem"
  have t: "int (length d) - (int (length rem) - int n) = int t" "t \<le> length d" "?r = length d - t" "drop n rem = drop t d"
    using less.prems(3,5,6) by (auto simp: t_def)
  have step: "echo_chunks W (int (length d)) (int (length rem)) s =
     (if n \<le> ?r then (case copy_tail (int t) 0 (int n) s1 of None \<Rightarrow> None | Some s \<Rightarrow> echo_chunks W (int (length d)) (int ?r) s)
      else if 0 < ?r then map_option (\<lambda>s. (s, int ?r)) (copy_tail (int t) 0 (int ?r) s1)
      else echo_chunks W (int (length d)) (int ?r) s1)"
    using less.prems(3) size(2) unfolding of_nat_diff [OF less.prems(3)]
    by (subst echo_chunks.simps) (auto simp: cfg s1(1) Let_def t(1))
  consider (more) "n \<le> ?r" | (some) "0 < ?r" "?r < n" | (none) "?r = 0" by linarith
  then show ?case
  proof cases
    case more
    obtain s2 where s2: "copy_tail (int t) 0 (int n) s1 = Some s2" "live s2"
      "view s2 = (c, d @ junk, take n (drop n rem), k, out @ [take n rem], tot, e)"
      using copy_tail_result [OF s1(3) t(2), of n] s1(2) lw t(3,4) more by auto
    have "drop n (drop n rem) = drop (n + length d - length (drop n rem)) d"
    proof -
      have "drop n (drop n rem) = drop n (drop (n + length d - length rem) d)" using less.prems(5) by simp
      also have "\<dots> = drop (n + (n + length d - length rem)) d" by (simp add: add.commute)
      also have "n + (n + length d - length rem) = n + length d - length (drop n rem)" using more less.prems(6) by simp
      finally show ?thesis .
    qed
    moreover have "length (drop n rem) < length rem" "n \<le> length (drop n rem)" "length (drop n rem) \<le> n + length d"
      using more size(2) less.prems(6) by simp_all
    ultimately obtain s' wb' where "echo_chunks W (int (length d)) (int (length (drop n rem))) s2 = Some (s', int (length (drop n rem) mod n))" "live s'"
      "view s' = (c, d @ junk, wb', k, (out @ [take n rem]) @ chunks n (drop n rem), tot, e)" "length wb' = n"
      "take (length (drop n rem) mod n) wb' = rest_of n (drop n rem)"
      using less.hyps [OF _ s2(2,3) _ refl] by blast
    then show ?thesis
      using step more s2(1) less.prems(3) size(2) by (simp add: chunks_step [of n rem] rest_step le_mod_geq)
  next
    case some
    obtain s2 where s2: "copy_tail (int t) 0 (int ?r) s1 = Some s2" "live s2"
      "view s2 = (c, d @ junk, drop n rem @ drop ?r wb, k, out @ [take n rem], tot, e)"
      using copy_tail_result [OF s1(3) t(2), of ?r] s1(2) lw t(3) some unfolding t(4) by auto
    have "length rem mod n = ?r" using some less.prems(3) by (simp add: le_mod_geq)
    moreover have "rest_of n rem = drop n rem" using some less.prems(3) size(2) rest_step [of n rem] rest_short [of "drop n rem" n] by simp
    ultimately show ?thesis
      using step some s2 less.prems(3) size(2) lw by (simp add: chunks_step [of n rem] chunks_short)
  next
    case none
    then have "length rem = n" using less.prems(3) by simp
    then show ?thesis
      using step none s1(2,3) size(2) lw
      by (simp add: echo_chunks.simps [of W _ 0] chunks_step [of n rem] chunks_short rest_of_def)
  qed
qed

lemma echo_loop_result:
  assumes "reliable W" and "EchoResponseSize c = int n" and "0 < n"
  shows "live s \<Longrightarrow> view s = (c, rb, wb, k, out, tot, e) \<Longrightarrow> length wb = n \<Longrightarrow> f < n \<Longrightarrow> client_sends W k ds \<Longrightarrow>
    \<forall>d \<in> set ds. length d \<le> length rb \<Longrightarrow>
    \<exists>s'. echo_loop W (int f) s = Some s' \<and> ioOut s' = out @ chunks n (take f wb @ concat ds)"
proof (induction ds arbitrary: s rb wb k out tot f)
  case Nil
  have "wRead W k \<noteq> RData d" for d using Nil.prems(5) by (simp add: client_sends_def)
  then obtain s' where s': "readOrScan False W (tick s) = (s', False, 0)" "view s' = (c, rb, wb, Suc k, out, tot, e)"
    using read_end [OF assms(1), of "tick s" c rb wb k out tot e] Nil.prems(1,2) by auto
  then have "echo_loop W (int f) s = Some s'"
    using isClosing_live [OF assms(1) Nil.prems(1)] by (subst echo_loop.simps) simp
  moreover have "ioOut s' = out" using s'(2) by (simp add: view_def Let_def)
  ultimately show ?case using Nil.prems(4) by (simp add: chunks_short)
next
  case (Cons d ds)
  have d: "wRead W k = RData d" and ds: "client_sends W (Suc k) ds" using Cons.prems(5) by (simp_all add: client_sends_Cons)
  define junk where "junk = drop (length d) rb"
  have ld: "length d \<le> length rb" using Cons.prems(6) by simp
  then have fit: "\<forall>x \<in> set ds. length x \<le> length (d @ junk)" using Cons.prems(6) by (simp add: junk_def)
  obtain s1 where s1: "readOrScan False W (tick s) = (s1, True, int (length d))" "live s1"
      "view s1 = (c, d @ junk, wb, Suc k, out, tot + int (length d), e)"
    using read_data [OF assms(1), of "tick s" c rb wb k out tot e d] Cons.prems(1,2) d ld by (auto simp: junk_def)
  have cfg: "EchoResponseSize (thConfig (ioConn s1)) = int n" and wbl: "length (writeBuffer (ioConn s1)) = n"
    using s1(3) assms(2) Cons.prems(3) by (simp_all add: view_def Let_def)
  let ?data = "take f wb @ d"
  have ldata: "length ?data = length d + f" using Cons.prems(3,4) by simp
  have step: "echo_loop W (int f) s =
     (if n \<le> f + length d
      then (case copy_head (int (n - f)) (int f) (int n) s1 of
              None \<Rightarrow> None
            | Some s \<Rightarrow> (case echo_chunks W (int (length d)) (int (length ?data)) s of None \<Rightarrow> None | Some (s, l) \<Rightarrow> echo_loop W l s))
      else (case copy_head (int (length d)) (int f) (int (f + length d)) s1 of None \<Rightarrow> None | Some s \<Rightarrow> echo_loop W (int (f + length d)) s))"
    unfolding ldata of_nat_diff [OF less_imp_le [OF Cons.prems(4)]] of_nat_add
    using isClosing_live [OF assms(1) Cons.prems(1)] Cons.prems(4)
    by (subst echo_loop.simps) (auto simp: s1(1) cfg wbl Let_def)
  show ?case
  proof (cases "n \<le> f + length d")
    case True
    have "\<exists>s2. copy_head (int (n - f)) (int f) (int n) s1 = Some s2 \<and> live s2 = live s1 \<and>
        view s2 = (c, d @ junk, take f wb @ take (n - f) d @ drop (f + (n - f)) wb, Suc k, out, tot + int (length d), e)"
      by (rule copy_head_result [OF s1(3)]) (use True Cons.prems(3,4) in simp_all)
    then obtain s2 where s2: "copy_head (int (n - f)) (int f) (int n) s1 = Some s2" "live s2"
      "view s2 = (c, d @ junk, take n ?data, Suc k, out, tot + int (length d), e)"
      using s1(2) Cons.prems(3,4) by (auto simp: min_def)
    have "\<exists>s' wb'. echo_chunks W (int (length d)) (int (length ?data)) s2 = Some (s', int (length ?data mod n)) \<and> live s' \<and>
        view s' = (c, d @ junk, wb', Suc k, out @ chunks n ?data, tot + int (length d), e) \<and> length wb' = n \<and>
        take (length ?data mod n) wb' = rest_of n ?data"
    proof (rule echo_chunks_result [OF assms(1) s2(2,3) assms(2,3)])
      show "drop n ?data = drop (n + length d - length ?data) d" using Cons.prems(3,4) True by (simp add: ldata)
    qed (use True Cons.prems(3,4) ldata in simp_all)
    then obtain s3 wb' where s3: "echo_chunks W (int (length d)) (int (length ?data)) s2 = Some (s3, int (length ?data mod n))" "live s3"
        "view s3 = (c, d @ junk, wb', Suc k, out @ chunks n ?data, tot + int (length d), e)" "length wb' = n"
        "take (length ?data mod n) wb' = rest_of n ?data" by blast
    obtain s' where "echo_loop W (int (length ?data mod n)) s3 = Some s'"
        "ioOut s' = (out @ chunks n ?data) @ chunks n (rest_of n ?data @ concat ds)"
      using Cons.IH [OF s3(2,3,4) _ ds fit, of "length ?data mod n"] assms(3) s3(5) by auto
    then show ?thesis using step True s2(1) s3(1) chunks_append [OF assms(3), of ?data "concat ds"] by simp
  next
    case False
    have "\<exists>s2. copy_head (int (length d)) (int f) (int (f + length d)) s1 = Some s2 \<and> live s2 = live s1 \<and>
        view s2 = (c, d @ junk, take f wb @ take (length d) d @ drop (f + length d) wb, Suc k, out, tot + int (length d), e)"
      by (rule copy_head_result [OF s1(3)]) (use False Cons.prems(3,4) in simp_all)
    then obtain s2 where s2: "copy_head (int (length d)) (int f) (int (f + length d)) s1 = Some s2" "live s2"
      "view s2 = (c, d @ junk, ?data @ drop (f + length d) wb, Suc k, out, tot + int (length d), e)"
      using s1(2) by auto
    obtain s' where "echo_loop W (int (f + length d)) s2 = Some s'" "ioOut s' = out @ chunks n (?data @ concat ds)"
      using Cons.IH [OF s2(2,3) _ _ ds fit, of "f + length d"] False ldata Cons.prems(3) by auto
    then show ?thesis using step False s2(1) by simp
  qed
qed

section \<open>Serving a connection\<close>

text \<open>A connection that is served keeps its identity, and is not closed before the end.\<close>

definition key :: "tcp_io \<Rightarrow> (string \<times> int) \<times> bool" where
  "key s = (conn_ids (ioConn s), thClosed (ioConn s))"

lemma conn_ids_fields [simp]:
  "conn_ids (h\<lparr>readBuffer := x\<rparr>) = conn_ids h" "conn_ids (h\<lparr>writeBuffer := x\<rparr>) = conn_ids h" "conn_ids (h\<lparr>readText := x\<rparr>) = conn_ids h"
  "conn_ids (h\<lparr>thClosing := b\<rparr>) = conn_ids h" "conn_ids (h\<lparr>writeBufferSize := n\<rparr>) = conn_ids h"
  "conn_ids (h\<lparr>thConfig := upd_modes f (thConfig h)\<rparr>) = conn_ids h"
  "conn_ids (h\<lparr>thConfig := (thConfig h)\<lparr>ConnectionLifeD := n\<rparr>\<rparr>) = conn_ids h"
  "conn_ids (resetReadBuffer h) = conn_ids h" "thClosed (resetReadBuffer h) = thClosed h"
  by (simp_all add: conn_ids_def upd_modes_def resetReadBuffer_def)

lemma key_basic [simp]:
  "key (tick s) = key s" "key (io_status f s) = key s" "key (s\<lparr>ioOut := out\<rparr>) = key s" "key (s\<lparr>ioReads := n\<rparr>) = key s"
  by (simp_all add: key_def tick_def io_status_def upd_io_def)

lemma key_upd_io: "(\<And>h. conn_ids (f h) = conn_ids h \<and> thClosed (f h) = thClosed h) \<Longrightarrow> key (upd_io f s) = key s"
  by (simp add: key_def upd_io_def)

lemma key_closing: "isClosingOrClosed W s = (s', b) \<Longrightarrow> key s' = key s"
  by (auto simp: isClosingOrClosed_def)

lemma key_error [simp]: "key (processConnectionError W err s) = key s"
  by (cases err) (simp_all add: processConnectionError_def Let_def key_upd_io)

lemma key_read: "readOrScan b W s = (s', ok, n) \<Longrightarrow> key s' = key s"
  by (auto simp: readOrScan_def isClosingOrClosed_def Let_def key_upd_io split: if_splits option.splits read_result.splits)

lemma key_write:
  assumes "write_loop W d n s = Some y"
  shows "key (fst y) = key s"
  using assms
proof (induct rule: write_loop.raw_induct [rotated, consumes 1, case_names step])
  case (step f W d n s y)
  show ?case using step(2) by (auto simp: Let_def dest!: step(1) split: option.splits if_splits)
qed

lemma key_send: "sendDataToClientWithDeadline W d b s = Some (s', ok) \<Longrightarrow> key s' = key s"
  by (auto simp: sendDataToClientWithDeadline_def isClosingOrClosed_def dest!: key_write split: if_splits)

lemma key_sendMessage: "sendMessage W m s = Some s' \<Longrightarrow> key s' = key s"
  by (auto simp: sendMessage_def dest: key_send)

lemma key_silent_loop:
  assumes "silent_loop W s = Some s'"
  shows "key s' = key s"
  using assms
proof (induct rule: silent_loop.raw_induct [rotated, consumes 1, case_names step])
  case (step f W s s')
  obtain s1 b where s1: "isClosingOrClosed W s = (s1, b)" by fastforce
  obtain s2 ok n where s2: "readOrScan False W s1 = (s2, ok, n)" by (cases "readOrScan False W s1")
  show ?case
    using step(2) key_closing [OF s1] key_read [OF s2] by (auto simp: s1 s2 dest!: key_sendMessage step(1) split: if_splits)
qed

lemma key_validate_loop:
  assumes "validate_loop W r a b c s = Some y"
  shows "key (fst y) = key s"
  using assms
proof (induct rule: validate_loop.raw_induct [rotated, consumes 1, case_names step])
  case (step f W r a b c s y)
  obtain s1 cl where s1: "isClosingOrClosed W s = (s1, cl)" by fastforce
  obtain s2 ok n where s2: "readOrScan False W s1 = (s2, ok, n)" by (cases "readOrScan False W s1")
  have "key s2 = key s" using key_closing [OF s1] key_read [OF s2] by simp
  then show ?case
    using step(2) key_closing [OF s1] by (auto simp: s1 s2 Let_def dest!: step(1) split: if_splits option.splits)
qed

lemma key_echoBack: "echoBack W s = Some s' \<Longrightarrow> key s' = key s"
  by (auto simp: echoBack_def sendDataToClient_def dest: key_send)

lemma key_copy: "copy_tail t i j s = Some s' \<Longrightarrow> key s' = key s" "copy_head t i j s = Some s' \<Longrightarrow> key s' = key s"
  by (auto simp: copy_tail_def copy_head_def key_upd_io)

lemma key_echo_chunks:
  assumes "echo_chunks W n r s = Some y"
  shows "key (fst y) = key s"
  using assms
proof (induct rule: echo_chunks.raw_induct [rotated, consumes 1, case_names step])
  case (step f W n r s y)
  show ?case
    using step(2) by (auto simp: Let_def dest!: key_echoBack key_copy step(1) split: if_splits option.splits)
qed

lemma key_echo_loop:
  assumes "echo_loop W l s = Some s'"
  shows "key s' = key s"
  using assms
proof (induct rule: echo_loop.raw_induct [rotated, consumes 1, case_names step])
  case (step f W l s s')
  obtain s1 cl where s1: "isClosingOrClosed W s = (s1, cl)" by fastforce
  obtain s2 ok n where s2: "readOrScan False W s1 = (s2, ok, n)" by (cases "readOrScan False W s1")
  show ?case
    using step(2) key_closing [OF s1] key_read [OF s2]
    by (auto simp: s1 s2 Let_def dest!: key_copy key_echo_chunks step(1) split: if_splits option.splits)
qed

lemma key_respond_loop: "respond_loop W life p ps s = Some s' \<Longrightarrow> key s' = key s"
proof (induction ps arbitrary: p s)
  case Nil
  obtain s1 cl where s1: "isClosingOrClosed W s = (s1, cl)" by fastforce
  obtain s2 ok n where s2: "readOrScan False W s1 = (s2, ok, n)" by (cases "readOrScan False W s1")
  show ?case
    using Nil.prems key_closing [OF s1] key_read [OF s2]
    by (auto simp: s1 s2 Let_def sendDataToClient_def key_upd_io dest!: key_send split: if_splits option.splits bool.splits)
next
  case (Cons q ps)
  obtain s1 cl where s1: "isClosingOrClosed W s = (s1, cl)" by fastforce
  obtain s2 ok n where s2: "readOrScan False W s1 = (s2, ok, n)" by (cases "readOrScan False W s1")
  show ?case
    using Cons.prems [unfolded respond_loop.simps [of W life p "q # ps" s]] key_closing [OF s1] key_read [OF s2]
    by (auto simp: s1 s2 Let_def sendDataToClient_def key_upd_io simp del: respond_loop.simps
      dest!: key_send Cons.IH split: if_splits option.splits bool.splits)
qed

lemma key_stream_loop: "stream_loop W p n s = Some s' \<Longrightarrow> key s' = key s"
proof (induction n arbitrary: s)
  case (Suc n)
  obtain s1 cl where s1: "isClosingOrClosed W s = (s1, cl)" by fastforce
  show ?case
    using Suc.prems key_closing [OF s1]
    by (auto simp: s1 Let_def sendDataToClient_def dest!: key_send Suc.IH split: if_splits option.splits)
qed simp

lemma key_readMessage: "readMessage W s = (s', m) \<Longrightarrow> key s' = key s"
proof -
  assume a: "readMessage W s = (s', m)"
  obtain s2 ok n where s2: "readOrScan True W (upd_io resetReadBuffer s) = (s2, ok, n)" by (cases "readOrScan True W (upd_io resetReadBuffer s)")
  with a key_read [OF s2] show ?thesis by (auto simp: readMessage_def s2 key_upd_io)
qed

lemma key_conversation_loop:
  assumes "conversation_loop W s = Some s'"
  shows "key s' = key s"
  using assms
proof (induct rule: conversation_loop.raw_induct [rotated, consumes 1, case_names step])
  case (step f W s s')
  obtain s1 cl where s1: "isClosingOrClosed W s = (s1, cl)" by fastforce
  obtain s2 m where s2: "readMessage W s1 = (s2, m)" by fastforce
  obtain s3 cl' where s3: "isClosingOrClosed W s2 = (s3, cl')" by fastforce
  show ?case
    using step(2) key_closing [OF s1] key_readMessage [OF s2] key_closing [OF s3]
    by (auto simp: s1 s2 s3 processClientMessage_def dest!: key_sendMessage step(1) split: if_splits option.splits)
qed

lemma key_doHello: "doHello W s = Some s' \<Longrightarrow> key s' = key s"
proof -
  assume a: "doHello W s = Some s'"
  obtain s1 cl where s1: "isClosingOrClosed W s = (s1, cl)" by fastforce
  obtain s2 m where s2: "readMessage W s1 = (s2, m)" by fastforce
  show ?thesis
    using a key_closing [OF s1] key_readMessage [OF s2] by (auto simp: doHello_def s1 s2 dest!: key_sendMessage split: if_splits)
qed

lemma key_reset: "resetWriteBuffer h = Some h' \<Longrightarrow> conn_ids h = conn_ids (ioConn s) \<Longrightarrow> thClosed h = thClosed (ioConn s) \<Longrightarrow> key (s\<lparr>ioConn := h'\<rparr>) = key s"
  by (auto simp: resetWriteBuffer_def key_def split: if_splits)

lemma key_validation:
  assumes "doPayloadValidation W s = Some (s', v)"
  shows "key s' = key s"
proof -
  let ?f = "\<lambda>h. if ConnectionLifeD (thConfig h) \<le> 0 then h\<lparr>thConfig := (thConfig h)\<lparr>ConnectionLifeD := 30000000000\<rparr>\<rparr> else h"
  define s0 where "s0 = upd_io resetReadBuffer (io_status (\<lambda>t. t\<lparr>TotalBytesRead := 0\<rparr>) (upd_io ?f s))"
  have s0: "key s0 = key s" by (simp add: s0_def key_upd_io)
  from assms obtain h r y where h: "resetWriteBuffer (ioConn s0) = Some h"
    and y: "validate_loop W r False False False (s0\<lparr>ioConn := h\<rparr>) = Some y" and m: "\<exists>m. sendMessage W m (fst y) = Some s'"
    unfolding doPayloadValidation_def Let_def s0_def [symmetric] by (clarsimp simp: bind_eq_Some_conv) blast
  from m key_sendMessage key_validate_loop [OF y] key_reset [OF h] s0 show ?thesis by fastforce
qed

lemma processRequest_keeps: "processRequest random W s = Some s' \<Longrightarrow> key s' = key s"
  unfolding processRequest_def Let_def doResponsePayload_def doStream_def doConversation_def doSilentLife_def doCloseAtFirstByte_def doEcho_def
  by (auto simp: bind_eq_Some_conv key_upd_io simp del: respond_loop.simps
    dest!: key_respond_loop key_stream_loop key_doHello key_conversation_loop key_validation key_silent_loop key_sendMessage key_echo_loop key_reset
    split: if_splits list.splits read_result.splits)

section \<open>Reachable tables\<close>

text \<open>The tables with the counter of requests. Connections are accepted, served and closed in any order, and the
  handlers may change the configurations at any time. A connection that is being served shows any of its states.
  \<open>listener_id\<close> is the first step of \<open>serveTCP\<close> of the listeners, which writes the listener's ID into its own configuration
  object; that object is the one in the table only if the port had none before.\<close>

definition assign_listener_id :: "nat \<Rightarrow> string \<Rightarrow> tcp_state \<Rightarrow> tcp_state" where
  "assign_listener_id c lid st = st\<lparr>tcObjs := (tcObjs st)[c := (tcObjs st ! c)\<lparr>tcListenerID := lid\<rparr>]\<rparr>"

lemma same_conns_assign: "same_conns st (assign_listener_id c lid st)"
  by (simp add: same_conns_def assign_listener_id_def)

inductive tcp_reach :: "int \<Rightarrow> tcp_state \<Rightarrow> bool" where
  start: "tcp_reach n tcp_init"
| listener: "tcp_reach n st \<Longrightarrow> InitTCPConfig pd showD getID port given st = Some (st', a, bad) \<Longrightarrow> tcp_reach n st'"
| configure: "tcp_reach n st \<Longrightarrow> configureTCP pd showD present getID body r st = Some (st', w) \<Longrightarrow> tcp_reach n st'"
| duration: "tcp_reach n st \<Longrightarrow> setConnectionDurationConfig pd present r st = Some (st', w) \<Longrightarrow> tcp_reach n st'"
| stream: "tcp_reach n st \<Longrightarrow> setStreamConfig pd showD present r st = Some (st', w) \<Longrightarrow> tcp_reach n st'"
| expected_length: "tcp_reach n st \<Longrightarrow> setExpectedPayloadLength present r st = Some (st', w) \<Longrightarrow> tcp_reach n st'"
| expected: "tcp_reach n st \<Longrightarrow> setExpectedPayload present content r st = Some (st', w) \<Longrightarrow> tcp_reach n st'"
| validation: "tcp_reach n st \<Longrightarrow> configurePayloadValidation present r st = Some (st', w) \<Longrightarrow> tcp_reach n st'"
| modes: "tcp_reach n st \<Longrightarrow> setModes pd showD present r st = Some (st', w) \<Longrightarrow> tcp_reach n st'"
| clear: "tcp_reach n st \<Longrightarrow> tcp_reach n (fst (clearConnectionHistory r st))"
| accept: "tcp_reach n st \<Longrightarrow> tcp_reach (n + 1) (fst (ServeClientConnection now port (n + 1) st))"
| serve: "tcp_reach n st \<Longrightarrow> a < length (thObjs st) \<Longrightarrow> processRequest random W (io_start (thObjs st ! a)) = Some s \<Longrightarrow>
    tcp_reach n (upd_conn a (\<lambda>_. ioConn s) st)"
| close: "tcp_reach n st \<Longrightarrow> tcp_reach n (CloseClientConnection now lid rid st)"
| listener_id: "tcp_reach n st \<Longrightarrow> tcp_reach n (assign_listener_id c lid st)"
| close_listener: "tcp_reach n st \<Longrightarrow> tcp_reach n (CloseListenerConnections now lid st)"

lemma upd_conn_ok:
  assumes "conns_ok n st" and "a < length (thObjs st)" and "conn_ids h = conn_ids (thObjs st ! a)" and "thClosed h = thClosed (thObjs st ! a)"
  shows "conns_ok n (upd_conn a (\<lambda>_. h) st)"
proof -
  have "conn_ids (thObjs (upd_conn a (\<lambda>_. h) st) ! b) = conn_ids (thObjs st ! b)"
    "is_open (upd_conn a (\<lambda>_. h) st) b = is_open st b" for b
    using assms by (cases "b = a"; simp add: upd_conn_def is_open_def)+
  moreover have "thRequestID h = thRequestID (thObjs st ! a)" using assms(3) by (simp add: conn_ids_def)
  then have "\<forall>x \<in> set (thObjs (upd_conn a (\<lambda>_. h) st)). thRequestID x \<le> n"
    using assms(1,2) set_update_subset_insert [of "thObjs st" a h] by (auto simp: upd_conn_def conns_ok_def)
  ultimately show ?thesis using assms(1) by (simp add: conns_ok_def is_active_def upd_conn_def)
qed

lemma tcp_reach_ok: "tcp_reach n st \<Longrightarrow> conns_ok n st"
proof (induction rule: tcp_reach.induct)
  case (start n)
  show ?case by (simp add: conns_ok_def tcp_init_def is_active_def is_open_def)
next
  case (serve n st a random W s)
  have "key s = key (io_start (thObjs st ! a))" by (rule processRequest_keeps [OF serve.hyps(3)])
  then show ?case using upd_conn_ok [OF serve.IH serve.hyps(2)] by (simp add: key_def io_start_def)
qed (blast intro: same_conns_ok same_conns_assign same_conns_InitTCPConfig same_conns_configureTCP same_conns_handlers same_conns_clear serve_ok closeClient_ok
  closeListener_ok)+

text \<open>C25: In every reachable state the table of active connections lists exactly the connections that are not closed, each under its request
  and under the listener ID that the configuration of its port had when it was accepted; closing the connections of an ID closes exactly those
  filed under it. That is not always the ID of the listener that accepted them: see \<open>readded_listener_keeps_old_id\<close>.\<close>

theorem active_iff_open:
  assumes "tcp_reach n st" and "a < length (thObjs st)"
  shows "(\<not> thClosed (thObjs st ! a) \<longleftrightarrow>
      mget (mget_or [] (activeConnections st) (tcListenerID (thConfig (thObjs st ! a)))) (thRequestID (thObjs st ! a)) = Some a) \<and>
    (thClosed (thObjs (CloseListenerConnections now lid st) ! a) \<longleftrightarrow> thClosed (thObjs st ! a) \<or> tcListenerID (thConfig (thObjs st ! a)) = lid)"
proof -
  have ok: "conns_ok n st" by (rule tcp_reach_ok [OF assms(1)])
  then have active: "is_active st l i a \<longleftrightarrow> \<not> thClosed (thObjs st ! a) \<and> conn_ids (thObjs st ! a) = (l, i)" for l i
    using assms(2) by (auto simp: conns_ok_def is_open_def)
  have "a \<in> snd ` set (mget_or [] (activeConnections st) lid) \<longleftrightarrow>
      \<not> thClosed (thObjs st ! a) \<and> tcListenerID (thConfig (thObjs st ! a)) = lid"
    using active by (auto simp: active_addresses [OF ok] conn_ids_def)
  then show ?thesis
    using closeListener_result(4) [OF assms(2), of now lid] active [of "tcListenerID (thConfig (thObjs st ! a))" "thRequestID (thObjs st ! a)"]
    by (auto simp: is_active_def conn_ids_def)
qed

definition sample_pd :: "string \<Rightarrow> int option" where
  "sample_pd s = (if s = ''1s'' then Some 1000000000 else if s = ''10ms'' then Some 10000000 else if s = ''2s'' then Some 2000000000 else None)"

definition sample_tcp :: tcp_state where
  "sample_tcp = (case InitTCPConfig sample_pd (\<lambda>_. []) (\<lambda>_. ''9000-1'') 9000 None tcp_init of Some (st, _, _) \<Rightarrow> st | None \<Rightarrow> tcp_init)"

lemma sample_tcp_reach: "tcp_reach 0 sample_tcp"
  unfolding sample_tcp_def by (auto split: option.splits intro: tcp_reach.start tcp_reach.listener)

theorem active_iff_open_witness:
  "let st = fst (ServeClientConnection 5 9000 1 sample_tcp) in
   mget (mget_or [] (activeConnections st) ''9000-1'') 1 = Some 0 \<and> \<not> thClosed (thObjs st ! 0) \<and>
   thClosed (thObjs (CloseListenerConnections 7 ''9000-1'' st) ! 0) \<and> \<not> thClosed (thObjs (CloseListenerConnections 7 ''other'' st) ! 0)"
proof -
  let ?st = "fst (ServeClientConnection 5 9000 1 sample_tcp)"
  have r: "tcp_reach 1 ?st" using tcp_reach.accept [OF sample_tcp_reach, of 5 9000] by simp
  have 1: "0 < length (thObjs ?st)" "\<not> thClosed (thObjs ?st ! 0)" "tcListenerID (thConfig (thObjs ?st ! 0)) = ''9000-1''"
    "thRequestID (thObjs ?st ! 0) = 1" by code_simp+
  show ?thesis
    using active_iff_open [OF r 1(1), of 7 "''9000-1''"] active_iff_open [OF r 1(1), of 7 "''other''"] 1 unfolding Let_def by simp
qed

text \<open>When a TCP listener is added again on a port, the new configuration is copied over the one in the table while the listener that is
  replaced is still in its table, so it gets the old ID; \<open>serveTCP\<close> then writes the new ID into the other object. Connections that the new
  listener accepts are filed under the old ID, and closing the connections of the new one closes none.\<close>

definition readded_tcp :: tcp_state where
  "readded_tcp =
     (case InitTCPConfig sample_pd (\<lambda>_. []) (\<lambda>_. ''9000-1'') 9000 None sample_tcp of
        Some (st, a, _) \<Rightarrow> assign_listener_id a ''9000-2'' st | None \<Rightarrow> sample_tcp)"

lemma readded_tcp_reach: "tcp_reach 0 readded_tcp"
  unfolding readded_tcp_def
  by (auto split: option.splits intro: sample_tcp_reach tcp_reach.listener [OF sample_tcp_reach] tcp_reach.listener_id)

theorem readded_listener_keeps_old_id:
  "let st = fst (ServeClientConnection 5 9000 1 readded_tcp) in
   mget (mget_or [] (activeConnections st) ''9000-1'') 1 = Some 0 \<and> \<not> thClosed (thObjs (CloseListenerConnections 7 ''9000-2'' st) ! 0)"
  by code_simp

section \<open>What a client observes\<close>

lemma live_start: "\<not> thClosing h \<Longrightarrow> \<not> thClosed h \<Longrightarrow> live (io_start h)"
  by (simp add: live_def io_start_def)

lemma new_conn_sel [simp]:
  "thConfig (new_conn now port rid c) = c" "\<not> thClosing (new_conn now port rid c)" "\<not> thClosed (new_conn now port rid c)"
  "length (readBuffer (new_conn now port rid c)) = 100" "expectedPayload (new_conn now port rid c) = []" "writeBufferSize (new_conn now port rid c) = 100"
  by (simp_all add: new_conn_def zero_bytes_def)

lemma doEcho_result:
  assumes "reliable W" and "EchoResponseSize (thConfig h) = int n" and "0 < n" and "\<not> thClosing h" and "\<not> thClosed h"
    and "client_sends W 0 ds" and "\<forall>d \<in> set ds. length d \<le> length (readBuffer h)"
  shows "\<exists>s'. doEcho W (io_start h) = Some s' \<and> ioOut s' = chunks n (concat ds)"
proof -
  let ?h = "(upd_status (\<lambda>t. t\<lparr>TotalBytesRead := 0\<rparr>) h)\<lparr>writeBufferSize := int n, writeBuffer := zero_bytes (int n)\<rparr>"
  have "doEcho W (io_start h) = echo_loop W (int 0) (io_start ?h)"
    using assms(2) by (simp add: doEcho_def resetWriteBuffer_def io_start_def io_status_def upd_io_def upd_status_def)
  moreover have "view (io_start ?h) = (thConfig h, readBuffer h, zero_bytes (int n), 0, [], 0, expectedPayload h)"
    by (simp add: view_def io_start_def upd_status_def)
  moreover have "live (io_start ?h)" using assms(4,5) by (simp add: live_def io_start_def upd_status_def)
  ultimately show ?thesis
    using echo_loop_result [OF assms(1-3), of "io_start ?h" "readBuffer h" "zero_bytes (int n)" 0 "[]" 0 "expectedPayload h" 0 ds] assms(3,6,7)
    by (simp add: zero_bytes_def)
qed

text \<open>How a request is served on a port that has a configuration.\<close>

lemma serve_connection_result:
  assumes "getTCPConfig port st = Some c" and "processRequest random W (io_start (new_conn now port rid c)) = Some s"
  shows "\<exists>st'. serve_connection random W now port rid st = Some (st', ioOut s) \<and>
    mget (mget_or [] (activeConnections st') (tcListenerID c)) rid = None"
proof -
  obtain st1 where s: "ServeClientConnection now port rid st = (st1, Some (length (thObjs st)))" "thObjs st1 ! length (thObjs st) = new_conn now port rid c"
    using assms(1) by (simp add: ServeClientConnection_def Let_def)
  have "key s = key (io_start (new_conn now port rid c))" by (rule processRequest_keeps [OF assms(2)])
  then have k: "tcListenerID (thConfig (ioConn s)) = tcListenerID c" "thRequestID (ioConn s) = rid"
    by (simp_all add: key_def io_start_def conn_ids_def new_conn_def)
  have "mget (mget_or [] (activeConnections (CloseClientConnection t lid rid st2)) lid) rid = None" for t lid st2
  proof (cases "mget (activeConnections st2) lid")
    case (Some conns)
    then show ?thesis by (cases "mget conns rid") (simp_all add: CloseClientConnection_def upd_conn_def mget_or_def)
  qed (simp add: CloseClientConnection_def mget_or_def)
  then show ?thesis using assms(2) k by (simp add: serve_connection_def s)
qed

text \<open>C24: A connection to a port in echo mode without a connection life (with one, nothing is echoed) gets back exactly what it sent, in chunks of the configured size: all full chunks in their
  order, however the data is split into reads, and without the bytes after the last full chunk. The connection ends, and is not active any more.\<close>

theorem echo_sends_back:
  assumes "getTCPConfig port st = Some c" and "tcModes c = no_modes\<lparr>tmEcho := True\<rparr>" and "ConnectionLifeD c \<le> 0"
    and "EchoResponseSize c = int n" and "0 < n" and "reliable W" and "client_sends W 0 ds" and "\<forall>d \<in> set ds. length d \<le> 100"
  shows "\<exists>st' out. serve_connection random W now port rid st = Some (st', out) \<and>
    concat out = take (n * (length (concat ds) div n)) (concat ds) \<and> (\<forall>x \<in> set out. length x = n) \<and>
    mget (mget_or [] (activeConnections st') (tcListenerID c)) rid = None"
proof -
  let ?h = "new_conn now port rid c"
  obtain s where s: "doEcho W (io_start ?h) = Some s" "ioOut s = chunks n (concat ds)"
    using doEcho_result [OF assms(6), of ?h n ds] assms(4,5,7,8) by auto
  have "processRequest random W (io_start ?h) = doEcho W (io_start ?h)"
    using assms(2,3) by (simp add: processRequest_def io_start_def no_modes_def)
  then show ?thesis
    using serve_connection_result [OF assms(1), of random W now rid s] s concat_chunks [of n "concat ds"] chunks_length by auto
qed

definition sample_world :: "string list \<Rightarrow> tcp_world" where
  "sample_world ds = \<lparr>wRead = (\<lambda>k. if k < length ds then RData (ds ! k) else REOF), wScan = (\<lambda>_. None), wOpen = (\<lambda>_. True),
     wWrite = (\<lambda>_ d. Some (int (length d))), wNow = (\<lambda>k. int k), wHost = ''host''\<rparr>"

lemma sample_world_reliable: "reliable (sample_world ds)" and sample_world_sends: "client_sends (sample_world ds) 0 ds"
  by (simp_all add: reliable_def client_sends_def sample_world_def)

theorem echo_sends_back_witness:
  "\<exists>st' out. serve_connection (\<lambda>_. []) (sample_world [''abcdefg'', ''hijklmnop'', ''qrstuvwxyz'']) 5 9000 1 sample_tcp = Some (st', out) \<and>
     concat out = ''abcdefghijklmnopqrst'' \<and> (\<forall>x \<in> set out. length x = 10)"
proof -
  have c: "map_option (\<lambda>c. (tcModes c = no_modes\<lparr>tmEcho := True\<rparr>, ConnectionLifeD c = 0, EchoResponseSize c = 10)) (getTCPConfig 9000 sample_tcp) =
    Some (True, True, True)" by code_simp
  then obtain c where c: "getTCPConfig 9000 sample_tcp = Some c" "tcModes c = no_modes\<lparr>tmEcho := True\<rparr>" "ConnectionLifeD c \<le> 0"
      "EchoResponseSize c = int 10" by auto
  have 1: "take (10 * (length (concat [''abcdefg'', ''hijklmnop'', ''qrstuvwxyz'']) div 10)) (concat [''abcdefg'', ''hijklmnop'', ''qrstuvwxyz'']) =
    ''abcdefghijklmnopqrst''" "\<forall>d \<in> set [''abcdefg'', ''hijklmnop'', ''qrstuvwxyz'']. length d \<le> 100" by code_simp+
  show ?thesis
    using echo_sends_back [OF c zero_less_numeral sample_world_reliable sample_world_sends 1(2), of "\<lambda>_. []" 5 1] unfolding 1(1) by blast
qed

end
