(* ===== verification/Tcp_Verdicts.thy ===== *)
theory Tcp_Verdicts
  imports Tcp_Behaviour
begin

text \<open>
  What a client of the TCP server observes in the other modes: validation of a payload, streams, silent life and preconfigured
  responses; and the parameters of a stream as the handler computes them.
\<close>

section \<open>Validation\<close>

text \<open>The loop of the validation: the payload is complete if at least the expected number of bytes was read, and exceeded if more. \<open>started\<close>: a
  read has happened.\<close>

lemma validate_loop_result:
  assumes "reliable W"
  shows "live s \<Longrightarrow> view s = (c, rb, wb, k, out, tot, e) \<Longrightarrow> client_sends W k ds \<Longrightarrow> \<forall>d \<in> set ds. length d \<le> length rb \<Longrightarrow> 0 \<le> tot \<Longrightarrow>
    (tmValidatePayloadContent (tcModes c) \<longrightarrow> int (length received) = ExpectedPayloadLength c) \<Longrightarrow>
    ready = (started \<and> ExpectedPayloadLength c \<le> tot) \<Longrightarrow> excess = (started \<and> ExpectedPayloadLength c < tot) \<Longrightarrow>
    (check \<longrightarrow> ready) \<Longrightarrow> (ready \<and> \<not> check \<longrightarrow> excess) \<Longrightarrow>
    \<exists>s' received' rb' k' tot' ready' excess'. validate_loop W received ready check excess s = Some (s', received', ready', excess') \<and>
      length received' = length received \<and> view s' = (c, rb', wb, k', out, tot', e) \<and> length rb' = length rb \<and>
      (ready' \<longleftrightarrow> (started \<or> ds \<noteq> []) \<and> ExpectedPayloadLength c \<le> tot + int (length (concat ds))) \<and>
      (excess' \<longleftrightarrow> (started \<or> ds \<noteq> []) \<and> ExpectedPayloadLength c < tot + int (length (concat ds)))"
proof (induction ds arbitrary: s rb k tot received ready check excess started)
  case Nil
  show ?case
  proof (cases "\<not> ready \<or> check")
    case True
    have "wRead W k \<noteq> RData d" for d using Nil.prems(3) by (simp add: client_sends_def)
    then obtain s1 where s1: "readOrScan False W (tick s) = (s1, False, 0)" "thClosing (ioConn s1)" "view s1 = (c, rb, wb, Suc k, out, tot, e)"
      using read_end [OF assms, of "tick s" c rb wb k out tot e] Nil.prems(1,2) by auto
    have "validate_loop W received ready check excess s = validate_loop W received ready check excess s1"
      using True isClosing_live [OF assms Nil.prems(1)] s1(1) by (subst validate_loop.simps) simp
    also have "\<dots> = Some (tick s1, received, ready, excess)"
      using True s1(2) by (subst validate_loop.simps) (simp add: isClosingOrClosed_def)
    finally show ?thesis using s1(3) Nil.prems(7,8) by auto
  next
    case False
    then have "validate_loop W received ready check excess s = Some (s, received, ready, excess)" by (subst validate_loop.simps) simp
    then show ?thesis using Nil.prems(2,7,8) by auto
  qed
next
  case (Cons d ds)
  let ?N = "ExpectedPayloadLength c"
  show ?case
  proof (cases "\<not> ready \<or> check")
    case False
    then have "validate_loop W received ready check excess s = Some (s, received, ready, excess)" by (subst validate_loop.simps) simp
    moreover have "started" "?N < tot" using False Cons.prems(8,10) by auto
    ultimately show ?thesis using Cons.prems(2,7,8) by (simp; blast)
  next
    case True
    have ld: "length d \<le> length rb" using Cons.prems(4) by simp
    obtain s1 where s1: "readOrScan False W (tick s) = (s1, True, int (length d))" "live s1"
        "view s1 = (c, d @ drop (length d) rb, wb, Suc k, out, tot + int (length d), e)"
      using read_data [OF assms, of "tick s" c rb wb k out tot e d] Cons.prems(1-3) ld by (auto simp: client_sends_Cons)
    have cfg: "thConfig (ioConn s1) = c" "TotalBytesRead (thStatus (ioConn s1)) = tot + int (length d)"
        "readBuffer (ioConn s1) = d @ drop (length d) rb" "TotalBytesRead (thStatus (ioConn (tick s))) = tot"
      using s1(3) Cons.prems(2) by (simp_all add: view_def tick_def Let_def)
    let ?copy = "if tmValidatePayloadContent (tcModes c) \<and> tot + int (length d) \<le> ?N
      then go_slice (d @ drop (length d) rb) 0 (int (length d)) \<bind> go_copy received tot (tot + int (length d)) else Some received"
    obtain r where r: "?copy = Some r" "length r = length received"
    proof (cases "tmValidatePayloadContent (tcModes c) \<and> tot + int (length d) \<le> ?N")
      case True
      then have fit: "nat tot + length d \<le> length received" using Cons.prems(5,6) by linarith
      have "go_slice (d @ drop (length d) rb) (int 0) (int (length d)) = Some d" by (subst go_slice_nat) simp_all
      moreover have "go_copy received (int (nat tot)) (int (nat tot + length d)) d = Some (take (nat tot) received @ d @ drop (nat tot + length d) received)"
        using fit by (subst go_copy_nat) simp_all
      ultimately show ?thesis using that [of "take (nat tot) received @ d @ drop (nat tot + length d) received"] True fit Cons.prems(5) by simp
    next
      case False
      show ?thesis using that [of received] unfolding if_not_P [OF False] by blast
    qed
    let ?t = "tot + int (length d)"
    have step: "validate_loop W received ready check excess s =
      validate_loop W r (?N \<le> ?t \<or> ready) (?t = ?N \<or> check) (?N < ?t \<or> excess) s1"
    proof -
      have "validate_loop W received ready check excess s =
        (case ?copy of
           None \<Rightarrow> None
         | Some received \<Rightarrow>
             if ?t = ?N then validate_loop W received True True excess s1
             else if ?t < ?N then validate_loop W received ready check excess s1
             else validate_loop W received True check True s1)"
        using True isClosing_live [OF assms Cons.prems(1)]
        by (subst validate_loop.simps) (simp add: s1(1) cfg Let_def split del: if_split cong: if_cong option.case_cong)
      then show ?thesis unfolding r(1) option.case by auto
    qed
    have "\<exists>s' received' rb' k' tot' ready' excess'.
        validate_loop W r (?N \<le> ?t \<or> ready) (?t = ?N \<or> check) (?N < ?t \<or> excess) s1 = Some (s', received', ready', excess') \<and>
        length received' = length r \<and> view s' = (c, rb', wb, k', out, tot', e) \<and> length rb' = length (d @ drop (length d) rb) \<and>
        (ready' \<longleftrightarrow> (True \<or> ds \<noteq> []) \<and> ?N \<le> ?t + int (length (concat ds))) \<and>
        (excess' \<longleftrightarrow> (True \<or> ds \<noteq> []) \<and> ?N < ?t + int (length (concat ds)))"
    proof (rule Cons.IH [OF s1(2,3)])
      show "client_sends W (Suc k) ds" using Cons.prems(3) by (simp add: client_sends_Cons)
      show "\<forall>x \<in> set ds. length x \<le> length (d @ drop (length d) rb)" using Cons.prems(4) ld by simp
    qed (use Cons.prems(5-10) r(2) in auto)
    then show ?thesis unfolding step using r(2) ld by (simp add: add.assoc)
  qed
qed

text \<open>The verdict and the message that is sent with it.\<close>

definition expected_verdict :: "bool \<Rightarrow> int \<Rightarrow> string list \<Rightarrow> verdict" where
  "expected_verdict content expected ds =
     (let n = int (length (concat ds)) in
      if ds = [] \<or> n < expected then VTimeout else if expected < n then VExceeded else if content then VContent else VSuccess)"

lemma doPayloadValidation_result:
  assumes "reliable W" and "\<not> thClosing h" and "\<not> thClosed h" and "0 \<le> writeBufferSize h" and "0 < readBufferSize h" and "expectedPayload h = []"
    and "client_sends W 0 ds" and "\<forall>d \<in> set ds. int (length d) \<le> readBufferSize h"
    and "tmValidatePayloadContent (tcModes (thConfig h)) \<longrightarrow> 0 < ExpectedPayloadLength (thConfig h)"
  shows "\<exists>s' v. doPayloadValidation W (io_start h) = Some (s', v) \<and>
    v = expected_verdict (tmValidatePayloadContent (tcModes (thConfig h))) (ExpectedPayloadLength (thConfig h)) ds \<and>
    (\<exists>got. ioOut s' = [''['' @ wHost W @ '']'' @ verdict_text got (ExpectedPayloadLength (thConfig h)) (tcPort (thConfig h)) v])"
proof -
  let ?content = "tmValidatePayloadContent (tcModes (thConfig h))" and ?N = "ExpectedPayloadLength (thConfig h)"
  let ?f = "\<lambda>h. if ConnectionLifeD (thConfig h) \<le> 0 then h\<lparr>thConfig := (thConfig h)\<lparr>ConnectionLifeD := 30000000000\<rparr>\<rparr> else h"
  define s0 where "s0 = upd_io resetReadBuffer (io_status (\<lambda>t. t\<lparr>TotalBytesRead := 0\<rparr>) (upd_io ?f (io_start h)))"
  define c where "c = thConfig (ioConn s0)"
  define s1 where "s1 = s0\<lparr>ioConn := (ioConn s0)\<lparr>writeBuffer := zero_bytes (writeBufferSize (ioConn s0))\<rparr>\<rparr>"
  define wb where "wb = zero_bytes (writeBufferSize h)" define rb where "rb = zero_bytes (readBufferSize h)"
  have c: "tmValidatePayloadContent (tcModes c) = ?content" "ExpectedPayloadLength c = ?N" "tcPort c = tcPort (thConfig h)"
    by (simp_all add: c_def s0_def upd_io_def io_status_def upd_status_def resetReadBuffer_def io_start_def)
  have reset: "resetWriteBuffer (ioConn s0) = Some (ioConn s1)" "s0\<lparr>ioConn := ioConn s1\<rparr> = s1"
    using assms(4) by (simp_all add: s1_def s0_def resetWriteBuffer_def upd_io_def io_status_def upd_status_def resetReadBuffer_def io_start_def)
  have v1: "view s1 = (c, rb, wb, 0, [], 0, [])" and l1: "live s1"
    using assms(2,3,6)
    by (simp_all add: s1_def c_def s0_def rb_def wb_def view_def live_def upd_io_def io_status_def upd_status_def resetReadBuffer_def io_start_def Let_def)
  define received where "received = (if ?content then zero_bytes ?N else [])"
  have lr: "tmValidatePayloadContent (tcModes c) \<longrightarrow> int (length received) = ExpectedPayloadLength c"
    using assms(9) by (auto simp: received_def c zero_bytes_def)
  have fits: "\<forall>d \<in> set ds. length d \<le> length rb" using assms(5,8) by (auto simp: rb_def zero_bytes_def)
  obtain s2 received' rb' k' tot' ready excess where s2: "validate_loop W received False False False s1 = Some (s2, received', ready, excess)"
      "length received' = length received" "view s2 = (c, rb', wb, k', [], tot', [])"
      "ready \<longleftrightarrow> ds \<noteq> [] \<and> ?N \<le> int (length (concat ds))" "excess \<longleftrightarrow> ds \<noteq> [] \<and> ?N < int (length (concat ds))"
    using validate_loop_result [OF assms(1) l1 v1 assms(7) fits _ lr, of False False False False] by (auto simp: c)
  have cm: "content_matches received' (ioConn s2) = Some False" if "?content"
  proof -
    have "int (length received') = ?N" "0 < ?N" using that assms(9) s2(2) lr c by auto
    then have "go_slice received' 0 ?N = Some received'" "received' \<noteq> []" by (auto simp: go_slice_def)
    moreover have "ExpectedPayloadLength (thConfig (ioConn s2)) = ?N" "expectedPayload (ioConn s2) = []"
      using s2(3) c by (auto simp: view_def Let_def)
    ultimately show ?thesis by (simp add: content_matches_def)
  qed
  define v where "v = expected_verdict ?content ?N ds"
  have verdict: "(if \<not> ready then Some VTimeout else if excess then Some VExceeded
      else if ?content then map_option (\<lambda>ok. if ok then VSuccess else VContent) (content_matches received' (ioConn s2)) else Some VSuccess) = Some v"
    using cm s2(4,5) by (auto simp: v_def expected_verdict_def Let_def)
  let ?m = "verdict_text (TotalBytesRead (thStatus (ioConn s2))) ?N (tcPort (thConfig h)) v"
  obtain s' where s': "sendMessage W ?m s2 = Some s'" "view s' = (c, rb', wb, k', [''['' @ wHost W @ '']'' @ ?m], tot', [])"
    using sendMessage_reliable [OF assms(1) s2(3), of ?m] by auto
  have rec: "(if \<not> ?content then Some [] else if ?N < 0 then None else Some (zero_bytes ?N)) = Some received"
    using assms(9) by (auto simp: received_def)
  have "doPayloadValidation W (io_start h) = Some (s', v)"
    unfolding doPayloadValidation_def Let_def s0_def [symmetric] c_def [symmetric] c
    by (simp add: reset rec s2(1) verdict s'(1))
  then show ?thesis using s'(2) by (auto simp: v_def view_def Let_def)
qed

lemma validation_served:
  assumes "getTCPConfig port st = Some c" and "tcModes c = no_modes\<lparr>tmValidatePayloadLength := True, tmValidatePayloadContent := content\<rparr>"
    and "content \<longrightarrow> 0 < ExpectedPayloadLength c" and "reliable W" and "client_sends W 0 ds" and "\<forall>d \<in> set ds. length d \<le> 100"
  shows "\<exists>st' got. serve_connection random W now port rid st =
    Some (st', [''['' @ wHost W @ '']'' @ verdict_text got (ExpectedPayloadLength c) (tcPort c) (expected_verdict content (ExpectedPayloadLength c) ds)])"
proof -
  let ?h = "new_conn now port rid c"
  have "\<exists>s' v. doPayloadValidation W (io_start ?h) = Some (s', v) \<and>
      v = expected_verdict (tmValidatePayloadContent (tcModes (thConfig ?h))) (ExpectedPayloadLength (thConfig ?h)) ds \<and>
      (\<exists>got. ioOut s' = [''['' @ wHost W @ '']'' @ verdict_text got (ExpectedPayloadLength (thConfig ?h)) (tcPort (thConfig ?h)) v])"
    by (rule doPayloadValidation_result [OF assms(4)]) (use assms(2,3,5,6) in \<open>auto simp: new_conn_def no_modes_def\<close>)
  then obtain s' got where s': "doPayloadValidation W (io_start ?h) = Some (s', expected_verdict content (ExpectedPayloadLength c) ds)"
      "ioOut s' = [''['' @ wHost W @ '']'' @ verdict_text got (ExpectedPayloadLength c) (tcPort c) (expected_verdict content (ExpectedPayloadLength c) ds)]"
    using assms(2) by auto
  have "processRequest random W (io_start ?h) = Some s'"
    using assms(2) s'(1) by (simp add: processRequest_def io_start_def no_modes_def)
  then show ?thesis using serve_connection_result [OF assms(1), of random W now rid s'] s'(2) by auto
qed

text \<open>C26: Validation of the length tells a client that sends something exactly whether it sent the expected number of bytes, fewer or more, however the
  bytes are split into reads, and that is all it sends. A client that sends nothing is not covered: it is told of a timeout even if no
  byte is expected.\<close>

theorem length_validation_verdict:
  assumes "getTCPConfig port st = Some c" and "tcModes c = no_modes\<lparr>tmValidatePayloadLength := True\<rparr>"
    and "reliable W" and "client_sends W 0 ds" and "ds \<noteq> []" and "\<forall>d \<in> set ds. length d \<le> 100"
  shows "\<exists>st' got. serve_connection random W now port rid st = Some (st', [''['' @ wHost W @ '']'' @ verdict_text got (ExpectedPayloadLength c) (tcPort c)
    (if int (length (concat ds)) = ExpectedPayloadLength c then VSuccess
     else if int (length (concat ds)) < ExpectedPayloadLength c then VTimeout else VExceeded)])"
proof -
  have m: "tcModes c = no_modes\<lparr>tmValidatePayloadLength := True, tmValidatePayloadContent := False\<rparr>" using assms(2) by (simp add: no_modes_def)
  have "expected_verdict False (ExpectedPayloadLength c) ds =
    (if int (length (concat ds)) = ExpectedPayloadLength c then VSuccess
     else if int (length (concat ds)) < ExpectedPayloadLength c then VTimeout else VExceeded)"
    using assms(5) by (auto simp: expected_verdict_def)
  then show ?thesis using validation_served [OF assms(1) m _ assms(3,4,6), of random now rid] by auto
qed

text \<open>C27: Validation of the content never succeeds: a client that sends exactly the payload that was configured is told that its content does not
  match.\<close>

theorem content_validation_rejects:
  assumes "setExpectedPayload present body r st = Some (st1, w)" and "validateTCPListener present r st" and "body \<noteq> []"
    and "reliable W" and "client_sends W 0 ds" and "concat ds = body" and "\<forall>d \<in> set ds. length d \<le> 100"
    and "mget (tcpListeners st) (port_var r) = Some a" and "a < length (tcObjs st)"
  shows "\<exists>st' got. serve_connection random W now (port_var r) rid st1 =
    Some (st', [''['' @ wHost W @ '']'' @ verdict_text got (int (length body)) (tcPort (tcObjs st ! a)) VContent])"
proof -
  let ?c = "(upd_modes (\<lambda>m. m\<lparr>tmValidatePayloadLength := True, tmValidatePayloadContent := True\<rparr>) (turnOffAllModes (tcObjs st ! a)))
    \<lparr>ExpectedPayload := body, ExpectedPayloadLength := int (length body)\<rparr>"
  have c: "getTCPConfig (port_var r) st1 = Some ?c"
    using assms(1,2,8,9) by (auto simp: setExpectedPayload_def for_tcp_def upd_config_def getTCPConfig_def)
  have m: "tcModes ?c = no_modes\<lparr>tmValidatePayloadLength := True, tmValidatePayloadContent := True\<rparr>"
    and e: "ExpectedPayloadLength ?c = int (length body)" "tcPort ?c = tcPort (tcObjs st ! a)"
    by (simp_all add: upd_modes_def turnOffAllModes_def)
  have "expected_verdict True (int (length body)) ds = VContent" using assms(3,6) by (auto simp: expected_verdict_def Let_def)
  then show ?thesis using validation_served [OF c m _ assms(4,5,7), of random now rid] assms(3) unfolding e by auto
qed

definition sample_tcp_request :: "string \<Rightarrow> (string, string) gomap \<Rightarrow> request" where
  "sample_tcp_request uri vars = \<lparr>reqPort = ''8080'', reqPortNum = 8080, RequestURI = uri, URLPath = uri, reqMethod = ''POST'', reqHeaders = [],
     reqVars = (''port'', ''9000'') # vars, reqQuery = [], IsKnownNonTraffic = True, IsAdminRequest = True\<rparr>"

definition after_request :: "(tcp_state \<times> http_out) option \<Rightarrow> tcp_state" where
  "after_request res = (case res of Some (st, _) \<Rightarrow> st | None \<Rightarrow> tcp_init)"

definition sample_length_state :: tcp_state where
  "sample_length_state = after_request (setExpectedPayloadLength (\<lambda>_. True) (sample_tcp_request ''/server/tcp/9000/expect/payload/length=5'' [(''length'', ''5'')]) sample_tcp)"

theorem length_validation_verdict_witness:
  "\<exists>st' got. serve_connection (\<lambda>_. []) (sample_world [''abc'', ''de'']) 5 9000 1 sample_length_state =
     Some (st', [''[host]'' @ verdict_text got 5 9000 VSuccess])"
proof -
  have "map_option (\<lambda>c. (tcModes c = no_modes\<lparr>tmValidatePayloadLength := True\<rparr>, ExpectedPayloadLength c, tcPort c)) (getTCPConfig 9000 sample_length_state) =
    Some (True, 5, 9000)" by code_simp
  then obtain c where c: "getTCPConfig 9000 sample_length_state = Some c" "tcModes c = no_modes\<lparr>tmValidatePayloadLength := True\<rparr>"
      "ExpectedPayloadLength c = 5" "tcPort c = 9000" by auto
  have d: "[''abc'', ''de''] \<noteq> []" "\<forall>d \<in> set [''abc'', ''de'']. length d \<le> 100" "wHost (sample_world [''abc'', ''de'']) = ''host''"
    "int (length (concat [''abc'', ''de''])) = 5" by (simp_all add: sample_world_def)
  show ?thesis
    using length_validation_verdict [OF c(1,2) sample_world_reliable sample_world_sends d(1,2), of "\<lambda>_. []" 5 1] unfolding c(3,4) d(3,4) by simp
qed

definition sample_expect :: request where
  "sample_expect = sample_tcp_request ''/server/tcp/9000/expect/payload'' []"

theorem content_validation_rejects_witness:
  "\<exists>st1 w st' got. setExpectedPayload (\<lambda>_. True) ''hello'' sample_expect sample_tcp = Some (st1, w) \<and>
     serve_connection (\<lambda>_. []) (sample_world [''hello'']) 5 9000 1 st1 = Some (st', [''[host]'' @ verdict_text got 5 9000 VContent])"
proof -
  have v: "validateTCPListener (\<lambda>_. True) sample_expect sample_tcp" and p: "port_var sample_expect = 9000"
    and a: "mget (tcpListeners sample_tcp) 9000 = Some 0" "0 < length (tcObjs sample_tcp)" "tcPort (tcObjs sample_tcp ! 0) = 9000"
    by code_simp+
  obtain st1 w where s: "setExpectedPayload (\<lambda>_. True) ''hello'' sample_expect sample_tcp = Some (st1, w)"
    using v by (simp add: setExpectedPayload_def for_tcp_def)
  have d: "''hello'' \<noteq> []" "concat [''hello''] = ''hello''" "\<forall>d \<in> set [''hello'']. length d \<le> 100" "wHost (sample_world [''hello'']) = ''host''"
    "int (length ''hello'') = 5" by (simp_all add: sample_world_def)
  show ?thesis
    using content_validation_rejects [OF s v d(1) sample_world_reliable sample_world_sends d(2,3), unfolded p, OF a(1,2), of "\<lambda>_. []" 5 1] s
    unfolding a(3) d(4,5) by auto
qed

section \<open>Silent life\<close>

lemma silent_loop_result:
  assumes "reliable W"
  shows "live s \<Longrightarrow> view s = (c, rb, wb, k, out, tot, e) \<Longrightarrow> client_sends W k ds \<Longrightarrow> \<forall>d \<in> set ds. length d \<le> length rb \<Longrightarrow>
    \<exists>s'. silent_loop W s = Some s' \<and> ioOut s' = out @ [''['' @ wHost W @ '']'' @ Itoa (tot + int (length (concat ds)))]"
proof (induction ds arbitrary: s rb k tot)
  case Nil
  have "wRead W k \<noteq> RData d" for d using Nil.prems(3) by (simp add: client_sends_def)
  then obtain s1 where s1: "readOrScan False W (tick s) = (s1, False, 0)" "thClosing (ioConn s1)" "view s1 = (c, rb, wb, Suc k, out, tot, e)"
    using read_end [OF assms, of "tick s" c rb wb k out tot e] Nil.prems(1,2) by auto
  have "silent_loop W s = silent_loop W s1"
    using isClosing_live [OF assms Nil.prems(1)] s1(1) by (subst silent_loop.simps) simp
  also have "\<dots> = sendMessage W (Itoa tot) (tick s1)"
    using s1(2,3) by (subst silent_loop.simps) (simp add: isClosingOrClosed_def tick_def view_def Let_def)
  finally have eq: "silent_loop W s = sendMessage W (Itoa tot) (tick s1)" .
  obtain s' where "sendMessage W (Itoa tot) (tick s1) = Some s'" "view s' = (c, rb, wb, Suc k, out @ [''['' @ wHost W @ '']'' @ Itoa tot], tot, e)"
    using sendMessage_reliable [OF assms, of "tick s1" c rb wb "Suc k" out tot e "Itoa tot"] s1(3) by auto
  then show ?case using eq by (simp add: view_def Let_def)
next
  case (Cons d ds)
  have ld: "length d \<le> length rb" using Cons.prems(4) by simp
  obtain s1 where s1: "readOrScan False W (tick s) = (s1, True, int (length d))" "live s1"
      "view s1 = (c, d @ drop (length d) rb, wb, Suc k, out, tot + int (length d), e)"
    using read_data [OF assms, of "tick s" c rb wb k out tot e d] Cons.prems(1-3) ld by (auto simp: client_sends_Cons)
  have "silent_loop W s = silent_loop W s1"
    using isClosing_live [OF assms Cons.prems(1)] s1(1) by (subst silent_loop.simps) simp
  then show ?case using Cons.IH [OF s1(2,3)] Cons.prems(3,4) ld by (simp add: client_sends_Cons add.assoc)
qed

text \<open>A port in echo mode that is given a connection life does not echo any more: it reads until the client stops and then sends only
  the number of bytes it has read.\<close>

theorem echo_with_life_is_silent:
  assumes "getTCPConfig port st = Some c" and "tcModes c = no_modes\<lparr>tmEcho := True\<rparr>" and "0 < ConnectionLifeD c"
    and "reliable W" and "client_sends W 0 ds" and "\<forall>d \<in> set ds. length d \<le> 100"
  shows "\<exists>st'. serve_connection random W now port rid st = Some (st', [''['' @ wHost W @ '']'' @ Itoa (int (length (concat ds)))])"
proof -
  let ?h = "new_conn now port rid c"
  let ?s = "io_status (\<lambda>t. t\<lparr>TotalBytesRead := 0\<rparr>) (upd_io (\<lambda>h. h\<lparr>thConfig := upd_modes (\<lambda>m. m\<lparr>tmSilentLife := True\<rparr>) (thConfig h)\<rparr>) (io_start ?h))"
  have v: "view ?s = (upd_modes (\<lambda>m. m\<lparr>tmSilentLife := True\<rparr>) c, readBuffer ?h, writeBuffer ?h, 0, [], 0, [])" and l: "live ?s"
    by (simp_all add: view_simps io_start_def)
  obtain s' where s': "silent_loop W ?s = Some s'" "ioOut s' = [''['' @ wHost W @ '']'' @ Itoa (int (length (concat ds)))]"
    using silent_loop_result [OF assms(4) l v assms(5)] assms(6) by auto
  have "processRequest random W (io_start ?h) = Some s'"
    using assms(2,3) s'(1) by (simp add: processRequest_def doSilentLife_def io_start_def no_modes_def)
  then show ?thesis using serve_connection_result [OF assms(1), of random W now rid s'] s'(2) by auto
qed

definition sample_life_state :: tcp_state where
  "sample_life_state = after_request (setConnectionDurationConfig sample_pd (\<lambda>_. True)
     (sample_tcp_request ''/server/tcp/9000/connection/set/life=1s'' [(''duration'', ''1s'')]) sample_tcp)"

theorem echo_with_life_is_silent_witness:
  "\<exists>st'. serve_connection (\<lambda>_. []) (sample_world [''hello world!'']) 5 9000 1 sample_life_state = Some (st', [''[host]12''])"
proof -
  have "map_option (\<lambda>c. (tcModes c = no_modes\<lparr>tmEcho := True\<rparr>, ConnectionLifeD c)) (getTCPConfig 9000 sample_life_state) = Some (True, 1000000000)"
    by code_simp
  then obtain c where c: "getTCPConfig 9000 sample_life_state = Some c" "tcModes c = no_modes\<lparr>tmEcho := True\<rparr>" "0 < ConnectionLifeD c" by auto
  have d: "\<forall>d \<in> set [''hello world!'']. length d \<le> 100" by simp
  have "''['' @ wHost (sample_world [''hello world!'']) @ '']'' @ Itoa (int (length (concat [''hello world!'']))) = ''[host]12''" by code_simp
  then show ?thesis using echo_with_life_is_silent [OF c sample_world_reliable sample_world_sends d, of "\<lambda>_. []" 5 1] by simp
qed

section \<open>Preconfigured responses\<close>

text \<open>Turning on the payload mode of a port that has no response payloads makes the next connection to it panic, which ends the
  server.\<close>

theorem payload_mode_crashes:
  assumes "setModes pd showD present r st = Some (st1, w)" and "validateTCPListener present r st"
    and "mget (tcpListeners st) (port_var r) = Some a" and "a < length (tcObjs st)" and "ResponsePayloads (tcObjs st ! a) = []"
    and "Contains (RequestURI r) ''payload''" and "GetBoolParamValue r ''enable'' None"
  shows "serve_connection random W now (port_var r) rid st1 = None"
proof -
  let ?c = "upd_modes (\<lambda>m. m\<lparr>tmPayload := True\<rparr>) (turnOffAllModes (tcObjs st ! a))"
  from assms(1-4,6,7) obtain c bad where c: "Configure pd showD ?c = Some (c, bad)" and st1: "st1 = upd_config (port_var r) (\<lambda>_. c) st"
    by (auto simp: setModes_def for_tcp_def getTCPConfig_def set_mode_def)
  have "ResponsePayloads c = ResponsePayloads ?c \<and> tcModes c = tcModes ?c"
    using c by (auto simp: Configure_def configureStream_def configureStreamParams_def Let_def split: prod.splits)
  then have "ResponsePayloads c = []" "tmPayload (tcModes c)" using assms(5) by (simp_all add: upd_modes_def turnOffAllModes_def)
  moreover have "getTCPConfig (port_var r) st1 = Some c" using assms(3,4) by (simp add: st1 upd_config_def getTCPConfig_def)
  ultimately show ?thesis
    by (simp add: serve_connection_def ServeClientConnection_def Let_def processRequest_def doResponsePayload_def io_start_def)
qed

definition sample_payload_on :: request where
  "sample_payload_on = sample_tcp_request ''/server/tcp/9000/set/payload=yes'' [(''enable'', ''yes'')]"

theorem payload_mode_crashes_witness:
  "\<exists>st1 w. setModes sample_pd (\<lambda>_. []) (\<lambda>_. True) sample_payload_on sample_tcp = Some (st1, w) \<and>
     serve_connection (\<lambda>_. []) (sample_world []) 5 9000 1 st1 = None"
proof -
  have v: "validateTCPListener (\<lambda>_. True) sample_payload_on sample_tcp" and p: "port_var sample_payload_on = 9000"
    and a: "mget (tcpListeners sample_tcp) 9000 = Some 0" "0 < length (tcObjs sample_tcp)" "ResponsePayloads (tcObjs sample_tcp ! 0) = []"
    and r: "Contains (RequestURI sample_payload_on) ''payload''" "GetBoolParamValue sample_payload_on ''enable'' None"
    and s: "setModes sample_pd (\<lambda>_. []) (\<lambda>_. True) sample_payload_on sample_tcp \<noteq> None"
    by code_simp+
  from s obtain st1 w where s: "setModes sample_pd (\<lambda>_. []) (\<lambda>_. True) sample_payload_on sample_tcp = Some (st1, w)" by auto
  show ?thesis using payload_mode_crashes [OF s v, unfolded p, OF a r, of "\<lambda>_. []" "sample_world []" 5 1] s by blast
qed

section \<open>Streams\<close>

lemma Milliseconds_pos: "0 < d \<Longrightarrow> Milliseconds d = d div 1000000"
  by (simp add: Milliseconds_def quot_nonneg)

lemma is_int64_div: "is_int64 a \<Longrightarrow> 0 \<le> a \<Longrightarrow> 0 < b \<Longrightarrow> is_int64 (a div b)"
  using zdiv_mono2 [of a 1 b] by (auto simp: is_int64_def pos_imp_zdiv_nonneg_iff intro: order_trans [of _ 0])

lemma go_div_pos: "is_int64 a \<Longrightarrow> 0 \<le> a \<Longrightarrow> 0 < b \<Longrightarrow> go_div a b = Some (a div b)"
  by (simp add: go_div_def quot_nonneg is_int64_div)

lemma div_bounds: "0 < d \<Longrightarrow> d * (m div d) \<le> m \<and> m < d + d * (m div d)" for m d :: int
  using pos_mod_sign [of d m] pos_mod_bound [of d m] mult_div_mod_eq [of d m] by linarith

text \<open>The parameters of a stream that is given by its payload, its duration and the delay between chunks.\<close>

lemma stream_values_payload:
  assumes "0 < ps" and "0 < sd" and "0 < cd" and "is_int64 ps" and "is_int64 sd"
  defines "cc \<equiv> Milliseconds sd div Milliseconds cd"
  shows "stream_values stream (ps, sd, 0, 0, cd) =
    (if Milliseconds cd = 0 \<or> Milliseconds sd < Milliseconds cd then None
     else Some (ps, sd, cc, if stream \<and> ps div cc = 0 then 100 else ps div cc, cd))"
proof (cases "Milliseconds cd = 0")
  case True
  then show ?thesis
    using assms(1-3) by (simp add: stream_values_def drop_excess_def compute_missing_def if_zero_def computeChunkCount_def go_div_def)
next
  case False
  have m: "0 \<le> Milliseconds sd" "0 < Milliseconds cd" "is_int64 (Milliseconds sd)"
    using False assms(2,3,5) by (simp_all add: Milliseconds_pos pos_imp_zdiv_nonneg_iff is_int64_div order_less_le)
  have count: "computeChunkCount ps 0 cd sd = Some cc"
    using assms(2,3) m by (simp add: computeChunkCount_def go_div_pos cc_def)
  have cc0: "cc = 0 \<longleftrightarrow> Milliseconds sd < Milliseconds cd" and cc: "0 \<le> cc"
    using m by (auto simp: cc_def pos_imp_zdiv_nonneg_iff zdiv_eq_0_iff)
  show ?thesis
  proof (cases "cc = 0")
    case True
    then have "computeChunkSize ps cc cd sd = None"
      using assms(1-3) m cc_def by (simp add: computeChunkSize_def go_div_pos) (simp add: go_div_def)
    then show ?thesis
      using True cc0 assms(1-3) count by (simp add: stream_values_def drop_excess_def compute_missing_def if_zero_def)
  next
    case False
    then have size: "computeChunkSize ps cc cd sd = Some (ps div cc)"
      using assms(1,4) cc by (simp add: computeChunkSize_def go_div_pos)
    have "compute_missing (drop_excess (ps, sd, 0, 0, cd)) = Some (ps, sd, cc, ps div cc, cd)"
      using assms(1-3) count size by (simp add: drop_excess_def compute_missing_def if_zero_def)
    moreover have "fill_defaults (ps, sd, cc, ps div cc, cd) = Some (ps, sd, cc, if ps div cc = 0 then 100 else ps div cc, cd)"
      using assms(1-3) False size by (simp add: fill_defaults_def if_zero_def or_default_def)
    ultimately show ?thesis using False cc0 \<open>Milliseconds cd \<noteq> 0\<close> by (simp add: stream_values_def)
  qed
qed

text \<open>C28: Streaming a payload over a duration with a delay between chunks: the handler panics exactly if the delay is below a millisecond or longer than the
  duration; otherwise the number of chunks is the number of delays that fit into the duration, and if there are no more chunks than bytes the chunks cover
  the payload up to less than one byte for each chunk.\<close>

theorem payload_stream_bounds:
  assumes "validateTCPListener present r st" and "mget (tcpListeners st) (port_var r) = Some a" and "a < length (tcObjs st)"
    and "GetStringParamValue r ''chunkSize'' None = []" and "GetIntParamValue r ''chunkCount'' None = 0"
    and "ParseSize size_units (GetStringParamValue r ''payloadSize'' None) = ps" and "0 < ps" and "is_int64 ps"
    and "GetStringParamValue r ''duration'' None = dur" and "dur \<noteq> []" and "pd dur = Some sd" and "0 < sd" and "is_int64 sd"
    and "pd (GetStringParamValue r ''delay'' None) = Some cd" and "0 < cd"
  shows "(setStreamConfig pd showD present r st = None \<longleftrightarrow> Milliseconds cd = 0 \<or> Milliseconds sd < Milliseconds cd) \<and>
    (\<forall>st' w. setStreamConfig pd showD present r st = Some (st', w) \<longrightarrow>
       (let c = tcObjs st' ! a; n = StreamChunkCount (tcStream c); sz = StreamChunkSizeV (tcStream c) in
        tcModes c = no_modes\<lparr>tmStream := True\<rparr> \<and> StreamDurationD (tcStream c) = sd \<and> StreamChunkDelayD (tcStream c) = cd \<and>
        0 < n \<and> n * Milliseconds cd \<le> Milliseconds sd \<and> Milliseconds sd < (n + 1) * Milliseconds cd \<and>
        (n \<le> ps \<longrightarrow> n * sz \<le> ps \<and> ps < n * sz + n)))"
proof -
  let ?m = "Milliseconds sd" and ?d = "Milliseconds cd" and ?c = "tcObjs st ! a"
  define cc where "cc = ?m div ?d"
  define p where "p = GetStringParamValue r ''payloadSize'' None"
  define dl where "dl = GetStringParamValue r ''delay'' None"
  have ps: "ParseSize size_units p = ps" "pd dl = Some cd" using assms(6,14) by (simp_all add: p_def dl_def)
  have "p \<noteq> []" using ps(1) assms(7) by (auto simp: ParseSize_def)
  let ?v = "stream_values (tmStream (tcModes ?c)) (ps, sd, 0, 0, cd)"
  have run: "configureStreamParams pd showD p [] dur dl 0 ?c = map_option (\<lambda>(ps', sd, cc, cs, cd).
        ?c\<lparr>tcStream := (tcStream ?c)\<lparr>StreamChunkSizeV := cs, StreamChunkSize := Itoa cs, StreamChunkCount := cc,
             StreamChunkDelayD := cd, StreamChunkDelay := showD cd, StreamDurationD := sd, StreamDuration := showD sd, StreamPayloadSizeV := ps',
             StreamPayloadSize := (if 10 < \<bar>wrap64 (ps - wrap64 (cc * cs))\<bar> then Itoa ps' else StreamPayloadSize (tcStream ?c))\<rparr>\<rparr>) ?v"
    using ps assms(11) by (simp add: configureStreamParams_def ParseDuration_def Let_def ParseSize_def [of _ "[]"])
  have set: "setStreamConfig pd showD present r st =
      map_option (\<lambda>c. (upd_config (port_var r) (\<lambda>_. upd_modes (\<lambda>m. m\<lparr>tmStream := True\<rparr>) (turnOffAllModes c)) st, SendEvent ''TCP Streaming Configured'' no_out))
        (configureStreamParams pd showD p [] dur dl 0 ?c)"
    using assms(1,2,4,5,9,10) \<open>p \<noteq> []\<close> by (simp add: setStreamConfig_def for_tcp_def getTCPConfig_def p_def dl_def Let_def)
  note v = stream_values_payload [OF assms(7,12,15,8,13), of "tmStream (tcModes ?c)"]
  show ?thesis
  proof (cases "?d = 0 \<or> ?m < ?d")
    case True
    then show ?thesis using set run v by simp
  next
    case False
    define sz where "sz = (if tmStream (tcModes ?c) \<and> ps div cc = 0 then 100 else ps div cc)"
    have v: "?v = Some (ps, sd, cc, sz, cd)" using v False by (simp add: cc_def sz_def)
    have d: "0 < ?d" "?d \<le> ?m" using False assms(15) by (auto simp: Milliseconds_pos order_less_le pos_imp_zdiv_nonneg_iff)
    have n: "0 < cc" "cc * ?d \<le> ?m" "?m < (cc + 1) * ?d"
      using d pos_imp_zdiv_pos_iff [of ?d ?m] div_bounds [OF d(1), of ?m] by (simp_all add: cc_def algebra_simps)
    have "cc * sz \<le> ps \<and> ps < cc * sz + cc" if "cc \<le> ps"
    proof -
      have "0 < ps div cc" using n(1) that by (simp add: pos_imp_zdiv_pos_iff)
      then have "sz = ps div cc" by (simp add: sz_def)
      then show ?thesis using div_bounds [OF n(1), of ps] by simp
    qed
    moreover obtain c1 where c1: "configureStreamParams pd showD p [] dur dl 0 ?c = Some c1" "StreamDurationD (tcStream c1) = sd"
        "StreamChunkDelayD (tcStream c1) = cd" "StreamChunkCount (tcStream c1) = cc" "StreamChunkSizeV (tcStream c1) = sz"
      unfolding run v by simp
    define c2 where "c2 = upd_modes (\<lambda>m. m\<lparr>tmStream := True\<rparr>) (turnOffAllModes c1)"
    have c2: "tcModes c2 = no_modes\<lparr>tmStream := True\<rparr>" "tcStream c2 = tcStream c1" by (simp_all add: c2_def upd_modes_def turnOffAllModes_def)
    have "setStreamConfig pd showD present r st = Some (upd_config (port_var r) (\<lambda>_. c2) st, SendEvent ''TCP Streaming Configured'' no_out)"
      using set by (simp add: c1(1) c2_def)
    moreover have "tcObjs (upd_config (port_var r) (\<lambda>_. c2) st) ! a = c2" using assms(2,3) by (simp add: upd_config_def)
    ultimately show ?thesis using False n c1(2-5) c2 unfolding Let_def by simp
  qed
qed

text \<open>A stream sends its chunks, all of the same random text.\<close>

lemma stream_loop_result:
  assumes "reliable W"
  shows "live s \<Longrightarrow> view s = (c, rb, wb, k, out, tot, e) \<Longrightarrow> ConnectionLifeD c \<le> 0 \<Longrightarrow>
    \<exists>s'. stream_loop W p n s = Some s' \<and> ioOut s' = out @ replicate n p"
proof (induction n arbitrary: s out)
  case 0
  then show ?case by (simp add: view_def Let_def)
next
  case (Suc n)
  have c: "thConfig (ioConn (tick s)) = c" using Suc.prems(2) by (simp add: view_def tick_def Let_def)
  obtain s1 where s1: "sendDataToClient W p (tick (tick s)) = Some (s1, True)" "live s1" "view s1 = (c, rb, wb, k, out @ [p], tot, e)"
    using send_reliable [OF assms, of "tick (tick s)" c rb wb k out tot e p] Suc.prems(1,2) by auto
  have "stream_loop W p (Suc n) s = stream_loop W p n s1"
    using isClosing_live [OF assms Suc.prems(1)] Suc.prems(3) c s1(1) by (simp add: Let_def)
  then show ?case using Suc.IH [OF s1(2,3) Suc.prems(3)] by (simp add: replicate_append_same [symmetric])
qed

definition sample_stream :: request where
  "sample_stream = sample_tcp_request ''/server/tcp/9000/stream/payload=1K/duration=1s/delay=10ms''
     [(''payloadSize'', ''1K''), (''duration'', ''1s''), (''delay'', ''10ms'')]"

theorem payload_stream_bounds_witness:
  "\<exists>st' w. setStreamConfig sample_pd (\<lambda>_. []) (\<lambda>_. True) sample_stream sample_tcp = Some (st', w) \<and>
     (let c = tcObjs st' ! 0 in 0 < StreamChunkCount (tcStream c) \<and> StreamChunkCount (tcStream c) * 10 \<le> 1000 \<and> 1000 < (StreamChunkCount (tcStream c) + 1) * 10)"
proof -
  have v: "validateTCPListener (\<lambda>_. True) sample_stream sample_tcp"
    and a: "mget (tcpListeners sample_tcp) (port_var sample_stream) = Some 0" "0 < length (tcObjs sample_tcp)"
    and r: "GetStringParamValue sample_stream ''chunkSize'' None = []" "GetIntParamValue sample_stream ''chunkCount'' None = 0"
      "ParseSize size_units (GetStringParamValue sample_stream ''payloadSize'' None) = 1000"
      "GetStringParamValue sample_stream ''duration'' None = ''1s''" "GetStringParamValue sample_stream ''delay'' None = ''10ms''"
    and pd: "sample_pd ''1s'' = Some 1000000000" "sample_pd (GetStringParamValue sample_stream ''delay'' None) = Some 10000000"
    and m: "Milliseconds 1000000000 = 1000" "Milliseconds 10000000 = 10" "is_int64 1000" "is_int64 1000000000"
    by code_simp+
  have p: "(0::int) < 1000" "''1s'' \<noteq> []" "(0::int) < 1000000000" "(0::int) < 10000000" by simp_all
  note b = payload_stream_bounds [OF v a r(1-3) p(1) m(3) r(4) p(2) pd(1) p(3) m(4) pd(2) p(4), of "\<lambda>_. []"]
  then have "setStreamConfig sample_pd (\<lambda>_. []) (\<lambda>_. True) sample_stream sample_tcp \<noteq> None" by (simp add: m)
  then obtain st' w where "setStreamConfig sample_pd (\<lambda>_. []) (\<lambda>_. True) sample_stream sample_tcp = Some (st', w)" by auto
  with b show ?thesis unfolding m Let_def by blast
qed

end
