(* ===== verification/Listeners.thy ===== *)
theory Listeners
  imports Tcp_Api Util_Text
begin

text \<open>
  The listeners (\<open>pkg/server/listeners/listeners.go\<close>). Listeners are objects that several tables share; \<open>lsObjs\<close> holds them by
  address. The operating system is modelled by the ports that are bound: binding a port that is bound fails, and
  \<open>leBind\<close> says for a running number whether binding a free port succeeds. A certificate is the list of names it was created
  for, \<open>leCert\<close> says whether creating one succeeds and \<open>leKeyPair\<close> whether a certificate and a key can be read. A panic
  is \<open>None\<close>. Serving the connections of a listener is not part of this theory.
\<close>

section \<open>Listeners\<close>

datatype client_auth = NoClientCert | VerifyClientCertIfGiven | RequireAnyClientCert | RequireAndVerifyClientCert

record tls_config =
  tlsClientAuth :: client_auth
  tlsNextProtos :: "string list"
  tlsSNI :: bool

record alpn =
  alProtos :: "string list"
  alHandshake :: "(string list \<times> nat) option"

record peer_cert =
  pcSubject :: string
  pcDNSNames :: "string list"
  pcURIs :: "string list"
  pcIssuer :: string
  pcALPN :: "string list"
  pcSNI :: string
  pcNegotiated :: string
  pcFinished :: bool
  pcStatus :: "string list"

record listener_proto =
  lpProtocol :: string
  lpL8Proto :: string
  lpIsHTTP :: bool
  lpIsHTTP2 :: bool
  lpIsGRPC :: bool
  lpIsJSONRPC :: bool
  lpIsTCP :: bool
  lpIsUDP :: bool
  lpIsXDS :: bool
  lpAssigned :: bool

record listener_tls =
  ltAutoCert :: bool
  ltAutoSNI :: bool
  ltCommonName :: string
  ltSpiffeID :: string
  ltAltNames :: "string list"
  ltTLS :: bool
  ltMTLS :: bool
  ltVerify :: bool
  ltCertificates :: "string list list option"
  ltCACerts :: "string list option"
  ltRawCert :: string
  ltRawKey :: string
  ltCache :: "(string, string list) gomap"
  ltConfig :: "tls_config option"

record listener =
  lListenerID :: string
  lLabel :: string
  lHostLabel :: string
  lPort :: int
  lForwardPort :: int
  lOpen :: bool
  lALPN :: "alpn option"
  lTCP :: "nat option"
  lGeneration :: int
  lForward :: "nat option"
  lSocket :: "bool option"
  lUDPConn :: bool
  lRestarted :: bool
  lPeers :: "(string, peer_cert) gomap"
  lProto :: listener_proto
  lTls :: listener_tls

text \<open>\<open>lSocket\<close> is the open socket of a listener: \<open>Some b\<close> if it has one, and whether it is wrapped with TLS.\<close>

definition no_proto :: "string \<Rightarrow> listener_proto" where
  "no_proto protocol = \<lparr>lpProtocol = protocol, lpL8Proto = [], lpIsHTTP = False, lpIsHTTP2 = False, lpIsGRPC = False, lpIsJSONRPC = False,
     lpIsTCP = False, lpIsUDP = False, lpIsXDS = False, lpAssigned = False\<rparr>"

definition no_tls :: "string \<Rightarrow> listener_tls" where
  "no_tls cn = \<lparr>ltAutoCert = False, ltAutoSNI = False, ltCommonName = cn, ltSpiffeID = [], ltAltNames = [], ltTLS = False, ltMTLS = False,
     ltVerify = False, ltCertificates = None, ltCACerts = None, ltRawCert = [], ltRawKey = [], ltCache = [], ltConfig = None\<rparr>"

definition newListener :: "int \<Rightarrow> string \<Rightarrow> string \<Rightarrow> bool \<Rightarrow> listener" where
  "newListener port protocol cn isOpen =
     \<lparr>lListenerID = [], lLabel = [], lHostLabel = [], lPort = port, lForwardPort = 0, lOpen = isOpen, lALPN = None, lTCP = None, lGeneration = 0,
      lForward = None, lSocket = None, lUDPConn = False, lRestarted = False, lPeers = [], lProto = no_proto protocol, lTls = no_tls cn\<rparr>"

definition upd_tls :: "(listener_tls \<Rightarrow> listener_tls) \<Rightarrow> listener \<Rightarrow> listener" where
  "upd_tls f l = l\<lparr>lTls := f (lTls l)\<rparr>"

section \<open>Protocols\<close>

definition is_proto :: "listener \<Rightarrow> string \<Rightarrow> bool" where
  "is_proto l p \<longleftrightarrow> EqualFold (lpProtocol (lProto l)) p"

definition assign_names :: "listener \<Rightarrow> listener_proto \<times> (listener_tls \<Rightarrow> listener_tls)" where
  "assign_names l =
     (let p = lProto l;
          isHTTP = is_proto l ''http''; isHTTPSS = is_proto l ''httpss''; isHTTPS = isHTTPSS \<or> is_proto l ''https'';
          isHTTP1 = is_proto l ''http1''; isHTTPS1 = is_proto l ''https1'';
          isGRPCSS = is_proto l ''grpcss''; isGRPCS = isGRPCSS \<or> is_proto l ''grpcs''; isGRPC = isGRPCS \<or> is_proto l ''grpc'';
          isXDS = is_proto l ''xds''; isJSONRPC = is_proto l ''jsonrpc'' \<or> is_proto l ''rpc'';
          isJSONRPCS = is_proto l ''jsonrpcs'' \<or> is_proto l ''rpcs''; isUDP = is_proto l ''udp''; isTCPS = is_proto l ''tls''
      in if isHTTP1 \<or> isHTTPS1 then
           (p\<lparr>lpL8Proto := (if isHTTPS1 then ''https'' else ''http''), lpProtocol := (if isHTTPS1 then ''https'' else ''http''),
              lpIsHTTP := True, lpIsHTTP2 := False\<rparr>, \<lambda>t. if isHTTPS1 then t\<lparr>ltTLS := True\<rparr> else t)
         else if isHTTP \<or> isHTTPS then
           (p\<lparr>lpIsHTTP := True, lpIsHTTP2 := True, lpL8Proto := (if isHTTPS then ''h2'' else ''h2c'')\<rparr>,
            \<lambda>t. t\<lparr>ltTLS := isHTTPS, ltVerify := isHTTPSS\<rparr>)
         else if isGRPC \<or> isGRPCS then
           (p\<lparr>lpL8Proto := ''grpc'', lpProtocol := ''grpc'', lpIsGRPC := True\<rparr>,
            \<lambda>t. if isGRPCS then t\<lparr>ltTLS := True, ltVerify := isGRPCSS\<rparr> else t)
         else if isXDS then (p\<lparr>lpL8Proto := ''xds'', lpProtocol := ''grpc'', lpIsGRPC := True, lpIsXDS := True\<rparr>, \<lambda>t. t)
         else if isJSONRPC \<or> isJSONRPCS then
           (p\<lparr>lpProtocol := (if isJSONRPCS then ''https'' else ''http''), lpL8Proto := ''jsonrpc'', lpIsHTTP := True, lpIsHTTP2 := True,
              lpIsJSONRPC := True\<rparr>, \<lambda>t. if isJSONRPCS then t\<lparr>ltTLS := True\<rparr> else t)
         else if isUDP then (p\<lparr>lpL8Proto := ''udp'', lpIsUDP := True\<rparr>, \<lambda>t. t)
         else (p\<lparr>lpL8Proto := ''tcp'', lpProtocol := ''tcp'', lpIsTCP := True\<rparr>, \<lambda>t. t\<lparr>ltTLS := isTCPS\<rparr>))"

definition assignProtocol :: "listener \<Rightarrow> listener" where
  "assignProtocol l =
     (case assign_names l of
        (p, f) \<Rightarrow>
          (let t = f (lTls l);
               t = (if ltTLS t \<and> ltCertificates t = None \<and> ltRawCert t = [] then t\<lparr>ltAutoCert := True\<rparr> else t)
           in l\<lparr>lProto := p\<lparr>lpAssigned := True\<rparr>, lTls := t\<rparr>))"

section \<open>The tables\<close>

record self_info =
  sGivenName :: bool
  sName :: string
  sPodIP :: string
  sPodName :: string
  sNamespace :: string
  sCluster :: string
  sNodeName :: string
  sHostIP :: string
  sHostLabel :: string
  sServerPort :: int
  sGRPCPort :: int
  sJSONRPCPort :: int
  sCommonName :: string

record listen_env =
  leSelf :: self_info
  leBind :: "nat \<Rightarrow> bool"
  leCert :: "string list \<Rightarrow> string \<Rightarrow> bool"
  leKeyPair :: "string \<Rightarrow> string \<Rightarrow> bool"
  lePD :: "string \<Rightarrow> int option"
  leShowD :: "int \<Rightarrow> string"

record lstate =
  lsObjs :: "listener list"
  lsDefault :: nat
  lsDefaultGRPC :: nat
  listeners :: "(int, nat) gomap"
  grpcListeners :: "(int, nat) gomap"
  udpListeners :: "(int, nat) gomap"
  listenerGenerations :: "(int, int) gomap"
  initialListeners :: "nat list"
  initialHTTPStarted :: bool
  initialJSONRPCStarted :: bool
  initialTCPStarted :: bool
  grpcStarted :: bool
  httpStarted :: bool
  httpServer :: bool
  jsonRPCServer :: bool
  tcpServer :: bool
  lsGrpcPending :: "nat list"
  lsTcp :: tcp_state
  lsBound :: "int list"
  lsUdpBound :: "int list"
  lsTick :: nat

definition lobj :: "lstate \<Rightarrow> nat \<Rightarrow> listener" where
  "lobj st a = lsObjs st ! a"

definition upd_l :: "nat \<Rightarrow> (listener \<Rightarrow> listener) \<Rightarrow> lstate \<Rightarrow> lstate" where
  "upd_l a f st = st\<lparr>lsObjs := (lsObjs st)[a := f (lsObjs st ! a)]\<rparr>"

definition alloc :: "listener \<Rightarrow> lstate \<Rightarrow> lstate \<times> nat" where
  "alloc l st = (st\<lparr>lsObjs := lsObjs st @ [l]\<rparr>, length (lsObjs st))"

definition BuildListenerLabel :: "self_info \<Rightarrow> int \<Rightarrow> string" where
  "BuildListenerLabel s port =
     ''['' @ (if sGivenName s then sName s else sPodIP s) @ '':'' @ Itoa port @ '']['' @ sPodName s @ ''@'' @ sNamespace s @ ''@'' @ sCluster s @ '']''"

definition BuildHostLabel :: "self_info \<Rightarrow> string" where
  "BuildHostLabel s =
     (if sNodeName s \<noteq> [] \<or> sCluster s \<noteq> [] \<or> sHostIP s \<noteq> []
      then sPodName s @ ''.'' @ sNamespace s @ ''['' @ sPodIP s @ ''](''  @ sNodeName s @ ''['' @ sHostIP s @ '']@'' @ sCluster s @ '')''
      else sPodName s @ ''.'' @ sNamespace s @ ''['' @ sPodIP s @ '']'')"

definition GetListenerForPort :: "lstate \<Rightarrow> int \<Rightarrow> nat option" where
  "GetListenerForPort st port = (if port = lPort (lobj st (lsDefault st)) then Some (lsDefault st) else mget (listeners st) port)"

definition IsListenerPresent :: "lstate \<Rightarrow> int \<Rightarrow> bool" where
  "IsListenerPresent st port \<longleftrightarrow> mget (listeners st) port \<noteq> None"

definition IsListenerOpen :: "lstate \<Rightarrow> int \<Rightarrow> bool" where
  "IsListenerOpen st port \<longleftrightarrow> (case mget (listeners st) port of None \<Rightarrow> False | Some a \<Rightarrow> lOpen (lobj st a))"

definition IsListenerTLS :: "lstate \<Rightarrow> int \<Rightarrow> bool" where
  "IsListenerTLS st port \<longleftrightarrow> (case mget (listeners st) port of None \<Rightarrow> False | Some a \<Rightarrow> ltTLS (lTls (lobj st a)))"

definition GetListenerID :: "lstate \<Rightarrow> int \<Rightarrow> string" where
  "GetListenerID st port = (case mget (listeners st) port of None \<Rightarrow> [] | Some a \<Rightarrow> lListenerID (lobj st a))"

definition GetListenerLabelForPort :: "listen_env \<Rightarrow> lstate \<Rightarrow> int \<Rightarrow> string" where
  "GetListenerLabelForPort env st port =
     (case mget (listeners st) port of
        Some a \<Rightarrow> lLabel (lobj st a)
      | None \<Rightarrow>
          (if port = sServerPort (leSelf env) then
             (if lLabel (lobj st (lsDefault st)) \<noteq> [] then lLabel (lobj st (lsDefault st)) else sHostLabel (leSelf env))
           else BuildListenerLabel (leSelf env) port))"

definition LinkForwardListeners :: "lstate \<Rightarrow> lstate" where
  "LinkForwardListeners st =
     fold (\<lambda>(_, a) st. if 0 < lForwardPort (lobj st a) then upd_l a (\<lambda>l. l\<lparr>lForward := mget (listeners st) (lForwardPort l)\<rparr>) st else st)
       (listeners st) st"

definition store :: "nat \<Rightarrow> lstate \<Rightarrow> lstate" where
  "store a st = st\<lparr>listeners := mput (lPort (lobj st a)) a (listeners st)\<rparr>"

definition RemoveListener :: "nat \<Rightarrow> lstate \<Rightarrow> lstate" where
  "RemoveListener a st =
     (let l = lobj st a; p = lPort l;
          st = (if lpIsGRPC (lProto l) then st\<lparr>grpcListeners := mdel p (grpcListeners st)\<rparr>
                else if lpIsUDP (lProto l) then st\<lparr>udpListeners := mdel p (udpListeners st)\<rparr> else st)
      in st\<lparr>listeners := mdel p (listeners st)\<rparr>)"

section \<open>Opening and closing\<close>

definition SetCertificates :: "string list list \<Rightarrow> listener \<Rightarrow> listener" where
  "SetCertificates certs l = (if certs \<noteq> [] then upd_tls (\<lambda>t. t\<lparr>ltCertificates := Some certs\<rparr>) l else l)"

text \<open>\<open>Some None\<close>: the certificate or the key is not valid. With mutual TLS the HTTP server must be there.\<close>

definition prepareTLS :: "listen_env \<Rightarrow> bool \<Rightarrow> listener \<Rightarrow> tls_config option option" where
  "prepareTLS env http l =
     (let t = lTls l;
          protos = (if lpIsHTTP2 (lProto l) then [''h2''] else []) @ (case lALPN l of None \<Rightarrow> [] | Some al \<Rightarrow> alProtos al)
      in if \<not> ltAutoSNI t \<and> ltCertificates t = None \<and> ltRawCert t \<noteq> [] \<and> ltRawKey t \<noteq> [] \<and> \<not> leKeyPair env (ltRawCert t) (ltRawKey t)
         then Some None
         else if ltMTLS t \<and> \<not> http then None
         else Some (Some \<lparr>tlsClientAuth =
                (if ltMTLS t then (if ltVerify t then RequireAndVerifyClientCert else RequireAnyClientCert)
                 else if ltVerify t then VerifyClientCertIfGiven else NoClientCert),
              tlsNextProtos = protos, tlsSNI = ltAutoSNI t\<rparr>))"

definition auto_cert :: "listen_env \<Rightarrow> listener \<Rightarrow> listener" where
  "auto_cert env l =
     (let t = lTls l in
      if ltAutoCert t \<and> ltSpiffeID t = [] then
        (let cn = (if ltCommonName t = [] then sCommonName (leSelf env) else ltCommonName t);
             domains = cn # ltAltNames t; l = upd_tls (\<lambda>t. t\<lparr>ltCommonName := cn\<rparr>) l
         in if leCert env domains [] then SetCertificates [domains] l else l)
      else l)"

definition bind_port :: "listen_env \<Rightarrow> int \<Rightarrow> lstate \<Rightarrow> lstate \<times> bool" where
  "bind_port env port st =
     (let ok = (leBind env (lsTick st) \<and> port \<notin> set (lsBound st)); st = st\<lparr>lsTick := Suc (lsTick st)\<rparr> in
      (if ok then st\<lparr>lsBound := port # lsBound st\<rparr> else st, ok))"

definition bind_udp :: "listen_env \<Rightarrow> int \<Rightarrow> lstate \<Rightarrow> lstate \<times> bool" where
  "bind_udp env port st =
     (let ok = (leBind env (lsTick st) \<and> port \<notin> set (lsUdpBound st)); st = st\<lparr>lsTick := Suc (lsTick st)\<rparr> in
      (if ok then st\<lparr>lsUdpBound := port # lsUdpBound st\<rparr> else st, ok))"

definition InitListener :: "listen_env \<Rightarrow> nat \<Rightarrow> lstate \<Rightarrow> (lstate \<times> bool) option" where
  "InitListener env a st =
     (let st = upd_l a (auto_cert env) st; l = lobj st a; port = lPort l in
      if lpIsUDP (lProto l) then
        (case bind_udp env port st of (st, ok) \<Rightarrow> Some (if ok then upd_l a (\<lambda>l. l\<lparr>lUDPConn := True\<rparr>) st else st, ok))
      else
        (case bind_port env port st of
           (st, False) \<Rightarrow> Some (st, False)
         | (st, True) \<Rightarrow>
             (if ltTLS (lTls l) then
                (case prepareTLS env (httpServer st) l of
                   None \<Rightarrow> None
                 | Some None \<Rightarrow> Some (st, False)
                 | Some (Some c) \<Rightarrow> Some (upd_l a (\<lambda>l. (upd_tls (\<lambda>t. t\<lparr>ltConfig := Some c\<rparr>) l)\<lparr>lSocket := Some True\<rparr>) st, True))
              else Some (upd_l a (\<lambda>l. l\<lparr>lSocket := Some False\<rparr>) st, True))))"

definition serveTCP :: "nat \<Rightarrow> lstate \<Rightarrow> lstate option" where
  "serveTCP a st =
     (let l = lobj st a in
      case lTCP l of
        None \<Rightarrow> None
      | Some c \<Rightarrow> Some (st\<lparr>lsTcp := (lsTcp st)\<lparr>tcObjs := (tcObjs (lsTcp st))[c := (tcObjs (lsTcp st) ! c)\<lparr>tcListenerID := lListenerID l\<rparr>]\<rparr>\<rparr>))"

text \<open>The goroutine that serves a listener panics if its server is not set; the panic ends the process.\<close>

definition serve_listener :: "nat \<Rightarrow> lstate \<Rightarrow> lstate option" where
  "serve_listener a st =
     (let p = lProto (lobj st a) in
      if lpIsJSONRPC p then (if jsonRPCServer st then Some st else None)
      else if lpIsHTTP p then (if httpServer st then Some st else None)
      else if lpIsGRPC p then Some (if grpcStarted st then st else st\<lparr>lsGrpcPending := lsGrpcPending st @ [a]\<rparr>)
      else if lpIsTCP p then (if tcpServer st then serveTCP a st else None)
      else Some st)"

definition listener_id :: "int \<Rightarrow> int \<Rightarrow> string" where
  "listener_id port gen = Itoa port @ ''-'' @ Itoa gen"

definition mark_open :: "listener \<Rightarrow> listener" where
  "mark_open l = upd_tls (\<lambda>t. t\<lparr>ltTLS := (ltAutoCert t \<or> ltCertificates t \<noteq> None \<or> ltRawCert t \<noteq> [] \<and> ltRawKey t \<noteq> [])\<rparr>) (l\<lparr>lOpen := True\<rparr>)"

definition assign_id :: "nat \<Rightarrow> lstate \<Rightarrow> lstate" where
  "assign_id a st =
     (let port = lPort (lobj st a); gen = mget_or 0 (listenerGenerations st) port + 1 in
      upd_l a (\<lambda>l. l\<lparr>lGeneration := gen, lListenerID := listener_id port gen\<rparr>)
        (st\<lparr>listenerGenerations := mput port gen (listenerGenerations st)\<rparr>))"

definition openListener :: "listen_env \<Rightarrow> bool \<Rightarrow> nat \<Rightarrow> lstate \<Rightarrow> (lstate \<times> bool) option" where
  "openListener env serve a st =
     (case InitListener env a st of
        None \<Rightarrow> None
      | Some (st, False) \<Rightarrow> Some (st, False)
      | Some (st, True) \<Rightarrow>
          map_option (\<lambda>st. (upd_l a mark_open st, True)) (if serve then serve_listener a (assign_id a st) else Some (assign_id a st)))"

definition Close :: "nat \<Rightarrow> lstate \<Rightarrow> lstate" where
  "Close a st =
     (let l = lobj st a; p = lPort l;
          st = (if lSocket l \<noteq> None then st\<lparr>lsBound := remove1 p (lsBound st)\<rparr> else st);
          st = (if lUDPConn l then st\<lparr>lsUdpBound := remove1 p (lsUdpBound st)\<rparr> else st)
      in upd_l a (\<lambda>l. l\<lparr>lSocket := None, lUDPConn := False, lOpen := False\<rparr>) st)"

fun reopen_loop :: "listen_env \<Rightarrow> nat \<Rightarrow> nat \<Rightarrow> lstate \<Rightarrow> (lstate \<times> bool) option" where
  "reopen_loop env 0 a st = Some (st, False)"
| "reopen_loop env (Suc n) a st =
     (case openListener env True a st of
        None \<Rightarrow> None
      | Some (st, True) \<Rightarrow> Some (st, True)
      | Some (st, False) \<Rightarrow> reopen_loop env n a st)"

definition ReopenListener :: "listen_env \<Rightarrow> nat \<Rightarrow> lstate \<Rightarrow> (lstate \<times> bool) option" where
  "ReopenListener env a st =
     reopen_loop env 5 a
       (case mget (listeners st) (lPort (lobj st a)) of
          None \<Rightarrow> st
        | Some old \<Rightarrow> Close old (upd_l old (\<lambda>l. l\<lparr>lRestarted := True\<rparr>) st))"

section \<open>Adding listeners\<close>

definition init_certs :: "listener \<Rightarrow> listener" where
  "init_certs l = upd_tls (\<lambda>t. t\<lparr>ltCache := []\<rparr>) (l\<lparr>lPeers := []\<rparr>)"

text \<open>The listener as it is prepared, the table of TCP configurations, and whether the listener is rejected.\<close>

definition label_listener :: "listen_env \<Rightarrow> listener \<Rightarrow> listener" where
  "label_listener env l =
     (let l = init_certs l in
      l\<lparr>lLabel := (if lLabel l = [] then BuildListenerLabel (leSelf env) (lPort l) else lLabel l), lHostLabel := BuildHostLabel (leSelf env),
        lProto := (lProto l)\<lparr>lpProtocol := ToLower (lpProtocol (lProto l))\<rparr>\<rparr>)"

definition assign_kind :: "listener \<Rightarrow> listener" where
  "assign_kind l = (if lpAssigned (lProto l) then l else assignProtocol l)"

definition set_tcp :: "nat \<Rightarrow> listener \<Rightarrow> listener" where
  "set_tcp c l = l\<lparr>lTCP := Some c\<rparr>"

definition prepare_listener :: "listen_env \<Rightarrow> nat \<Rightarrow> lstate \<Rightarrow> (lstate \<times> bool) option" where
  "prepare_listener env a st =
     (let st = upd_l a (assign_kind \<circ> label_listener env) st; l = lobj st a; port = lPort l in
      if lpIsTCP (lProto l) \<and> lTCP l = None then
        map_option (\<lambda>(tcp, c, bad). (upd_l a (set_tcp c) (st\<lparr>lsTcp := tcp\<rparr>), bad))
          (InitTCPConfig (lePD env) (leShowD env) (GetListenerID st) port None (lsTcp st))
      else Some (st, port \<le> 0 \<or> 65535 < port))"

definition AddOrUpdateListener :: "listen_env \<Rightarrow> nat \<Rightarrow> lstate \<Rightarrow> (lstate \<times> bool \<times> http_out) option" where
  "AddOrUpdateListener env a st = do {
     (st, bad) \<leftarrow> prepare_listener env a st;
     if bad then Some (st, True, SendEvent ''Listener Rejected'' no_out)
     else do {
       (st, ev) \<leftarrow>
         (if mget (listeners st) (lPort (lobj st a)) \<noteq> None then do {
            (st, ok) \<leftarrow> ReopenListener env a st;
            Some (if ok then store a st else st, ''Listener Updated'') }
          else if lOpen (lobj st a) then do {
            (st, ok) \<leftarrow> openListener env True a st;
            Some (if ok then store a st else st, ''Listener Added'') }
          else Some (store a st, ''Listener Added''));
       let l = lobj st a; p = lPort l in
       Some (if lpIsGRPC (lProto l) then st\<lparr>grpcListeners := mput p a (grpcListeners st)\<rparr>
             else if lpIsUDP (lProto l) then st\<lparr>udpListeners := mput p a (udpListeners st)\<rparr> else st,
             False, SendEvent ev no_out) } }"

definition add_and_open :: "listen_env \<Rightarrow> listener \<Rightarrow> bool \<Rightarrow> lstate \<Rightarrow> (lstate \<times> nat option) option" where
  "add_and_open env l serve st = do {
     let (st, a) = alloc l st;
     (st, bad, _) \<leftarrow> AddOrUpdateListener env a st;
     if bad then Some (st, None)
     else do {
       (st, ok) \<leftarrow> openListener env serve a st;
       Some (st, if ok then Some a else None) } }"

text \<open>
  The result is the address of the listener, \<open>None\<close> for an error. A listener of the port that fits is used, and the error of opening it
  is dropped; one that does not fit is closed.
\<close>

definition reuse_or_add :: "listen_env \<Rightarrow> (listener_proto \<Rightarrow> bool) \<Rightarrow> listener \<Rightarrow> bool \<Rightarrow> lstate \<Rightarrow> (lstate \<times> nat option) option" where
  "reuse_or_add env fits l serve st =
     (case GetListenerForPort st (lPort l) of
        None \<Rightarrow> add_and_open env l serve st
      | Some a \<Rightarrow>
          (if fits (lProto (lobj st a)) then
             (if lOpen (lobj st a) then Some (st, Some a) else map_option (\<lambda>(st, _). (st, Some a)) (openListener env serve a st))
           else add_and_open env l serve (Close a st)))"

definition AddGRPCListener :: "listen_env \<Rightarrow> int \<Rightarrow> bool \<Rightarrow> lstate \<Rightarrow> (lstate \<times> nat option) option" where
  "AddGRPCListener env port serve = reuse_or_add env lpIsGRPC (newListener port ''grpc'' [] False) serve"

definition AddListener :: "listen_env \<Rightarrow> int \<Rightarrow> bool \<Rightarrow> bool \<Rightarrow> string \<Rightarrow> lstate \<Rightarrow> (lstate \<times> nat option) option" where
  "AddListener env port isTCP isUDP sni =
     reuse_or_add env (\<lambda>p. isTCP \<and> lpIsTCP p \<or> isUDP \<and> lpIsUDP p) (newListener port (if isUDP then ''udp'' else ''tcp'') sni False) True"

text \<open>The flag of the result is that the call returned an error.\<close>

definition AddListenerCert :: "listen_env \<Rightarrow> int \<Rightarrow> string \<Rightarrow> string \<Rightarrow> bool \<Rightarrow> lstate \<Rightarrow> (lstate \<times> bool) option" where
  "AddListenerCert env port key cert reopen st =
     (case GetListenerForPort st port of
        None \<Rightarrow> Some (st, True)
      | Some a \<Rightarrow>
          (if key = [] \<and> cert = [] then Some (st, True)
           else
             (let st = upd_l a (upd_tls (\<lambda>t. t\<lparr>ltAutoCert := False, ltCommonName := ''<from cert>'', ltCertificates := None,
                         ltRawKey := (if key \<noteq> [] then key else ltRawKey t), ltRawCert := (if cert \<noteq> [] then cert else ltRawCert t)\<rparr>)) st
              in if reopen then map_option (\<lambda>(st, ok). (st, \<not> ok)) (ReopenListener env a st) else Some (st, False))))"

definition RemoveListenerCert :: "listen_env \<Rightarrow> int \<Rightarrow> lstate \<Rightarrow> (lstate \<times> bool) option" where
  "RemoveListenerCert env port st =
     (case GetListenerForPort st port of
        None \<Rightarrow> Some (st, True)
      | Some a \<Rightarrow>
          map_option (\<lambda>(st, ok). (st, \<not> ok))
            (ReopenListener env a (upd_l a (upd_tls (\<lambda>t. t\<lparr>ltRawKey := [], ltRawCert := [], ltCertificates := None, ltTLS := False,
               ltAutoCert := False, ltCommonName := []\<rparr>)) st)))"

section \<open>Views, labels and peer certificates\<close>

definition GetListeners :: "lstate \<Rightarrow> (int, nat) gomap" where
  "GetListeners st = fold (\<lambda>(port, a). mput port a) (listeners st) [(lPort (lobj st (lsDefault st)), lsDefault st)]"

definition GetListenerPorts :: "lstate \<Rightarrow> (int, string) gomap" where
  "GetListenerPorts st =
     (let d = lobj st (lsDefault st) in
      fold (\<lambda>(port, a). mput port (lpL8Proto (lProto (lobj st a)))) (listeners st) [(lPort d, lpProtocol (lProto d))])"

definition GetCurrentListener :: "int \<Rightarrow> lstate \<Rightarrow> nat" where
  "GetCurrentListener port st = (case GetListenerForPort st port of None \<Rightarrow> lsDefault st | Some a \<Rightarrow> a)"

definition SetListenerLabel :: "request \<Rightarrow> lstate \<Rightarrow> lstate \<times> string \<times> http_out" where
  "SetListenerLabel r st =
     (let label = GetStringParamValue r ''label'' None;
          st = (case mget (listeners st) (reqPortNum r) of
                  Some a \<Rightarrow> upd_l a (\<lambda>l. l\<lparr>lLabel := label\<rparr>) st
                | None \<Rightarrow> (if label \<noteq> [] then upd_l (lsDefault st) (\<lambda>l. l\<lparr>lLabel := label\<rparr>) st else st))
      in (st, label, SendEvent ''Listener Label Updated'' no_out))"

definition setLabel :: "request \<Rightarrow> lstate \<Rightarrow> lstate \<times> http_out" where
  "setLabel r st =
     (case SetListenerLabel r st of
        (st, label, w) \<Rightarrow> (st, SendEvent (if label = [] then ''Label Cleared'' else ''Label Set'') w))"

definition NewPeerCertInfo :: peer_cert where
  "NewPeerCertInfo = \<lparr>pcSubject = [], pcDNSNames = [], pcURIs = [], pcIssuer = [], pcALPN = [], pcSNI = [], pcNegotiated = [], pcFinished = False,
     pcStatus = []\<rparr>"

definition upd_peer :: "string \<Rightarrow> (peer_cert \<Rightarrow> peer_cert) \<Rightarrow> listener \<Rightarrow> listener" where
  "upd_peer remote f l = l\<lparr>lPeers := mput remote (f (mget_or NewPeerCertInfo (lPeers l) remote)) (lPeers l)\<rparr>"

definition StorePeerCertInfo :: "string \<Rightarrow> string \<Rightarrow> string list \<Rightarrow> string list \<Rightarrow> string \<Rightarrow> listener \<Rightarrow> listener" where
  "StorePeerCertInfo remote subject dns uris issuer =
     upd_peer remote (\<lambda>p. p\<lparr>pcSubject := subject, pcDNSNames := dns, pcURIs := uris, pcIssuer := issuer\<rparr>)"

definition StoreSNI :: "string \<Rightarrow> string \<Rightarrow> string \<Rightarrow> listener \<Rightarrow> listener" where
  "StoreSNI remote sni negotiated = upd_peer remote (\<lambda>p. p\<lparr>pcSNI := sni, pcNegotiated := negotiated\<rparr>)"

definition StoreALPN :: "string \<Rightarrow> string list \<Rightarrow> listener \<Rightarrow> listener" where
  "StoreALPN remote protos = upd_peer remote (\<lambda>p. p\<lparr>pcALPN := protos\<rparr>)"

definition UpdatePeerStatus :: "string \<Rightarrow> bool \<Rightarrow> string \<Rightarrow> listener \<Rightarrow> listener" where
  "UpdatePeerStatus remote finished status = upd_peer remote (\<lambda>p. p\<lparr>pcFinished := finished, pcStatus := pcStatus p @ [status]\<rparr>)"

definition GetCertificate :: "listen_env \<Rightarrow> string \<Rightarrow> listener \<Rightarrow> listener \<times> string list option" where
  "GetCertificate env server l =
     (case mget (ltCache (lTls l)) server of
        Some c \<Rightarrow> (l, Some c)
      | None \<Rightarrow>
          (let domains = server # ltCommonName (lTls l) # ltAltNames (lTls l) in
           if leCert env domains (ltSpiffeID (lTls l)) then (upd_tls (\<lambda>t. t\<lparr>ltCache := mput server domains (ltCache t)\<rparr>) l, Some domains)
           else (l, None)))"

definition ClearPeerCerts :: "int \<Rightarrow> lstate \<Rightarrow> lstate" where
  "ClearPeerCerts port st =
     fold (\<lambda>(p, a). if port = 0 \<or> p = port then upd_l a (\<lambda>l. l\<lparr>lPeers := []\<rparr>) else (\<lambda>st. st)) (listeners st) st"

definition GetPeerCerts :: "int \<Rightarrow> lstate \<Rightarrow> (int, (string, peer_cert) gomap) gomap" where
  "GetPeerCerts port st = map (\<lambda>(p, a). (p, lPeers (lobj st a))) (filter (\<lambda>(p, _). port = 0 \<or> p = port) (listeners st))"

definition alpn_changed :: "alpn option \<Rightarrow> alpn option \<Rightarrow> bool" where
  "alpn_changed x y =
     (case (x, y) of
        (None, None) \<Rightarrow> False
      | (Some a, Some b) \<Rightarrow>
          \<not> CompareStringSlices (alProtos a) (alProtos b) \<or>
          (case (alHandshake a, alHandshake b) of
             (None, None) \<Rightarrow> False
           | (Some (ps, n), Some (qs, m)) \<Rightarrow> \<not> CompareStringSlices ps qs \<or> 0 < n \<or> 0 < m
           | _ \<Rightarrow> True)
      | _ \<Rightarrow> True)"

definition Diff :: "listener option \<Rightarrow> listener option \<Rightarrow> bool" where
  "Diff x y =
     (case (x, y) of
        (None, None) \<Rightarrow> False
      | (Some l1, Some l2) \<Rightarrow>
          lPort l1 \<noteq> lPort l2 \<or> lForwardPort l1 \<noteq> lForwardPort l2 \<or> lpProtocol (lProto l1) \<noteq> lpProtocol (lProto l2) \<or>
          alpn_changed (lALPN l1) (lALPN l2) \<or> lOpen l1 \<noteq> lOpen l2 \<or> ltAutoSNI (lTls l1) \<noteq> ltAutoSNI (lTls l2) \<or>
          ltCommonName (lTls l1) \<noteq> ltCommonName (lTls l2) \<or> ltTLS (lTls l1) \<noteq> ltTLS (lTls l2) \<or> ltMTLS (lTls l1) \<noteq> ltMTLS (lTls l2) \<or>
          ltVerify (lTls l1) \<noteq> ltVerify (lTls l2)
      | _ \<Rightarrow> True)"

end
