(* ===== verification/Listeners_Api.thy ===== *)
theory Listeners_Api
  imports Listeners
begin

text \<open>
  The listeners given on the command line (\<open>AddInitialListeners\<close>) and their start, and the handlers of
  \<open>pkg/server/listeners/listenersApi.go\<close>. A fatal error at start and a panic are \<open>None\<close>. The body of a request that adds a listener
  is the decoded listener with its TCP configuration, \<open>None\<close> if it is not valid JSON.
\<close>

section \<open>The listeners of the command line\<close>

record port_proto =
  ppPort :: int
  ppForward :: int
  ppProto :: string
  ppMTLS :: bool
  ppVerify :: bool

definition forward_port :: "string \<Rightarrow> int" where
  "forward_port s =
     (if HasPrefix s ''->'' then (case parse_int 64 (drop 2 s) of (n, ok) \<Rightarrow> if ok \<and> 0 < n \<and> n \<le> 65535 then n else 0) else 0)"

definition parse_port :: "string \<Rightarrow> port_proto option" where
  "parse_port p =
     (let pp = split_on (CHR ''/'') p; (port, ok) = parse_int 64 (pp ! 0) in
      if ok \<and> 0 < port \<and> port \<le> 65535 then
        Some \<lparr>ppPort = port, ppForward = (if 2 < length pp then forward_port (pp ! 2) else 0),
              ppProto = (if 1 < length pp then ToLower (pp ! 1) else []),
              ppMTLS = (2 < length pp \<and> (EqualFold (pp ! 2) ''mtlss'' \<or> EqualFold (pp ! 2) ''mtls'')),
              ppVerify = (2 < length pp \<and> EqualFold (pp ! 2) ''mtlss'')\<rparr>
      else None)"

text \<open>The first port is the port of the server: if it is not a positive number, the default one is used; its protocol is HTTP.\<close>

definition parse_first_port :: "int \<Rightarrow> string \<Rightarrow> port_proto option" where
  "parse_first_port server p =
     (let (port, ok) = parse_int 64 (split_on (CHR ''/'') p ! 0); (port, ok) = (if port \<le> 0 then (server, True) else (port, ok)) in
      if ok \<and> 0 < port \<and> port \<le> 65535 then Some \<lparr>ppPort = port, ppForward = 0, ppProto = ''http'', ppMTLS = False, ppVerify = False\<rparr>
      else None)"

fun parse_ports :: "string list \<Rightarrow> port_proto list option" where
  "parse_ports [] = Some []"
| "parse_ports (p # ps) = do { x \<leftarrow> parse_port p; xs \<leftarrow> parse_ports ps; Some (x # xs) }"

fun parseListenerPorts :: "int \<Rightarrow> string list \<Rightarrow> port_proto list option" where
  "parseListenerPorts server [] = Some []"
| "parseListenerPorts server (p # ps) = do { x \<leftarrow> parse_first_port server p; xs \<leftarrow> parse_ports ps; Some (x # xs) }"

definition createPortListener :: "listen_env \<Rightarrow> port_proto \<Rightarrow> int list \<Rightarrow> int list \<times> listener option" where
  "createPortListener env pp existing =
     (let port = ppPort pp in
      if port \<notin> set existing then
        (let protocol = (if ppProto pp = [] then ''http'' else ppProto pp);
             l = assignProtocol ((newListener port protocol (sCommonName (leSelf env)) True)\<lparr>lForwardPort := ppForward pp\<rparr>)
         in (port # existing,
             Some (upd_tls (\<lambda>t. t\<lparr>ltMTLS := ppMTLS pp, ltVerify := (ppVerify pp \<or> ltVerify t)\<rparr>)
               (l\<lparr>lLabel := BuildListenerLabel (leSelf env) port, lHostLabel := sHostLabel (leSelf env)\<rparr>))))
      else (existing, None))"

fun add_initial :: "listen_env \<Rightarrow> port_proto list \<Rightarrow> int list \<Rightarrow> lstate \<Rightarrow> lstate" where
  "add_initial env [] existing st = st"
| "add_initial env (pp # pps) existing st =
     (case createPortListener env pp existing of
        (existing, None) \<Rightarrow> add_initial env pps existing st
      | (existing, Some l) \<Rightarrow>
          (case alloc l st of (st, a) \<Rightarrow> add_initial env pps existing (st\<lparr>initialListeners := initialListeners st @ [a]\<rparr>)))"

definition jsonrpc_port :: "listen_env \<Rightarrow> port_proto" where
  "jsonrpc_port env = \<lparr>ppPort = sJSONRPCPort (leSelf env), ppForward = 0, ppProto = ''jsonrpc'', ppMTLS = False, ppVerify = False\<rparr>"

definition set_default :: "listen_env \<Rightarrow> port_proto \<Rightarrow> listener \<Rightarrow> listener" where
  "set_default env pp l =
     (assignProtocol (l\<lparr>lPort := ppPort pp, lProto := (lProto l)\<lparr>lpProtocol := ppProto pp\<rparr>\<rparr>))
       \<lparr>lLabel := BuildListenerLabel (leSelf env) (ppPort pp), lHostLabel := sHostLabel (leSelf env)\<rparr>"

text \<open>The result has the port of the server.\<close>

definition AddInitialListeners :: "listen_env \<Rightarrow> string list \<Rightarrow> lstate \<Rightarrow> (lstate \<times> int) option" where
  "AddInitialListeners env portList st = do {
     pps \<leftarrow> parseListenerPorts (sServerPort (leSelf env)) portList;
     case pps of
       [] \<Rightarrow> None
     | pp # pps \<Rightarrow>
         (let (existing, l) = createPortListener env (jsonrpc_port env) [];
              st = (case l of None \<Rightarrow> st | Some l \<Rightarrow> (case alloc l st of (st, a) \<Rightarrow> store a st));
              st = upd_l (lsDefault st) (set_default env pp) st
          in Some (add_initial env pps existing st, ppPort pp)) }"

section \<open>Start\<close>

definition init_default :: "listen_env \<Rightarrow> string \<Rightarrow> listener \<Rightarrow> listener" where
  "init_default env label l =
     upd_tls (\<lambda>t. t\<lparr>ltTLS := False\<rparr>)
       (l\<lparr>lLabel := (if label = [] then sHostLabel (leSelf env) else label), lHostLabel := sHostLabel (leSelf env),
          lProto := (lProto l)\<lparr>lpIsHTTP := True\<rparr>\<rparr>)"

text \<open>The state of the package after \<open>Init\<close>, with the ports that are bound already.\<close>

definition l_init :: "listen_env \<Rightarrow> string \<Rightarrow> tcp_state \<Rightarrow> int list \<Rightarrow> int list \<Rightarrow> lstate" where
  "l_init env label tcp bound udp =
     (let s = leSelf env in
      \<lparr>lsObjs = [init_default env label (newListener (sServerPort s) ''http'' (sCommonName s) True),
                 newListener (sGRPCPort s) ''grpc'' (sCommonName s) False],
       lsDefault = 0, lsDefaultGRPC = 1, listeners = [], grpcListeners = [], udpListeners = [], listenerGenerations = [], initialListeners = [],
       initialHTTPStarted = False, initialJSONRPCStarted = False, initialTCPStarted = False, grpcStarted = False, httpStarted = False,
       httpServer = False, jsonRPCServer = False, tcpServer = False, lsGrpcPending = [], lsTcp = tcp, lsBound = bound, lsUdpBound = udp,
       lsTick = 0\<rparr>)"

fun start_listeners :: "listen_env \<Rightarrow> (listener \<Rightarrow> bool) \<Rightarrow> nat list \<Rightarrow> lstate \<Rightarrow> lstate option" where
  "start_listeners env P [] st = Some st"
| "start_listeners env P (a # as) st =
     (if P (lobj st a) then
        (case AddOrUpdateListener env a st of
           None \<Rightarrow> None
         | Some (st, bad, _) \<Rightarrow> (if bad then None else start_listeners env P as st))
      else start_listeners env P as st)"

definition allInitialListenersStarted :: "lstate \<Rightarrow> lstate" where
  "allInitialListenersStarted st =
     (if initialHTTPStarted st \<and> initialJSONRPCStarted st \<and> initialTCPStarted st then LinkForwardListeners st else st)"

definition AddInitialGRPCListeners :: "listen_env \<Rightarrow> lstate \<Rightarrow> lstate option" where
  "AddInitialGRPCListeners env st = start_listeners env (\<lambda>l. lpIsGRPC (lProto l)) (initialListeners st) st"

definition InitDefaultGRPCListener :: "listen_env \<Rightarrow> lstate \<Rightarrow> lstate option" where
  "InitDefaultGRPCListener env st =
     (let a = lsDefaultGRPC st;
          st = upd_l a (\<lambda>l. l\<lparr>lHostLabel := sHostLabel (leSelf env), lPort := sGRPCPort (leSelf env)\<rparr>) st
      in map_option fst (AddOrUpdateListener env a st))"

definition startInitialHTTPListeners :: "listen_env \<Rightarrow> bool \<Rightarrow> lstate \<Rightarrow> lstate option" where
  "startInitialHTTPListeners env jsonRPC st =
     (if jsonRPC \<and> \<not> initialJSONRPCStarted st \<or> \<not> jsonRPC \<and> \<not> initialHTTPStarted st then
        map_option (\<lambda>st. allInitialListenersStarted (if jsonRPC then st\<lparr>initialJSONRPCStarted := True\<rparr> else st\<lparr>initialHTTPStarted := True\<rparr>))
          (start_listeners env (\<lambda>l. let p = lProto l in lpIsJSONRPC p \<and> jsonRPC \<or> \<not> lpIsJSONRPC p \<and> lpIsHTTP p \<and> \<not> jsonRPC)
            (initialListeners st) st)
      else Some (allInitialListenersStarted st))"

definition startInitialTCPListeners :: "listen_env \<Rightarrow> lstate \<Rightarrow> lstate option" where
  "startInitialTCPListeners env st =
     map_option (\<lambda>st. allInitialListenersStarted (st\<lparr>initialTCPStarted := True\<rparr>))
       (start_listeners env (\<lambda>l. lpIsTCP (lProto l)) (initialListeners st) st)"

definition OnGRPCStart :: "listen_env \<Rightarrow> lstate \<Rightarrow> lstate option" where
  "OnGRPCStart env st =
     (let st = st\<lparr>grpcStarted := True\<rparr> in if httpStarted st then startInitialHTTPListeners env False st else Some st)"

definition OnGRPCStop :: "lstate \<Rightarrow> lstate" where
  "OnGRPCStop st = fold (\<lambda>(_, a). Close a) (grpcListeners st) (st\<lparr>grpcStarted := False\<rparr>)"

definition OnHTTPStart :: "listen_env \<Rightarrow> lstate \<Rightarrow> lstate option" where
  "OnHTTPStart env st =
     (let st = st\<lparr>httpStarted := True, httpServer := True\<rparr> in if grpcStarted st then startInitialHTTPListeners env False st else Some st)"

definition OnHTTPStop :: "lstate \<Rightarrow> lstate" where
  "OnHTTPStop st = st\<lparr>httpStarted := False, httpServer := False\<rparr>"

definition OnJSONRPCStart :: "listen_env \<Rightarrow> lstate \<Rightarrow> lstate option" where
  "OnJSONRPCStart env st = startInitialHTTPListeners env True (st\<lparr>jsonRPCServer := True\<rparr>)"

definition OnJSONRPCStop :: "lstate \<Rightarrow> lstate" where
  "OnJSONRPCStop st = st\<lparr>jsonRPCServer := False\<rparr>"

definition ConfigureTCPServer :: "listen_env \<Rightarrow> lstate \<Rightarrow> lstate option" where
  "ConfigureTCPServer env st = startInitialTCPListeners env (st\<lparr>tcpServer := True\<rparr>)"

section \<open>Handlers\<close>

definition fail_with :: "int \<Rightarrow> http_out" where
  "fail_with code = WriteHeader code no_out"

definition validateListener :: "request \<Rightarrow> lstate \<Rightarrow> nat option" where
  "validateListener r st = mget (listeners st) (port_var r)"

definition for_listener :: "request \<Rightarrow> (nat \<Rightarrow> lstate \<Rightarrow> (lstate \<times> http_out) option) \<Rightarrow> lstate \<Rightarrow> (lstate \<times> http_out) option" where
  "for_listener r f st = (case validateListener r st of None \<Rightarrow> Some (st, fail_with 400) | Some a \<Rightarrow> f a st)"

text \<open>The fields that the decoder cannot set have the values of a new listener.\<close>

definition decoded :: "listener \<Rightarrow> nat option \<Rightarrow> listener" where
  "decoded l c =
     upd_tls (\<lambda>t. t\<lparr>ltCertificates := None, ltCACerts := None, ltRawCert := [], ltRawKey := [], ltCache := [], ltConfig := None\<rparr>)
       (l\<lparr>lTCP := c, lForward := None, lSocket := None, lUDPConn := False, lRestarted := False, lPeers := [],
          lProto := (lProto l)\<lparr>lpAssigned := False\<rparr>\<rparr>)"

definition addOrUpdateListenerAndRespond :: "listen_env \<Rightarrow> (listener \<times> tcp_config option) option \<Rightarrow> lstate \<Rightarrow> (lstate \<times> http_out) option" where
  "addOrUpdateListenerAndRespond env body st =
     (case body of
        None \<Rightarrow> Some (st, reject ''Listener Rejected'')
      | Some (l, tcp) \<Rightarrow>
          (let (st, c) = (case tcp of
                 None \<Rightarrow> (st, None)
               | Some c \<Rightarrow> (st\<lparr>lsTcp := (lsTcp st)\<lparr>tcObjs := tcObjs (lsTcp st) @ [c]\<rparr>\<rparr>, Some (length (tcObjs (lsTcp st)))));
               (st, a) = alloc (decoded l c) st
           in map_option (\<lambda>(st, bad, w). (LinkForwardListeners st, if bad then WriteHeader 400 w else w)) (AddOrUpdateListener env a st)))"

definition addListenerCertOrKey :: "listen_env \<Rightarrow> bool \<Rightarrow> request \<Rightarrow> string \<Rightarrow> lstate \<Rightarrow> (lstate \<times> http_out) option" where
  "addListenerCertOrKey env isKey r body = for_listener r (\<lambda>a st.
     map_option (\<lambda>(st, err). (st, if err then fail_with 400
                                  else SendEvent (if isKey then ''Listener Key Added'' else ''Listener Cert Added'') no_out))
       (AddListenerCert env (lPort (lobj st a)) (if isKey then body else []) (if isKey then [] else body) False st))"

definition addListenerCert_api :: "listen_env \<Rightarrow> request \<Rightarrow> string \<Rightarrow> lstate \<Rightarrow> (lstate \<times> http_out) option" where
  "addListenerCert_api env = addListenerCertOrKey env True"

definition addListenerKey :: "listen_env \<Rightarrow> request \<Rightarrow> string \<Rightarrow> lstate \<Rightarrow> (lstate \<times> http_out) option" where
  "addListenerKey env = addListenerCertOrKey env False"

definition removeListenerCertAndKey :: "listen_env \<Rightarrow> request \<Rightarrow> lstate \<Rightarrow> (lstate \<times> http_out) option" where
  "removeListenerCertAndKey env r = for_listener r (\<lambda>a st.
     map_option (\<lambda>(st, err). (st, SendEvent ''Listener Cert Removed'' (if err then fail_with 500 else no_out)))
       (RemoveListenerCert env (lPort (lobj st a)) st))"

definition reopen_with :: "listen_env \<Rightarrow> http_out \<Rightarrow> http_out \<Rightarrow> nat \<Rightarrow> lstate \<Rightarrow> (lstate \<times> http_out) option" where
  "reopen_with env good bad a st = map_option (\<lambda>(st, ok). (st, if ok then good else bad)) (ReopenListener env a st)"

definition addListenerCACert :: "listen_env \<Rightarrow> request \<Rightarrow> string \<Rightarrow> lstate \<Rightarrow> (lstate \<times> http_out) option" where
  "addListenerCACert env r body = for_listener r (\<lambda>a st.
     if body = [] then Some (st, fail_with 400)
     else
       (let w = SendEvent ''Listener CA Cert Added'' no_out in
        reopen_with env w (WriteHeader 500 w) a
          (upd_l a (upd_tls (\<lambda>t. t\<lparr>ltCACerts := Some ((case ltCACerts t of None \<Rightarrow> [] | Some cs \<Rightarrow> cs) @ [body])\<rparr>)) st)))"

definition clearListenerCACerts :: "listen_env \<Rightarrow> request \<Rightarrow> lstate \<Rightarrow> (lstate \<times> http_out) option" where
  "clearListenerCACerts env r = for_listener r (\<lambda>a st.
     reopen_with env (SendEvent ''Listener CA Certs Cleared'' no_out) (SendEvent ''Listener CA Certs Cleared'' (fail_with 500)) a
       (upd_l a (upd_tls (\<lambda>t. t\<lparr>ltCACerts := Some []\<rparr>)) st))"

text \<open>What is sent: the uploaded certificate or key, or the encoding of the generated one.\<close>

definition getListenerCertOrKey :: "(bool \<Rightarrow> string list \<Rightarrow> string option) \<Rightarrow> request \<Rightarrow> lstate \<Rightarrow> string option \<times> http_out" where
  "getListenerCertOrKey encode r st =
     (let cert = Contains (RequestURI r) ''cert''; key = Contains (RequestURI r) ''key'' in
      case validateListener r st of
        None \<Rightarrow> (None, fail_with 400)
      | Some a \<Rightarrow>
          (if cert \<or> key then
             (let t = lTls (lobj st a); raw = (if cert then ltRawCert t else ltRawKey t);
                  data = (if raw \<noteq> [] then Some raw
                          else case ltCertificates t of Some (c # _) \<Rightarrow> encode cert c | _ \<Rightarrow> None)
              in case data of
                   None \<Rightarrow> (None, no_out)
                 | Some d \<Rightarrow> (Some d, AddHeader ''Content-Type'' ''application/octet-stream''
                                       (AddHeader ''Content-Length'' (Itoa (int (length d))) no_out)))
           else (None, fail_with 400)))"

definition clearClientCerts :: "request \<Rightarrow> lstate \<Rightarrow> lstate" where
  "clearClientCerts r st = ClearPeerCerts (port_var r) st"

definition autoCert :: "listen_env \<Rightarrow> request \<Rightarrow> lstate \<Rightarrow> (lstate \<times> http_out) option" where
  "autoCert env r = for_listener r (\<lambda>a st.
     let domain = GetStringParamValue r ''domain'' None; spiffeID = GetStringParamValue r ''spiffeID'' None in
     if domain = [] then Some (st, fail_with 400)
     else if leCert env [domain] spiffeID then
       reopen_with env (SendEvent ''Listener Cert Generated'' no_out) no_out a (upd_l a (upd_tls (\<lambda>t. t\<lparr>ltCertificates := Some [[domain]]\<rparr>)) st)
     else Some (st, fail_with 500))"

definition autoSNI :: "listen_env \<Rightarrow> request \<Rightarrow> lstate \<Rightarrow> (lstate \<times> http_out) option" where
  "autoSNI env r = for_listener r (\<lambda>a st.
     reopen_with env no_out no_out a (upd_l a (upd_tls (\<lambda>t. t\<lparr>ltAutoSNI := True, ltAutoCert := False\<rparr>)) st))"

definition openListener_api :: "listen_env \<Rightarrow> request \<Rightarrow> lstate \<Rightarrow> (lstate \<times> http_out) option" where
  "openListener_api env r = for_listener r (\<lambda>a st.
     if lSocket (lobj st a) = None then
       map_option (\<lambda>(st, ok). (st, if ok then SendEvent ''Listener Opened'' no_out else fail_with 500)) (openListener env True a st)
     else reopen_with env (SendEvent ''Listener Reopened'' no_out) (SendEvent ''Listener Reopened'' no_out) a st)"

definition closeListener :: "request \<Rightarrow> lstate \<Rightarrow> (lstate \<times> http_out) option" where
  "closeListener r = for_listener r (\<lambda>a st.
     if lSocket (lobj st a) = None then Some (st, fail_with 400) else Some (Close a st, SendEvent ''Listener Closed'' no_out))"

definition close_socket :: "nat \<Rightarrow> lstate \<Rightarrow> lstate" where
  "close_socket a st =
     (if lSocket (lobj st a) = None then st
      else upd_l a (\<lambda>l. l\<lparr>lSocket := None\<rparr>) (st\<lparr>lsBound := remove1 (lPort (lobj st a)) (lsBound st)\<rparr>))"

definition removeListener :: "request \<Rightarrow> lstate \<Rightarrow> (lstate \<times> http_out) option" where
  "removeListener r = for_listener r (\<lambda>a st.
     Some (LinkForwardListeners (RemoveListener a (close_socket a st)), SendEvent ''Listener Removed'' no_out))"

section \<open>Listeners of a configuration file\<close>

definition remove_all :: "nat list \<Rightarrow> lstate \<Rightarrow> lstate" where
  "remove_all as st = fold (\<lambda>a st. RemoveListener a (Close a st)) as st"

definition clearListeners :: "(int, nat) gomap \<Rightarrow> lstate \<Rightarrow> lstate" where
  "clearListeners ll st = remove_all (map snd ll) st"

definition clearRemovedListeners :: "(int, nat) gomap option \<Rightarrow> (int, nat) gomap option \<Rightarrow> lstate \<Rightarrow> lstate" where
  "clearRemovedListeners old new st =
     (case (old, new) of
        (Some old, Some new) \<Rightarrow> remove_all (map snd (filter (\<lambda>(port, _). mget new port = None) old)) st
      | _ \<Rightarrow> st)"

fun ctl_processListeners :: "listen_env \<Rightarrow> (int \<times> nat) list \<Rightarrow> lstate \<Rightarrow> lstate option" where
  "ctl_processListeners env [] st = Some st"
| "ctl_processListeners env ((port, a) # ll) st =
     (case AddOrUpdateListener env a (upd_l a (\<lambda>l. l\<lparr>lPort := port\<rparr>) st) of
        None \<Rightarrow> None
      | Some (st, _) \<Rightarrow> ctl_processListeners env ll st)"

end
