(* ===== verification/Listeners_Laws.thy ===== *)
theory Listeners_Laws
  imports Listeners_Api
begin

text \<open>
  Laws of the listeners: the kind a protocol name gives, which listener owns a port, that a listener is reported open exactly if it
  has a socket, that the identity of a listener is never used again, that the links to forward listeners are current, and what the
  API does with certificates and with UDP listeners.
\<close>

section \<open>Objects\<close>

lemma upd_l_simps [simp]:
  "length (lsObjs (upd_l a f st)) = length (lsObjs st)" "listeners (upd_l a f st) = listeners st" "grpcListeners (upd_l a f st) = grpcListeners st"
  "initialListeners (upd_l a f st) = initialListeners st" "lsDefault (upd_l a f st) = lsDefault st"
  "lsDefaultGRPC (upd_l a f st) = lsDefaultGRPC st" "lsBound (upd_l a f st) = lsBound st" "lsUdpBound (upd_l a f st) = lsUdpBound st"
  "listenerGenerations (upd_l a f st) = listenerGenerations st" "udpListeners (upd_l a f st) = udpListeners st"
  "lsTcp (upd_l a f st) = lsTcp st" "httpServer (upd_l a f st) = httpServer st" "jsonRPCServer (upd_l a f st) = jsonRPCServer st"
  "tcpServer (upd_l a f st) = tcpServer st" "grpcStarted (upd_l a f st) = grpcStarted st" "lsTick (upd_l a f st) = lsTick st"
  by (simp_all add: upd_l_def)

lemma lobj_upd_l: "lobj (upd_l a f st) b = (if b = a \<and> a < length (lsObjs st) then f (lobj st a) else lobj st b)"
  by (cases "a < length (lsObjs st)") (auto simp: lobj_def upd_l_def nth_list_update list_update_beyond)

lemma lobj_upd_same [simp]: "a < length (lsObjs st) \<Longrightarrow> lobj (upd_l a f st) a = f (lobj st a)"
  by (simp add: lobj_upd_l)

lemma upd_tls_simps [simp]:
  "lPort (upd_tls f l) = lPort l" "lSocket (upd_tls f l) = lSocket l" "lUDPConn (upd_tls f l) = lUDPConn l" "lOpen (upd_tls f l) = lOpen l"
  "lProto (upd_tls f l) = lProto l" "lTls (upd_tls f l) = f (lTls l)" "lForwardPort (upd_tls f l) = lForwardPort l"
  "lForward (upd_tls f l) = lForward l" "lListenerID (upd_tls f l) = lListenerID l" "lTCP (upd_tls f l) = lTCP l" "lALPN (upd_tls f l) = lALPN l"
  by (simp_all add: upd_tls_def)

section \<open>The kind of a listener\<close>

definition kinds :: "listener_proto \<Rightarrow> bool list" where
  "kinds p = [lpIsHTTP p, lpIsGRPC p, lpIsTCP p, lpIsUDP p]"

lemma assign_names_kind:
  assumes "lProto l = no_proto protocol"
  shows "length (filter (\<lambda>b. b) (kinds (fst (assign_names l)))) = 1"
    and "lpIsHTTP2 (fst (assign_names l)) \<or> lpIsJSONRPC (fst (assign_names l)) \<longrightarrow> lpIsHTTP (fst (assign_names l))"
    and "lpIsXDS (fst (assign_names l)) \<longrightarrow> lpIsGRPC (fst (assign_names l))"
    and "lpL8Proto (fst (assign_names l)) \<in> {''http'', ''https'', ''h2'', ''h2c'', ''grpc'', ''xds'', ''jsonrpc'', ''udp'', ''tcp''}"
  using assms by (simp_all add: assign_names_def no_proto_def kinds_def Let_def)

lemma kinds_assigned [simp]: "kinds (p\<lparr>lpAssigned := b\<rparr>) = kinds p"
  by (simp add: kinds_def)

lemma assignProtocol_proto: "lProto (assignProtocol l) = (fst (assign_names l))\<lparr>lpAssigned := True\<rparr>"
  by (simp add: assignProtocol_def Let_def split: prod.split)

lemma assignProtocol_cert:
  "ltTLS (lTls (assignProtocol l)) \<longrightarrow>
   ltAutoCert (lTls (assignProtocol l)) \<or> ltCertificates (lTls (assignProtocol l)) \<noteq> None \<or> ltRawCert (lTls (assignProtocol l)) \<noteq> []"
  by (simp add: assignProtocol_def Let_def split: prod.split)

text \<open>A listener whose protocol is not assigned and whose flags are all unset gets exactly one of the kinds HTTP, gRPC, TCP and UDP, whatever the text of the protocol
  is. Only an HTTP listener is HTTP/2 or JSON-RPC, only a gRPC listener is XDS; it has a known name for its application protocol; and if
  it is to use TLS, it has a certificate or will create one.\<close>
theorem assignProtocol_kind:
  assumes "lProto l = no_proto protocol" and "p = lProto (assignProtocol l)" and "t = lTls (assignProtocol l)"
  shows "length (filter (\<lambda>b. b) (kinds p)) = 1 \<and> (lpIsHTTP2 p \<or> lpIsJSONRPC p \<longrightarrow> lpIsHTTP p) \<and> (lpIsXDS p \<longrightarrow> lpIsGRPC p) \<and>
    lpL8Proto p \<in> {''http'', ''https'', ''h2'', ''h2c'', ''grpc'', ''xds'', ''jsonrpc'', ''udp'', ''tcp''} \<and>
    (ltTLS t \<longrightarrow> ltAutoCert t \<or> ltCertificates t \<noteq> None \<or> ltRawCert t \<noteq> [])"
  using assign_names_kind [OF assms(1)] assignProtocol_cert [of l] assms(2,3) unfolding assignProtocol_proto by simp

theorem assignProtocol_kind_witness:
  "\<exists>l p t. lProto l = no_proto ''TLS'' \<and> p = lProto (assignProtocol l) \<and> t = lTls (assignProtocol l) \<and>
     length (filter (\<lambda>b. b) (kinds p)) = 1 \<and> lpIsTCP p \<and> lpL8Proto p = ''tcp'' \<and> ltTLS t \<and> ltAutoCert t"
proof -
  let ?l = "newListener 8443 ''TLS'' [] True" and ?p = "lProto (assignProtocol (newListener 8443 ''TLS'' [] True))"
  have "lProto ?l = no_proto ''TLS''" by (simp add: newListener_def)
  moreover from assignProtocol_kind [OF this refl refl] have "length (filter (\<lambda>b. b) (kinds ?p)) = 1" by blast
  moreover have "lpIsTCP ?p \<and> lpL8Proto ?p = ''tcp'' \<and> ltTLS (lTls (assignProtocol ?l)) \<and> ltAutoCert (lTls (assignProtocol ?l))"
    by code_simp
  ultimately show ?thesis by blast
qed

section \<open>Owning a port\<close>

text \<open>The objects that have a socket of some kind have different ports, and their ports are bound.\<close>

definition owned :: "(listener \<Rightarrow> bool) \<Rightarrow> int list \<Rightarrow> listener list \<Rightarrow> bool" where
  "owned has bound objs \<longleftrightarrow>
     distinct bound \<and> (\<forall>i < length objs. has (objs ! i) \<longrightarrow> lPort (objs ! i) \<in> set bound) \<and>
     (\<forall>i < length objs. \<forall>j < length objs. has (objs ! i) \<and> has (objs ! j) \<and> lPort (objs ! i) = lPort (objs ! j) \<longrightarrow> i = j)"

lemma owned_keep:
  assumes "owned has bound objs" "has l = has (objs ! a)" "has l \<longrightarrow> lPort l = lPort (objs ! a)"
  shows "owned has bound (objs[a := l])"
  using assms by (cases "a < length objs") (auto simp: owned_def nth_list_update list_update_beyond)

lemma owned_clear: "owned has bound objs \<Longrightarrow> \<not> has l \<Longrightarrow> owned has bound (objs[a := l])"
  by (cases "a < length objs") (auto simp: owned_def nth_list_update list_update_beyond)

lemma owned_drop:
  assumes "owned has bound objs" "a < length objs" "has (objs ! a)" "\<not> has l" "p = lPort (objs ! a)"
  shows "owned has (remove1 p bound) (objs[a := l])"
proof -
  have "lPort (objs ! i) \<in> set (remove1 p bound)" if "i < length objs" "i \<noteq> a" "has (objs ! i)" for i
  proof -
    have "lPort (objs ! i) \<noteq> p" using assms that unfolding owned_def by metis
    then show ?thesis using assms(1) that by (simp add: owned_def)
  qed
  then show ?thesis using assms by (auto simp: owned_def nth_list_update)
qed

lemma owned_close:
  assumes "owned has bound objs" "a < length objs" "\<not> has l"
  shows "owned has (if has (objs ! a) then remove1 (lPort (objs ! a)) bound else bound) (objs[a := l])"
  using assms by (simp add: owned_drop owned_clear)

lemma owned_bind: "owned has bound objs \<Longrightarrow> p \<notin> set bound \<Longrightarrow> owned has (p # bound) objs"
  by (auto simp: owned_def)

lemma owned_add:
  assumes "owned has bound objs" "lPort l \<notin> set bound"
  shows "owned has (lPort l # bound) (objs[a := l])"
  using assms by (cases "a < length objs") (auto simp: owned_def nth_list_update list_update_beyond)

lemma owned_alloc: "owned has bound objs \<Longrightarrow> \<not> has l \<Longrightarrow> owned has bound (objs @ [l])"
  by (auto simp: owned_def nth_append less_Suc_eq)

definition has_socket :: "listener \<Rightarrow> bool" where
  "has_socket l \<longleftrightarrow> lSocket l \<noteq> None"

definition listening :: "listener \<Rightarrow> bool" where
  "listening l \<longleftrightarrow> has_socket l \<or> lUDPConn l"

text \<open>
  The invariant, but for the port \<open>jp\<close> of the JSON-RPC server, whose listener is stored as open and served without it. \<open>shut\<close>: every
  object with a socket is marked open; \<open>tabled\<close>: what the table has for a port.
\<close>

definition shut :: "lstate \<Rightarrow> bool" where
  "shut st \<longleftrightarrow> (\<forall>l \<in> set (lsObjs st). listening l \<longrightarrow> lOpen l)"

definition tabled :: "int \<Rightarrow> lstate \<Rightarrow> bool" where
  "tabled jp st \<longleftrightarrow>
     (\<forall>p a. mget (listeners st) p = Some a \<longrightarrow>
        a < length (lsObjs st) \<and> lPort (lobj st a) = p \<and> (p \<noteq> jp \<and> lOpen (lobj st a) \<longrightarrow> listening (lobj st a)))"

definition addresses :: "lstate \<Rightarrow> bool" where
  "addresses st \<longleftrightarrow>
     (let n = length (lsObjs st) in
      (\<forall>(_, a) \<in> set (grpcListeners st). a < n) \<and> (\<forall>a \<in> set (initialListeners st). a < n) \<and> lsDefault st < n \<and> lsDefaultGRPC st < n)"

definition ports_owned :: "lstate \<Rightarrow> bool" where
  "ports_owned st \<longleftrightarrow> owned has_socket (lsBound st) (lsObjs st) \<and> owned lUDPConn (lsUdpBound st) (lsObjs st)"

text \<open>The generations of the ports never go down: they are at least \<open>G\<close>.\<close>

definition gens_above :: "(int \<Rightarrow> int) \<Rightarrow> lstate \<Rightarrow> bool" where
  "gens_above G st \<longleftrightarrow> (\<forall>p. G p \<le> mget_or 0 (listenerGenerations st) p)"

definition linv :: "int \<times> (int \<Rightarrow> int) \<Rightarrow> lstate \<Rightarrow> bool" where
  "linv k st \<longleftrightarrow> ports_owned st \<and> shut st \<and> tabled (fst k) st \<and> addresses st \<and> gens_above (snd k) st"

text \<open>An update of one object that keeps its port, its sockets and its mark.\<close>

definition quiet :: "(listener \<Rightarrow> listener) \<Rightarrow> bool" where
  "quiet f \<longleftrightarrow> (\<forall>l. lPort (f l) = lPort l \<and> lSocket (f l) = lSocket l \<and> lUDPConn (f l) = lUDPConn l \<and> lOpen (f l) = lOpen l)"

lemma shut_upd:
  assumes "shut st" "a < length (lsObjs st)" "listening (f (lobj st a)) \<longrightarrow> lOpen (f (lobj st a))"
  shows "shut (upd_l a f st)"
  using assms set_update_subset_insert [of "lsObjs st" a] unfolding shut_def by (auto simp: upd_l_def lobj_def)

lemma upd_beyond: "\<not> a < length (lsObjs st) \<Longrightarrow> upd_l a f st = st"
  by (simp add: upd_l_def list_update_beyond)

lemma linv_upd_quiet:
  assumes "linv k st" "quiet f"
  shows "linv k (upd_l a f st)"
proof (cases "a < length (lsObjs st)")
  case True
  have q: "lPort (f l) = lPort l" "has_socket (f l) = has_socket l" "lUDPConn (f l) = lUDPConn l" "lOpen (f l) = lOpen l"
    "listening (f l) = listening l" for l
    using assms(2) by (simp_all add: quiet_def has_socket_def listening_def)
  have "ports_owned (upd_l a f st)"
    using assms(1) unfolding linv_def ports_owned_def by (auto simp: upd_l_def q intro!: owned_keep)
  moreover have "lobj st a \<in> set (lsObjs st)" using True by (simp add: lobj_def)
  then have "shut (upd_l a f st)" using assms(1) True by (intro shut_upd) (auto simp: linv_def shut_def q)
  moreover have "tabled (fst k) (upd_l a f st)" "addresses (upd_l a f st)" "gens_above (snd k) (upd_l a f st)"
    using assms(1) by (auto simp: linv_def tabled_def addresses_def gens_above_def lobj_upd_l q Let_def)
  ultimately show ?thesis by (simp add: linv_def)
next
  case False
  then show ?thesis using assms(1) by (simp add: upd_beyond)
qed

lemma lsObjs_cong:
  assumes "lsObjs st' = lsObjs st" "listeners st' = listeners st" "grpcListeners st' = grpcListeners st" "initialListeners st' = initialListeners st"
    "lsDefault st' = lsDefault st" "lsDefaultGRPC st' = lsDefaultGRPC st" "lsBound st' = lsBound st" "lsUdpBound st' = lsUdpBound st"
    "listenerGenerations st' = listenerGenerations st"
  shows "linv k st' = linv k st"
  using assms by (simp add: linv_def ports_owned_def shut_def tabled_def addresses_def gens_above_def lobj_def)

lemma linv_close:
  assumes "linv k st" "a < length (lsObjs st)"
  shows "linv k (Close a st)"
proof -
  let ?l = "(lobj st a)\<lparr>lSocket := None, lUDPConn := False, lOpen := False\<rparr>"
  have objs: "lsObjs (Close a st) = (lsObjs st)[a := ?l]" by (simp add: Close_def upd_l_def lobj_def Let_def)
  have tabs: "listeners (Close a st) = listeners st" "grpcListeners (Close a st) = grpcListeners st"
    "initialListeners (Close a st) = initialListeners st" "lsDefault (Close a st) = lsDefault st" "lsDefaultGRPC (Close a st) = lsDefaultGRPC st"
    by (simp_all add: Close_def Let_def)
  have bound: "lsBound (Close a st) = (if has_socket (lobj st a) then remove1 (lPort (lobj st a)) (lsBound st) else lsBound st)"
    "lsUdpBound (Close a st) = (if lUDPConn (lobj st a) then remove1 (lPort (lobj st a)) (lsUdpBound st) else lsUdpBound st)"
    by (simp_all add: Close_def Let_def has_socket_def)
  have no: "\<not> has_socket ?l" "\<not> lUDPConn ?l" "\<not> listening ?l" by (simp_all add: has_socket_def listening_def)
  have "ports_owned (Close a st)"
    using assms no unfolding linv_def ports_owned_def objs bound lobj_def by (blast intro: owned_close)
  moreover have "shut (Close a st)"
    using assms(1) no set_update_subset_insert [of "lsObjs st" a ?l] unfolding linv_def shut_def objs by blast
  moreover have "tabled (fst k) (Close a st)" "addresses (Close a st)"
    using assms unfolding linv_def tabled_def addresses_def tabs objs
    by (auto simp: lobj_def objs nth_list_update Let_def)
  moreover have "gens_above (snd k) (Close a st)" using assms(1) by (simp add: linv_def gens_above_def Close_def Let_def)
  ultimately show ?thesis by (simp add: linv_def)
qed

text \<open>What opening, closing and preparing a listener leave as it is: the ports of the objects and the tables.\<close>

definition same_tables :: "lstate \<Rightarrow> lstate \<Rightarrow> bool" where
  "same_tables st st' \<longleftrightarrow>
     map lPort (lsObjs st') = map lPort (lsObjs st) \<and> listeners st' = listeners st \<and> grpcListeners st' = grpcListeners st \<and>
     udpListeners st' = udpListeners st \<and>
     initialListeners st' = initialListeners st \<and> lsDefault st' = lsDefault st \<and> lsDefaultGRPC st' = lsDefaultGRPC st"

lemma same_tables_refl [simp]: "same_tables st st"
  by (simp add: same_tables_def)

lemma same_tables_trans [trans]: "same_tables st st' \<Longrightarrow> same_tables st' st'' \<Longrightarrow> same_tables st st''"
  by (simp add: same_tables_def)

lemma same_tables_length: "same_tables st st' \<Longrightarrow> length (lsObjs st') = length (lsObjs st)"
  by (metis length_map same_tables_def)

lemma same_tables_port: "same_tables st st' \<Longrightarrow> a < length (lsObjs st) \<Longrightarrow> lPort (lobj st' a) = lPort (lobj st a)"
  by (metis length_map lobj_def nth_map same_tables_def)

lemma same_tables_upd:
  assumes "\<And>l. lPort (f l) = lPort l"
  shows "same_tables st (upd_l a f st)"
  by (cases "a < length (lsObjs st)") (simp_all add: same_tables_def upd_l_def map_update assms list_update_beyond list_update_same_conv)

section \<open>Opening a listener\<close>

lemma auto_cert_simps [simp]:
  "lPort (auto_cert env l) = lPort l" "lSocket (auto_cert env l) = lSocket l" "lUDPConn (auto_cert env l) = lUDPConn l"
  "lOpen (auto_cert env l) = lOpen l" "lProto (auto_cert env l) = lProto l" "lForwardPort (auto_cert env l) = lForwardPort l"
  "lForward (auto_cert env l) = lForward l" "lTCP (auto_cert env l) = lTCP l"
  by (simp_all add: auto_cert_def SetCertificates_def Let_def)

text \<open>What binds: the listener at \<open>a\<close> becomes \<open>l\<close>, with a new socket if \<open>ok\<close>.\<close>

definition opened :: "nat \<Rightarrow> listener \<Rightarrow> bool \<Rightarrow> lstate \<Rightarrow> lstate \<Rightarrow> bool" where
  "opened a l ok st st' \<longleftrightarrow>
     (let l0 = lobj st a; p = lPort l0 in
      lsObjs st' = (lsObjs st)[a := l] \<and> lPort l = p \<and> lProto l = lProto l0 \<and>
      (if \<not> ok then
         (has_socket l \<longleftrightarrow> has_socket l0) \<and> (lUDPConn l \<longleftrightarrow> lUDPConn l0) \<and> lsUdpBound st' = lsUdpBound st \<and>
         (lsBound st' = lsBound st \<or> p \<notin> set (lsBound st) \<and> lsBound st' = p # lsBound st)
       else if lpIsUDP (lProto l0) then
         lUDPConn l \<and> (has_socket l \<longleftrightarrow> has_socket l0) \<and> lsBound st' = lsBound st \<and> p \<notin> set (lsUdpBound st) \<and> lsUdpBound st' = p # lsUdpBound st
       else
         has_socket l \<and> (lUDPConn l \<longleftrightarrow> lUDPConn l0) \<and> lsUdpBound st' = lsUdpBound st \<and> p \<notin> set (lsBound st) \<and> lsBound st' = p # lsBound st))"

definition rest_same :: "lstate \<Rightarrow> lstate \<Rightarrow> bool" where
  "rest_same st st' \<longleftrightarrow>
     listeners st' = listeners st \<and> grpcListeners st' = grpcListeners st \<and> udpListeners st' = udpListeners st \<and>
     initialListeners st' = initialListeners st \<and> lsDefault st' = lsDefault st \<and> lsDefaultGRPC st' = lsDefaultGRPC st"

lemma InitListener_opened:
  assumes "InitListener env a st = Some (st', ok)" "a < length (lsObjs st)"
  shows "opened a (lobj st' a) ok st st' \<and> lOpen (lobj st' a) = lOpen (lobj st a) \<and> rest_same st st' \<and>
    listenerGenerations st' = listenerGenerations st"
  using assms
  by (auto simp: InitListener_def bind_port_def bind_udp_def Let_def opened_def rest_same_def lobj_def upd_l_def has_socket_def
        split: option.splits if_splits prod.splits bool.splits)

lemma serve_listener_objs:
  assumes "serve_listener a st = Some st'"
  shows "lsObjs st' = lsObjs st \<and> lsBound st' = lsBound st \<and> lsUdpBound st' = lsUdpBound st \<and> rest_same st st' \<and>
    listenerGenerations st' = listenerGenerations st"
  using assms by (auto simp: serve_listener_def serveTCP_def rest_same_def Let_def split: option.splits if_splits)

lemma mark_open_simps [simp]:
  "lPort (mark_open l) = lPort l" "lSocket (mark_open l) = lSocket l" "lUDPConn (mark_open l) = lUDPConn l" "lOpen (mark_open l)"
  "lProto (mark_open l) = lProto l" "lListenerID (mark_open l) = lListenerID l" "lForwardPort (mark_open l) = lForwardPort l"
  "lForward (mark_open l) = lForward l"
  by (simp_all add: mark_open_def)

lemma openListener_cases:
  assumes "openListener env serve a st = Some (st', ok)"
  obtains "InitListener env a st = Some (st', False)" "\<not> ok"
  | st1 st2 where "InitListener env a st = Some (st1, True)" "ok" "st' = upd_l a mark_open st2" "lsObjs st2 = lsObjs (assign_id a st1)"
      "lsBound st2 = lsBound st1" "lsUdpBound st2 = lsUdpBound st1" "rest_same st1 st2"
      "listenerGenerations st2 = listenerGenerations (assign_id a st1)"
proof (cases "InitListener env a st")
  case (Some r)
  obtain st1 ok1 where r: "r = (st1, ok1)" by fastforce
  show thesis
  proof (cases ok1)
    case True
    then obtain st2 where st2: "(if serve then serve_listener a (assign_id a st1) else Some (assign_id a st1)) = Some st2"
      "st' = upd_l a mark_open st2" ok
      using assms Some r by (auto simp: openListener_def)
    have "lsBound (assign_id a st1) = lsBound st1" "lsUdpBound (assign_id a st1) = lsUdpBound st1" "rest_same st1 (assign_id a st1)"
      by (simp_all add: assign_id_def rest_same_def Let_def)
    then show thesis using that(2) [of st1 st2] st2 Some r True serve_listener_objs [of a "assign_id a st1" st2]
      by (auto simp: rest_same_def split: if_splits)
  next
    case False
    then show thesis using that(1) assms Some r by (auto simp: openListener_def)
  qed
qed (use assms in \<open>simp add: openListener_def\<close>)

lemma assign_id_obj:
  assumes "a < length (lsObjs st)"
  shows "lsObjs (assign_id a st) = (lsObjs st)[a := lobj (assign_id a st) a]"
    and "lPort (lobj (assign_id a st) a) = lPort (lobj st a)" "lSocket (lobj (assign_id a st) a) = lSocket (lobj st a)"
    "lUDPConn (lobj (assign_id a st) a) = lUDPConn (lobj st a)" "lProto (lobj (assign_id a st) a) = lProto (lobj st a)"
    "lTls (lobj (assign_id a st) a) = lTls (lobj st a)" "lForward (lobj (assign_id a st) a) = lForward (lobj st a)"
    "lForwardPort (lobj (assign_id a st) a) = lForwardPort (lobj st a)"
  using assms by (simp_all add: assign_id_def Let_def upd_l_def lobj_def)

lemma openListener_opened:
  assumes "openListener env serve a st = Some (st', ok)" "a < length (lsObjs st)"
  shows "opened a (lobj st' a) ok st st' \<and> lOpen (lobj st' a) = (ok \<or> lOpen (lobj st a)) \<and> rest_same st st'"
  using assms(1)
proof (cases rule: openListener_cases)
  case 1
  then show ?thesis using InitListener_opened assms(2) by simp
next
  case (2 st1 st2)
  note i = InitListener_opened [OF 2(1) assms(2)]
  have len: "a < length (lsObjs st1)" using i assms(2) by (simp add: opened_def Let_def)
  have objs: "lsObjs st' = (lsObjs st)[a := mark_open (lobj (assign_id a st1) a)]"
    using i 2(3,4) assign_id_obj(1) [OF len] by (simp add: upd_l_def opened_def Let_def) (metis list_update_overwrite lobj_def)
  then have obj: "lobj st' a = mark_open (lobj (assign_id a st1) a)" using assms(2) by (simp add: lobj_def)
  have "has_socket (lobj st' a) = has_socket (lobj st1 a)" using obj assign_id_obj(3) [OF len] by (simp add: has_socket_def)
  then show ?thesis
    using i 2(2,3,5-7) objs obj assign_id_obj(2-5) [OF len] by (simp add: opened_def rest_same_def Let_def)
qed

text \<open>A port that is opened has the next generation, and its listener the identity of that generation.\<close>

definition gen :: "lstate \<Rightarrow> int \<Rightarrow> int" where
  "gen st p = mget_or 0 (listenerGenerations st) p"

lemma openListener_gen:
  assumes "openListener env serve a st = Some (st', ok)" "a < length (lsObjs st)"
  defines "p \<equiv> lPort (lobj st a)"
  shows "gen st' = (if ok then (gen st)(p := gen st p + 1) else gen st) \<and>
    (ok \<longrightarrow> lListenerID (lobj st' a) = listener_id p (gen st p + 1) \<and> lGeneration (lobj st' a) = gen st p + 1)"
  using assms(1)
proof (cases rule: openListener_cases)
  case 1
  then show ?thesis using InitListener_opened [OF 1(1) assms(2)] by (simp add: gen_def fun_eq_iff)
next
  case (2 st1 st2)
  note i = InitListener_opened [OF 2(1) assms(2)]
  have len: "a < length (lsObjs st1)" and p: "lPort (lobj st1 a) = p" using i assms(2) by (simp_all add: opened_def Let_def p_def)
  have "gen (assign_id a st1) = (gen st)(p := gen st p + 1)"
    using i p by (simp add: assign_id_def Let_def gen_def mget_or_def fun_eq_iff)
  moreover have "lListenerID (lobj (assign_id a st1) a) = listener_id p (gen st p + 1) \<and> lGeneration (lobj (assign_id a st1) a) = gen st p + 1"
    using i p len by (simp add: assign_id_def Let_def gen_def lobj_def upd_l_def)
  moreover have "gen st' = gen (assign_id a st1)" using 2(3,8) by (simp add: gen_def fun_eq_iff)
  moreover have "lobj st' a = mark_open (lobj (assign_id a st1) a)"
    using 2(3,4) len by (simp add: lobj_def upd_l_def assign_id_def Let_def)
  ultimately show ?thesis using 2(2) by (simp add: mark_open_def upd_tls_def)
qed

lemma openListener_gens:
  assumes "openListener env serve a st = Some (st', ok)" "a < length (lsObjs st)"
  shows "mget_or 0 (listenerGenerations st) p \<le> mget_or 0 (listenerGenerations st') p"
proof -
  have "gen st p \<le> gen st' p" using openListener_gen [OF assms] by auto
  then show ?thesis by (simp add: gen_def)
qed

lemma opened_owned:
  assumes "ports_owned st" "a < length (lsObjs st)" "opened a l ok st st'"
  shows "ports_owned st'"
proof (cases ok)
  case True
  then show ?thesis
    using assms owned_add [of has_socket "lsBound st" "lsObjs st" l a] owned_add [of lUDPConn "lsUdpBound st" "lsObjs st" l a]
      owned_keep [of has_socket "lsBound st" "lsObjs st" l a] owned_keep [of lUDPConn "lsUdpBound st" "lsObjs st" l a]
    by (simp add: ports_owned_def opened_def Let_def lobj_def split: if_splits)
next
  case False
  then show ?thesis
    using assms owned_keep [of has_socket "lsBound st" "lsObjs st" l a] owned_keep [of lUDPConn "lsUdpBound st" "lsObjs st" l a]
      owned_bind [of has_socket "lsBound st" "(lsObjs st)[a := l]" "lPort l"]
    by (auto simp: ports_owned_def opened_def Let_def lobj_def)
qed

lemma opened_same_tables:
  assumes "opened a l ok st st'" "rest_same st st'" "a < length (lsObjs st)"
  shows "same_tables st st'"
  using assms list_update_id [of "map lPort (lsObjs st)" a] by (simp add: opened_def rest_same_def same_tables_def Let_def map_update lobj_def)

lemma linv_same_tables:
  assumes "linv k st" "same_tables st st'" "ports_owned st'" "shut st'" "gens_above (snd k) st'"
    and "\<And>b. b < length (lsObjs st) \<Longrightarrow> lOpen (lobj st' b) \<Longrightarrow> listening (lobj st b) \<or> \<not> lOpen (lobj st b) \<Longrightarrow> listening (lobj st' b)"
  shows "linv k st'"
proof -
  have "length (lsObjs st') = length (lsObjs st)" by (rule same_tables_length [OF assms(2)])
  moreover have "tabled (fst k) st'"
    unfolding tabled_def
  proof (intro allI impI)
    fix p a assume "mget (listeners st') p = Some a"
    then have t: "a < length (lsObjs st)" "lPort (lobj st a) = p" "p \<noteq> fst k \<and> lOpen (lobj st a) \<longrightarrow> listening (lobj st a)"
      using assms(1,2) by (simp_all add: linv_def tabled_def same_tables_def)
    then show "a < length (lsObjs st') \<and> lPort (lobj st' a) = p \<and> (p \<noteq> fst k \<and> lOpen (lobj st' a) \<longrightarrow> listening (lobj st' a))"
      using assms(6) [of a] same_tables_port [OF assms(2)] same_tables_length [OF assms(2)] by auto
  qed
  ultimately show ?thesis using assms by (simp add: linv_def addresses_def same_tables_def Let_def)
qed

text \<open>Opening keeps the invariant, and a listener that was opened has its socket.\<close>

lemma linv_open:
  assumes "linv k st" "a < length (lsObjs st)" "openListener env serve a st = Some (st', ok)"
  shows "linv k st' \<and> same_tables st st' \<and> (ok \<longrightarrow> lOpen (lobj st' a) \<and> listening (lobj st' a))"
proof -
  note o = openListener_opened [OF assms(3,2)]
  have st: "same_tables st st'" using o opened_same_tables assms(2) by blast
  have others: "lobj st' b = lobj st b" if "b \<noteq> a" for b 
    using o that unfolding opened_def lobj_def Let_def by (metis nth_list_update_neq)
  have a: "listening (lobj st' a) = (ok \<or> listening (lobj st a))" using o by (auto simp: opened_def listening_def Let_def split: if_splits)
  have "lobj st a \<in> set (lsObjs st)" using assms(2) by (simp add: lobj_def)
  then have "shut st'"
    using assms(1,2) o a set_update_subset_insert [of "lsObjs st" a "lobj st' a"] by (auto simp: linv_def shut_def opened_def Let_def)
  moreover have "ports_owned st'" using assms(1,2) o opened_owned by (auto simp: linv_def)
  moreover have "listening (lobj st' b)" if "lOpen (lobj st' b)" "listening (lobj st b) \<or> \<not> lOpen (lobj st b)" for b
    using that o a others by (cases "b = a") auto
  moreover have "gens_above (snd k) st'" using assms(1) openListener_gens [OF assms(3,2)] by (auto simp: linv_def gens_above_def intro: order_trans)
  ultimately have "linv k st'" using assms(1) st linv_same_tables by blast
  then show ?thesis using st o a by blast
qed

lemma close_same_tables: "same_tables st (Close a st)"
proof -
  have "same_tables st (upd_l a (\<lambda>l. l\<lparr>lSocket := None, lUDPConn := False, lOpen := False\<rparr>) st)" by (rule same_tables_upd) simp
  then show ?thesis by (simp add: same_tables_def Close_def Let_def upd_l_def)
qed

lemma linv_reopen_loop:
  assumes "linv k st" "a < length (lsObjs st)" "reopen_loop env n a st = Some (st', ok)"
  shows "linv k st' \<and> same_tables st st' \<and> (ok \<longrightarrow> lOpen (lobj st' a) \<and> listening (lobj st' a))"
  using assms
proof (induction n arbitrary: st)
  case (Suc n)
  obtain st1 ok1 where o: "openListener env True a st = Some (st1, ok1)" using Suc.prems(3) by (auto split: option.splits)
  note l = linv_open [OF Suc.prems(1,2) o]
  show ?case
  proof (cases ok1)
    case True
    then show ?thesis using Suc.prems(3) o l by auto
  next
    case False
    have len: "a < length (lsObjs st1)" using l same_tables_length Suc.prems(2) by metis
    have "reopen_loop env n a st1 = Some (st', ok)" using False Suc.prems(3) o by simp
    then show ?thesis using Suc.IH l len same_tables_trans by blast
  qed
qed auto

lemma linv_reopen:
  assumes "linv k st" "a < length (lsObjs st)" "ReopenListener env a st = Some (st', ok)"
  shows "linv k st' \<and> same_tables st st' \<and> (ok \<longrightarrow> lOpen (lobj st' a) \<and> listening (lobj st' a))"
proof (cases "mget (listeners st) (lPort (lobj st a))")
  case None
  then show ?thesis using assms linv_reopen_loop by (simp add: ReopenListener_def)
next
  case (Some old)
  let ?st = "Close old (upd_l old (\<lambda>l. l\<lparr>lRestarted := True\<rparr>) st)"
  have "old < length (lsObjs st)" using Some assms(1) by (simp add: linv_def tabled_def)
  then have inv: "linv k ?st" using assms(1) by (intro linv_close linv_upd_quiet) (auto simp: quiet_def)
  have "same_tables st (upd_l old (\<lambda>l. l\<lparr>lRestarted := True\<rparr>) st)" by (rule same_tables_upd) simp
  then have same: "same_tables st ?st" using close_same_tables same_tables_trans by blast
  moreover have "reopen_loop env 5 a ?st = Some (st', ok)" using assms(3) Some by (simp add: ReopenListener_def)
  moreover have "a < length (lsObjs ?st)" using assms(2) same same_tables_length by simp
  ultimately show ?thesis using linv_reopen_loop [OF inv] same_tables_trans by blast
qed

section \<open>Adding a listener\<close>

definition same_objs :: "lstate \<Rightarrow> lstate \<Rightarrow> bool" where
  "same_objs st st' \<longleftrightarrow>
     map lPort (lsObjs st') = map lPort (lsObjs st) \<and> initialListeners st' = initialListeners st \<and> lsDefault st' = lsDefault st \<and>
     lsDefaultGRPC st' = lsDefaultGRPC st"

lemma same_objs_length: "same_objs st st' \<Longrightarrow> length (lsObjs st') = length (lsObjs st)"
  by (metis length_map same_objs_def)

lemma same_tables_objs: "same_tables st st' \<Longrightarrow> same_objs st st'"
  by (simp add: same_tables_def same_objs_def)

lemma same_objs_trans: "same_objs st st' \<Longrightarrow> same_objs st' st'' \<Longrightarrow> same_objs st st''"
  by (simp add: same_objs_def)

lemma assignProtocol_simps [simp]:
  "lPort (assignProtocol l) = lPort l" "lSocket (assignProtocol l) = lSocket l" "lUDPConn (assignProtocol l) = lUDPConn l"
  "lOpen (assignProtocol l) = lOpen l" "lForwardPort (assignProtocol l) = lForwardPort l" "lForward (assignProtocol l) = lForward l"
  by (simp_all add: assignProtocol_def Let_def split: prod.split)

lemma linv_lsTcp: "linv k (st\<lparr>lsTcp := tcp\<rparr>) = linv k st"
  by (rule lsObjs_cong) simp_all

lemma quiet_prepare: "quiet (assign_kind \<circ> label_listener env)" "quiet (set_tcp c)"
  by (simp_all add: quiet_def assign_kind_def label_listener_def init_certs_def set_tcp_def Let_def)

lemma quiet_same_tables: "quiet f \<Longrightarrow> same_tables st (upd_l a f st)"
  by (rule same_tables_upd) (simp add: quiet_def)

lemma prepare_cases:
  assumes "prepare_listener env a st = Some (st', bad)"
  obtains "st' = upd_l a (assign_kind \<circ> label_listener env) st"
  | tcp c where "st' = upd_l a (set_tcp c) ((upd_l a (assign_kind \<circ> label_listener env) st)\<lparr>lsTcp := tcp\<rparr>)"
  using assms unfolding prepare_listener_def Let_def by (simp split: if_split_asm) blast

lemma prepare_laws:
  assumes "linv k st" "prepare_listener env a st = Some (st', bad)"
  shows "linv k st' \<and> same_tables st st'"
  using assms(2)
proof (cases rule: prepare_cases)
  case 1
  then show ?thesis using assms(1) quiet_prepare quiet_same_tables linv_upd_quiet by simp
next
  case (2 tcp c)
  let ?st = "upd_l a (assign_kind \<circ> label_listener env) st"
  have "linv k st'" unfolding 2 by (rule linv_upd_quiet) (use quiet_prepare linv_upd_quiet assms(1) in \<open>simp_all add: linv_lsTcp\<close>)
  moreover have "same_tables ?st (?st\<lparr>lsTcp := tcp\<rparr>)" by (simp add: same_tables_def)
  then have "same_tables st st'" unfolding 2 using quiet_prepare quiet_same_tables same_tables_trans by metis
  ultimately show ?thesis by blast
qed

lemma linv_store:
  assumes "linv k st" "a < length (lsObjs st)" "lOpen (lobj st a) \<longrightarrow> listening (lobj st a)"
  shows "linv k (store a st)"
  using assms by (auto simp: linv_def ports_owned_def shut_def tabled_def addresses_def gens_above_def store_def lobj_def Let_def)

lemma linv_protocol_tables:
  assumes "linv k st" "a < length (lsObjs st)"
  shows "linv k (st\<lparr>grpcListeners := mput p a (grpcListeners st)\<rparr>)" "linv k (st\<lparr>udpListeners := u\<rparr>)"
  using assms mput_set_subset [of p a "grpcListeners st"]
  by (auto simp: linv_def ports_owned_def shut_def tabled_def addresses_def gens_above_def lobj_def Let_def)

lemma linv_AddOrUpdate:
  assumes "linv k st" "a < length (lsObjs st)" "AddOrUpdateListener env a st = Some (st', bad, w)"
  shows "linv k st' \<and> same_objs st st'"
proof -
  obtain st1 bad1 where prep: "prepare_listener env a st = Some (st1, bad1)"
    using assms(3) by (auto simp: AddOrUpdateListener_def split: bind_split_asm)
  have i: "linv k st1" "same_tables st st1" using prepare_laws [OF assms(1) prep] by auto
  have len: "a < length (lsObjs st1)" using i(2) assms(2) same_tables_length by simp
  show ?thesis
  proof (cases bad1)
    case True
    then show ?thesis using assms(3) prep i same_tables_objs by (auto simp: AddOrUpdateListener_def)
  next
    case False
    let ?added = "\<lambda>st2. linv k st2 \<and> same_objs st1 st2"
    have st: "?added (store a st2)" if "linv k st2" "same_tables st1 st2" "lOpen (lobj st2 a) \<longrightarrow> listening (lobj st2 a)" for st2
    proof -
      have "linv k (store a st2)" using linv_store that len same_tables_length [OF that(2)] by simp
      then show ?thesis using that(2) by (simp add: same_tables_def same_objs_def store_def)
    qed
    obtain st2 ev where st2: "?added st2"
      and st': "st' = (if lpIsGRPC (lProto (lobj st2 a)) then st2\<lparr>grpcListeners := mput (lPort (lobj st2 a)) a (grpcListeners st2)\<rparr>
             else if lpIsUDP (lProto (lobj st2 a)) then st2\<lparr>udpListeners := mput (lPort (lobj st2 a)) a (udpListeners st2)\<rparr> else st2)"
    proof (cases "mget (listeners st1) (lPort (lobj st1 a)) = None")
      case True
      show thesis
      proof (cases "lOpen (lobj st1 a)")
        case o: True
        obtain st2 ok where st2: "openListener env True a st1 = Some (st2, ok)"
          using assms(3) prep False True o by (auto simp: AddOrUpdateListener_def split: bind_split_asm)
        note l = linv_open [OF i(1) len st2]
        have "?added (if ok then store a st2 else st2)" using l st same_tables_objs by auto
        then show thesis using that assms(3) prep False True o st2 by (auto simp: AddOrUpdateListener_def Let_def)
      next
        case c: False
        then show thesis using that [of "store a st1"] st [of st1] i assms(3) prep False True
          by (auto simp: AddOrUpdateListener_def Let_def)
      qed
    next
      case exists: False
      then obtain st2 ok where st2: "ReopenListener env a st1 = Some (st2, ok)"
        using assms(3) prep False by (auto simp: AddOrUpdateListener_def split: bind_split_asm)
      note l = linv_reopen [OF i(1) len st2]
      have "?added (if ok then store a st2 else st2)" using l st same_tables_objs by auto
      then show thesis using that assms(3) prep False exists st2 by (auto simp: AddOrUpdateListener_def Let_def)
    qed
    have "a < length (lsObjs st2)" using st2 same_objs_length [of st1 st2] len by simp
    then have "linv k st'" "same_objs st2 st'" unfolding st' using st2 linv_protocol_tables by (auto simp: same_objs_def)
    then show ?thesis using st2 i same_tables_objs same_objs_trans by blast
  qed
qed

section \<open>The operations keep the invariant\<close>

lemma linv_alloc:
  assumes "linv k st" "\<not> listening l" "alloc l st = (st', a)"
  shows "linv k st' \<and> a < length (lsObjs st') \<and> lobj st' a = l"
proof -
  have st': "st' = st\<lparr>lsObjs := lsObjs st @ [l]\<rparr>" "a = length (lsObjs st)" using assms(3) by (simp_all add: alloc_def)
  have "ports_owned st'" using assms(1,2) by (auto simp: st' linv_def ports_owned_def listening_def intro!: owned_alloc)
  then show ?thesis
    using assms(1,2) by (fastforce simp: st' linv_def shut_def tabled_def addresses_def gens_above_def lobj_def nth_append Let_def)
qed

lemma not_listening_new [simp]: "\<not> listening (newListener port protocol cn isOpen)" "\<not> listening (decoded l c)"
  by (simp_all add: newListener_def decoded_def listening_def has_socket_def)

lemma linv_add_and_open:
  assumes "linv k st" "\<not> listening l" "add_and_open env l serve st = Some (st', r)"
  shows "linv k st'"
proof -
  obtain st1 a where al: "alloc l st = (st1, a)" by fastforce
  note i = linv_alloc [OF assms(1,2) al]
  obtain st2 bad w where add: "AddOrUpdateListener env a st1 = Some (st2, bad, w)"
    using assms(3) al by (auto simp: add_and_open_def split: bind_split_asm)
  note j = linv_AddOrUpdate [OF conjunct1 [OF i] _ add]
  then have "linv k st2" "a < length (lsObjs st2)" using i same_objs_length by auto
  moreover have "st' = st2 \<or> (\<exists>ok. openListener env serve a st2 = Some (st', ok))"
    using assms(3) al add by (auto simp: add_and_open_def split: if_splits bind_split_asm)
  ultimately show ?thesis using linv_open by blast
qed

lemma linv_default: "linv k st \<Longrightarrow> lsDefault st < length (lsObjs st)"
  by (simp add: linv_def addresses_def Let_def)

lemma linv_table: "linv k st \<Longrightarrow> mget (listeners st) p = Some a \<Longrightarrow> a < length (lsObjs st)"
  by (simp add: linv_def tabled_def)

lemma linv_for_port: "linv k st \<Longrightarrow> GetListenerForPort st port = Some a \<Longrightarrow> a < length (lsObjs st)"
  by (auto simp: GetListenerForPort_def linv_default linv_table split: if_splits)

lemma linv_reuse_or_add:
  assumes "linv k st" "\<not> listening l" "reuse_or_add env fits l serve st = Some (st', r)"
  shows "linv k st'"
proof (cases "GetListenerForPort st (lPort l)")
  case None
  then show ?thesis using assms linv_add_and_open by (simp add: reuse_or_add_def)
next
  case (Some a)
  note a = linv_for_port [OF assms(1) Some]
  show ?thesis
  proof (cases "fits (lProto (lobj st a))")
    case True
    then have "st' = st \<or> (\<exists>ok. openListener env serve a st = Some (st', ok))"
      using assms(3) Some by (auto simp: reuse_or_add_def split: if_splits)
    then show ?thesis using assms(1) linv_open [OF assms(1) a] by blast
  next
    case False
    then show ?thesis using assms Some linv_add_and_open linv_close [OF assms(1) a] by (simp add: reuse_or_add_def)
  qed
qed

lemma quiet_tls [simp]: "quiet (upd_tls f)"
  by (simp add: quiet_def)

lemma linv_reopen_upd:
  assumes "linv k st" "quiet f" "a < length (lsObjs st)" "ReopenListener env a (upd_l a f st) = Some (st', ok)"
  shows "linv k st'"
  using linv_reopen [OF linv_upd_quiet [OF assms(1,2)] _ assms(4)] assms(3) by simp

lemma linv_certs:
  assumes "linv k st"
  shows "AddListenerCert env port key cert reopen st = Some (st', err) \<Longrightarrow> linv k st'"
    and "RemoveListenerCert env port st = Some (st', err) \<Longrightarrow> linv k st'"
  using assms linv_for_port [OF assms]
  by (auto simp: AddListenerCert_def RemoveListenerCert_def Let_def linv_upd_quiet split: option.splits if_splits dest: linv_reopen_upd [rotated 3])

definition safe_op :: "(lstate \<Rightarrow> (lstate \<times> 'a) option) \<Rightarrow> bool" where
  "safe_op f \<longleftrightarrow> (\<forall>k st st' x. linv k st \<and> f st = Some (st', x) \<longrightarrow> linv k st')"

definition safe_at :: "(nat \<Rightarrow> lstate \<Rightarrow> (lstate \<times> 'a) option) \<Rightarrow> bool" where
  "safe_at f \<longleftrightarrow> (\<forall>k st a st' x. linv k st \<and> a < length (lsObjs st) \<and> f a st = Some (st', x) \<longrightarrow> linv k st')"

lemma safe_at_D: "safe_at f \<Longrightarrow> linv k st \<Longrightarrow> a < length (lsObjs st) \<Longrightarrow> f a st = Some (st', x) \<Longrightarrow> linv k st'"
  unfolding safe_at_def by blast

lemma safe_for_listener:
  assumes "safe_at f"
  shows "safe_op (for_listener r f)"
  unfolding safe_op_def
proof (intro allI impI, elim conjE)
  fix k st st' x assume i: "linv k st" and s: "for_listener r f st = Some (st', x)"
  show "linv k st'"
  proof (cases "mget (listeners st) (port_var r)")
    case None
    then show ?thesis using i s by (simp add: for_listener_def validateListener_def)
  next
    case (Some a)
    then show ?thesis using s by (intro safe_at_D [OF assms i linv_table [OF i Some]]) (simp add: for_listener_def validateListener_def)
  qed
qed

lemma safe_at_open: "safe_at (openListener env serve)"
  unfolding safe_at_def using linv_open by blast

lemma safe_at_stay: "safe_at (\<lambda>a st. Some (st, w))"
  by (simp add: safe_at_def)

lemma safe_at_map:
  assumes "safe_at f"
  shows "safe_at (\<lambda>a st. map_option (\<lambda>(st', x). (st', h x)) (f a st))"
  unfolding safe_at_def
proof (intro allI impI, elim conjE)
  fix k st a st' x assume i: "linv k st" "a < length (lsObjs st)" and f: "map_option (\<lambda>(st', x). (st', h x)) (f a st) = Some (st', x)"
  from f obtain y where "f a st = Some (st', y)" by auto
  then show "linv k st'" by (rule safe_at_D [OF assms i])
qed

lemma safe_at_reopen: "safe_at (reopen_with env good bad)"
proof -
  have "safe_at (ReopenListener env)" unfolding safe_at_def using linv_reopen by blast
  then show ?thesis unfolding reopen_with_def by (rule safe_at_map)
qed

lemma safe_at_upd:
  assumes "safe_at f" "quiet g"
  shows "safe_at (\<lambda>a st. f a (upd_l a g st))"
  unfolding safe_at_def using safe_at_D [OF assms(1) linv_upd_quiet [OF _ assms(2)]] by simp blast

lemma safe_at_if:
  assumes "safe_at f" "safe_at g"
  shows "safe_at (\<lambda>a st. if P a st then f a st else g a st)"
  unfolding safe_at_def
proof (intro allI impI, elim conjE)
  fix k st a st' x assume i: "linv k st" "a < length (lsObjs st)" and f: "(if P a st then f a st else g a st) = Some (st', x)"
  show "linv k st'" using f safe_at_D [OF assms(1) i, of st' x] safe_at_D [OF assms(2) i, of st' x] by (simp split: if_split_asm)
qed

lemma safe_at_certs:
  "safe_at (\<lambda>a st. AddListenerCert env (port a st) key cert reopen st)" "safe_at (\<lambda>a st. RemoveListenerCert env (port a st) st)"
  unfolding safe_at_def using linv_certs by blast+

lemmas safe_intros = safe_for_listener safe_at_open safe_at_stay safe_at_map safe_at_reopen safe_at_upd safe_at_if safe_at_certs quiet_tls

lemma safe_handlers:
  "safe_op (addListenerCertOrKey env isKey r body)" "safe_op (removeListenerCertAndKey env r)" "safe_op (addListenerCACert env r body)"
  "safe_op (clearListenerCACerts env r)" "safe_op (autoCert env r)" "safe_op (autoSNI env r)" "safe_op (openListener_api env r)"
  unfolding addListenerCertOrKey_def removeListenerCertAndKey_def addListenerCACert_def clearListenerCACerts_def autoCert_def autoSNI_def
    openListener_api_def Let_def
  by (intro safe_intros)+

lemma safe_closeListener: "safe_op (closeListener r)"
proof -
  have "safe_at (\<lambda>a st. Some (Close a st, w))" for w :: http_out unfolding safe_at_def by (clarsimp simp: linv_close)
  then show ?thesis unfolding closeListener_def by (intro safe_intros)
qed

lemma linv_links: "linv k st \<Longrightarrow> linv k (LinkForwardListeners st)"
proof -
  have "linv k (fold (\<lambda>(_, a) st. if 0 < lForwardPort (lobj st a) then upd_l a (\<lambda>l. l\<lparr>lForward := mget (listeners st) (lForwardPort l)\<rparr>) st
      else st) xs st)" if "linv k st" for xs :: "(int \<times> nat) list" and st
    using that
  proof (induction xs arbitrary: st)
    case (Cons x xs)
    obtain p a where x: "x = (p, a)" by fastforce
    have "quiet (\<lambda>l. l\<lparr>lForward := mget (listeners st) (lForwardPort l)\<rparr>)" by (simp add: quiet_def)
    then show ?case using Cons linv_upd_quiet by (simp add: x)
  qed simp
  then show "linv k st \<Longrightarrow> linv k (LinkForwardListeners st)" by (simp add: LinkForwardListeners_def)
qed

text \<open>Removing a listener that is not marked closed: its entry of the table goes too.\<close>

lemma linv_drop:
  assumes "linv k st" "a < length (lsObjs st)" "ports_owned st'" "shut st'"
    and "lsObjs st' = (lsObjs st)[a := l]" "lPort l = lPort (lobj st a)" "listeners st' = mdel (lPort l) (listeners st)"
    and "gens_above (snd k) st'" and "set (grpcListeners st') \<subseteq> set (grpcListeners st)" "initialListeners st' = initialListeners st" "lsDefault st' = lsDefault st"
      "lsDefaultGRPC st' = lsDefaultGRPC st"
  shows "linv k st'"
proof -
  have "tabled (fst k) st'"
    unfolding tabled_def
  proof (intro allI impI)
    fix p b assume m: "mget (listeners st') p = Some b"
    then have p: "p \<noteq> lPort l" "mget (listeners st) p = Some b" using assms(7) by (auto split: if_splits)
    then have t: "b < length (lsObjs st)" "lPort (lobj st b) = p" "p \<noteq> fst k \<and> lOpen (lobj st b) \<longrightarrow> listening (lobj st b)"
      using assms(1) by (simp_all add: linv_def tabled_def)
    then have "b \<noteq> a" using p assms(6) by auto
    then have "lobj st' b = lobj st b" using assms(5) by (simp add: lobj_def)
    then show "b < length (lsObjs st') \<and> lPort (lobj st' b) = p \<and> (p \<noteq> fst k \<and> lOpen (lobj st' b) \<longrightarrow> listening (lobj st' b))"
      using t assms(5) by simp
  qed
  moreover have "addresses st'" using assms by (auto simp: linv_def addresses_def Let_def)
  ultimately show ?thesis using assms(3,4,8) by (simp add: linv_def)
qed

lemma RemoveListener_simps:
  "lsObjs (RemoveListener a st) = lsObjs st" "listeners (RemoveListener a st) = mdel (lPort (lobj st a)) (listeners st)"
  "set (grpcListeners (RemoveListener a st)) \<subseteq> set (grpcListeners st)" "initialListeners (RemoveListener a st) = initialListeners st"
  "lsDefault (RemoveListener a st) = lsDefault st" "lsDefaultGRPC (RemoveListener a st) = lsDefaultGRPC st"
  "lsBound (RemoveListener a st) = lsBound st" "lsUdpBound (RemoveListener a st) = lsUdpBound st"
  "listenerGenerations (RemoveListener a st) = listenerGenerations st"
  using mdel_set_subset [of "lPort (lobj st a)" "grpcListeners st"] by (auto simp: RemoveListener_def Let_def)

lemma linv_RemoveListener:
  assumes "linv k st" "a < length (lsObjs st)"
  shows "linv k (RemoveListener a st)"
  by (rule linv_drop [OF assms, of _ "lobj st a"])
     (use assms(1) in \<open>simp_all add: RemoveListener_simps linv_def ports_owned_def shut_def gens_above_def lobj_def\<close>)

lemma linv_remove_open:
  assumes "linv k st" "a < length (lsObjs st)"
  shows "linv k (RemoveListener a (close_socket a st))"
proof (cases "lSocket (lobj st a)")
  case None
  then show ?thesis using linv_RemoveListener [OF assms] by (simp add: close_socket_def)
next
  case (Some b)
  let ?l = "(lobj st a)\<lparr>lSocket := None\<rparr>" and ?st = "close_socket a st"
  have objs: "lsObjs ?st = (lsObjs st)[a := ?l]" using Some by (simp add: close_socket_def upd_l_def lobj_def)
  have l: "\<not> has_socket ?l" "lUDPConn ?l = lUDPConn (lobj st a)" "lOpen ?l = lOpen (lobj st a)" "has_socket (lobj st a)"
    using Some by (simp_all add: has_socket_def)
  have bound: "lsBound ?st = remove1 (lPort (lobj st a)) (lsBound st)" "lsUdpBound ?st = lsUdpBound st"
    using Some by (simp_all add: close_socket_def)
  have port: "lPort (lobj ?st a) = lPort (lobj st a)" using objs assms(2) by (simp add: lobj_def)
  have "owned has_socket (lsBound ?st) (lsObjs ?st)" unfolding objs bound
    by (rule owned_drop) (use assms l in \<open>simp_all add: linv_def ports_owned_def lobj_def\<close>)
  moreover have "owned lUDPConn (lsUdpBound ?st) (lsObjs ?st)" unfolding objs bound
    by (rule owned_keep) (use assms in \<open>simp_all add: linv_def ports_owned_def lobj_def\<close>)
  ultimately have own: "ports_owned (RemoveListener a ?st)" by (simp add: ports_owned_def RemoveListener_simps)
  have "lobj st a \<in> set (lsObjs st)" using assms(2) by (simp add: lobj_def)
  then have "listening ?l \<longrightarrow> lOpen ?l" using assms(1) l by (auto simp: linv_def shut_def listening_def)
  then have "shut (RemoveListener a ?st)"
    using assms(1) set_update_subset_insert [of "lsObjs st" a ?l] unfolding linv_def shut_def RemoveListener_simps objs by blast
  then show ?thesis
    by (rule linv_drop [where l = ?l, OF assms own])
       (use assms(1) Some objs port RemoveListener_simps(3) [of a ?st] in
         \<open>simp_all add: RemoveListener_simps close_socket_def linv_def gens_above_def\<close>)
qed

lemma safe_removeListener: "safe_op (removeListener r)"
  unfolding removeListener_def
  by (rule safe_for_listener) (auto simp: safe_at_def intro: linv_links linv_remove_open)

lemma linv_tcObjs:
  assumes "linv k st" "alloc l (st\<lparr>lsTcp := tcp\<rparr>) = (st', a)" "\<not> listening l"
  shows "linv k st'" "a < length (lsObjs st')"
  using linv_alloc [OF _ assms(3,2), of k] assms(1) by (simp_all add: linv_lsTcp)

lemma addOrUpdate_linked:
  assumes "linv k st" "addOrUpdateListenerAndRespond env (Some (l, tcp)) st = Some (st', w)"
  obtains st2 where "linv k st2" "st' = LinkForwardListeners st2"
proof -
  define c where "c = (if tcp = None then None else Some (length (tcObjs (lsTcp st))))"
  define tc where "tc = (case tcp of None \<Rightarrow> lsTcp st | Some c \<Rightarrow> (lsTcp st)\<lparr>tcObjs := tcObjs (lsTcp st) @ [c]\<rparr>)"
  obtain st1 a where al: "alloc (decoded l c) (st\<lparr>lsTcp := tc\<rparr>) = (st1, a)" by fastforce
  obtain st2 bad w' where add: "AddOrUpdateListener env a st1 = Some (st2, bad, w')" "st' = LinkForwardListeners st2"
    using assms(2) al by (cases tcp) (auto simp: addOrUpdateListenerAndRespond_def c_def tc_def Let_def)
  have "linv k st2" using linv_AddOrUpdate [OF _ _ add(1)] linv_tcObjs [OF assms(1) al] by simp
  then show thesis using add(2) that by blast
qed

lemma safe_addOrUpdate: "safe_op (addOrUpdateListenerAndRespond env body)"
  unfolding safe_op_def
proof (intro allI impI, elim conjE)
  fix k st st' w assume i: "linv k st" and s: "addOrUpdateListenerAndRespond env body st = Some (st', w)"
  show "linv k st'"
  proof (cases body)
    case (Some lt)
    then show ?thesis using addOrUpdate_linked [OF i] s linv_links by (cases lt) metis
  qed (use i s in \<open>simp add: addOrUpdateListenerAndRespond_def\<close>)
qed

section \<open>Start\<close>

lemma linv_start_listeners:
  assumes "linv k st" "set as \<subseteq> {..<length (lsObjs st)}" "start_listeners env P as st = Some st'"
  shows "linv k st'"
  using assms
proof (induction as arbitrary: st)
  case (Cons a as)
  show ?case
  proof (cases "P (lobj st a)")
    case True
    then obtain st1 w where add: "AddOrUpdateListener env a st = Some (st1, False, w)" and rest: "start_listeners env P as st1 = Some st'"
      using Cons.prems(3) by (auto split: option.splits if_splits)
    have i: "linv k st1" "same_objs st st1" using linv_AddOrUpdate [OF Cons.prems(1) _ add] Cons.prems(2) by simp_all
    then show ?thesis using Cons.IH [OF i(1) _ rest] Cons.prems(2) same_objs_length by auto
  next
    case False
    then show ?thesis using Cons by simp
  qed
qed simp

lemma linv_flags:
  "linv k (st\<lparr>grpcStarted := b\<rparr>) = linv k st" "linv k (st\<lparr>httpStarted := b\<rparr>) = linv k st" "linv k (st\<lparr>httpServer := b\<rparr>) = linv k st"
  "linv k (st\<lparr>jsonRPCServer := b\<rparr>) = linv k st" "linv k (st\<lparr>tcpServer := b\<rparr>) = linv k st"
  "linv k (st\<lparr>initialHTTPStarted := b\<rparr>) = linv k st" "linv k (st\<lparr>initialJSONRPCStarted := b\<rparr>) = linv k st"
  "linv k (st\<lparr>initialTCPStarted := b\<rparr>) = linv k st"
  by (rule lsObjs_cong, simp_all)+

lemma linv_all_started: "linv k st \<Longrightarrow> linv k (allInitialListenersStarted st)"
  by (simp add: allInitialListenersStarted_def linv_links)

lemma linv_initial: "linv k st \<Longrightarrow> set (initialListeners st) \<subseteq> {..<length (lsObjs st)}"
  by (auto simp: linv_def addresses_def Let_def)

lemma linv_starts:
  assumes "linv k st"
  shows "AddInitialGRPCListeners env st = Some st' \<Longrightarrow> linv k st'"
    and "startInitialHTTPListeners env jsonRPC st = Some st' \<Longrightarrow> linv k st'"
    and "startInitialTCPListeners env st = Some st' \<Longrightarrow> linv k st'"
proof -
  note start = linv_start_listeners [OF assms linv_initial [OF assms]]
  show "AddInitialGRPCListeners env st = Some st' \<Longrightarrow> linv k st'" unfolding AddInitialGRPCListeners_def by (rule start)
  show "startInitialTCPListeners env st = Some st' \<Longrightarrow> linv k st'"
    unfolding startInitialTCPListeners_def by (clarsimp simp: linv_flags linv_all_started dest!: start)
  show "startInitialHTTPListeners env jsonRPC st = Some st' \<Longrightarrow> linv k st'"
    unfolding startInitialHTTPListeners_def
    by (cases jsonRPC) (auto simp: linv_flags linv_all_started assms split: if_splits dest!: start)
qed

lemma linv_server_hooks:
  assumes "linv k st"
  shows "OnGRPCStart env st = Some st' \<Longrightarrow> linv k st'" and "OnHTTPStart env st = Some st' \<Longrightarrow> linv k st'"
    and "OnJSONRPCStart env st = Some st' \<Longrightarrow> linv k st'" and "ConfigureTCPServer env st = Some st' \<Longrightarrow> linv k st'"
    and "linv k (OnHTTPStop st)" and "linv k (OnJSONRPCStop st)"
proof -
  have f: "linv k (st\<lparr>grpcStarted := True\<rparr>)" "linv k (st\<lparr>httpStarted := True, httpServer := True\<rparr>)" "linv k (st\<lparr>jsonRPCServer := True\<rparr>)"
    "linv k (st\<lparr>tcpServer := True\<rparr>)"
    using assms by (simp_all add: linv_flags)
  show "OnGRPCStart env st = Some st' \<Longrightarrow> linv k st'" "OnHTTPStart env st = Some st' \<Longrightarrow> linv k st'"
    "OnJSONRPCStart env st = Some st' \<Longrightarrow> linv k st'" "ConfigureTCPServer env st = Some st' \<Longrightarrow> linv k st'"
    unfolding OnGRPCStart_def OnHTTPStart_def OnJSONRPCStart_def ConfigureTCPServer_def Let_def
    using linv_starts(2) [OF f(1), of env] linv_starts(2) [OF f(2), of env] linv_starts(2) [OF f(3), of env] linv_starts(3) [OF f(4), of env] f
    by (auto split: if_splits)
qed (simp_all add: OnHTTPStop_def OnJSONRPCStop_def linv_flags assms)

lemma linv_OnGRPCStop: "linv k st \<Longrightarrow> linv k (OnGRPCStop st)"
proof -
  have "linv k (fold (\<lambda>(_, a). Close a) xs st)" if "linv k st" "\<forall>(_, a) \<in> set xs. a < length (lsObjs st)" for xs :: "(int \<times> nat) list" and st
    using that
  proof (induction xs arbitrary: st)
    case (Cons x xs)
    obtain p a where x: "x = (p, a)" by fastforce
    have "linv k (Close a st)" "length (lsObjs (Close a st)) = length (lsObjs st)"
      using Cons.prems linv_close same_tables_length [OF close_same_tables] by (auto simp: x)
    then show ?case using Cons by (auto simp: x)
  qed simp
  moreover have "linv k st \<Longrightarrow> \<forall>(_, a) \<in> set (grpcListeners st). a < length (lsObjs st)" by (simp add: linv_def addresses_def Let_def)
  ultimately show "linv k st \<Longrightarrow> linv k (OnGRPCStop st)" unfolding OnGRPCStop_def by (simp add: linv_flags)
qed

text \<open>The listeners of the command line are not opened yet; the one of the JSON-RPC port is in the table.\<close>

definition dormant :: "int \<Rightarrow> lstate \<Rightarrow> bool" where
  "dormant jp st \<longleftrightarrow> (\<forall>l \<in> set (lsObjs st). \<not> listening l) \<and> distinct (lsBound st) \<and> distinct (lsUdpBound st) \<and>
     lsDefault st = 0 \<and> lsDefaultGRPC st = 1 \<and> listenerGenerations st = [] \<and> 2 \<le> length (lsObjs st) \<and> grpcListeners st = [] \<and>
     (\<forall>a \<in> set (initialListeners st). a < length (lsObjs st)) \<and>
     (\<forall>p a. mget (listeners st) p = Some a \<longrightarrow> p = jp \<and> a = 2 \<and> 2 < length (lsObjs st) \<and> lPort (lobj st 2) = jp)"

lemma dormant_linv:
  assumes "dormant jp st"
  shows "linv (jp, \<lambda>_. 0) st"
proof -
  have no: "\<not> listening (lsObjs st ! i)" if "i < length (lsObjs st)" for i using assms that by (simp add: dormant_def)
  have "ports_owned st" using assms no by (auto simp: dormant_def ports_owned_def owned_def listening_def)
  then show ?thesis using assms by (auto simp: linv_def shut_def tabled_def addresses_def gens_above_def dormant_def Let_def)
qed

lemma dormant_initial:
  assumes "dormant jp st" "\<not> listening l" "alloc l st = (st', a)"
  shows "dormant jp (st'\<lparr>initialListeners := initialListeners st' @ [a]\<rparr>)"
proof -
  have st': "st' = st\<lparr>lsObjs := lsObjs st @ [l]\<rparr>" "a = length (lsObjs st)" using assms(3) by (simp_all add: alloc_def)
  show ?thesis using assms(1,2) by (auto simp: st' dormant_def lobj_def nth_append less_Suc_eq)
qed

lemma createPortListener_dormant: "createPortListener env pp existing = (existing', Some l) \<Longrightarrow> \<not> listening l \<and> lPort l = ppPort pp"
  by (auto simp: createPortListener_def newListener_def listening_def has_socket_def Let_def split: if_splits)

lemma add_initial_dormant: "dormant jp st \<Longrightarrow> dormant jp (add_initial env pps existing st)"
proof (induction env pps existing st rule: add_initial.induct)
  case (2 env pp pps existing st)
  obtain existing' r where c: "createPortListener env pp existing = (existing', r)" by fastforce
  show ?case
  proof (cases r)
    case (Some l)
    obtain st' a where al: "alloc l st = (st', a)" by fastforce
    have "\<not> listening l" using c Some createPortListener_dormant by blast
    then have "dormant jp (st'\<lparr>initialListeners := initialListeners st' @ [a]\<rparr>)" by (rule dormant_initial [OF 2(3) _ al])
    then show ?thesis using 2(2) c Some al by simp
  qed (use 2 c in simp)
qed simp

lemma dormant_default:
  assumes "dormant jp st" "a < 2" "\<not> listening (f (lobj st a))"
  shows "dormant jp (upd_l a f st)"
proof -
  have "set (lsObjs (upd_l a f st)) \<subseteq> insert (f (lobj st a)) (set (lsObjs st))"
    using set_update_subset_insert by (simp add: upd_l_def lobj_def)
  then have "\<forall>l \<in> set (lsObjs (upd_l a f st)). \<not> listening l" using assms(1,3) by (auto simp: dormant_def)
  then show ?thesis using assms(1,2) by (auto simp: dormant_def lobj_upd_l)
qed

lemma listening_assign [simp]: "listening (assignProtocol l) = listening l"
  by (simp add: listening_def has_socket_def)

lemma AddInitialListeners_dormant:
  assumes "AddInitialListeners env ports (l_init env label tcp bound udp) = Some (st, sp)" "distinct bound" "distinct udp"
  shows "dormant (sJSONRPCPort (leSelf env)) st"
proof -
  let ?jp = "sJSONRPCPort (leSelf env)" and ?st = "l_init env label tcp bound udp"
  obtain existing l where c: "createPortListener env (jsonrpc_port env) [] = (existing, Some l)"
    by (simp add: createPortListener_def jsonrpc_port_def Let_def)
  note l = createPortListener_dormant [OF c]
  obtain st1 a where al: "alloc l ?st = (st1, a)" by fastforce
  have st1: "lsObjs st1 = lsObjs ?st @ [l]" "st1 = ?st\<lparr>lsObjs := lsObjs ?st @ [l]\<rparr>" "a = 2" "lobj st1 a = l"
    using al by (auto simp: alloc_def l_init_def lobj_def Let_def)
  have d: "dormant ?jp (store a st1)"
    using assms(2,3) l by (auto simp: dormant_def store_def st1 l_init_def Let_def listening_def has_socket_def init_default_def newListener_def
        jsonrpc_port_def lobj_def upd_tls_def split: if_splits)
  obtain pp pps where st: "st = add_initial env pps existing (upd_l (lsDefault (store a st1)) (set_default env pp) (store a st1))"
    using assms(1) c al by (auto simp: AddInitialListeners_def Let_def split: bind_split_asm list.splits)
  have "lobj (store a st1) 0 \<in> set (lsObjs (store a st1))" using d by (auto simp: dormant_def lobj_def intro!: nth_mem)
  then have "\<not> listening (lobj (store a st1) 0)" "lsDefault (store a st1) = 0" using d by (auto simp: dormant_def)
  then have "\<not> listening (set_default env pp (lobj (store a st1) 0))" by (simp add: set_default_def listening_def has_socket_def)
  then show ?thesis unfolding st using d \<open>lsDefault (store a st1) = 0\<close> by (simp add: add_initial_dormant dormant_default)
qed

text \<open>The states after the start: every way the program changes its listeners. A host that runs the API, the proxies and the servers
  in any order.\<close>

definition server_ops :: "listen_env \<Rightarrow> (lstate \<Rightarrow> lstate option) set" where
  "server_ops env =
     {AddInitialGRPCListeners env, OnGRPCStart env, OnHTTPStart env, OnJSONRPCStart env, ConfigureTCPServer env, Some \<circ> OnHTTPStop,
      Some \<circ> OnJSONRPCStop, Some \<circ> OnGRPCStop}"

definition api_ops :: "listen_env \<Rightarrow> (listener \<times> tcp_config option) option \<Rightarrow> request \<Rightarrow> string \<Rightarrow> (lstate \<Rightarrow> (lstate \<times> http_out) option) set" where
  "api_ops env body r content =
     {addOrUpdateListenerAndRespond env body, addListenerCert_api env r content, addListenerKey env r content, removeListenerCertAndKey env r,
      addListenerCACert env r content, clearListenerCACerts env r, autoCert env r, autoSNI env r, openListener_api env r, closeListener r,
      removeListener r, Some \<circ> setLabel r, (\<lambda>st. Some (clearClientCerts r st, no_out))}"

inductive lstep :: "listen_env \<Rightarrow> lstate \<Rightarrow> lstate \<Rightarrow> bool" for env where
  servers: "f \<in> server_ops env \<Longrightarrow> f st = Some st' \<Longrightarrow> lstep env st st'"
| api: "f \<in> api_ops env body r content \<Longrightarrow> f st = Some (st', w) \<Longrightarrow> lstep env st st'"
| proxies: "f \<in> {AddListener env port isTCP isUDP sni, AddGRPCListener env port serve} \<Longrightarrow> f st = Some (st', x) \<Longrightarrow> lstep env st st'"
| certs: "f \<in> {AddListenerCert env port key cert reopen, RemoveListenerCert env port} \<Longrightarrow> f st = Some (st', err) \<Longrightarrow> lstep env st st'"

inductive lreach :: "listen_env \<Rightarrow> lstate \<Rightarrow> bool" for env where
  start: "AddInitialListeners env ports (l_init env label tcp bound udp) = Some (st, sp) \<Longrightarrow> distinct bound \<Longrightarrow> distinct udp \<Longrightarrow>
    InitDefaultGRPCListener env st = Some st' \<Longrightarrow> lreach env st'"
| step: "lreach env st \<Longrightarrow> lstep env st st' \<Longrightarrow> lreach env st'"

lemma linv_labels:
  assumes "linv k st"
  shows "linv k (fst (setLabel r st))" "linv k (clearClientCerts r st)"
proof -
  have q: "quiet (\<lambda>l. l\<lparr>lLabel := label\<rparr>)" "quiet (\<lambda>l. l\<lparr>lPeers := []\<rparr>)" for label by (simp_all add: quiet_def)
  show "linv k (fst (setLabel r st))"
    using assms linv_upd_quiet [OF _ q(1)] by (simp add: setLabel_def SetListenerLabel_def Let_def split: option.split)
  have "linv k (fold (\<lambda>(p, a). if port = 0 \<or> p = port then upd_l a (\<lambda>l. l\<lparr>lPeers := []\<rparr>) else (\<lambda>st. st)) xs st)"
    if "linv k st" for xs :: "(int \<times> nat) list" and st port
    using that linv_upd_quiet [where k = k, OF _ q(2)] by (induction xs arbitrary: st) auto
  then show "linv k (clearClientCerts r st)" using assms by (simp add: clearClientCerts_def ClearPeerCerts_def)
qed

lemma safe_op_D: "safe_op f \<Longrightarrow> linv k st \<Longrightarrow> f st = Some (st', x) \<Longrightarrow> linv k st'"
  unfolding safe_op_def by blast

lemma safe_reuse_or_add: "\<not> listening l \<Longrightarrow> safe_op (reuse_or_add env fits l serve)"
  unfolding safe_op_def using linv_reuse_or_add by blast

lemma safe_proxies:
  "safe_op (AddListener env port isTCP isUDP sni)" "safe_op (AddGRPCListener env port serve)"
  unfolding AddListener_def AddGRPCListener_def by (simp_all add: safe_reuse_or_add)

lemma safe_certs: "safe_op (AddListenerCert env port key cert reopen)" "safe_op (RemoveListenerCert env port)"
  unfolding safe_op_def using linv_certs by blast+

lemma safe_labels: "safe_op (Some \<circ> setLabel r)" "safe_op (\<lambda>st. Some (clearClientCerts r st, no_out))"
  unfolding safe_op_def using linv_labels by (auto dest!: arg_cong [of _ _ fst])

lemma safe_api: "f \<in> api_ops env body r content \<Longrightarrow> safe_op f"
  unfolding api_ops_def addListenerCert_api_def addListenerKey_def
  using safe_handlers safe_closeListener safe_removeListener safe_addOrUpdate safe_labels by auto

lemma safe_servers:
  assumes "f \<in> server_ops env" "linv k st" "f st = Some st'"
  shows "linv k st'"
proof -
  note h = linv_server_hooks [OF assms(2)] linv_OnGRPCStop [OF assms(2)] linv_starts(1) [OF assms(2)]
  show ?thesis using assms(1,3) unfolding server_ops_def by (elim insertE emptyE) (use h in force)+
qed

lemma lstep_linv:
  assumes "lstep env st st'" "linv k st"
  shows "linv k st'"
  using assms(1)
proof cases
  case (servers f)
  then show ?thesis using safe_servers assms(2) by blast
next
  case (api f body r content w)
  then show ?thesis using safe_op_D [OF safe_api] assms(2) by blast
next
  case (proxies f port isTCP isUDP sni serve x)
  then have s: "safe_op f" using safe_proxies by auto
  show ?thesis by (rule safe_op_D [OF s assms(2) proxies(2)])
next
  case (certs f port key cert reopen err)
  then have s: "safe_op f" using safe_certs by auto
  show ?thesis by (rule safe_op_D [OF s assms(2) certs(2)])
qed

lemma lsteps_linv: "(lstep env)\<^sup>*\<^sup>* st st' \<Longrightarrow> linv k st \<Longrightarrow> linv k st'"
  by (induction rule: rtranclp_induct) (auto intro: lstep_linv)

lemma lreach_linv: "lreach env st \<Longrightarrow> linv (sJSONRPCPort (leSelf env), \<lambda>_. 0) st"
proof (induction rule: lreach.induct)
  case (start ports label tcp bound udp st sp st')
  note d = AddInitialListeners_dormant [OF start(1-3)]
  let ?f = "\<lambda>l. l\<lparr>lHostLabel := sHostLabel (leSelf env), lPort := sGRPCPort (leSelf env)\<rparr>"
  have one: "lsDefaultGRPC st = 1" "1 < length (lsObjs st)" using d by (auto simp: dormant_def)
  then have "\<not> listening (lobj st 1)" using d by (simp add: dormant_def lobj_def)
  then have "dormant (sJSONRPCPort (leSelf env)) (upd_l 1 ?f st)" using d by (intro dormant_default) (simp_all add: listening_def has_socket_def)
  moreover obtain bad w where "AddOrUpdateListener env 1 (upd_l 1 ?f st) = Some (st', bad, w)"
    using start(4) one by (auto simp: InitDefaultGRPCListener_def)
  ultimately show ?case using linv_AddOrUpdate [OF dormant_linv] one by simp
next
  case (step st st')
  then show ?case by (blast intro: lstep_linv)
qed

end
