(* ===== verification/Listeners_Props.thy ===== *)
theory Listeners_Props
  imports Listeners_Laws
begin

text \<open>
  What the listeners promise in every state that the program can reach, and what the API does with certificates, with UDP listeners and
  with ports that are in use.
\<close>

section \<open>A sample host\<close>

definition sample_self :: self_info where
  "sample_self = \<lparr>sGivenName = True, sName = ''goto'', sPodIP = ''10.0.0.1'', sPodName = ''pod'', sNamespace = ''ns'', sCluster = ''c'',
     sNodeName = [], sHostIP = [], sHostLabel = ''pod.ns[10.0.0.1]'', sServerPort = 8080, sGRPCPort = 1234, sJSONRPCPort = 3000,
     sCommonName = ''goto.goto''\<rparr>"

definition sample_env :: listen_env where
  "sample_env = \<lparr>leSelf = sample_self, leBind = \<lambda>_. True, leCert = \<lambda>_ _. True, leKeyPair = \<lambda>_ _. True, lePD = \<lambda>_. None, leShowD = \<lambda>_. []\<rparr>"

definition sample_start :: lstate where
  "sample_start =
     (case AddInitialListeners sample_env [''8080'', ''9000/tcp'', ''8081/http'', ''9053/udp''] (l_init sample_env [] tcp_init [8080] []) of
        Some (st, _) \<Rightarrow> (case InitDefaultGRPCListener sample_env st of Some st \<Rightarrow> st | None \<Rightarrow> st) | None \<Rightarrow> l_init sample_env [] tcp_init [] [])"

definition sample_running :: lstate where
  "sample_running = (case ConfigureTCPServer sample_env sample_start of Some st \<Rightarrow> st | None \<Rightarrow> sample_start)"

lemma sample_start_reach: "lreach sample_env sample_start"
proof -
  let ?i = "AddInitialListeners sample_env [''8080'', ''9000/tcp'', ''8081/http'', ''9053/udp''] (l_init sample_env [] tcp_init [8080] [])"
  have "\<not> Option.is_none ?i" by code_simp
  then obtain st sp where i: "?i = Some (st, sp)" by (cases ?i) auto
  have "\<not> Option.is_none (InitDefaultGRPCListener sample_env (fst (the ?i)))" by code_simp
  then obtain st' where "InitDefaultGRPCListener sample_env st = Some st'" using i by (cases "InitDefaultGRPCListener sample_env st") auto
  then show ?thesis using lreach.start [OF i] i by (simp add: sample_start_def)
qed

lemma sample_running_reach: "lreach sample_env sample_running"
proof -
  have "\<not> Option.is_none (ConfigureTCPServer sample_env sample_start)" by code_simp
  then obtain st where st: "ConfigureTCPServer sample_env sample_start = Some st" by (cases "ConfigureTCPServer sample_env sample_start") auto
  then have "lstep sample_env sample_start st" by (intro lstep.servers [where f = "ConfigureTCPServer sample_env"]) (simp_all add: server_ops_def)
  then show ?thesis using lreach.step [OF sample_start_reach] st by (simp add: sample_running_def)
qed

section \<open>Open listeners\<close>



section \<open>Identities\<close>

lemma listener_id_inj:
  assumes "listener_id p g = listener_id q h" "0 \<le> g" "0 \<le> h"
  shows "p = q \<and> g = h"
proof -
  have no: "CHR ''-'' \<notin> set (Itoa n)" if "0 \<le> n" for n
    using that int_digits_are_digits [of n "CHR ''-''"] by (auto simp: Itoa_def digit_of_def)
  have tail: "takeWhile (\<lambda>c. c \<noteq> CHR ''-'') (rev (listener_id p g)) = rev (Itoa g)" if "0 \<le> g" for p g
    using no [OF that] by (auto simp: listener_id_def takeWhile_tail takeWhile_eq_all_conv)
  have "Itoa g = Itoa h" using tail [OF assms(2), of p] tail [OF assms(3), of q] assms(1) by simp
  then show ?thesis using assms(1) Itoa_inj by (auto simp: listener_id_def)
qed

text \<open>C8: The identity that a listener gets when it is opened is never given again: whatever the API, the servers and the proxies do
  afterwards, the next listener that is opened, on this port or another, has another identity.\<close>
theorem listener_id_never_reused:
  assumes "lreach env st" "a < length (lsObjs st)" "openListener env serve a st = Some (st1, True)"
    and "(lstep env)\<^sup>*\<^sup>* st1 st2" "b < length (lsObjs st2)" "openListener env serve' b st2 = Some (st3, True)"
  shows "lListenerID (lobj st3 b) \<noteq> lListenerID (lobj st1 a)"
proof -
  let ?jp = "sJSONRPCPort (leSelf env)" and ?p = "lPort (lobj st a)" and ?q = "lPort (lobj st2 b)"
  have "linv (?jp, \<lambda>_. 0) st1" using linv_open [OF lreach_linv [OF assms(1)] assms(2,3)] by blast
  then have "linv (?jp, gen st1) st1" "\<forall>p. 0 \<le> gen st1 p" by (simp_all add: linv_def gens_above_def gen_def)
  then have mono: "gen st1 p \<le> gen st2 p" "0 \<le> gen st1 p" for p
    using lsteps_linv [OF assms(4)] by (auto simp: linv_def gens_above_def gen_def [of st2])
  have a: "lListenerID (lobj st1 a) = listener_id ?p (gen st1 ?p)" using openListener_gen [OF assms(3,2)] by simp
  have b: "lListenerID (lobj st3 b) = listener_id ?q (gen st2 ?q + 1)" using openListener_gen [OF assms(6,5)] by simp
  show ?thesis
  proof
    assume "lListenerID (lobj st3 b) = lListenerID (lobj st1 a)"
    then have "?q = ?p \<and> gen st2 ?q + 1 = gen st1 ?p" unfolding a b
      by (rule listener_id_inj) (use mono [of ?p] mono [of ?q] in auto)
    then show False using mono [of ?p] by auto
  qed
qed

definition listener_request :: "string \<Rightarrow> request" where
  "listener_request port = \<lparr>reqPort = ''8080'', reqPortNum = 8080, RequestURI = [], URLPath = [], reqMethod = ''POST'', reqHeaders = [],
     reqVars = [(''port'', port)], reqQuery = [], IsKnownNonTraffic = True, IsAdminRequest = True\<rparr>"

definition sample_closed :: lstate where
  "sample_closed = fst (the (closeListener (listener_request ''9000'') sample_running))"

definition sample_reopened :: lstate where
  "sample_reopened = fst (the (openListener sample_env True 3 sample_closed))"

definition sample_closed_again :: lstate where
  "sample_closed_again = fst (the (closeListener (listener_request ''9000'') sample_reopened))"

lemma closeListener_step:
  assumes "\<not> Option.is_none (closeListener r st)"
  shows "lstep env st (fst (the (closeListener r st)))"
proof -
  obtain st' w where "closeListener r st = Some (st', w)" using assms by (cases "closeListener r st") auto
  then show ?thesis by (intro lstep.api [where f = "closeListener r" and r = r]) (simp_all add: api_ops_def)
qed

lemma openListener_result:
  assumes "map_option snd (openListener env serve a st) = Some True"
  shows "openListener env serve a st = Some (fst (the (openListener env serve a st)), True)"
  using assms by (cases "openListener env serve a st") auto

theorem listener_id_never_reused_witness:
  "\<exists>st3. openListener sample_env True 3 sample_closed_again = Some (st3, True) \<and> lListenerID (lobj st3 3) = ''9000-3'' \<and>
     lListenerID (lobj sample_reopened 3) = ''9000-2'' \<and> lListenerID (lobj st3 3) \<noteq> lListenerID (lobj sample_reopened 3)"
proof -
  have c: "lreach sample_env sample_closed"
    unfolding sample_closed_def by (rule lreach.step [OF sample_running_reach], rule closeListener_step) code_simp
  have o: "openListener sample_env True 3 sample_closed = Some (sample_reopened, True)"
    unfolding sample_reopened_def by (rule openListener_result) code_simp
  have s: "(lstep sample_env)\<^sup>*\<^sup>* sample_reopened sample_closed_again"
    unfolding sample_closed_again_def by (rule r_into_rtranclp, rule closeListener_step) code_simp
  let ?st3 = "fst (the (openListener sample_env True 3 sample_closed_again))"
  have o3: "openListener sample_env True 3 sample_closed_again = Some (?st3, True)" by (rule openListener_result) code_simp
  have l: "3 < length (lsObjs sample_closed)" "3 < length (lsObjs sample_closed_again)" by code_simp+
  from listener_id_never_reused [OF c l(1) o s l(2) o3]
  have "lListenerID (lobj ?st3 3) \<noteq> lListenerID (lobj sample_reopened 3)" .
  moreover have "lListenerID (lobj ?st3 3) = ''9000-3''" "lListenerID (lobj sample_reopened 3) = ''9000-2''" by code_simp+
  ultimately show ?thesis using o3 by blast
qed

section \<open>Forward listeners\<close>


abbreviation link :: "int \<times> nat \<Rightarrow> lstate \<Rightarrow> lstate" where
  "link \<equiv> \<lambda>(_, a) st. if 0 < lForwardPort (lobj st a) then upd_l a (\<lambda>l. l\<lparr>lForward := mget (listeners st) (lForwardPort l)\<rparr>) st else st"

lemma link_fold_same:
  "listeners (fold link xs st) = listeners st \<and> length (lsObjs (fold link xs st)) = length (lsObjs st) \<and>
   lForwardPort (lobj (fold link xs st) a) = lForwardPort (lobj st a)"
  by (induction xs arbitrary: st) (auto simp: lobj_upd_l split: prod.split)






section \<open>Certificates\<close>

definition add_cert :: "string \<Rightarrow> string \<Rightarrow> listener \<Rightarrow> listener" where
  "add_cert key cert = upd_tls (\<lambda>t. t\<lparr>ltAutoCert := False, ltCommonName := ''<from cert>'', ltCertificates := None,
     ltRawKey := (if key \<noteq> [] then key else ltRawKey t), ltRawCert := (if cert \<noteq> [] then cert else ltRawCert t)\<rparr>)"

text \<open>Of the two routes, \<open>/cert/add\<close> stores its body as the key and \<open>/key/add\<close> as the certificate.\<close>

lemma cert_routes:
  assumes "mget (listeners st) (port_var r) = Some a" "lPort (lobj st a) = port_var r" "port_var r \<noteq> lPort (lobj st (lsDefault st))"
    and "content \<noteq> []"
  shows "addListenerCert_api env r content st = Some (upd_l a (add_cert content []) st, SendEvent ''Listener Key Added'' no_out)"
    and "addListenerKey env r content st = Some (upd_l a (add_cert [] content) st, SendEvent ''Listener Cert Added'' no_out)"
  using assms
  by (simp_all add: addListenerCert_api_def addListenerKey_def addListenerCertOrKey_def for_listener_def validateListener_def AddListenerCert_def
      GetListenerForPort_def add_cert_def)

text \<open>A listener that serves plain HTTP, with a bound port.\<close>

definition plain_http :: "nat \<Rightarrow> lstate \<Rightarrow> bool" where
  "plain_http a st \<longleftrightarrow>
     (let l = lobj st a; p = lProto l; t = lTls l in
      a < length (lsObjs st) \<and> mget (listeners st) (lPort l) = Some a \<and> lSocket l = Some False \<and> lpIsHTTP p \<and> \<not> lpIsJSONRPC p \<and> \<not> lpIsUDP p \<and>
      \<not> ltTLS t \<and> \<not> ltAutoCert t \<and> httpServer st \<and> distinct (lsBound st))"

lemma plain_add_cert: "plain_http a st \<Longrightarrow> plain_http a (upd_l a (add_cert key cert) st)"
  by (simp add: plain_http_def add_cert_def Let_def)

lemma reopen_first: "openListener env True a st = Some (st', True) \<Longrightarrow> 0 < n \<Longrightarrow> reopen_loop env n a st = Some (st', True)"
  by (cases n) simp_all

lemma reopen_plain:
  assumes "plain_http a st" "leBind env (lsTick st)"
  obtains st' where "ReopenListener env a st = Some (st', True)" "lSocket (lobj st' a) = Some False" "listeners st' = listeners st"
    "ltTLS (lTls (lobj st' a)) = (ltCertificates (lTls (lobj st a)) \<noteq> None \<or> ltRawCert (lTls (lobj st a)) \<noteq> [] \<and> ltRawKey (lTls (lobj st a)) \<noteq> [])"
    "ltRawCert (lTls (lobj st' a)) = ltRawCert (lTls (lobj st a))" "ltRawKey (lTls (lobj st' a)) = ltRawKey (lTls (lobj st a))"
proof -
  let ?l = "lobj st a"
  define st0 where "st0 = Close a (upd_l a (\<lambda>l. l\<lparr>lRestarted := True\<rparr>) st)"
  have p: "a < length (lsObjs st)" "lSocket ?l = Some False" "lpIsHTTP (lProto ?l)" "\<not> lpIsJSONRPC (lProto ?l)" "\<not> lpIsUDP (lProto ?l)"
    "\<not> ltTLS (lTls ?l)" "\<not> ltAutoCert (lTls ?l)" "httpServer st" "distinct (lsBound st)" "mget (listeners st) (lPort ?l) = Some a"
    using assms(1) by (simp_all add: plain_http_def Let_def)
  have len: "a < length (lsObjs st0)" using p(1) by (simp add: st0_def Close_def Let_def)
  have l0: "lobj st0 a = ?l\<lparr>lRestarted := True, lSocket := None, lUDPConn := False, lOpen := False\<rparr>"
    using p(1) by (simp add: st0_def Close_def Let_def lobj_def upd_l_def)
  have f0: "listeners st0 = listeners st" "httpServer st0" "lsTick st0 = lsTick st" "lsBound st0 = remove1 (lPort ?l) (lsBound st)"
    using p by (auto simp: st0_def Close_def Let_def)
  have "auto_cert env (lobj st0 a) = lobj st0 a" using p by (simp add: l0 auto_cert_def)
  then have no_cert: "upd_l a (auto_cert env) st0 = st0" by (simp add: upd_l_def lobj_def)
  define st1 where "st1 = upd_l a (\<lambda>l. l\<lparr>lSocket := Some False\<rparr>) (st0\<lparr>lsTick := Suc (lsTick st0), lsBound := lPort ?l # lsBound st0\<rparr>)"
  have init: "InitListener env a st0 = Some (st1, True)"
    using p assms(2) f0 by (simp add: InitListener_def no_cert l0 bind_port_def Let_def st1_def)
  have len1: "a < length (lsObjs st1)" and l1: "lobj st1 a = (lobj st0 a)\<lparr>lSocket := Some False\<rparr>"
    using len by (simp_all add: st1_def lobj_def upd_l_def)
  have "lProto (lobj (assign_id a st1) a) = lProto ?l" using assign_id_obj(5) [OF len1] by (simp add: l1 l0)
  moreover have "httpServer (assign_id a st1)" using f0 by (simp add: assign_id_def Let_def st1_def)
  ultimately have "serve_listener a (assign_id a st1) = Some (assign_id a st1)" using p by (simp add: serve_listener_def)
  then have "openListener env True a st0 = Some (upd_l a mark_open (assign_id a st1), True)" by (simp add: openListener_def init)
  from reopen_first [OF this, of 5] have re: "ReopenListener env a st = Some (upd_l a mark_open (assign_id a st1), True)"
    using p(10) by (simp add: ReopenListener_def flip: st0_def)
  have len2: "a < length (lsObjs (assign_id a st1))" using len1 by (simp add: assign_id_def Let_def)
  have "listeners (assign_id a st1) = listeners st" using f0 by (simp add: assign_id_def Let_def st1_def)
  then show thesis
    by (intro that [OF re]) (use len2 p assign_id_obj(3,6) [OF len1] in \<open>simp_all add: mark_open_def l1 l0\<close>)
qed

text \<open>C10: A certificate and its key are uploaded for an open plain HTTP listener, the certificate through \<open>/key/add\<close> and the key through
  \<open>/cert/add\<close> (the routes are exchanged: the handlers store the body of one as the other), and the listener is reopened. It is then
  reported as a TLS listener with that certificate and key, but its new socket is plain: TLS is decided before the certificate is looked at.\<close>
theorem uploaded_cert_not_used:
  assumes "plain_http a st" and "port_var r = lPort (lobj st a)" and "port_var r \<noteq> lPort (lobj st (lsDefault st))"
    and "leBind env (lsTick st)" and "cert \<noteq> []" and "key \<noteq> []"
  shows "\<exists>st1 w1 st2 w2 st3. addListenerKey env r cert st = Some (st1, w1) \<and> addListenerCert_api env r key st1 = Some (st2, w2) \<and>
    openListener_api env r st2 = Some (st3, SendEvent ''Listener Reopened'' no_out) \<and> IsListenerTLS st3 (port_var r) \<and>
    ltRawCert (lTls (lobj st3 a)) = cert \<and> ltRawKey (lTls (lobj st3 a)) = key \<and> lSocket (lobj st3 a) = Some False"
proof -
  define st1 where "st1 = upd_l a (add_cert [] cert) st"
  define st2 where "st2 = upd_l a (add_cert key []) st1"
  have p: "a < length (lsObjs st)" "mget (listeners st) (lPort (lobj st a)) = Some a" "lSocket (lobj st a) = Some False"
    using assms(1) by (simp_all add: plain_http_def Let_def)
  have t: "mget (listeners st) (port_var r) = Some a" using p assms(2) by simp
  have k: "addListenerKey env r cert st = Some (st1, SendEvent ''Listener Cert Added'' no_out)"
    unfolding st1_def by (rule cert_routes(2)) (use t assms in simp_all)
  have ports: "lPort (lobj st1 b) = lPort (lobj st b)" for b by (simp add: st1_def lobj_upd_l add_cert_def)
  have c: "addListenerCert_api env r key st1 = Some (st2, SendEvent ''Listener Key Added'' no_out)"
    unfolding st2_def by (rule cert_routes(1)) (use t assms ports in \<open>simp_all add: st1_def\<close>)
  have plain: "plain_http a st2" unfolding st2_def st1_def by (intro plain_add_cert assms(1))
  have l2: "lobj st2 a = add_cert key [] (add_cert [] cert (lobj st a))" using p(1) by (simp add: st2_def st1_def)
  obtain st3 where st3: "ReopenListener env a st2 = Some (st3, True)" "lSocket (lobj st3 a) = Some False" "listeners st3 = listeners st2"
    "ltTLS (lTls (lobj st3 a)) = (ltCertificates (lTls (lobj st2 a)) \<noteq> None \<or> ltRawCert (lTls (lobj st2 a)) \<noteq> [] \<and> ltRawKey (lTls (lobj st2 a)) \<noteq> [])"
    "ltRawCert (lTls (lobj st3 a)) = ltRawCert (lTls (lobj st2 a))" "ltRawKey (lTls (lobj st3 a)) = ltRawKey (lTls (lobj st2 a))"
    by (rule reopen_plain [OF plain, of env]) (use assms(4) in \<open>simp_all add: st2_def st1_def\<close>)
  have "openListener_api env r st2 = Some (st3, SendEvent ''Listener Reopened'' no_out)"
    using t st3(1) p(3) by (simp add: openListener_api_def for_listener_def validateListener_def reopen_with_def st2_def st1_def lobj_upd_l add_cert_def p(1))
  moreover have "IsListenerTLS st3 (port_var r)"
    using st3 t assms(5,6) l2 by (simp add: IsListenerTLS_def st2_def st1_def add_cert_def)
  ultimately show ?thesis using k c st3 l2 assms(5,6) by (auto simp: add_cert_def)
qed

definition sample_http :: lstate where
  "sample_http = the (OnGRPCStart sample_env (the (OnHTTPStart sample_env sample_start)))"

theorem uploaded_cert_not_used_witness:
  "\<exists>st1 w1 st2 w2 st3. addListenerKey sample_env (listener_request ''8081'') ''CERT'' sample_http = Some (st1, w1) \<and>
    addListenerCert_api sample_env (listener_request ''8081'') ''KEY'' st1 = Some (st2, w2) \<and>
    openListener_api sample_env (listener_request ''8081'') st2 = Some (st3, SendEvent ''Listener Reopened'' no_out) \<and>
    IsListenerTLS st3 8081 \<and> lSocket (lobj st3 4) = Some False"
proof -
  let ?r = "listener_request ''8081''"
  have port: "port_var ?r = 8081" by code_simp
  have "plain_http 4 sample_http" "lPort (lobj sample_http 4) = 8081" "lPort (lobj sample_http (lsDefault sample_http)) = 8080" by code_simp+
  moreover have "leBind sample_env (lsTick sample_http)" by (simp add: sample_env_def)
  ultimately show ?thesis using uploaded_cert_not_used [of 4 sample_http ?r sample_env "''CERT''" "''KEY''"] port by auto
qed

section \<open>UDP listeners\<close>

text \<open>C11: An open UDP listener cannot be closed or reopened through the API: a request to close it is answered with 400 and changes nothing,
  one to open it fails with 500, and one to remove it takes it out of the tables but leaves its port bound, so that no UDP listener can be
  opened on that port again.\<close>
theorem udp_port_stays_bound:
  assumes "mget (listeners st) (port_var r) = Some a" "a < length (lsObjs st)" "lPort (lobj st a) = port_var r"
    and "lpIsUDP (lProto (lobj st a))" "lSocket (lobj st a) = None" "port_var r \<in> set (lsUdpBound st)"
  shows "closeListener r st = Some (st, fail_with 400) \<and>
    (\<exists>st'. openListener_api env r st = Some (st', fail_with 500) \<and> lsUdpBound st' = lsUdpBound st) \<and>
    (\<exists>st' w. removeListener r st = Some (st', w) \<and> mget (listeners st') (port_var r) = None \<and> port_var r \<in> set (lsUdpBound st') \<and>
       (\<forall>b st'' ok. b < length (lsObjs st') \<and> lPort (lobj st' b) = port_var r \<and> lpIsUDP (lProto (lobj st' b)) \<and>
          openListener env True b st' = Some (st'', ok) \<longrightarrow> \<not> ok))"
proof -
  have fails: "\<not> ok" if "port \<in> set (lsUdpBound st)" "b < length (lsObjs st)" "lPort (lobj st b) = port" "lpIsUDP (lProto (lobj st b))"
    "openListener env serve b st = Some (st', ok)" for port b serve st st' ok
    using openListener_opened [OF that(5,2)] that(1,3,4) by (auto simp: opened_def Let_def)
  let ?st' = "LinkForwardListeners (RemoveListener a st)"
  have close: "closeListener r st = Some (st, fail_with 400)"
    using assms by (simp add: closeListener_def for_listener_def validateListener_def)
  have init: "InitListener env a st = Some ((upd_l a (auto_cert env) st)\<lparr>lsTick := Suc (lsTick st)\<rparr>, False)"
    using assms(2-4,6) by (simp add: InitListener_def bind_udp_def Let_def)
  then have "openListener_api env r st = Some ((upd_l a (auto_cert env) st)\<lparr>lsTick := Suc (lsTick st)\<rparr>, fail_with 500)"
    using assms(1,5) by (simp add: openListener_api_def for_listener_def validateListener_def openListener_def)
  then have opens: "\<exists>st'. openListener_api env r st = Some (st', fail_with 500) \<and> lsUdpBound st' = lsUdpBound st" by auto
  have removes: "removeListener r st = Some (?st', SendEvent ''Listener Removed'' no_out)"
    using assms(1,5) by (simp add: removeListener_def for_listener_def validateListener_def close_socket_def)
  have udp: "lsUdpBound (LinkForwardListeners st1) = lsUdpBound st1 \<and> listeners (LinkForwardListeners st1) = listeners st1" for st1
  proof -
    have "lsUdpBound (fold link xs st1) = lsUdpBound st1" for xs by (induction xs arbitrary: st1) auto
    then show ?thesis using link_fold_same by (simp add: LinkForwardListeners_def)
  qed
  have gone: "mget (listeners ?st') (port_var r) = None" and bound: "port_var r \<in> set (lsUdpBound ?st')"
    using udp assms(3,6) by (simp_all add: RemoveListener_simps)
  have never: "\<forall>b st'' ok. b < length (lsObjs ?st') \<and> lPort (lobj ?st' b) = port_var r \<and> lpIsUDP (lProto (lobj ?st' b)) \<and>
      openListener env True b ?st' = Some (st'', ok) \<longrightarrow> \<not> ok"
    using fails [OF bound] by blast
  show ?thesis
    by (intro conjI close opens, rule exI [of _ ?st'], rule exI, intro conjI, rule removes, rule gone, rule bound, rule never)
qed

definition sample_udp :: lstate where
  "sample_udp = fst (the (AddListener sample_env 9055 False True [] (l_init sample_env [] tcp_init [] [])))"

theorem udp_port_stays_bound_witness:
  "IsListenerOpen sample_udp 9055 \<and> closeListener (listener_request ''9055'') sample_udp = Some (sample_udp, fail_with 400) \<and>
   (\<exists>st' w. removeListener (listener_request ''9055'') sample_udp = Some (st', w) \<and> 9055 \<in> set (lsUdpBound st'))"
proof -
  let ?r = "listener_request ''9055''"
  have port: "port_var ?r = 9055" by code_simp
  have a: "mget (listeners sample_udp) 9055 = Some 2" "2 < length (lsObjs sample_udp)" "lPort (lobj sample_udp 2) = 9055"
    "lpIsUDP (lProto (lobj sample_udp 2))" "lSocket (lobj sample_udp 2) = None" "9055 \<in> set (lsUdpBound sample_udp)"
    by code_simp+
  note u = udp_port_stays_bound [of sample_udp ?r 2 sample_env, unfolded port, OF a]
  obtain st' w where "removeListener ?r sample_udp = Some (st', w)" "9055 \<in> set (lsUdpBound st')" using u by (elim conjE exE) (rule that)
  moreover have "IsListenerOpen sample_udp 9055" by code_simp
  ultimately show ?thesis using conjunct1 [OF u] by blast
qed

end
