(* ===== verification/Jobs.thy ===== *)
theory Jobs
  imports Util_Json Util_Params "HOL-Library.Monad_Syntax"
begin

text \<open>
  The jobs (\<open>pkg/job\<close>): the manager with its jobs, their runs and scripts, how a run is executed, and the handlers. Jobs and runs are
  shared objects, which \<open>jobObjs\<close> and \<open>runObjs\<close> hold by address. What a command or an HTTP invocation does is an argument: the sequence
  of events that the loop of an iteration selects. A channel is the number of its values and whether it is closed. A panic, and a send that
  blocks, are \<open>None\<close>. The jobs that a run triggers are part of its result.
\<close>

section \<open>Jobs and runs\<close>

record job_trigger =
  jtName :: string
  ForwardPayload :: bool

record command_task =
  ctCmd :: string
  ctScript :: string
  ctArgs :: "string list"
  OutputMarkers :: "(int, string) gomap"
  OutputSeparator :: string
  ctFillers :: "(string, int) gomap"

record http_task =
  htName :: string
  htTransforms :: "transform list"

record job =
  jbName :: string
  jbAuto :: bool
  jbCount :: int
  jbCron :: string
  MaxResults :: int
  KeepResults :: int
  KeepFirst :: bool
  jbTimeout :: int
  OutputTrigger :: "job_trigger option"
  FinishTrigger :: "job_trigger option"
  jbDelayD :: int
  initialDelayD :: int
  httpTask :: "http_task option"
  commandTask :: "command_task option"
  jobRunCounter :: int
  jbScheduled :: bool
  jbCronJob :: bool

record http_result =
  hrTarget :: string
  hrPayload :: string
  hrYaml :: bool

datatype job_data = Text string | Response http_result

record job_result =
  jrID :: string
  jrFinished :: bool
  jrStopped :: bool
  jrLast :: bool
  jrData :: job_data

record job_run =
  runId :: int
  runJob_name :: string
  finished :: bool
  stopped :: bool
  stopSignals :: nat
  stopClosed :: bool
  doneSignals :: nat
  doneClosed :: bool
  outDone :: nat
  resultCount :: int
  jobArgs :: "string list option"
  jobResults :: "job_result list"
  runMarkers :: "(string, string) gomap"
  rawInput :: "string option"

record script =
  scPath :: string
  scShell :: bool

record job_manager =
  jobObjs :: "job list"
  runObjs :: "job_run list"
  jobs :: "(string, nat) gomap"
  jobRuns :: "(string, (int, nat) gomap) gomap"
  jobScripts :: "(string, script) gomap"
  cronRunning :: bool
  jobWatchers :: "(string, string list) gomap"

definition init_manager :: "job_manager \<Rightarrow> job_manager" where
  "init_manager jm = jm\<lparr>jobs := [], jobRuns := [], jobScripts := [], cronRunning := False, jobWatchers := []\<rparr>"

definition new_manager :: job_manager where
  "new_manager = \<lparr>jobObjs = [], runObjs = [], jobs = [], jobRuns = [], jobScripts = [], cronRunning = False, jobWatchers = []\<rparr>"

definition upd_job :: "nat \<Rightarrow> (job \<Rightarrow> job) \<Rightarrow> job_manager \<Rightarrow> job_manager" where
  "upd_job a f jm = jm\<lparr>jobObjs := (jobObjs jm)[a := f (jobObjs jm ! a)]\<rparr>"

definition upd_run :: "nat \<Rightarrow> (job_run \<Rightarrow> job_run) \<Rightarrow> job_manager \<Rightarrow> job_manager" where
  "upd_run a f jm = jm\<lparr>runObjs := (runObjs jm)[a := f (runObjs jm ! a)]\<rparr>"

section \<open>Watchers\<close>

definition AddJobWatcher :: "string \<Rightarrow> string \<Rightarrow> job_manager \<Rightarrow> job_manager" where
  "AddJobWatcher j name jm = jm\<lparr>jobWatchers := mput j (List.insert name (mget_or [] (jobWatchers jm) j)) (jobWatchers jm)\<rparr>"

definition RemoveJobWatcher :: "string \<Rightarrow> string \<Rightarrow> job_manager \<Rightarrow> job_manager" where
  "RemoveJobWatcher j name jm =
     (case mget (jobWatchers jm) j of
        None \<Rightarrow> jm
      | Some ws \<Rightarrow>
          (let ws = removeAll name ws in jm\<lparr>jobWatchers := (if ws = [] then mdel j (jobWatchers jm) else mput j ws (jobWatchers jm))\<rparr>))"

definition ClearJobWatchers :: "string \<Rightarrow> job_manager \<Rightarrow> job_manager" where
  "ClearJobWatchers j jm = jm\<lparr>jobWatchers := mdel j (jobWatchers jm)\<rparr>"

section \<open>Reading a job\<close>

text \<open>
  The body of a request as it is decoded: the job with its durations as text, and its task, if it has one, read as an HTTP task
  (\<open>None\<close> if that or the validation of the invocation fails) and as a command task.
\<close>

record job_body =
  bdJob :: job
  bdDelay :: string
  bdInitialDelay :: string
  bdTask :: "(http_task option \<times> command_task option) option"

definition count_fillers :: "command_task \<Rightarrow> command_task" where
  "count_fillers t = t\<lparr>ctFillers := fold mbump (concat (map GetFillers (ctArgs t))) []\<rparr>"

definition job_defaults :: "(string \<Rightarrow> int option) \<Rightarrow> job_body \<Rightarrow> job" where
  "job_defaults pd b =
     (let dur = (\<lambda>s d. case pd s of Some n \<Rightarrow> (if n = 0 then d else n) | None \<Rightarrow> d); j = bdJob b in
      j\<lparr>jbDelayD := dur (bdDelay b) 10000000, initialDelayD := dur (bdInitialDelay b) 1000000000,
        jbCount := (if jbCount j = 0 then 1 else jbCount j), KeepResults := (if KeepResults j \<le> 0 then 5 else KeepResults j),
        MaxResults := (if MaxResults j \<le> 0 then 20 else MaxResults j), jbTimeout := (if jbTimeout j \<le> 0 then 600000000000 else jbTimeout j),
        httpTask := None, commandTask := None, jobRunCounter := 0, jbScheduled := False, jbCronJob := False\<rparr>)"

text \<open>A job without a task: the message of the error that is nil is read. \<open>Inl\<close> is an error.\<close>

definition ParseJobFromPayload :: "(string \<Rightarrow> int option) \<Rightarrow> job_body option \<Rightarrow> (unit + job) option" where
  "ParseJobFromPayload pd body =
     (case body of
        None \<Rightarrow> Some (Inl ())
      | Some b \<Rightarrow>
          (let j = job_defaults pd b in
           case bdTask b of
             None \<Rightarrow> None
           | Some (Some h, _) \<Rightarrow> Some (Inr (j\<lparr>httpTask := Some h\<rparr>))
           | Some (None, None) \<Rightarrow> Some (Inl ())
           | Some (None, Some c) \<Rightarrow>
               Some (if ctCmd c \<noteq> [] \<or> ctScript c \<noteq> [] then Inr (j\<lparr>commandTask := Some (count_fillers c)\<rparr>) else Inl ())))"

section \<open>Adding and removing\<close>

text \<open>The flags are that the job was there, and that it is started.\<close>

definition AddJob :: "job \<Rightarrow> job_manager \<Rightarrow> job_manager \<times> bool \<times> bool" where
  "AddJob j jm =
     (let a = length (jobObjs jm) in
      (jm\<lparr>jobObjs := jobObjs jm @ [j], jobs := mput (jbName j) a (jobs jm), jobRuns := mdel (jbName j) (jobRuns jm)\<rparr>,
       mget (jobs jm) (jbName j) \<noteq> None, jbAuto j \<or> jbCron j \<noteq> []))"

definition removeJobs :: "string list \<Rightarrow> job_manager \<Rightarrow> job_manager" where
  "removeJobs names jm =
     fold (\<lambda>j jm. if mget (jobs jm) j = None then jm else jm\<lparr>jobs := mdel j (jobs jm), jobRuns := mdel j (jobRuns jm)\<rparr>) names jm"

definition schedule :: "nat \<Rightarrow> bool \<Rightarrow> job_manager \<Rightarrow> job_manager" where
  "schedule a ok jm = upd_job a (\<lambda>j. j\<lparr>jbAuto := True, jbScheduled := True, jbCronJob := ok\<rparr>) jm"

definition file_ext :: "string \<Rightarrow> string" where
  "file_ext s = (if CHR ''.'' \<in> set s then CHR ''.'' # rev (takeWhile (\<lambda>c. c \<noteq> CHR ''.'') (rev s)) else [])"

definition script_job :: "string \<Rightarrow> job" where
  "script_job name =
     \<lparr>jbName = name, jbAuto = False, jbCount = 1, jbCron = [], MaxResults = 0, KeepResults = 3, KeepFirst = False, jbTimeout = 0,
      OutputTrigger = None, FinishTrigger = None, jbDelayD = 0, initialDelayD = 0, httpTask = None,
      commandTask = Some \<lparr>ctCmd = [], ctScript = name, ctArgs = [], OutputMarkers = [], OutputSeparator = [], ctFillers = []\<rparr>,
      jobRunCounter = 0, jbScheduled = False, jbCronJob = False\<rparr>"

text \<open>\<open>ok\<close>: the file could be written. The name has no slash.\<close>

definition StoreJobScriptOrFile :: "string \<Rightarrow> string \<Rightarrow> bool \<Rightarrow> bool \<Rightarrow> job_manager \<Rightarrow> job_manager" where
  "StoreJobScriptOrFile filePath fileName scriptJob ok jm =
     (if \<not> ok then jm
      else
        (let ext = file_ext fileName; name = take (length fileName - length ext) fileName;
             jm = jm\<lparr>jobScripts := mput name \<lparr>scPath = filePath @ ''/'' @ fileName, scShell = (ext = ''.sh'')\<rparr> (jobScripts jm)\<rparr>
         in if scriptJob then fst (AddJob (script_job name) jm) else jm))"

section \<open>Runs\<close>

definition new_run :: "string \<Rightarrow> string list option \<Rightarrow> (string, string) gomap \<Rightarrow> string option \<Rightarrow> int \<Rightarrow> job_run" where
  "new_run name args ms raw n =
     \<lparr>runId = n, runJob_name = name, finished = False, stopped = False, stopSignals = 0, stopClosed = False, doneSignals = 0, doneClosed = False,
      outDone = 0, resultCount = 0, jobArgs = args, jobResults = [], runMarkers = ms, rawInput = raw\<rparr>"

definition initJobRun ::
  "nat \<Rightarrow> string list option \<Rightarrow> (string, string) gomap \<Rightarrow> string option \<Rightarrow> job_manager \<Rightarrow> job_manager \<times> nat option" where
  "initJobRun a args ms raw jm =
     (let j = jobObjs jm ! a; n = jobRunCounter j + 1; r = length (runObjs jm); name = jbName j in
      if commandTask j = None \<and> httpTask j = None then (jm, None)
      else
        ((upd_job a (\<lambda>j. j\<lparr>jobRunCounter := n\<rparr>) jm)
           \<lparr>runObjs := runObjs jm @ [new_run name args ms raw n], jobRuns := mput name (mput n r (mget_or [] (jobRuns jm) name)) (jobRuns jm)\<rparr>,
         Some r))"

text \<open>The values of the markers are put for the fillers of the arguments.\<close>

definition command_args :: "command_task \<Rightarrow> (string, string) gomap \<Rightarrow> string list" where
  "command_args t ms =
     (if ms \<noteq> [] \<and> ctFillers t \<noteq> [] then
        fold (\<lambda>(f, _) args. let v = mget_or [] ms f in if v \<noteq> [] then map (\<lambda>a. ReplaceAll a f v) args else args) (ctFillers t) (ctArgs t)
      else ctArgs t)"

definition storeJobResult :: "job \<Rightarrow> int \<Rightarrow> job_data \<Rightarrow> bool \<Rightarrow> job_run \<Rightarrow> job_run" where
  "storeJobResult j iteration d isLast r =
     (let n = resultCount r + 1;
          res = \<lparr>jrID = Itoa (runId r) @ ''.'' @ Itoa iteration @ ''.'' @ Itoa n, jrFinished = finished r, jrStopped = stopped r, jrLast = isLast, jrData = d\<rparr>;
          rs = jobResults r @ [res];
          rs = (if KeepResults j < int (length rs) then (if KeepFirst j then take 1 rs @ drop 2 rs else drop 1 rs) else rs)
      in r\<lparr>resultCount := n, jobResults := rs\<rparr>)"

definition storeHttpResult :: "job \<Rightarrow> int \<Rightarrow> http_result \<Rightarrow> bool \<Rightarrow> job_run \<Rightarrow> job_run" where
  "storeHttpResult j iteration res isLast r =
     (case httpTask j of
        None \<Rightarrow> r
      | Some t \<Rightarrow> (if htName t = hrTarget res then storeJobResult j iteration (Response res) isLast r else r))"

definition prepareCommandMarkers :: "string \<Rightarrow> command_task \<Rightarrow> (string, string) gomap \<Rightarrow> (string, string) gomap" where
  "prepareCommandMarkers out t ms =
     (if OutputMarkers t = [] then []
      else
        (let sep = (if OutputSeparator t = [] then '' '' else OutputSeparator t); pieces = split_str sep out in
         fold (\<lambda>(i, piece) m. let k = mget_or [] (OutputMarkers t) i in if k \<noteq> [] then mput (MarkFiller k) piece m else m)
           (zip [1..int (length pieces)] pieces) ms))"

section \<open>Executing a run\<close>

text \<open>A job that is triggered, with the markers and the input it gets.\<close>

record triggered =
  tgName :: string
  tgMarkers :: "(string, string) gomap"
  tgInput :: "string option"

datatype select_event = TimeoutFired | StopRequested | CommandDone | OutputLine string

text \<open>
  One execution of a command: whether the pipes can be opened and the command started, what the loop selects, the lines that are still in
  the channel after it, and how many signals on \<open>outDoneChannel\<close> were taken meanwhile by callers that wait for the run.
\<close>

record cmd_io =
  ioPipes :: bool
  ioStart :: "string \<Rightarrow> string list \<Rightarrow> bool"
  ioEvents :: "select_event list"
  ioRest :: "string list"
  ioTaken :: nat

record cmd_state =
  csRun :: job_run
  csCount :: int
  csTriggered :: "triggered list"

definition command_line :: "(string, script) gomap \<Rightarrow> command_task \<Rightarrow> string list \<Rightarrow> string \<times> string list" where
  "command_line scripts t args =
     (case (ctCmd t, mget scripts (ctScript t)) of
        ([], Some sc) \<Rightarrow> (if scShell sc then (''sh'', scPath sc # args) else (scPath sc, args))
      | (c, _) \<Rightarrow> (c, args))"

definition stopCommand :: "cmd_state \<Rightarrow> cmd_state" where
  "stopCommand s = s\<lparr>csRun := (csRun s)\<lparr>stopped := True\<rparr>\<rparr>"

definition processOutput :: "job \<Rightarrow> command_task \<Rightarrow> int \<Rightarrow> bool \<Rightarrow> bool \<Rightarrow> string \<Rightarrow> cmd_state \<Rightarrow> cmd_state" where
  "processOutput j t iteration isLast stopAfterMax out s =
     (if MaxResults j = 0 \<or> csCount s < MaxResults j then
        (if out = [] then s
         else
           (let r = csRun s; ms = prepareCommandMarkers out t (runMarkers r) in
            s\<lparr>csCount := csCount s + 1, csRun := storeJobResult j iteration (Text out) isLast r,
              csTriggered := csTriggered s @ (case OutputTrigger j of
                  None \<Rightarrow> []
                | Some tr \<Rightarrow> (if ms \<noteq> [] then [\<lparr>tgName = jtName tr, tgMarkers = ms, tgInput = None\<rparr>] else []))\<rparr>))
      else if stopAfterMax then stopCommand s else s)"

text \<open>The loop ends with a signal to stop or that the command is done, or with the timeout if the job has one; otherwise it goes on forever.\<close>

fun command_loop :: "job \<Rightarrow> command_task \<Rightarrow> int \<Rightarrow> bool \<Rightarrow> select_event list \<Rightarrow> cmd_state \<Rightarrow> cmd_state option" where
  "command_loop j t iteration isLast [] s = None"
| "command_loop j t iteration isLast (e # es) s =
     (case e of
        TimeoutFired \<Rightarrow> (if 0 < jbTimeout j then Some (stopCommand s) else command_loop j t iteration isLast es s)
      | StopRequested \<Rightarrow> Some (stopCommand s)
      | CommandDone \<Rightarrow> Some s
      | OutputLine out \<Rightarrow> command_loop j t iteration isLast es (processOutput j t iteration isLast True out s))"

text \<open>The channel has room for two signals.\<close>

definition signal_out_done :: "nat \<Rightarrow> job_run \<Rightarrow> job_run option" where
  "signal_out_done taken r = (let n = outDone r - taken in if n < 2 then Some (r\<lparr>outDone := n + 1\<rparr>) else None)"

definition runCommandJob ::
  "(string, script) gomap \<Rightarrow> job \<Rightarrow> command_task \<Rightarrow> cmd_io \<Rightarrow> int \<Rightarrow> bool \<Rightarrow> job_run \<Rightarrow> (job_run \<times> triggered list) option" where
  "runCommandJob scripts j t io iteration isLast r =
     (let (cmd, args) = command_line scripts t (case jobArgs r of None \<Rightarrow> [] | Some as \<Rightarrow> as) in
      if \<not> ioPipes io then Some (r, [])
      else if \<not> ioStart io cmd args then Some (storeJobResult j iteration (Text ''failed to execute command'') isLast r, [])
      else do {
        s \<leftarrow> command_loop j t iteration isLast (ioEvents io) \<lparr>csRun = r, csCount = 0, csTriggered = []\<rparr>;
        let s = fold (processOutput j t iteration isLast False) (ioRest io) s;
        let r = csRun s;
        r \<leftarrow> signal_out_done (ioTaken io) (if isLast then storeJobResult j iteration (Text []) isLast (r\<lparr>finished := True\<rparr>) else r);
        Some (r, csTriggered s) })"

datatype http_event = HTimeout | HStop | HDone | HResult "http_result option"

record http_io =
  hioRegistered :: bool
  hioEvents :: "http_event list"
  hioRest :: "http_result list"
  hioTaken :: nat

text \<open>
  A result of an invocation. The job that is triggered is looked up, and the transformations are those of its HTTP task, which a command
  job does not have. The flag of the result is that the result was counted.
\<close>

definition storeResult ::
  "(string \<Rightarrow> transform list \<Rightarrow> bool \<Rightarrow> string) \<Rightarrow> (string \<Rightarrow> job option) \<Rightarrow> job \<Rightarrow> int \<Rightarrow> bool \<Rightarrow> http_result option \<Rightarrow> cmd_state \<Rightarrow> (cmd_state \<times> bool) option" where
  "storeResult tf look j iteration isLast res s =
     (case res of
        Some h \<Rightarrow>
          (if csCount s < MaxResults j then
             (let s = s\<lparr>csCount := csCount s + 1, csRun := storeHttpResult j iteration h isLast (csRun s)\<rparr>;
                  trig = (\<lambda>tr p. s\<lparr>csTriggered := csTriggered s @ [\<lparr>tgName = jtName tr, tgMarkers = [], tgInput = p\<rparr>]\<rparr>)
              in case OutputTrigger j of
                   None \<Rightarrow> Some (s, True)
                 | Some tr \<Rightarrow>
                     (case look (jtName tr) of
                        None \<Rightarrow> Some (s, True)
                      | Some j2 \<Rightarrow>
                          (if \<not> ForwardPayload tr then Some (trig tr None, True)
                           else case httpTask j2 of
                                  None \<Rightarrow> None
                                | Some t2 \<Rightarrow>
                                    Some (trig tr (Some (if htTransforms t2 \<noteq> [] then tf (hrPayload h) (htTransforms t2) (hrYaml h) else hrPayload h)), True))))
           else Some (s, False))
      | None \<Rightarrow> Some (s, False))"

fun http_loop ::
  "(string \<Rightarrow> transform list \<Rightarrow> bool \<Rightarrow> string) \<Rightarrow> (string \<Rightarrow> job option) \<Rightarrow> job \<Rightarrow> int \<Rightarrow> bool \<Rightarrow> http_event list \<Rightarrow> cmd_state \<Rightarrow> cmd_state option" where
  "http_loop tf look j iteration isLast [] s = None"
| "http_loop tf look j iteration isLast (e # es) s =
     (case e of
        HTimeout \<Rightarrow> Some (stopCommand s)
      | HStop \<Rightarrow> Some (stopCommand s)
      | HDone \<Rightarrow> Some s
      | HResult res \<Rightarrow>
          (case storeResult tf look j iteration isLast res s of
             None \<Rightarrow> None
           | Some (s, counted) \<Rightarrow> http_loop tf look j iteration isLast es (if counted then s else stopCommand s)))"

fun http_rest ::
  "(string \<Rightarrow> transform list \<Rightarrow> bool \<Rightarrow> string) \<Rightarrow> (string \<Rightarrow> job option) \<Rightarrow> job \<Rightarrow> int \<Rightarrow> bool \<Rightarrow> http_result list \<Rightarrow> cmd_state \<Rightarrow> cmd_state option" where
  "http_rest tf look j iteration isLast [] s = Some s"
| "http_rest tf look j iteration isLast (h # hs) s =
     (case storeResult tf look j iteration isLast (Some h) s of
        None \<Rightarrow> None
      | Some (s, counted) \<Rightarrow> (if counted then http_rest tf look j iteration isLast hs s else Some s))"

definition invokeHttpTarget ::
  "(string \<Rightarrow> transform list \<Rightarrow> bool \<Rightarrow> string) \<Rightarrow> (string \<Rightarrow> job option) \<Rightarrow> job \<Rightarrow> http_io \<Rightarrow> int \<Rightarrow> bool \<Rightarrow> job_run \<Rightarrow> (job_run \<times> triggered list) option" where
  "invokeHttpTarget tf look j io iteration isLast r =
     (if \<not> hioRegistered io then Some (r, [])
      else do {
        s \<leftarrow> http_loop tf look j iteration isLast (hioEvents io) \<lparr>csRun = r, csCount = 0, csTriggered = []\<rparr>;
        s \<leftarrow> http_rest tf look j iteration isLast (hioRest io) (s\<lparr>csRun := (csRun s)\<lparr>finished := True\<rparr>\<rparr>);
        r \<leftarrow> signal_out_done (hioTaken io) (csRun s);
        Some (r, csTriggered s) })"

text \<open>The iterations of a run, from \<open>i\<close> on; \<open>n\<close> are left. The result has the number of iterations.\<close>

fun run_iterations ::
  "(int \<Rightarrow> bool \<Rightarrow> job_run \<Rightarrow> (job_run \<times> triggered list) option) \<Rightarrow> int \<Rightarrow> nat \<Rightarrow> int \<Rightarrow> job_run \<Rightarrow> triggered list \<Rightarrow> (job_run \<times> triggered list \<times> int) option" where
  "run_iterations step cnt 0 i r ts = Some (r, ts, i)"
| "run_iterations step cnt (Suc n) i r ts =
     (case step (i + 1) (i = cnt - 1) r of
        None \<Rightarrow> None
      | Some (r, ts') \<Rightarrow>
          (if stopped r \<or> finished r then Some (r, ts @ ts', i + 1) else run_iterations step cnt n (i + 1) r (ts @ ts')))"

definition GetLatestJobResults :: "string \<Rightarrow> job_manager \<Rightarrow> job_result list" where
  "GetLatestJobResults name jm =
     (case (mget (jobs jm) name, mget (jobRuns jm) name) of
        (Some _, Some runs) \<Rightarrow>
          (case fold (\<lambda>(n, a) latest. case latest of None \<Rightarrow> Some a | Some b \<Rightarrow> (if runId (runObjs jm ! b) < n then Some a else latest)) runs None of
             None \<Rightarrow> []
           | Some a \<Rightarrow> jobResults (runObjs jm ! a))
      | _ \<Rightarrow> [])"

record run_io =
  rioCmd :: "int \<Rightarrow> cmd_io"
  rioHttp :: "int \<Rightarrow> http_io"
  rioSprint :: "job_data list \<Rightarrow> string"

definition find_job :: "job_manager \<Rightarrow> string \<Rightarrow> job option" where
  "find_job jm name = map_option (\<lambda>a. jobObjs jm ! a) (mget (jobs jm) name)"

definition job_step ::
  "(string \<Rightarrow> transform list \<Rightarrow> bool \<Rightarrow> string) \<Rightarrow> job_manager \<Rightarrow> job \<Rightarrow> run_io \<Rightarrow> int \<Rightarrow> bool \<Rightarrow> job_run \<Rightarrow> (job_run \<times> triggered list) option" where
  "job_step tf jm j io iteration isLast r =
     (case commandTask j of
        Some t \<Rightarrow> runCommandJob (jobScripts jm) j t (rioCmd io iteration) iteration isLast r
      | None \<Rightarrow> (case httpTask j of Some _ \<Rightarrow> invokeHttpTarget tf (find_job jm) j (rioHttp io iteration) iteration isLast r | None \<Rightarrow> Some (r, [])))"

definition finish_input :: "(string \<Rightarrow> transform list \<Rightarrow> bool \<Rightarrow> string) \<Rightarrow> run_io \<Rightarrow> job \<Rightarrow> job_trigger \<Rightarrow> job_manager \<Rightarrow> string option" where
  "finish_input tf io j tr jm =
     (let rs = GetLatestJobResults (jbName j) jm;
          p = (if ForwardPayload tr \<and> rs \<noteq> [] then Some (rioSprint io (map jrData rs)) else None)
      in case httpTask j of
           Some t \<Rightarrow> (if htTransforms t \<noteq> [] then Some (tf (case p of None \<Rightarrow> [] | Some s \<Rightarrow> s) (htTransforms t) False) else p)
         | None \<Rightarrow> p)"

text \<open>The result has the number of iterations, and the jobs that are triggered by output and at the end.\<close>

definition executeJobRun ::
  "(string \<Rightarrow> transform list \<Rightarrow> bool \<Rightarrow> string) \<Rightarrow> run_io \<Rightarrow> nat \<Rightarrow> nat \<Rightarrow> job_manager \<Rightarrow> (job_manager \<times> int \<times> triggered list) option" where
  "executeJobRun tf io a ra jm =
     (let j = jobObjs jm ! a; r = runObjs jm ! ra;
          r = (case (commandTask j, jobArgs r) of (Some t, None) \<Rightarrow> r\<lparr>jobArgs := Some (ctArgs t)\<rparr> | _ \<Rightarrow> r)
      in case run_iterations (job_step tf jm j io) (jbCount j) (nat (jbCount j)) 0 r [] of
           None \<Rightarrow> None
         | Some (r, ts, n) \<Rightarrow>
             (let jm = upd_run ra (\<lambda>_. r\<lparr>stopClosed := True, doneClosed := True\<rparr>) jm in
              Some (jm, n, ts @ (case FinishTrigger j of
                                   None \<Rightarrow> []
                                 | Some tr \<Rightarrow> [\<lparr>tgName = jtName tr, tgMarkers = [], tgInput = finish_input tf io j tr jm\<rparr>]))))"

definition runJob_at ::
  "(string \<Rightarrow> transform list \<Rightarrow> bool \<Rightarrow> string) \<Rightarrow> run_io \<Rightarrow> nat \<Rightarrow> string list option \<Rightarrow> (string, string) gomap \<Rightarrow> string option \<Rightarrow>
   job_manager \<Rightarrow> (job_manager \<times> nat option \<times> triggered list) option" where
  "runJob_at tf io a args ms raw jm =
     (case initJobRun a args ms raw jm of
        (jm, None) \<Rightarrow> Some (jm, None, [])
      | (jm, Some ra) \<Rightarrow> map_option (\<lambda>(jm, _, ts). (jm, Some ra, ts)) (executeJobRun tf io a ra jm))"

definition runJobWithInput ::
  "(string \<Rightarrow> transform list \<Rightarrow> bool \<Rightarrow> string) \<Rightarrow> run_io \<Rightarrow> string \<Rightarrow> (string, string) gomap \<Rightarrow> string option \<Rightarrow> job_manager \<Rightarrow>
   (job_manager \<times> nat option \<times> triggered list) option" where
  "runJobWithInput tf io name ms raw jm =
     (case mget (jobs jm) name of
        None \<Rightarrow> Some (jm, None, [])
      | Some a \<Rightarrow>
          (case commandTask (jobObjs jm ! a) of
             Some t \<Rightarrow> runJob_at tf io a (Some (command_args t ms)) ms raw jm
           | None \<Rightarrow> (if httpTask (jobObjs jm ! a) = None then Some (jm, None, []) else runJob_at tf io a None ms raw jm)))"

text \<open>A job with a cron text is only scheduled. \<open>ok\<close>: the scheduler accepts the text.\<close>

definition RunJob ::
  "(string \<Rightarrow> transform list \<Rightarrow> bool \<Rightarrow> string) \<Rightarrow> run_io \<Rightarrow> bool \<Rightarrow> nat \<Rightarrow> job_manager \<Rightarrow> (job_manager \<times> nat option \<times> triggered list) option" where
  "RunJob tf io ok a jm =
     (if jbCron (jobObjs jm ! a) \<noteq> [] then Some ((schedule a ok jm)\<lparr>cronRunning := True\<rparr>, None, [])
      else runJob_at tf io a None [] None jm)"

text \<open>Waiting for a run: \<open>signal\<close> says that the run signals its end in time. A run that is not in the table is dereferenced at the end.\<close>

definition waitForJob :: "string \<Rightarrow> int \<Rightarrow> bool \<Rightarrow> job_manager \<Rightarrow> (job_manager \<times> bool) option" where
  "waitForJob name n signal jm =
     (case mget (mget_or [] (jobRuns jm) name) n of
        None \<Rightarrow> None
      | Some ra \<Rightarrow>
          (let r = runObjs jm ! ra in
           if \<not> finished r \<and> \<not> stopped r then
             (if 0 < outDone r then Some (upd_run ra (\<lambda>r. r\<lparr>outDone := outDone r - 1\<rparr>) jm, True) else Some (jm, signal))
           else Some (jm, finished r)))"

section \<open>Stopping\<close>

text \<open>
  A run is stopped by a value in its channel, which has room for ten. The value of \<open>done\<close> is kept from run to run. A closed channel gives
  the value false, and a send to a closed channel panics.
\<close>

definition take_done :: "bool \<Rightarrow> job_run \<Rightarrow> bool \<times> job_run" where
  "take_done isDone r =
     (if 0 < doneSignals r then (True, r\<lparr>doneSignals := doneSignals r - 1\<rparr>) else if doneClosed r then (False, r) else (isDone, r))"

definition stop_run :: "bool \<Rightarrow> job_run \<Rightarrow> (job_run \<times> bool) option" where
  "stop_run isDone r =
     (case take_done isDone r of
        (isDone, r) \<Rightarrow>
          (if isDone \<or> finished r \<or> stopped r then Some (r, isDone)
           else if stopClosed r \<or> 10 \<le> stopSignals r then None
           else Some (r\<lparr>stopSignals := stopSignals r + 1\<rparr>, isDone)))"

fun stop_runs :: "nat \<Rightarrow> (int \<times> nat) list \<Rightarrow> bool \<Rightarrow> job_manager \<Rightarrow> job_manager option" where
  "stop_runs a [] isDone jm = Some jm"
| "stop_runs a ((_, ra) # runs) isDone jm =
     (case stop_run isDone (runObjs jm ! ra) of
        None \<Rightarrow> None
      | Some (r, isDone) \<Rightarrow>
          (let jm = upd_run ra (\<lambda>_. r) jm in
           stop_runs a runs isDone
             (if jbScheduled (jobObjs jm ! a) then (upd_job a (\<lambda>j. j\<lparr>jbCronJob := False\<rparr>) jm)\<lparr>cronRunning := False\<rparr> else jm)))"

definition stopJob :: "string \<Rightarrow> job_manager \<Rightarrow> (job_manager \<times> bool) option" where
  "stopJob name jm =
     (case (mget (jobs jm) name, mget (jobRuns jm) name) of
        (Some a, Some runs) \<Rightarrow> map_option (\<lambda>jm. (jm, True)) (stop_runs a runs False jm)
      | _ \<Rightarrow> Some (jm, False))"

fun stop_all :: "string list \<Rightarrow> job_manager \<Rightarrow> job_manager option" where
  "stop_all [] jm = Some jm"
| "stop_all (n # ns) jm = (case stopJob n jm of None \<Rightarrow> None | Some (jm, _) \<Rightarrow> stop_all ns jm)"

section \<open>Results\<close>

definition getJobResults :: "string \<Rightarrow> job_manager \<Rightarrow> (int, job_result list) gomap" where
  "getJobResults name jm =
     (case (mget (jobs jm) name, mget (jobRuns jm) name) of
        (Some _, Some runs) \<Rightarrow> fold (\<lambda>(_, ra) m. mput (runId (runObjs jm ! ra)) (jobResults (runObjs jm ! ra)) m) runs []
      | _ \<Rightarrow> [])"

definition getAllJobsResults :: "job_manager \<Rightarrow> (string, (int, job_result list) gomap) gomap" where
  "getAllJobsResults jm =
     fold (\<lambda>(_, a) m. let name = jbName (jobObjs jm ! a) in
         mput name (fold (\<lambda>(_, ra) m. mput (runId (runObjs jm ! ra)) (jobResults (runObjs jm ! ra)) m) (mget_or [] (jobRuns jm) name) []) m)
       (jobs jm) []"

section \<open>Handlers\<close>

definition getJobsToRun :: "string list \<Rightarrow> job_manager \<Rightarrow> string list \<times> nat list" where
  "getJobsToRun names jm =
     (if names \<noteq> [] then (names, concat (map (\<lambda>n. case mget (jobs jm) n of None \<Rightarrow> [] | Some a \<Rightarrow> [a]) names))
      else (map (\<lambda>(_, a). jbName (jobObjs jm ! a)) (jobs jm), map snd (jobs jm)))"

text \<open>The second component is the addresses of the jobs that are started.\<close>

definition addOrUpdateJob :: "(string \<Rightarrow> int option) \<Rightarrow> job_body option \<Rightarrow> job_manager \<Rightarrow> (job_manager \<times> nat list \<times> http_out) option" where
  "addOrUpdateJob pd body jm =
     (case ParseJobFromPayload pd body of
        None \<Rightarrow> None
      | Some (Inl _) \<Rightarrow> Some (jm, [], WriteHeader 400 no_out)
      | Some (Inr j) \<Rightarrow>
          (case AddJob j jm of
             (jm', _, starts) \<Rightarrow> Some (jm', if starts then [length (jobObjs jm)] else [], SendEvent ''Job Added'' no_out)))"

definition storeJobScriptOrFile :: "string \<Rightarrow> bool \<Rightarrow> request \<Rightarrow> job_manager \<Rightarrow> job_manager \<times> http_out" where
  "storeJobScriptOrFile cwd ok r jm =
     (let name = GetStringParamValue r ''name'' None; path = GetStringParamValue r ''path'' None; isScript = Contains (RequestURI r) ''script'';
          path = (if isScript \<or> path = [] then cwd else path)
      in (StoreJobScriptOrFile path name isScript ok jm,
          if \<not> ok then WriteHeader 400 no_out else SendEvent (if isScript then ''Job Script Stored'' else ''Job File Stored'') no_out))"

definition removeJob :: "request \<Rightarrow> job_manager \<Rightarrow> job_manager \<times> http_out" where
  "removeJob r jm =
     (case GetListParam r ''jobs'' of
        (names, present) \<Rightarrow>
          (if present then (removeJobs names jm, SendEvent ''Jobs Removed'' no_out) else (jm, WriteHeader 406 no_out)))"

definition runJobs_api :: "request \<Rightarrow> job_manager \<Rightarrow> nat list \<times> http_out" where
  "runJobs_api r jm =
     (let js = snd (getJobsToRun (fst (GetListParam r ''jobs'')) jm) in (js, if js \<noteq> [] then no_out else WriteHeader 406 no_out))"

definition stopJobs_api :: "request \<Rightarrow> job_manager \<Rightarrow> job_manager option" where
  "stopJobs_api r jm =
     (case GetListParam r ''jobs'' of (names, present) \<Rightarrow> stop_all (if present then names else names @ map fst (jobs jm)) jm)"

definition clearJobs :: "job_manager \<Rightarrow> job_manager \<times> http_out" where
  "clearJobs jm = (init_manager jm, SendEvent ''Jobs Cleared'' no_out)"

definition clearJobResults :: "job_manager \<Rightarrow> job_manager \<times> http_out" where
  "clearJobResults jm = (jm\<lparr>jobRuns := []\<rparr>, SendEvent ''Job Results Cleared'' no_out)"

end
