(* ===== verification/Jobs_Laws.thy ===== *)
theory Jobs_Laws
  imports Jobs
begin

text \<open>
  What the jobs do: the results that are kept, how many iterations a run has, and what the API makes of the names of jobs, of jobs without
  a task and of stopping a job that is over.
\<close>

section \<open>Kept results\<close>

text \<open>The results of a run in the order in which they are stored, and those of them that are kept.\<close>

fun produced :: "job_run \<Rightarrow> int \<Rightarrow> (int \<times> job_data \<times> bool) list \<Rightarrow> job_result list" where
  "produced r n [] = []"
| "produced r n ((iteration, d, isLast) # xs) =
     \<lparr>jrID = Itoa (runId r) @ ''.'' @ Itoa iteration @ ''.'' @ Itoa (n + 1), jrFinished = finished r, jrStopped = stopped r, jrLast = isLast, jrData = d\<rparr>
     # produced r (n + 1) xs"

definition kept :: "nat \<Rightarrow> bool \<Rightarrow> 'a list \<Rightarrow> 'a list" where
  "kept k keepFirst xs =
     (if length xs \<le> k then xs else if keepFirst then hd xs # drop (length xs - (k - 1)) xs else drop (length xs - k) xs)"

definition trim :: "nat \<Rightarrow> bool \<Rightarrow> 'a list \<Rightarrow> 'a list" where
  "trim k keepFirst xs = (if k < length xs then (if keepFirst then take 1 xs @ drop 2 xs else drop 1 xs) else xs)"

lemma kept_length: "1 \<le> k \<Longrightarrow> length (kept k f xs) = min k (length xs)"
  by (auto simp: kept_def)

lemma kept_snoc:
  assumes "1 \<le> k"
  shows "kept k f (xs @ [x]) = trim k f (kept k f xs @ [x])"
proof (cases "length xs \<le> k")
  case True
  then show ?thesis using assms
    by (cases xs) (auto simp: kept_def trim_def Suc_diff_le take_Cons' drop_Cons' not_le le_Suc_eq)
next
  case False
  then have l: "length (kept k f xs) = k" using assms by (simp add: kept_length)
  then have t: "trim k f (kept k f xs @ [x]) = (if f then take 1 (kept k f xs @ [x]) @ drop 2 (kept k f xs @ [x]) else drop 1 (kept k f xs @ [x]))"
    by (simp add: trim_def)
  show ?thesis
  proof (cases f)
    case True
    have "xs \<noteq> []" using False by auto
    then show ?thesis unfolding t using True False assms
      by (cases k) (auto simp: kept_def numeral_2_eq_2 Suc_diff_le drop_Suc tl_append2 tl_drop hd_append)
  next
    case not_f: False
    then show ?thesis unfolding t using False assms
      by (auto simp: kept_def Suc_diff_le drop_Suc tl_append2 tl_drop)
  qed
qed

definition store_all :: "job \<Rightarrow> (int \<times> job_data \<times> bool) list \<Rightarrow> job_run \<Rightarrow> job_run" where
  "store_all j xs r = fold (\<lambda>(iteration, d, isLast). storeJobResult j iteration d isLast) xs r"

lemma storeJobResult_fields [simp]:
  "runId (storeJobResult j i d l r) = runId r" "finished (storeJobResult j i d l r) = finished r" "stopped (storeJobResult j i d l r) = stopped r"
  "resultCount (storeJobResult j i d l r) = resultCount r + 1" "outDone (storeJobResult j i d l r) = outDone r"
  "stopClosed (storeJobResult j i d l r) = stopClosed r" "doneClosed (storeJobResult j i d l r) = doneClosed r"
  "doneSignals (storeJobResult j i d l r) = doneSignals r" "stopSignals (storeJobResult j i d l r) = stopSignals r"
  "runMarkers (storeJobResult j i d l r) = runMarkers r" "jobArgs (storeJobResult j i d l r) = jobArgs r"
  by (simp_all add: storeJobResult_def Let_def)

lemma produced_append: "produced r n (xs @ ys) = produced r n xs @ produced r (n + int (length xs)) ys"
  by (induction r n xs rule: produced.induct) (simp_all add: algebra_simps)

lemma storeJobResult_results:
  assumes "1 \<le> KeepResults j"
  shows "jobResults (storeJobResult j i d l r) = trim (nat (KeepResults j)) (KeepFirst j) (jobResults r @ produced r (resultCount r) [(i, d, l)])"
  using assms by (simp add: storeJobResult_def trim_def Let_def nat_less_iff)

lemma store_all_results:
  assumes "1 \<le> KeepResults j" "jobResults r = []"
  shows "jobResults (store_all j xs r) = kept (nat (KeepResults j)) (KeepFirst j) (produced r (resultCount r) xs) \<and>
    runId (store_all j xs r) = runId r \<and> finished (store_all j xs r) = finished r \<and> stopped (store_all j xs r) = stopped r \<and>
    resultCount (store_all j xs r) = resultCount r + int (length xs)"
proof (induction xs rule: rev_induct)
  case Nil
  then show ?case using assms by (simp add: store_all_def kept_def)
next
  case (snoc x xs)
  obtain i d l where x: "x = (i, d, l)" by (metis prod_cases3)
  let ?r = "store_all j xs r"
  have "store_all j (xs @ [x]) r = storeJobResult j i d l ?r" by (simp add: store_all_def x)
  moreover have "produced ?r (resultCount ?r) [(i, d, l)] = produced r (resultCount r + int (length xs)) [x]" using snoc by (simp add: x)
  moreover have "1 \<le> nat (KeepResults j)" using assms(1) by simp
  ultimately show ?case
    using snoc storeJobResult_results [OF assms(1), of i d l ?r] by (simp add: produced_append kept_snoc x)
qed

text \<open>C12: However many results a run stores, it keeps at most the configured number of them: the most recent ones, and with \<open>keepFirst\<close> the
  first one and the most recent others; each with its number in the run.\<close>
theorem results_kept:
  assumes "1 \<le> KeepResults j" and "jobResults r = []" and "resultCount r = 0"
  shows "jobResults (store_all j xs r) = kept (nat (KeepResults j)) (KeepFirst j) (produced r 0 xs) \<and>
    int (length (jobResults (store_all j xs r))) = min (KeepResults j) (int (length xs))"
proof -
  have "length (produced r n xs) = length xs" for n by (induction r n xs rule: produced.induct) auto
  then show ?thesis using store_all_results [OF assms(1,2), of xs] assms(1,3) by (auto simp: kept_length)
qed

theorem results_kept_witness:
  "map jrData (jobResults (store_all ((script_job ''s'')\<lparr>KeepFirst := True\<rparr>) (map (\<lambda>c. (1, Text [c], False)) ''abcde'') (new_run ''s'' None [] None 1)))
   = [Text ''a'', Text ''d'', Text ''e'']"
proof -
  let ?j = "(script_job ''s'')\<lparr>KeepFirst := True\<rparr>" and ?r = "new_run ''s'' None [] None 1" and ?xs = "map (\<lambda>c. (1 :: int, Text [c], False)) ''abcde''"
  have "jobResults (store_all ?j ?xs ?r) = kept (nat (KeepResults ?j)) (KeepFirst ?j) (produced ?r 0 ?xs)"
    using results_kept [of ?j ?r ?xs] by (simp add: script_job_def new_run_def)
  then show ?thesis by (simp add: script_job_def new_run_def kept_def)
qed

section \<open>Iterations\<close>

text \<open>An undisturbed execution of a command: it starts, prints some lines, at most as many as are accepted, and ends; nobody waits for the run.\<close>

definition plain_io :: "job \<Rightarrow> cmd_io \<Rightarrow> bool" where
  "plain_io j io \<longleftrightarrow>
     ioPipes io \<and> (\<forall>cmd args. ioStart io cmd args) \<and> ioRest io = [] \<and> ioTaken io = 0 \<and>
     (\<exists>outs. ioEvents io = map OutputLine outs @ [CommandDone] \<and> int (length outs) \<le> MaxResults j)"

lemma processOutput_run:
  "stopped (csRun (processOutput j t i l b out s)) = (stopped (csRun s) \<or> b \<and> MaxResults j \<noteq> 0 \<and> MaxResults j \<le> csCount s)"
  "finished (csRun (processOutput j t i l b out s)) = finished (csRun s)" "outDone (csRun (processOutput j t i l b out s)) = outDone (csRun s)"
  "csCount (processOutput j t i l b out s) \<le> csCount s + 1"
  by (auto simp: processOutput_def stopCommand_def Let_def)

lemma command_loop_plain:
  assumes "csCount s + int (length outs) \<le> MaxResults j" "0 \<le> csCount s"
  shows "\<exists>s'. command_loop j t i l (map OutputLine outs @ [CommandDone]) s = Some s' \<and> stopped (csRun s') = stopped (csRun s) \<and>
    finished (csRun s') = finished (csRun s) \<and> outDone (csRun s') = outDone (csRun s)"
  using assms
proof (induction outs arbitrary: s)
  case (Cons out outs)
  let ?s = "processOutput j t i l True out s"
  have "csCount s < MaxResults j" using Cons.prems by simp
  then have "0 \<le> csCount ?s" using Cons.prems(2) by (simp add: processOutput_def Let_def)
  moreover have "csCount ?s + int (length outs) \<le> MaxResults j" using processOutput_run(4) [of j t i l True out s] Cons.prems(1) by simp
  ultimately show ?case using Cons.IH [of ?s] \<open>csCount s < MaxResults j\<close> by (simp add: processOutput_run)
qed simp

lemma runCommandJob_plain:
  assumes "plain_io j io" "outDone r < 2"
  shows "\<exists>r' ts. runCommandJob scripts j t io i l r = Some (r', ts) \<and> stopped r' = stopped r \<and> finished r' = (l \<or> finished r) \<and> outDone r' = outDone r + 1"
proof -
  obtain outs where outs: "ioEvents io = map OutputLine outs @ [CommandDone]" "int (length outs) \<le> MaxResults j"
    using assms(1) by (auto simp: plain_io_def)
  obtain s' where "command_loop j t i l (ioEvents io) \<lparr>csRun = r, csCount = 0, csTriggered = []\<rparr> = Some s'" "stopped (csRun s') = stopped r"
    "finished (csRun s') = finished r" "outDone (csRun s') = outDone r"
    using command_loop_plain [of "\<lparr>csRun = r, csCount = 0, csTriggered = []\<rparr>" outs j t i l] outs by auto
  then show ?thesis using assms by (auto simp: runCommandJob_def plain_io_def signal_out_done_def Let_def split: prod.split)
qed

lemma runCommandJob_blocks:
  assumes "plain_io j io" "2 \<le> outDone r"
  shows "runCommandJob scripts j t io i l r = None"
proof -
  obtain outs where outs: "ioEvents io = map OutputLine outs @ [CommandDone]" "int (length outs) \<le> MaxResults j"
    using assms(1) by (auto simp: plain_io_def)
  obtain s' where "command_loop j t i l (ioEvents io) \<lparr>csRun = r, csCount = 0, csTriggered = []\<rparr> = Some s'" "outDone (csRun s') = outDone r"
    using command_loop_plain [of "\<lparr>csRun = r, csCount = 0, csTriggered = []\<rparr>" outs j t i l] outs by auto
  then show ?thesis using assms by (auto simp: runCommandJob_def plain_io_def signal_out_done_def Let_def split: prod.split)
qed

lemma run_iterations_plain:
  assumes "\<And>i. plain_io j (rioCmd io i)" "commandTask j = Some t" "\<not> stopped r" "\<not> finished r" "i + int n = cnt" "outDone r = nat i" "0 \<le> i" "0 < n"
  shows "run_iterations (job_step tf jm j io) cnt n i r ts = None \<longleftrightarrow> 3 \<le> cnt"
    and "run_iterations (job_step tf jm j io) cnt n i r ts = Some (r', ts', k) \<Longrightarrow> finished r' \<and> \<not> stopped r' \<and> k = cnt"
proof -
  have "(run_iterations (job_step tf jm j io) cnt n i r ts = None \<longleftrightarrow> 3 \<le> cnt) \<and>
    (\<forall>r' ts' k. run_iterations (job_step tf jm j io) cnt n i r ts = Some (r', ts', k) \<longrightarrow> finished r' \<and> \<not> stopped r' \<and> k = cnt)"
    if "i \<le> 2" using assms(3-8) that
  proof (induction n arbitrary: i r ts)
    case (Suc n)
    show ?case
    proof (cases "i = 2")
      case True
      then have "job_step tf jm j io (i + 1) (i = cnt - 1) r = None"
        using runCommandJob_blocks [OF assms(1) [of "i + 1"]] Suc.prems(4) assms(2) by (simp add: job_step_def)
      then show ?thesis using True Suc.prems(3) by simp
    next
      case False
      then have two: "outDone r < 2" using Suc.prems(4,5,7) by simp
      obtain r1 ts1 where step: "job_step tf jm j io (i + 1) (i = cnt - 1) r = Some (r1, ts1)" "\<not> stopped r1" "finished r1 = (i = cnt - 1)"
        "outDone r1 = outDone r + 1"
        using runCommandJob_plain [OF assms(1) [of "i + 1"] two, of "jobScripts jm" t "i + 1" "i = cnt - 1"] Suc.prems(1,2) assms(2)
        by (auto simp: job_step_def)
      show ?thesis
      proof (cases "n = 0")
        case True
        then show ?thesis using step False Suc.prems(3,7) by auto
      next
        case more: False
        then have "i \<noteq> cnt - 1" using Suc.prems(3) by auto
        moreover have "(run_iterations (job_step tf jm j io) cnt n (i + 1) r1 (ts @ ts1) = None \<longleftrightarrow> 3 \<le> cnt) \<and>
          (\<forall>r' ts' k. run_iterations (job_step tf jm j io) cnt n (i + 1) r1 (ts @ ts1) = Some (r', ts', k) \<longrightarrow> finished r' \<and> \<not> stopped r' \<and> k = cnt)"
          using step Suc.prems more False \<open>i \<noteq> cnt - 1\<close> by (intro Suc.IH) auto
        ultimately show ?thesis using step by simp
      qed
    qed
  qed simp
  moreover have "3 \<le> cnt \<and> run_iterations (job_step tf jm j io) cnt n i r ts = None" if "2 < i"
  proof -
    obtain n' where n': "n = Suc n'" using assms(8) by (cases n) auto
    have "job_step tf jm j io (i + 1) (i = cnt - 1) r = None"
      using runCommandJob_blocks [OF assms(1)] that assms(2,6) by (simp add: job_step_def)
    then show ?thesis using n' that assms(5) by simp
  qed
  ultimately show "run_iterations (job_step tf jm j io) cnt n i r ts = None \<longleftrightarrow> 3 \<le> cnt"
    and "run_iterations (job_step tf jm j io) cnt n i r ts = Some (r', ts', k) \<Longrightarrow> finished r' \<and> \<not> stopped r' \<and> k = cnt"
    by (cases "i \<le> 2"; force)+
qed

text \<open>C13: A run of a command job whose commands all start and end undisturbed returns exactly if the job has at most two iterations, and is then
  finished after all of them. With three or more the run blocks in the third iteration, because nothing takes the signals
  that it sends at the end of an iteration: the remaining iterations are never run, and the jobs that its end should trigger are not started.\<close>
theorem run_blocks_in_third_iteration:
  assumes "\<And>i. plain_io j (rioCmd io i)" and "jobObjs jm ! a = j" and "commandTask j = Some t" and "1 \<le> jbCount j"
    and "ra < length (runObjs jm)" and "runObjs jm ! ra = new_run name args ms raw n"
  shows "(executeJobRun tf io a ra jm = None \<longleftrightarrow> 3 \<le> jbCount j) \<and>
    (\<forall>jm' k ts. executeJobRun tf io a ra jm = Some (jm', k, ts) \<longrightarrow> k = jbCount j \<and> finished (runObjs jm' ! ra) \<and> \<not> stopped (runObjs jm' ! ra))"
proof -
  define r where "r = (case args of None \<Rightarrow> (new_run name args ms raw n)\<lparr>jobArgs := Some (ctArgs t)\<rparr> | Some _ \<Rightarrow> new_run name args ms raw n)"
  have r: "\<not> stopped r" "\<not> finished r" "outDone r = nat 0" by (auto simp: r_def new_run_def split: option.split)
  have count: "0 + int (nat (jbCount j)) = jbCount j" "0 < nat (jbCount j)" using assms(4) by auto
  let ?run = "run_iterations (job_step tf jm j io) (jbCount j) (nat (jbCount j)) 0 r []"
  have ex: "executeJobRun tf io a ra jm = (case ?run of
        None \<Rightarrow> None
      | Some (r, ts, n) \<Rightarrow>
          (let jm = upd_run ra (\<lambda>_. r\<lparr>stopClosed := True, doneClosed := True\<rparr>) jm in
           Some (jm, n, ts @ (case FinishTrigger j of
                                None \<Rightarrow> []
                              | Some tr \<Rightarrow> [\<lparr>tgName = jtName tr, tgMarkers = [], tgInput = finish_input tf io j tr jm\<rparr>]))))"
    using assms(2,3,6) by (simp add: executeJobRun_def r_def new_run_def Let_def split: option.split)
  note plain = run_iterations_plain [where io = io and jm = jm and tf = tf and ts = "[]", OF assms(1,3) r(1,2) count(1) r(3) _ count(2)]
  show ?thesis
  proof (cases ?run)
    case None
    then show ?thesis using plain(1) by (simp add: ex)
  next
    case (Some x)
    obtain r' ts' k where x: "x = (r', ts', k)" by (metis prod_cases3)
    then show ?thesis using plain(1) plain(2) [of r' ts' k] Some assms(5) by (auto simp: ex Let_def upd_run_def)
  qed
qed

definition sample_io :: "string list \<Rightarrow> cmd_io" where
  "sample_io outs = \<lparr>ioPipes = True, ioStart = \<lambda>_ _. True, ioEvents = map OutputLine outs @ [CommandDone], ioRest = [], ioTaken = 0\<rparr>"

definition sample_job :: "int \<Rightarrow> job" where
  "sample_job n = (script_job ''job'')\<lparr>jbCount := n, MaxResults := 20\<rparr>"

definition sample_run_io :: "cmd_io \<Rightarrow> run_io" where
  "sample_run_io c = \<lparr>rioCmd = \<lambda>_. c, rioHttp = \<lambda>_. \<lparr>hioRegistered = True, hioEvents = [HDone], hioRest = [], hioTaken = 0\<rparr>, rioSprint = \<lambda>_. []\<rparr>"

definition sample_jobs :: "job \<Rightarrow> job_manager" where
  "sample_jobs j = fst (initJobRun 0 None [] None (fst (AddJob j new_manager)))"

lemma sample_jobs_run:
  assumes "commandTask j \<noteq> None \<or> httpTask j \<noteq> None" "jobRunCounter j = 0"
  shows "jobObjs (sample_jobs j) ! 0 = j\<lparr>jobRunCounter := 1\<rparr>" "0 < length (runObjs (sample_jobs j))"
    "runObjs (sample_jobs j) ! 0 = new_run (jbName j) None [] None 1" "mget (jobs (sample_jobs j)) (jbName j) = Some 0"
    "mget (jobRuns (sample_jobs j)) (jbName j) = Some [(1, 0)]"
  using assms by (auto simp: sample_jobs_def initJobRun_def AddJob_def new_manager_def upd_job_def Let_def)

theorem run_blocks_in_third_iteration_witness:
  "executeJobRun (\<lambda>_ _ _. []) (sample_run_io (sample_io [''line''])) 0 0 (sample_jobs (sample_job 3)) = None \<and>
   executeJobRun (\<lambda>_ _ _. []) (sample_run_io (sample_io [''line''])) 0 0 (sample_jobs (sample_job 2)) \<noteq> None"
proof -
  have job: "commandTask (sample_job n) = Some \<lparr>ctCmd = [], ctScript = ''job'', ctArgs = [], OutputMarkers = [], OutputSeparator = [], ctFillers = []\<rparr>"
    "jobRunCounter (sample_job n) = 0" for n by (simp_all add: sample_job_def script_job_def)
  have io: "plain_io (sample_job n\<lparr>jobRunCounter := 1\<rparr>) (rioCmd (sample_run_io (sample_io [''line''])) i)" for n i
    by (auto simp: plain_io_def sample_run_io_def sample_io_def sample_job_def script_job_def intro!: exI [of _ "[''line'']"])
  have blocks: "executeJobRun (\<lambda>_ _ _. []) (sample_run_io (sample_io [''line''])) 0 0 (sample_jobs (sample_job n)) = None \<longleftrightarrow> 3 \<le> n"
    if "1 \<le> n" for n
  proof -
    note s = sample_jobs_run [of "sample_job n"]
    have j: "jobObjs (sample_jobs (sample_job n)) ! 0 = sample_job n\<lparr>jobRunCounter := 1\<rparr>" using s(1) job by simp
    have t: "commandTask (sample_job n\<lparr>jobRunCounter := 1\<rparr>) =
      Some \<lparr>ctCmd = [], ctScript = ''job'', ctArgs = [], OutputMarkers = [], OutputSeparator = [], ctFillers = []\<rparr>" using job by simp
    have c: "jbCount (sample_job n\<lparr>jobRunCounter := 1\<rparr>) = n" by (simp add: sample_job_def)
    have "1 \<le> jbCount (sample_job n\<lparr>jobRunCounter := 1\<rparr>)" using c that by simp
    from conjunct1 [OF run_blocks_in_third_iteration [OF io j t this s(2,3)]] show ?thesis using job unfolding c by simp
  qed
  show ?thesis using blocks [of 3] blocks [of 2] by simp
qed

text \<open>An HTTP job marks its run finished at the end of every iteration.\<close>

definition ends_http :: "http_event list \<Rightarrow> bool" where
  "ends_http es \<longleftrightarrow> HDone \<in> set es \<or> HStop \<in> set es \<or> HTimeout \<in> set es"

lemma storeResult_total:
  assumes "OutputTrigger j = None"
  shows "\<exists>s' c. storeResult tf look j i l res s = Some (s', c) \<and> outDone (csRun s') = outDone (csRun s) \<and> finished (csRun s') = finished (csRun s)"
  using assms by (auto simp: storeResult_def storeHttpResult_def Let_def split: option.split)

lemma http_loop_total:
  assumes "OutputTrigger j = None" "ends_http es"
  shows "\<exists>s'. http_loop tf look j i l es s = Some s' \<and> outDone (csRun s') = outDone (csRun s)"
  using assms(2)
proof (induction es arbitrary: s)
  case (Cons e es)
  show ?case
  proof (cases e)
    case (HResult res)
    obtain s' c where s': "storeResult tf look j i l res s = Some (s', c)" "outDone (csRun s') = outDone (csRun s)"
      using storeResult_total [OF assms(1)] by blast
    have "ends_http es" using Cons.prems HResult by (simp add: ends_http_def)
    then show ?thesis using Cons.IH [of "if c then s' else stopCommand s'"] s' HResult by (simp add: stopCommand_def split: if_splits)
  qed (simp_all add: stopCommand_def)
qed (simp add: ends_http_def)

lemma http_rest_total:
  assumes "OutputTrigger j = None"
  shows "\<exists>s'. http_rest tf look j i l hs s = Some s' \<and> outDone (csRun s') = outDone (csRun s) \<and> finished (csRun s') = finished (csRun s)"
proof (induction hs arbitrary: s)
  case (Cons h hs)
  obtain s' c where s': "storeResult tf look j i l (Some h) s = Some (s', c)" "outDone (csRun s') = outDone (csRun s)"
    "finished (csRun s') = finished (csRun s)"
    using storeResult_total [OF assms] by blast
  then show ?case using Cons.IH [of s'] by simp
qed simp

lemma invokeHttpTarget_finishes:
  assumes "OutputTrigger j = None" "hioRegistered io" "ends_http (hioEvents io)" "outDone r < 2"
  shows "\<exists>r' ts. invokeHttpTarget tf look j io i l r = Some (r', ts) \<and> finished r'"
proof -
  obtain s where s: "http_loop tf look j i l (hioEvents io) \<lparr>csRun = r, csCount = 0, csTriggered = []\<rparr> = Some s" "outDone (csRun s) = outDone r"
    using http_loop_total [OF assms(1,3)] by fastforce
  obtain s' where "http_rest tf look j i l (hioRest io) (s\<lparr>csRun := (csRun s)\<lparr>finished := True\<rparr>\<rparr>) = Some s'" "outDone (csRun s') = outDone r" "finished (csRun s')"
    using http_rest_total [OF assms(1), of tf look i l "hioRest io" "s\<lparr>csRun := (csRun s)\<lparr>finished := True\<rparr>\<rparr>"] s(2) by auto
  then show ?thesis using s assms(2,4) by (auto simp: invokeHttpTarget_def signal_out_done_def Let_def)
qed

text \<open>C14: A run of an HTTP job without an output trigger whose invocation can be registered and ends has exactly one iteration, whatever count the
  job has: the run is marked finished after the first invocation.\<close>
theorem http_job_runs_once:
  assumes "jobObjs jm ! a = j" "commandTask j = None" "httpTask j = Some h" "OutputTrigger j = None" "1 \<le> jbCount j"
    and "hioRegistered (rioHttp io 1)" "ends_http (hioEvents (rioHttp io 1))" "runObjs jm ! ra = new_run name args ms raw n" "ra < length (runObjs jm)"
  shows "\<exists>jm' ts. executeJobRun tf io a ra jm = Some (jm', 1, ts) \<and> finished (runObjs jm' ! ra)"
proof -
  let ?r = "new_run name args ms raw n"
  obtain r' ts where "invokeHttpTarget tf (find_job jm) j (rioHttp io 1) 1 (0 = jbCount j - 1) ?r = Some (r', ts)" "finished r'"
    using invokeHttpTarget_finishes [OF assms(4,6,7), of ?r] by (fastforce simp: new_run_def)
  then have "job_step tf jm j io (0 + 1) (0 = jbCount j - 1) ?r = Some (r', ts)" using assms(2,3) by (simp add: job_step_def)
  moreover obtain m where "nat (jbCount j) = Suc m" using assms(5) by (cases "nat (jbCount j)") auto
  ultimately have "run_iterations (job_step tf jm j io) (jbCount j) (nat (jbCount j)) 0 ?r [] = Some (r', ts, 1)"
    using \<open>finished r'\<close> by simp
  then show ?thesis using assms(1,2,8,9) \<open>finished r'\<close> by (simp add: executeJobRun_def Let_def upd_run_def)
qed

definition sample_http_job :: job where
  "sample_http_job = (sample_job 5)\<lparr>commandTask := None, httpTask := Some \<lparr>htName = ''target'', htTransforms = []\<rparr>\<rparr>"

theorem http_job_runs_once_witness:
  "\<exists>jm' ts. executeJobRun (\<lambda>_ _ _. []) (sample_run_io (sample_io [])) 0 0 (sample_jobs sample_http_job) = Some (jm', 1, ts) \<and>
     jbCount sample_http_job = 5 \<and> finished (runObjs jm' ! 0)"
proof -
  have j: "commandTask sample_http_job = None" "httpTask sample_http_job = Some \<lparr>htName = ''target'', htTransforms = []\<rparr>"
    "OutputTrigger sample_http_job = None" "jbCount sample_http_job = 5" "jobRunCounter sample_http_job = 0"
    by (simp_all add: sample_http_job_def sample_job_def script_job_def)
  have io: "hioRegistered (rioHttp (sample_run_io (sample_io [])) 1)" "ends_http (hioEvents (rioHttp (sample_run_io (sample_io [])) 1))"
    by (simp_all add: sample_run_io_def ends_http_def)
  note s = sample_jobs_run [of sample_http_job]
  show ?thesis
    using http_job_runs_once [OF s(1) _ _ _ _ io s(3,2), of _ "\<lambda>_ _ _. []"] j by simp
qed

section \<open>Stopping\<close>

text \<open>A run that is over but neither finished nor stopped: its channels are closed.\<close>

definition over :: "job_run \<Rightarrow> bool" where
  "over r \<longleftrightarrow> doneClosed r \<and> doneSignals r = 0 \<and> stopClosed r \<and> \<not> finished r \<and> \<not> stopped r"

lemma stop_runs_over:
  assumes "(n, ra) \<in> set runs" "ra < length (runObjs jm)" "over (runObjs jm ! ra)"
  shows "stop_runs a runs isDone jm = None"
  using assms
proof (induction runs arbitrary: isDone jm)
  case (Cons x runs)
  obtain m rb where x: "x = (m, rb)" by fastforce
  show ?case
  proof (cases "rb = ra")
    case True
    then have "stop_run isDone (runObjs jm ! rb) = None" using Cons.prems(3) by (simp add: stop_run_def take_done_def over_def)
    then show ?thesis by (simp add: x)
  next
    case False
    then have "(n, ra) \<in> set runs" using Cons.prems(1) x by auto
    moreover have "runObjs (if P then (upd_job a f (upd_run rb g jm))\<lparr>cronRunning := c\<rparr> else upd_run rb g jm) ! ra = runObjs jm ! ra"
      "length (runObjs (if P then (upd_job a f (upd_run rb g jm))\<lparr>cronRunning := c\<rparr> else upd_run rb g jm)) = length (runObjs jm)" for P f g c
      using False by (simp_all add: upd_job_def upd_run_def)
    ultimately have "stop_runs a runs d (if P then (upd_job a f (upd_run rb g jm))\<lparr>cronRunning := c\<rparr> else upd_run rb g jm) = None" for d P f g c
      using Cons.prems(2,3) by (intro Cons.IH) simp_all
    then show ?thesis unfolding x by (simp add: Let_def split: option.split prod.split)
  qed
qed simp

lemma run_iterations_failing:
  assumes "\<And>i l r. job_step tf jm j io i l r = Some (storeJobResult j i d l r, [])" "\<not> stopped r" "\<not> finished r"
  shows "\<exists>r'. run_iterations (job_step tf jm j io) cnt n i r ts = Some (r', ts, i + int n) \<and> \<not> stopped r' \<and> \<not> finished r' \<and> doneSignals r' = doneSignals r"
  using assms(2,3)
proof (induction n arbitrary: i r)
  case (Suc n)
  then show ?case using Suc.IH [of "storeJobResult j (i + 1) d (i = cnt - 1) r" "i + 1"] by (simp add: assms(1) algebra_simps)
qed simp

text \<open>C15: When the command of a job cannot be started, the run ends after all iterations with neither the mark for finished nor for stopped, and
  with its channels closed. Stopping the job then sends to a closed channel, which panics.\<close>
theorem stop_failed_job_panics:
  assumes "jobObjs jm ! a = j" "commandTask j = Some t" "0 \<le> jbCount j" "FinishTrigger j = None"
    and "\<And>i. ioPipes (rioCmd io i)" "\<And>i cmd args. \<not> ioStart (rioCmd io i) cmd args"
    and "mget (jobs jm) name = Some a" "mget (jobRuns jm) name = Some runs" "(n, ra) \<in> set runs"
    and "ra < length (runObjs jm)" "runObjs jm ! ra = new_run name args ms raw n"
  shows "\<exists>jm'. executeJobRun tf io a ra jm = Some (jm', jbCount j, []) \<and> stopJob name jm' = None"
proof -
  define r where "r = (case args of None \<Rightarrow> (new_run name args ms raw n)\<lparr>jobArgs := Some (ctArgs t)\<rparr> | Some _ \<Rightarrow> new_run name args ms raw n)"
  have r: "\<not> stopped r" "\<not> finished r" "doneSignals r = 0" by (auto simp: r_def new_run_def split: option.split)
  have step: "job_step tf jm j io i l q = Some (storeJobResult j i (Text ''failed to execute command'') l q, [])" for i l q
    using assms(2,5,6) by (simp add: job_step_def runCommandJob_def split: prod.split)
  from run_iterations_failing [OF step r(1,2), of "jbCount j" "nat (jbCount j)" 0 "[]"] obtain r' where
    r': "run_iterations (job_step tf jm j io) (jbCount j) (nat (jbCount j)) 0 r [] = Some (r', [], jbCount j)" "\<not> stopped r'" "\<not> finished r'" "doneSignals r' = 0"
    using r(3) assms(3) by auto
  define jm' where "jm' = upd_run ra (\<lambda>_. r'\<lparr>stopClosed := True, doneClosed := True\<rparr>) jm"
  have "executeJobRun tf io a ra jm = Some (jm', jbCount j, [])"
    using assms(1,2,4,11) r'(1) by (cases args) (simp_all add: executeJobRun_def r_def new_run_def jm'_def Let_def)
  moreover have "over (runObjs jm' ! ra)" "ra < length (runObjs jm')" using r' assms(10) by (simp_all add: jm'_def upd_run_def over_def)
  then have "stop_runs a runs False jm' = None" by (intro stop_runs_over [OF assms(9)])
  then have "stopJob name jm' = None" using assms(7,8) by (simp add: stopJob_def jm'_def upd_run_def)
  ultimately show ?thesis by blast
qed

theorem stop_failed_job_panics_witness:
  "\<exists>jm'. executeJobRun (\<lambda>_ _ _. []) (sample_run_io ((sample_io [])\<lparr>ioStart := \<lambda>_ _. False\<rparr>)) 0 0 (sample_jobs (sample_job 1)) = Some (jm', 1, []) \<and>
     stopJob ''job'' jm' = None"
proof -
  let ?io = "sample_run_io ((sample_io [])\<lparr>ioStart := \<lambda>_ _. False\<rparr>)" and ?j = "(sample_job 1)\<lparr>jobRunCounter := 1\<rparr>"
  note s = sample_jobs_run [of "sample_job 1"]
  have j: "commandTask ?j = Some \<lparr>ctCmd = [], ctScript = ''job'', ctArgs = [], OutputMarkers = [], OutputSeparator = [], ctFillers = []\<rparr>"
    "0 \<le> jbCount ?j" "FinishTrigger ?j = None" "jbCount ?j = 1" "jbName (sample_job 1) = ''job''" "commandTask (sample_job 1) \<noteq> None"
    "jobRunCounter (sample_job 1) = 0"
    by (simp_all add: sample_job_def script_job_def)
  have io: "ioPipes (rioCmd ?io i)" "\<not> ioStart (rioCmd ?io i) cmd args" for i cmd args by (simp_all add: sample_run_io_def sample_io_def)
  have t: "jobObjs (sample_jobs (sample_job 1)) ! 0 = ?j" "0 < length (runObjs (sample_jobs (sample_job 1)))"
    "runObjs (sample_jobs (sample_job 1)) ! 0 = new_run ''job'' None [] None 1" "mget (jobs (sample_jobs (sample_job 1))) ''job'' = Some 0"
    "mget (jobRuns (sample_jobs (sample_job 1))) ''job'' = Some [(1, 0)]"
    using s j(5-7) by simp_all
  show ?thesis using stop_failed_job_panics [OF t(1) j(1-3) io t(4,5) _ t(2,3)] j(4) by simp
qed

section \<open>Names of jobs\<close>

text \<open>The names of jobs in the path of a request are not looked at, because they are read from the query: without a query parameter \<open>jobs\<close>, a
  request to remove a job is rejected with 406, one to run a job starts all jobs, and one to stop a job stops all jobs, whatever its path says.\<close>
theorem named_jobs_ignored:
  assumes "mget (reqQuery r) ''jobs'' = None"
  shows "removeJob r jm = (jm, WriteHeader 406 no_out) \<and> fst (runJobs_api r jm) = map snd (jobs jm) \<and>
    stopJobs_api r jm = stop_all (map fst (jobs jm)) jm"
  using assms by (simp add: removeJob_def runJobs_api_def stopJobs_api_def getJobsToRun_def GetListParam_def mget_or_def Let_def)

theorem named_jobs_ignored_witness:
  "\<exists>r. mget (reqVars r) ''jobs'' = Some ''job'' \<and> removeJob r (sample_jobs (sample_job 1)) = (sample_jobs (sample_job 1), WriteHeader 406 no_out)"
proof -
  let ?r = "\<lparr>reqPort = ''8080'', reqPortNum = 8080, RequestURI = ''/jobs/job/remove'', URLPath = ''/jobs/job/remove'', reqMethod = ''POST'', reqHeaders = [],
     reqVars = [(''jobs'', ''job'')], reqQuery = [], IsKnownNonTraffic = True, IsAdminRequest = True\<rparr>"
  have "mget (reqQuery ?r) ''jobs'' = None" by simp
  from conjunct1 [OF named_jobs_ignored [OF this]] show ?thesis by (intro exI [of _ ?r]) simp
qed

end
