(* ===== verification/Invocation_Spec.thy ===== *)
theory Invocation_Spec
  imports Util_Params
begin

text \<open>
  What is invoked (\<open>InvocationSpec\<close> in \<open>pkg/invocation/configure.go\<close>) and its validation. The durations as texts with their values, and
  what is derived from the protocol, are records of their own. \<open>time.ParseDuration\<close>, the compilation of regular expressions, decoding of
  base64, the host of a URL and the certificates are fields of an environment; \<open>seSizes\<close> is the table of size units in the order in which
  it is visited. A regular expression that does not compile, and a null assertion, panic: \<open>None\<close>.
\<close>

section \<open>Specifications\<close>

record assertion =
  asStatusCode :: int
  asPayloadSize :: int
  asPayload :: string
  asHeaders :: "(string, string) gomap"
  asRetries :: int
  asFailedURL :: string
  asSuccessURL :: string
  asRegexps :: "(string, string option) gomap"
  asBytes :: string

record request_id =
  riSend :: bool
  riUUID :: bool
  riHeader :: string
  riQuery :: string

record spec_proto =
  spTcp :: bool
  spGrpc :: bool
  spHttp :: bool
  spH2 :: bool
  spMajor :: int
  spMinor :: int

record spec_times =
  spInitialDelay :: "string \<times> int"
  spDelay :: "string \<times> int"
  spRetryDelay :: "string \<times> int"
  spKeepOpen :: "string \<times> int"
  spStreamDelay :: "string \<times> int"
  spConnTimeout :: "string \<times> int"
  spConnIdleTimeout :: "string \<times> int"
  spRequestTimeout :: "string \<times> int"

record invocation_spec =
  spName :: string
  spProtocol :: string
  spMethod :: string
  spHost :: string
  spService :: string
  spURL :: string
  spBURLS :: "string list"
  spHeaders :: "(string, string) gomap option"
  spLowerHeaders :: bool
  spBody :: string
  spAutoPayload :: string
  spReplicas :: int
  spRequestCount :: int
  spWarmupCount :: int
  spRetries :: int
  spRetriable :: "int list"
  spSendID :: bool
  spRequestId :: "request_id option"
  spAutoInvoke :: bool
  spFallback :: bool
  spAB :: bool
  spRandom :: bool
  spStreamPayload :: "string list"
  spBinary :: bool
  spCollectResponse :: bool
  spTrackPayload :: bool
  spAssertions :: "assertion option list"
  spTLS :: bool
  spTLSVersion :: int
  spClientCert :: string
  spLongRunning :: bool
  spTimes :: spec_times
  spProto :: spec_proto
  spAuthority :: string
  spAutoPayloadSize :: int

datatype spec_error = NoName | NoURL | NoBURL | BadReplicas | BadRequestCount | CountBelowReplicas | BadDuration | BadAutoPayload | NoCert

record spec_env =
  seDuration :: "string \<Rightarrow> int option"
  seRegexp :: "string \<Rightarrow> bool"
  seBase64 :: "string \<Rightarrow> string option"
  seHost :: "string \<Rightarrow> string option"
  seCert :: "string \<Rightarrow> bool"
  seSizes :: "(string \<times> int) list"

section \<open>Traffic, connection and payload\<close>

text \<open>A duration that is given has to parse; otherwise the default text and value are taken.\<close>

definition duration_or :: "spec_env \<Rightarrow> string \<times> int \<Rightarrow> string \<times> int \<Rightarrow> (string \<times> int) option" where
  "duration_or e t d = (if fst t = [] then Some d else map_option (Pair (fst t)) (seDuration e (fst t)))"

definition validateTrafficConfig :: "spec_env \<Rightarrow> invocation_spec \<Rightarrow> spec_error + invocation_spec" where
  "validateTrafficConfig e s =
     (let method = (if spMethod s = [] then ''GET'' else spMethod s);
          replicas = (if spReplicas s = 0 then 1 else spReplicas s);
          cnt = (if spRequestCount s = 0 then 1 else spRequestCount s);
          t = spTimes s in
      if spName s = [] then Inl NoName
      else if spURL s = [] then Inl NoURL
      else if (spAB s \<or> spFallback s \<or> spRandom s) \<and> spBURLS s = [] then Inl NoBURL
      else if spReplicas s < 0 then Inl BadReplicas
      else if spRequestCount s < 0 then Inl BadRequestCount
      else if cnt < replicas then Inl CountBelowReplicas
      else case (duration_or e (spInitialDelay t) (spInitialDelay t), duration_or e (spDelay t) (''10ms'', 10000000),
                 duration_or e (spRetryDelay t) (''1s'', 1000000000), duration_or e (spKeepOpen t) (spKeepOpen t)) of
             (Some i, Some d, Some r, Some k) \<Rightarrow>
               Inr (s\<lparr>spMethod := method, spReplicas := replicas, spRequestCount := cnt,
                      spTimes := t\<lparr>spInitialDelay := i, spDelay := d, spRetryDelay := r, spKeepOpen := k\<rparr>\<rparr>)
           | _ \<Rightarrow> Inl BadDuration)"

definition validateConnectionAndRequestConfigs :: "spec_env \<Rightarrow> invocation_spec \<Rightarrow> spec_error + invocation_spec" where
  "validateConnectionAndRequestConfigs e s =
     (let t = spTimes s in
      case (duration_or e (spConnTimeout t) (''5s'', 5000000000), duration_or e (spConnIdleTimeout t) (''5m'', 300000000000),
            duration_or e (spRequestTimeout t) (''5m'', 300000000000)) of
        (Some c, Some i, Some r) \<Rightarrow>
          (if spClientCert s \<noteq> [] \<and> \<not> seCert e (spClientCert s) then Inl NoCert
           else Inr (s\<lparr>spTLSVersion := (if spTLSVersion s = 0 then 772 else spTLSVersion s),
                       spTimes := t\<lparr>spConnTimeout := c, spConnIdleTimeout := i, spRequestTimeout := r\<rparr>\<rparr>))
      | _ \<Rightarrow> Inl BadDuration)"

text \<open>A size with a unit; the first unit of the table that occurs is taken.\<close>

definition validatePayload :: "spec_env \<Rightarrow> invocation_spec \<Rightarrow> spec_error + invocation_spec" where
  "validatePayload e s =
     (let n = (if spAutoPayload s \<noteq> [] then ParseSize (seSizes e) (spAutoPayload s) else spAutoPayloadSize s) in
      if spAutoPayload s \<noteq> [] \<and> n \<le> 0 then Inl BadAutoPayload
      else case duration_or e (spStreamDelay (spTimes s)) (''10ms'', 10000000) of
             Some d \<Rightarrow> Inr (s\<lparr>spAutoPayloadSize := n, spTimes := (spTimes s)\<lparr>spStreamDelay := d\<rparr>\<rparr>)
           | None \<Rightarrow> Inl BadDuration)"

section \<open>Protocol\<close>

text \<open>\<open>http.ParseHTTPVersion\<close>: the texts \<open>HTTP/X.Y\<close> with one digit each.\<close>

definition ParseHTTPVersion :: "string \<Rightarrow> (int \<times> int) option" where
  "ParseHTTPVersion v =
     (if HasPrefix v ''HTTP/'' \<and> length v = 8 \<and> v ! 6 = CHR ''.''
      then (case (digit_of (v ! 5), digit_of (v ! 7)) of (Some a, Some b) \<Rightarrow> Some (a, b) | _ \<Rightarrow> None)
      else None)"

definition set_version :: "int \<Rightarrow> int \<Rightarrow> invocation_spec \<Rightarrow> invocation_spec" where
  "set_version a b s = s\<lparr>spProto := (spProto s)\<lparr>spMajor := a, spMinor := b\<rparr>\<rparr>"

definition is_h2_name :: "string \<Rightarrow> bool" where
  "is_h2_name p \<longleftrightarrow> EqualFold p ''HTTP/2'' \<or> EqualFold p ''HTTP/2.0'' \<or> EqualFold p ''H2'' \<or> EqualFold p ''H2C''"

text \<open>What a protocol that is given says.\<close>

definition named_protocol :: "invocation_spec \<Rightarrow> invocation_spec" where
  "named_protocol s =
     (let p = spProtocol s in
      if p = [] then s
      else if EqualFold p ''tcp'' then set_version 0 0 (s\<lparr>spProto := (spProto s)\<lparr>spTcp := True\<rparr>\<rparr>)
      else if EqualFold p ''grpc'' \<or> EqualFold p ''grpcs'' then
        set_version 2 0 (s\<lparr>spTLS := EqualFold p ''grpcs'', spProto := (spProto s)\<lparr>spGrpc := True\<rparr>\<rparr>)
      else case ParseHTTPVersion p of
             Some (a, b) \<Rightarrow>
               (if a = 1 \<and> (b = 0 \<or> b = 1) then set_version a b s else if a = 2 then set_version 2 0 s else s)
           | None \<Rightarrow>
               (if is_h2_name p then set_version 2 0 s
                else if HasPrefix (ToLower (spURL s)) ''http'' then set_version 1 1 (s\<lparr>spProto := (spProto s)\<lparr>spHttp := True\<rparr>\<rparr>)
                else s))"

definition processProtocol :: "invocation_spec \<Rightarrow> invocation_spec" where
  "processProtocol s =
     (let s = named_protocol s; p = spProto s;
          s = (if \<not> spTcp p \<and> spMajor p = 0 then (set_version 1 1 s)\<lparr>spProtocol := ''HTTP/1.1''\<rparr>
               else if spMajor p = 2 then s\<lparr>spProto := p\<lparr>spH2 := True\<rparr>\<rparr> else s);
          p = spProto s;
          s = (if \<not> spTcp p \<and> \<not> spGrpc p then s\<lparr>spProto := p\<lparr>spHttp := True\<rparr>\<rparr> else s);
          s = (if HasPrefix (ToLower (spURL s)) ''https'' then s\<lparr>spTLS := True\<rparr> else s)
      in if spHttp (spProto s) \<and> \<not> HasPrefix (spURL s) ''http'' then s\<lparr>spURL := ''http://'' @ spURL s\<rparr> else s)"

text \<open>The headers are visited in the order of the table; the last one named host is taken.\<close>

definition processAuthority :: "spec_env \<Rightarrow> invocation_spec \<Rightarrow> invocation_spec" where
  "processAuthority e s =
     (let hs = (case spHeaders s of None \<Rightarrow> [] | Some hs \<Rightarrow> hs);
          a = (if spHost s = [] then fold (\<lambda>(h, v) a. if EqualFold h ''host'' then v else a) hs [] else spHost s);
          a = (if a = [] then (case seHost e (spURL s) of Some h \<Rightarrow> h | None \<Rightarrow> []) else a)
      in s\<lparr>spAuthority := a\<rparr>)"

section \<open>Assertions\<close>

fun assertion_regexps :: "spec_env \<Rightarrow> (string \<times> string) list \<Rightarrow> (string, string option) gomap \<Rightarrow> (string, string option) gomap option" where
  "assertion_regexps e [] m = Some m"
| "assertion_regexps e ((h, hv) # hs) m =
     (if h = [] then assertion_regexps e hs m
      else if hv = [] then assertion_regexps e hs (mput (ToLower h) None m)
      else if seRegexp e (''(?i)'' @ hv) then assertion_regexps e hs (mput (ToLower h) (Some (''(?i)'' @ hv)) m)
      else None)"

definition prepare_assertion :: "spec_env \<Rightarrow> bool \<Rightarrow> assertion \<Rightarrow> assertion option" where
  "prepare_assertion e binary a =
     (let a = (if asPayload a = [] then a
               else
                 (let b = (if binary then (case seBase64 e (asPayload a) of Some b \<Rightarrow> b | None \<Rightarrow> asPayload a) else asPayload a)
                  in a\<lparr>asBytes := b, asPayloadSize := int (length b)\<rparr>))
      in if asHeaders a = [] then Some a
         else map_option (\<lambda>m. a\<lparr>asRegexps := m\<rparr>) (assertion_regexps e (asHeaders a) []))"

fun prepareAssertions :: "spec_env \<Rightarrow> assertion option list \<Rightarrow> invocation_spec \<Rightarrow> (assertion option list \<times> invocation_spec) option" where
  "prepareAssertions e [] s = Some ([], s)"
| "prepareAssertions e (None # as) s = None"
| "prepareAssertions e (Some a # as) s =
     (case prepare_assertion e (spBinary s) a of
        None \<Rightarrow> None
      | Some a \<Rightarrow>
          map_option (\<lambda>(as, s). (Some a # as, s))
            (prepareAssertions e as (if 0 < asPayloadSize a then s\<lparr>spCollectResponse := True, spTrackPayload := True\<rparr> else s)))"

definition ValidateSpec :: "spec_env \<Rightarrow> invocation_spec \<Rightarrow> (spec_error + invocation_spec) option" where
  "ValidateSpec e s =
     (case validateTrafficConfig e s of
        Inl x \<Rightarrow> Some (Inl x)
      | Inr s \<Rightarrow>
          (case validateConnectionAndRequestConfigs e s of
             Inl x \<Rightarrow> Some (Inl x)
           | Inr s \<Rightarrow>
               (case validatePayload e s of
                  Inl x \<Rightarrow> Some (Inl x)
                | Inr s \<Rightarrow>
                    (let s = processAuthority e (processProtocol s) in
                     map_option (\<lambda>(as, s). Inr (s\<lparr>spAssertions := as\<rparr>)) (prepareAssertions e (spAssertions s) s)))))"

section \<open>What validation ensures\<close>

definition fresh_proto :: spec_proto where
  "fresh_proto = \<lparr>spTcp = False, spGrpc = False, spHttp = False, spH2 = False, spMajor = 0, spMinor = 0\<rparr>"

text \<open>Exactly one kind of client, the version that belongs to it, and a URL with a scheme for HTTP.\<close>

definition proto_ok :: "invocation_spec \<Rightarrow> bool" where
  "proto_ok s \<longleftrightarrow>
     (case spProto s of p \<Rightarrow>
        (spTcp p, spGrpc p, spHttp p) \<in> {(True, False, False), (False, True, False), (False, False, True)} \<and>
        (spMajor p, spMinor p) \<in> {(0, 0), (1, 0), (1, 1), (2, 0)} \<and> (spTcp p \<longleftrightarrow> spMajor p = 0) \<and> (spH2 p \<longleftrightarrow> spMajor p = 2) \<and>
        (spGrpc p \<longrightarrow> spMajor p = 2) \<and> (spHttp p \<longrightarrow> HasPrefix (spURL s) ''http''))"

lemma proto_ok_cong: "spProto s' = spProto s \<Longrightarrow> spURL s' = spURL s \<Longrightarrow> proto_ok s' = proto_ok s"
  by (simp add: proto_ok_def)

lemma processProtocol_ok:
  assumes "spProto s = fresh_proto"
  shows "proto_ok (processProtocol s)"
proof -
  have "spProto (named_protocol s) \<in> {fresh_proto, fresh_proto\<lparr>spTcp := True\<rparr>, fresh_proto\<lparr>spGrpc := True, spMajor := 2\<rparr>,
      fresh_proto\<lparr>spMajor := 1\<rparr>, fresh_proto\<lparr>spMajor := 1, spMinor := 1\<rparr>, fresh_proto\<lparr>spMajor := 2\<rparr>, fresh_proto\<lparr>spHttp := True, spMajor := 1, spMinor := 1\<rparr>}"
    using assms by (simp add: named_protocol_def set_version_def fresh_proto_def Let_def split: option.split)
  moreover have "HasPrefix (''http://'' @ u) ''http''" for u by (simp add: HasPrefix_def)
  ultimately show ?thesis
    by (auto simp: processProtocol_def proto_ok_def set_version_def fresh_proto_def Let_def)
qed

text \<open>What the later stages leave alone.\<close>

definition traffic_of :: "invocation_spec \<Rightarrow> (string \<times> string \<times> string list) \<times> (int \<times> int) \<times> bool" where
  "traffic_of s = ((spName s, spMethod s, spBURLS s), (spReplicas s, spRequestCount s), spAB s \<or> spFallback s \<or> spRandom s)"

lemma prepareAssertions_frame:
  "prepareAssertions e as s = Some (as', s') \<Longrightarrow> traffic_of s' = traffic_of s \<and> spProto s' = spProto s \<and> spURL s' = spURL s"
proof (induction e as s arbitrary: as' s' rule: prepareAssertions.induct)
  case (3 e a as s)
  from "3.prems" obtain a' as2 where a: "prepare_assertion e (spBinary s) a = Some a'"
    "prepareAssertions e as (if 0 < asPayloadSize a' then s\<lparr>spCollectResponse := True, spTrackPayload := True\<rparr> else s) = Some (as2, s')"
    by (auto split: option.splits)
  from "3.IH" [OF a] show ?case by (simp add: traffic_of_def split: if_splits)
qed simp_all

lemma processProtocol_frame: "traffic_of (processProtocol s) = traffic_of s"
  by (simp add: traffic_of_def processProtocol_def named_protocol_def set_version_def Let_def split: option.split)

lemma processAuthority_frame:
  "traffic_of (processAuthority e s) = traffic_of s" "spProto (processAuthority e s) = spProto s" "spURL (processAuthority e s) = spURL s"
  by (simp_all add: traffic_of_def processAuthority_def Let_def)

lemma validatePayload_frame: "validatePayload e s = Inr s' \<Longrightarrow> traffic_of s' = traffic_of s \<and> spProto s' = spProto s"
  by (auto simp: validatePayload_def traffic_of_def Let_def split: if_splits option.splits)

lemma validateConnection_frame:
  "validateConnectionAndRequestConfigs e s = Inr s' \<Longrightarrow> traffic_of s' = traffic_of s \<and> spProto s' = spProto s"
  by (auto simp: validateConnectionAndRequestConfigs_def traffic_of_def Let_def split: if_splits option.splits)

lemma validateTraffic_ok:
  assumes "validateTrafficConfig e s = Inr s'"
  shows "(case traffic_of s' of ((n, m, bs), (r, c), multi) \<Rightarrow> n \<noteq> [] \<and> m \<noteq> [] \<and> 1 \<le> r \<and> r \<le> c \<and> (multi \<longrightarrow> bs \<noteq> [])) \<and> spProto s' = spProto s"
  using assms by (auto simp: validateTrafficConfig_def traffic_of_def Let_def split: if_splits option.splits)

text \<open>A specification that passes validation has a name, a method, at least one replica and at least as many requests as replicas,
  other URLs if its mode needs them, and is of exactly one kind: TCP, gRPC or HTTP, with the HTTP version of that kind and, for
  HTTP, a URL that begins with the scheme.\<close>
theorem validated_spec:
  assumes "ValidateSpec e s = Some (Inr s')" "spProto s = fresh_proto"
  shows "proto_ok s' \<and> spName s' \<noteq> [] \<and> spMethod s' \<noteq> [] \<and> 1 \<le> spReplicas s' \<and> spReplicas s' \<le> spRequestCount s' \<and>
    (spAB s' \<or> spFallback s' \<or> spRandom s' \<longrightarrow> spBURLS s' \<noteq> [])"
proof -
  obtain a b c as d where st: "validateTrafficConfig e s = Inr a" "validateConnectionAndRequestConfigs e a = Inr b" "validatePayload e b = Inr c"
    "prepareAssertions e (spAssertions (processAuthority e (processProtocol c))) (processAuthority e (processProtocol c)) = Some (as, d)"
    "s' = d\<lparr>spAssertions := as\<rparr>"
    using assms(1) by (auto simp: ValidateSpec_def Let_def split: sum.splits)
  note f = validateTraffic_ok [OF st(1)] validateConnection_frame [OF st(2)] validatePayload_frame [OF st(3)] prepareAssertions_frame [OF st(4)]
  have "spProto c = fresh_proto" using f assms(2) by simp
  moreover have "spProto s' = spProto (processProtocol c)" "spURL s' = spURL (processProtocol c)" using f by (simp_all add: st(5) processAuthority_frame)
  ultimately have "proto_ok s'" using processProtocol_ok proto_ok_cong by metis
  moreover have "traffic_of s' = traffic_of a" using f by (simp add: st(5) traffic_of_def [of "d\<lparr>spAssertions := as\<rparr>"] traffic_of_def [of d] processAuthority_frame processProtocol_frame)
  ultimately show ?thesis using f(1) by (auto simp: traffic_of_def)
qed

definition blank_times :: spec_times where
  "blank_times = \<lparr>spInitialDelay = ([], 0), spDelay = ([], 0), spRetryDelay = ([], 0), spKeepOpen = ([], 0), spStreamDelay = ([], 0),
     spConnTimeout = ([], 0), spConnIdleTimeout = ([], 0), spRequestTimeout = ([], 0)\<rparr>"

text \<open>The specification that is decoded from a name and a URL.\<close>

definition plain_spec :: "string \<Rightarrow> string \<Rightarrow> invocation_spec" where
  "plain_spec name url = \<lparr>spName = name, spProtocol = [], spMethod = [], spHost = [], spService = [], spURL = url, spBURLS = [], spHeaders = None,
     spLowerHeaders = False, spBody = [], spAutoPayload = [], spReplicas = 0, spRequestCount = 0, spWarmupCount = 0, spRetries = 0, spRetriable = [],
     spSendID = False, spRequestId = None, spAutoInvoke = False, spFallback = False, spAB = False, spRandom = False, spStreamPayload = [], spBinary = False,
     spCollectResponse = False, spTrackPayload = False, spAssertions = [], spTLS = False, spTLSVersion = 0, spClientCert = [], spLongRunning = False,
     spTimes = blank_times, spProto = fresh_proto, spAuthority = [], spAutoPayloadSize = 0\<rparr>"

definition plain_env :: spec_env where
  "plain_env = \<lparr>seDuration = (\<lambda>_. None), seRegexp = (\<lambda>_. True), seBase64 = (\<lambda>_. None), seHost = (\<lambda>_. None), seCert = (\<lambda>_. True), seSizes = size_units\<rparr>"

theorem validated_spec_witness:
  "\<exists>s'. ValidateSpec plain_env ((plain_spec ''t'' ''host:8080'')\<lparr>spReplicas := 2, spRequestCount := 6\<rparr>) = Some (Inr s') \<and>
     spHttp (spProto s') \<and> spURL s' = ''http://host:8080'' \<and> spReplicas s' \<le> spRequestCount s'"
proof -
  let ?s = "(plain_spec ''t'' ''host:8080'')\<lparr>spReplicas := 2, spRequestCount := 6\<rparr>"
  have ex: "\<exists>s'. ValidateSpec plain_env ?s = Some (Inr s') \<and> spHttp (spProto s') \<and> spURL s' = ''http://host:8080''"
    by (simp add: ValidateSpec_def validateTrafficConfig_def validateConnectionAndRequestConfigs_def validatePayload_def processProtocol_def
        named_protocol_def set_version_def processAuthority_def duration_or_def plain_spec_def blank_times_def plain_env_def fresh_proto_def
        HasPrefix_def ToLower_def lower_char_def)
  then obtain s' where s': "ValidateSpec plain_env ?s = Some (Inr s')" "spHttp (spProto s') \<and> spURL s' = ''http://host:8080''" by auto
  from validated_spec [OF s'(1)] s' show ?thesis by (simp add: plain_spec_def)
qed

end
