(* ===== verification/Invocation.thy ===== *)
theory Invocation
  imports Invocation_Spec Util_Headers "HOL-Library.Monad_Syntax"
begin

text \<open>
  Invoking a target (\<open>pkg/invocation/invoke.go\<close>, \<open>result.go\<close> and the runner in \<open>invocation.go\<close>): requests, retries, results, and the
  tracking of statuses. What the network answers is the \<open>reply\<close> of each attempt. The lock of the status is not reentrant: taking it while
  it is held blocks for ever, which is \<open>None\<close>, as is a panic.
\<close>

section \<open>Status\<close>

record inv_status =
  TotalRequests :: int
  SuccessCount :: int
  FailureCount :: int
  RetriesCount :: int
  stClientStream :: int
  stServerStream :: int
  ABCount :: int
  lastStatusCode :: int
  lastStatusCount :: int
  lastError :: string
  lastErrorCount :: int

definition new_tracked_status :: inv_status where
  "new_tracked_status = \<lparr>TotalRequests = 0, SuccessCount = 0, FailureCount = 0, RetriesCount = 0, stClientStream = 0, stServerStream = 0, ABCount = 0,
     lastStatusCode = - 1, lastStatusCount = 0, lastError = [], lastErrorCount = 0\<rparr>"

text \<open>The flag \<open>held\<close>: the caller has the lock.\<close>

definition take_lock :: "bool \<Rightarrow> unit option" where
  "take_lock held = (if held then None else Some ())"

definition tracker_reportRepeatedResponse :: "bool \<Rightarrow> unit option" where
  "tracker_reportRepeatedResponse held = take_lock held"

definition reportRepeatedResponse :: "bool \<Rightarrow> inv_status \<Rightarrow> inv_status option" where
  "reportRepeatedResponse held st =
     do {
       take_lock held;
       if lastStatusCount st \<le> 0 then Some st
       else do {
         st \<leftarrow> (if 1 < lastStatusCount st
                then do { tracker_reportRepeatedResponse True; Some (st\<lparr>lastStatusCount := 0, lastStatusCode := - 1\<rparr>) }
                else Some st);
         Some (if 1 < lastErrorCount st then st\<lparr>lastErrorCount := 0, lastError := []\<rparr> else st)
       }
     }"

definition trackStatus :: "int \<Rightarrow> int \<Rightarrow> int \<Rightarrow> inv_status \<Rightarrow> inv_status option" where
  "trackStatus code cs ss st =
     (let again = (lastStatusCode st = code) in
      do {
        st \<leftarrow> (if \<not> again \<and> 1 < lastStatusCount st \<or> 1 < lastErrorCount st
               then map_option (\<lambda>st. st\<lparr>lastStatusCode := - 1\<rparr>) (reportRepeatedResponse True st) else Some st);
        let st = (if 0 \<le> lastStatusCode st \<and> again then st\<lparr>lastStatusCount := lastStatusCount st + 1\<rparr>
                  else st\<lparr>lastStatusCount := 1, lastStatusCode := code\<rparr>);
        Some (st\<lparr>lastError := [], lastErrorCount := 0, SuccessCount := SuccessCount st + 1, stClientStream := stClientStream st + cs,
                 stServerStream := stServerStream st + ss\<rparr>)
      })"

definition trackError :: "string \<Rightarrow> inv_status \<Rightarrow> inv_status" where
  "trackError e st =
     st\<lparr>lastStatusCode := 0, lastStatusCount := 0, lastError := e, lastErrorCount := lastErrorCount st + 1, FailureCount := FailureCount st + 1\<rparr>"

definition trackRequestInResult :: "inv_status \<Rightarrow> inv_status" where
  "trackRequestInResult st = st\<lparr>TotalRequests := TotalRequests st + 1\<rparr>"

definition incrementRetriesCount :: "inv_status \<Rightarrow> inv_status" where
  "incrementRetriesCount st = st\<lparr>RetriesCount := RetriesCount st + 1\<rparr>"

definition incrementABCount :: "inv_status \<Rightarrow> inv_status" where
  "incrementABCount st = st\<lparr>ABCount := ABCount st + 1\<rparr>"

section \<open>Results\<close>

datatype assertion_error = EStatusCode | EPayloadLength | EPayload | EHeaders | ERetries | ESuccessURL | EFailedURL

text \<open>The errors of a result are those of the assertions with their number, or an error of reading the response.\<close>

datatype result_error = AssertionFailed int "assertion_error list" | ErrorRead string

record inv_result =
  ivTargetName :: string
  ivTargetID :: string
  ivRequestID :: string
  ivURL :: string
  ivURI :: string
  ivRequestSize :: int
  ivStatus :: string
  ivStatusCode :: int
  ivHeaders :: "(string, string list) gomap"
  ivPayloadSize :: int
  ivPayload :: string
  ivClientStream :: int
  ivServerStream :: int
  FailedURLs :: "(string, int) gomap"
  ivRetries :: int
  LastRetryReason :: string
  ValidAssertionIndex :: int
  ivErrors :: "result_error list"
  ivHttpStatus :: "string option"
  ivErr :: "string option"

definition newInvocationResult :: "string \<Rightarrow> string \<Rightarrow> string \<Rightarrow> inv_result" where
  "newInvocationResult name targetID requestID =
     \<lparr>ivTargetName = name, ivTargetID = targetID, ivRequestID = requestID, ivURL = [], ivURI = [], ivRequestSize = 0, ivStatus = [], ivStatusCode = 0,
      ivHeaders = [], ivPayloadSize = 0, ivPayload = [], ivClientStream = 0, ivServerStream = 0, FailedURLs = [], ivRetries = 0, LastRetryReason = [],
      ValidAssertionIndex = 0, ivErrors = [], ivHttpStatus = None, ivErr = None\<rparr>"

record http_resp =
  rsStatus :: string
  rsCode :: int
  rsHeaders :: "(string, string list) gomap"
  rsData :: string
  rsReadError :: string

record grpc_resp =
  gsCode :: int
  gsHeaders :: "(string, string list) gomap"
  gsPayloads :: nat
  gsClientStream :: int
  gsServerStream :: int

text \<open>An attempt: nothing is sent (there is no client, or the certificate is missing), or what the HTTP or gRPC client returns.\<close>

datatype reply = Unsent | HttpReply "string option" "http_resp option" | GrpcNone | GrpcReply "string list" "grpc_resp list"

record tracker =
  trTarget :: invocation_spec
  trOnHeaders :: bool
  trGrpc :: bool
  trPayloads :: "string list"
  trWriter :: bool
  trCustomID :: string

definition updateResult :: "invocation_spec \<Rightarrow> string \<Rightarrow> string \<Rightarrow> string \<Rightarrow> int \<Rightarrow> (string, string list) gomap \<Rightarrow> inv_result \<Rightarrow> inv_result" where
  "updateResult t url uri status code hs r =
     (let low = spLowerHeaders t;
          h = fold (\<lambda>(k, v). mput (if low then ToLower k else k) v) hs (ivHeaders r);
          h = mput (if low then ''status'' else ''Status'') [status] h
      in r\<lparr>ivHeaders := h, ivStatus := status, ivStatusCode := code, ivURI := uri, ivURL := url\<rparr>)"

definition readHTTPResponsePayload :: "tracker \<Rightarrow> http_resp \<Rightarrow> inv_result \<Rightarrow> inv_result" where
  "readHTTPResponsePayload tr h r =
     (let t = trTarget tr in
      if spTrackPayload t \<or> spCollectResponse t \<or> trWriter tr then
        (if rsReadError h = [] then
           (let r = r\<lparr>ivPayloadSize := int (length (rsData h))\<rparr> in if spCollectResponse t then r\<lparr>ivPayload := rsData h\<rparr> else r)
         else r\<lparr>ivErr := Some (rsReadError h), ivStatus := rsReadError h, ivErrors := ivErrors r @ [ErrorRead (rsReadError h)]\<rparr>)
      else r)"

text \<open>\<open>OnHeaders\<close> is called without a check, and so is the message of an error that may be nil.\<close>

definition processHTTPResponse :: "tracker \<Rightarrow> string \<Rightarrow> string \<Rightarrow> string option \<Rightarrow> http_resp option \<Rightarrow> inv_result \<Rightarrow> inv_result option" where
  "processHTTPResponse tr url uri err resp r =
     (let r = r\<lparr>ivHttpStatus := map_option rsStatus resp, ivErr := err\<rparr> in
      case err of
        None \<Rightarrow>
          (case resp of
             None \<Rightarrow> None
           | Some h \<Rightarrow>
               (if trOnHeaders tr then
                  Some (updateResult (trTarget tr) url uri (rsStatus h) (rsCode h) (rsHeaders h) (readHTTPResponsePayload tr h r))
                else None))
      | Some e \<Rightarrow>
          (case resp of Some h \<Rightarrow> Some (r\<lparr>ivStatus := rsStatus h, ivStatusCode := rsCode h\<rparr>) | None \<Rightarrow> Some (r\<lparr>ivStatus := e\<rparr>)))"

definition processGRPCResponse :: "tracker \<Rightarrow> string \<Rightarrow> grpc_resp \<Rightarrow> string option \<Rightarrow> inv_result \<Rightarrow> inv_result" where
  "processGRPCResponse tr url g err r =
     (let r = r\<lparr>ivErr := err\<rparr> in
      case err of
        None \<Rightarrow>
          updateResult (trTarget tr) url (spMethod (trTarget tr)) (Itoa (gsCode g)) (gsCode g) (gsHeaders g)
            (r\<lparr>ivPayloadSize := int (gsPayloads g), ivClientStream := gsClientStream g, ivServerStream := gsServerStream g\<rparr>)
      | Some e \<Rightarrow> r\<lparr>ivStatus := e\<rparr>)"

definition retryReason :: "inv_result \<Rightarrow> string" where
  "retryReason r =
     (case ivErr r of
        Some e \<Rightarrow> TrimRight (TrimLeft (last (split_on CHR '':'' e)) '' '') '' ''
      | None \<Rightarrow> (case ivHttpStatus r of Some s \<Rightarrow> s | None \<Rightarrow> []))"

definition shouldRetry :: "invocation_spec \<Rightarrow> inv_result \<Rightarrow> bool" where
  "shouldRetry t r \<longleftrightarrow> ivErr r \<noteq> None \<or> ivStatusCode r \<in> set (spRetriable t)"

section \<open>Assertions\<close>

definition assertion_errors :: "(string \<Rightarrow> string \<Rightarrow> bool) \<Rightarrow> assertion \<Rightarrow> inv_result \<Rightarrow> assertion_error list" where
  "assertion_errors match a r =
     (if ivStatusCode r \<noteq> asStatusCode a then [EStatusCode] else []) @
     (if 0 < asPayloadSize a \<and> ivPayloadSize r \<noteq> asPayloadSize a then [EPayloadLength] else []) @
     (if asPayload a \<noteq> [] \<and> asBytes a \<noteq> ivPayload r then [EPayload] else []) @
     (if asRegexps a \<noteq> [] \<and> \<not> ContainsAllHeaders (ivHeaders r) (map (\<lambda>(h, p). (h, map_option match p)) (asRegexps a)) then [EHeaders] else []) @
     (if 0 < asRetries a \<and> ivRetries r \<noteq> asRetries a then [ERetries] else []) @
     (if asSuccessURL a \<noteq> [] \<and> ivURL r \<noteq> asSuccessURL a then [ESuccessURL] else []) @
     (if asFailedURL a \<noteq> [] \<and> mget_or 0 (FailedURLs r) (asFailedURL a) = 0 then [EFailedURL] else [])"

fun validate_from :: "(string \<Rightarrow> string \<Rightarrow> bool) \<Rightarrow> assertion option list \<Rightarrow> int \<Rightarrow> result_error list \<Rightarrow> inv_result \<Rightarrow> inv_result" where
  "validate_from match [] i errs r = r\<lparr>ivErrors := errs\<rparr>"
| "validate_from match (None # as) i errs r = validate_from match as (i + 1) errs r"
| "validate_from match (Some a # as) i errs r =
     (let es = assertion_errors match a r in
      if es = [] then r\<lparr>ValidAssertionIndex := i + 1\<rparr> else validate_from match as (i + 1) (errs @ [AssertionFailed (i + 1) es]) r)"

definition validateResponse :: "(string \<Rightarrow> string \<Rightarrow> bool) \<Rightarrow> invocation_spec \<Rightarrow> inv_result \<Rightarrow> inv_result" where
  "validateResponse match t r = validate_from match (spAssertions t) 0 [] r"

definition processResponse :: "(string \<Rightarrow> string \<Rightarrow> bool) \<Rightarrow> invocation_spec \<Rightarrow> inv_result \<Rightarrow> inv_status \<Rightarrow> (inv_result \<times> inv_status) option" where
  "processResponse match t r st =
     (let r = (if spAssertions t \<noteq> [] then validateResponse match t r else r) in
      map_option (Pair r) (trackStatus (ivStatusCode r) (ivClientStream r) (ivServerStream r) st))"

definition processError :: "(string \<Rightarrow> string \<Rightarrow> bool) \<Rightarrow> invocation_spec \<Rightarrow> string \<Rightarrow> inv_result \<Rightarrow> inv_status \<Rightarrow> (inv_result \<times> inv_status) option" where
  "processError match t e r st =
     (let r = (if spAssertions t \<noteq> [] then validateResponse match t r else r) in
      map_option (\<lambda>st. (r, trackError e st)) (reportRepeatedResponse False st))"

section \<open>Requests\<close>

record inv_request =
  rqID :: string
  rqTargetID :: string
  rqURL :: string
  rqURI :: string
  rqHeaders :: "(string, string) gomap"
  rqHttp :: "string option"

text \<open>
  \<open>rqHttp\<close> is the URL of the HTTP request, if there is one. \<open>reParse\<close>: the path of a URL from which a request can be made. \<open>reQuery\<close>: the URL with the value of a query parameter set. \<open>reMatch\<close>:
  matching of regular expressions.
\<close>

record req_env =
  reParse :: "string \<Rightarrow> string option"
  reQuery :: "string \<Rightarrow> (string \<times> string) option \<Rightarrow> string"
  reUUID :: string
  reRandom :: "nat \<Rightarrow> nat"
  reMatch :: "string \<Rightarrow> string \<Rightarrow> bool"

definition addOrUpdateHeader :: "string \<Rightarrow> string \<Rightarrow> inv_request \<Rightarrow> inv_request option" where
  "addOrUpdateHeader h v q = (if rqHttp q = None then None else Some (q\<lparr>rqHeaders := mput h v (rqHeaders q)\<rparr>))"

text \<open>The header, the query parameter and the value for the id of a request.\<close>

definition request_id_config :: "req_env \<Rightarrow> invocation_spec \<Rightarrow> string \<Rightarrow> string \<times> string \<times> string" where
  "request_id_config e t n =
     (if spSendID t then (''Goto-Request-Id'', ''x-request-id'', n)
      else case spRequestId t of
             None \<Rightarrow> ([], [], [])
           | Some c \<Rightarrow> (if riSend c then (riHeader c, riQuery c, if riUUID c then reUUID e else n) else ([], [], [])))"

definition addOrUpdateRequestId :: "req_env \<Rightarrow> invocation_spec \<Rightarrow> inv_request \<Rightarrow> inv_request option" where
  "addOrUpdateRequestId e t q =
     (case rqHttp q of
        None \<Rightarrow> Some q
      | Some u \<Rightarrow>
          (case request_id_config e t (rqID q) of
             (header, query, v) \<Rightarrow>
               do {
                 q \<leftarrow> (if header \<noteq> [] then addOrUpdateHeader header v q else Some q);
                 let url = reQuery e u (if query \<noteq> [] then Some (query, v) else None);
                 addOrUpdateHeader ''Goto-Target-URL'' url (q\<lparr>rqURL := url, rqHttp := Some url\<rparr>)
               }))"

text \<open>The flag is that the request could be made.\<close>

definition prepareRequest :: "req_env \<Rightarrow> tracker \<Rightarrow> inv_request \<Rightarrow> inv_result \<Rightarrow> (inv_request \<times> inv_result \<times> bool) option" where
  "prepareRequest e tr q r =
     (if trGrpc tr then Some (q\<lparr>rqURI := spService (trTarget tr) @ ''.'' @ spMethod (trTarget tr)\<rparr>, r, True)
      else
        (let r = (case trPayloads tr of [p] \<Rightarrow> (if p \<noteq> [] then r\<lparr>ivRequestSize := int (length p)\<rparr> else r) | _ \<Rightarrow> r) in
         case reParse e (rqURL q) of
           None \<Rightarrow> Some (q, r\<lparr>ivErr := Some ''invalid URL''\<rparr>, False)
         | Some path \<Rightarrow> map_option (\<lambda>q. (q\<lparr>rqURI := path\<rparr>, r, True)) (addOrUpdateRequestId e (trTarget tr) (q\<lparr>rqHttp := Some (rqURL q)\<rparr>))))"

definition prepareRequestURL :: "req_env \<Rightarrow> invocation_spec \<Rightarrow> string option \<Rightarrow> string" where
  "prepareRequestURL e t sub =
     (if spRandom t then (case reRandom e (length (spBURLS t) + 1) of 0 \<Rightarrow> spURL t | Suc k \<Rightarrow> spBURLS t ! k)
      else case sub of Some u \<Rightarrow> u | None \<Rightarrow> spURL t)"

definition prepareRequestHeaders :: "invocation_spec \<Rightarrow> string \<Rightarrow> (string, string) gomap" where
  "prepareRequestHeaders t targetID =
     mput ''Goto-Target-ID'' targetID (filter (\<lambda>(h, v). v \<noteq> []) (case spHeaders t of None \<Rightarrow> [] | Some hs \<Rightarrow> hs))"

definition newInvocationRequest :: "req_env \<Rightarrow> tracker \<Rightarrow> string \<Rightarrow> string \<Rightarrow> string option \<Rightarrow> (inv_request \<times> inv_result) option" where
  "newInvocationRequest e tr requestID targetID sub =
     map_option (\<lambda>(q, r, _). (q, r))
       (prepareRequest e tr
          \<lparr>rqID = requestID, rqTargetID = targetID, rqURL = prepareRequestURL e (trTarget tr) sub, rqURI = [],
           rqHeaders = prepareRequestHeaders (trTarget tr) targetID, rqHttp = None\<rparr>
          (newInvocationResult (spName (trTarget tr)) targetID requestID))"

section \<open>Attempts\<close>

text \<open>A gRPC call without responses and without errors: the message of the nil error is read.\<close>

definition inv_invoke :: "tracker \<Rightarrow> inv_request \<Rightarrow> reply \<Rightarrow> inv_result \<Rightarrow> inv_status \<Rightarrow> (inv_result \<times> inv_status) option" where
  "inv_invoke tr q rep r st =
     (if trGrpc tr then
        (case rep of
           GrpcReply errs resps \<Rightarrow>
             (case resps of
                g # _ \<Rightarrow> Some (processGRPCResponse tr (rqURL q) g (case errs of [] \<Rightarrow> None | x # _ \<Rightarrow> Some x) r, trackRequestInResult st)
              | [] \<Rightarrow> (if errs = [] then None else Some (r, trackRequestInResult st)))
         | _ \<Rightarrow> Some (r, trackRequestInResult st))
      else
        (case rep of
           HttpReply err resp \<Rightarrow>
             (if rqHttp q = None then Some (r, st) else map_option (\<lambda>r. (r, trackRequestInResult st)) (processHTTPResponse tr (rqURL q) (rqURI q) err resp r))
         | _ \<Rightarrow> Some (r, st)))"

text \<open>What happens around an attempt: whether the invocation is found stopped before it and after the delay, and the reply.\<close>

record attempt =
  atStop :: bool
  atStopLater :: bool
  atReply :: reply

text \<open>A failed attempt that is followed by another one; \<open>i\<close> counts from 0.\<close>

definition prepare_retry :: "req_env \<Rightarrow> tracker \<Rightarrow> string \<Rightarrow> nat \<Rightarrow> inv_request \<Rightarrow> inv_result \<Rightarrow> (inv_request \<times> inv_result) option" where
  "prepare_retry e tr requestID i q r =
     (let t = trTarget tr;
          r = r\<lparr>LastRetryReason := retryReason r, FailedURLs := mbump (rqURL q) (FailedURLs r)\<rparr>;
          q = q\<lparr>rqID := requestID @ ''-'' @ Itoa (int i + 2)\<rparr>
      in do {
           q \<leftarrow> addOrUpdateHeader ''Goto-Retry-Count'' (Itoa (int i + 1)) q;
           if spFallback t \<and> i < length (spBURLS t) then do {
             (q, r, ok) \<leftarrow> prepareRequest e tr (q\<lparr>rqURL := spBURLS t ! i\<rparr>) r;
             Some (q, if ok then r\<lparr>ivURL := rqURL q\<rparr> else r)
           }
           else map_option (\<lambda>q. (q, r)) (addOrUpdateRequestId e t q)
         })"

text \<open>The loop over attempts; \<open>n\<close> are left, and the next is \<open>i\<close>.\<close>

fun retry_loop ::
  "req_env \<Rightarrow> tracker \<Rightarrow> string \<Rightarrow> (nat \<Rightarrow> attempt) \<Rightarrow> nat \<Rightarrow> nat \<Rightarrow> inv_request \<Rightarrow> inv_result \<Rightarrow> inv_status \<Rightarrow> (inv_result \<times> inv_status) option" where
  "retry_loop e tr requestID io 0 i q r st = Some (r, st)"
| "retry_loop e tr requestID io (Suc n) i q r st =
     (if atStop (io i) then Some (r, st)
      else
        (let r = (if 0 < i then r\<lparr>ivRetries := ivRetries r + 1\<rparr> else r) in
         if atStopLater (io i) then Some (r, st)
         else case inv_invoke tr q (atReply (io i)) r st of
                None \<Rightarrow> None
              | Some (r, st) \<Rightarrow>
                  (if \<not> (shouldRetry (trTarget tr) r \<and> 0 < spRetries (trTarget tr)) then Some (r, st)
                   else if int i < spRetries (trTarget tr) then
                     (case prepare_retry e tr requestID i q r of
                        None \<Rightarrow> None
                      | Some (q, r) \<Rightarrow> retry_loop e tr requestID io n (Suc i) q r (incrementRetriesCount st))
                   else retry_loop e tr requestID io n (Suc i) q r st)))"

text \<open>\<open>stop\<close>: the invocation is stopped when the attempts are over.\<close>

definition invokeWithRetries ::
  "req_env \<Rightarrow> tracker \<Rightarrow> string \<Rightarrow> string \<Rightarrow> string option \<Rightarrow> (nat \<Rightarrow> attempt) \<Rightarrow> bool \<Rightarrow> inv_status \<Rightarrow> (inv_result \<times> inv_status) option" where
  "invokeWithRetries e tr requestID targetID sub io stop st =
     do {
       (q, r) \<leftarrow> newInvocationRequest e tr requestID targetID sub;
       (r, st) \<leftarrow> retry_loop e tr requestID io (nat (spRetries (trTarget tr) + 1)) 0 q r st;
       if stop then Some (r, st)
       else case ivErr r of
              None \<Rightarrow> processResponse (reMatch e) (trTarget tr) r st
            | Some x \<Rightarrow> processError (reMatch e) (trTarget tr) x r st
     }"

section \<open>Runners\<close>

text \<open>The ids of the next request. The two results are passed on in their order, as the request id and the target id.\<close>

definition computeInvocationIDs :: "tracker \<Rightarrow> int \<Rightarrow> int \<Rightarrow> string \<times> string" where
  "computeInvocationIDs tr runnerId n =
     (let name = spName (trTarget tr) @ (if trCustomID tr \<noteq> [] then ''-'' @ trCustomID tr else [])
      in (name, name @ ''['' @ Itoa runnerId @ '']['' @ Itoa n @ '']''))"

record invocation_ids =
  iiRequestID :: string
  iiTargetID :: string

definition send_ids :: "string \<times> string \<Rightarrow> invocation_ids" where
  "send_ids p = \<lparr>iiRequestID = fst p, iiTargetID = snd p\<rparr>"

text \<open>What a runner sees: the attempts of a request by its URL number (0 is the URL of the target), and whether the invocation is stopped after it.\<close>

record call_io =
  ciAttempts :: "nat \<Rightarrow> nat \<Rightarrow> attempt"
  ciStop :: "nat \<Rightarrow> bool"

fun handleABCall ::
  "req_env \<Rightarrow> tracker \<Rightarrow> invocation_ids \<Rightarrow> call_io \<Rightarrow> string list \<Rightarrow> nat \<Rightarrow> inv_status \<Rightarrow> inv_result list \<Rightarrow> (inv_status \<times> inv_result list) option" where
  "handleABCall e tr ids io [] k st out = Some (st, out)"
| "handleABCall e tr ids io (u # us) k st out =
     (if ciStop io (k - 1) then Some (st, out)
      else case invokeWithRetries e tr (iiRequestID ids @ ''-B-'' @ Itoa (int k)) (iiTargetID ids) (Some u) (ciAttempts io k) (ciStop io k) st of
             None \<Rightarrow> None
           | Some (r, st) \<Rightarrow>
               (if ciStop io k then handleABCall e tr ids io us (Suc k) st out
                else handleABCall e tr ids io us (Suc k) (incrementABCount st) (out @ [r])))"

text \<open>A request of a runner. The published results come in the order in which the sinks get them.\<close>

definition runner_invoke :: "req_env \<Rightarrow> tracker \<Rightarrow> invocation_ids \<Rightarrow> bool \<Rightarrow> call_io \<Rightarrow> bool \<Rightarrow> inv_status \<Rightarrow> (inv_status \<times> inv_result list) option" where
  "runner_invoke e tr ids publish io stop st =
     do {
       (r, st) \<leftarrow> invokeWithRetries e tr (iiRequestID ids) (iiTargetID ids) None (ciAttempts io 0) (ciStop io 0) st;
       (st, out) \<leftarrow> (if \<not> ciStop io 0 \<and> publish \<and> spAB (trTarget tr) then handleABCall e tr ids io (spBURLS (trTarget tr)) 1 st [] else Some (st, []));
       Some (st, if publish \<and> \<not> stop then out @ [r] else out)
     }"

fun doWarmupRounds :: "req_env \<Rightarrow> tracker \<Rightarrow> (nat \<Rightarrow> bool \<times> call_io) \<Rightarrow> nat \<Rightarrow> nat \<Rightarrow> inv_status \<Rightarrow> inv_status option" where
  "doWarmupRounds e tr io 0 i st = Some st"
| "doWarmupRounds e tr io (Suc n) i st =
     (if fst (io i) then Some st
      else (let name = spName (trTarget tr) @ ''[Warmup]['' @ Itoa (int i + 1) @ '']'' in
            case runner_invoke e tr \<lparr>iiRequestID = name, iiTargetID = name\<rparr> False (snd (io i)) False st of
              None \<Rightarrow> None
            | Some (st, _) \<Rightarrow> doWarmupRounds e tr io n (Suc i) st))"

end
