(* ===== verification/Invocation_Laws.thy ===== *)
theory Invocation_Laws
  imports Invocation
begin

text \<open>
  What an invocation does: which sequences of outcomes block the tracking of statuses, how often a request is tried, and which replies
  panic.
\<close>

section \<open>Tracking\<close>

datatype net_outcome = Got int | Failed string

text \<open>The outcomes of the requests of an invocation, tracked one after the other.\<close>

fun track_all :: "net_outcome list \<Rightarrow> inv_status \<Rightarrow> inv_status option" where
  "track_all [] st = Some st"
| "track_all (Got c # os) st = (case trackStatus c 0 0 st of None \<Rightarrow> None | Some st \<Rightarrow> track_all os st)"
| "track_all (Failed e # os) st = (case reportRepeatedResponse False st of None \<Rightarrow> None | Some st \<Rightarrow> track_all os (trackError e st))"

text \<open>Three outcomes in a row: a status twice and then anything else, or two errors and then a status.\<close>

fun breaks :: "net_outcome list \<Rightarrow> bool" where
  "breaks (Got c # Got d # x # os) \<longleftrightarrow> c = d \<and> x \<noteq> Got c \<or> breaks (Got d # x # os)"
| "breaks (Failed e # Failed f # Got c # os) \<longleftrightarrow> True"
| "breaks (x # os) \<longleftrightarrow> breaks os"
| "breaks [] \<longleftrightarrow> False"

text \<open>What the status remembers of the outcomes.\<close>

datatype memory = Fresh | OneGot int | ManyGot int | OneFailed | ManyFailed

fun remember :: "net_outcome \<Rightarrow> memory \<Rightarrow> memory option" where
  "remember (Got c) (ManyGot d) = (if c = d then Some (ManyGot c) else None)"
| "remember (Got c) (OneGot d) = Some (if c = d then ManyGot c else OneGot c)"
| "remember (Got c) ManyFailed = None"
| "remember (Got c) m = Some (OneGot c)"
| "remember (Failed e) (ManyGot d) = None"
| "remember (Failed e) OneFailed = Some ManyFailed"
| "remember (Failed e) ManyFailed = Some ManyFailed"
| "remember (Failed e) m = Some OneFailed"

fun remember_all :: "net_outcome list \<Rightarrow> memory \<Rightarrow> memory option" where
  "remember_all [] m = Some m"
| "remember_all (x # xs) m = (case remember x m of None \<Rightarrow> None | Some m \<Rightarrow> remember_all xs m)"

fun memory_of :: "memory \<Rightarrow> inv_status \<Rightarrow> bool" where
  "memory_of Fresh st \<longleftrightarrow> lastStatusCode st = - 1 \<and> lastStatusCount st = 0 \<and> lastErrorCount st = 0"
| "memory_of (OneGot c) st \<longleftrightarrow> lastStatusCode st = c \<and> 0 \<le> c \<and> lastStatusCount st = 1 \<and> lastErrorCount st = 0"
| "memory_of (ManyGot c) st \<longleftrightarrow> lastStatusCode st = c \<and> 0 \<le> c \<and> 2 \<le> lastStatusCount st \<and> lastErrorCount st = 0"
| "memory_of OneFailed st \<longleftrightarrow> lastStatusCode st = 0 \<and> lastStatusCount st = 0 \<and> lastErrorCount st = 1"
| "memory_of ManyFailed st \<longleftrightarrow> lastStatusCode st = 0 \<and> lastStatusCount st = 0 \<and> 2 \<le> lastErrorCount st"

lemmas tracking_defs = trackStatus_def trackError_def reportRepeatedResponse_def tracker_reportRepeatedResponse_def take_lock_def Let_def

text \<open>The status is a refinement of the memory.\<close>

lemma track_all_remembers:
  assumes "memory_of m st" "\<forall>c. Got c \<in> set os \<longrightarrow> 0 \<le> c"
  shows "track_all os st = None \<longleftrightarrow> remember_all os m = None"
  using assms
proof (induction os arbitrary: m st)
  case (Cons x os)
  show ?case
  proof (cases x)
    case (Got c)
    have c: "0 \<le> c" using Cons.prems(2) Got by simp
    have "case remember x m of None \<Rightarrow> trackStatus c 0 0 st = None | Some m' \<Rightarrow> \<exists>st'. trackStatus c 0 0 st = Some st' \<and> memory_of m' st'"
      using Cons.prems(1) c by (cases m) (auto simp: Got tracking_defs)
    then show ?thesis using Cons.IH Cons.prems(2) by (auto simp: Got split: option.splits)
  next
    case (Failed e)
    have "case remember x m of None \<Rightarrow> reportRepeatedResponse False st = None
        | Some m' \<Rightarrow> \<exists>st'. reportRepeatedResponse False st = Some st' \<and> memory_of m' (trackError e st')"
      using Cons.prems(1) by (cases m) (auto simp: Failed tracking_defs)
    then show ?thesis using Cons.IH Cons.prems(2) by (auto simp: Failed split: option.splits)
  qed
qed simp

lemma breaks_Got_other: "c \<noteq> d \<Longrightarrow> breaks (Got c # Got d # os) \<longleftrightarrow> breaks (Got d # os)"
  by (cases os) auto

lemma remember_breaks:
  "remember_all os (OneGot c) = None \<longleftrightarrow> breaks (Got c # os)"
  "remember_all os (ManyGot c) = None \<longleftrightarrow> breaks (Got c # Got c # os)"
  "remember_all os OneFailed = None \<longleftrightarrow> breaks (Failed e # os)"
  "remember_all os ManyFailed = None \<longleftrightarrow> breaks (Failed e # Failed f # os)"
proof (induction os arbitrary: c e f)
  case (Cons x os)
  {
    case 1
    then show ?case by (cases x) (auto simp: Cons.IH breaks_Got_other)
  next
    case 2
    then show ?case by (cases x) (auto simp: Cons.IH)
  next
    case 3
    then show ?case by (cases x) (auto simp: Cons.IH)
  next
    case 4
    then show ?case by (cases x) (auto simp: Cons.IH)
  }
qed simp_all

text \<open>C23: Tracking the outcomes of the requests of an invocation, one after the other as with one replica, blocks for ever exactly if some
  status occurs twice in a row and is then followed by another status or an error, or two errors in a row are followed by a
  status: the lock of the status is then taken by a goroutine that holds it. Status codes are not negative.\<close>
theorem tracking_blocks_iff:
  assumes "\<forall>c. Got c \<in> set os \<longrightarrow> 0 \<le> c"
  shows "track_all os new_tracked_status = None \<longleftrightarrow> breaks os"
proof -
  have "remember_all os Fresh = None \<longleftrightarrow> breaks os"
  proof (cases os)
    case (Cons x xs)
    then show ?thesis by (cases x) (simp_all add: remember_breaks(1) remember_breaks(3))
  qed simp
  then show ?thesis using track_all_remembers [of Fresh new_tracked_status os] assms by (simp add: new_tracked_status_def)
qed

theorem tracking_blocks_iff_witness:
  "track_all [Got 200, Got 503, Got 200, Got 200] new_tracked_status \<noteq> None \<and> track_all [Got 200, Got 200, Got 503] new_tracked_status = None \<and>
   track_all [Failed ''a'', Failed ''b'', Got 200] new_tracked_status = None"
  using tracking_blocks_iff [of "[Got 200, Got 503, Got 200, Got 200]"] tracking_blocks_iff [of "[Got 200, Got 200, Got 503]"]
    tracking_blocks_iff [of "[Failed ''a'', Failed ''b'', Got 200]"] by (auto simp del: track_all.simps)

section \<open>Retries\<close>

text \<open>A reply after which a request is tried again: an error, also of reading the response, or a retriable status.\<close>

fun retriable :: "tracker \<Rightarrow> reply \<Rightarrow> bool" where
  "retriable tr (HttpReply (Some _) _) \<longleftrightarrow> True"
| "retriable tr (HttpReply None (Some h)) \<longleftrightarrow>
     rsCode h \<in> set (spRetriable (trTarget tr)) \<or>
     rsReadError h \<noteq> [] \<and> (spTrackPayload (trTarget tr) \<or> spCollectResponse (trTarget tr) \<or> trWriter tr)"
| "retriable tr _ \<longleftrightarrow> False"

text \<open>The number of tries that fail, if at most \<open>n\<close> more are made.\<close>

fun failed_tries :: "tracker \<Rightarrow> (nat \<Rightarrow> attempt) \<Rightarrow> nat \<Rightarrow> nat \<Rightarrow> nat" where
  "failed_tries tr io 0 i = 0"
| "failed_tries tr io (Suc n) i = (if retriable tr (atReply (io i)) then Suc (failed_tries tr io n (Suc i)) else 0)"

text \<open>The network answers every attempt: with a response or an error.\<close>

definition net_answers :: "(nat \<Rightarrow> attempt) \<Rightarrow> bool" where
  "net_answers io \<longleftrightarrow> (\<forall>i. \<not> atStop (io i) \<and> \<not> atStopLater (io i) \<and>
     (case atReply (io i) of HttpReply (Some _) _ \<Rightarrow> True | HttpReply None (Some h) \<Rightarrow> True | _ \<Rightarrow> False))"

lemma http_invoke:
  assumes "\<not> trGrpc tr" "trOnHeaders tr" "rqHttp q \<noteq> None" "net_answers io"
  shows "\<exists>r'. inv_invoke tr q (atReply (io i)) r st = Some (r', trackRequestInResult st) \<and> ivRetries r' = ivRetries r \<and>
    (shouldRetry (trTarget tr) r' \<longleftrightarrow> retriable tr (atReply (io i)))"
proof (cases "atReply (io i)")
  case (HttpReply err resp)
  show ?thesis
  proof (cases err)
    case None
    then obtain h where "resp = Some h" using assms(4) HttpReply by (cases resp) (auto simp: net_answers_def dest: spec [of _ i])
    then show ?thesis using assms(1-3) HttpReply None
      by (auto simp: inv_invoke_def processHTTPResponse_def updateResult_def readHTTPResponsePayload_def shouldRetry_def Let_def)
  next
    case (Some x)
    then show ?thesis using assms(1-3) HttpReply
      by (cases resp) (auto simp: inv_invoke_def processHTTPResponse_def shouldRetry_def Let_def)
  qed
qed (use assms(4) in \<open>auto simp: net_answers_def split: reply.splits dest: spec [of _ i]\<close>)

lemma addOrUpdateRequestId_total:
  assumes "rqHttp q \<noteq> None"
  shows "\<exists>q'. addOrUpdateRequestId e t q = Some q' \<and> rqHttp q' \<noteq> None"
  using assms by (auto simp: addOrUpdateRequestId_def addOrUpdateHeader_def Let_def split: prod.split)

lemma prepareRequest_total:
  assumes "\<not> trGrpc tr" "\<And>u. reParse e u \<noteq> None"
  shows "\<exists>q' r'. prepareRequest e tr q r = Some (q', r', True) \<and> rqHttp q' \<noteq> None \<and> ivRetries r' = ivRetries r"
proof -
  obtain path where p: "reParse e (rqURL q) = Some path" using assms(2) by fastforce
  obtain q' where "addOrUpdateRequestId e (trTarget tr) (q\<lparr>rqHttp := Some (rqURL q)\<rparr>) = Some q'" "rqHttp q' \<noteq> None"
    using addOrUpdateRequestId_total [of "q\<lparr>rqHttp := Some (rqURL q)\<rparr>" e "trTarget tr"] by auto
  then show ?thesis using assms(1) p by (auto simp: prepareRequest_def Let_def split: list.split)
qed

lemma prepare_retry_total:
  assumes "\<not> trGrpc tr" "\<And>u. reParse e u \<noteq> None" "rqHttp q \<noteq> None"
  shows "\<exists>q' r'. prepare_retry e tr requestID i q r = Some (q', r') \<and> rqHttp q' \<noteq> None \<and> ivRetries r' = ivRetries r"
proof -
  let ?r = "r\<lparr>LastRetryReason := retryReason r, FailedURLs := mbump (rqURL q) (FailedURLs r)\<rparr>"
  let ?q = "q\<lparr>rqID := requestID @ ''-'' @ Itoa (int i + 2), rqHeaders := mput ''Goto-Retry-Count'' (Itoa (int i + 1)) (rqHeaders q)\<rparr>"
  have h: "addOrUpdateHeader ''Goto-Retry-Count'' (Itoa (int i + 1)) (q\<lparr>rqID := requestID @ ''-'' @ Itoa (int i + 2)\<rparr>) = Some ?q"
    using assms(3) by (auto simp: addOrUpdateHeader_def)
  show ?thesis
  proof (cases "spFallback (trTarget tr) \<and> i < length (spBURLS (trTarget tr))")
    case True
    then show ?thesis
      using prepareRequest_total [where e = e and tr = tr and q = "?q\<lparr>rqURL := spBURLS (trTarget tr) ! i\<rparr>" and r = ?r] assms(1,2) h
      by (auto simp: prepare_retry_def Let_def)
  next
    case False
    then show ?thesis using addOrUpdateRequestId_total [of ?q e "trTarget tr"] assms(3) h by (auto simp: prepare_retry_def Let_def)
  qed
qed

lemma retry_loop_tries:
  assumes "\<not> trGrpc tr" "trOnHeaders tr" "net_answers io" "\<And>u. reParse e u \<noteq> None" "rqHttp q \<noteq> None" "0 \<le> spRetries (trTarget tr)"
    and "n + i = nat (spRetries (trTarget tr))"
  shows "\<exists>r' st'. retry_loop e tr requestID io (Suc n) i q r st = Some (r', st') \<and>
    ivRetries r' = ivRetries r + (if 0 < i then 1 else 0) + int (failed_tries tr io n i) \<and>
    RetriesCount st' = RetriesCount st + int (failed_tries tr io n i) \<and> TotalRequests st' = TotalRequests st + 1 + int (failed_tries tr io n i)"
  using assms(5,7)
proof (induction n arbitrary: i q r st)
  case 0
  let ?r = "if 0 < i then r\<lparr>ivRetries := ivRetries r + 1\<rparr> else r"
  obtain r' where "inv_invoke tr q (atReply (io i)) ?r st = Some (r', trackRequestInResult st)" "ivRetries r' = ivRetries ?r"
    using http_invoke [OF assms(1,2) 0(1) assms(3)] by blast
  moreover have "\<not> atStop (io i)" "\<not> atStopLater (io i)" "\<not> int i < spRetries (trTarget tr)" using assms(3,6) 0(2) by (auto simp: net_answers_def)
  ultimately show ?case by (auto simp: trackRequestInResult_def Let_def)
next
  case (Suc n)
  let ?r = "if 0 < i then r\<lparr>ivRetries := ivRetries r + 1\<rparr> else r"
  obtain r1 where r1: "inv_invoke tr q (atReply (io i)) ?r st = Some (r1, trackRequestInResult st)" "ivRetries r1 = ivRetries ?r"
    "shouldRetry (trTarget tr) r1 \<longleftrightarrow> retriable tr (atReply (io i))"
    using http_invoke [OF assms(1,2) Suc.prems(1) assms(3)] by blast
  have ns: "\<not> atStop (io i)" "\<not> atStopLater (io i)" and more: "int i < spRetries (trTarget tr)" using assms(3,6) Suc.prems(2) by (auto simp: net_answers_def)
  show ?case
  proof (cases "retriable tr (atReply (io i))")
    case False
    then show ?thesis using r1 ns by (auto simp: trackRequestInResult_def Let_def)
  next
    case True
    obtain q2 r2 where p: "prepare_retry e tr requestID i q r1 = Some (q2, r2)" "rqHttp q2 \<noteq> None" "ivRetries r2 = ivRetries r1"
      using prepare_retry_total [OF assms(1,4) Suc.prems(1)] by blast
    have "retry_loop e tr requestID io (Suc (Suc n)) i q r st = retry_loop e tr requestID io (Suc n) (Suc i) q2 r2 (incrementRetriesCount (trackRequestInResult st))"
      using r1 ns more True p(1) by (simp add: Let_def)
    moreover have "n + Suc i = nat (spRetries (trTarget tr))" using Suc.prems(2) by simp
    ultimately show ?thesis
      using Suc.IH [OF p(2), of "Suc i" r2 "incrementRetriesCount (trackRequestInResult st)"] True p(3) r1(2)
      by (auto simp: incrementRetriesCount_def trackRequestInResult_def simp del: retry_loop.simps)
  qed
qed

lemma validate_from_retries: "ivRetries (validate_from m as i errs r) = ivRetries r"
  by (induction m as i errs r rule: validate_from.induct) (auto simp: Let_def)

lemma tracking_keeps:
  "trackStatus c cs ss st = Some st' \<Longrightarrow> RetriesCount st' = RetriesCount st \<and> TotalRequests st' = TotalRequests st"
  "reportRepeatedResponse b st = Some st' \<Longrightarrow> RetriesCount st' = RetriesCount st \<and> TotalRequests st' = TotalRequests st"
  by (auto simp: tracking_defs split: if_splits)

lemma processing_keeps:
  "processResponse m t r st = Some (r', st') \<Longrightarrow> ivRetries r' = ivRetries r \<and> RetriesCount st' = RetriesCount st \<and> TotalRequests st' = TotalRequests st"
  "processError m t x r st = Some (r', st') \<Longrightarrow> ivRetries r' = ivRetries r \<and> RetriesCount st' = RetriesCount st \<and> TotalRequests st' = TotalRequests st"
  by (auto simp: processResponse_def processError_def validateResponse_def validate_from_retries trackError_def Let_def dest: tracking_keeps split: if_splits)

text \<open>A request is tried again after every error and every retriable status, until a try succeeds or all retries are used: the tries
  always end, and the result and the status count exactly the tries that failed and were followed by another one.\<close>
theorem retries_counted:
  assumes "\<not> trGrpc tr" "trOnHeaders tr" "net_answers io" "\<And>u. reParse e u \<noteq> None" "0 \<le> spRetries (trTarget tr)"
  shows "invokeWithRetries e tr requestID targetID sub io True st \<noteq> None \<and>
    (\<forall>stop r st'. invokeWithRetries e tr requestID targetID sub io stop st = Some (r, st') \<longrightarrow>
       ivRetries r = int (failed_tries tr io (nat (spRetries (trTarget tr))) 0) \<and> RetriesCount st' = RetriesCount st + ivRetries r \<and>
       TotalRequests st' = TotalRequests st + 1 + ivRetries r)"
proof -
  let ?q = "\<lparr>rqID = requestID, rqTargetID = targetID, rqURL = prepareRequestURL e (trTarget tr) sub, rqURI = [],
     rqHeaders = prepareRequestHeaders (trTarget tr) targetID, rqHttp = None\<rparr>" and ?r = "newInvocationResult (spName (trTarget tr)) targetID requestID"
  let ?n = "nat (spRetries (trTarget tr))"
  obtain q r0 where q: "prepareRequest e tr ?q ?r = Some (q, r0, True)" "rqHttp q \<noteq> None" "ivRetries r0 = 0"
    using prepareRequest_total [where q = ?q and r = ?r, OF assms(1,4)] by (auto simp: newInvocationResult_def)
  obtain r1 st1 where l: "retry_loop e tr requestID io (Suc ?n) 0 q r0 st = Some (r1, st1)" "ivRetries r1 = int (failed_tries tr io ?n 0)"
    "RetriesCount st1 = RetriesCount st + int (failed_tries tr io ?n 0)" "TotalRequests st1 = TotalRequests st + 1 + int (failed_tries tr io ?n 0)"
    using retry_loop_tries [OF assms(1-4) q(2) assms(5), of ?n 0 requestID r0 st] q(3) by auto
  have "nat (spRetries (trTarget tr) + 1) = Suc ?n" using assms(5) by simp
  then have "invokeWithRetries e tr requestID targetID sub io stop st =
      (if stop then Some (r1, st1)
       else case ivErr r1 of None \<Rightarrow> processResponse (reMatch e) (trTarget tr) r1 st1 | Some x \<Rightarrow> processError (reMatch e) (trTarget tr) x r1 st1)" for stop
    using q l(1) by (simp add: invokeWithRetries_def newInvocationRequest_def del: retry_loop.simps)
  then show ?thesis using l(2-4) by (auto split: if_splits option.splits dest!: processing_keeps)
qed

definition sample_tracker :: tracker where
  "sample_tracker = \<lparr>trTarget = (plain_spec ''t'' ''http://a'')\<lparr>spRetries := 3, spRetriable := [503]\<rparr>, trOnHeaders = True, trGrpc = False, trPayloads = [[]],
     trWriter = False, trCustomID = []\<rparr>"

definition sample_req_env :: req_env where
  "sample_req_env = \<lparr>reParse = (\<lambda>u. Some u), reQuery = (\<lambda>u _. u), reUUID = [], reRandom = (\<lambda>_. 0), reMatch = (\<lambda>_ _. True)\<rparr>"

definition sample_resp :: "int \<Rightarrow> http_resp" where
  "sample_resp c = \<lparr>rsStatus = Itoa c, rsCode = c, rsHeaders = [], rsData = [], rsReadError = []\<rparr>"

definition sample_attempts :: "nat \<Rightarrow> attempt" where
  "sample_attempts i = \<lparr>atStop = False, atStopLater = False,
     atReply = (if i = 0 then HttpReply (Some ''refused'') None else if i = 1 then HttpReply None (Some (sample_resp 503)) else HttpReply None (Some (sample_resp 200)))\<rparr>"

theorem retries_counted_witness:
  "\<exists>r st. invokeWithRetries sample_req_env sample_tracker ''r'' ''t'' None sample_attempts True new_tracked_status = Some (r, st) \<and> ivRetries r = 2 \<and> TotalRequests st = 3"
proof -
  have "net_answers sample_attempts" by (simp add: net_answers_def sample_attempts_def)
  moreover have "failed_tries sample_tracker sample_attempts 3 0 = 2"
    by (simp add: numeral_eq_Suc sample_attempts_def sample_tracker_def sample_resp_def plain_spec_def)
  ultimately show ?thesis
    using retries_counted [of sample_tracker sample_attempts sample_req_env "''r''" "''t''" None new_tracked_status]
    by (auto simp: sample_tracker_def sample_req_env_def plain_spec_def new_tracked_status_def)
qed

section \<open>Replies that panic\<close>

lemma new_request_http:
  assumes "\<not> trGrpc tr" "\<And>u. reParse e u \<noteq> None"
  shows "\<exists>q r. newInvocationRequest e tr requestID targetID sub = Some (q, r) \<and> rqHttp q \<noteq> None"
  using prepareRequest_total [OF assms] by (fastforce simp: newInvocationRequest_def)

text \<open>Only the HTTP proxy sets a handler for the headers of a response. Without one, as for client targets, triggers and jobs, the first
  response that an HTTP target sends back panics.\<close>
theorem response_without_handler_panics:
  assumes "\<not> trGrpc tr" "\<not> trOnHeaders tr" "\<And>u. reParse e u \<noteq> None" "0 \<le> spRetries (trTarget tr)"
    and "\<not> atStop (io 0)" "\<not> atStopLater (io 0)" "atReply (io 0) = HttpReply None (Some h)"
  shows "invokeWithRetries e tr requestID targetID sub io stop st = None"
proof -
  obtain q r where q: "newInvocationRequest e tr requestID targetID sub = Some (q, r)" "rqHttp q \<noteq> None" using new_request_http [OF assms(1,3)] by blast
  have "nat (spRetries (trTarget tr) + 1) = Suc (nat (spRetries (trTarget tr)))" using assms(4) by simp
  then show ?thesis using q assms(1,2,5-7) by (auto simp: invokeWithRetries_def inv_invoke_def processHTTPResponse_def Let_def)
qed

theorem response_without_handler_panics_witness:
  "invokeWithRetries sample_req_env (sample_tracker\<lparr>trOnHeaders := False\<rparr>) ''r'' ''t'' None
     (\<lambda>_. \<lparr>atStop = False, atStopLater = False, atReply = HttpReply None (Some (sample_resp 200))\<rparr>) False new_tracked_status = None"
  by (rule response_without_handler_panics [where h = "sample_resp 200"]) (simp_all add: sample_tracker_def sample_req_env_def plain_spec_def)

text \<open>A gRPC request that is to be tried again panics, because the retry header is set on the HTTP request, which a gRPC request does not have.\<close>
theorem grpc_retry_panics:
  assumes "trGrpc tr" "0 < spRetries (trTarget tr)" "\<not> atStop (io 0)" "\<not> atStopLater (io 0)" "atReply (io 0) = GrpcReply (x # xs) (g # gs)"
  shows "invokeWithRetries e tr requestID targetID sub io stop st = None"
proof -
  have "nat (spRetries (trTarget tr) + 1) = Suc (nat (spRetries (trTarget tr)))" using assms(2) by simp
  then show ?thesis using assms
    by (simp add: invokeWithRetries_def newInvocationRequest_def prepareRequest_def inv_invoke_def processGRPCResponse_def shouldRetry_def prepare_retry_def
        addOrUpdateHeader_def Let_def)
qed

theorem grpc_retry_panics_witness:
  "invokeWithRetries sample_req_env (sample_tracker\<lparr>trGrpc := True\<rparr>) ''r'' ''t'' None
     (\<lambda>_. \<lparr>atStop = False, atStopLater = False, atReply = GrpcReply [''unavailable''] [\<lparr>gsCode = 503, gsHeaders = [], gsPayloads = 0, gsClientStream = 0, gsServerStream = 0\<rparr>]\<rparr>)
     False new_tracked_status = None"
  by (rule grpc_retry_panics) (simp_all add: sample_tracker_def plain_spec_def)

section \<open>Header assertions\<close>

lemma assertion_regexps_keys:
  "assertion_regexps e hs m = Some m' \<Longrightarrow> fst ` set m \<subseteq> fst ` set m' \<and> (\<forall>(h, hv)\<in>set hs. h \<noteq> [] \<longrightarrow> ToLower h \<in> fst ` set m')"
proof (induction e hs m rule: assertion_regexps.induct)
  case (2 e h hv hs m)
  then show ?case by (auto simp: AList.dom_update split: if_splits)
qed simp

text \<open>An assertion about a header fails for every HTTP response whose header names have a capital letter, as canonical names do, unless the
  names of the response are turned to lower case: the names of the assertion are turned to lower case and compared as they are.\<close>
theorem header_assertion_fails:
  assumes "prepare_assertion e binary a = Some a'" "(h, hv) \<in> set (asHeaders a)" "h \<noteq> []" "\<forall>k\<in>fst ` set (ivHeaders r). ToLower k \<noteq> k"
  shows "EHeaders \<in> set (assertion_errors match a' r)"
proof -
  have hs: "asHeaders a \<noteq> []" using assms(2) by auto
  then obtain m where m: "assertion_regexps e (asHeaders a) [] = Some m" "asRegexps a' = m"
    using assms(1) by (auto simp: prepare_assertion_def Let_def split: if_splits)
  then obtain x where x: "(ToLower h, x) \<in> set m" using assertion_regexps_keys [OF m(1)] assms(2,3) by fastforce
  have "mget (ivHeaders r) (ToLower h) = None" using assms(4) by (fastforce simp: map_of_eq_None_iff)
  then have "\<not> ContainsAllHeaders (ivHeaders r) (map (\<lambda>(h, p). (h, map_option match p)) m)"
    using x assms(3) by (force simp: ContainsAllHeaders_def list_all_iff)
  moreover have "m \<noteq> []" using x by auto
  ultimately show ?thesis by (simp add: assertion_errors_def m(2))
qed

definition sample_assertion :: assertion where
  "sample_assertion = \<lparr>asStatusCode = 200, asPayloadSize = 0, asPayload = [], asHeaders = [(''Content-Type'', '''')], asRetries = 0, asFailedURL = [],
     asSuccessURL = [], asRegexps = [], asBytes = []\<rparr>"

theorem header_assertion_fails_witness:
  "\<exists>a'. prepare_assertion plain_env False sample_assertion = Some a' \<and>
     assertion_errors (\<lambda>_ _. True) a' ((newInvocationResult ''t'' ''t'' ''r'')\<lparr>ivStatusCode := 200, ivHeaders := [(''Content-Type'', [''text/plain''])]\<rparr>) = [EHeaders]"
proof -
  let ?r = "(newInvocationResult ''t'' ''t'' ''r'')\<lparr>ivStatusCode := 200, ivHeaders := [(''Content-Type'', [''text/plain''])]\<rparr>"
  obtain a' where a': "prepare_assertion plain_env False sample_assertion = Some a'" by (simp add: prepare_assertion_def sample_assertion_def)
  have "ToLower ''Content-Type'' \<noteq> ''Content-Type''" by code_simp
  then have "EHeaders \<in> set (assertion_errors (\<lambda>_ _. True) a' ?r)"
    by (intro header_assertion_fails [OF a', of "''Content-Type''" "[]"]) (simp_all add: sample_assertion_def)
  then show ?thesis using a' by (auto simp: prepare_assertion_def sample_assertion_def assertion_errors_def newInvocationResult_def Let_def split: if_splits)
qed

end
