(* ===== verification/Invocation_Run.thy ===== *)
theory Invocation_Run
  imports Goto_Prelude
begin

text \<open>
  How an invocation is run (\<open>pkg/invocation/invocation.go\<close>): \<open>StartInvocation\<close> starts a runner per replica and hands out requests as
  the runners report that they are done. The goroutines are interleaved: a state has where the invoking goroutine is, where each
  runner is and how many requests are in its channel, and the runners in the channel \<open>runnersDoneChan\<close>. An invocation by a runner is
  one step that begins and one that ends it. A runner is its position in the order of starting.
\<close>

section \<open>The state machine\<close>

datatype runner_pc = Checking | Waiting | Invoking | Exited

record runner =
  runnerPc :: runner_pc
  runnerQueue :: nat

datatype main_pc = Starting | AtLoop | Receiving | LoopLeft

record run_state =
  rsMain :: main_pc
  rsRunners :: "runner list"
  rsDone :: "nat list"
  AssignedRequests :: nat
  CompletedRequests :: nat
  rsStopRequested :: bool
  rsStopped :: bool

definition run_start :: run_state where
  "run_start = \<lparr>rsMain = Starting, rsRunners = [], rsDone = [], AssignedRequests = 0, CompletedRequests = 0, rsStopRequested = False, rsStopped = False\<rparr>"

text \<open>\<open>NewTargetRunner\<close> with the first request in its channel, which has room for ten.\<close>

definition NewTargetRunner :: runner where
  "NewTargetRunner = \<lparr>runnerPc = Checking, runnerQueue = 0\<rparr>"

definition sendInvocation :: "runner \<Rightarrow> runner option" where
  "sendInvocation r = (if runnerQueue r < 10 then Some (r\<lparr>runnerQueue := runnerQueue r + 1\<rparr>) else None)"

text \<open>One turn of the loop of \<open>processInvocations\<close>; sending to the full channel \<open>runnersDoneChan\<close> waits.\<close>

inductive runner_step :: "nat \<Rightarrow> nat \<Rightarrow> run_state \<Rightarrow> run_state \<Rightarrow> bool" for replicas i s where
  check: "i < length (rsRunners s) \<Longrightarrow> runnerPc (rsRunners s ! i) = Checking \<Longrightarrow>
    runner_step replicas i s (s\<lparr>rsRunners := (rsRunners s)[i := (rsRunners s ! i)
      \<lparr>runnerPc := (if rsStopped s \<or> rsStopRequested s then Exited else Waiting)\<rparr>]\<rparr>)"
| take: "i < length (rsRunners s) \<Longrightarrow> runnerPc (rsRunners s ! i) = Waiting \<Longrightarrow> 0 < runnerQueue (rsRunners s ! i) \<Longrightarrow>
    runner_step replicas i s (s\<lparr>rsRunners := (rsRunners s)[i := \<lparr>runnerPc = Invoking, runnerQueue = runnerQueue (rsRunners s ! i) - 1\<rparr>]\<rparr>)"
| report: "i < length (rsRunners s) \<Longrightarrow> runnerPc (rsRunners s ! i) = Invoking \<Longrightarrow> length (rsDone s) < replicas \<Longrightarrow>
    runner_step replicas i s (s\<lparr>rsRunners := (rsRunners s)[i := (rsRunners s ! i)\<lparr>runnerPc := Checking\<rparr>], rsDone := rsDone s @ [i]\<rparr>)"

text \<open>The steps of \<open>StartInvocation\<close> itself; \<open>tot\<close> is the number of requests.\<close>

inductive main_step :: "nat \<Rightarrow> nat \<Rightarrow> run_state \<Rightarrow> run_state \<Rightarrow> bool" for replicas tot s where
  spawn: "rsMain s = Starting \<Longrightarrow> length (rsRunners s) < replicas \<Longrightarrow> sendInvocation NewTargetRunner = Some r \<Longrightarrow>
    main_step replicas tot s (s\<lparr>rsRunners := rsRunners s @ [r], AssignedRequests := AssignedRequests s + 1\<rparr>)"
| spawned: "rsMain s = Starting \<Longrightarrow> length (rsRunners s) = replicas \<Longrightarrow> main_step replicas tot s (s\<lparr>rsMain := AtLoop\<rparr>)"
| stopping: "rsMain s = AtLoop \<Longrightarrow> rsStopRequested s \<Longrightarrow> main_step replicas tot s (s\<lparr>rsMain := LoopLeft, rsStopped := True\<rparr>)"
| waiting: "rsMain s = AtLoop \<Longrightarrow> \<not> rsStopRequested s \<Longrightarrow> main_step replicas tot s (s\<lparr>rsMain := Receiving\<rparr>)"
| assign: "rsMain s = Receiving \<Longrightarrow> rsDone s = i # ds \<Longrightarrow> AssignedRequests s < tot \<Longrightarrow> sendInvocation (rsRunners s ! i) = Some r \<Longrightarrow>
    main_step replicas tot s (s\<lparr>rsMain := AtLoop, rsDone := ds, CompletedRequests := CompletedRequests s + 1,
      AssignedRequests := AssignedRequests s + 1, rsRunners := (rsRunners s)[i := r]\<rparr>)"
| drain: "rsMain s = Receiving \<Longrightarrow> rsDone s = i # ds \<Longrightarrow> tot \<le> AssignedRequests s \<Longrightarrow>
    main_step replicas tot s (s\<lparr>rsMain := (if tot \<le> CompletedRequests s + 1 then LoopLeft else AtLoop), rsDone := ds,
      CompletedRequests := CompletedRequests s + 1\<rparr>)"

inductive run_step :: "nat \<Rightarrow> nat \<Rightarrow> run_state \<Rightarrow> run_state \<Rightarrow> bool" for replicas tot where
  main: "main_step replicas tot s t \<Longrightarrow> run_step replicas tot s t"
| runner: "runner_step replicas i s t \<Longrightarrow> run_step replicas tot s t"

text \<open>\<open>processStopRequest\<close> takes a request to stop from the channel.\<close>

inductive stop_step :: "run_state \<Rightarrow> run_state \<Rightarrow> bool" where
  stop: "\<not> rsStopRequested s \<Longrightarrow> \<not> rsStopped s \<Longrightarrow> stop_step s (s\<lparr>rsStopRequested := True\<rparr>)"

text \<open>The states that are reached; the flag says whether requests to stop are made.\<close>

inductive run_reach :: "bool \<Rightarrow> nat \<Rightarrow> nat \<Rightarrow> run_state \<Rightarrow> bool" for stops replicas tot where
  start: "run_reach stops replicas tot run_start"
| step: "run_reach stops replicas tot s \<Longrightarrow> run_step replicas tot s t \<Longrightarrow> run_reach stops replicas tot t"
| stop: "run_reach stops replicas tot s \<Longrightarrow> stops \<Longrightarrow> stop_step s t \<Longrightarrow> run_reach stops replicas tot t"

inductive_cases main_stepE: "main_step replicas tot s t"
inductive_cases runner_stepE: "runner_step replicas i s t"

section \<open>Requests in flight\<close>

text \<open>The requests that a runner has and has not reported, and those it has reported and that were not received.\<close>

definition pending :: "runner \<Rightarrow> nat" where
  "pending r = runnerQueue r + (if runnerPc r = Invoking then 1 else 0)"

definition in_flight :: "run_state \<Rightarrow> nat \<Rightarrow> nat" where
  "in_flight s i = pending (rsRunners s ! i) + count_list (rsDone s) i"

definition all_in_flight :: "run_state \<Rightarrow> nat" where
  "all_in_flight s = length (rsDone s) + sum_list (map pending (rsRunners s))"

definition run_inv :: "bool \<Rightarrow> nat \<Rightarrow> nat \<Rightarrow> run_state \<Rightarrow> bool" where
  "run_inv stops replicas tot s \<longleftrightarrow>
     length (rsRunners s) \<le> replicas \<and> (rsMain s \<noteq> Starting \<longrightarrow> length (rsRunners s) = replicas) \<and>
     (rsMain s = Starting \<longrightarrow> all_in_flight s = length (rsRunners s) \<and> CompletedRequests s = 0) \<and>
     set (rsDone s) \<subseteq> {..<length (rsRunners s)} \<and> (\<forall>i<length (rsRunners s). in_flight s i \<le> 1) \<and>
     AssignedRequests s = CompletedRequests s + all_in_flight s \<and>
     AssignedRequests s \<le> tot \<and>
     (AssignedRequests s < tot \<longrightarrow> rsMain s \<noteq> LoopLeft \<or> rsStopped s) \<and>
     (rsMain s = LoopLeft \<and> \<not> rsStopped s \<longrightarrow> CompletedRequests s = tot) \<and>
     (rsMain s \<in> {AtLoop, Receiving} \<longrightarrow> CompletedRequests s < tot) \<and>
     (rsMain s \<noteq> Starting \<and> AssignedRequests s < tot \<longrightarrow> AssignedRequests s = CompletedRequests s + replicas) \<and>
     (\<not> stops \<longrightarrow> \<not> rsStopRequested s \<and> \<not> rsStopped s \<and> (\<forall>r\<in>set (rsRunners s). runnerPc r \<noteq> Exited))"

lemma sum_pending_upd:
  "i < length rs \<Longrightarrow> sum_list (map pending (rs[i := r])) + pending (rs ! i) = sum_list (map pending rs) + pending r"
  by (induction rs arbitrary: i) (auto simp: nth_Cons' split: nat.split simp: less_Suc_eq_0_disj)

lemma sum_pending_same:
  "i < length rs \<Longrightarrow> pending r = pending (rs ! i) \<Longrightarrow> sum_list (map pending (rs[i := r])) = sum_list (map pending rs)"
  using sum_pending_upd [of i rs r] by simp

lemma run_inv_start: "1 \<le> replicas \<Longrightarrow> run_inv stops replicas tot run_start"
  by (auto simp: run_inv_def run_start_def all_in_flight_def)

lemma run_inv_moved:
  assumes "run_inv stops replicas tot s" and "t = s\<lparr>rsRunners := rs, rsDone := ds\<rparr>" and "length rs = length (rsRunners s)"
    and "set ds \<subseteq> {..<length rs}" and "\<And>k. in_flight t k = in_flight s k"
    and "all_in_flight t = all_in_flight s"
    and "\<not> stops \<Longrightarrow> \<forall>r\<in>set rs. runnerPc r \<noteq> Exited"
  shows "run_inv stops replicas tot t"
  using assms by (simp add: run_inv_def)

lemma not_exited_upd:
  "run_inv stops replicas tot s \<Longrightarrow> \<not> stops \<Longrightarrow> runnerPc r \<noteq> Exited \<Longrightarrow> \<forall>q\<in>set ((rsRunners s)[i := r]). runnerPc q \<noteq> Exited"
  using set_update_subset_insert [of "rsRunners s" i r] by (auto simp: run_inv_def)

lemma run_inv_done: "run_inv stops replicas tot s \<Longrightarrow> set (rsDone s) \<subseteq> {..<length (rsRunners s)}"
  by (simp add: run_inv_def)

lemma run_inv_runner:
  assumes inv: "run_inv stops replicas tot s" and "runner_step replicas i s t"
  shows "run_inv stops replicas tot t"
  using assms(2)
proof cases
  case check
  let ?r = "(rsRunners s ! i)\<lparr>runnerPc := (if rsStopped s \<or> rsStopRequested s then Exited else Waiting)\<rparr>"
  have p: "pending ?r = pending (rsRunners s ! i)" using check(3) by (simp add: pending_def)
  have "in_flight t k = in_flight s k" for k using p check(2) unfolding check(1) in_flight_def by (cases "k = i") simp_all
  moreover have "\<not> stops \<Longrightarrow> \<forall>q\<in>set ((rsRunners s)[i := ?r]). runnerPc q \<noteq> Exited"
    using inv by (intro not_exited_upd [OF inv]) (auto simp: run_inv_def)
  ultimately show ?thesis
    using run_inv_done [OF inv] sum_pending_same [OF check(2) p]
    by (intro run_inv_moved [OF inv, where rs = "(rsRunners s)[i := ?r]" and ds = "rsDone s"]) (simp_all add: check(1) all_in_flight_def)
next
  case take
  let ?r = "\<lparr>runnerPc = Invoking, runnerQueue = runnerQueue (rsRunners s ! i) - 1\<rparr>"
  have p: "pending ?r = pending (rsRunners s ! i)" using take(3,4) by (simp add: pending_def)
  have "in_flight t k = in_flight s k" for k using p take(2) unfolding take(1) in_flight_def by (cases "k = i") simp_all
  then show ?thesis
    using run_inv_done [OF inv] sum_pending_same [OF take(2) p] not_exited_upd [OF inv, of ?r i]
    by (intro run_inv_moved [OF inv, where rs = "(rsRunners s)[i := ?r]" and ds = "rsDone s"]) (simp_all add: take(1) all_in_flight_def)
next
  case report
  let ?r = "(rsRunners s ! i)\<lparr>runnerPc := Checking\<rparr>"
  have p: "pending (rsRunners s ! i) = pending ?r + 1" using report(3) by (simp add: pending_def)
  have "in_flight t k = in_flight s k" for k using p report(2) unfolding report(1) in_flight_def by (cases "k = i") simp_all
  then show ?thesis
    using run_inv_done [OF inv] sum_pending_upd [OF report(2), of ?r] p not_exited_upd [OF inv, of ?r i] report(2)
    by (intro run_inv_moved [OF inv, where rs = "(rsRunners s)[i := ?r]" and ds = "rsDone s @ [i]"]) (simp_all add: report(1) all_in_flight_def)
qed

lemma run_inv_main:
  assumes inv: "run_inv stops replicas tot s" and "main_step replicas tot s t" and "1 \<le> replicas" "replicas \<le> tot"
  shows "run_inv stops replicas tot t"
  using assms(2)
proof cases
  case (spawn r)
  then have r: "r = \<lparr>runnerPc = Checking, runnerQueue = 1\<rparr>" by (simp add: sendInvocation_def NewTargetRunner_def split: if_splits)
  have "count_list (rsDone s) (length (rsRunners s)) = 0" using run_inv_done [OF inv] by (intro count_notin) auto
  then have "in_flight t k = (if k = length (rsRunners s) then 1 else in_flight s k)" if "k \<le> length (rsRunners s)" for k
    using that by (auto simp: spawn(1) in_flight_def r pending_def nth_append)
  then have "\<forall>k<length (rsRunners t). in_flight t k \<le> 1" using inv by (auto simp: spawn(1) run_inv_def less_Suc_eq)
  then show ?thesis using inv spawn(2,3) assms(4) by (auto simp: spawn(1) run_inv_def r pending_def all_in_flight_def)
next
  case spawned
  then show ?thesis using inv assms(3,4) by (auto simp: run_inv_def in_flight_def all_in_flight_def)
next
  case stopping
  then show ?thesis using inv by (auto simp: run_inv_def in_flight_def all_in_flight_def)
next
  case waiting
  then show ?thesis using inv by (auto simp: run_inv_def in_flight_def all_in_flight_def)
next
  case (assign i ds r)
  then have i: "i < length (rsRunners s)" "in_flight s i \<le> 1" using inv by (auto simp: run_inv_def)
  then have q: "runnerQueue (rsRunners s ! i) = 0" using assign(3) by (simp add: in_flight_def pending_def)
  then have r: "r = (rsRunners s ! i)\<lparr>runnerQueue := 1\<rparr>" using assign(5) by (simp add: sendInvocation_def)
  have p: "pending r = pending (rsRunners s ! i) + 1" by (simp add: r q pending_def)
  have "in_flight t k = in_flight s k" for k using p i(1) unfolding assign(1) in_flight_def by (cases "k = i") (simp_all add: assign(3))
  moreover have "\<not> stops \<Longrightarrow> \<forall>q\<in>set ((rsRunners s)[i := r]). runnerPc q \<noteq> Exited"
    using inv i(1) by (intro not_exited_upd [OF inv]) (auto simp: run_inv_def r)
  moreover have "set ds \<subseteq> {..<replicas}" using inv assign(2,3) by (auto simp: run_inv_def)
  ultimately show ?thesis using inv assign(2-4) sum_pending_upd [OF i(1), of r] p by (simp add: assign(1) run_inv_def all_in_flight_def)
next
  case (drain i ds)
  have "in_flight t k \<le> in_flight s k" for k unfolding drain(1) in_flight_def by (simp add: drain(3))
  moreover have "\<forall>k<length (rsRunners s). in_flight s k \<le> 1" "rsRunners t = rsRunners s" using inv by (simp_all add: run_inv_def drain(1))
  ultimately have "\<forall>k<length (rsRunners t). in_flight t k \<le> 1" using le_trans by fastforce
  moreover have "set ds \<subseteq> {..<replicas}" using inv drain(2,3) by (auto simp: run_inv_def)
  ultimately show ?thesis using inv drain(2-4) by (simp add: run_inv_def drain(1) all_in_flight_def)
qed

lemma run_inv_reach:
  assumes "run_reach stops replicas tot s" "1 \<le> replicas" "replicas \<le> tot"
  shows "run_inv stops replicas tot s"
  using assms(1)
proof induction
  case (step s t)
  from step(2) show ?case
    by cases (use run_inv_main [OF step.IH _ assms(2,3)] run_inv_runner [OF step.IH] in blast)+
next
  case (stop s t)
  from stop(3) show ?case by cases (use stop.IH stop(2) in \<open>auto simp: run_inv_def in_flight_def all_in_flight_def\<close>)
qed (rule run_inv_start [OF assms(2)])

section \<open>An invocation completes\<close>

text \<open>What is left to do: every request has a bounded number of steps.\<close>

fun pc_rank :: "runner_pc \<Rightarrow> nat" where
  "pc_rank Checking = 1" | "pc_rank Waiting = 0" | "pc_rank Invoking = 2" | "pc_rank Exited = 0"

definition runner_work :: "runner \<Rightarrow> nat" where
  "runner_work r = 3 * runnerQueue r + pc_rank (runnerPc r)"

fun main_rank :: "main_pc \<Rightarrow> nat" where
  "main_rank Starting = 3" | "main_rank AtLoop = 2" | "main_rank Receiving = 1" | "main_rank LoopLeft = 0"

definition work :: "nat \<Rightarrow> nat \<Rightarrow> run_state \<Rightarrow> nat" where
  "work replicas tot s =
     5 * (replicas - length (rsRunners s)) + 3 * (tot - AssignedRequests s) + 2 * (tot - CompletedRequests s) +
     sum_list (map runner_work (rsRunners s)) + main_rank (rsMain s)"

lemma sum_work_upd:
  "i < length rs \<Longrightarrow> sum_list (map runner_work (rs[i := r])) + runner_work (rs ! i) = sum_list (map runner_work rs) + runner_work r"
  by (induction rs arbitrary: i) (auto simp: nth_Cons' split: nat.split simp: less_Suc_eq_0_disj)

lemma work_runner:
  assumes "runner_step replicas i s t"
  shows "work replicas tot t < work replicas tot s"
  using assms
proof cases
  case check
  then show ?thesis
    using sum_work_upd [OF check(2), of "(rsRunners s ! i)\<lparr>runnerPc := (if rsStopped s \<or> rsStopRequested s then Exited else Waiting)\<rparr>"]
    by (cases "rsStopped s \<or> rsStopRequested s") (simp_all add: work_def runner_work_def)
next
  case take
  then obtain q where "runnerQueue (rsRunners s ! i) = Suc q" by (cases "runnerQueue (rsRunners s ! i)") auto
  then show ?thesis using take sum_work_upd [OF take(2), of "\<lparr>runnerPc = Invoking, runnerQueue = q\<rparr>"] by (simp add: work_def runner_work_def)
next
  case report
  then show ?thesis using sum_work_upd [OF report(2), of "(rsRunners s ! i)\<lparr>runnerPc := Checking\<rparr>"] by (simp add: work_def runner_work_def)
qed

lemma work_main:
  assumes inv: "run_inv stops replicas tot s" and "main_step replicas tot s t"
  shows "work replicas tot t < work replicas tot s"
  using assms(2)
proof cases
  case (spawn r)
  then have "runner_work r = 4" by (auto simp: sendInvocation_def NewTargetRunner_def runner_work_def)
  then show ?thesis using spawn(3) inv by (auto simp: spawn(1) work_def run_inv_def)
next
  case (assign i ds r)
  then have i: "i < length (rsRunners s)" "CompletedRequests s < tot" using inv by (auto simp: run_inv_def)
  have "runner_work r = runner_work (rsRunners s ! i) + 3" using assign(5) by (auto simp: sendInvocation_def runner_work_def split: if_splits)
  then show ?thesis using sum_work_upd [OF i(1), of r] i assign(2,4) by (simp add: assign(1) work_def)
next
  case (drain i ds)
  then have "CompletedRequests s < tot" using inv by (simp add: run_inv_def)
  then have "2 * (tot - CompletedRequests s) = Suc (Suc (2 * (tot - Suc (CompletedRequests s))))" by simp
  then show ?thesis using drain(2) by (simp add: drain(1) work_def)
qed (simp_all add: work_def)

lemma run_work:
  assumes "(run_step replicas tot ^^ n) run_start s" "1 \<le> replicas" "replicas \<le> tot"
  shows "run_reach False replicas tot s \<and> n + work replicas tot s \<le> work replicas tot run_start"
  using assms(1)
proof (induction n arbitrary: s)
  case (Suc n)
  then obtain u where u: "(run_step replicas tot ^^ n) run_start u" "run_step replicas tot u s" by auto
  note IH = Suc.IH [OF u(1)]
  have inv: "run_inv False replicas tot u" using IH assms(2,3) by (intro run_inv_reach) auto
  from u(2) have "work replicas tot s < work replicas tot u" by cases (use work_main [OF inv] work_runner in blast)+
  then show ?case using IH u(2) by (auto intro: run_reach.step)
qed (simp add: run_reach.start)

lemma runner_moves:
  assumes inv: "run_inv False replicas tot s" and "i < length (rsRunners s)" "length (rsDone s) < replicas"
    and "runnerPc (rsRunners s ! i) \<noteq> Waiting \<or> 0 < runnerQueue (rsRunners s ! i)"
  shows "\<exists>t. run_step replicas tot s t"
proof -
  have "runnerPc (rsRunners s ! i) \<noteq> Exited" using inv assms(2) by (auto simp: run_inv_def)
  then show ?thesis using assms(2-4)
    by (cases "runnerPc (rsRunners s ! i)") (use runner_step.intros run_step.runner in blast)+
qed

definition run_final :: "nat \<Rightarrow> run_state \<Rightarrow> bool" where
  "run_final tot s \<longleftrightarrow>
     rsMain s = LoopLeft \<and> AssignedRequests s = tot \<and> CompletedRequests s = tot \<and> rsDone s = [] \<and>
     (\<forall>r\<in>set (rsRunners s). r = \<lparr>runnerPc = Waiting, runnerQueue = 0\<rparr>)"

lemma main_moves:
  assumes inv: "run_inv False replicas tot s" and "rsMain s \<noteq> LoopLeft" "rsMain s = Receiving \<Longrightarrow> rsDone s \<noteq> []"
  shows "\<exists>t. run_step replicas tot s t"
proof (cases "rsMain s")
  case Starting
  have "\<exists>r. sendInvocation NewTargetRunner = Some r" by (simp add: sendInvocation_def NewTargetRunner_def)
  moreover have "length (rsRunners s) < replicas \<or> length (rsRunners s) = replicas" using inv by (auto simp: run_inv_def)
  ultimately show ?thesis using Starting main_step.spawn main_step.spawned run_step.main by blast
next
  case AtLoop
  then show ?thesis using inv main_step.waiting run_step.main unfolding run_inv_def by blast
next
  case Receiving
  then obtain i ds where d: "rsDone s = i # ds" using assms(3) by (cases "rsDone s") auto
  then have "in_flight s i \<le> 1" using inv by (auto simp: run_inv_def)
  then have "sendInvocation (rsRunners s ! i) \<noteq> None" by (auto simp: sendInvocation_def in_flight_def pending_def)
  then obtain r where "sendInvocation (rsRunners s ! i) = Some r" by auto
  then show ?thesis using main_step.assign [OF Receiving d] main_step.drain [OF Receiving d] run_step.main
    by (cases "AssignedRequests s < tot") (blast, meson not_less)
qed (use assms(2) in simp)

lemma pending_runner:
  assumes "0 < sum_list (map pending rs)"
  obtains i where "i < length rs" "0 < pending (rs ! i)"
  using assms that by (metis (no_types, lifting) gr0I in_set_conv_nth sum_list_eq_0_iff imageE list.set_map)

lemma run_progress:
  assumes inv: "run_inv False replicas tot s" and "1 \<le> replicas" "\<And>t. \<not> run_step replicas tot s t"
  shows "run_final tot s"
proof -
  have left: "rsMain s = LoopLeft"
  proof (rule ccontr)
    assume "rsMain s \<noteq> LoopLeft"
    then have m: "rsMain s = Receiving" "rsDone s = []" using main_moves [OF inv] assms(3) by blast+
    then have "0 < sum_list (map pending (rsRunners s))" using inv assms(2) by (auto simp: run_inv_def all_in_flight_def)
    then obtain i where i: "i < length (rsRunners s)" "0 < pending (rsRunners s ! i)" by (rule pending_runner)
    then have "\<exists>t. run_step replicas tot s t" using m assms(2) by (intro runner_moves [OF inv i(1)]) (auto simp: pending_def split: if_splits)
    then show False using assms(3) by blast
  qed
  then have c: "CompletedRequests s = tot" "all_in_flight s = 0" "AssignedRequests s = tot" using inv by (auto simp: run_inv_def)
  have "r = \<lparr>runnerPc = Waiting, runnerQueue = 0\<rparr>" if r: "r \<in> set (rsRunners s)" for r
  proof -
    obtain i where i: "i < length (rsRunners s)" "rsRunners s ! i = r" using r by (auto simp: in_set_conv_nth)
    have "pending r = 0" using c(2) r by (auto simp: all_in_flight_def)
    moreover have "runnerPc r = Waiting" using runner_moves [OF inv i(1)] c(2) assms(2,3) i(2) by (auto simp: all_in_flight_def)
    ultimately show ?thesis by (cases r) (simp add: pending_def)
  qed
  then show ?thesis using left c by (simp add: run_final_def all_in_flight_def)
qed

text \<open>C22: Without a request to stop, and if every invocation by a runner returns (it is a step that begins and a step that ends), every
  run of \<open>StartInvocation\<close> has a bounded number of steps however the goroutines are interleaved, and a run that cannot go on has
  left the loop with exactly as many requests assigned and completed as replicas times request count, which is \<open>tot\<close>. Its runners
  then wait for ever for another request: none of them has ended.\<close>
theorem invocation_completes:
  assumes "1 \<le> replicas" "replicas \<le> tot" "(run_step replicas tot ^^ n) run_start s"
  shows "n \<le> 5 * replicas + 5 * tot + 3 \<and> ((\<exists>t. run_step replicas tot s t) \<or> run_final tot s)"
proof -
  note w = run_work [OF assms(3,1,2)]
  have "run_inv False replicas tot s" using w assms(1,2) by (intro run_inv_reach) auto
  then show ?thesis using w run_progress [OF _ assms(1)] by (auto simp: work_def run_start_def)
qed

text \<open>A run with one replica and one request, state by state.\<close>

definition solo :: "main_pc \<Rightarrow> runner_pc \<Rightarrow> nat \<Rightarrow> nat list \<Rightarrow> nat \<Rightarrow> run_state" where
  "solo m pc q ds c = \<lparr>rsMain = m, rsRunners = [\<lparr>runnerPc = pc, runnerQueue = q\<rparr>], rsDone = ds, AssignedRequests = 1, CompletedRequests = c,
     rsStopRequested = False, rsStopped = False\<rparr>"

lemma solo_steps:
  "run_step 1 1 run_start (solo Starting Checking 1 [] 0)" "run_step 1 1 (solo Starting Checking 1 [] 0) (solo AtLoop Checking 1 [] 0)"
  "run_step 1 1 (solo AtLoop Checking 1 [] 0) (solo Receiving Checking 1 [] 0)" "run_step 1 1 (solo Receiving Checking 1 [] 0) (solo Receiving Waiting 1 [] 0)"
  "run_step 1 1 (solo Receiving Waiting 1 [] 0) (solo Receiving Invoking 0 [] 0)" "run_step 1 1 (solo Receiving Invoking 0 [] 0) (solo Receiving Checking 0 [0] 0)"
  "run_step 1 1 (solo Receiving Checking 0 [0] 0) (solo LoopLeft Checking 0 [] 1)" "run_step 1 1 (solo LoopLeft Checking 0 [] 1) (solo LoopLeft Waiting 0 [] 1)"
proof -
  show "run_step 1 1 run_start (solo Starting Checking 1 [] 0)"
    using main_step.spawn [of run_start 1 "\<lparr>runnerPc = Checking, runnerQueue = 1\<rparr>" 1]
    by (intro run_step.main) (simp add: run_start_def solo_def sendInvocation_def NewTargetRunner_def)
  show "run_step 1 1 (solo Starting Checking 1 [] 0) (solo AtLoop Checking 1 [] 0)"
    using main_step.spawned [of "solo Starting Checking 1 [] 0" 1 1] by (intro run_step.main) (simp add: solo_def)
  show "run_step 1 1 (solo AtLoop Checking 1 [] 0) (solo Receiving Checking 1 [] 0)"
    using main_step.waiting [of "solo AtLoop Checking 1 [] 0" 1 1] by (intro run_step.main) (simp add: solo_def)
  show "run_step 1 1 (solo Receiving Checking 1 [] 0) (solo Receiving Waiting 1 [] 0)"
    using runner_step.check [of 0 "solo Receiving Checking 1 [] 0" 1] by (intro run_step.runner [where i = 0]) (simp add: solo_def)
  show "run_step 1 1 (solo Receiving Waiting 1 [] 0) (solo Receiving Invoking 0 [] 0)"
    using runner_step.take [of 0 "solo Receiving Waiting 1 [] 0" 1] by (intro run_step.runner [where i = 0]) (simp add: solo_def)
  show "run_step 1 1 (solo Receiving Invoking 0 [] 0) (solo Receiving Checking 0 [0] 0)"
    using runner_step.report [of 0 "solo Receiving Invoking 0 [] 0" 1] by (intro run_step.runner [where i = 0]) (simp add: solo_def)
  show "run_step 1 1 (solo Receiving Checking 0 [0] 0) (solo LoopLeft Checking 0 [] 1)"
    using main_step.drain [of "solo Receiving Checking 0 [0] 0" 0 "[]" 1 1] by (intro run_step.main) (simp add: solo_def)
  show "run_step 1 1 (solo LoopLeft Checking 0 [] 1) (solo LoopLeft Waiting 0 [] 1)"
    using runner_step.check [of 0 "solo LoopLeft Checking 0 [] 1" 1] by (intro run_step.runner [where i = 0]) (simp add: solo_def)
qed

lemma solo_stuck: "\<not> run_step 1 1 (solo LoopLeft Waiting 0 [] 1) t"
proof
  assume "run_step 1 1 (solo LoopLeft Waiting 0 [] 1) t"
  then show False by cases (auto elim!: main_stepE runner_stepE simp: solo_def)
qed

theorem invocation_completes_witness:
  "\<exists>s. (run_step 1 1 ^^ 8) run_start s \<and> run_final 1 s"
proof -
  have "(run_step 1 1 ^^ Suc (Suc (Suc (Suc (Suc (Suc (Suc (Suc 0)))))))) run_start (solo LoopLeft Waiting 0 [] 1)"
    by (rule relpowp_Suc_I relpowp_0_I solo_steps)+
  moreover have "Suc (Suc (Suc (Suc (Suc (Suc (Suc (Suc 0))))))) = 8" by simp
  ultimately have "(run_step 1 1 ^^ 8) run_start (solo LoopLeft Waiting 0 [] 1)" by metis
  then show ?thesis using invocation_completes [of 1 1 8 "solo LoopLeft Waiting 0 [] 1"] solo_stuck by auto
qed

section \<open>Requests to stop\<close>

lemma count_list_distinct: "(\<And>x. count_list xs x \<le> 1) \<Longrightarrow> distinct xs"
proof (induction xs)
  case (Cons a xs)
  have "count_list xs x \<le> 1" for x using Cons.prems [of x] by (simp split: if_splits)
  moreover have "a \<notin> set xs" using Cons.prems [of a] by (simp add: count_list_0_iff)
  ultimately show ?case using Cons.IH by simp
qed simp

text \<open>However the goroutines are interleaved, and whether the invocation is stopped or not, no runner has more than one request that is not
  received back, so that the sends of \<open>StartInvocation\<close> and of the runners never wait, and never more requests are assigned than
  replicas times request count.\<close>
theorem requests_in_flight:
  assumes "1 \<le> replicas" "replicas \<le> tot" "run_reach stops replicas tot s"
  shows "(\<forall>r\<in>set (rsRunners s). sendInvocation r \<noteq> None) \<and> length (rsDone s) \<le> replicas \<and> CompletedRequests s \<le> AssignedRequests s \<and> AssignedRequests s \<le> tot"
proof -
  have inv: "run_inv stops replicas tot s" by (rule run_inv_reach [OF assms(3,1,2)])
  have "pending r \<le> 1" if "r \<in> set (rsRunners s)" for r
  proof -
    obtain i where i: "i < length (rsRunners s)" "rsRunners s ! i = r" using \<open>r \<in> set (rsRunners s)\<close> by (auto simp: in_set_conv_nth)
    then have "in_flight s i \<le> 1" using inv by (simp add: run_inv_def)
    then show ?thesis by (simp add: in_flight_def i(2))
  qed
  then have "\<forall>r\<in>set (rsRunners s). sendInvocation r \<noteq> None" by (fastforce simp: sendInvocation_def pending_def)
  moreover have "distinct (rsDone s)"
  proof -
    have "count_list (rsDone s) i \<le> 1" for i
    proof (cases "i \<in> set (rsDone s)")
      case True
      then have "in_flight s i \<le> 1" using inv by (auto simp: run_inv_def)
      then show ?thesis by (simp add: in_flight_def)
    qed simp
    then show ?thesis by (rule count_list_distinct)
  qed
  then have "length (rsDone s) \<le> replicas"
    using inv card_mono [of "{..<length (rsRunners s)}" "set (rsDone s)"] by (simp add: run_inv_def distinct_card)
  ultimately show ?thesis using inv by (simp add: run_inv_def)
qed

text \<open>The state after \<open>k\<close> runners are started, and after \<open>k\<close> runners have seen the request to stop.\<close>

definition fresh_runner :: runner where
  "fresh_runner = \<lparr>runnerPc = Checking, runnerQueue = 1\<rparr>"

definition gone_runner :: runner where
  "gone_runner = \<lparr>runnerPc = Exited, runnerQueue = 1\<rparr>"

definition spawned_state :: "nat \<Rightarrow> run_state" where
  "spawned_state k = run_start\<lparr>rsRunners := replicate k fresh_runner, AssignedRequests := k\<rparr>"

definition hung_state :: "nat \<Rightarrow> nat \<Rightarrow> run_state" where
  "hung_state replicas k = run_start\<lparr>rsRunners := replicate k gone_runner @ replicate (replicas - k) fresh_runner, AssignedRequests := replicas,
     rsMain := Receiving, rsStopRequested := True\<rparr>"

lemma spawned_reach: "k \<le> replicas \<Longrightarrow> run_reach stops replicas tot (spawned_state k)"
proof (induction k)
  case 0
  then show ?case using run_reach.start [of stops replicas tot] by (simp add: spawned_state_def run_start_def)
next
  case (Suc k)
  have r: "sendInvocation NewTargetRunner = Some fresh_runner" by (simp add: sendInvocation_def NewTargetRunner_def fresh_runner_def)
  have "main_step replicas tot (spawned_state k) (spawned_state (Suc k))"
    using main_step.spawn [OF _ _ r, of "spawned_state k" replicas tot] Suc.prems
    by (simp add: spawned_state_def run_start_def replicate_append_same)
  then show ?case using Suc by (auto intro: run_reach.step run_step.main)
qed

lemma hung_reach:
  assumes "k \<le> replicas"
  shows "run_reach True replicas tot (hung_state replicas k)"
  using assms
proof (induction k)
  case 0
  let ?s = "(spawned_state replicas)\<lparr>rsMain := AtLoop\<rparr>"
  have "main_step replicas tot (spawned_state replicas) ?s" by (rule main_step.spawned) (simp_all add: spawned_state_def run_start_def)
  then have "run_reach True replicas tot ?s" by (rule run_reach.step [OF spawned_reach [OF le_refl] run_step.main])
  moreover have "main_step replicas tot ?s (?s\<lparr>rsMain := Receiving\<rparr>)" by (rule main_step.waiting) (simp_all add: spawned_state_def run_start_def)
  ultimately have "run_reach True replicas tot (?s\<lparr>rsMain := Receiving\<rparr>)" by (rule run_reach.step [OF _ run_step.main])
  from run_reach.stop [OF this TrueI stop_step.stop] show ?case by (simp add: hung_state_def spawned_state_def run_start_def)
next
  case (Suc k)
  let ?s = "hung_state replicas k"
  have "replicas - k = Suc (replicas - Suc k)" using Suc.prems by simp
  then have rs: "rsRunners ?s = replicate k gone_runner @ fresh_runner # replicate (replicas - Suc k) fresh_runner" by (simp add: hung_state_def)
  then have k: "k < length (rsRunners ?s)" "rsRunners ?s ! k = fresh_runner" by (simp_all add: nth_append)
  then have "runner_step replicas k ?s (?s\<lparr>rsRunners := (rsRunners ?s)[k := gone_runner]\<rparr>)"
    using runner_step.check [OF k(1), of replicas] by (simp add: fresh_runner_def gone_runner_def hung_state_def)
  moreover have "(rsRunners ?s)[k := gone_runner] = replicate (Suc k) gone_runner @ replicate (replicas - Suc k) fresh_runner"
    unfolding rs by (simp add: list_update_append replicate_append_same flip: append_Cons)
  then have "?s\<lparr>rsRunners := (rsRunners ?s)[k := gone_runner]\<rparr> = hung_state replicas (Suc k)" by (simp add: hung_state_def)
  ultimately show ?case using Suc by (metis Suc_leD run_reach.step run_step.runner)
qed

theorem requests_in_flight_witness:
  "\<exists>s. run_reach True 2 6 s \<and> rsStopRequested s \<and> length (rsRunners s) = 2 \<and> length (rsDone s) \<le> 2 \<and> AssignedRequests s \<le> 6"
proof -
  have "run_reach True 2 6 (hung_state 2 1)" by (rule hung_reach) simp
  from requests_in_flight [OF _ _ this] this show ?thesis by (intro exI [of _ "hung_state 2 1"]) (simp add: hung_state_def)
qed

text \<open>An invocation can be left waiting for ever by a request to stop, whatever its replicas and requests are: if the request is seen after
  \<open>StartInvocation\<close> has looked for it and before the runners look for it, all runners end without taking their request,
  and \<open>StartInvocation\<close> waits for them in a state in which nothing can happen any more.\<close>
theorem stop_can_hang:
  assumes "1 \<le> replicas" "replicas \<le> tot"
  shows "\<exists>s. run_reach True replicas tot s \<and> rsMain s = Receiving \<and> rsStopRequested s \<and> CompletedRequests s = 0 \<and>
    (\<forall>t. \<not> run_step replicas tot s t \<and> \<not> stop_step s t)"
proof -
  let ?s = "hung_state replicas replicas"
  have "\<not> run_step replicas tot ?s t" for t
  proof
    assume "run_step replicas tot ?s t"
    then show False
      by cases (auto elim!: main_stepE runner_stepE simp: hung_state_def run_start_def gone_runner_def)
  qed
  moreover have "\<not> stop_step ?s t" for t by (auto simp: hung_state_def elim: stop_step.cases)
  moreover have "rsMain ?s = Receiving \<and> rsStopRequested ?s \<and> CompletedRequests ?s = 0" by (simp add: hung_state_def run_start_def)
  ultimately show ?thesis using hung_reach [OF le_refl, of replicas tot] by blast
qed

theorem stop_can_hang_witness:
  "\<exists>s. run_reach True 3 30 s \<and> rsMain s = Receiving \<and> (\<forall>t. \<not> run_step 3 30 s t)"
  using stop_can_hang [of 3 30] by auto

end
