(* ===== verification/Invocation_Active.thy ===== *)
theory Invocation_Active
  imports Invocation
begin

text \<open>
  The invocations that run (\<open>pkg/invocation/configure.go\<close>): trackers with their channels, the tables of active invocations and targets, and
  the transport clients, which invocations of the same target share. Specifications, transports and trackers are shared objects, held
  by address. A channel is the number of its values; all channels of a tracker are closed and set to nil together. A send that waits for
  ever, on a full or nil channel, and a panic, are \<open>None\<close>.
\<close>

section \<open>Trackers and transports\<close>

record transport_client =
  tpGrpc :: bool
  tpOpen :: bool

record inv_tracker =
  itID :: int
  itTarget :: nat
  itClient :: "nat option"
  itPayloads :: "string list"
  itSinks :: nat
  itChannels :: bool
  itStopSignals :: nat
  itDoneSignals :: nat
  itStopRequested :: bool
  itStopped :: bool
  itClosed :: bool

record inv_state =
  ivSpecs :: "invocation_spec list"
  ivTransports :: "transport_client list"
  ivTrackers :: "inv_tracker list"
  invocationCounter :: int
  activeInvocations :: "(int, nat) gomap"
  activeTargets :: "(string, (int, nat) gomap) gomap"
  targetClients :: "(string, nat) gomap"
  ivOwnTransport :: "(nat, nat) gomap"

definition inv_init :: inv_state where
  "inv_init = \<lparr>ivSpecs = [], ivTransports = [], ivTrackers = [], invocationCounter = 0, activeInvocations = [], activeTargets = [], targetClients = [],
     ivOwnTransport = []\<rparr>"

definition upd_it :: "nat \<Rightarrow> (inv_tracker \<Rightarrow> inv_tracker) \<Rightarrow> inv_state \<Rightarrow> inv_state" where
  "upd_it a f st = st\<lparr>ivTrackers := (ivTrackers st)[a := f (ivTrackers st ! a)]\<rparr>"

definition spec_name :: "inv_state \<Rightarrow> nat \<Rightarrow> string" where
  "spec_name st a = spName (ivSpecs st ! a)"

section \<open>Transports\<close>

definition add_transport :: "bool \<Rightarrow> inv_state \<Rightarrow> inv_state \<times> nat" where
  "add_transport grpc st = (st\<lparr>ivTransports := ivTransports st @ [\<lparr>tpGrpc = grpc, tpOpen = True\<rparr>]\<rparr>, length (ivTransports st))"

text \<open>A client that is created is kept for the next invocation of the target, unless the target is long-running.\<close>

definition keep_client :: "invocation_spec \<Rightarrow> nat \<Rightarrow> inv_state \<Rightarrow> inv_state" where
  "keep_client t c st = (if spLongRunning t then st else st\<lparr>targetClients := mput (spName t) c (targetClients st)\<rparr>)"

definition has_http :: "inv_state \<Rightarrow> nat \<Rightarrow> bool" where
  "has_http st c \<longleftrightarrow> c < length (ivTransports st) \<and> \<not> tpGrpc (ivTransports st ! c) \<and> tpOpen (ivTransports st ! c)"

definition getHttpClientForTarget :: "invocation_spec \<Rightarrow> inv_state \<Rightarrow> inv_state \<times> nat" where
  "getHttpClientForTarget t st =
     (case mget (targetClients st) (spName t) of
        Some c \<Rightarrow> (if has_http st c then (st, c) else (case add_transport False st of (st, c) \<Rightarrow> (keep_client t c st, c)))
      | None \<Rightarrow> (case add_transport False st of (st, c) \<Rightarrow> (keep_client t c st, c)))"

text \<open>\<open>svc\<close>: the services that are known. \<open>ok\<close>: the client can be created.\<close>

definition getGrpcClientForTarget :: "(string \<Rightarrow> bool) \<Rightarrow> bool \<Rightarrow> invocation_spec \<Rightarrow> inv_state \<Rightarrow> inv_state \<times> nat option" where
  "getGrpcClientForTarget svc ok t st =
     (case mget (targetClients st) (spName t) of
        Some c \<Rightarrow> (st, Some c)
      | None \<Rightarrow> (if svc (spService t) \<and> ok then (case add_transport True st of (st, c) \<Rightarrow> (keep_client t c st, Some c)) else (st, None)))"

text \<open>\<open>par\<close>: the specification of which this one is a clone.\<close>

definition createTransport :: "(string \<Rightarrow> bool) \<Rightarrow> bool \<Rightarrow> nat option \<Rightarrow> nat \<Rightarrow> inv_state \<Rightarrow> inv_state \<times> nat option" where
  "createTransport svc ok par a st =
     (let t = ivSpecs st ! a;
          own = (if spLongRunning t then (case par of Some b \<Rightarrow> mget (ivOwnTransport st) b | None \<Rightarrow> None) else None);
          (st, ct) = (case own of
               Some c \<Rightarrow> (st, Some c)
             | None \<Rightarrow>
                 (if spHttp (spProto t) then (case getHttpClientForTarget t st of (st, c) \<Rightarrow> (st, Some c))
                  else if spGrpc (spProto t) then getGrpcClientForTarget svc ok t st else (st, None)))
      in (case ct of
            None \<Rightarrow> (st, None)
          | Some c \<Rightarrow>
              (if spLongRunning t
               then (st\<lparr>ivOwnTransport := (case par of Some b \<Rightarrow> mput b c (mput a c (ivOwnTransport st)) | None \<Rightarrow> mput a c (ivOwnTransport st))\<rparr>, Some c)
               else (st, Some c))))"

definition close_transport :: "nat \<Rightarrow> inv_state \<Rightarrow> inv_state" where
  "close_transport c st = st\<lparr>ivTransports := (ivTransports st)[c := (ivTransports st ! c)\<lparr>tpOpen := False\<rparr>]\<rparr>"

definition RemoveHttpClientForTarget :: "string \<Rightarrow> inv_state \<Rightarrow> inv_state" where
  "RemoveHttpClientForTarget name st =
     (case mget (targetClients st) name of
        None \<Rightarrow> st
      | Some c \<Rightarrow> (close_transport c st)\<lparr>targetClients := mdel name (targetClients st)\<rparr>)"

section \<open>Registering\<close>

text \<open>\<open>b64\<close> decodes base64, \<open>rnd\<close> makes a random payload of a size, \<open>reader\<close> is the content of a body that is read.\<close>

definition tracker_payloads :: "(string \<Rightarrow> string option) \<Rightarrow> (int \<Rightarrow> string) \<Rightarrow> string option \<Rightarrow> invocation_spec \<Rightarrow> string list \<times> invocation_spec" where
  "tracker_payloads b64 rnd reader t =
     (if spStreamPayload t \<noteq> [] then
        (map (\<lambda>p. if spBinary t then (case b64 p of Some b \<Rightarrow> b | None \<Rightarrow> p) else p) (spStreamPayload t), t\<lparr>spBody := []\<rparr>)
      else if 0 < spAutoPayloadSize t then ([rnd (spAutoPayloadSize t)], t\<lparr>spBody := []\<rparr>)
      else if spBody t \<noteq> [] then ([spBody t], t)
      else ([case reader of Some b \<Rightarrow> b | None \<Rightarrow> []], t))"

record reg_env =
  rgService :: "string \<Rightarrow> bool"
  rgGrpcOk :: bool
  rgParent :: "nat option"
  rgBase64 :: "string \<Rightarrow> string option"
  rgRandom :: "int \<Rightarrow> string"
  rgReader :: "string option"
  rgSinks :: nat

definition newTracker :: "reg_env \<Rightarrow> int \<Rightarrow> nat \<Rightarrow> inv_state \<Rightarrow> inv_state \<times> nat option" where
  "newTracker e n a st =
     (case createTransport (rgService e) (rgGrpcOk e) (rgParent e) a st of
        (st, None) \<Rightarrow> (st, None)
      | (st, Some c) \<Rightarrow>
          (case tracker_payloads (rgBase64 e) (rgRandom e) (rgReader e) (ivSpecs st ! a) of
             (ps, t) \<Rightarrow>
               (st\<lparr>ivSpecs := (ivSpecs st)[a := t],
                   ivTrackers := ivTrackers st @ [\<lparr>itID = n, itTarget = a, itClient = Some c, itPayloads = ps, itSinks = rgSinks e, itChannels = True,
                     itStopSignals = 0, itDoneSignals = 0, itStopRequested = False, itStopped = False, itClosed = False\<rparr>]\<rparr>,
                Some (length (ivTrackers st)))))"

text \<open>The counter has 32 bits.\<close>

definition RegisterInvocation :: "reg_env \<Rightarrow> nat \<Rightarrow> inv_state \<Rightarrow> inv_state \<times> nat option" where
  "RegisterInvocation e a st =
     (let n = (invocationCounter st + 1) mod 2 ^ 32 in newTracker e n a (st\<lparr>invocationCounter := n\<rparr>))"

section \<open>Active invocations\<close>

definition activate :: "nat \<Rightarrow> inv_state \<Rightarrow> inv_state" where
  "activate a st =
     (let it = ivTrackers st ! a; name = spec_name st (itTarget it) in
      st\<lparr>activeInvocations := mput (itID it) a (activeInvocations st),
         activeTargets := mput name (mput (itID it) a (mget_or [] (activeTargets st) name)) (activeTargets st)\<rparr>)"

definition chan_Done :: "inv_tracker \<Rightarrow> inv_tracker option" where
  "chan_Done it = (if \<not> itChannels it then Some it else if itDoneSignals it < 2 then Some (it\<lparr>itDoneSignals := itDoneSignals it + 1\<rparr>) else None)"

definition ReadStopRequest :: "inv_tracker \<Rightarrow> inv_tracker" where
  "ReadStopRequest it = (if itChannels it then it\<lparr>itStopSignals := itStopSignals it - 1\<rparr> else it)"

definition chan_Stop :: "inv_tracker \<Rightarrow> inv_tracker option" where
  "chan_Stop it = (if \<not> itChannels it then Some it else if itStopSignals it < 20 then Some (it\<lparr>itStopSignals := itStopSignals it + 1\<rparr>) else None)"

definition chan_Close :: "inv_tracker \<Rightarrow> inv_tracker" where
  "chan_Close it = it\<lparr>itChannels := False, itStopSignals := 0, itDoneSignals := 0\<rparr>"

definition AddSink :: "inv_tracker \<Rightarrow> inv_tracker" where
  "AddSink it = it\<lparr>itSinks := itSinks it + 1\<rparr>"

definition forget_active :: "int \<Rightarrow> string \<Rightarrow> inv_state \<Rightarrow> inv_state" where
  "forget_active n name st =
     (let ts = (case mget (activeTargets st) name of
                  None \<Rightarrow> activeTargets st
                | Some its \<Rightarrow> (if mdel n its = [] then mdel name (activeTargets st) else mput name (mdel n its) (activeTargets st)))
      in st\<lparr>activeInvocations := mdel n (activeInvocations st), activeTargets := ts\<rparr>)"

definition deactivate :: "nat \<Rightarrow> inv_state \<Rightarrow> inv_state option" where
  "deactivate a st =
     (case chan_Done (ivTrackers st ! a) of
        None \<Rightarrow> None
      | Some it \<Rightarrow>
          (let t = ivSpecs st ! itTarget it;
               st = forget_active (itID it) (spName t) (upd_it a (\<lambda>_. (chan_Close (ReadStopRequest it))\<lparr>itClosed := True\<rparr>) st)
           in if spLongRunning t then Some st
              else case itClient it of
                     None \<Rightarrow> None
                   | Some c \<Rightarrow> Some (close_transport c (upd_it a (\<lambda>it. it\<lparr>itClient := None\<rparr>) st))))"

definition GetActiveInvocations :: "inv_state \<Rightarrow> (string, (int, nat) gomap) gomap" where
  "GetActiveInvocations st = map (\<lambda>(name, its). (name, map (\<lambda>(_, a). (itID (ivTrackers st ! a), a)) its)) (activeTargets st)"

definition IsAnyTargetActive :: "string list \<Rightarrow> inv_state \<Rightarrow> bool" where
  "IsAnyTargetActive names st \<longleftrightarrow> (\<exists>n\<in>set names. mget (activeTargets st) n \<noteq> None)"

text \<open>A send on the stop channel, which is nil after the tracker has closed its channels.\<close>

definition stop_tracker :: "inv_tracker \<Rightarrow> inv_tracker option" where
  "stop_tracker it =
     (if itChannels it \<and> 0 < itDoneSignals it then Some (it\<lparr>itDoneSignals := itDoneSignals it - 1\<rparr>)
      else if itStopRequested it \<or> itStopped it then Some it
      else if itChannels it \<and> itStopSignals it < 20 then Some (it\<lparr>itStopSignals := itStopSignals it + 1\<rparr>)
      else None)"

fun stop_trackers :: "(int \<times> nat) list \<Rightarrow> inv_state \<Rightarrow> inv_state option" where
  "stop_trackers [] st = Some st"
| "stop_trackers ((_, a) # its) st =
     (case stop_tracker (ivTrackers st ! a) of None \<Rightarrow> None | Some it \<Rightarrow> stop_trackers its (upd_it a (\<lambda>_. it) st))"

definition StopTarget :: "string \<Rightarrow> inv_state \<Rightarrow> inv_state option" where
  "StopTarget name st = stop_trackers (mget_or [] (activeTargets st) name) st"

text \<open>One turn of the loop of \<open>processStopRequest\<close>.\<close>

definition processStopRequest :: "inv_tracker \<Rightarrow> inv_tracker" where
  "processStopRequest it =
     (if itStopRequested it \<or> itStopped it \<or> \<not> itChannels it \<or> itStopSignals it = 0 then it
      else it\<lparr>itStopSignals := itStopSignals it - 1, itStopRequested := True\<rparr>)"

definition ResetActiveInvocations :: "inv_state \<Rightarrow> inv_state" where
  "ResetActiveInvocations st = st\<lparr>invocationCounter := 0, activeInvocations := [], activeTargets := []\<rparr>"

text \<open>The cleanup of clients: \<open>conns\<close> gives the number of open connections of a transport that has an interceptor. A client is closed
  after it was found idle four times in a row.\<close>

definition clean_client ::
  "(nat \<Rightarrow> int option) \<Rightarrow> string \<times> nat \<Rightarrow> inv_state \<times> (string, int) gomap \<Rightarrow> inv_state \<times> (string, int) gomap" where
  "clean_client conns entry s =
     (case (entry, s) of
        ((name, c), (st, watch)) \<Rightarrow>
          (if mget (activeTargets st) name = None \<and> (case conns c of None \<Rightarrow> True | Some n \<Rightarrow> 0 < n) then
             (if mget_or 0 watch name < 3 then (st, mbump name watch)
              else ((close_transport c st)\<lparr>targetClients := mdel name (targetClients st)\<rparr>, mdel name watch))
           else if 0 < mget_or 0 watch name then (st, mdel name watch) else (st, watch)))"

definition monitorHttpClients :: "(nat \<Rightarrow> int option) \<Rightarrow> inv_state \<times> (string, int) gomap \<Rightarrow> inv_state \<times> (string, int) gomap" where
  "monitorHttpClients conns s = fold (clean_client conns) (targetClients (fst s)) s"

end
