(* ===== verification/Invocation_Active_Laws.thy ===== *)
theory Invocation_Active_Laws
  imports Invocation_Active
begin

text \<open>
  The tables of active invocations list exactly the invocations that run, as long as they are not reset, and what a reset and a shared
  client do to an invocation that runs.
\<close>

section \<open>What registering changes\<close>

lemmas transport_defs = createTransport_def getHttpClientForTarget_def getGrpcClientForTarget_def add_transport_def keep_client_def

lemma createTransport_frame:
  assumes "createTransport svc ok par a st = (st', c)"
  shows "ivSpecs st' = ivSpecs st" "ivTrackers st' = ivTrackers st" "activeInvocations st' = activeInvocations st"
    "activeTargets st' = activeTargets st" "invocationCounter st' = invocationCounter st"
  using assms by (auto simp: transport_defs Let_def split: if_splits option.splits prod.splits)

lemma tracker_payloads_name: "tracker_payloads b64 rnd reader t = (ps, t') \<Longrightarrow> spName t' = spName t"
  by (auto simp: tracker_payloads_def split: if_splits)

lemma spName_update: "spName t = spName (ts ! a) \<Longrightarrow> spName (ts[a := t] ! k) = spName (ts ! k)"
  by (cases "a < length ts") (auto simp: nth_list_update list_update_beyond)

lemma RegisterInvocation_spec:
  assumes "RegisterInvocation e a st = (st', r)"
  shows "activeInvocations st' = activeInvocations st" "activeTargets st' = activeTargets st"
    "invocationCounter st' = (invocationCounter st + 1) mod 2 ^ 32" "length (ivSpecs st') = length (ivSpecs st)" "spec_name st' k = spec_name st k"
    "r = None \<Longrightarrow> ivTrackers st' = ivTrackers st"
    "r = Some b \<Longrightarrow> b = length (ivTrackers st) \<and> (\<exists>it. ivTrackers st' = ivTrackers st @ [it] \<and> itID it = (invocationCounter st + 1) mod 2 ^ 32 \<and> itTarget it = a \<and> \<not> itClosed it)"
proof -
  let ?n = "(invocationCounter st + 1) mod 2 ^ 32"
  obtain st1 c where c: "createTransport (rgService e) (rgGrpcOk e) (rgParent e) a (st\<lparr>invocationCounter := ?n\<rparr>) = (st1, c)" by fastforce
  obtain ps t where p: "tracker_payloads (rgBase64 e) (rgRandom e) (rgReader e) (ivSpecs st1 ! a) = (ps, t)" by fastforce
  note f = createTransport_frame [OF c] tracker_payloads_name [OF p] and d = RegisterInvocation_def newTracker_def
  show "activeInvocations st' = activeInvocations st" "activeTargets st' = activeTargets st" "invocationCounter st' = ?n"
    "length (ivSpecs st') = length (ivSpecs st)"
    using assms f c p by (auto simp: d Let_def split: option.splits)
  show "spec_name st' k = spec_name st k"
    using assms f c p by (auto simp: d Let_def spec_name_def spName_update split: option.splits)
  show "r = None \<Longrightarrow> ivTrackers st' = ivTrackers st"
    "r = Some b \<Longrightarrow> b = length (ivTrackers st) \<and> (\<exists>it. ivTrackers st' = ivTrackers st @ [it] \<and> itID it = ?n \<and> itTarget it = a \<and> \<not> itClosed it)"
    using assms f c p by (auto simp: d Let_def split: option.splits)
qed

section \<open>The tables\<close>

text \<open>The states that are reached, with the trackers whose invocation runs, while the counter does not wrap around and nothing is reset.\<close>

inductive active_reach :: "inv_state \<Rightarrow> nat set \<Rightarrow> bool" where
  init: "active_reach (inv_init\<lparr>ivSpecs := ss\<rparr>) {}"
| register: "active_reach st A \<Longrightarrow> a < length (ivSpecs st) \<Longrightarrow> invocationCounter st + 1 < 2 ^ 32 \<Longrightarrow> RegisterInvocation e a st = (st', r) \<Longrightarrow>
    active_reach st' A"
| activated: "active_reach st A \<Longrightarrow> b < length (ivTrackers st) \<Longrightarrow> \<not> itClosed (ivTrackers st ! b) \<Longrightarrow> active_reach (activate b st) (insert b A)"
| deactivated: "active_reach st A \<Longrightarrow> b \<in> A \<Longrightarrow> deactivate b st = Some st' \<Longrightarrow> active_reach st' (A - {b})"
| stop: "active_reach st A \<Longrightarrow> StopTarget name st = Some st' \<Longrightarrow> active_reach st' A"
| seen: "active_reach st A \<Longrightarrow> b < length (ivTrackers st) \<Longrightarrow> active_reach (upd_it b processStopRequest st) A"
| removed: "active_reach st A \<Longrightarrow> active_reach (RemoveHttpClientForTarget name st) A"
| cleaned: "active_reach st A \<Longrightarrow> active_reach (fst (monitorHttpClients conns (st, watch))) A"

definition trk :: "inv_state \<Rightarrow> nat \<Rightarrow> int \<times> string \<times> bool" where
  "trk st b = (itID (ivTrackers st ! b), spec_name st (itTarget (ivTrackers st ! b)), itClosed (ivTrackers st ! b))"

definition ids_inv :: "inv_state \<Rightarrow> bool" where
  "ids_inv st \<longleftrightarrow>
     0 \<le> invocationCounter st \<and>
     (\<forall>b<length (ivTrackers st). 0 < fst (trk st b) \<and> fst (trk st b) \<le> invocationCounter st) \<and>
     (\<forall>b<length (ivTrackers st). \<forall>c<length (ivTrackers st). fst (trk st b) = fst (trk st c) \<longrightarrow> b = c)"

definition tables_inv :: "inv_state \<Rightarrow> nat set \<Rightarrow> bool" where
  "tables_inv st A \<longleftrightarrow>
     A \<subseteq> {..<length (ivTrackers st)} \<and> (\<forall>b\<in>A. \<not> snd (snd (trk st b))) \<and>
     (\<forall>n b. mget (activeInvocations st) n = Some b \<longleftrightarrow> b \<in> A \<and> fst (trk st b) = n) \<and>
     (\<forall>name n b. mget (mget_or [] (activeTargets st) name) n = Some b \<longleftrightarrow> b \<in> A \<and> fst (trk st b) = n \<and> fst (snd (trk st b)) = name) \<and>
     (\<forall>name. mget (activeTargets st) name \<noteq> Some [] \<and> mwf (mget_or [] (activeTargets st) name))"

lemma tables_invI:
  assumes "A \<subseteq> {..<length (ivTrackers st)}" "\<And>b. b \<in> A \<Longrightarrow> \<not> snd (snd (trk st b))"
    "\<And>n b. mget (activeInvocations st) n = Some b \<longleftrightarrow> b \<in> A \<and> fst (trk st b) = n"
    "\<And>name n b. mget (mget_or [] (activeTargets st) name) n = Some b \<longleftrightarrow> b \<in> A \<and> fst (trk st b) = n \<and> fst (snd (trk st b)) = name"
    "\<And>name. mget (activeTargets st) name \<noteq> Some []" "\<And>name. mwf (mget_or [] (activeTargets st) name)"
  shows "tables_inv st A"
  using assms by (simp add: tables_inv_def)

lemma tables_inv_same:
  assumes "tables_inv st A" "length (ivTrackers st) \<le> length (ivTrackers st')"
    "activeInvocations st' = activeInvocations st" "activeTargets st' = activeTargets st" "\<And>b. b < length (ivTrackers st) \<Longrightarrow> trk st' b = trk st b"
  shows "tables_inv st' A"
proof -
  have A: "A \<subseteq> {..<length (ivTrackers st)}" using assms(1) by (simp add: tables_inv_def)
  then have "A \<subseteq> {..<length (ivTrackers st')}" using assms(2) by fastforce
  moreover have "b \<in> A \<Longrightarrow> trk st' b = trk st b" for b using A assms(5) by auto
  ultimately show ?thesis using assms(1) unfolding tables_inv_def by (simp add: assms(3,4) cong: conj_cong)
qed

lemma ids_inv_same:
  assumes "ids_inv st" "length (ivTrackers st') = length (ivTrackers st)" "invocationCounter st \<le> invocationCounter st'"
    "\<And>b. b < length (ivTrackers st) \<Longrightarrow> fst (trk st' b) = fst (trk st b)"
  shows "ids_inv st'"
  using assms unfolding ids_inv_def by (metis order_trans)

text \<open>Steps that leave the tables and the identities of the trackers alone.\<close>

lemma active_inv_same:
  assumes "ids_inv st \<and> tables_inv st A" "invocationCounter st' = invocationCounter st" "length (ivTrackers st') = length (ivTrackers st)"
    "activeInvocations st' = activeInvocations st" "activeTargets st' = activeTargets st" "\<And>b. b < length (ivTrackers st) \<Longrightarrow> trk st' b = trk st b"
  shows "ids_inv st' \<and> tables_inv st' A"
  using assms ids_inv_same [of st st'] tables_inv_same [of st A st'] by simp

lemma active_inv_init: "ids_inv (inv_init\<lparr>ivSpecs := ss\<rparr>) \<and> tables_inv (inv_init\<lparr>ivSpecs := ss\<rparr>) {}"
  by (simp add: ids_inv_def tables_inv_def inv_init_def mget_or_def mwf_def)

lemma active_inv_register:
  assumes inv: "ids_inv st" "tables_inv st A" and "invocationCounter st + 1 < 2 ^ 32" and reg: "RegisterInvocation e a st = (st', r)"
  shows "ids_inv st' \<and> tables_inv st' A"
proof -
  note s = RegisterInvocation_spec [OF reg]
  have n: "(invocationCounter st + 1) mod 2 ^ 32 = invocationCounter st + 1" using inv(1) assms(3) by (simp add: ids_inv_def)
  then have cnt: "invocationCounter st' = invocationCounter st + 1" using s(3) by simp
  show ?thesis
  proof (cases r)
    case None
    then have "trk st' b = trk st b" "ivTrackers st' = ivTrackers st" for b using s(5,6) by (simp_all add: trk_def)
    then show ?thesis using ids_inv_same [OF inv(1), of st'] tables_inv_same [OF inv(2), of st'] by (simp add: s(1,2) cnt)
  next
    case (Some b)
    then obtain it where it: "ivTrackers st' = ivTrackers st @ [it]" "itID it = invocationCounter st + 1" "itTarget it = a" "\<not> itClosed it"
      using s(7) n by auto
    have old: "trk st' c = trk st c" if "c < length (ivTrackers st)" for c using that by (simp add: trk_def it(1) nth_append s(5))
    have new: "fst (trk st' (length (ivTrackers st))) = invocationCounter st + 1" by (simp add: trk_def it)
    have ids: "0 < fst (trk st c) \<and> fst (trk st c) \<le> invocationCounter st" if "c < length (ivTrackers st)" for c using inv(1) that by (simp add: ids_inv_def)
    have "ids_inv st'"
      unfolding ids_inv_def
    proof (intro conjI allI impI)
      show "0 \<le> invocationCounter st'" using inv(1) by (simp add: cnt ids_inv_def)
    next
      fix c assume "c < length (ivTrackers st')"
      then consider "c < length (ivTrackers st)" | "c = length (ivTrackers st)" by (auto simp: it(1) less_Suc_eq)
      then have "0 < fst (trk st' c) \<and> fst (trk st' c) \<le> invocationCounter st'"
      proof cases
        case 1
        then show ?thesis using ids [of c] by (simp add: old cnt)
      next
        case 2
        then show ?thesis using inv(1) by (simp add: new cnt ids_inv_def)
      qed
      then show "0 < fst (trk st' c)" "fst (trk st' c) \<le> invocationCounter st'" by blast+
    next
      fix c d assume cd: "c < length (ivTrackers st')" "d < length (ivTrackers st')" "fst (trk st' c) = fst (trk st' d)"
      then consider "c < length (ivTrackers st)" "d < length (ivTrackers st)" | "c = length (ivTrackers st)" "d < length (ivTrackers st)"
        | "c < length (ivTrackers st)" "d = length (ivTrackers st)" | "c = d" by (fastforce simp: it(1))
      then show "c = d"
      proof cases
        case 1
        then show ?thesis using cd(3) inv(1) unfolding ids_inv_def old [OF 1(1)] old [OF 1(2)] by blast
      next
        case 2
        then show ?thesis using cd(3) ids [OF 2(2)] by (simp add: old [OF 2(2)] new)
      next
        case 3
        then show ?thesis using cd(3) ids [OF 3(1)] by (simp add: old [OF 3(1)] new)
      qed
    qed
    then show ?thesis using tables_inv_same [OF inv(2), of st'] old by (simp add: s(1,2) it(1))
  qed
qed

lemma active_inv_activate:
  assumes inv: "ids_inv st" "tables_inv st A" and b: "b < length (ivTrackers st)" "\<not> itClosed (ivTrackers st ! b)"
  shows "ids_inv (activate b st) \<and> tables_inv (activate b st) (insert b A)"
proof -
  let ?st = "activate b st"
  have t: "trk ?st c = trk st c" "length (ivTrackers ?st) = length (ivTrackers st)" "invocationCounter ?st = invocationCounter st" for c
    by (simp_all add: trk_def spec_name_def activate_def Let_def)
  have A: "A \<subseteq> {..<length (ivTrackers st)}" using inv by (simp add: tables_inv_def)
  have same: "c = b" if "c \<in> A" "fst (trk st c) = fst (trk st b)" for c
    using inv(1) that b(1) A unfolding ids_inv_def by (metis lessThan_iff subsetD)
  have "mget (activeInvocations ?st) n = (if n = fst (trk st b) then Some b else mget (activeInvocations st) n)" for n
    by (simp add: activate_def trk_def Let_def AList.update_conv')
  then have t3: "mget (activeInvocations ?st) n = Some c \<longleftrightarrow> c \<in> insert b A \<and> fst (trk ?st c) = n" for n c
    using inv(2) same by (auto simp: t tables_inv_def)
  have "mget (mget_or [] (activeTargets ?st) name) n =
      (if name = fst (snd (trk st b)) \<and> n = fst (trk st b) then Some b else mget (mget_or [] (activeTargets st) name) n)" for name n
    by (auto simp: activate_def trk_def Let_def AList.update_conv' mget_or_def)
  then have t4: "mget (mget_or [] (activeTargets ?st) name) n = Some c \<longleftrightarrow> c \<in> insert b A \<and> fst (trk ?st c) = n \<and> fst (snd (trk ?st c)) = name" for name n c
    using inv(2) same by (auto simp: t tables_inv_def)
  have "mput k v m \<noteq> []" for k v and m :: "(int, nat) gomap" by (cases m) auto
  then have t5: "mget (activeTargets ?st) name \<noteq> Some []" for name
    using inv(2) by (auto simp: activate_def Let_def AList.update_conv' tables_inv_def)
  have t6: "mwf (mget_or [] (activeTargets ?st) name)" for name
    using inv(2) by (auto simp: activate_def Let_def AList.update_conv' tables_inv_def mget_or_def mwf_def intro!: AList.distinct_update split: option.splits)
  have t2: "\<not> snd (snd (trk ?st c))" if "c \<in> insert b A" for c using that inv(2) b(2) by (auto simp: t tables_inv_def) (simp add: trk_def)
  have "insert b A \<subseteq> {..<length (ivTrackers ?st)}" using A b(1) by (simp add: t)
  then have "tables_inv ?st (insert b A)" using t2 t3 t4 t5 t6 by (rule tables_invI)
  moreover have "ids_inv ?st" using inv(1) by (simp add: ids_inv_def t)
  ultimately show ?thesis by blast
qed

section \<open>Ending and stopping\<close>

lemma mdel_Nil_others: "mdel n its = [] \<longleftrightarrow> (\<forall>k. k \<noteq> n \<longrightarrow> mget its k = None)"
proof
  assume "\<forall>k. k \<noteq> n \<longrightarrow> mget its k = None"
  then have "map_of (mdel n its) = Map.empty" by (auto simp: AList.delete_conv' fun_eq_iff)
  then show "mdel n its = []" by (simp add: map_of_eq_empty_iff)
qed (metis AList.delete_conv' fun_upd_other map_of.simps(1))

lemma forget_active_get:
  assumes "\<And>name. mget (activeTargets st) name \<noteq> Some []"
  shows "mget (activeInvocations (forget_active n name st)) k = (if k = n then None else mget (activeInvocations st) k)"
    "mget (mget_or [] (activeTargets (forget_active n name st)) name') k =
       (if name' = name \<and> k = n then None else mget (mget_or [] (activeTargets st) name') k)"
    "mget (activeTargets (forget_active n name st)) name' \<noteq> Some []"
proof -
  show "mget (activeInvocations (forget_active n name st)) k = (if k = n then None else mget (activeInvocations st) k)"
    by (simp add: forget_active_def AList.delete_conv' Let_def)
  have "mget its k = None" if "mdel n its = []" "k \<noteq> n" for its :: "(int, nat) gomap" and k using iffD1 [OF mdel_Nil_others that(1)] that(2) by simp
  then show "mget (mget_or [] (activeTargets (forget_active n name st)) name') k =
      (if name' = name \<and> k = n then None else mget (mget_or [] (activeTargets st) name') k)"
    by (auto simp: forget_active_def Let_def AList.delete_conv' AList.update_conv' mget_or_def split: option.splits)
  show "mget (activeTargets (forget_active n name st)) name' \<noteq> Some []"
    using assms by (auto simp: forget_active_def Let_def AList.delete_conv' AList.update_conv' split: option.splits)
qed

lemma active_frames [simp]:
  "ivTrackers (forget_active n name st) = ivTrackers st" "ivSpecs (forget_active n name st) = ivSpecs st"
  "invocationCounter (forget_active n name st) = invocationCounter st"
  "ivSpecs (upd_it b f st) = ivSpecs st" "length (ivTrackers (upd_it b f st)) = length (ivTrackers st)"
  "invocationCounter (upd_it b f st) = invocationCounter st" "activeInvocations (upd_it b f st) = activeInvocations st"
  "activeTargets (upd_it b f st) = activeTargets st"
  "ivTrackers (close_transport c st) = ivTrackers st" "ivSpecs (close_transport c st) = ivSpecs st"
  "invocationCounter (close_transport c st) = invocationCounter st" "activeInvocations (close_transport c st) = activeInvocations st"
  "activeTargets (close_transport c st) = activeTargets st"
  by (simp_all add: forget_active_def upd_it_def close_transport_def Let_def)

lemma upd_it_nth: "b < length (ivTrackers st) \<Longrightarrow> ivTrackers (upd_it b f st) ! b = f (ivTrackers st ! b)"
  by (simp add: upd_it_def)

lemma trk_upd_it:
  assumes "b < length (ivTrackers st)" "itID (f (ivTrackers st ! b)) = itID (ivTrackers st ! b)" "itTarget (f (ivTrackers st ! b)) = itTarget (ivTrackers st ! b)"
  shows "trk (upd_it b f st) c = (if c = b then (fst (trk st b), fst (snd (trk st b)), itClosed (f (ivTrackers st ! b))) else trk st c)"
  using assms by (simp add: trk_def upd_it_def spec_name_def)

lemma trk_frames [simp]: "trk (forget_active n name st) c = trk st c" "trk (close_transport d st) c = trk st c"
  by (simp_all add: trk_def spec_name_def)

lemma forget_upd [simp]:
  "activeInvocations (forget_active n name (upd_it b f st)) = activeInvocations (forget_active n name st)"
  "activeTargets (forget_active n name (upd_it b f st)) = activeTargets (forget_active n name st)"
  by (simp_all add: forget_active_def Let_def split: option.split)

text \<open>What \<open>deactivate\<close> does apart from the channels and the client.\<close>

lemma deactivate_frame:
  assumes "deactivate b st = Some st'" "b < length (ivTrackers st)"
  shows "trk st' c = (if c = b then (fst (trk st b), fst (snd (trk st b)), True) else trk st c)"
    "length (ivTrackers st') = length (ivTrackers st)" "invocationCounter st' = invocationCounter st"
    "activeInvocations st' = activeInvocations (forget_active (fst (trk st b)) (fst (snd (trk st b))) st)"
    "activeTargets st' = activeTargets (forget_active (fst (trk st b)) (fst (snd (trk st b))) st)"
proof -
  obtain it where it: "chan_Done (ivTrackers st ! b) = Some it" using assms(1) by (auto simp: deactivate_def split: option.splits)
  then have same: "itID it = itID (ivTrackers st ! b)" "itTarget it = itTarget (ivTrackers st ! b)" by (auto simp: chan_Done_def split: if_splits)
  let ?it = "(chan_Close (ReadStopRequest it))\<lparr>itClosed := True\<rparr>"
  let ?st1 = "forget_active (fst (trk st b)) (fst (snd (trk st b))) (upd_it b (\<lambda>_. ?it) st)"
  have i: "itID ?it = itID (ivTrackers st ! b)" "itTarget ?it = itTarget (ivTrackers st ! b)" "itClosed ?it"
    by (simp_all add: chan_Close_def ReadStopRequest_def same)
  have "st' = ?st1 \<or> (\<exists>d. st' = close_transport d (upd_it b (\<lambda>it. it\<lparr>itClient := None\<rparr>) ?st1))"
    using assms(1) it by (auto simp: deactivate_def Let_def same trk_def spec_name_def split: if_splits option.splits)
  then show "trk st' c = (if c = b then (fst (trk st b), fst (snd (trk st b)), True) else trk st c)"
    "length (ivTrackers st') = length (ivTrackers st)" "invocationCounter st' = invocationCounter st"
    "activeInvocations st' = activeInvocations (forget_active (fst (trk st b)) (fst (snd (trk st b))) st)"
    "activeTargets st' = activeTargets (forget_active (fst (trk st b)) (fst (snd (trk st b))) st)"
    using assms(2) i by (auto simp: trk_upd_it upd_it_nth)
qed

lemma active_inv_deactivate:
  assumes inv: "ids_inv st" "tables_inv st A" and b: "b \<in> A" and d: "deactivate b st = Some st'"
  shows "ids_inv st' \<and> tables_inv st' (A - {b})"
proof -
  have bl: "b < length (ivTrackers st)" and A: "A \<subseteq> {..<length (ivTrackers st)}" using inv(2) b by (auto simp: tables_inv_def)
  note f = deactivate_frame [OF d bl]
  have ne: "mget (activeTargets st) name \<noteq> Some []" for name using inv(2) by (simp add: tables_inv_def)
  have same: "c = b" if "c \<in> A" "fst (trk st c) = fst (trk st b)" for c
    using inv(1) that bl A unfolding ids_inv_def by (metis lessThan_iff subsetD)
  have t3: "mget (activeInvocations st') n = Some c \<longleftrightarrow> c \<in> A - {b} \<and> fst (trk st' c) = n" for n c
    using inv(2) same b by (auto simp: f forget_active_get [OF ne] tables_inv_def)
  have t4: "mget (mget_or [] (activeTargets st') name) n = Some c \<longleftrightarrow> c \<in> A - {b} \<and> fst (trk st' c) = n \<and> fst (snd (trk st' c)) = name" for name n c
    using inv(2) same b by (auto simp: f forget_active_get [OF ne] tables_inv_def)
  have t5: "mget (activeTargets st') name \<noteq> Some []" for name unfolding f by (rule forget_active_get(3) [OF ne])
  have t6: "mwf (mget_or [] (activeTargets st') name)" for name
    using inv(2) by (auto simp: f forget_active_def Let_def AList.update_conv' AList.delete_conv' tables_inv_def mget_or_def mwf_def
        intro!: AList.distinct_delete split: option.splits)
  have t2: "\<not> snd (snd (trk st' c))" if "c \<in> A - {b}" for c using that inv(2) by (simp add: f tables_inv_def)
  have "A - {b} \<subseteq> {..<length (ivTrackers st')}" using A by (auto simp: f(2))
  then have "tables_inv st' (A - {b})" using t2 t3 t4 t5 t6 by (rule tables_invI)
  moreover have "fst (trk st' c) = fst (trk st c)" for c by (simp add: f)
  then have "ids_inv st'" using ids_inv_same [OF inv(1), of st'] f(2,3) by simp
  ultimately show ?thesis by blast
qed

lemma stop_trackers_frame:
  assumes "stop_trackers its st = Some st'" "\<forall>(_, b)\<in>set its. b < length (ivTrackers st)"
  shows "trk st' c = trk st c \<and> length (ivTrackers st') = length (ivTrackers st) \<and> invocationCounter st' = invocationCounter st \<and>
    activeInvocations st' = activeInvocations st \<and> activeTargets st' = activeTargets st"
  using assms
proof (induction its arbitrary: st)
  case (Cons x its)
  obtain n b where x: "x = (n, b)" by fastforce
  obtain it where it: "stop_tracker (ivTrackers st ! b) = Some it" "stop_trackers its (upd_it b (\<lambda>_. it) st) = Some st'"
    using Cons.prems(1) by (auto simp: x split: option.splits)
  have "itID it = itID (ivTrackers st ! b)" "itTarget it = itTarget (ivTrackers st ! b)" "itClosed it = itClosed (ivTrackers st ! b)"
    using it(1) by (auto simp: stop_tracker_def split: if_splits)
  moreover have "b < length (ivTrackers st)" using Cons.prems(2) by (simp add: x)
  ultimately have "trk (upd_it b (\<lambda>_. it) st) c = trk st c" for c by (simp add: trk_upd_it) (simp add: trk_def)
  then show ?case using Cons.IH [OF it(2)] Cons.prems(2) by simp
qed simp

lemma fold_clean_frame:
  "trk (fst (fold (clean_client conns) es s)) c = trk (fst s) c \<and> length (ivTrackers (fst (fold (clean_client conns) es s))) = length (ivTrackers (fst s)) \<and>
   invocationCounter (fst (fold (clean_client conns) es s)) = invocationCounter (fst s) \<and>
   activeInvocations (fst (fold (clean_client conns) es s)) = activeInvocations (fst s) \<and>
   activeTargets (fst (fold (clean_client conns) es s)) = activeTargets (fst s)"
proof (induction es arbitrary: s)
  case (Cons e es)
  obtain name d st watch where e: "e = (name, d)" "s = (st, watch)" by fastforce
  have "trk (fst (clean_client conns e s)) c = trk st c" "length (ivTrackers (fst (clean_client conns e s))) = length (ivTrackers st)"
    "invocationCounter (fst (clean_client conns e s)) = invocationCounter st" "activeInvocations (fst (clean_client conns e s)) = activeInvocations st"
    "activeTargets (fst (clean_client conns e s)) = activeTargets st" for c
    by (simp_all add: clean_client_def e trk_def spec_name_def close_transport_def)
  then show ?case using Cons.IH [of "clean_client conns e s"] by (simp add: e(2))
qed simp

lemma active_inv_reach: "active_reach st A \<Longrightarrow> ids_inv st \<and> tables_inv st A"
proof (induction rule: active_reach.induct)
  case (init ss)
  then show ?case by (rule active_inv_init)
next
  case (register st A a e st' r)
  then show ?case using active_inv_register by blast
next
  case (activated st A b)
  then show ?case using active_inv_activate by blast
next
  case (deactivated st A b st')
  then show ?case using active_inv_deactivate by blast
next
  case (stop st A name st')
  have m: "mwf (mget_or [] (activeTargets st) name)" and
    g: "\<And>n b. mget (mget_or [] (activeTargets st) name) n = Some b \<Longrightarrow> b < length (ivTrackers st)"
    using stop.IH by (auto simp: tables_inv_def)
  have "\<forall>(_, b)\<in>set (mget_or [] (activeTargets st) name). b < length (ivTrackers st)"
    using g m by (auto simp: mwf_def)
  from stop_trackers_frame [OF _ this] show ?case using stop.hyps(2) stop.IH by (intro active_inv_same [OF stop.IH]) (simp_all add: StopTarget_def)
next
  case (seen st A b)
  have "trk (upd_it b processStopRequest st) c = trk st c" for c
    using seen.hyps(2) by (simp add: trk_upd_it processStopRequest_def) (simp add: trk_def)
  then show ?case by (intro active_inv_same [OF seen.IH]) simp_all
next
  case (removed st A name)
  show ?case
    by (intro active_inv_same [OF removed.IH]) (simp_all add: RemoveHttpClientForTarget_def trk_def spec_name_def split: option.split)
next
  case (cleaned st A conns watch)
  show ?case using fold_clean_frame [of conns "targetClients st" "(st, watch)"]
    by (intro active_inv_same [OF cleaned.IH]) (simp_all add: monitorHttpClients_def)
qed

text \<open>As long as the tables are not reset and the counter does not wrap around, a target is reported as active exactly while an invocation
  of it runs, and the table of active invocations has exactly the running ones, each under its own number.\<close>
theorem active_iff_running:
  assumes "active_reach st A"
  shows "(IsAnyTargetActive names st \<longleftrightarrow> (\<exists>b\<in>A. spec_name st (itTarget (ivTrackers st ! b)) \<in> set names)) \<and>
    (mget (activeInvocations st) n = Some b \<longleftrightarrow> b \<in> A \<and> itID (ivTrackers st ! b) = n) \<and>
    (b \<in> A \<longrightarrow> mget (activeInvocations st) (itID (ivTrackers st ! b)) = Some b \<and> \<not> itClosed (ivTrackers st ! b))"
proof -
  have inv: "tables_inv st A" using active_inv_reach [OF assms] by blast
  have "mget (activeTargets st) name \<noteq> None \<longleftrightarrow> (\<exists>b\<in>A. spec_name st (itTarget (ivTrackers st ! b)) = name)" for name
  proof
    assume "mget (activeTargets st) name \<noteq> None"
    moreover have "mget (activeTargets st) name \<noteq> Some []" using inv by (simp add: tables_inv_def)
    ultimately obtain n b rest where "mget (activeTargets st) name = Some ((n, b) # rest)" by (metis list.exhaust option.exhaust prod.exhaust)
    then have "mget (mget_or [] (activeTargets st) name) n = Some b" by (simp add: mget_or_def)
    then show "\<exists>b\<in>A. spec_name st (itTarget (ivTrackers st ! b)) = name" using inv by (auto simp: tables_inv_def trk_def)
  next
    assume "\<exists>b\<in>A. spec_name st (itTarget (ivTrackers st ! b)) = name"
    then obtain b where "b \<in> A" "fst (snd (trk st b)) = name" by (auto simp: trk_def)
    then have "mget (mget_or [] (activeTargets st) name) (fst (trk st b)) = Some b" using inv by (simp add: tables_inv_def)
    then show "mget (activeTargets st) name \<noteq> None" by (auto simp: mget_or_def split: option.splits)
  qed
  then have "IsAnyTargetActive names st \<longleftrightarrow> (\<exists>b\<in>A. spec_name st (itTarget (ivTrackers st ! b)) \<in> set names)" by (auto simp: IsAnyTargetActive_def)
  then show ?thesis using inv by (auto simp: tables_inv_def trk_def)
qed

definition sample_target :: invocation_spec where
  "sample_target = (plain_spec ''t'' ''http://a'')\<lparr>spProto := fresh_proto\<lparr>spHttp := True, spMajor := 1, spMinor := 1\<rparr>\<rparr>"

definition sample_reg :: reg_env where
  "sample_reg = \<lparr>rgService = (\<lambda>_. False), rgGrpcOk = False, rgParent = None, rgBase64 = (\<lambda>_. None), rgRandom = (\<lambda>_. []), rgReader = None, rgSinks = 1\<rparr>"

definition sample_inv :: inv_state where
  "sample_inv = fst (RegisterInvocation sample_reg 0 (inv_init\<lparr>ivSpecs := [sample_target]\<rparr>))"

lemma sample_inv_eq:
  "ivTrackers sample_inv = [\<lparr>itID = 1, itTarget = 0, itClient = Some 0, itPayloads = [[]], itSinks = 1, itChannels = True, itStopSignals = 0,
     itDoneSignals = 0, itStopRequested = False, itStopped = False, itClosed = False\<rparr>]"
  "ivSpecs sample_inv = [sample_target]" "ivTransports sample_inv = [\<lparr>tpGrpc = False, tpOpen = True\<rparr>]" "targetClients sample_inv = [(''t'', 0)]"
  by (simp_all add: sample_inv_def sample_target_def sample_reg_def RegisterInvocation_def newTracker_def transport_defs tracker_payloads_def inv_init_def
      plain_spec_def fresh_proto_def)

lemma sample_inv_reach: "active_reach (activate 0 sample_inv) {0}"
proof -
  obtain r where "RegisterInvocation sample_reg 0 (inv_init\<lparr>ivSpecs := [sample_target]\<rparr>) = (sample_inv, r)"
    by (metis prod.collapse sample_inv_def)
  from active_reach.register [OF active_reach.init _ _ this] have "active_reach sample_inv {}" by (simp add: inv_init_def)
  from active_reach.activated [OF this, of 0] show ?thesis by (simp add: sample_inv_eq)
qed

theorem active_iff_running_witness:
  "active_reach (activate 0 sample_inv) {0} \<and> IsAnyTargetActive [''t''] (activate 0 sample_inv) \<and> \<not> IsAnyTargetActive [''u''] (activate 0 sample_inv)"
proof -
  have "spec_name (activate 0 sample_inv) (itTarget (ivTrackers (activate 0 sample_inv) ! 0)) = ''t''"
    by (simp add: spec_name_def activate_def Let_def sample_inv_eq sample_target_def plain_spec_def)
  then show ?thesis using active_iff_running [OF sample_inv_reach] sample_inv_reach by auto
qed

section \<open>A reset while an invocation runs\<close>

text \<open>Stopping all targets resets the tables and the counter even if an invocation goes on. The next invocation of its target gets the
  same number, and when the old one ends it takes the new one out of the tables: the target is reported as idle while the new
  invocation runs.\<close>
theorem reset_reuses_ids:
  assumes "b < length (ivTrackers st)" "itID (ivTrackers st ! b) = 1" "itTarget (ivTrackers st ! b) < length (ivSpecs st)"
    and reg: "RegisterInvocation e (itTarget (ivTrackers st ! b)) (ResetActiveInvocations st) = (st1, Some c)"
    and d: "deactivate b (activate c st1) = Some st2"
  shows "\<not> IsAnyTargetActive [spec_name st (itTarget (ivTrackers st ! b))] st2 \<and> activeInvocations st2 = [] \<and> c \<noteq> b \<and> \<not> itClosed (ivTrackers st2 ! c)"
proof -
  note s = RegisterInvocation_spec [OF reg]
  obtain it where it: "ivTrackers st1 = ivTrackers st @ [it]" "itID it = 1" "itTarget it = itTarget (ivTrackers st ! b)" "\<not> itClosed it"
    and c: "c = length (ivTrackers st)"
    using s(7) by (auto simp: ResetActiveInvocations_def)
  let ?name = "spec_name st (itTarget (ivTrackers st ! b))" and ?st = "activate c st1"
  have name: "spec_name st1 (itTarget (ivTrackers st ! b)) = ?name" by (simp add: s(5)) (simp add: spec_name_def ResetActiveInvocations_def)
  have act: "activeInvocations ?st = [(1, c)]" "activeTargets ?st = [(?name, [(1, c)])]"
    using s(1,2) by (simp_all add: activate_def Let_def it c name ResetActiveInvocations_def mget_or_def)
  have trkb: "trk ?st b = (1, ?name, itClosed (ivTrackers st ! b))" and trkc: "\<not> snd (snd (trk ?st c))"
    using assms(1,2) name by (simp_all add: trk_def activate_def Let_def spec_name_def it c nth_append)
  have b: "b < length (ivTrackers ?st)" using assms(1) by (simp add: activate_def Let_def it)
  note f = deactivate_frame [OF d b]
  have "\<not> snd (snd (trk st2 c))" using f(1) [of c] trkc assms(1) c by simp
  moreover have "activeInvocations st2 = []" "activeTargets st2 = []" by (simp_all add: f trkb forget_active_def act Let_def)
  ultimately show ?thesis using assms(1) c by (simp add: IsAnyTargetActive_def trk_def)
qed

theorem reset_reuses_ids_witness:
  "\<exists>st2. deactivate 0 (activate 1 (fst (RegisterInvocation sample_reg 0 (ResetActiveInvocations (activate 0 sample_inv))))) = Some st2 \<and>
     \<not> IsAnyTargetActive [''t''] st2 \<and> \<not> itClosed (ivTrackers st2 ! 1)"
proof -
  let ?st = "activate 0 sample_inv"
  have tr: "ivTrackers ?st = ivTrackers sample_inv" "ivSpecs ?st = ivSpecs sample_inv" by (simp_all add: activate_def Let_def)
  obtain st1 where r: "RegisterInvocation sample_reg 0 (ResetActiveInvocations ?st) = (st1, Some 1)"
    "itClient (ivTrackers st1 ! 0) = Some 0" "itChannels (ivTrackers st1 ! 0)" "itDoneSignals (ivTrackers st1 ! 0) = 0" "itTarget (ivTrackers st1 ! 0) = 0"
    by (simp add: sample_reg_def RegisterInvocation_def newTracker_def transport_defs tracker_payloads_def ResetActiveInvocations_def activate_def
        sample_inv_eq sample_target_def plain_spec_def fresh_proto_def has_http_def Let_def)
  have "\<exists>st2. deactivate 0 (activate 1 st1) = Some st2"
    using r(2-5) by (simp add: deactivate_def chan_Done_def activate_def Let_def)
  then obtain st2 where d: "deactivate 0 (activate 1 st1) = Some st2" by blast
  have "itTarget (ivTrackers ?st ! 0) = 0" by (simp add: tr sample_inv_eq)
  moreover have "spec_name ?st 0 = ''t''" by (simp add: spec_name_def tr sample_inv_eq sample_target_def plain_spec_def)
  ultimately show ?thesis
    using reset_reuses_ids [of 0 ?st sample_reg st1 1 st2] r(1) d by (simp add: tr sample_inv_eq)
qed

section \<open>Shared clients\<close>

lemma http_register:
  assumes "RegisterInvocation e a st = (st', Some b)" "spHttp (spProto (ivSpecs st ! a))" "\<not> spLongRunning (ivSpecs st ! a)" "a < length (ivSpecs st)"
  shows "\<exists>it x. ivTrackers st' = ivTrackers st @ [it] \<and> b = length (ivTrackers st) \<and> itClient it = Some x \<and> itTarget it = a \<and> itChannels it \<and>
    itDoneSignals it = 0 \<and> mget (targetClients st') (spName (ivSpecs st ! a)) = Some x \<and> has_http st' x \<and>
    (\<forall>y. mget (targetClients st) (spName (ivSpecs st ! a)) = Some y \<and> has_http st y \<longrightarrow> x = y) \<and>
    length (ivSpecs st') = length (ivSpecs st) \<and> spProto (ivSpecs st' ! a) = spProto (ivSpecs st ! a) \<and>
    spName (ivSpecs st' ! a) = spName (ivSpecs st ! a) \<and> \<not> spLongRunning (ivSpecs st' ! a)"
proof -
  let ?n = "(invocationCounter st + 1) mod 2 ^ 32" and ?t = "ivSpecs st ! a"
  obtain ps t where p: "tracker_payloads (rgBase64 e) (rgRandom e) (rgReader e) ?t = (ps, t)" by fastforce
  have t: "spName t = spName ?t" "spProto t = spProto ?t" "spLongRunning t = spLongRunning ?t"
    using p by (auto simp: tracker_payloads_def split: if_splits)
  obtain st1 x where g: "getHttpClientForTarget ?t (st\<lparr>invocationCounter := ?n\<rparr>) = (st1, x)" by fastforce
  have c: "createTransport (rgService e) (rgGrpcOk e) (rgParent e) a (st\<lparr>invocationCounter := ?n\<rparr>) = (st1, Some x)"
    using assms(2,3) g by (simp add: createTransport_def Let_def)
  have x: "mget (targetClients st1) (spName ?t) = Some x" "has_http st1 x"
    "\<forall>y. mget (targetClients st) (spName ?t) = Some y \<and> has_http st y \<longrightarrow> x = y"
    using g assms(3) by (auto simp: getHttpClientForTarget_def add_transport_def keep_client_def has_http_def AList.update_conv' split: if_splits option.splits)
  note f = createTransport_frame [OF c]
  show ?thesis
    using assms(1,3,4) c p f t x by (auto simp: RegisterInvocation_def newTracker_def Let_def has_http_def)
qed

lemma deactivate_client:
  assumes "deactivate b st = Some st'" "\<not> spLongRunning (ivSpecs st ! itTarget (ivTrackers st ! b))" "itClient (ivTrackers st ! b) = Some x"
  shows "ivTransports st' = (ivTransports st)[x := (ivTransports st ! x)\<lparr>tpOpen := False\<rparr>]" "c \<noteq> b \<Longrightarrow> ivTrackers st' ! c = ivTrackers st ! c"
proof -
  obtain it where it: "chan_Done (ivTrackers st ! b) = Some it" using assms(1) by (auto simp: deactivate_def split: option.splits)
  then have "itTarget it = itTarget (ivTrackers st ! b)" "itClient it = Some x" using assms(3) by (auto simp: chan_Done_def split: if_splits)
  then have "st' = close_transport x (upd_it b (\<lambda>it. it\<lparr>itClient := None\<rparr>)
      (forget_active (itID it) (spName (ivSpecs st ! itTarget it)) (upd_it b (\<lambda>_. (chan_Close (ReadStopRequest it))\<lparr>itClosed := True\<rparr>) st)))"
    using assms(1,2) it by (simp add: deactivate_def Let_def)
  then show "ivTransports st' = (ivTransports st)[x := (ivTransports st ! x)\<lparr>tpOpen := False\<rparr>]" "c \<noteq> b \<Longrightarrow> ivTrackers st' ! c = ivTrackers st ! c"
    by (simp_all add: close_transport_def upd_it_def forget_active_def Let_def)
qed

text \<open>Two invocations of an HTTP target that run at the same time share its client, and the one that ends first closes it: the other
  one is left without an HTTP client.\<close>
theorem shared_client_closed:
  assumes "spHttp (spProto (ivSpecs st ! a))" "\<not> spLongRunning (ivSpecs st ! a)" "a < length (ivSpecs st)"
    and "RegisterInvocation e a st = (st1, Some b)" "RegisterInvocation e a st1 = (st2, Some c)" "deactivate b st2 = Some st3"
  shows "\<exists>x. itClient (ivTrackers st3 ! c) = Some x \<and> \<not> has_http st3 x"
proof -
  obtain it x where r1: "ivTrackers st1 = ivTrackers st @ [it]" "b = length (ivTrackers st)" "itClient it = Some x" "itTarget it = a"
    "mget (targetClients st1) (spName (ivSpecs st ! a)) = Some x" "has_http st1 x" "length (ivSpecs st1) = length (ivSpecs st)"
    "spProto (ivSpecs st1 ! a) = spProto (ivSpecs st ! a)" "spName (ivSpecs st1 ! a) = spName (ivSpecs st ! a)" "\<not> spLongRunning (ivSpecs st1 ! a)"
    using http_register [OF assms(4,1,2,3)] by blast
  obtain it2 y where r2: "ivTrackers st2 = ivTrackers st1 @ [it2]" "c = length (ivTrackers st1)" "itClient it2 = Some y" "has_http st2 y" "x = y"
    "\<not> spLongRunning (ivSpecs st2 ! a)"
    using http_register [OF assms(5)] r1 assms(1,3) by auto
  have b: "ivTrackers st2 ! b = it" "b \<noteq> c" by (simp_all add: r1 r2(1,2) nth_append)
  have d: "ivTransports st3 = (ivTransports st2)[x := (ivTransports st2 ! x)\<lparr>tpOpen := False\<rparr>]" "ivTrackers st3 ! c = ivTrackers st2 ! c"
    using deactivate_client(1) [OF assms(6), of x] deactivate_client(2) [OF assms(6), where x = x and c = c] b r1(3,4) r2(6) by simp_all
  have "itClient (ivTrackers st3 ! c) = Some x" using d(2) r2(1,2,3,5) by simp
  moreover have "\<not> has_http st3 x" using r2(4,5) by (simp add: has_http_def d(1))
  ultimately show ?thesis by blast
qed

theorem shared_client_closed_witness:
  "\<exists>st2 st3 x. RegisterInvocation sample_reg 0 sample_inv = (st2, Some 1) \<and> deactivate 0 st2 = Some st3 \<and> itClient (ivTrackers st3 ! 1) = Some x \<and> \<not> has_http st3 x"
proof -
  let ?st = "inv_init\<lparr>ivSpecs := [sample_target]\<rparr>"
  have r1: "RegisterInvocation sample_reg 0 ?st = (sample_inv, Some 0)"
    by (simp add: sample_inv_def sample_target_def sample_reg_def RegisterInvocation_def newTracker_def transport_defs inv_init_def plain_spec_def fresh_proto_def
        split: prod.split)
  obtain st2 where r2: "RegisterInvocation sample_reg 0 sample_inv = (st2, Some 1)" and c: "\<exists>st3. deactivate 0 st2 = Some st3"
    by (simp add: sample_reg_def RegisterInvocation_def newTracker_def transport_defs tracker_payloads_def sample_inv_eq sample_target_def plain_spec_def
        fresh_proto_def has_http_def deactivate_def chan_Done_def Let_def)
  then obtain st3 where d: "deactivate 0 st2 = Some st3" by blast
  show ?thesis using shared_client_closed [OF _ _ _ r1 r2 d] r2 d by (simp add: inv_init_def sample_target_def plain_spec_def fresh_proto_def)
qed

end
