(* ===== verification/Target_Client.thy ===== *)
theory Target_Client
  imports Invocation_Active_Laws Util_Tracking Util_Text
begin

text \<open>
  The client (\<open>pkg/client/target\<close>): the targets, what is tracked of their responses, invoking and stopping them, and the handlers. An
  invocation is two steps, its begin and its end; what happens between them is in the theories of invocations.
\<close>

section \<open>Targets\<close>

record target_client =
  tcInv :: inv_state
  tcTargets :: "(string, nat) gomap"
  activeTargetsCount :: int
  tcTrackHeaders :: "string list"
  tcCrossTrack :: "(string, string list) gomap"
  tcBuckets :: "int list list"

definition NewTargetClient :: target_client where
  "NewTargetClient = \<lparr>tcInv = inv_init, tcTargets = [], activeTargetsCount = 0, tcTrackHeaders = [], tcCrossTrack = [], tcBuckets = []\<rparr>"

definition tc_init :: "target_client \<Rightarrow> target_client \<times> bool" where
  "tc_init tc =
     (if 0 < activeTargetsCount tc then (tc, False)
      else (tc\<lparr>tcTargets := [], tcTrackHeaders := [], tcCrossTrack := [], tcBuckets := []\<rparr>, True))"

text \<open>The flag of a target that is added is that it is invoked at once.\<close>

datatype add_outcome = TargetAdded bool | TargetInvalid spec_error | TargetPanics

definition put_spec :: "invocation_spec \<Rightarrow> target_client \<Rightarrow> target_client \<times> nat" where
  "put_spec s tc = (tc\<lparr>tcInv := (tcInv tc)\<lparr>ivSpecs := ivSpecs (tcInv tc) @ [s]\<rparr>\<rparr>, length (ivSpecs (tcInv tc)))"

text \<open>The target is stored before its headers are written to, which panics if the target has no headers.\<close>

definition AddTarget :: "spec_env \<Rightarrow> string \<Rightarrow> string \<Rightarrow> invocation_spec option \<Rightarrow> target_client \<Rightarrow> target_client \<times> add_outcome" where
  "AddTarget e self host t tc =
     (case t of
        None \<Rightarrow> (tc, TargetPanics)
      | Some s \<Rightarrow>
          (case ValidateSpec e s of
             None \<Rightarrow> (tc, TargetPanics)
           | Some (Inl x) \<Rightarrow> (tc, TargetInvalid x)
           | Some (Inr s) \<Rightarrow>
               (let s' = s\<lparr>spHeaders := map_option (\<lambda>hs. mput ''From-Goto-Host'' host (mput ''From-Goto'' self hs)) (spHeaders s)\<rparr>;
                    (tc, a) = put_spec s' tc;
                    tc = tc\<lparr>tcTargets := mput (spName s) a (tcTargets tc), tcInv := RemoveHttpClientForTarget (spName s) (tcInv tc)\<rparr>
                in (tc, if spHeaders s = None then TargetPanics else TargetAdded (spAutoInvoke s)))))"

definition tc_removeTargets :: "string list \<Rightarrow> target_client \<Rightarrow> target_client \<times> bool" where
  "tc_removeTargets names tc = (if 0 < activeTargetsCount tc then (tc, False) else (tc\<lparr>tcTargets := fold mdel names (tcTargets tc)\<rparr>, True))"

text \<open>A target whose name is a filler stands for a peer: the filler of its URL is replaced by the address of the peer, in a copy.
  \<open>gp\<close> gives the peers of a name.\<close>

definition prepareTargetForPeer :: "(string \<Rightarrow> (string, string) gomap) \<Rightarrow> nat \<Rightarrow> target_client \<Rightarrow> target_client \<times> nat" where
  "prepareTargetForPeer gp a tc =
     (let s = ivSpecs (tcInv tc) ! a; peer = fst (GetFillerUnmarked (spName s)); ps = gp peer in
      if peer = [] \<or> ps = [] then (tc, a)
      else if Contains (spURL s) ''{'' \<and> Contains (spURL s) ''}'' then
        (let pre = hd (split_on CHR ''{'' (spURL s)); post = split_on CHR ''}'' (spURL s) ! 1
         in put_spec (s\<lparr>spName := peer, spURL := pre @ mget_or [] ps peer @ post\<rparr>) tc)
      else (tc, a))"

definition PrepareTarget :: "string \<Rightarrow> target_client \<Rightarrow> nat option" where
  "PrepareTarget name tc =
     (if name = [] then None
      else case mget (tcTargets tc) name of Some a \<Rightarrow> Some a | None \<Rightarrow> mget (tcTargets tc) (''{'' @ name @ ''}''))"

fun prepare_all :: "(string \<Rightarrow> (string, string) gomap) \<Rightarrow> string list \<Rightarrow> target_client \<Rightarrow> target_client \<times> nat list" where
  "prepare_all gp [] tc = (tc, [])"
| "prepare_all gp (n # ns) tc =
     (case PrepareTarget n tc of
        None \<Rightarrow> prepare_all gp ns tc
      | Some a \<Rightarrow>
          (case prepareTargetForPeer gp a tc of (tc, a) \<Rightarrow> (case prepare_all gp ns tc of (tc, as) \<Rightarrow> (tc, a # as))))"

definition getTargetsToInvoke :: "(string \<Rightarrow> (string, string) gomap) \<Rightarrow> request option \<Rightarrow> target_client \<Rightarrow> target_client \<times> nat list" where
  "getTargetsToInvoke gp r tc =
     (let names = (case r of None \<Rightarrow> [] | Some r \<Rightarrow> fst (GetListParam r ''targets'')) in
      if names \<noteq> [] then prepare_all gp names tc else (tc, map snd (tcTargets tc)))"

section \<open>Tracking\<close>

definition AddTrackingHeaders :: "string \<Rightarrow> target_client \<Rightarrow> target_client" where
  "AddTrackingHeaders hs tc = (case ParseTrackingHeaders hs of (h, c) \<Rightarrow> tc\<lparr>tcTrackHeaders := h, tcCrossTrack := c\<rparr>)"

definition tc_clearTrackingHeaders :: "target_client \<Rightarrow> target_client" where
  "tc_clearTrackingHeaders tc = tc\<lparr>tcTrackHeaders := [], tcCrossTrack := []\<rparr>"

definition tc_getTrackingHeaders :: "target_client \<Rightarrow> string list" where
  "tc_getTrackingHeaders tc =
     concat (map (\<lambda>h. (case mget (tcCrossTrack tc) h of None \<Rightarrow> [] | Some cs \<Rightarrow> [join_with ''|'' [h, join_with ''|'' cs]]) @ [h]) (tcTrackHeaders tc))"

definition AddTrackingTimeBuckets :: "string \<Rightarrow> target_client \<Rightarrow> target_client \<times> bool" where
  "AddTrackingTimeBuckets b tc = (case ParseTimeBuckets b of (bs, ok) \<Rightarrow> ((if ok then tc\<lparr>tcBuckets := bs\<rparr> else tc), ok))"

definition tc_clearTrackingTimeBuckets :: "target_client \<Rightarrow> target_client" where
  "tc_clearTrackingTimeBuckets tc = tc\<lparr>tcBuckets := []\<rparr>"

section \<open>Invoking and stopping\<close>

text \<open>An invocation begins when it could be registered. The second component is its tracker.\<close>

definition begin_invocation :: "reg_env \<Rightarrow> nat \<Rightarrow> target_client \<Rightarrow> target_client \<times> nat option" where
  "begin_invocation e a tc =
     (case RegisterInvocation e a (tcInv tc) of
        (st, None) \<Rightarrow> (tc\<lparr>tcInv := st\<rparr>, None)
      | (st, Some b) \<Rightarrow> (tc\<lparr>tcInv := activate b st, activeTargetsCount := activeTargetsCount tc + 1\<rparr>, Some b))"

definition end_invocation :: "nat \<Rightarrow> target_client \<Rightarrow> target_client option" where
  "end_invocation b tc =
     map_option (\<lambda>st. tc\<lparr>tcInv := st, activeTargetsCount := activeTargetsCount tc - 1\<rparr>) (deactivate b (tcInv tc))"

text \<open>A target is stopped in a goroutine of its own: if it has to wait, what it did before stays.\<close>

fun stop_until_blocked :: "(int \<times> nat) list \<Rightarrow> inv_state \<Rightarrow> inv_state" where
  "stop_until_blocked [] st = st"
| "stop_until_blocked ((_, b) # its) st =
     (case stop_tracker (ivTrackers st ! b) of None \<Rightarrow> st | Some it \<Rightarrow> stop_until_blocked its (upd_it b (\<lambda>_. it) st))"

definition go_StopTarget :: "string \<Rightarrow> inv_state \<Rightarrow> inv_state" where
  "go_StopTarget name st = stop_until_blocked (mget_or [] (activeTargets st) name) st"

text \<open>\<open>quiet\<close>: the targets are found inactive in one of the ten looks that are taken.\<close>

definition tc_stopTargets :: "string list \<Rightarrow> bool \<Rightarrow> target_client \<Rightarrow> target_client \<times> bool \<times> bool" where
  "tc_stopTargets names quiet tc =
     (let stopping = (if names \<noteq> [] then filter (\<lambda>n. n \<noteq> [] \<and> mget (tcTargets tc) n \<noteq> None) names else map fst (tcTargets tc));
          names' = map (\<lambda>n. case mget (tcTargets tc) n of Some a \<Rightarrow> spec_name (tcInv tc) a | None \<Rightarrow> n) stopping;
          st = fold go_StopTarget names' (tcInv tc);
          st = (if names = [] then ResetActiveInvocations st else st)
      in (tc\<lparr>tcInv := st\<rparr>, stopping \<noteq> [], stopping = [] \<or> quiet))"

definition InvokeAll :: "reg_env \<Rightarrow> target_client \<Rightarrow> target_client" where
  "InvokeAll e tc = fold (\<lambda>(_, a) tc. fst (begin_invocation e a tc)) (tcTargets tc) tc"

section \<open>Handlers\<close>

text \<open>A handler that panics is \<open>None\<close> for its response.\<close>

definition addTarget :: "spec_env \<Rightarrow> string \<Rightarrow> string \<Rightarrow> invocation_spec option option \<Rightarrow> target_client \<Rightarrow> target_client \<times> http_out option" where
  "addTarget e self host body tc =
     (case body of
        None \<Rightarrow> (tc, Some (WriteHeader 400 no_out))
      | Some t \<Rightarrow>
          (case AddTarget e self host t tc of
             (tc, TargetAdded _) \<Rightarrow> (tc, Some (SendEvent ''Target Added'' (WriteHeader 200 no_out)))
           | (tc, TargetInvalid _) \<Rightarrow> (tc, Some (WriteHeader 400 no_out))
           | (tc, TargetPanics) \<Rightarrow> (tc, None)))"

definition removeTargets :: "request \<Rightarrow> target_client \<Rightarrow> target_client \<times> http_out" where
  "removeTargets r tc =
     (case GetListParam r ''targets'' of
        (names, present) \<Rightarrow>
          (if \<not> present then (tc, WriteHeader 400 no_out)
           else case tc_removeTargets names tc of
                  (tc, ok) \<Rightarrow> (tc, if ok then SendEvent ''Targets Removed'' (WriteHeader 200 no_out) else WriteHeader 406 no_out)))"

definition clearTargets :: "target_client \<Rightarrow> target_client \<times> http_out" where
  "clearTargets tc =
     (case tc_init tc of (tc, ok) \<Rightarrow> (tc, if ok then SendEvent ''Target Cleared'' (WriteHeader 200 no_out) else WriteHeader 406 no_out))"

definition addTrackingHeaders :: "request \<Rightarrow> target_client \<Rightarrow> target_client \<times> http_out" where
  "addTrackingHeaders r tc =
     (case GetStringParam r ''headers'' None of
        (h, present) \<Rightarrow>
          (if present then (AddTrackingHeaders h tc, SendEvent ''Tracking Headers Added'' (WriteHeader 200 no_out)) else (tc, WriteHeader 400 no_out)))"

definition clearTrackingHeaders :: "target_client \<Rightarrow> target_client \<times> http_out" where
  "clearTrackingHeaders tc = (tc_clearTrackingHeaders tc, SendEvent ''Tracking Headers Cleared'' no_out)"

definition addTrackingTimeBuckets :: "request \<Rightarrow> target_client \<Rightarrow> target_client \<times> http_out" where
  "addTrackingTimeBuckets r tc =
     (case AddTrackingTimeBuckets (GetStringParamValue r ''buckets'' None) tc of
        (tc, ok) \<Rightarrow> (tc, if ok then SendEvent ''Tracking TimeBucket Added'' no_out else WriteHeader 400 no_out))"

definition clearTrackingTimeBuckets :: "target_client \<Rightarrow> target_client \<times> http_out" where
  "clearTrackingTimeBuckets tc = (tc_clearTrackingTimeBuckets tc, SendEvent ''Tracking TimeBuckets Cleared'' no_out)"

definition stopTargets :: "bool \<Rightarrow> request \<Rightarrow> target_client \<Rightarrow> target_client \<times> http_out" where
  "stopTargets quiet r tc =
     (case tc_stopTargets (fst (GetListParam r ''targets'')) quiet tc of
        (tc, active, _) \<Rightarrow> (tc, if active then SendEvent ''Targets Stopped'' (WriteHeader 200 no_out) else WriteHeader 200 no_out))"

text \<open>The second component is the targets that are invoked, each in a goroutine.\<close>

definition invokeTargets :: "(string \<Rightarrow> (string, string) gomap) \<Rightarrow> request \<Rightarrow> target_client \<Rightarrow> target_client \<times> nat list \<times> http_out" where
  "invokeTargets gp r tc =
     (case getTargetsToInvoke gp (Some r) tc of
        (tc, as) \<Rightarrow> (tc, as, if as \<noteq> [] then WriteHeader 200 no_out else WriteHeader 406 no_out))"

definition getTargets :: "request \<Rightarrow> target_client \<Rightarrow> string list option" where
  "getTargets r tc =
     (case GetStringParam r ''target'' None of
        (t, present) \<Rightarrow> (if present then (if mget (tcTargets tc) t \<noteq> None then Some [t] else None) else Some (map fst (tcTargets tc))))"

definition getActiveTargets :: "target_client \<Rightarrow> int \<times> (string, (int, nat) gomap) gomap" where
  "getActiveTargets tc = (activeTargetsCount tc, GetActiveInvocations (tcInv tc))"

section \<open>Behaviour\<close>

text \<open>The routes have the names of the targets in the path, but the handlers read them from the query: a request with the names in the
  path only removes nothing, invokes all targets, and stops all targets.\<close>

theorem targets_in_path_ignored:
  assumes "mget (reqQuery r) ''targets'' = None"
  shows "removeTargets r tc = (tc, WriteHeader 400 no_out) \<and> fst (snd (invokeTargets gp r tc)) = map snd (tcTargets tc) \<and>
    fst (stopTargets quiet r tc) = fst (tc_stopTargets [] quiet tc)"
  using assms by (simp add: removeTargets_def invokeTargets_def getTargetsToInvoke_def stopTargets_def GetListParam_def mget_or_def split: prod.split)

text \<open>A target without headers passes validation and is stored, so that it can be invoked, but the handler that adds it panics.\<close>

theorem target_without_headers_panics:
  assumes "ValidateSpec e s = Some (Inr t)" "spHeaders t = None"
  shows "\<exists>tc'. addTarget e self host (Some (Some s)) tc = (tc', None) \<and> PrepareTarget (spName t) tc' = (if spName t = [] then None else Some (length (ivSpecs (tcInv tc))))"
  using assms by (auto simp: addTarget_def AddTarget_def put_spec_def PrepareTarget_def Let_def)

end
