(* ===== verification/Spec2Isabelle.thy ===== *)
theory Spec2Isabelle
  imports Util_Params Util_Headers Delay_Types Headers_Types Status Uri Locker_Lifecycle
    Probes Response_Delay Response_Header Request_Filter Timeout Events Tracking Hooks Middleware Intercept Trigger Registry_Api Payload_Api Tcp_Verdicts Listeners_Props Jobs_Laws
    Invocation_Laws Invocation_Run Target_Client
begin

text \<open>
  A verification development for \<open>goto\<close>, an HTTP, TCP and gRPC server, proxy and client for testing that is
  configured at run time through its own HTTP API. Source files are named below \<open>src/\<close>.

  \<^bold>\<open>The program.\<close> A request to a listener passes a chain of middlewares
  (\<open>pkg/server/middleware/middleware.go\<close>, \<open>pkg/server/server.go\<close>): connection, hooks, tracking, URI, status,
  delay, response header, probes, timeout, filter and others. Each middleware has a table of configurations by
  port that its handlers change, and reads the table for every request that is not an admin request. The
  response is written through an intercepting writer (\<open>pkg/server/intercept\<close>) that may hold it back. Triggers
  (\<open>pkg/server/response/trigger\<close>) react to the final status. The client (\<open>pkg/client\<close>) invokes targets (\<open>pkg/invocation\<close>) and counts the results, and the registry (\<open>pkg/registry\<close>) keeps data, events and results of its peers in lockers.

  \<^bold>\<open>Conventions.\<close> A Go map is an association list (\<open>gomap\<close>, with \<open>mget\<close>, \<open>mput\<close>, \<open>mdel\<close>); the order of
  its entries stands for the order of a range loop, and the theorems hold for every order. A nil map is \<open>None\<close>
  where the code can have one. A panic (nil dereference, index out of range, write to a nil map) and a deadlock
  are the value \<open>None\<close> of an option; theorems that say that an operation returns are proved as such. Handlers take the request,
  as a record of what they read of it, and return the new state with an \<open>http_out\<close>: status codes written,
  headers added and events sent. Bodies, log lines and metrics are left out. Times are integers passed as
  \<open>now\<close>, with 0 as the zero time; random choices are a function \<open>rnd\<close> with \<open>valid_rnd\<close> (a value of the asked
  range). Code outside the repository is a parameter: \<open>time.ParseDuration\<close>, compiled regular expressions, JSON
  reading and the routes of the mux package. Locks are not modelled except where the code takes one twice; an
  operation is a step, and interleavings are sequences of steps. Counters are unbounded integers; numbers that
  are parsed or multiplied are kept at 64 bits.

  \<^bold>\<open>Theories.\<close>
  \<^item> \<open>Goto_Prelude\<close>: maps, strings, numbers, handlers, and the locales that several components share:
    \<open>countdown\<close> (a configuration that is used up, interpreted for status, delay, URI and probe counts) and
    \<open>port_local\<close> (operations that touch one port).
  \<^item> \<open>Util_Params\<close>, \<open>Util_Text\<close>, \<open>Util_Headers\<close>, \<open>Util_Tracking\<close> (\<open>pkg/util\<close>): path parameters, ports, request
    classification, text chunks and fillers, header matching, tracking configurations and counts. Parsing
    and printing numbers and time buckets are inverse.
  \<^item> \<open>Delay_Types\<close>, \<open>Headers_Types\<close> (\<open>pkg/types\<close>): delays with their bounds and counts, header changes, with the
    locale \<open>mutating_headers\<close> for both kinds of header maps.
  \<^item> \<open>Status_Manager\<close>, \<open>Status\<close> (\<open>pkg/server/response/status\<close>): outside the status endpoint, which takes a
    count of its own, forced statuses are given to exactly the number of requests that was asked for; ports are independent
    up to configurations whose body names a port; what panics; flip-flop series cycle through their codes.
  \<^item> \<open>Uri\<close>, \<open>Request_Filter\<close>, \<open>Timeout\<close>, \<open>Tracking\<close> (\<open>pkg/server/request\<close>) and \<open>Probes\<close>, \<open>Response_Delay\<close>,
    \<open>Response_Header\<close>: configuration and counts by port; what each middleware decides and counts.
  \<^item> \<open>Events\<close> (\<open>pkg/events\<close>), \<open>Hooks\<close> (\<open>pkg/server/hooks\<close>), \<open>Middleware\<close>, \<open>Intercept\<close>, \<open>Trigger\<close>: the event list,
    the hooks with their listeners and streams, how the chains are linked, what reaches the wire, and when
    triggers fire.
  \<^item> \<open>Locker_Data\<close>, \<open>Locker_Combi\<close>, \<open>Locker_Lifecycle\<close> (\<open>pkg/registry/locker\<close>, \<open>pkg/registry/lockerApi.go\<close>): the tree
    of keys in a locker with the effect of storing and removing a path; labeled lockers as a heap of objects with
    parent pointers and an index, where deleting a subtree ends and the index agrees with the tree until the lockers are
    replaced by a load or a clone; the locale \<open>path_store\<close> states that they implement a set of paths.
  \<^item> \<open>Client_Results\<close>, \<open>Results_Store\<close> (\<open>pkg/client/results\<close>): counting results, adding up the results of
    instances, and the tables with the sinks that fill them. The counters other than those of headers are the numbers of
    the results that belong to them, except the time buckets below a URI, which miss the results sent with upper-case letters.
    Adding up instances gives the same counters of all results together, except the number of retried
    invocations, which is never added.
  \<^item> \<open>Registry\<close>, \<open>Registry_Api\<close> (\<open>pkg/registry/registry.go\<close>, \<open>peerCaller.go\<close>, \<open>registryAPI.go\<close>): the peers with their
    pods and epochs, the items that are pushed to them, and the handlers; the outcome of every attempt to call a pod is
    an argument. The epochs of a pod stay consistent from every start that does not clone another registry, the
    cleanup keeps exactly the pods whose first call, or second after a time-out, is answered, and what happens to items when
    a pod fails. States after cloning or loading peers are outside these theorems.
  \<^item> \<open>Util_Json\<close> (\<open>pkg/util/json.go\<close>, \<open>payloadUtil.go\<close>): JSON documents, paths into them, and transformations of
    payloads, which change the documents in place: a position in a document is a list of steps. Replacing
    the field of a path replaces exactly the value to which its keys and indices lead.
  \<^item> \<open>Payload_Stream\<close>, \<open>Payload_Tables\<close>, \<open>Payload_Api\<close> (\<open>pkg/server/response/payload\<close>): payloads and streams with the loops that
    send them, the tables of payloads by URI, header, query parameter and body, the search for the payload of
    a request, and the handlers. The index of URIs agrees with the tables in every reachable state, and a
    payload that is set is found.
  \<^item> \<open>Tcp_Config\<close>, \<open>Tcp_Api\<close>, \<open>Tcp_Handler\<close> (\<open>pkg/server/tcp\<close>): the configuration of TCP ports as shared objects, the tables of
    connections and their handlers, and how a connection is served in each mode; what the socket and the
    clock answer is a record of functions. \<open>Tcp_Behaviour\<close> and \<open>Tcp_Verdicts\<close> show what a client observes: echo
    gives back what was sent, in full chunks; the verdict on the length of a payload is exact; the table of active
    connections lists exactly the open ones, under the listener identity their configuration has.
  \<^item> \<open>Listeners\<close>, \<open>Listeners_Api\<close> (\<open>pkg/server/listeners\<close>): listeners as shared objects with the tables that hold them, the ports
    that the host has bound, opening and closing, the listeners of the command line, and the handlers.
    \<open>Listeners_Laws\<close> has the invariant that every operation keeps; \<open>Listeners_Props\<close> shows that a listener is reported open
    exactly if it has a socket (the JSON-RPC port aside), that identities are not used twice and that forwards are current.
  \<^item> \<open>Jobs\<close> (\<open>pkg/job\<close>): the job manager, the runs of a job with their channels as counters, the loops of command and HTTP
    iterations over what they select, triggers, results and the handlers. \<open>Jobs_Laws\<close> shows which results are kept,
    for which counts a run ends, and what stopping a run that is over does.
  \<^item> \<open>Invocation_Spec\<close>, \<open>Invocation\<close>, \<open>Invocation_Active\<close> (\<open>pkg/invocation\<close>): specifications and their validation; requests, retries,
    results, assertions and the tracking of statuses, with the lock that is not reentrant; trackers, active invocations and the
    clients they share. \<open>Invocation_Laws\<close> shows when tracking blocks, how often a request is tried and which replies panic,
    \<open>Invocation_Active_Laws\<close> when a target is active and what resetting and sharing clients break. \<open>Invocation_Run\<close> is the state
    machine of the loop that hands out requests and its runners, with a measure that bounds every run.
  \<^item> \<open>Target_Client\<close> (\<open>pkg/client/target\<close>): the targets, what is tracked of them, invoking and stopping, and the handlers.

  \<^bold>\<open>Termination.\<close> Loops of the code are structural recursion or \<open>function\<close>s with a measure. The deletion of a locker
  follows pointers and is a \<open>partial_function\<close>; that it returns on every reachable state is part of its theorems. The
  loop that repeats a stream is one too, with a theorem that says exactly when it returns, and so are the loops of a
  TCP connection, which are shown to return when the client stops sending.
  There is no fuel.

  \<^bold>\<open>Not modelled.\<close> Network, file and process I/O (sockets, proxies, tunnels, the UDP server, accepting TCP connections, pipes,
  Kubernetes, TLS), adapters over third-party packages (gRPC reflection, MCP, A2A, JSON paths, YAML), metrics, logs,
  static pages and the command line. The manifest lists every component with what is left of it.
\<close>

end
